(* ===== verification/Prelude.thy ===== *)
theory Prelude
  imports Main "HOL-Library.Word" "HOL-Library.Char_ord" "HOL-Library.List_Lexorder"
begin

text \<open>
  What the components share: the named collections of rewrite rules, the exceptions of the
  library and of the server as a datatype, results and state-and-exception steps, and the model
  of \<open>std::map\<close> as an association list in strictly ascending order of its keys (the order in
  which the code iterates over it), with its laws as a locale.

  A \<open>std::string\<close> is a \<open>string\<close>; the order of \<open>std::string\<close> (bytes compared as unsigned
  values, a proper prefix first) is the lexicographic order that the library theories
  \<open>Char_ord\<close> and \<open>List_Lexorder\<close> define.
\<close>

unbundle bit_operations_syntax

named_theorems result_simps \<open>rewriting of results and of steps that may throw\<close>
named_theorems map_laws \<open>laws of the ordered maps\<close>

type_synonym u32 = "32 word"

subsection \<open>Exceptions and results\<close>

text \<open>
  The exceptions that the modelled code throws: those of \<open>snapper/Exception.h\<close>,
  \<open>snapper/Snapper.h\<close>, \<open>snapper/AsciiFile.h\<close>, \<open>snapper/Snapshot.h\<close> and those of
  \<open>server/Client.h\<close>, \<open>server/MetaSnapper.h\<close> and \<open>dbus/DBusMessage.h\<close>.  \<open>ThreadInterrupted\<close> is
  \<open>boost::thread_interrupted\<close>; \<open>Diverges\<close> is not an exception: it is the value of a loop that never
  ends.
\<close>

datatype exn =
    FileNotFoundException
  | IllegalSnapshotException
  | CreateSnapshotFailedException
  | DeleteSnapshotFailedException
  | IsSnapshotMountedFailedException
  | MountSnapshotFailedException
  | UmountSnapshotFailedException
  | InvalidUserdataException
  | InvalidConfigException
  | InvalidConfigdataException
  | ConfigNotFoundException
  | ListConfigsFailedException string
  | CreateConfigFailedException string
  | DeleteConfigFailedException string
  | ProgramNotInstalledException string
  | LogicErrorException
  | IOErrorException
  | OutOfRangeException
  | UnknownConfig
  | ConfigLocked
  | ConfigInUse
  | SnapshotInUse
  | NoComparison
  | Permissions
  | UnknownFile
  | UnsupportedException
  | MarshallingException
  | FatalException
  | BtrfsSendReceiveException
  | ThreadInterrupted
  | Diverges

type_synonym 'a res = "exn + 'a"

definition bindR :: "'e + 'a \<Rightarrow> ('a \<Rightarrow> 'e + 'b) \<Rightarrow> 'e + 'b" where
  "bindR r f = (case r of Inl e \<Rightarrow> Inl e | Inr a \<Rightarrow> f a)"

lemma bindR_simps [simp, result_simps]:
  "bindR (Inl e) f = Inl e"
  "bindR (Inr a) f = f a"
  by (simp_all add: bindR_def)

lemma bindR_eq_Inr [result_simps]:
  "bindR r f = Inr b \<longleftrightarrow> (\<exists>a. r = Inr a \<and> f a = Inr b)"
  by (cases r) auto

lemma bindR_eq_Inl [result_simps]:
  "bindR r f = Inl e \<longleftrightarrow> r = Inl e \<or> (\<exists>a. r = Inr a \<and> f a = Inl e)"
  by (cases r) auto

lemma bindR_assoc: "bindR (bindR r f) g = bindR r (\<lambda>a. bindR (f a) g)"
  by (cases r) auto

text \<open>The order of evaluation of a loop whose body may throw: left to right, up to the first
  exception.\<close>

fun mapR :: "('a \<Rightarrow> 'e + 'b) \<Rightarrow> 'a list \<Rightarrow> 'e + 'b list" where
  "mapR f [] = Inr []"
| "mapR f (x # xs) = bindR (f x) (\<lambda>y. bindR (mapR f xs) (\<lambda>ys. Inr (y # ys)))"

lemma mapR_Inr_map [simp]: "mapR (\<lambda>x. Inr (g x)) xs = Inr (map g xs)"
  by (induction xs) auto

lemma mapR_Inr_iff: "mapR f xs = Inr ys \<longleftrightarrow> list_all2 (\<lambda>x y. f x = Inr y) xs ys"
proof (induction xs arbitrary: ys)
  case (Cons x xs)
  then show ?case by (cases ys) (auto simp: bindR_eq_Inr)
qed (simp add: eq_commute)

lemma mapR_cong [fundef_cong]:
  "xs = ys \<Longrightarrow> (\<And>x. x \<in> set ys \<Longrightarrow> f x = g x) \<Longrightarrow> mapR f xs = mapR g ys"
  by (induction xs arbitrary: ys) auto

lemma bindR_cong [fundef_cong]:
  "r = r' \<Longrightarrow> (\<And>a. r' = Inr a \<Longrightarrow> f a = g a) \<Longrightarrow> bindR r f = bindR r' g"
  by (cases r) auto

subsection \<open>std::map\<close>

text \<open>
  \<open>std::map\<close> as the list of its pairs in ascending order of the keys. \<open>sm_put\<close> is
  \<open>operator[]\<close> with an assignment, \<open>sm_insert\<close> the member function \<open>insert\<close>, which keeps a
  value that is already there, \<open>sm_erase\<close> erases a key and \<open>map_of\<close> is \<open>find\<close>.
\<close>

type_synonym ('k, 'v) smap = "('k \<times> 'v) list"

fun sm_put :: "'k::linorder \<Rightarrow> 'v \<Rightarrow> ('k, 'v) smap \<Rightarrow> ('k, 'v) smap" where
  "sm_put k v [] = [(k, v)]"
| "sm_put k v ((k', v') # m) =
     (if k < k' then (k, v) # (k', v') # m
      else if k = k' then (k, v) # m
      else (k', v') # sm_put k v m)"

fun sm_erase :: "'k::linorder \<Rightarrow> ('k, 'v) smap \<Rightarrow> ('k, 'v) smap" where
  "sm_erase k [] = []"
| "sm_erase k ((k', v') # m) = (if k = k' then m else (k', v') # sm_erase k m)"

definition sm_insert :: "'k::linorder \<Rightarrow> 'v \<Rightarrow> ('k, 'v) smap \<Rightarrow> ('k, 'v) smap" where
  "sm_insert k v m = (case map_of m k of None \<Rightarrow> sm_put k v m | Some _ \<Rightarrow> m)"

abbreviation sm_wf :: "('k::linorder, 'v) smap \<Rightarrow> bool" where
  "sm_wf m \<equiv> sorted_wrt (<) (map fst m)"

lemma map_of_sm_put [simp, map_laws]: "map_of (sm_put k v m) = (map_of m)(k \<mapsto> v)"
  by (induction k v m rule: sm_put.induct) (auto simp: fun_eq_iff)

lemma set_fst_sm_put: "fst ` set (sm_put k v m) = insert k (fst ` set m)"
  by (induction k v m rule: sm_put.induct) auto

lemma set_fst_sm_erase: "fst ` set (sm_erase k m) \<subseteq> fst ` set m"
  by (induction k m rule: sm_erase.induct) auto

lemma sm_put_wf [simp, map_laws]: "sm_wf m \<Longrightarrow> sm_wf (sm_put k v m)"
  by (induction k v m rule: sm_put.induct) (auto simp: set_fst_sm_put)

lemma sm_erase_wf [simp, map_laws]: "sm_wf m \<Longrightarrow> sm_wf (sm_erase k m)"
  by (induction k m rule: sm_erase.induct) (use set_fst_sm_erase in fastforce)+

lemma map_of_above:
  "\<forall>x\<in>set m. (k::'k::linorder) < fst x \<Longrightarrow> map_of m k = None"
  by (induction m) auto

lemma map_of_sm_erase [map_laws]: "sm_wf m \<Longrightarrow> map_of (sm_erase k m) = (map_of m)(k := None)"
  by (induction k m rule: sm_erase.induct) (auto simp: fun_eq_iff map_of_above)

lemma sm_insert_wf [simp, map_laws]: "sm_wf m \<Longrightarrow> sm_wf (sm_insert k v m)"
  by (simp add: sm_insert_def split: option.splits)

lemma map_of_sm_insert [map_laws]:
  "map_of (sm_insert k v m) k' =
     (if k' = k \<and> map_of m k = None then Some v else map_of m k')"
  by (auto simp: sm_insert_def split: option.splits)

lemma sm_wf_distinct: "sm_wf m \<Longrightarrow> distinct (map fst m)"
  by (induction m) auto

lemma sm_wf_ext:
  assumes "sm_wf m1" "sm_wf m2" "map_of m1 = map_of m2"
  shows "m1 = m2"
proof -
  have d: "distinct (map fst m1)" "distinct (map fst m2)"
    using assms sm_wf_distinct by auto
  have s: "sorted (map fst m1)" "sorted (map fst m2)"
    using assms by (auto intro: sorted_wrt_mono_rel[rotated])
  have e: "set m1 = set m2"
    using assms(3) d by (simp add: map_of_inject_set)
  have "inj_on fst (set m1 \<union> set m2)"
    using d e by (simp add: distinct_map)
  then show ?thesis
    using d s e by (intro map_sorted_distinct_set_unique)
qed

subsection \<open>The laws of an ordered map, as an interface\<close>

locale ordered_map =
  fixes get :: "'m \<Rightarrow> 'k \<Rightarrow> 'v option"
    and put :: "'k \<Rightarrow> 'v \<Rightarrow> 'm \<Rightarrow> 'm"
    and del :: "'k \<Rightarrow> 'm \<Rightarrow> 'm"
    and wf :: "'m \<Rightarrow> bool"
  assumes get_put: "get (put k v m) k' = (if k' = k then Some v else get m k')"
    and get_del: "wf m \<Longrightarrow> get (del k m) k' = (if k' = k then None else get m k')"
    and wf_put: "wf m \<Longrightarrow> wf (put k v m)"
    and wf_del: "wf m \<Longrightarrow> wf (del k m)"
    and wf_ext: "wf m1 \<Longrightarrow> wf m2 \<Longrightarrow> (\<And>k. get m1 k = get m2 k) \<Longrightarrow> m1 = m2"
begin

lemma put_put: "wf m \<Longrightarrow> put k v (put k w m) = put k v m"
  by (rule wf_ext) (auto simp: wf_put get_put)

lemma put_swap: "wf m \<Longrightarrow> k \<noteq> k' \<Longrightarrow> put k v (put k' w m) = put k' w (put k v m)"
  by (rule wf_ext) (auto simp: wf_put get_put)

lemma del_put: "wf m \<Longrightarrow> get m k = None \<Longrightarrow> del k (put k v m) = m"
  by (rule wf_ext) (auto simp: wf_put wf_del get_put get_del)

lemma put_same: "wf m \<Longrightarrow> get m k = Some v \<Longrightarrow> put k v m = m"
  by (rule wf_ext) (auto simp: wf_put get_put)

lemma wf_fold_put: "wf m \<Longrightarrow> wf (fold (\<lambda>(k, v). put k v) kvs m)"
  by (induction kvs arbitrary: m) (auto simp: wf_put)

lemma get_fold_put:
  "get (fold (\<lambda>(k, v). put k v) kvs m) k =
     (case map_of (rev kvs) k of None \<Rightarrow> get m k | Some v \<Rightarrow> Some v)"
  by (induction kvs arbitrary: m)
    (auto simp: get_put map_add_def split: option.splits)

end

interpretation smap: ordered_map "map_of :: ('k::linorder, 'v) smap \<Rightarrow> 'k \<Rightarrow> 'v option"
  sm_put sm_erase "\<lambda>m. sm_wf m"
  by unfold_locales (auto simp: map_of_sm_erase intro: sm_wf_ext)

end
