(* ===== verification/Strings.thy ===== *)
theory Strings
  imports Prelude
begin

text \<open>
  The string functions that the program uses: \<open>dirname\<close> and \<open>basename\<close> of
  \<open>snapper/AppUtil.cc\<close>, \<open>decString\<close> and the stream extraction of unsigned numbers
  (\<open>snapper/SnapperTmpl.h\<close>), \<open>is_subpath\<close> of \<open>snapper/Snapper.cc\<close>, the shell quoting of
  \<open>snapper/SystemCmd.cc\<close>, and the splitting, joining and trimming of
  \<open>boost::algorithm\<close>.  The lemmas are the round trips: a path from its \<open>dirname\<close> and
  \<open>basename\<close>, a number from its decimal digits, a word from its quoted form.
\<close>

named_theorems string_simps \<open>rewriting of the string functions\<close>

subsection \<open>Searching\<close>

text \<open>\<open>rfind c s\<close> is \<open>s.find_last_of(c)\<close>, \<open>None\<close> standing for \<open>npos\<close>.\<close>

fun rfind :: "char \<Rightarrow> string \<Rightarrow> nat option" where
  "rfind c [] = None"
| "rfind c (x # xs) =
     (case rfind c xs of Some i \<Rightarrow> Some (Suc i)
      | None \<Rightarrow> if x = c then Some 0 else None)"

lemma rfind_None [simp]: "rfind c s = None \<longleftrightarrow> c \<notin> set s"
  by (induction s) (auto split: option.splits)

lemma rfind_Some:
  "rfind c s = Some i \<Longrightarrow> i < length s \<and> s ! i = c \<and> c \<notin> set (drop (Suc i) s)"
  by (induction s arbitrary: i) (auto split: option.splits if_splits)

lemma rfind_append [simp]: "c \<notin> set b \<Longrightarrow> rfind c (a @ c # b) = Some (length a)"
  by (induction a) (auto split: option.splits)

definition starts_with :: "string \<Rightarrow> string \<Rightarrow> bool" where
  "starts_with s p \<longleftrightarrow> take (length p) s = p"

definition ends_with :: "string \<Rightarrow> string \<Rightarrow> bool" where
  "ends_with s p \<longleftrightarrow> length p \<le> length s \<and> drop (length s - length p) s = p"

lemma starts_with_iff: "starts_with s p \<longleftrightarrow> (\<exists>t. s = p @ t)"
  unfolding starts_with_def by (metis append_eq_conv_conj append_take_drop_id)

lemma starts_with_append [simp]: "starts_with (p @ t) p"
  by (auto simp: starts_with_iff)

lemma ends_with_iff: "ends_with s p \<longleftrightarrow> (\<exists>t. s = t @ p)"
  by (auto simp: ends_with_def) (metis append_take_drop_id)

subsection \<open>Paths\<close>

definition dirname :: "string \<Rightarrow> string" where
  "dirname name = (case rfind CHR ''/'' name of
       None \<Rightarrow> ''.''
     | Some pos \<Rightarrow> take (if pos = 0 then 1 else pos) name)"

definition basename :: "string \<Rightarrow> string" where
  "basename name = (case rfind CHR ''/'' name of
       None \<Rightarrow> name
     | Some pos \<Rightarrow> drop (Suc pos) name)"

lemma dirname_basename:
  assumes "CHR ''/'' \<notin> set b"
  shows "dirname (a @ CHR ''/'' # b) = (if a = [] then ''/'' else a)"
    and "basename (a @ CHR ''/'' # b) = b"
  using assms by (auto simp: dirname_def basename_def)

lemma dirname_basename_split:
  assumes "CHR ''/'' \<in> set name"
  shows "(if dirname name = ''/'' then [] else dirname name) @ ''/'' @ basename name = name
     \<or> name = ''/'' @ ''/'' @ basename name"
proof -
  obtain i where i: "rfind CHR ''/'' name = Some i"
    using assms by (cases "rfind CHR ''/'' name") auto
  then have *: "i < length name" "name ! i = CHR ''/''"
    by (auto dest: rfind_Some)
  then have e: "name = take i name @ CHR ''/'' # drop (Suc i) name"
    by (metis id_take_nth_drop)
  show ?thesis
  proof (cases i)
    case 0
    then have "take (Suc 0) name = ''/''"
      using * by (cases name) auto
    then show ?thesis using 0 i e by (simp add: dirname_def basename_def)
  next
    case (Suc n)
    then show ?thesis using i e * by (auto simp: dirname_def basename_def)
  qed
qed

text \<open>\<open>is_subpath a b\<close>: the path \<open>a\<close> is the directory \<open>b\<close> or lies below it.\<close>

definition is_subpath :: "string \<Rightarrow> string \<Rightarrow> bool" where
  "is_subpath a b = (if b = ''/'' then True
     else let len = length b in
       if len > length a then False
       else (len = length a \<or> a ! len = CHR ''/'') \<and> take len a = b)"

lemma is_subpath_iff:
  "b \<noteq> ''/'' \<Longrightarrow> is_subpath a b \<longleftrightarrow> a = b \<or> (\<exists>c. a = b @ ''/'' @ c)"
proof
  assume b: "b \<noteq> ''/''" and s: "is_subpath a b"
  let ?n = "length b"
  from b s have len: "?n \<le> length a" and t: "take ?n a = b"
    and d: "?n = length a \<or> a ! ?n = CHR ''/''"
    by (auto simp: is_subpath_def Let_def split: if_splits)
  show "a = b \<or> (\<exists>c. a = b @ ''/'' @ c)"
  proof (cases "?n = length a")
    case True
    then show ?thesis using t by simp
  next
    case False
    then have "drop ?n a = CHR ''/'' # drop (Suc ?n) a"
      using d len by (metis Cons_nth_drop_Suc le_neq_implies_less)
    then show ?thesis using t by (metis append_Cons append_Nil append_take_drop_id)
  qed
next
  assume "b \<noteq> ''/''" "a = b \<or> (\<exists>c. a = b @ ''/'' @ c)"
  then show "is_subpath a b"
    by (auto simp: is_subpath_def Let_def nth_append)
qed

subsection \<open>Decimal numbers\<close>

definition digit_char :: "nat \<Rightarrow> char" where
  "digit_char d = char_of (48 + d)"

definition is_digit :: "char \<Rightarrow> bool" where
  "is_digit c \<longleftrightarrow> of_char c \<ge> (48::nat) \<and> of_char c \<le> (57::nat)"

definition digit_val :: "char \<Rightarrow> nat" where
  "digit_val c = of_char c - 48"

fun decString :: "nat \<Rightarrow> string" where
  "decString n = (if n < 10 then [digit_char n]
     else decString (n div 10) @ [digit_char (n mod 10)])"

declare decString.simps [simp del]

definition digits_val :: "string \<Rightarrow> nat" where
  "digits_val s = foldl (\<lambda>n c. 10 * n + digit_val c) 0 s"

lemma digit_char_props [simp]:
  "d < 10 \<Longrightarrow> is_digit (digit_char d)"
  "d < 10 \<Longrightarrow> digit_val (digit_char d) = d"
  by (auto simp: is_digit_def digit_char_def digit_val_def)

lemma digit_val_less [simp]: "is_digit c \<Longrightarrow> digit_val c < 10"
  by (auto simp: is_digit_def digit_val_def)

lemma digit_char_val [simp]: "is_digit c \<Longrightarrow> digit_char (digit_val c) = c"
  by (auto simp: is_digit_def digit_val_def digit_char_def)

lemma digits_val_snoc [simp]: "digits_val (s @ [c]) = 10 * digits_val s + digit_val c"
  by (simp add: digits_val_def)

lemma digits_val_Nil [simp]: "digits_val [] = 0"
  by (simp add: digits_val_def)

lemma decString_digits: "\<forall>c\<in>set (decString n). is_digit c"
  by (induction n rule: decString.induct) (subst decString.simps, auto)

lemma decString_not_Nil [simp]: "decString n \<noteq> []"
  by (subst decString.simps) auto

lemma digits_val_decString [simp]: "digits_val (decString n) = n"
proof (induction n rule: decString.induct)
  case (1 n)
  have [simp]: "digits_val [digit_char n] = n" if "n < 10"
    using that digits_val_snoc [of "[]" "digit_char n"] by simp
  show ?case
    using 1 by (subst decString.simps) auto
qed

lemma decString_inj: "decString m = decString n \<Longrightarrow> m = n"
  by (metis digits_val_decString)

definition is_space :: "char \<Rightarrow> bool" where
  "is_space c \<longleftrightarrow> c = CHR '' '' \<or> (of_char c \<ge> (9::nat) \<and> of_char c \<le> (13::nat))"

lemma digit_not_space [simp]: "is_digit c \<Longrightarrow> \<not> is_space c"
  by (auto simp: is_digit_def is_space_def)

text \<open>
  \<open>istream >> unsigned\<close> in the classic locale: white space is skipped, an optional sign is
  read, then the longest run of digits.  No digit: the value is 0 and the stream fails.  A number
  over the range: the value is the maximum and the stream fails.  After a minus sign the value is
  negated modulo \<open>2 ^ 32\<close>.  The result is the value, whether the stream is still good, and the
  characters that were not read.
\<close>

definition read_uint :: "string \<Rightarrow> u32 \<times> bool \<times> string" where
  "read_uint s =
     (let s1 = dropWhile is_space s;
          neg = (s1 \<noteq> [] \<and> hd s1 = CHR ''-'');
          s2 = (if s1 \<noteq> [] \<and> (hd s1 = CHR ''-'' \<or> hd s1 = CHR ''+'') then tl s1 else s1);
          ds = takeWhile is_digit s2;
          rest = dropWhile is_digit s2
      in if ds = [] then (0, False, rest)
         else if digits_val ds \<ge> 2 ^ 32 then (- 1, False, rest)
         else (if neg then - of_nat (digits_val ds) else of_nat (digits_val ds), True, rest))"

lemma is_digit_not_sign: "is_digit c \<Longrightarrow> c \<noteq> CHR ''-'' \<and> c \<noteq> CHR ''+''"
  by (auto simp: is_digit_def)

lemma hd_decString_digit: "is_digit (hd (decString n))"
  using decString_digits [of n] by (simp add: hd_in_set)

lemma read_uint_decString:
  assumes "rest = [] \<or> \<not> is_digit (hd rest)"
  shows "read_uint (decString (unat (w::u32)) @ rest) = (w, True, rest)"
proof -
  let ?d = "decString (unat w)"
  have hd: "hd (?d @ rest) = hd ?d" by simp
  have nsp: "dropWhile is_space (?d @ rest) = ?d @ rest"
    using hd_decString_digit [of "unat w"]
    by (cases ?d) auto
  have tw: "takeWhile is_digit (?d @ rest) = ?d"
    using decString_digits assms by (cases rest) auto
  have dw: "dropWhile is_digit (?d @ rest) = rest"
    using decString_digits assms by (cases rest) auto
  have "unat w < 2 ^ 32" using unsigned_less [of w, where ?'a = nat] by simp
  then show ?thesis
    using is_digit_not_sign [OF hd_decString_digit [of "unat w"]]
    by (simp add: read_uint_def nsp tw dw hd)
qed

subsection \<open>Splitting, joining and trimming\<close>

text \<open>\<open>boost::split\<close> at every separator character, without compression: \<open>n\<close> separators give
  \<open>n + 1\<close> pieces.  \<open>join\<close> is \<open>boost::join\<close>.\<close>

fun split_on :: "(char \<Rightarrow> bool) \<Rightarrow> string \<Rightarrow> string list" where
  "split_on p [] = [[]]"
| "split_on p (c # cs) = (if p c then [] # split_on p cs
     else (case split_on p cs of [] \<Rightarrow> [[c]] | w # ws \<Rightarrow> (c # w) # ws))"

fun join :: "string \<Rightarrow> string list \<Rightarrow> string" where
  "join sep [] = []"
| "join sep [w] = w"
| "join sep (w # v # ws) = w @ sep @ join sep (v # ws)"

lemma split_on_not_Nil [simp]: "split_on p s \<noteq> []"
  by (induction s) (auto split: list.splits)

lemma split_on_no_sep: "\<forall>c\<in>set w. \<not> p c \<Longrightarrow> split_on p w = [w]"
  by (induction w) auto

lemma split_on_append:
  "\<forall>c\<in>set w. \<not> p c \<Longrightarrow> p c \<Longrightarrow> split_on p (w @ c # s) = w # split_on p s"
  by (induction w) auto

lemma split_join:
  assumes "\<forall>w\<in>set ws. \<forall>c\<in>set w. \<not> p c" "p c" "ws \<noteq> []"
  shows "split_on p (join [c] ws) = ws"
  using assms by (induction "[c]" ws rule: join.induct) (auto simp: split_on_no_sep split_on_append)

lemma join_split: "join [c] (split_on (\<lambda>x. x = c) s) = s"
proof (induction s)
  case (Cons x s)
  then show ?case
    by (cases "split_on (\<lambda>x. x = c) s"; cases "tl (split_on (\<lambda>x. x = c) s)") auto
qed simp

definition trim_left :: "(char \<Rightarrow> bool) \<Rightarrow> string \<Rightarrow> string" where
  "trim_left p s = dropWhile p s"

definition trim_right :: "(char \<Rightarrow> bool) \<Rightarrow> string \<Rightarrow> string" where
  "trim_right p s = rev (dropWhile p (rev s))"

definition trim :: "(char \<Rightarrow> bool) \<Rightarrow> string \<Rightarrow> string" where
  "trim p s = trim_left p (trim_right p s)"

lemma trim_id:
  assumes "s = [] \<or> (\<not> p (hd s) \<and> \<not> p (last s))"
  shows "trim p s = s"
proof (cases s rule: rev_cases)
  case (snoc t c)
  then show ?thesis
    using assms by (cases t) (auto simp: trim_def trim_left_def trim_right_def)
qed (simp add: trim_def trim_left_def trim_right_def)

lemma set_trim: "set (trim p s) \<subseteq> set s"
  by (auto simp: trim_def trim_left_def trim_right_def dest!: set_dropWhileD)

subsection \<open>Shell quoting\<close>

text \<open>\<open>SystemCmd::quote\<close>: every single quote is replaced by \<open>'\''\<close>, and the whole is put
  between single quotes.\<close>

definition quote_esc :: "string \<Rightarrow> string" where
  "quote_esc s = concat (map (\<lambda>c. if c = CHR 0x27 then [CHR 0x27, CHR 0x5C, CHR 0x27, CHR 0x27] else [c]) s)"

definition quote :: "string \<Rightarrow> string" where
  "quote s = [CHR 0x27] @ quote_esc s @ [CHR 0x27]"

definition quote_list :: "string list \<Rightarrow> string" where
  "quote_list strs = join '' '' (map quote strs)"

text \<open>
  How a shell reads words (the part of the POSIX token recognition that a quoted string can
  meet): blanks separate words, characters between single quotes are literal, a backslash makes
  the next character literal, and every other special character is left to the caller (\<open>None\<close>).
\<close>

datatype sh_mode = Sep | Word | Quoted

definition sh_plain :: "char \<Rightarrow> bool" where
  "sh_plain c \<longleftrightarrow> is_digit c \<or> (of_char c \<ge> (97::nat) \<and> of_char c \<le> (122::nat))
      \<or> (of_char c \<ge> (65::nat) \<and> of_char c \<le> (90::nat)) \<or> c \<in> set ''/-_.,:=@%+''"

fun sh_words :: "sh_mode \<Rightarrow> string \<Rightarrow> string \<Rightarrow> string list option" where
  "sh_words Sep w [] = Some []"
| "sh_words Word w [] = Some [w]"
| "sh_words Quoted w [] = None"
| "sh_words Quoted w (c # s) =
     (if c = CHR 0x27 then sh_words Word w s else sh_words Quoted (w @ [c]) s)"
| "sh_words Sep w (c # s) =
     (if c = CHR '' '' then sh_words Sep [] s
      else if c = CHR 0x27 then sh_words Quoted [] s
      else if c = CHR 0x5C then (case s of [] \<Rightarrow> None | d # s' \<Rightarrow> sh_words Word [d] s')
      else if sh_plain c then sh_words Word [c] s
      else None)"
| "sh_words Word w (c # s) =
     (if c = CHR '' '' then map_option (\<lambda>ws. w # ws) (sh_words Sep [] s)
      else if c = CHR 0x27 then sh_words Quoted w s
      else if c = CHR 0x5C then (case s of [] \<Rightarrow> None | d # s' \<Rightarrow> sh_words Word (w @ [d]) s')
      else if sh_plain c then sh_words Word (w @ [c]) s
      else None)"

lemma quote_esc_simps [simp]:
  "quote_esc [] = []"
  "quote_esc (c # s) =
     (if c = CHR 0x27 then [CHR 0x27, CHR 0x5C, CHR 0x27, CHR 0x27] else [c]) @ quote_esc s"
  by (auto simp: quote_esc_def)

lemma sh_words_quote_esc:
  "sh_words Quoted w (quote_esc s @ t) = sh_words Quoted (w @ s) t"
  by (induction s arbitrary: w) auto

lemma sh_words_quote: "sh_words Sep w (quote s @ t) = sh_words Word s t"
  by (simp add: quote_def sh_words_quote_esc)

lemma sh_words_quote_list: "sh_words Sep w (quote_list strs) = Some strs"
proof (induction strs arbitrary: w)
  case (Cons s strs)
  then show ?case
    using sh_words_quote [of w s "[]"]
    by (cases strs) (auto simp: quote_list_def sh_words_quote)
qed (simp add: quote_list_def)

end
