(* ===== verification/Posix.thy ===== *)
theory Posix
  imports Strings
begin

text \<open>
  The file system that the library works on, and the system calls it makes, run as root on Linux.
  A file system is an ordered map from paths (lists of components, \<open>[]\<close> being \<open>/\<close>) to inodes.
  Path resolution follows symbolic links, at most 40 of them as Linux does.  A call returns an
  error number or a result.

  Two documented facts of Linux matter for the program and are written out: \<open>chmod\<close> and \<open>stat\<close>
  follow a symbolic link in the last component, and \<open>chown\<close> on anything but a directory clears
  the set-user-id bit, and the set-group-id bit of a file that its group may execute, also when
  root calls it (\<open>man 2 chown\<close>).
\<close>

subsection \<open>Inodes and modes\<close>

record inode =
  i_mode :: u32
  i_uid :: u32
  i_gid :: u32
  i_data :: string

type_synonym fs = "(string list, inode) smap"

definition S_IFMT :: u32 where "S_IFMT = 0xF000"
definition S_IFDIR :: u32 where "S_IFDIR = 0x4000"
definition S_IFREG :: u32 where "S_IFREG = 0x8000"
definition S_IFLNK :: u32 where "S_IFLNK = 0xA000"
definition S_ISUID :: u32 where "S_ISUID = 0x800"
definition S_ISGID :: u32 where "S_ISGID = 0x400"
definition S_IXGRP :: u32 where "S_IXGRP = 0x8"
definition PERMS :: u32 where "PERMS = 0xFFF"

definition S_ISDIR :: "u32 \<Rightarrow> bool" where "S_ISDIR m \<longleftrightarrow> m AND S_IFMT = S_IFDIR"
definition S_ISREG :: "u32 \<Rightarrow> bool" where "S_ISREG m \<longleftrightarrow> m AND S_IFMT = S_IFREG"
definition S_ISLNK :: "u32 \<Rightarrow> bool" where "S_ISLNK m \<longleftrightarrow> m AND S_IFMT = S_IFLNK"

abbreviation is_dir :: "inode \<Rightarrow> bool" where "is_dir n \<equiv> S_ISDIR (i_mode n)"
abbreviation is_reg :: "inode \<Rightarrow> bool" where "is_reg n \<equiv> S_ISREG (i_mode n)"
abbreviation is_lnk :: "inode \<Rightarrow> bool" where "is_lnk n \<equiv> S_ISLNK (i_mode n)"

lemmas mode_defs = S_IFMT_def S_IFDIR_def S_IFREG_def S_IFLNK_def S_ISUID_def S_ISGID_def
  S_IXGRP_def PERMS_def

lemma kinds_disjoint:
  "S_ISDIR m \<Longrightarrow> \<not> S_ISREG m" "S_ISDIR m \<Longrightarrow> \<not> S_ISLNK m" "S_ISREG m \<Longrightarrow> \<not> S_ISLNK m"
  "S_ISREG m \<Longrightarrow> \<not> S_ISDIR m" "S_ISLNK m \<Longrightarrow> \<not> S_ISDIR m" "S_ISLNK m \<Longrightarrow> \<not> S_ISREG m"
  by (auto simp: S_ISDIR_def S_ISREG_def S_ISLNK_def mode_defs)

text \<open>The mode after \<open>chmod\<close>, and the mode that \<open>chown\<close> leaves.\<close>

definition chmod_mode :: "u32 \<Rightarrow> u32 \<Rightarrow> u32" where
  "chmod_mode old m = (old AND S_IFMT) OR (m AND PERMS)"

definition chown_mode :: "u32 \<Rightarrow> u32" where
  "chown_mode m = (if S_ISDIR m then m
     else m AND NOT S_ISUID AND
       (if m AND (S_ISGID OR S_IXGRP) = S_ISGID OR S_IXGRP then NOT S_ISGID else - 1))"

subsection \<open>Paths\<close>

definition comps :: "string \<Rightarrow> string list" where
  "comps p = filter (\<lambda>c. c \<noteq> []) (split_on (\<lambda>c. c = CHR ''/'') p)"

definition path_str :: "string list \<Rightarrow> string" where
  "path_str ns = concat (map (\<lambda>n. CHR ''/'' # n) ns)"

definition valid_name :: "string \<Rightarrow> bool" where
  "valid_name n \<longleftrightarrow> n \<noteq> [] \<and> n \<noteq> ''.'' \<and> n \<noteq> ''..'' \<and> CHR ''/'' \<notin> set n"

lemma split_on_slash_append:
  "split_on p (a @ c # b) = split_on p a @ split_on p b" if "p c"
  using that by (induction a) (auto split: list.splits simp: Cons_eq_append_conv)

lemma comps_append: "comps (a @ CHR ''/'' # b) = comps a @ comps b"
  by (simp add: comps_def split_on_slash_append)

lemma comps_Nil [simp]: "comps [] = []"
  by (simp add: comps_def)

lemma comps_slash_Cons [simp]: "comps (CHR ''/'' # b) = comps b"
  using comps_append [of "[]" b] by simp

lemma comps_name [simp]:
  assumes "valid_name n"
  shows "comps n = [n]"
proof -
  have "split_on (\<lambda>c. c = CHR ''/'') n = [n]"
    using assms by (intro split_on_no_sep) (auto simp: valid_name_def)
  then show ?thesis using assms by (simp add: comps_def valid_name_def)
qed

lemma path_str_simps [simp]:
  "path_str [] = []" "path_str (n # ns) = CHR ''/'' # n @ path_str ns"
  "path_str (a @ b) = path_str a @ path_str b"
  by (simp_all add: path_str_def)

lemma path_str_cases: "path_str ns = [] \<or> (\<exists>t. path_str ns = CHR ''/'' # t)"
  by (cases ns) auto

lemma comps_append_path_str: "comps (a @ path_str ns) = comps a @ comps (path_str ns)"
  using path_str_cases [of ns] by (auto simp: comps_append)

lemma comps_path_str [simp]: "list_all valid_name ns \<Longrightarrow> comps (path_str ns) = ns"
proof (induction ns)
  case (Cons n ns)
  then show ?case using comps_append_path_str [of "CHR ''/'' # n" ns] by simp
qed simp

lemma rfind_path_str [simp]:
  "CHR ''/'' \<notin> set n \<Longrightarrow> rfind CHR ''/'' (p @ CHR ''/'' # n) = Some (length p)"
  by simp

subsection \<open>Resolution\<close>

datatype errno = ENOENT | EEXIST | ENOTDIR | ENOTEMPTY | ELOOP | EISDIR | EINVAL | EBUSY

text \<open>\<open>walk f fs cur cs fl\<close> resolves the components \<open>cs\<close> from the directory \<open>cur\<close>; \<open>f\<close> links may
  still be followed, \<open>fl\<close> says whether a link in the last component is followed.  The last
  component need not exist.\<close>

function walk :: "nat \<Rightarrow> fs \<Rightarrow> string list \<Rightarrow> string list \<Rightarrow> bool \<Rightarrow> errno + string list" where
  "walk f fs cur [] fl = Inr cur"
| "walk f fs cur (c # cs) fl =
     (if c = ''.'' then walk f fs cur cs fl
      else if c = ''..'' then walk f fs (butlast cur) cs fl
      else case map_of fs (cur @ [c]) of
        None \<Rightarrow> if cs = [] then Inr (cur @ [c]) else Inl ENOENT
      | Some n \<Rightarrow>
          if is_lnk n \<and> (cs \<noteq> [] \<or> fl) then
            (case f of 0 \<Rightarrow> Inl ELOOP
             | Suc f' \<Rightarrow> walk f' fs (if starts_with (i_data n) ''/'' then [] else cur)
                           (comps (i_data n) @ cs) fl)
          else if is_dir n then walk f fs (cur @ [c]) cs fl
          else if cs = [] then Inr (cur @ [c]) else Inl ENOTDIR)"
  by pat_completeness auto
termination by (relation "measures [\<lambda>(f, fs, cur, cs, fl). f, \<lambda>(f, fs, cur, cs, fl). length cs]") auto

declare walk.simps(2) [simp del]

definition resolve :: "fs \<Rightarrow> bool \<Rightarrow> string \<Rightarrow> errno + string list" where
  "resolve fs fl p = (if p = [] then Inl ENOENT else walk 40 fs [] (comps p) fl)"

definition namei :: "fs \<Rightarrow> bool \<Rightarrow> string \<Rightarrow> errno + (string list \<times> inode)" where
  "namei fs fl p = bindR (resolve fs fl p) (\<lambda>c.
     case map_of fs c of None \<Rightarrow> Inl ENOENT | Some n \<Rightarrow> Inr (c, n))"

text \<open>Every proper ancestor of \<open>base @ ns\<close> below \<open>base\<close> is a directory.\<close>

definition dirs_to :: "fs \<Rightarrow> string list \<Rightarrow> string list \<Rightarrow> bool" where
  "dirs_to fs base ns \<longleftrightarrow>
     (\<forall>k. 0 < k \<and> k < length ns \<longrightarrow> (\<exists>n. map_of fs (base @ take k ns) = Some n \<and> is_dir n))"

lemma dirs_to_Cons:
  "dirs_to fs base (m # k # ns) \<longleftrightarrow>
     (\<exists>n. map_of fs (base @ [m]) = Some n \<and> is_dir n) \<and> dirs_to fs (base @ [m]) (k # ns)"
proof -
  have "(\<forall>i. 0 < i \<and> i < Suc (length (k # ns)) \<longrightarrow> P i) \<longleftrightarrow>
      P 1 \<and> (\<forall>i. 0 < i \<and> i < length (k # ns) \<longrightarrow> P (Suc i))" for P
    by (metis One_nat_def Suc_less_eq Zero_not_Suc bot_nat_0.not_eq_extremum length_Cons
        not0_implies_Suc zero_less_Suc)
  from this [of "\<lambda>i. \<exists>n. map_of fs (base @ take i (m # k # ns)) = Some n \<and> is_dir n"]
  show ?thesis by (simp add: dirs_to_def)
qed

lemma dirs_to_single [simp]: "dirs_to fs base [m]" "dirs_to fs base []"
  by (auto simp: dirs_to_def)

lemma walk_last:
  assumes "valid_name m" "fl \<longrightarrow> (\<forall>n. map_of fs (cur @ [m]) = Some n \<longrightarrow> \<not> is_lnk n)"
  shows "walk f fs cur [m] fl = Inr (cur @ [m])"
  using assms by (cases "map_of fs (cur @ [m])") (auto simp: walk.simps(2) valid_name_def)

lemma walk_step:
  assumes "valid_name m" "map_of fs (cur @ [m]) = Some n" "is_dir n"
  shows "walk f fs cur (m # ns) fl = walk f fs (cur @ [m]) ns fl"
  using assms kinds_disjoint(2) [OF assms(3)] by (simp add: walk.simps(2) valid_name_def)

lemma walk_dirs:
  assumes "list_all valid_name ns" "dirs_to fs cur ns"
    and "fl \<longrightarrow> (\<forall>n. map_of fs (cur @ ns) = Some n \<longrightarrow> \<not> is_lnk n)"
  shows "walk f fs cur ns fl = Inr (cur @ ns)"
  using assms
proof (induction ns arbitrary: cur)
  case (Cons m ns)
  show ?case
  proof (cases ns)
    case Nil
    then show ?thesis using Cons.prems walk_last [of m fl fs cur f] by simp
  next
    case (Cons k ks)
    with Cons.prems(2) obtain n where
      n: "map_of fs (cur @ [m]) = Some n" "is_dir n" and d: "dirs_to fs (cur @ [m]) ns"
      by (auto simp: dirs_to_Cons)
    have "walk f fs (cur @ [m]) ns fl = Inr ((cur @ [m]) @ ns)"
      using Cons.prems d by (intro Cons.IH) simp_all
    then show ?thesis
      using walk_step [OF _ n, of f ns fl] Cons.prems(1) by simp
  qed
qed simp

lemma resolve_dirs:
  assumes "ns \<noteq> []" "list_all valid_name ns" "dirs_to fs [] ns"
    and "fl \<longrightarrow> (\<forall>n. map_of fs ns = Some n \<longrightarrow> \<not> is_lnk n)"
  shows "resolve fs fl (path_str ns) = Inr ns"
proof -
  have "path_str ns \<noteq> []" using assms(1) by (cases ns) auto
  then show ?thesis
    using assms walk_dirs [of ns fs "[]" fl 40] by (simp add: resolve_def)
qed

subsection \<open>System calls\<close>

definition sys_stat :: "fs \<Rightarrow> string \<Rightarrow> errno + inode" where
  "sys_stat fs p = bindR (namei fs True p) (\<lambda>(c, n). Inr n)"

definition sys_lstat :: "fs \<Rightarrow> string \<Rightarrow> errno + inode" where
  "sys_lstat fs p = bindR (namei fs False p) (\<lambda>(c, n). Inr n)"

definition has_child :: "fs \<Rightarrow> string list \<Rightarrow> bool" where
  "has_child fs c \<longleftrightarrow> list_ex (\<lambda>(k, _). k \<noteq> [] \<and> butlast k = c) fs"

text \<open>The group of a new file: that of its directory when the directory has the set-group-id
  bit, else the group of the process.\<close>

definition new_gid :: "fs \<Rightarrow> string list \<Rightarrow> u32" where
  "new_gid fs c = (case map_of fs (butlast c) of
      Some d \<Rightarrow> if i_mode d AND S_ISGID \<noteq> 0 then i_gid d else 0
    | None \<Rightarrow> 0)"

definition sys_mkdir :: "fs \<Rightarrow> u32 \<Rightarrow> string \<Rightarrow> u32 \<Rightarrow> errno + fs" where
  "sys_mkdir fs umask p m = bindR (resolve fs False p) (\<lambda>c.
     if c = [] \<or> map_of fs c \<noteq> None then Inl EEXIST
     else Inr (sm_put c \<lparr>i_mode = S_IFDIR OR (m AND NOT umask AND PERMS), i_uid = 0,
                         i_gid = new_gid fs c, i_data = []\<rparr> fs))"

definition sys_rmdir :: "fs \<Rightarrow> string \<Rightarrow> errno + fs" where
  "sys_rmdir fs p = bindR (namei fs False p) (\<lambda>(c, n).
     if \<not> is_dir n then Inl ENOTDIR
     else if c = [] then Inl EBUSY
     else if has_child fs c then Inl ENOTEMPTY
     else Inr (sm_erase c fs))"

definition sys_unlink :: "fs \<Rightarrow> string \<Rightarrow> errno + fs" where
  "sys_unlink fs p = bindR (namei fs False p) (\<lambda>(c, n).
     if is_dir n then Inl EISDIR else Inr (sm_erase c fs))"

definition sys_symlink :: "fs \<Rightarrow> string \<Rightarrow> string \<Rightarrow> errno + fs" where
  "sys_symlink fs target p =
     (if target = [] then Inl ENOENT
      else bindR (resolve fs False p) (\<lambda>c.
        if c = [] \<or> map_of fs c \<noteq> None then Inl EEXIST
        else Inr (sm_put c \<lparr>i_mode = S_IFLNK OR 0x1FF, i_uid = 0, i_gid = new_gid fs c,
                            i_data = target\<rparr> fs)))"

text \<open>\<open>readlink\<close> with the buffer of 1024 bytes that \<open>snapper/AppUtil.cc\<close> and
  \<open>snapper/FileUtils.cc\<close> pass: a longer target is cut off.\<close>

definition sys_readlink :: "fs \<Rightarrow> string \<Rightarrow> errno + string" where
  "sys_readlink fs p = bindR (namei fs False p) (\<lambda>(c, n).
     if is_lnk n then Inr (take 1024 (i_data n)) else Inl EINVAL)"

definition set_mode :: "string list \<Rightarrow> u32 \<Rightarrow> fs \<Rightarrow> fs" where
  "set_mode c m fs = (case map_of fs c of None \<Rightarrow> fs
     | Some n \<Rightarrow> sm_put c (n\<lparr>i_mode := chmod_mode (i_mode n) m\<rparr>) fs)"

definition set_owner :: "string list \<Rightarrow> u32 \<Rightarrow> u32 \<Rightarrow> fs \<Rightarrow> fs" where
  "set_owner c u g fs = (case map_of fs c of None \<Rightarrow> fs
     | Some n \<Rightarrow> sm_put c (n\<lparr>i_mode := chown_mode (i_mode n), i_uid := u, i_gid := g\<rparr>) fs)"

definition set_data :: "string list \<Rightarrow> string \<Rightarrow> fs \<Rightarrow> fs" where
  "set_data c d fs = (case map_of fs c of None \<Rightarrow> fs
     | Some n \<Rightarrow> sm_put c (n\<lparr>i_data := d\<rparr>) fs)"

definition sys_chmod :: "fs \<Rightarrow> string \<Rightarrow> u32 \<Rightarrow> errno + fs" where
  "sys_chmod fs p m = bindR (namei fs True p) (\<lambda>(c, n). Inr (set_mode c m fs))"

definition sys_chown :: "fs \<Rightarrow> string \<Rightarrow> u32 \<Rightarrow> u32 \<Rightarrow> errno + fs" where
  "sys_chown fs p u g = bindR (namei fs True p) (\<lambda>(c, n). Inr (set_owner c u g fs))"

definition sys_lchown :: "fs \<Rightarrow> string \<Rightarrow> u32 \<Rightarrow> u32 \<Rightarrow> errno + fs" where
  "sys_lchown fs p u g = bindR (namei fs False p) (\<lambda>(c, n). Inr (set_owner c u g fs))"

text \<open>\<open>open\<close> for reading, and \<open>open\<close> with \<open>O_WRONLY | O_CREAT | O_TRUNC\<close>: the result is the path of
  the inode that the descriptor refers to.\<close>

definition sys_open_read :: "fs \<Rightarrow> string \<Rightarrow> errno + string list" where
  "sys_open_read fs p = bindR (namei fs True p) (\<lambda>(c, n). Inr c)"

definition sys_open_trunc :: "fs \<Rightarrow> u32 \<Rightarrow> string \<Rightarrow> u32 \<Rightarrow> errno + (string list \<times> fs)" where
  "sys_open_trunc fs umask p m = bindR (resolve fs True p) (\<lambda>c.
     case map_of fs c of
       None \<Rightarrow> Inr (c, sm_put c \<lparr>i_mode = S_IFREG OR (m AND NOT umask AND PERMS), i_uid = 0,
                               i_gid = new_gid fs c, i_data = []\<rparr> fs)
     | Some n \<Rightarrow> if is_dir n then Inl EISDIR
                 else if is_reg n then Inr (c, set_data c [] fs) else Inr (c, fs))"

definition fd_data :: "fs \<Rightarrow> string list \<Rightarrow> string" where
  "fd_data fs c = (case map_of fs c of None \<Rightarrow> [] | Some n \<Rightarrow> i_data n)"

subsection \<open>What the calls leave alone\<close>

lemma map_of_set_mode: "map_of (set_mode c m fs) =
    (case map_of fs c of None \<Rightarrow> map_of fs
     | Some n \<Rightarrow> (map_of fs)(c \<mapsto> n\<lparr>i_mode := chmod_mode (i_mode n) m\<rparr>))"
  by (simp add: set_mode_def split: option.splits)

lemma map_of_set_owner: "map_of (set_owner c u g fs) =
    (case map_of fs c of None \<Rightarrow> map_of fs
     | Some n \<Rightarrow> (map_of fs)(c \<mapsto> n\<lparr>i_mode := chown_mode (i_mode n), i_uid := u, i_gid := g\<rparr>))"
  by (simp add: set_owner_def split: option.splits)

lemma map_of_set_data: "map_of (set_data c d fs) =
    (case map_of fs c of None \<Rightarrow> map_of fs | Some n \<Rightarrow> (map_of fs)(c \<mapsto> n\<lparr>i_data := d\<rparr>))"
  by (simp add: set_data_def split: option.splits)

lemma fs_wf_sets [simp]:
  "sm_wf fs \<Longrightarrow> sm_wf (set_mode c m fs)"
  "sm_wf fs \<Longrightarrow> sm_wf (set_owner c u g fs)"
  "sm_wf fs \<Longrightarrow> sm_wf (set_data c d fs)"
  by (simp_all add: set_mode_def set_owner_def set_data_def split: option.splits)

lemma has_child_iff:
  assumes "sm_wf fs"
  shows "has_child fs c \<longleftrightarrow> (\<exists>x. map_of fs (c @ [x]) \<noteq> None)"
proof -
  have "has_child fs c \<longleftrightarrow> (\<exists>k\<in>fst ` set fs. k \<noteq> [] \<and> butlast k = c)"
    by (force simp: has_child_def list_ex_iff)
  also have "\<dots> \<longleftrightarrow> (\<exists>x. c @ [x] \<in> fst ` set fs)"
    by (metis append_butlast_last_id butlast_snoc snoc_eq_iff_butlast)
  also have "\<dots> \<longleftrightarrow> (\<exists>x. map_of fs (c @ [x]) \<noteq> None)"
    by (simp add: map_of_eq_None_iff)
  finally show ?thesis .
qed

subsection \<open>Mode arithmetic\<close>

lemma mode_split: "(m AND S_IFMT) OR (m AND PERMS) = m AND 0xFFFF"
  by (simp add: mode_defs flip: bit.conj_disj_distrib)

lemma chmod_mode_same:
  "old AND S_IFMT = m AND S_IFMT \<Longrightarrow> m AND 0xFFFF = m \<Longrightarrow> chmod_mode old m = m"
  by (simp add: chmod_mode_def mode_split)

lemma chmod_mode_kind [simp]: "chmod_mode old m AND S_IFMT = old AND S_IFMT"
proof -
  have "(m AND PERMS) AND S_IFMT = 0"
    by (simp add: mode_defs and.assoc)
  then show ?thesis
    by (simp add: chmod_mode_def bit.conj_disj_distrib2 and.assoc)
qed

lemma chmod_mode_kinds [simp]:
  "S_ISDIR (chmod_mode old m) = S_ISDIR old"
  "S_ISREG (chmod_mode old m) = S_ISREG old"
  "S_ISLNK (chmod_mode old m) = S_ISLNK old"
  by (simp_all add: S_ISDIR_def S_ISREG_def S_ISLNK_def)

end
