(* ===== verification/Status.thy ===== *)
theory Status
  imports Prelude
begin

text \<open>
  The status of a file in a comparison (\<open>snapper/File.h\<close>, \<open>snapper/File.cc\<close>): an \<open>unsigned int\<close>
  of flags, its four character form in the file lists, and its inversion for comparisons in the
  other direction.  The statuses that the comparison of two files can give are \<open>valid_status\<close>;
  on them the text form is read back exactly, and inversion is an involution that commutes with
  the text form.  The last part is the enumeration of snapshot types and its conversion from and
  to names (\<open>snapper/Enum.h\<close>, \<open>snapper/Enum.cc\<close>).
\<close>

subsection \<open>Flags\<close>

definition CREATED :: u32 where "CREATED = 1"
definition DELETED :: u32 where "DELETED = 2"
definition TYPE' :: u32 where "TYPE' = 4"
definition CONTENT :: u32 where "CONTENT = 8"
definition PERMISSIONS :: u32 where "PERMISSIONS = 16"
definition USER :: u32 where "USER = 32"
definition GROUP :: u32 where "GROUP = 64"

lemmas flag_defs = CREATED_def DELETED_def TYPE'_def CONTENT_def PERMISSIONS_def USER_def GROUP_def

lemma flags_nonzero [simp]:
  "CREATED \<noteq> 0" "DELETED \<noteq> 0" "TYPE' \<noteq> 0" "CONTENT \<noteq> 0" "PERMISSIONS \<noteq> 0" "USER \<noteq> 0"
  "GROUP \<noteq> 0" "CREATED \<noteq> DELETED" "DELETED \<noteq> CREATED"
  by (simp_all add: flag_defs)

text \<open>\<open>has s f\<close> is the condition \<open>status & FLAG\<close> of the code.\<close>

abbreviation has :: "u32 \<Rightarrow> u32 \<Rightarrow> bool" where
  "has s f \<equiv> s AND f \<noteq> 0"

lemma has_bits:
  "has s CREATED \<longleftrightarrow> bit s 0" "has s DELETED \<longleftrightarrow> bit s 1" "has s TYPE' \<longleftrightarrow> bit s 2"
  "has s CONTENT \<longleftrightarrow> bit s 3" "has s PERMISSIONS \<longleftrightarrow> bit s 4" "has s USER \<longleftrightarrow> bit s 5"
  "has s GROUP \<longleftrightarrow> bit s 6"
  using and_exp_eq_0_iff_not_bit [of s 0] and_exp_eq_0_iff_not_bit [of s 1]
    and_exp_eq_0_iff_not_bit [of s 2] and_exp_eq_0_iff_not_bit [of s 3]
    and_exp_eq_0_iff_not_bit [of s 4] and_exp_eq_0_iff_not_bit [of s 5]
    and_exp_eq_0_iff_not_bit [of s 6]
  by (simp_all add: flag_defs)

text \<open>What \<open>cmpFiles\<close> can return: a lone \<open>CREATED\<close> or \<open>DELETED\<close>, or a set of differences in which
  \<open>TYPE'\<close> and \<open>CONTENT\<close> exclude each other.\<close>

definition valid_status :: "u32 \<Rightarrow> bool" where
  "valid_status s \<longleftrightarrow> s = CREATED \<or> s = DELETED \<or>
     (s AND (TYPE' OR CONTENT OR PERMISSIONS OR USER OR GROUP) = s
      \<and> \<not> (has s TYPE' \<and> has s CONTENT))"

subsection \<open>The text form\<close>

definition statusToString :: "u32 \<Rightarrow> string" where
  "statusToString status =
     (if has status CREATED then ''+''
      else if has status DELETED then ''-''
      else if has status TYPE' then ''t''
      else if has status CONTENT then ''c''
      else ''.'')
     @ (if has status PERMISSIONS then ''p'' else ''.'')
     @ (if has status USER then ''u'' else ''.'')
     @ (if has status GROUP then ''g'' else ''.'')"

definition stringToStatus :: "string \<Rightarrow> u32" where
  "stringToStatus str =
     (let ret = 0;
          ret = (if length str \<ge> 1 then
                   (if str ! 0 = CHR ''+'' then ret OR CREATED
                    else if str ! 0 = CHR ''-'' then ret OR DELETED
                    else if str ! 0 = CHR ''t'' then ret OR TYPE'
                    else if str ! 0 = CHR ''c'' then ret OR CONTENT
                    else ret) else ret);
          ret = (if length str \<ge> 2 \<and> str ! 1 = CHR ''p'' then ret OR PERMISSIONS else ret);
          ret = (if length str \<ge> 3 \<and> str ! 2 = CHR ''u'' then ret OR USER else ret);
          ret = (if length str \<ge> 4 \<and> str ! 3 = CHR ''g'' then ret OR GROUP else ret)
      in ret)"

definition invertStatus :: "u32 \<Rightarrow> u32" where
  "invertStatus status = (if has status (CREATED OR DELETED) then status XOR (CREATED OR DELETED)
     else status)"

lemma length_statusToString [simp]: "length (statusToString s) = 4"
  by (simp add: statusToString_def)

lemma statusToString_Cons:
  "\<exists>a b c d. statusToString s = [a, b, c, d] \<and> a \<in> set ''+-tc.'' \<and> b \<in> set ''p.''
     \<and> c \<in> set ''u.'' \<and> d \<in> set ''g.''"
  by (auto simp: statusToString_def)

definition flag :: "bool \<Rightarrow> u32 \<Rightarrow> u32" where
  "flag b f = (if b then f else 0)"

text \<open>The round trip without hypothesis: the first character keeps the strongest flag.\<close>

lemma stringToStatus_statusToString:
  "stringToStatus (statusToString s) =
     (if has s CREATED then CREATED else if has s DELETED then DELETED
      else if has s TYPE' then TYPE' else if has s CONTENT then CONTENT else 0)
     OR flag (has s PERMISSIONS) PERMISSIONS OR flag (has s USER) USER OR flag (has s GROUP) GROUP"
  by (simp add: stringToStatus_def statusToString_def flag_def or.assoc)

lemma flag_bits:
  "bit (flag b CREATED) n \<longleftrightarrow> b \<and> n = 0" "bit (flag b DELETED) n \<longleftrightarrow> b \<and> n = 1"
  "bit (flag b TYPE') n \<longleftrightarrow> b \<and> n = 2" "bit (flag b CONTENT) n \<longleftrightarrow> b \<and> n = 3"
  "bit (flag b PERMISSIONS) n \<longleftrightarrow> b \<and> n = 4" "bit (flag b USER) n \<longleftrightarrow> b \<and> n = 5"
  "bit (flag b GROUP) n \<longleftrightarrow> b \<and> n = 6"
proof -
  have e: "bit (2 ^ k :: u32) n \<longleftrightarrow> n = k" if "k < 32" for k n
    using that by (auto simp: bit_exp_iff)
  show "bit (flag b CREATED) n \<longleftrightarrow> b \<and> n = 0" "bit (flag b DELETED) n \<longleftrightarrow> b \<and> n = 1"
    "bit (flag b TYPE') n \<longleftrightarrow> b \<and> n = 2" "bit (flag b CONTENT) n \<longleftrightarrow> b \<and> n = 3"
    "bit (flag b PERMISSIONS) n \<longleftrightarrow> b \<and> n = 4" "bit (flag b USER) n \<longleftrightarrow> b \<and> n = 5"
    "bit (flag b GROUP) n \<longleftrightarrow> b \<and> n = 6"
    using e [of 0 n] e [of 1 n] e [of 2 n] e [of 3 n] e [of 4 n] e [of 5 n] e [of 6 n]
    by (auto simp: flag_def flag_defs)
qed

text \<open>A status without other bits is the union of its flags.\<close>

lemma status_flags:
  assumes "s AND 0x7F = s"
  shows "s = flag (has s CREATED) CREATED OR flag (has s DELETED) DELETED OR flag (has s TYPE') TYPE'
     OR flag (has s CONTENT) CONTENT OR flag (has s PERMISSIONS) PERMISSIONS
     OR flag (has s USER) USER OR flag (has s GROUP) GROUP"
proof (rule bit_eqI)
  fix n
  have "bit (0x7F :: u32) n \<longleftrightarrow> n < 7"
    using bit_mask_iff [of 7 n, where ?'a = u32]
    by (auto simp: mask_eq_exp_minus_1 possible_bit_def)
  then have "bit s n \<Longrightarrow> n < 7"
    using assms by (metis bit_and_iff)
  then show "bit s n \<longleftrightarrow> bit (flag (has s CREATED) CREATED OR flag (has s DELETED) DELETED
     OR flag (has s TYPE') TYPE' OR flag (has s CONTENT) CONTENT
     OR flag (has s PERMISSIONS) PERMISSIONS OR flag (has s USER) USER OR flag (has s GROUP) GROUP) n"
    by (auto simp: bit_or_iff flag_bits has_bits less_Suc_eq numeral_eq_Suc)
qed

lemma valid_status_cases:
  assumes "valid_status s"
  shows "s = CREATED \<or> s = DELETED \<or>
    (s AND 0x7F = s \<and> \<not> has s CREATED \<and> \<not> has s DELETED \<and> \<not> (has s TYPE' \<and> has s CONTENT))"
proof -
  have "s AND 0x7F = s \<and> \<not> has s CREATED \<and> \<not> has s DELETED" if s: "s AND 0x7C = s"
  proof -
    have "s AND m = s AND (0x7C AND m)" for m
      using s by (metis and.assoc)
    from this [of "0x7F"] this [of 1] this [of 2] show ?thesis
      using s by (simp add: CREATED_def DELETED_def)
  qed
  then show ?thesis using assms by (auto simp: valid_status_def flag_defs)
qed

lemma stringToStatus_valid:
  assumes "valid_status s"
  shows "stringToStatus (statusToString s) = s"
  using valid_status_cases [OF assms]
proof (elim disjE)
  assume "s AND 0x7F = s \<and> \<not> has s CREATED \<and> \<not> has s DELETED \<and> \<not> (has s TYPE' \<and> has s CONTENT)"
  then show ?thesis
    using status_flags [of s]
    by (subst stringToStatus_statusToString) (auto simp: flag_def or.assoc split: if_splits)
qed (auto simp: stringToStatus_statusToString flag_def flag_defs)

subsection \<open>Inversion\<close>

lemma invertStatus_flags [simp]:
  "invertStatus CREATED = DELETED" "invertStatus DELETED = CREATED" "invertStatus 0 = 0"
  by (simp_all add: invertStatus_def flag_defs)

lemma invertStatus_other: "\<not> has s CREATED \<Longrightarrow> \<not> has s DELETED \<Longrightarrow> invertStatus s = s"
  by (simp add: invertStatus_def bit.conj_disj_distrib)

lemma valid_status_invert: "valid_status s \<Longrightarrow> valid_status (invertStatus s)"
  using valid_status_cases [of s] invertStatus_other [of s] by (auto simp: valid_status_def)

lemma invertStatus_valid_twice: "valid_status s \<Longrightarrow> invertStatus (invertStatus s) = s"
  using valid_status_cases [of s] invertStatus_other [of s] by auto

subsection \<open>Snapshot types\<close>

datatype snapshot_type = SINGLE | PRE | POST

definition type_names :: "string list" where
  "type_names = [''single'', ''pre'', ''post'']"

text \<open>\<open>EnumInfo\<close>: the number of an enumerator is its position in the declaration.\<close>

definition enum_num :: "snapshot_type \<Rightarrow> nat" where
  "enum_num t = (case t of SINGLE \<Rightarrow> 0 | PRE \<Rightarrow> 1 | POST \<Rightarrow> 2)"

definition enum_of :: "nat \<Rightarrow> snapshot_type" where
  "enum_of n = (if n = 0 then SINGLE else if n = 1 then PRE else POST)"

definition toString :: "nat \<Rightarrow> string res" where
  "toString value = (if value \<ge> length type_names then Inl OutOfRangeException
     else Inr (type_names ! value))"

fun find_index :: "'a \<Rightarrow> 'a list \<Rightarrow> nat option" where
  "find_index x [] = None"
| "find_index x (y # ys) = (if y = x then Some 0 else map_option Suc (find_index x ys))"

definition toValue :: "string \<Rightarrow> snapshot_type option" where
  "toValue str = map_option enum_of (find_index str type_names)"

definition toValueWithFallback :: "string \<Rightarrow> snapshot_type \<Rightarrow> snapshot_type" where
  "toValueWithFallback str fallback = (case toValue str of Some v \<Rightarrow> v | None \<Rightarrow> fallback)"

lemma toString_toValue: "\<exists>s. toString (enum_num t) = Inr s \<and> toValue s = Some t"
  by (cases t) (auto simp: toString_def toValue_def type_names_def enum_num_def enum_of_def)

lemma toValue_toString: "toValue s = Some t \<Longrightarrow> toString (enum_num t) = Inr s"
  by (auto simp: toString_def toValue_def type_names_def enum_num_def enum_of_def split: if_splits)

instantiation snapshot_type :: linorder
begin

definition less_eq_snapshot_type :: "snapshot_type \<Rightarrow> snapshot_type \<Rightarrow> bool" where
  "less_eq_snapshot_type a b \<longleftrightarrow> enum_num a \<le> enum_num b"

definition less_snapshot_type :: "snapshot_type \<Rightarrow> snapshot_type \<Rightarrow> bool" where
  "less_snapshot_type a b \<longleftrightarrow> enum_num a < enum_num b"

instance
  by intro_classes
    (auto simp: less_eq_snapshot_type_def less_snapshot_type_def enum_num_def split: snapshot_type.splits)

end

end
