(* ===== verification/Files.thy ===== *)
theory Files
  imports Posix Status
begin

text \<open>
  The files of a comparison (\<open>snapper/File.h\<close>, \<open>snapper/File.cc\<close>): one \<open>File\<close> with its statuses
  and its undo operations on the file system, and the list \<open>Files\<close> with filtering, sorting,
  lookup by binary search and the list of undo steps.  A member function that changes the file
  system takes it as its last argument and returns whether it succeeded with the new one; every
  early return of the code is a branch.
\<close>

subsection \<open>Data\<close>

datatype cmp = CMP_PRE_TO_POST | CMP_PRE_TO_SYSTEM | CMP_POST_TO_SYSTEM

datatype location = LOC_PRE | LOC_POST | LOC_SYSTEM

datatype action = CREATE | MODIFY | DELETE

record undo_statistic =
  numCreate :: u32
  numModify :: u32
  numDelete :: u32

definition statistic_empty :: "undo_statistic \<Rightarrow> bool" where
  "statistic_empty rs \<longleftrightarrow> numCreate rs = 0 \<and> numModify rs = 0 \<and> numDelete rs = 0"

record undo_step =
  us_name :: string
  us_action :: action

record file_paths =
  system_path :: string
  pre_path :: string
  post_path :: string

record file_rec =
  f_name :: string
  pre_to_post_status :: u32
  pre_to_system_status :: u32
  post_to_system_status :: u32
  f_undo :: bool

text \<open>The constructor: \<open>(unsigned int) -1\<close> marks a status that is not known.\<close>

definition new_file :: "string \<Rightarrow> u32 \<Rightarrow> file_rec" where
  "new_file name status = \<lparr>f_name = name, pre_to_post_status = status, pre_to_system_status = - 1,
     post_to_system_status = - 1, f_undo = False\<rparr>"

lemma new_file_simps [simp]:
  "f_name (new_file n s) = n" "pre_to_post_status (new_file n s) = s"
  "pre_to_system_status (new_file n s) = - 1" "post_to_system_status (new_file n s) = - 1"
  "\<not> f_undo (new_file n s)"
  by (simp_all add: new_file_def)

definition getAbsolutePath :: "file_paths \<Rightarrow> file_rec \<Rightarrow> location \<Rightarrow> string" where
  "getAbsolutePath fp f loc =
     (let prefix = (case loc of LOC_PRE \<Rightarrow> pre_path fp | LOC_POST \<Rightarrow> post_path fp
                    | LOC_SYSTEM \<Rightarrow> system_path fp)
      in if prefix = ''/'' then f_name f else prefix @ f_name f)"

text \<open>The environment of the undo operations: the process's \<open>umask\<close>, whether the file system
  can clone files, and what copying given bytes does (whether it succeeds and which bytes arrive).\<close>

record undo_env =
  e_umask :: u32
  e_clone :: bool
  e_copy :: "string \<Rightarrow> bool \<times> string"

subsection \<open>Status against the system\<close>

text \<open>An open directory (\<open>SDir\<close>) is the path of its inode.  \<open>openat\<close> of one name with
  \<open>O_NOFOLLOW\<close>, as the second constructor calls it: the empty name does not exist.\<close>

definition sdir_open :: "fs \<Rightarrow> string \<Rightarrow> (string list) res" where
  "sdir_open fs base_path = (case namei fs True base_path of
       Inl _ \<Rightarrow> Inl IOErrorException
     | Inr (c, n) \<Rightarrow> if is_dir n then Inr c else Inl IOErrorException)"

definition sdir_openat :: "fs \<Rightarrow> string list \<Rightarrow> string \<Rightarrow> (string list) res" where
  "sdir_openat fs dir name =
     (if name = [] then Inl IOErrorException
      else case walk 40 fs dir [name] False of
        Inl _ \<Rightarrow> Inl IOErrorException
      | Inr c \<Rightarrow> (case map_of fs c of
          None \<Rightarrow> Inl IOErrorException
        | Some n \<Rightarrow> if is_dir n then Inr c else Inl IOErrorException))"

definition find_slash :: "string \<Rightarrow> nat option" where
  "find_slash s = find_index CHR ''/'' s"

lemma find_index_less: "find_index x xs = Some i \<Longrightarrow> i < length xs"
  by (induction xs arbitrary: i) (auto split: if_splits)

function deepopen :: "fs \<Rightarrow> string list \<Rightarrow> string \<Rightarrow> (string list) res" where
  "deepopen fs dir name = (case find_slash name of
       None \<Rightarrow> sdir_openat fs dir name
     | Some pos \<Rightarrow> bindR (sdir_openat fs dir (take pos name))
                     (\<lambda>d. deepopen fs d (drop (Suc pos) name)))"
  by pat_completeness auto
termination
  by (relation "measure (\<lambda>(fs, dir, name). length name)")
    (auto simp: find_slash_def dest: find_index_less)

declare deepopen.simps [simp del]

text \<open>\<open>File::getPreToSystemStatus\<close> and \<open>getPostToSystemStatus\<close>: the cached status, or that of the
  comparison \<open>cmpf\<close> of the two files in the opened directories.\<close>

type_synonym cmp_fun = "string list \<times> string \<Rightarrow> string list \<times> string \<Rightarrow> u32 res"

definition system_status :: "fs \<Rightarrow> cmp_fun \<Rightarrow> string \<Rightarrow> string \<Rightarrow> string \<Rightarrow> u32 res" where
  "system_status fs cmpf path1 path2 name =
     bindR (sdir_open fs path1) (\<lambda>dir1. bindR (sdir_open fs path2) (\<lambda>dir2.
     bindR (deepopen fs dir1 (dirname name)) (\<lambda>subdir1.
     bindR (deepopen fs dir2 (dirname name)) (\<lambda>subdir2.
       cmpf (subdir1, basename name) (subdir2, basename name)))))"

definition getPreToSystemStatus :: "fs \<Rightarrow> cmp_fun \<Rightarrow> file_paths \<Rightarrow> file_rec \<Rightarrow> (u32 \<times> file_rec) res" where
  "getPreToSystemStatus fs cmpf fp f =
     (if pre_to_system_status f = - 1 then
        bindR (system_status fs cmpf (pre_path fp) (system_path fp) (f_name f)) (\<lambda>s.
          Inr (s, f\<lparr>pre_to_system_status := s\<rparr>))
      else Inr (pre_to_system_status f, f))"

definition getPostToSystemStatus :: "fs \<Rightarrow> cmp_fun \<Rightarrow> file_paths \<Rightarrow> file_rec \<Rightarrow> (u32 \<times> file_rec) res" where
  "getPostToSystemStatus fs cmpf fp f =
     (if post_to_system_status f = - 1 then
        bindR (system_status fs cmpf (post_path fp) (system_path fp) (f_name f)) (\<lambda>s.
          Inr (s, f\<lparr>post_to_system_status := s\<rparr>))
      else Inr (post_to_system_status f, f))"

definition getStatus :: "fs \<Rightarrow> cmp_fun \<Rightarrow> file_paths \<Rightarrow> cmp \<Rightarrow> file_rec \<Rightarrow> (u32 \<times> file_rec) res" where
  "getStatus fs cmpf fp c f = (case c of
       CMP_PRE_TO_POST \<Rightarrow> Inr (pre_to_post_status f, f)
     | CMP_PRE_TO_SYSTEM \<Rightarrow> getPreToSystemStatus fs cmpf fp f
     | CMP_POST_TO_SYSTEM \<Rightarrow> getPostToSystemStatus fs cmpf fp f)"

subsection \<open>Undo operations\<close>

type_synonym fs_op = "fs \<Rightarrow> bool \<times> fs"

text \<open>A system call whose failure makes the function return false, and two operations of which the
  second runs only when the first succeeded.\<close>

definition call :: "(fs \<Rightarrow> errno + fs) \<Rightarrow> fs_op" where
  "call c fs = (case c fs of Inl _ \<Rightarrow> (False, fs) | Inr fs' \<Rightarrow> (True, fs'))"

definition seq :: "fs_op \<Rightarrow> fs_op \<Rightarrow> fs_op" where
  "seq a b fs = (case a fs of (False, fs') \<Rightarrow> (False, fs') | (True, fs') \<Rightarrow> b fs')"

definition skip :: fs_op where
  "skip fs = (True, fs)"

definition checkDir :: "fs \<Rightarrow> string \<Rightarrow> bool" where
  "checkDir fs p = (case sys_stat fs p of Inl _ \<Rightarrow> False | Inr n \<Rightarrow> is_dir n)"

function createParentDirectories :: "undo_env \<Rightarrow> string \<Rightarrow> fs_op" where
  "createParentDirectories env path fs = (case rfind CHR ''/'' path of
       None \<Rightarrow> (True, fs)
     | Some pos \<Rightarrow>
         let leading_path = take pos path in
         (case sys_stat fs leading_path of
            Inr n \<Rightarrow> (is_dir n, fs)
          | Inl _ \<Rightarrow> (case createParentDirectories env leading_path fs of
               (False, fs') \<Rightarrow> (False, fs')
             | (True, fs') \<Rightarrow> call (\<lambda>s. sys_mkdir s (e_umask env) leading_path 0x1FF) fs')))"
  by pat_completeness auto
termination
  by (relation "measure (\<lambda>(env, path, fs). length path)") (auto dest: rfind_Some)

declare createParentDirectories.simps [simp del]

definition createDirectory :: "undo_env \<Rightarrow> string \<Rightarrow> u32 \<Rightarrow> u32 \<Rightarrow> u32 \<Rightarrow> fs_op" where
  "createDirectory env sys mode owner grp fs =
     (case sys_mkdir fs (e_umask env) sys 0 of
        Inl e \<Rightarrow> if e = EEXIST \<and> \<not> checkDir fs sys then (False, fs)
                 else seq (call (\<lambda>s. sys_chmod s sys mode)) (call (\<lambda>s. sys_chown s sys owner grp)) fs
      | Inr fs' \<Rightarrow> seq (call (\<lambda>s. sys_chmod s sys mode)) (call (\<lambda>s. sys_chown s sys owner grp)) fs')"

text \<open>\<open>createFile\<close>: the descriptors are closed on every path, which leaves no trace in the model.\<close>

definition createFile :: "undo_env \<Rightarrow> string \<Rightarrow> string \<Rightarrow> u32 \<Rightarrow> u32 \<Rightarrow> u32 \<Rightarrow> fs_op" where
  "createFile env pre sys mode owner grp fs =
     (case sys_open_read fs pre of
        Inl _ \<Rightarrow> (False, fs)
      | Inr src_fd \<Rightarrow>
          (case sys_open_trunc fs (e_umask env) sys mode of
             Inl _ \<Rightarrow> (False, fs)
           | Inr (dest_fd, fs1) \<Rightarrow>
               let fs2 = set_mode dest_fd mode fs1;
                   fs3 = set_owner dest_fd owner grp fs2;
                   dat = fd_data fs3 src_fd in
               if e_clone env then (True, set_data dest_fd dat fs3)
               else case e_copy env dat of (ok, written) \<Rightarrow> (ok, set_data dest_fd written fs3)))"

definition createLink :: "string \<Rightarrow> string \<Rightarrow> u32 \<Rightarrow> u32 \<Rightarrow> fs_op" where
  "createLink pre sys owner grp fs =
     (let tmp = (case sys_readlink fs pre of Inl _ \<Rightarrow> [] | Inr t \<Rightarrow> t) in
      seq (call (\<lambda>s. sys_symlink s tmp sys)) (call (\<lambda>s. sys_lchown s sys owner grp)) fs)"

definition createAllTypes :: "undo_env \<Rightarrow> file_paths \<Rightarrow> file_rec \<Rightarrow> fs_op" where
  "createAllTypes env fp f fs =
     (let pre = getAbsolutePath fp f LOC_PRE; sys = getAbsolutePath fp f LOC_SYSTEM in
      case sys_lstat fs pre of
        Inl _ \<Rightarrow> (False, fs)
      | Inr st \<Rightarrow> seq (createParentDirectories env sys)
          (if is_dir st then createDirectory env sys (i_mode st) (i_uid st) (i_gid st)
           else if is_reg st then createFile env pre sys (i_mode st) (i_uid st) (i_gid st)
           else if is_lnk st then createLink pre sys (i_uid st) (i_gid st)
           else skip) fs)"

definition deleteAllTypes :: "file_paths \<Rightarrow> file_rec \<Rightarrow> fs_op" where
  "deleteAllTypes fp f fs =
     (let sys = getAbsolutePath fp f LOC_SYSTEM in
      case sys_lstat fs sys of
        Inr st \<Rightarrow> if is_dir st then call (\<lambda>s. sys_rmdir s sys) fs
                   else if is_reg st \<or> is_lnk st then call (\<lambda>s. sys_unlink s sys) fs
                   else (True, fs)
      | Inl e \<Rightarrow> (e = ENOENT, fs))"

definition modifyAllTypes :: "undo_env \<Rightarrow> file_paths \<Rightarrow> file_rec \<Rightarrow> fs_op" where
  "modifyAllTypes env fp f fs =
     (let pre = getAbsolutePath fp f LOC_PRE; sys = getAbsolutePath fp f LOC_SYSTEM;
          status = pre_to_post_status f in
      case sys_lstat fs pre of
        Inl _ \<Rightarrow> (False, fs)
      | Inr st \<Rightarrow>
          seq (createParentDirectories env sys)
          (seq (if has status CONTENT then
                  (if is_reg st then seq (deleteAllTypes fp f)
                                         (createFile env pre sys (i_mode st) (i_uid st) (i_gid st))
                   else if is_lnk st then seq (deleteAllTypes fp f)
                                              (createLink pre sys (i_uid st) (i_gid st))
                   else skip)
                else skip)
          (seq (if has status PERMISSIONS then call (\<lambda>s. sys_chmod s sys (i_mode st)) else skip)
               (if has status (USER OR GROUP) then call (\<lambda>s. sys_lchown s sys (i_uid st) (i_gid st))
                else skip))) fs)"

text \<open>\<open>doUndo\<close>: the three parts run one after the other, a failure is only remembered.\<close>

definition doUndo :: "undo_env \<Rightarrow> file_paths \<Rightarrow> file_rec \<Rightarrow> fs \<Rightarrow> bool \<times> file_rec \<times> fs" where
  "doUndo env fp f fs =
     (let status = pre_to_post_status f;
          (ok1, fs1) = (if has status CREATED \<or> has status TYPE' then deleteAllTypes fp f fs
                        else (True, fs));
          (ok2, fs2) = (if has status DELETED \<or> has status TYPE' then createAllTypes env fp f fs1
                        else (True, fs1));
          (ok3, fs3) = (if has status (CONTENT OR PERMISSIONS OR USER OR GROUP)
                        then modifyAllTypes env fp f fs2 else (True, fs2))
      in (ok1 \<and> ok2 \<and> ok3, f\<lparr>pre_to_system_status := - 1, post_to_system_status := - 1\<rparr>, fs3))"

definition getAction :: "file_rec \<Rightarrow> action" where
  "getAction f = (if pre_to_post_status f = CREATED then DELETE
     else if pre_to_post_status f = DELETED then CREATE else MODIFY)"

subsection \<open>The list of files\<close>

text \<open>\<open>fnmatch(pattern, name, 0)\<close>: \<open>*\<close>, \<open>?\<close>, escapes and bracket expressions with ranges and
  negation (named character classes are not in the model).  A \<open>[\<close> without its \<open>]\<close> is literal.\<close>

fun br_items :: "bool \<Rightarrow> string \<Rightarrow> ((char \<times> char) list \<times> string) option" where
  "br_items first [] = None"
| "br_items first (c # cs) =
     (if c = CHR '']'' \<and> \<not> first then Some ([], cs)
      else if length cs \<ge> 2 \<and> cs ! 0 = CHR ''-'' \<and> cs ! 1 \<noteq> CHR '']'' then
        map_option (\<lambda>(its, t). ((c, cs ! 1) # its, t)) (br_items False (drop 2 cs))
      else map_option (\<lambda>(its, t). ((c, c) # its, t)) (br_items False cs))"

lemma br_items_length: "br_items b s = Some (its, t) \<Longrightarrow> length t < length s"
proof (induction b s arbitrary: its t rule: br_items.induct)
  case (2 first c cs)
  show ?case
  proof (cases "c = CHR '']'' \<and> \<not> first")
    case False
    show ?thesis
    proof (cases "length cs \<ge> 2 \<and> cs ! 0 = CHR ''-'' \<and> cs ! 1 \<noteq> CHR '']''")
      case True
      then obtain i where "br_items False (drop 2 cs) = Some (i, t)"
        using 2(3) False by auto
      then show ?thesis using 2(1) [OF False True] by fastforce
    next
      case nr: False
      then obtain i where "br_items False cs = Some (i, t)"
        using 2(3) False by auto
      then show ?thesis using 2(2) [OF False nr] by fastforce
    qed
  qed (use 2 in auto)
qed simp

function fnmatch :: "string \<Rightarrow> string \<Rightarrow> bool" where
  "fnmatch [] s \<longleftrightarrow> s = []"
| "fnmatch (c # p) s \<longleftrightarrow>
     (if c = CHR ''*'' then fnmatch p s \<or> (case s of [] \<Rightarrow> False | x # s' \<Rightarrow> fnmatch (c # p) s')
      else case s of
        [] \<Rightarrow> False
      | x # s' \<Rightarrow>
          if c = CHR ''?'' then fnmatch p s'
          else if c = CHR 0x5C \<and> p \<noteq> [] then x = hd p \<and> fnmatch (tl p) s'
          else if c = CHR ''['' then
            (let neg = (p \<noteq> [] \<and> hd p \<in> set ''!^'') in
             case br_items True (if neg then tl p else p) of
               None \<Rightarrow> x = c \<and> fnmatch p s'
             | Some (its, p') \<Rightarrow> (list_ex (\<lambda>(a, b). a \<le> x \<and> x \<le> b) its \<noteq> neg) \<and> fnmatch p' s')
          else x = c \<and> fnmatch p s')"
  by pat_completeness auto
termination
  by (relation "measure (\<lambda>(p, s). length p + length s)")
    (auto dest!: br_items_length split: if_splits)

definition filter_matches :: "string list \<Rightarrow> file_rec \<Rightarrow> bool" where
  "filter_matches patterns f = list_ex (\<lambda>p. fnmatch p (f_name f)) patterns"

definition files_filter :: "string list \<Rightarrow> file_rec list \<Rightarrow> file_rec list" where
  "files_filter ignore_patterns entries = filter (\<lambda>f. \<not> filter_matches ignore_patterns f) entries"

definition files_sort :: "file_rec list \<Rightarrow> file_rec list" where
  "files_sort entries = sort_key f_name entries"

text \<open>\<open>std::lower_bound\<close>: the halving loop on a range given by its first index and its length.\<close>

function lower_bound_loop :: "('a \<Rightarrow> bool) \<Rightarrow> 'a list \<Rightarrow> nat \<Rightarrow> nat \<Rightarrow> nat" where
  "lower_bound_loop lt xs first len =
     (if len = 0 then first
      else let half = len div 2; middle = first + half in
        if lt (xs ! middle) then lower_bound_loop lt xs (Suc middle) (len - half - 1)
        else lower_bound_loop lt xs first half)"
  by auto
termination by (relation "measure (\<lambda>(lt, xs, first, len). len)") auto

declare lower_bound_loop.simps [simp del]

definition files_find :: "file_rec list \<Rightarrow> string \<Rightarrow> nat option" where
  "files_find entries name =
     (let ret = lower_bound_loop (\<lambda>f. f_name f < name) entries 0 (length entries) in
      if ret \<noteq> length entries \<and> f_name (entries ! ret) = name then Some ret else None)"

definition findAbsolutePath :: "file_paths \<Rightarrow> file_rec list \<Rightarrow> string \<Rightarrow> nat option" where
  "findAbsolutePath fp entries filename =
     (let subvolume = system_path fp in
      if \<not> starts_with filename subvolume then None
      else if subvolume = ''/'' then files_find entries filename
      else files_find entries (drop (length subvolume) filename))"

definition count_action :: "undo_statistic \<Rightarrow> file_rec \<Rightarrow> undo_statistic" where
  "count_action rs f = (if f_undo f then
     (case getAction f of
        CREATE \<Rightarrow> rs\<lparr>numCreate := numCreate rs + 1\<rparr>
      | MODIFY \<Rightarrow> rs\<lparr>numModify := numModify rs + 1\<rparr>
      | DELETE \<Rightarrow> rs\<lparr>numDelete := numDelete rs + 1\<rparr>) else rs)"

definition getUndoStatistic :: "file_rec list \<Rightarrow> undo_statistic" where
  "getUndoStatistic entries =
     foldl count_action \<lparr>numCreate = 0, numModify = 0, numDelete = 0\<rparr> entries"

definition step_of :: "file_rec \<Rightarrow> undo_step" where
  "step_of f = \<lparr>us_name = f_name f, us_action = getAction f\<rparr>"

definition getUndoSteps :: "file_rec list \<Rightarrow> undo_step list" where
  "getUndoSteps entries =
     map step_of (filter (\<lambda>f. f_undo f \<and> pre_to_post_status f = CREATED) (rev entries))
     @ map step_of (filter (\<lambda>f. f_undo f \<and> pre_to_post_status f \<noteq> CREATED) entries)"

definition doUndoStep ::
  "undo_env \<Rightarrow> file_paths \<Rightarrow> undo_step \<Rightarrow> file_rec list \<times> fs \<Rightarrow> bool \<times> (file_rec list \<times> fs)" where
  "doUndoStep env fp st s = (case s of (entries, fs) \<Rightarrow>
     (case files_find entries (us_name st) of
        None \<Rightarrow> (False, s)
      | Some i \<Rightarrow> (case doUndo env fp (entries ! i) fs of
          (ok, f', fs') \<Rightarrow> (ok, (entries[i := f'], fs')))))"

end
