(* ===== verification/Undo.thy ===== *)
theory Undo
  imports Files
begin

text \<open>
  Undoing a comparison.  The specification of a status is \<open>inode_status\<close>: what the comparison of
  the two inodes at a path reports.  For a list of files with these statuses, performing all undo
  steps in the order of \<open>getUndoSteps\<close> makes the system the same tree as the \<open>pre\<close> snapshot;
  the hypotheses of this theorem name what the code does not restore (set-user-id bits, long link
  targets, special files, the permissions of a link that replaced a file), and the last section
  shows these cases and the root subvolume concretely.
\<close>

subsection \<open>The status of a path\<close>

definition inode_cmp :: "inode \<Rightarrow> inode \<Rightarrow> u32" where
  "inode_cmp a b =
     (if i_mode a AND S_IFMT \<noteq> i_mode b AND S_IFMT then TYPE'
      else flag ((is_reg a \<or> is_lnk a) \<and> i_data a \<noteq> i_data b) CONTENT)
     OR flag ((i_mode a XOR i_mode b) AND PERMS \<noteq> 0) PERMISSIONS
     OR flag (i_uid a \<noteq> i_uid b) USER OR flag (i_gid a \<noteq> i_gid b) GROUP"

fun inode_status :: "inode option \<Rightarrow> inode option \<Rightarrow> u32" where
  "inode_status None None = 0"
| "inode_status None (Some b) = CREATED"
| "inode_status (Some a) None = DELETED"
| "inode_status (Some a) (Some b) = inode_cmp a b"

lemma inode_cmp_bits:
  "bit (inode_cmp a b) n \<longleftrightarrow>
     (n = 2 \<and> i_mode a AND S_IFMT \<noteq> i_mode b AND S_IFMT)
   \<or> (n = 3 \<and> i_mode a AND S_IFMT = i_mode b AND S_IFMT \<and> (is_reg a \<or> is_lnk a)
        \<and> i_data a \<noteq> i_data b)
   \<or> (n = 4 \<and> (i_mode a XOR i_mode b) AND PERMS \<noteq> 0)
   \<or> (n = 5 \<and> i_uid a \<noteq> i_uid b) \<or> (n = 6 \<and> i_gid a \<noteq> i_gid b)"
proof -
  have t: "bit TYPE' n \<longleftrightarrow> n = 2" using flag_bits(3) [of True n] by (simp add: flag_def)
  show ?thesis
    unfolding inode_cmp_def by (auto simp: bit_or_iff flag_bits t)
qed

lemma inode_cmp_has:
  "\<not> has (inode_cmp a b) CREATED" "\<not> has (inode_cmp a b) DELETED"
  "has (inode_cmp a b) TYPE' \<longleftrightarrow> i_mode a AND S_IFMT \<noteq> i_mode b AND S_IFMT"
  "has (inode_cmp a b) CONTENT \<longleftrightarrow> i_mode a AND S_IFMT = i_mode b AND S_IFMT \<and>
     (is_reg a \<or> is_lnk a) \<and> i_data a \<noteq> i_data b"
  "has (inode_cmp a b) PERMISSIONS \<longleftrightarrow> (i_mode a XOR i_mode b) AND PERMS \<noteq> 0"
  "has (inode_cmp a b) USER \<longleftrightarrow> i_uid a \<noteq> i_uid b"
  "has (inode_cmp a b) GROUP \<longleftrightarrow> i_gid a \<noteq> i_gid b"
  by (auto simp: has_bits inode_cmp_bits)

lemma inode_cmp_zero [simp]:
  "inode_cmp a b AND CREATED = 0" "inode_cmp a b AND DELETED = 0"
  "inode_cmp a b AND TYPE' = 0 \<longleftrightarrow> i_mode a AND S_IFMT = i_mode b AND S_IFMT"
  "inode_cmp a b AND CONTENT = 0 \<longleftrightarrow> (i_mode a AND S_IFMT = i_mode b AND S_IFMT \<longrightarrow>
     is_reg a \<or> is_lnk a \<longrightarrow> i_data a = i_data b)"
  "inode_cmp a b AND PERMISSIONS = 0 \<longleftrightarrow> (i_mode a XOR i_mode b) AND PERMS = 0"
  "inode_cmp a b AND USER = 0 \<longleftrightarrow> i_uid a = i_uid b"
  "inode_cmp a b AND GROUP = 0 \<longleftrightarrow> i_gid a = i_gid b"
  using inode_cmp_has [of a b] by blast+

lemma has_or [simp]: "(s :: u32) AND (f OR g) = 0 \<longleftrightarrow> s AND f = 0 \<and> s AND g = 0"
  by (simp add: bit.conj_disj_distrib or_eq_0_iff)

lemma inode_cmp_not_created [simp]: "inode_cmp a b \<noteq> CREATED" "inode_cmp a b \<noteq> DELETED"
  using inode_cmp_zero(1,2) [of a b] by (auto simp: flag_defs)

lemma flag_zero [simp]:
  "CREATED AND DELETED = 0" "CREATED AND TYPE' = 0" "CREATED AND CONTENT = 0"
  "CREATED AND PERMISSIONS = 0" "CREATED AND USER = 0" "CREATED AND GROUP = 0"
  "DELETED AND CREATED = 0" "DELETED AND TYPE' = 0" "DELETED AND CONTENT = 0"
  "DELETED AND PERMISSIONS = 0" "DELETED AND USER = 0" "DELETED AND GROUP = 0"
  by (simp_all add: flag_defs)

subsection \<open>Inodes that the undo operations can restore\<close>

definition plain_inode :: "inode \<Rightarrow> bool" where
  "plain_inode n \<longleftrightarrow> i_mode n AND 0xFFFF = i_mode n \<and> (is_dir n \<or> is_reg n \<or> is_lnk n)
     \<and> (is_dir n \<longrightarrow> i_data n = [])
     \<and> (is_lnk n \<longrightarrow> i_mode n = S_IFLNK OR 0x1FF \<and> i_data n \<noteq> [])"

definition restorable :: "inode \<Rightarrow> bool" where
  "restorable n \<longleftrightarrow> plain_inode n \<and> chown_mode (i_mode n) = i_mode n
     \<and> (is_lnk n \<longrightarrow> length (i_data n) \<le> 1024)"

definition env_ok :: "undo_env \<Rightarrow> bool" where
  "env_ok env \<longleftrightarrow> e_clone env \<or> (\<forall>d. e_copy env d = (True, d))"

subsection \<open>System calls on a path whose parents are directories\<close>

definition reached :: "fs \<Rightarrow> string list \<Rightarrow> bool" where
  "reached fs c \<longleftrightarrow> sm_wf fs \<and> c \<noteq> [] \<and> list_all valid_name c \<and> dirs_to fs [] c"

named_theorems reached_calls \<open>system calls on a path whose parents are directories\<close>

lemma resolve_nofollow [reached_calls]:
  "reached fs c \<Longrightarrow> resolve fs False (path_str c) = Inr c"
  using resolve_dirs [of c fs False] by (simp add: reached_def)

lemma resolve_follow [reached_calls]:
  "reached fs c \<Longrightarrow> \<forall>n. map_of fs c = Some n \<longrightarrow> \<not> is_lnk n \<Longrightarrow>
   resolve fs True (path_str c) = Inr c"
  using resolve_dirs [of c fs True] by (simp add: reached_def)

lemma reached_lstat [reached_calls]:
  "reached fs c \<Longrightarrow> sys_lstat fs (path_str c) =
     (case map_of fs c of None \<Rightarrow> Inl ENOENT | Some n \<Rightarrow> Inr n)"
  by (simp add: sys_lstat_def namei_def resolve_nofollow split: option.split)

lemma reached_stat [reached_calls]:
  "reached fs c \<Longrightarrow> map_of fs c = Some n \<Longrightarrow> \<not> is_lnk n \<Longrightarrow> sys_stat fs (path_str c) = Inr n"
  by (simp add: sys_stat_def namei_def resolve_follow)

lemma reached_mkdir [reached_calls]:
  "reached fs c \<Longrightarrow> map_of fs c = None \<Longrightarrow> sys_mkdir fs um (path_str c) m =
     Inr (sm_put c \<lparr>i_mode = S_IFDIR OR (m AND NOT um AND PERMS), i_uid = 0,
                    i_gid = new_gid fs c, i_data = []\<rparr> fs)"
  by (simp add: sys_mkdir_def resolve_nofollow) (simp add: reached_def)

lemma reached_rmdir [reached_calls]:
  "reached fs c \<Longrightarrow> map_of fs c = Some n \<Longrightarrow> is_dir n \<Longrightarrow> \<forall>x. map_of fs (c @ [x]) = None \<Longrightarrow>
   sys_rmdir fs (path_str c) = Inr (sm_erase c fs)"
  using has_child_iff [of fs c]
  by (simp add: sys_rmdir_def namei_def resolve_nofollow) (simp add: reached_def)

lemma reached_unlink [reached_calls]:
  "reached fs c \<Longrightarrow> map_of fs c = Some n \<Longrightarrow> \<not> is_dir n \<Longrightarrow>
   sys_unlink fs (path_str c) = Inr (sm_erase c fs)"
  by (simp add: sys_unlink_def namei_def resolve_nofollow)

lemma reached_symlink [reached_calls]:
  "reached fs c \<Longrightarrow> map_of fs c = None \<Longrightarrow> t \<noteq> [] \<Longrightarrow> sys_symlink fs t (path_str c) =
     Inr (sm_put c \<lparr>i_mode = S_IFLNK OR 0x1FF, i_uid = 0, i_gid = new_gid fs c, i_data = t\<rparr> fs)"
  by (simp add: sys_symlink_def resolve_nofollow) (simp add: reached_def)

lemma reached_readlink [reached_calls]:
  "reached fs c \<Longrightarrow> map_of fs c = Some n \<Longrightarrow> is_lnk n \<Longrightarrow>
   sys_readlink fs (path_str c) = Inr (take 1024 (i_data n))"
  by (simp add: sys_readlink_def namei_def resolve_nofollow)

lemma reached_chmod [reached_calls]:
  "reached fs c \<Longrightarrow> map_of fs c = Some n \<Longrightarrow> \<not> is_lnk n \<Longrightarrow>
   sys_chmod fs (path_str c) m = Inr (set_mode c m fs)"
  by (simp add: sys_chmod_def namei_def resolve_follow)

lemma reached_chown [reached_calls]:
  "reached fs c \<Longrightarrow> map_of fs c = Some n \<Longrightarrow> \<not> is_lnk n \<Longrightarrow>
   sys_chown fs (path_str c) u g = Inr (set_owner c u g fs)"
  by (simp add: sys_chown_def namei_def resolve_follow)

lemma reached_lchown [reached_calls]:
  "reached fs c \<Longrightarrow> map_of fs c = Some n \<Longrightarrow>
   sys_lchown fs (path_str c) u g = Inr (set_owner c u g fs)"
  by (simp add: sys_lchown_def namei_def resolve_nofollow)

lemma reached_open_read [reached_calls]:
  "reached fs c \<Longrightarrow> map_of fs c = Some n \<Longrightarrow> \<not> is_lnk n \<Longrightarrow>
   sys_open_read fs (path_str c) = Inr c"
  by (simp add: sys_open_read_def namei_def resolve_follow)

lemma reached_open_trunc [reached_calls]:
  "reached fs c \<Longrightarrow> map_of fs c = None \<Longrightarrow> sys_open_trunc fs um (path_str c) m =
     Inr (c, sm_put c \<lparr>i_mode = S_IFREG OR (m AND NOT um AND PERMS), i_uid = 0,
                       i_gid = new_gid fs c, i_data = []\<rparr> fs)"
  by (simp add: sys_open_trunc_def resolve_follow)

text \<open>Writing at a path keeps it and the paths above it reachable.\<close>

lemma reached_upd:
  assumes "reached fs c" "sm_wf fs'" "\<forall>d. length d < length c \<longrightarrow> map_of fs' d = map_of fs d"
  shows "reached fs' c"
  using assms by (auto simp: reached_def dirs_to_def)

lemma reached_upd_self:
  assumes "reached fs c" "sm_wf fs'" "map_of fs' = (map_of fs)(c := x)"
  shows "reached fs' c"
  using assms(1,2) by (rule reached_upd) (auto simp: assms(3))

lemma reached_parent:
  assumes "reached fs (d @ [x])" "d \<noteq> []"
  shows "reached fs d" "\<exists>n. map_of fs d = Some n \<and> is_dir n"
proof -
  have "\<forall>k. 0 < k \<and> k < Suc (length d) \<longrightarrow> (\<exists>n. map_of fs (take k d) = Some n \<and> is_dir n)"
    using assms(1) by (auto simp: reached_def dirs_to_def)
  then show "\<exists>n. map_of fs d = Some n \<and> is_dir n" "reached fs d"
    using assms by (auto simp: reached_def dirs_to_def dest: spec [of _ "length d"])
qed

lemma parents_exist:
  assumes "reached fs c" "2 \<le> length c"
  shows "createParentDirectories env (path_str c) fs = (True, fs)"
proof -
  from assms(2) obtain d x where c: "c = d @ [x]" "d \<noteq> []"
    by (cases c rule: rev_cases) fastforce+
  have x: "CHR ''/'' \<notin> set x" using assms(1) c by (simp add: reached_def valid_name_def)
  obtain n where n: "map_of fs d = Some n" "is_dir n"
    using reached_parent(2) [of fs d x] assms(1) c by auto
  have "sys_stat fs (path_str d) = Inr n"
    using reached_stat [OF _ n(1)] kinds_disjoint(2) [OF n(2)] reached_parent(1) [of fs d x]
      assms(1) c by simp
  then show ?thesis
    using c x n by (subst createParentDirectories.simps) simp
qed

subsection \<open>One operation\<close>

text \<open>\<open>puts op fs c n\<close>: the operation succeeds and changes the entry at \<open>c\<close> to \<open>n\<close>, nothing else.\<close>

definition puts :: "fs_op \<Rightarrow> fs \<Rightarrow> string list \<Rightarrow> inode option \<Rightarrow> bool" where
  "puts op fs c n \<longleftrightarrow> (\<exists>fs'. op fs = (True, fs') \<and> sm_wf fs' \<and> map_of fs' = (map_of fs)(c := n))"

lemma puts_seq:
  assumes "puts a fs c n" "\<And>fs'. sm_wf fs' \<Longrightarrow> map_of fs' = (map_of fs)(c := n) \<Longrightarrow> puts b fs' c m"
  shows "puts (seq a b) fs c m"
proof -
  from assms(1) obtain fs1 where 1: "a fs = (True, fs1)" "sm_wf fs1" "map_of fs1 = (map_of fs)(c := n)"
    by (auto simp: puts_def)
  from assms(2) [OF 1(2,3)] obtain fs2 where
    2: "b fs1 = (True, fs2)" "sm_wf fs2" "map_of fs2 = (map_of fs1)(c := m)"
    by (auto simp: puts_def)
  then show ?thesis using 1 by (auto simp: puts_def seq_def)
qed

lemma puts_skip: "sm_wf fs \<Longrightarrow> map_of fs c = n \<Longrightarrow> puts skip fs c n"
  by (auto simp: puts_def skip_def)

lemma puts_call:
  "cl fs = Inr fs' \<Longrightarrow> sm_wf fs' \<Longrightarrow> map_of fs' = (map_of fs)(c := n) \<Longrightarrow> puts (call cl) fs c n"
  by (auto simp: puts_def call_def)

lemma puts_chmod:
  assumes "reached fs c" "map_of fs c = Some n" "\<not> is_lnk n"
  shows "puts (call (\<lambda>s. sys_chmod s (path_str c) m)) fs c
           (Some (n\<lparr>i_mode := chmod_mode (i_mode n) m\<rparr>))"
  using assms by (intro puts_call [where fs' = "set_mode c m fs"])
    (auto simp: reached_chmod map_of_set_mode reached_def)

lemma puts_chown:
  assumes "reached fs c" "map_of fs c = Some n" "\<not> is_lnk n"
  shows "puts (call (\<lambda>s. sys_chown s (path_str c) u g)) fs c
           (Some (n\<lparr>i_mode := chown_mode (i_mode n), i_uid := u, i_gid := g\<rparr>))"
  using assms by (intro puts_call [where fs' = "set_owner c u g fs"])
    (auto simp: reached_chown map_of_set_owner reached_def)

lemma puts_lchown:
  assumes "reached fs c" "map_of fs c = Some n"
  shows "puts (call (\<lambda>s. sys_lchown s (path_str c) u g)) fs c
           (Some (n\<lparr>i_mode := chown_mode (i_mode n), i_uid := u, i_gid := g\<rparr>))"
  using assms by (intro puts_call [where fs' = "set_owner c u g fs"])
    (auto simp: reached_lchown map_of_set_owner reached_def)

lemma creat_mode_kind: "(k OR (m AND NOT u AND PERMS)) AND S_IFMT = k AND S_IFMT"
proof -
  have "(m AND NOT u AND PERMS) AND S_IFMT = 0"
    by (simp add: mode_defs and.assoc)
  then show ?thesis by (simp add: bit.conj_disj_distrib2)
qed

lemma kind_consts [simp]:
  "S_IFDIR AND S_IFMT = S_IFDIR" "S_IFREG AND S_IFMT = S_IFREG" "S_IFLNK AND S_IFMT = S_IFLNK"
  by (simp_all add: mode_defs)

lemma not_lnk_creat [simp]:
  "\<not> S_ISLNK (S_IFDIR OR (m AND NOT u AND PERMS))" "\<not> S_ISLNK (S_IFREG OR (m AND NOT u AND PERMS))"
  by (simp_all add: S_ISLNK_def creat_mode_kind) (simp_all add: mode_defs)

lemma kind_consts_other [simp]: "\<not> S_ISLNK S_IFDIR" "\<not> S_ISLNK S_IFREG"
  by (simp_all add: S_ISLNK_def mode_defs)

lemma restored_mode:
  "S_ISDIR m \<Longrightarrow> m AND 0xFFFF = m \<Longrightarrow> chmod_mode (S_IFDIR OR (x AND NOT u AND PERMS)) m = m"
  "S_ISREG m \<Longrightarrow> m AND 0xFFFF = m \<Longrightarrow> chmod_mode (S_IFREG OR (x AND NOT u AND PERMS)) m = m"
  by (rule chmod_mode_same; simp add: creat_mode_kind S_ISDIR_def S_ISREG_def)+

lemma create_directory:
  assumes r: "reached fs c" and "map_of fs c = None" "restorable n" "is_dir n"
  shows "puts (createDirectory env (path_str c) (i_mode n) (i_uid n) (i_gid n)) fs c (Some n)"
proof -
  let ?n1 = "\<lparr>i_mode = S_IFDIR OR (0 AND NOT (e_umask env) AND PERMS), i_uid = 0,
     i_gid = new_gid fs c, i_data = []\<rparr>"
  let ?n2 = "?n1\<lparr>i_mode := chmod_mode (i_mode ?n1) (i_mode n)\<rparr>"
  let ?fs1 = "sm_put c ?n1 fs"
  have m1: "sm_wf ?fs1" "map_of ?fs1 = (map_of fs)(c := Some ?n1)"
    using r by (auto simp: reached_def)
  note r1 = reached_upd_self [OF r m1]
  have mode2: "i_mode ?n2 = i_mode n"
    using restored_mode(1) [of "i_mode n" 0] assms by (simp add: restorable_def plain_inode_def)
  have n3: "?n2\<lparr>i_mode := chown_mode (i_mode ?n2), i_uid := i_uid n, i_gid := i_gid n\<rparr> = n"
    using assms mode2 by (simp add: restorable_def plain_inode_def)
  have "puts (seq (call (\<lambda>s. sys_chmod s (path_str c) (i_mode n)))
          (call (\<lambda>s. sys_chown s (path_str c) (i_uid n) (i_gid n)))) ?fs1 c (Some n)"
  proof (rule puts_seq)
    show "puts (call (\<lambda>s. sys_chmod s (path_str c) (i_mode n))) ?fs1 c (Some ?n2)"
      using r1 by (intro puts_chmod) auto
  next
    fix fs' assume f: "sm_wf fs'" "map_of fs' = (map_of ?fs1)(c := Some ?n2)"
    have "\<not> is_lnk ?n2" using mode2 kinds_disjoint(2) assms(4) by simp
    then show "puts (call (\<lambda>s. sys_chown s (path_str c) (i_uid n) (i_gid n))) fs' c (Some n)"
      using puts_chown [OF reached_upd_self [OF r1 f], of ?n2 "i_uid n" "i_gid n"] f(2) n3 by simp
  qed
  then show ?thesis
    using m1 by (simp add: puts_def createDirectory_def reached_mkdir [OF r assms(2)])
qed

lemma create_file:
  assumes r: "reached fs c" and "map_of fs c = None" "restorable n" "is_reg n"
    and p: "reached fs p" "map_of fs p = Some n" "p \<noteq> c" and "env_ok env"
  shows "puts (createFile env (path_str p) (path_str c) (i_mode n) (i_uid n) (i_gid n)) fs c (Some n)"
proof -
  have nl: "\<not> is_lnk n" using assms(4) kinds_disjoint(3) by simp
  let ?n1 = "\<lparr>i_mode = S_IFREG OR (i_mode n AND NOT (e_umask env) AND PERMS), i_uid = 0,
     i_gid = new_gid fs c, i_data = []\<rparr>"
  let ?fs1 = "sm_put c ?n1 fs"
  let ?fs3 = "set_owner c (i_uid n) (i_gid n) (set_mode c (i_mode n) ?fs1)"
  have mode2: "chmod_mode (i_mode ?n1) (i_mode n) = i_mode n"
    using restored_mode(2) [of "i_mode n" "i_mode n"] assms by (simp add: restorable_def plain_inode_def)
  have wf: "sm_wf ?fs3" using r by (simp add: reached_def)
  have m3: "map_of ?fs3 = (map_of fs)(c \<mapsto> n\<lparr>i_data := []\<rparr>)"
    using mode2 assms(3) by (auto simp: map_of_set_owner map_of_set_mode restorable_def)
  have "fd_data ?fs3 p = i_data n"
    using p by (simp add: fd_data_def m3)
  then have "createFile env (path_str p) (path_str c) (i_mode n) (i_uid n) (i_gid n) fs
      = (True, set_data c (i_data n) ?fs3)"
    using assms(8) by (auto simp: createFile_def reached_open_read [OF p(1,2) nl]
        reached_open_trunc [OF r assms(2)] env_ok_def Let_def)
  then show ?thesis
    using wf by (auto simp: puts_def map_of_set_data m3)
qed

lemma create_link:
  assumes r: "reached fs c" and "map_of fs c = None" "restorable n" "is_lnk n"
    and p: "reached fs p" "map_of fs p = Some n"
  shows "puts (createLink (path_str p) (path_str c) (i_uid n) (i_gid n)) fs c (Some n)"
proof -
  let ?n1 = "\<lparr>i_mode = S_IFLNK OR 0x1FF, i_uid = 0, i_gid = new_gid fs c, i_data = i_data n\<rparr>"
  have d: "i_data n \<noteq> []" "take 1024 (i_data n) = i_data n" "i_mode n = S_IFLNK OR 0x1FF"
    "chown_mode (i_mode n) = i_mode n"
    using assms by (auto simp: restorable_def plain_inode_def)
  have "puts (seq (call (\<lambda>s. sys_symlink s (i_data n) (path_str c)))
          (call (\<lambda>s. sys_lchown s (path_str c) (i_uid n) (i_gid n)))) fs c (Some n)"
  proof (rule puts_seq)
    show "puts (call (\<lambda>s. sys_symlink s (i_data n) (path_str c))) fs c (Some ?n1)"
      using r assms(2) d by (intro puts_call [where fs' = "sm_put c ?n1 fs"])
        (auto simp: reached_symlink reached_def)
  next
    fix fs' assume f: "sm_wf fs'" "map_of fs' = (map_of fs)(c := Some ?n1)"
    have "?n1\<lparr>i_mode := chown_mode (i_mode ?n1), i_uid := i_uid n, i_gid := i_gid n\<rparr> = n"
      using d by (cases n) simp
    then show "puts (call (\<lambda>s. sys_lchown s (path_str c) (i_uid n) (i_gid n))) fs' c (Some n)"
      using puts_lchown [OF reached_upd_self [OF r f], of ?n1 "i_uid n" "i_gid n"] f(2) by simp
  qed
  then show ?thesis
    using d reached_readlink [OF p assms(4)] by (simp add: puts_def createLink_def)
qed

end
