(* ===== verification/Restore.thy ===== *)
theory Restore
  imports Undo
begin

text \<open>
  Undoing one file: \<open>doUndo\<close> on a file whose status is that of the two inodes gives the path the
  inode of the \<open>pre\<close> snapshot and changes nothing else.
\<close>


lemma delete_all:
  assumes r: "reached fs c" and n: "map_of fs c = Some n" "plain_inode n"
    and nc: "is_dir n \<longrightarrow> (\<forall>x. map_of fs (c @ [x]) = None)"
    and sys: "getAbsolutePath fp f LOC_SYSTEM = path_str c"
  shows "puts (deleteAllTypes fp f) fs c None"
proof -
  have wf: "sm_wf fs" using r by (simp add: reached_def)
  have e: "sm_wf (sm_erase c fs)" "map_of (sm_erase c fs) = (map_of fs)(c := None)"
    using wf by (simp_all add: map_of_sm_erase)
  show ?thesis
  proof (cases "is_dir n")
    case True
    have "puts (call (\<lambda>s. sys_rmdir s (path_str c))) fs c None"
      using reached_rmdir [OF r n(1) True] nc True e by (intro puts_call) auto
    then show ?thesis
      using reached_lstat [OF r] n True by (simp add: puts_def deleteAllTypes_def sys)
  next
    case False
    have "puts (call (\<lambda>s. sys_unlink s (path_str c))) fs c None"
      using reached_unlink [OF r n(1) False] e by (intro puts_call) auto
    then show ?thesis
      using reached_lstat [OF r] n False by (auto simp: puts_def deleteAllTypes_def sys plain_inode_def)
  qed
qed

lemma parents_then:
  assumes "reached fs c" "2 \<le> length c" "puts op fs c n"
  shows "puts (seq (createParentDirectories env (path_str c)) op) fs c n"
  using assms parents_exist [OF assms(1,2)] by (simp add: puts_def seq_def)

lemma create_all:
  assumes r: "reached fs c" "2 \<le> length c" "map_of fs c = None"
    and p: "reached fs p" "map_of fs p = Some n" "p \<noteq> c" and n: "restorable n" and "env_ok env"
    and sys: "getAbsolutePath fp f LOC_SYSTEM = path_str c"
    and pre: "getAbsolutePath fp f LOC_PRE = path_str p"
  shows "puts (createAllTypes env fp f) fs c (Some n)"
proof -
  have k: "is_dir n \<or> is_reg n \<or> is_lnk n" using n by (auto simp: restorable_def plain_inode_def)
  let ?op = "if is_dir n then createDirectory env (path_str c) (i_mode n) (i_uid n) (i_gid n)
           else if is_reg n then createFile env (path_str p) (path_str c) (i_mode n) (i_uid n) (i_gid n)
           else if is_lnk n then createLink (path_str p) (path_str c) (i_uid n) (i_gid n)
           else skip"
  have "puts ?op fs c (Some n)"
    using k create_directory [OF r(1,3) n] create_file [OF r(1,3) n _ p assms(8)]
      create_link [OF r(1,3) n _ p(1,2)] by auto
  from parents_then [OF r(1,2) this, of env] show ?thesis
    using reached_lstat [OF p(1)] p(2) by (simp add: puts_def createAllTypes_def Let_def sys pre)
qed

lemma puts_chain:
  assumes "puts a fs c (Some x)" "reached fs c"
    and "\<And>fs'. reached fs' c \<Longrightarrow> map_of fs' = (map_of fs)(c := Some x) \<Longrightarrow> puts b fs' c n"
  shows "puts (seq a b) fs c n"
  using assms(1) by (rule puts_seq) (auto intro: assms(3) reached_upd_self [OF assms(2)])

lemma modify_all:
  assumes r: "reached fs c" "2 \<le> length c" and x: "map_of fs c = Some x" "plain_inode x"
    and k: "i_mode x AND S_IFMT = i_mode n AND S_IFMT"
    and p: "reached fs p" "map_of fs p = Some n" "p \<noteq> c" and n: "restorable n" and e: "env_ok env"
    and sys: "getAbsolutePath fp f LOC_SYSTEM = path_str c"
    and pre: "getAbsolutePath fp f LOC_PRE = path_str p"
    and st: "has (pre_to_post_status f) CONTENT \<longrightarrow> is_reg n \<or> is_lnk n"
      "\<not> has (pre_to_post_status f) CONTENT \<longrightarrow> i_data x = i_data n"
      "has (pre_to_post_status f) PERMISSIONS \<longrightarrow> \<not> is_lnk n"
      "\<not> has (pre_to_post_status f) PERMISSIONS \<longrightarrow> i_mode x = i_mode n"
      "\<not> has (pre_to_post_status f) (USER OR GROUP) \<longrightarrow> i_uid x = i_uid n \<and> i_gid x = i_gid n"
  shows "puts (modifyAllTypes env fp f) fs c (Some n)"
proof -
  let ?st = "pre_to_post_status f"
  let ?content = "if has ?st CONTENT then
       (if is_reg n then seq (deleteAllTypes fp f)
           (createFile env (path_str p) (path_str c) (i_mode n) (i_uid n) (i_gid n))
        else if is_lnk n then seq (deleteAllTypes fp f)
           (createLink (path_str p) (path_str c) (i_uid n) (i_gid n))
        else skip)
     else skip"
  let ?perms = "if has ?st PERMISSIONS then call (\<lambda>s. sys_chmod s (path_str c) (i_mode n)) else skip"
  let ?owner = "if has ?st (USER OR GROUP) then
      call (\<lambda>s. sys_lchown s (path_str c) (i_uid n) (i_gid n)) else skip"
  define y where "y = (if has ?st CONTENT then n else x)"
  define z where "z = (if has ?st PERMISSIONS then y\<lparr>i_mode := i_mode n\<rparr> else y)"
  have kinds: "is_lnk x = is_lnk n" "is_dir x = is_dir n" "is_reg x = is_reg n"
    using k by (auto simp: S_ISLNK_def S_ISDIR_def S_ISREG_def)
  have y: "i_mode y AND S_IFMT = i_mode n AND S_IFMT" "i_data y = i_data n"
    "is_lnk y = is_lnk n"
    using k st(2) kinds by (auto simp: y_def)
  have m16: "i_mode n AND 0xFFFF = i_mode n" "chown_mode (i_mode n) = i_mode n"
    using n by (auto simp: restorable_def plain_inode_def)
  have z: "i_mode z = i_mode n" "i_data z = i_data n"
    using y st(4) by (auto simp: z_def y_def)
  have content: "puts ?content fs c (Some y)"
  proof (cases "has ?st CONTENT")
    case True
    have nd: "\<not> is_dir x" using True st(1) kinds(2) kinds_disjoint(4,5) by blast
    have del: "puts (seq (deleteAllTypes fp f) op) fs c (Some n)"
      if "\<And>fs'. reached fs' c \<Longrightarrow> map_of fs' c = None \<Longrightarrow> reached fs' p \<Longrightarrow>
           map_of fs' p = Some n \<Longrightarrow> puts op fs' c (Some n)" for op
    proof (rule puts_seq)
      show "puts (deleteAllTypes fp f) fs c None"
        using delete_all [OF r(1) x _ sys] nd by simp
    next
      fix fs' assume f: "sm_wf fs'" "map_of fs' = (map_of fs)(c := None)"
      have "reached fs' p"
      proof -
        have "dirs_to fs' [] p"
          unfolding dirs_to_def
        proof (intro allI impI)
          fix i assume i: "0 < i \<and> i < length p"
          then obtain d where d: "map_of fs (take i p) = Some d" "is_dir d"
            using p(1) by (auto simp: reached_def dirs_to_def)
          then have "take i p \<noteq> c" using x(1) nd by auto
          then show "\<exists>n. map_of fs' ([] @ take i p) = Some n \<and> is_dir n"
            using d f(2) by auto
        qed
        then show ?thesis using p(1) f(1) by (simp add: reached_def)
      qed
      then show "puts op fs' c (Some n)"
        using reached_upd_self [OF r(1) f] f(2) p by (intro that) auto
    qed
    have yn: "y = n" using True by (simp add: y_def)
    show ?thesis
    proof (cases "is_reg n")
      case reg: True
      have "puts (seq (deleteAllTypes fp f) (createFile env (path_str p) (path_str c)
          (i_mode n) (i_uid n) (i_gid n))) fs c (Some n)"
        by (rule del) (rule create_file [OF _ _ n reg _ _ p(3) e])
      then show ?thesis by (simp only: True reg yn if_True not_False_eq_True)
    next
      case reg: False
      then have lnk: "is_lnk n" using True st(1) by blast
      have "puts (seq (deleteAllTypes fp f) (createLink (path_str p) (path_str c)
          (i_uid n) (i_gid n))) fs c (Some n)"
        by (rule del) (rule create_link [OF _ _ n lnk])
      then show ?thesis by (simp only: True reg lnk yn if_True if_False not_False_eq_True)
    qed
  next
    case False
    then show ?thesis using x r by (auto simp: y_def reached_def intro: puts_skip)
  qed
  have rest: "puts (seq ?perms ?owner) fs1 c (Some n)"
    if f1: "reached fs1 c" "map_of fs1 = (map_of fs)(c := Some y)" for fs1
  proof (rule puts_chain [where x = z])
    show "puts ?perms fs1 c (Some z)"
      using f1 puts_chmod [OF f1(1), of y "i_mode n"] y st(3) chmod_mode_same [OF y(1) m16(1)]
      by (auto simp: z_def reached_def intro: puts_skip)
  next
    fix fs2 assume f2: "reached fs2 c" "map_of fs2 = (map_of fs1)(c := Some z)"
    have zn: "z\<lparr>i_mode := chown_mode (i_mode z), i_uid := i_uid n, i_gid := i_gid n\<rparr> = n"
      using z m16 by (cases n; cases z) simp
    have "\<not> has ?st (USER OR GROUP) \<longrightarrow> z = n"
      using z st(5) by (intro impI inode.equality) (auto simp: z_def y_def)
    then show "puts ?owner fs2 c (Some n)"
      using f2 puts_lchown [OF f2(1), of z "i_uid n" "i_gid n"] zn
      by (auto simp: reached_def intro: puts_skip)
  qed (rule f1(1))
  have "puts (seq ?content (seq ?perms ?owner)) fs c (Some n)"
    by (rule puts_chain [OF content r(1) rest])
  from parents_then [OF r this, of env] show ?thesis
    using reached_lstat [OF p(1)] p(2) by (simp add: puts_def modifyAllTypes_def Let_def sys pre)
qed

text \<open>The permissions are equal when the comparison does not report them.\<close>

lemma same_mode:
  assumes "a AND S_IFMT = b AND S_IFMT" "(a XOR b) AND PERMS = 0" "a AND 0xFFFF = a" "b AND 0xFFFF = b"
  shows "(a :: u32) = b"
proof (rule bit_eqI)
  fix n
  have split: "(0xFFFF :: u32) = S_IFMT OR PERMS" by (simp add: mode_defs)
  have "bit a n = bit b n" if "bit S_IFMT n"
    using arg_cong [OF assms(1), of "\<lambda>x. bit x n"] that by (simp add: bit_and_iff)
  moreover have "bit a n = bit b n" if "bit PERMS n"
    using arg_cong [OF assms(2), of "\<lambda>x. bit x n"] that by (simp add: bit_and_iff bit_xor_iff)
  moreover have "\<not> bit a n \<and> \<not> bit b n" if "\<not> bit S_IFMT n" "\<not> bit PERMS n"
    using arg_cong [OF assms(3), of "\<lambda>x. bit x n"] arg_cong [OF assms(4), of "\<lambda>x. bit x n"] that
    unfolding split by (simp add: bit_and_iff bit_or_iff)
  ultimately show "bit a n = bit b n" by blast
qed

fun on_some :: "('a \<Rightarrow> bool) \<Rightarrow> 'a option \<Rightarrow> bool" where
  "on_some P None = True"
| "on_some P (Some x) = P x"

lemma on_some_iff: "on_some P a \<longleftrightarrow> (\<forall>x. a = Some x \<longrightarrow> P x)"
  by (cases a) auto

text \<open>What must hold at a path for its file to be restored.\<close>

definition undoable :: "inode option \<Rightarrow> inode option \<Rightarrow> bool" where
  "undoable a b \<longleftrightarrow> on_some restorable a \<and> on_some plain_inode b
     \<and> (case (a, b) of (Some n, Some m) \<Rightarrow> is_lnk n \<and> \<not> is_lnk m \<longrightarrow>
            (i_mode n XOR i_mode m) AND PERMS = 0
        | _ \<Rightarrow> True)"

text \<open>A created file is deleted; its path in the snapshot plays no part.\<close>

lemma undo_one_created:
  assumes r: "reached fs c" and u: "undoable None (map_of fs c)"
    and sys: "getAbsolutePath fp f LOC_SYSTEM = path_str c"
    and st: "pre_to_post_status f = inode_status None (map_of fs c)"
    and nc: "\<forall>m. map_of fs c = Some m \<longrightarrow> is_dir m \<longrightarrow> (\<forall>x. map_of fs (c @ [x]) = None)"
  shows "\<exists>fs' f'. doUndo env fp f fs = (True, f', fs') \<and> sm_wf fs'
     \<and> map_of fs' = (map_of fs)(c := None) \<and> f_name f' = f_name f"
proof (cases "map_of fs c")
  case None
  then show ?thesis using r st by (auto simp: doUndo_def Let_def reached_def fun_upd_idem)
next
  case (Some m)
  then have "puts (deleteAllTypes fp f) fs c None"
    using u nc by (intro delete_all [OF r Some _ _ sys]) (auto simp: undoable_def on_some_iff)
  then show ?thesis
    using Some st by (auto simp: doUndo_def Let_def puts_def)
qed

text \<open>One file: whatever its status, \<open>doUndo\<close> succeeds and restores the inode.  The path \<open>p\<close> of
  the inode in the snapshot does not lead through \<open>c\<close>.\<close>

lemma undo_one:
  assumes r: "reached fs c" "2 \<le> length c" and p: "reached fs p" "\<forall>k. take k p \<noteq> c"
    and u: "undoable (map_of fs p) (map_of fs c)" and e: "env_ok env"
    and sys: "getAbsolutePath fp f LOC_SYSTEM = path_str c"
    and pre: "getAbsolutePath fp f LOC_PRE = path_str p"
    and st: "pre_to_post_status f = inode_status (map_of fs p) (map_of fs c)"
    and nc: "\<forall>m. map_of fs c = Some m \<longrightarrow> is_dir m \<longrightarrow>
        (\<forall>n. map_of fs p = Some n \<longrightarrow> \<not> is_dir n) \<longrightarrow> (\<forall>x. map_of fs (c @ [x]) = None)"
  shows "\<exists>fs' f'. doUndo env fp f fs = (True, f', fs') \<and> sm_wf fs'
     \<and> map_of fs' = (map_of fs)(c := map_of fs p) \<and> f_name f' = f_name f"
proof -
  have wf: "sm_wf fs" using r by (simp add: reached_def)
  have pc: "p \<noteq> c" using p(2) [rule_format, of "length p"] by auto
  have reach_p: "reached fs' p" if "sm_wf fs'" "map_of fs' = (map_of fs)(c := x)" for fs' x
    using p that by (auto simp: reached_def dirs_to_def)
  consider (none) "map_of fs p = None" "map_of fs c = None"
    | (created) m where "map_of fs p = None" "map_of fs c = Some m"
    | (deleted) n where "map_of fs p = Some n" "map_of fs c = None"
    | (both) n m where "map_of fs p = Some n" "map_of fs c = Some m"
    by (cases "map_of fs p"; cases "map_of fs c") auto
  then show ?thesis
  proof cases
    case none
    then show ?thesis using undo_one_created [OF r(1) _ sys] u st nc by simp
  next
    case created
    then show ?thesis using undo_one_created [OF r(1) _ sys] u st nc by simp
  next
    case deleted
    then have "puts (createAllTypes env fp f) fs c (Some n)"
      using u by (intro create_all [OF r _ p(1) _ pc _ e sys pre]) (auto simp: undoable_def on_some_iff)
    then show ?thesis
      using deleted st by (auto simp: doUndo_def Let_def puts_def)
  next
    case both
    have n: "restorable n" and m: "plain_inode m" using u both by (auto simp: undoable_def on_some_iff)
    have m16: "i_mode n AND 0xFFFF = i_mode n" "i_mode m AND 0xFFFF = i_mode m"
      using n m by (auto simp: restorable_def plain_inode_def)
    have stf: "pre_to_post_status f = inode_cmp n m" using st both by simp
    show ?thesis
    proof (cases "i_mode n AND S_IFMT = i_mode m AND S_IFMT")
      case True
      have kinds: "is_lnk m = is_lnk n" "is_dir m = is_dir n" "is_reg m = is_reg n"
        using True by (auto simp: S_ISLNK_def S_ISDIR_def S_ISREG_def)
      have "puts (modifyAllTypes env fp f) fs c (Some n)"
      proof (rule modify_all [OF r both(2) m True [symmetric] p(1) both(1) pc n e sys pre])
        show "has (pre_to_post_status f) PERMISSIONS \<longrightarrow> \<not> is_lnk n"
          using m n kinds by (auto simp: stf plain_inode_def restorable_def)
        show "\<not> has (pre_to_post_status f) PERMISSIONS \<longrightarrow> i_mode m = i_mode n"
          using same_mode [OF True _ m16] by (auto simp: stf)
        show "\<not> has (pre_to_post_status f) CONTENT \<longrightarrow> i_data m = i_data n"
          using True n m kinds by (auto simp: stf plain_inode_def restorable_def)
      qed (auto simp: stf)
      then obtain fs1 where 1: "modifyAllTypes env fp f fs = (True, fs1)" "sm_wf fs1"
        "map_of fs1 = (map_of fs)(c := Some n)"
        by (auto simp: puts_def)
      let ?mod = "has (inode_cmp n m) (CONTENT OR PERMISSIONS OR USER OR GROUP)"
      have nt: "\<not> has (inode_cmp n m) TYPE'" using True by simp
      have du: "doUndo env fp f fs = (True, f\<lparr>pre_to_system_status := - 1, post_to_system_status := - 1\<rparr>,
          if ?mod then fs1 else fs)"
        using 1(1) nt by (simp only: doUndo_def Let_def stf inode_cmp_zero) simp
      have "map_of fs = (map_of fs)(c := Some n)" if "\<not> ?mod"
      proof -
        have "m = n"
        proof (rule inode.equality)
          show "i_mode m = i_mode n"
            using same_mode [OF True _ m16] that by simp
          show "i_data m = i_data n"
            using that True n m kinds by (cases "is_dir n") (auto simp: plain_inode_def restorable_def)
          show "i_uid m = i_uid n" "i_gid m = i_gid n" using that by simp_all
        qed simp
        then show ?thesis using both(2) by (simp add: fun_upd_idem)
      qed
      then show ?thesis using du 1 wf both(1) by auto
    next
      case False
      have nd: "is_dir m \<longrightarrow> \<not> is_dir n" using False by (auto simp: S_ISDIR_def)
      have "puts (deleteAllTypes fp f) fs c None"
        using nc both nd by (intro delete_all [OF r(1) both(2) m _ sys]) auto
      then obtain fs1 where 1: "deleteAllTypes fp f fs = (True, fs1)" "sm_wf fs1"
        "map_of fs1 = (map_of fs)(c := None)"
        by (auto simp: puts_def)
      note r1 = reached_upd_self [OF r(1) 1(2,3)] and p1 = reach_p [OF 1(2,3)]
      have "puts (createAllTypes env fp f) fs1 c (Some n)"
        using 1 both pc by (intro create_all [OF r1 r(2) _ p1 _ pc n e sys pre]) auto
      then obtain fs2 where 2: "createAllTypes env fp f fs1 = (True, fs2)" "sm_wf fs2"
        "map_of fs2 = (map_of fs1)(c := Some n)"
        by (auto simp: puts_def)
      have m2: "map_of fs2 = (map_of fs)(c := Some n)" using 2 1 by auto
      have lnk: "\<not> is_lnk n" if "(i_mode n XOR i_mode m) AND PERMS \<noteq> 0"
        using u both that False by (auto simp: undoable_def S_ISLNK_def)
      have "puts (modifyAllTypes env fp f) fs2 c (Some n)"
        using lnk False both pc n m2
        by (intro modify_all [OF reached_upd_self [OF r1 2(2,3)] r(2) _ _ _ reach_p [OF 2(2) m2]
              _ pc n e sys pre]) (auto simp: stf restorable_def)
      then show ?thesis
        using 1 2 m2 both False by (auto simp: doUndo_def Let_def puts_def stf)
    qed
  qed
qed

end
