(* ===== verification/FilesFind.thy ===== *)
theory FilesFind
  imports Files
begin

text \<open>
  Lookup in the sorted list of files: the halving loop of \<open>std::lower_bound\<close> finds the partition
  point, so \<open>Files::find\<close> finds a file exactly when it is in the list.  Filtering and sorting give
  the sorted list that it needs.
\<close>

lemma lower_bound_loop_correct:
  assumes "\<forall>i j. i < j \<longrightarrow> j < first + len \<longrightarrow> lt (xs ! j) \<longrightarrow> lt (xs ! i)"
  shows "first \<le> lower_bound_loop lt xs first len \<and> lower_bound_loop lt xs first len \<le> first + len
    \<and> (\<forall>i. first \<le> i \<longrightarrow> i < lower_bound_loop lt xs first len \<longrightarrow> lt (xs ! i))
    \<and> (\<forall>i. lower_bound_loop lt xs first len \<le> i \<longrightarrow> i < first + len \<longrightarrow> \<not> lt (xs ! i))"
  using assms
proof (induction lt xs first len rule: lower_bound_loop.induct)
  case (1 lt xs first len)
  show ?case
  proof (cases "len = 0")
    case True
    then show ?thesis by (subst lower_bound_loop.simps) (simp add: lower_bound_loop.simps)
  next
    case False
    define half where "half = len div 2"
    have h: "half < len" using False by (simp add: half_def)
    show ?thesis
    proof (cases "lt (xs ! (first + half))")
      case True
      have eq: "lower_bound_loop lt xs first len
          = lower_bound_loop lt xs (Suc (first + half)) (len - half - 1)"
        using True False by (subst lower_bound_loop.simps) (simp add: half_def Let_def)
      have s: "Suc (first + half) + (len - half - 1) = first + len" using h by simp
      note IH = 1(1) [OF False refl refl, folded half_def, OF True]
      have below: "lt (xs ! i)" if "i \<le> first + half" for i
        using that True 1(3) h by (metis add_strict_left_mono le_neq_implies_less)
      let ?r = "lower_bound_loop lt xs (Suc (first + half)) (len - half - 1)"
      have "\<forall>i j. i < j \<longrightarrow> j < Suc (first + half) + (len - half - 1) \<longrightarrow> lt (xs ! j) \<longrightarrow> lt (xs ! i)"
        unfolding s by (rule 1(3))
      then have r: "Suc (first + half) \<le> ?r" "?r \<le> first + len"
        "\<forall>i. Suc (first + half) \<le> i \<longrightarrow> i < ?r \<longrightarrow> lt (xs ! i)"
        "\<forall>i. ?r \<le> i \<longrightarrow> i < first + len \<longrightarrow> \<not> lt (xs ! i)"
        using IH unfolding s by blast+
      have "lt (xs ! i)" if "i < ?r" for i
        using below [of i] r(3) that by (cases "i \<le> first + half") auto
      then show ?thesis
        using r unfolding eq by auto
    next
      case nlt: False
      have eq: "lower_bound_loop lt xs first len = lower_bound_loop lt xs first half"
        using nlt False by (subst lower_bound_loop.simps) (simp add: half_def Let_def)
      have "\<forall>i j. i < j \<longrightarrow> j < first + half \<longrightarrow> lt (xs ! j) \<longrightarrow> lt (xs ! i)"
        using 1(3) h by auto
      note IH = 1(2) [OF False refl refl, folded half_def, OF nlt this]
      have above: "\<not> lt (xs ! i)" if "first + half \<le> i" "i < first + len" for i
        using that nlt 1(3) by (metis le_neq_implies_less)
      show ?thesis
      proof -
        let ?r = "lower_bound_loop lt xs first half"
        have r: "first \<le> ?r" "?r \<le> first + half"
          "\<forall>i. first \<le> i \<longrightarrow> i < ?r \<longrightarrow> lt (xs ! i)"
          "\<forall>i. ?r \<le> i \<longrightarrow> i < first + half \<longrightarrow> \<not> lt (xs ! i)"
          using IH by blast+
        have "\<not> lt (xs ! i)" if "?r \<le> i" "i < first + len" for i
          using above [of i] r(4) that by (cases "first + half \<le> i") auto
        then show ?thesis unfolding eq using r h by auto
      qed
    qed
  qed
qed

abbreviation names_sorted :: "file_rec list \<Rightarrow> bool" where
  "names_sorted entries \<equiv> sorted_wrt (<) (map f_name entries)"

lemma names_sorted_nth:
  "names_sorted entries \<Longrightarrow> i < j \<Longrightarrow> j < length entries \<Longrightarrow> f_name (entries ! i) < f_name (entries ! j)"
  by (simp add: sorted_wrt_iff_nth_less)

lemma names_sorted_inj:
  assumes "names_sorted entries" "i < length entries" "j < length entries"
    "f_name (entries ! i) = f_name (entries ! j)"
  shows "i = j"
  using names_sorted_nth [OF assms(1), of i j] names_sorted_nth [OF assms(1), of j i] assms
  by (metis less_irrefl linorder_neqE_nat)

lemma files_find_Some:
  assumes s: "names_sorted entries"
  shows "files_find entries name = Some i \<longleftrightarrow> i < length entries \<and> f_name (entries ! i) = name"
proof -
  let ?lt = "\<lambda>f. f_name f < name"
  let ?r = "lower_bound_loop ?lt entries 0 (length entries)"
  have mono: "\<forall>i j. i < j \<longrightarrow> j < 0 + length entries \<longrightarrow> ?lt (entries ! j) \<longrightarrow> ?lt (entries ! i)"
    using names_sorted_nth [OF s] by (auto intro: less_trans)
  note lb = lower_bound_loop_correct [OF mono]
  have hit: "i < length entries \<Longrightarrow> f_name (entries ! i) = name \<Longrightarrow> ?r = i" for i
  proof -
    assume i: "i < length entries" "f_name (entries ! i) = name"
    then have "?r \<le> i" using lb by (metis less_irrefl not_le zero_le)
    moreover have "\<not> ?r < i"
    proof
      assume "?r < i"
      then have "f_name (entries ! ?r) < name" using names_sorted_nth [OF s] i by auto
      moreover have "\<not> ?lt (entries ! ?r)" using lb \<open>?r < i\<close> i by auto
      ultimately show False by simp
    qed
    ultimately show ?thesis by simp
  qed
  have "?r \<le> length entries" using lb by simp
  show ?thesis
  proof
    assume "files_find entries name = Some i"
    then show "i < length entries \<and> f_name (entries ! i) = name"
      using \<open>?r \<le> length entries\<close> by (auto simp: files_find_def Let_def split: if_splits)
  next
    assume i: "i < length entries \<and> f_name (entries ! i) = name"
    then have "?r = i" using hit by blast
    then show "files_find entries name = Some i"
      using i by (simp add: files_find_def Let_def)
  qed
qed

lemma files_find_None:
  assumes "names_sorted entries"
  shows "files_find entries name = None \<longleftrightarrow> name \<notin> f_name ` set entries"
proof -
  have "files_find entries name = None \<longleftrightarrow> (\<nexists>i. files_find entries name = Some i)"
    by (cases "files_find entries name") auto
  then show ?thesis
    unfolding files_find_Some [OF assms] by (metis imageE image_eqI in_set_conv_nth)
qed

lemma files_sort_sorted:
  assumes "distinct (map f_name entries)"
  shows "names_sorted (files_sort entries)"
proof -
  have "distinct (map f_name (files_sort entries))"
    using assms by (simp add: files_sort_def distinct_map)
  moreover have "sorted (map f_name (files_sort entries))"
    by (simp add: files_sort_def)
  ultimately show ?thesis by (simp add: strict_sorted_iff)
qed

lemma files_filter_keeps:
  "names_sorted entries \<Longrightarrow> names_sorted (files_filter ps entries)"
  by (simp add: files_filter_def sorted_wrt_map sorted_wrt_filter)

end
