(* ===== verification/UndoAll.thy ===== *)
theory UndoAll
  imports Restore FilesFind
begin

text \<open>
  Undoing all files of a comparison.  \<open>expected_files\<close> is the list that a comparison of the
  \<open>pre\<close> snapshot with the subvolume gives: every path with a status, sorted by name, marked for
  undo.  Running the steps of \<open>getUndoSteps\<close> on it restores the snapshot: a created directory is
  empty when its turn comes, and the parent of a restored file is a directory by then.
\<close>

subsection \<open>Trees in the file system\<close>

definition scope :: "string list \<Rightarrow> bool" where
  "scope ns \<longleftrightarrow> ns \<noteq> [] \<and> hd ns \<noteq> ''.snapshots'' \<and> list_all valid_name ns"

text \<open>A well-formed file system: names are valid and every parent is a directory.\<close>

definition fs_ok :: "fs \<Rightarrow> bool" where
  "fs_ok fs \<longleftrightarrow> sm_wf fs \<and> list_all (\<lambda>(c, n). list_all valid_name c \<and>
     (butlast c = [] \<or> (case map_of fs (butlast c) of None \<Rightarrow> False | Some d \<Rightarrow> is_dir d))) fs"

definition tree_names :: "fs \<Rightarrow> string list \<Rightarrow> string list list" where
  "tree_names fs b = filter scope (map (drop (length b)) (filter (\<lambda>k. take (length b) k = b) (map fst fs)))"

definition status_at :: "fs \<Rightarrow> string list \<Rightarrow> string list \<Rightarrow> string list \<Rightarrow> u32" where
  "status_at fs pb sb ns = inode_status (map_of fs (pb @ ns)) (map_of fs (sb @ ns))"

definition marked_file :: "fs \<Rightarrow> string list \<Rightarrow> string list \<Rightarrow> string list \<Rightarrow> file_rec" where
  "marked_file fs pb sb ns = (new_file (path_str ns) (status_at fs pb sb ns))\<lparr>f_undo := True\<rparr>"

definition changed_names :: "fs \<Rightarrow> string list \<Rightarrow> string list \<Rightarrow> string list list" where
  "changed_names fs pb sb =
     sort_key path_str (remdups (filter (\<lambda>ns. status_at fs pb sb ns \<noteq> 0)
       (tree_names fs pb @ tree_names fs sb)))"

definition expected_files :: "fs \<Rightarrow> string list \<Rightarrow> string list \<Rightarrow> file_rec list" where
  "expected_files fs pb sb = map (marked_file fs pb sb) (changed_names fs pb sb)"

text \<open>All steps, as the loop of the client runs them; the result says whether all succeeded.\<close>

fun run_steps :: "undo_env \<Rightarrow> file_paths \<Rightarrow> undo_step list \<Rightarrow> file_rec list \<times> fs \<Rightarrow>
    bool \<times> (file_rec list \<times> fs)" where
  "run_steps env fp [] s = (True, s)"
| "run_steps env fp (st # sts) s =
     (case doUndoStep env fp st s of (ok, s') \<Rightarrow>
        (case run_steps env fp sts s' of (ok', s'') \<Rightarrow> (ok \<and> ok', s'')))"

lemma fs_ok_dirs:
  assumes "fs_ok fs" "map_of fs c = Some n"
  shows "list_all valid_name c" "dirs_to fs [] c"
proof -
  have par: "\<exists>d. map_of fs (butlast c) = Some d \<and> is_dir d"
    if "map_of fs c = Some n" "butlast c \<noteq> []" for c n
    using assms(1) map_of_SomeD [OF that(1)] that(2)
    by (auto simp: fs_ok_def list_all_iff split: option.splits)
  have "dirs_to fs [] c" if "map_of fs c = Some n" for c n
    using that
  proof (induction c arbitrary: n rule: rev_induct)
    case (snoc x c)
    show ?case
    proof (cases "c = []")
      case False
      then obtain d where d: "map_of fs c = Some d" "is_dir d" using par [OF snoc.prems] by auto
      have "dirs_to fs [] c" by (rule snoc.IH [OF d(1)])
      then show ?thesis using d by (auto simp: dirs_to_def less_Suc_eq)
    qed simp
  qed simp
  from this [OF assms(2)] show "dirs_to fs [] c" .
  show "list_all valid_name c"
    using assms(1) map_of_SomeD [OF assms(2)] by (auto simp: fs_ok_def list_all_iff)
qed

lemma fs_ok_parent:
  assumes "fs_ok fs" "map_of fs (b @ ms @ [x]) = Some n" "b @ ms \<noteq> []"
  shows "\<exists>d. map_of fs (b @ ms) = Some d \<and> is_dir d"
  using fs_ok_dirs(2) [OF assms(1,2)] assms(3)
  by (auto simp: dirs_to_def dest!: spec [of _ "length (b @ ms)"])

lemma fs_ok_above:
  assumes "fs_ok fs" "map_of fs (b @ ns) = Some n" "0 < k" "k < length ns"
  shows "\<exists>d. map_of fs (b @ take k ns) = Some d \<and> is_dir d"
  using fs_ok_dirs(2) [OF assms(1,2)] assms(3,4)
  by (auto simp: dirs_to_def dest!: spec [of _ "length b + k"])

lemma path_str_inj:
  "list_all valid_name a \<Longrightarrow> list_all valid_name b \<Longrightarrow> path_str a = path_str b \<Longrightarrow> a = b"
  by (metis comps_path_str)

lemma path_str_less:
  assumes "b \<noteq> []"
  shows "path_str a < path_str (a @ b)"
proof -
  have "(p :: string) < p @ c # q" for p c q
    by (induction p) auto
  then show ?thesis using assms by (cases b) auto
qed

lemma tree_names_iff:
  assumes "sm_wf fs"
  shows "ns \<in> set (tree_names fs b) \<longleftrightarrow> scope ns \<and> map_of fs (b @ ns) \<noteq> None"
proof -
  have "map_of fs (b @ ns) \<noteq> None \<longleftrightarrow> b @ ns \<in> fst ` set fs"
    by (simp add: map_of_eq_None_iff)
  also have "\<dots> \<longleftrightarrow> ns \<in> drop (length b) ` {k \<in> fst ` set fs. take (length b) k = b}"
  proof
    assume "b @ ns \<in> fst ` set fs"
    then show "ns \<in> drop (length b) ` {k \<in> fst ` set fs. take (length b) k = b}"
      by (intro image_eqI [where x = "b @ ns"]) auto
  next
    assume "ns \<in> drop (length b) ` {k \<in> fst ` set fs. take (length b) k = b}"
    then obtain k where k: "k \<in> fst ` set fs" "take (length b) k = b" "ns = drop (length b) k"
      by blast
    then have "b @ ns = k" using append_take_drop_id [of "length b" k] by simp
    then show "b @ ns \<in> fst ` set fs" using k by simp
  qed
  finally show ?thesis by (auto simp: tree_names_def)
qed

lemma changed_names_iff:
  "sm_wf fs \<Longrightarrow> ns \<in> set (changed_names fs pb sb) \<longleftrightarrow> scope ns \<and> status_at fs pb sb ns \<noteq> 0"
  by (cases "map_of fs (pb @ ns)"; cases "map_of fs (sb @ ns)")
    (auto simp: changed_names_def tree_names_iff status_at_def)

lemma changed_names_sorted:
  assumes "sm_wf fs"
  shows "sorted_wrt (<) (map path_str (changed_names fs pb sb))"
proof -
  have "distinct (map path_str (changed_names fs pb sb))"
    using path_str_inj changed_names_iff [OF assms, of _ pb sb]
    by (auto simp: distinct_map inj_on_def scope_def) (auto simp: changed_names_def)
  moreover have "sorted (map path_str (changed_names fs pb sb))"
    by (simp add: changed_names_def)
  ultimately show ?thesis by (simp add: strict_sorted_iff)
qed

lemma f_name_marked [simp]: "f_name (marked_file fs pb sb ns) = path_str ns"
  "pre_to_post_status (marked_file fs pb sb ns) = status_at fs pb sb ns"
  "f_undo (marked_file fs pb sb ns)"
  by (simp_all add: marked_file_def new_file_def)

subsection \<open>The steps in order\<close>

definition created_names :: "fs \<Rightarrow> string list \<Rightarrow> string list \<Rightarrow> string list list" where
  "created_names fs pb sb = filter (\<lambda>ns. status_at fs pb sb ns = CREATED) (changed_names fs pb sb)"

definition other_names :: "fs \<Rightarrow> string list \<Rightarrow> string list \<Rightarrow> string list list" where
  "other_names fs pb sb = filter (\<lambda>ns. status_at fs pb sb ns \<noteq> CREATED) (changed_names fs pb sb)"

lemma getUndoSteps_expected:
  "getUndoSteps (expected_files fs pb sb) =
     map (\<lambda>ns. step_of (marked_file fs pb sb ns))
       (rev (created_names fs pb sb) @ other_names fs pb sb)"
  by (simp add: getUndoSteps_def expected_files_def created_names_def other_names_def
      filter_map rev_map rev_filter comp_def)

text \<open>The list of files during the undo: the cached statuses may differ.\<close>

definition same_files :: "file_rec list \<Rightarrow> file_rec list \<Rightarrow> bool" where
  "same_files a b \<longleftrightarrow> map f_name a = map f_name b \<and> map pre_to_post_status a = map pre_to_post_status b"

lemma doUndo_file:
  "fst (snd (doUndo env fp f fs)) = f\<lparr>pre_to_system_status := - 1, post_to_system_status := - 1\<rparr>"
  by (simp add: doUndo_def Let_def split: prod.split)

lemma same_files_update:
  assumes "same_files a b" "i < length a"
  shows "same_files (a[i := (a ! i)\<lparr>pre_to_system_status := x, post_to_system_status := y\<rparr>]) b"
proof -
  have "map f_name (a[i := (a ! i)\<lparr>pre_to_system_status := x, post_to_system_status := y\<rparr>]) = map f_name a"
    "map pre_to_post_status (a[i := (a ! i)\<lparr>pre_to_system_status := x, post_to_system_status := y\<rparr>])
       = map pre_to_post_status a"
    using assms(2) by (simp_all add: map_update list_update_same_conv)
  then show ?thesis using assms(1) by (simp add: same_files_def)
qed

subsection \<open>The invariant of the undo loop\<close>

text \<open>The snapshot lies in \<open>.snapshots\<close> of the subvolume, neither of which is \<open>/\<close>.\<close>

definition undo_setting :: "file_paths \<Rightarrow> fs \<Rightarrow> string list \<Rightarrow> string list \<Rightarrow> bool" where
  "undo_setting fp fs pb sb \<longleftrightarrow> fs_ok fs \<and> sb \<noteq> [] \<and> list_all valid_name sb \<and> list_all valid_name pb
     \<and> take (Suc (length sb)) pb = sb @ [''.snapshots'']
     \<and> system_path fp = path_str sb \<and> pre_path fp = path_str pb"

text \<open>The paths of \<open>D\<close> have been undone, everything else is as it was.\<close>

definition undo_inv :: "fs \<Rightarrow> string list \<Rightarrow> string list \<Rightarrow> string list set \<Rightarrow> fs \<Rightarrow> bool" where
  "undo_inv fs pb sb D fs' \<longleftrightarrow> sm_wf fs' \<and>
     (\<forall>c. map_of fs' c = (if c \<in> (@) sb ` D then map_of fs (pb @ drop (length sb) c) else map_of fs c))"

definition value_at :: "fs \<Rightarrow> string list \<Rightarrow> string list \<Rightarrow> string list set \<Rightarrow> string list \<Rightarrow> inode option" where
  "value_at fs pb sb D ns = (if ns \<in> D then map_of fs (pb @ ns) else map_of fs (sb @ ns))"

text \<open>When a path can be undone: the directories above it are there, and if it is a directory that
  has to go, it is empty.\<close>

definition ready :: "fs \<Rightarrow> string list \<Rightarrow> string list \<Rightarrow> string list set \<Rightarrow> string list \<Rightarrow> bool" where
  "ready fs pb sb D ns \<longleftrightarrow> ns \<notin> D \<and> scope ns \<and> status_at fs pb sb ns \<noteq> 0
     \<and> (\<forall>k. 0 < k \<and> k < length ns \<longrightarrow> (\<exists>d. value_at fs pb sb D (take k ns) = Some d \<and> is_dir d))
     \<and> ((\<forall>n. map_of fs (pb @ ns) = Some n \<longrightarrow> \<not> is_dir n) \<longrightarrow>
          (\<forall>x. value_at fs pb sb D (ns @ [x]) = None))"

lemma path_str_not_root: "list_all valid_name b \<Longrightarrow> path_str b \<noteq> ''/''"
  by (cases b) (auto simp: valid_name_def)

lemma setting_pb:
  assumes "undo_setting fp fs pb sb"
  obtains r where "pb = sb @ ''.snapshots'' # r"
proof -
  have "pb = (sb @ [''.snapshots'']) @ drop (Suc (length sb)) pb"
    using assms append_take_drop_id [of "Suc (length sb)" pb] by (simp add: undo_setting_def)
  then show ?thesis by (intro that [of "drop (Suc (length sb)) pb"]) simp
qed

lemma setting_outside:
  assumes "undo_setting fp fs pb sb" "scope ms"
  shows "take k (pb @ ns) \<noteq> sb @ ms"
proof
  assume eq: "take k (pb @ ns) = sb @ ms"
  obtain r where r: "pb = sb @ ''.snapshots'' # r" using setting_pb [OF assms(1)] .
  have "length sb < k"
    using arg_cong [OF eq, of length] assms(2) by (cases ms) (auto simp: scope_def)
  then have "take (k - length sb) (''.snapshots'' # r @ ns) = ms"
    using eq by (simp add: r)
  then show False using assms(2) by (cases "k - length sb") (auto simp: scope_def)
qed

lemma undo_inv_value:
  "undo_inv fs pb sb D fs' \<Longrightarrow> map_of fs' (sb @ ns) = value_at fs pb sb D ns"
  by (auto simp: undo_inv_def value_at_def)

lemma undo_inv_outside:
  assumes "undo_inv fs pb sb D fs'" "undo_setting fp fs pb sb" "\<forall>ms\<in>D. scope ms"
  shows "map_of fs' (take k (pb @ ns)) = map_of fs (take k (pb @ ns))"
  using assms(1,3) setting_outside [OF assms(2)] by (auto simp: undo_inv_def)

lemma undo_inv_above:
  assumes "undo_inv fs pb sb D fs'" "\<forall>ms\<in>D. scope ms" "k \<le> length sb"
  shows "map_of fs' (take k sb) = map_of fs (take k sb)"
proof -
  have "take k sb \<notin> (@) sb ` D"
  proof
    assume "take k sb \<in> (@) sb ` D"
    then obtain ms where "ms \<in> D" "take k sb = sb @ ms" by auto
    then have "min (length sb) k = length sb + length ms" "ms \<noteq> []"
      using assms(2) by (auto simp: scope_def dest: arg_cong [of _ _ length])
    then show False by (cases ms) auto
  qed
  then show ?thesis using assms(1) by (simp add: undo_inv_def)
qed

lemma undo_reached:
  assumes I: "undo_inv fs pb sb D fs'" and S: "undo_setting fp fs pb sb" and D: "\<forall>ms\<in>D. scope ms"
    and R: "ready fs pb sb D ns"
  shows "reached fs' (sb @ ns)"
proof -
  obtain r where r: "pb = sb @ ''.snapshots'' # r" using setting_pb [OF S] .
  have ok: "fs_ok fs" and sb: "list_all valid_name sb" using S by (auto simp: undo_setting_def)
  have "map_of fs (pb @ ns) \<noteq> None \<or> map_of fs (sb @ ns) \<noteq> None"
    using R by (cases "map_of fs (pb @ ns)"; cases "map_of fs (sb @ ns)")
      (auto simp: ready_def status_at_def)
  then obtain t n where t: "map_of fs (sb @ t) = Some n" "t \<noteq> []"
    using R by (auto simp: r ready_def scope_def)
  have "\<exists>d. map_of fs' (take k (sb @ ns)) = Some d \<and> is_dir d"
    if k: "0 < k" "k < length (sb @ ns)" for k
  proof (cases "k \<le> length sb")
    case True
    have "\<exists>d. map_of fs ([] @ take k (sb @ t)) = Some d \<and> is_dir d"
      using fs_ok_above [OF ok, of "[]" "sb @ t" n k] t k True by (cases t) auto
    then show ?thesis using undo_inv_above [OF I D True] True by simp
  next
    case False
    then show ?thesis
      using R k undo_inv_value [OF I, of "take (k - length sb) ns"]
      by (auto simp: ready_def)
  qed
  then show ?thesis
    using I R sb by (auto simp: reached_def dirs_to_def undo_inv_def ready_def scope_def)
qed

lemma undo_reached_pre:
  assumes I: "undo_inv fs pb sb D fs'" and S: "undo_setting fp fs pb sb" and D: "\<forall>ms\<in>D. scope ms"
    and n: "map_of fs (pb @ ns) = Some n"
  shows "reached fs' (pb @ ns)"
proof -
  have ok: "fs_ok fs" "sb \<noteq> []" using S by (auto simp: undo_setting_def)
  then have "pb \<noteq> []" using setting_pb [OF S] by fastforce
  moreover have "dirs_to fs' [] (pb @ ns)"
    using fs_ok_dirs(2) [OF ok(1) n] undo_inv_outside [OF I S D]
    by (simp add: dirs_to_def del: take_append)
  ultimately show ?thesis
    using I fs_ok_dirs(1) [OF ok(1) n] by (simp add: reached_def undo_inv_def)
qed

definition all_undoable :: "fs \<Rightarrow> string list \<Rightarrow> string list \<Rightarrow> bool" where
  "all_undoable fs pb sb \<longleftrightarrow>
     list_all (\<lambda>ns. let a = map_of fs (pb @ ns); b = map_of fs (sb @ ns) in
         if status_at fs pb sb ns = 0
         then on_some plain_inode a \<and> on_some plain_inode b
         else undoable a b) (tree_names fs pb @ tree_names fs sb)"

lemma all_undoable_changed:
  "all_undoable fs pb sb \<Longrightarrow> ns \<in> set (changed_names fs pb sb) \<Longrightarrow>
   undoable (map_of fs (pb @ ns)) (map_of fs (sb @ ns))"
  by (auto simp: all_undoable_def changed_names_def list_all_iff Let_def)

lemma all_undoable_unchanged:
  assumes "all_undoable fs pb sb" "sm_wf fs" "scope ns" "status_at fs pb sb ns = 0"
  shows "on_some plain_inode (map_of fs (pb @ ns))" "on_some plain_inode (map_of fs (sb @ ns))"
proof -
  have "(map_of fs (pb @ ns) = None \<and> map_of fs (sb @ ns) = None)
      \<or> ns \<in> set (tree_names fs pb @ tree_names fs sb)"
    using assms(2,3) by (auto simp: tree_names_iff)
  then show "on_some plain_inode (map_of fs (pb @ ns))" "on_some plain_inode (map_of fs (sb @ ns))"
    using assms(1,4) unfolding all_undoable_def list_all_iff Let_def by force+
qed

lemma same_files_find:
  assumes "same_files es (expected_files fs pb sb)" "sm_wf fs" "ns \<in> set (changed_names fs pb sb)"
  obtains i where "files_find es (path_str ns) = Some i" "i < length es" "f_name (es ! i) = path_str ns"
    "pre_to_post_status (es ! i) = status_at fs pb sb ns"
proof -
  let ?L = "changed_names fs pb sb"
  have names: "map f_name es = map path_str ?L"
    and stats: "map pre_to_post_status es = map (status_at fs pb sb) ?L"
    using assms(1) by (simp_all add: same_files_def expected_files_def comp_def)
  have len: "length es = length ?L" using arg_cong [OF names, of length] by simp
  obtain i where i: "i < length es" "?L ! i = ns"
    using assms(3) len by (auto simp: in_set_conv_nth)
  have n: "f_name (es ! i) = path_str ns" "pre_to_post_status (es ! i) = status_at fs pb sb ns"
    using arg_cong [OF names, of "\<lambda>l. l ! i"] arg_cong [OF stats, of "\<lambda>l. l ! i"] i len by simp_all
  have "names_sorted es"
    unfolding names by (rule changed_names_sorted [OF assms(2)])
  then have "files_find es (path_str ns) = Some i"
    using files_find_Some i(1) n(1) by blast
  then show ?thesis using that i(1) n by blast
qed

lemma undo_step_inv:
  assumes S: "undo_setting fp fs pb sb" and e: "env_ok env" and U: "all_undoable fs pb sb"
    and I: "undo_inv fs pb sb D fs'" and D: "\<forall>ms\<in>D. scope ms"
    and F: "same_files es (expected_files fs pb sb)" and R: "ready fs pb sb D ns"
  shows "\<exists>es' fs''. doUndoStep env fp (step_of (marked_file fs pb sb ns)) (es, fs') = (True, (es', fs''))
     \<and> same_files es' (expected_files fs pb sb) \<and> undo_inv fs pb sb (insert ns D) fs''"
proof -
  have ok: "fs_ok fs" and sb: "sb \<noteq> []" "list_all valid_name sb" "list_all valid_name pb"
    and paths: "system_path fp = path_str sb" "pre_path fp = path_str pb"
    using S by (auto simp: undo_setting_def)
  have wf: "sm_wf fs" using ok by (simp add: fs_ok_def)
  have ns: "scope ns" "ns \<notin> D" "ns \<in> set (changed_names fs pb sb)"
    using R changed_names_iff [OF wf] by (auto simp: ready_def)
  obtain i where i: "files_find es (path_str ns) = Some i" "i < length es"
      "f_name (es ! i) = path_str ns" "pre_to_post_status (es ! i) = status_at fs pb sb ns"
    using same_files_find [OF F wf ns(3)] .
  let ?f = "es ! i"
  have vpre: "map_of fs' (pb @ ns) = map_of fs (pb @ ns)"
    using undo_inv_outside [OF I S D, of "length (pb @ ns)" ns] by simp
  have vcur: "map_of fs' (sb @ ns) = map_of fs (sb @ ns)"
    using undo_inv_value [OF I, of ns] ns by (simp add: value_at_def)
  have abs: "getAbsolutePath fp ?f LOC_SYSTEM = path_str (sb @ ns)"
    "getAbsolutePath fp ?f LOC_PRE = path_str (pb @ ns)"
    using path_str_not_root sb by (simp_all add: getAbsolutePath_def paths i(3))
  have u: "undoable (map_of fs' (pb @ ns)) (map_of fs' (sb @ ns))"
    using all_undoable_changed [OF U ns(3)] by (simp add: vpre vcur)
  have st: "pre_to_post_status ?f = inode_status (map_of fs' (pb @ ns)) (map_of fs' (sb @ ns))"
    by (simp add: i(4) status_at_def vpre vcur)
  have r: "reached fs' (sb @ ns)" by (rule undo_reached [OF I S D R])
  have len: "2 \<le> length (sb @ ns)" using sb ns by (cases sb; cases ns) (auto simp: scope_def)
  have nc: "\<forall>m. map_of fs' (sb @ ns) = Some m \<longrightarrow> is_dir m \<longrightarrow>
      (\<forall>n. map_of fs' (pb @ ns) = Some n \<longrightarrow> \<not> is_dir n) \<longrightarrow> (\<forall>x. map_of fs' ((sb @ ns) @ [x]) = None)"
    using R undo_inv_value [OF I] by (simp add: ready_def vpre)
  have "\<exists>fs'' f'. doUndo env fp ?f fs' = (True, f', fs'') \<and> sm_wf fs''
      \<and> map_of fs'' = (map_of fs')(sb @ ns := map_of fs' (pb @ ns)) \<and> f_name f' = f_name ?f"
  proof (cases "map_of fs (pb @ ns)")
    case None
    then show ?thesis
      using undo_one_created [OF r _ abs(1)] u st nc vpre by simp
  next
    case (Some n)
    have "\<forall>k. take k (pb @ ns) \<noteq> sb @ ns" using setting_outside [OF S ns(1)] by simp
    then show ?thesis
      using undo_reached_pre [OF I S D Some] by (intro undo_one [OF r len _ _ u e abs st nc])
  qed
  then obtain fs'' f' where d: "doUndo env fp ?f fs' = (True, f', fs'')" "sm_wf fs''"
      "map_of fs'' = (map_of fs')(sb @ ns := map_of fs (pb @ ns))"
    using vpre by auto
  have f': "f' = ?f\<lparr>pre_to_system_status := - 1, post_to_system_status := - 1\<rparr>"
    using doUndo_file [of env fp ?f fs'] d(1) by simp
  have inv: "undo_inv fs pb sb (insert ns D) fs''"
    using I d(2,3) by (auto simp: undo_inv_def)
  show ?thesis
    using i(1) d(1) inv same_files_update [OF F i(2)] by (simp add: doUndoStep_def step_of_def f')
qed

lemma run_steps_inv:
  assumes S: "undo_setting fp fs pb sb" and e: "env_ok env" and U: "all_undoable fs pb sb"
  shows "undo_inv fs pb sb D fs' \<Longrightarrow> \<forall>ms\<in>D. scope ms \<Longrightarrow>
    same_files es (expected_files fs pb sb) \<Longrightarrow>
    \<forall>xs ns ys. L = xs @ ns # ys \<longrightarrow> ready fs pb sb (D \<union> set xs) ns \<Longrightarrow>
    \<exists>es' fs''. run_steps env fp (map (\<lambda>ns. step_of (marked_file fs pb sb ns)) L) (es, fs') = (True, (es', fs''))
      \<and> undo_inv fs pb sb (D \<union> set L) fs''"
proof (induction L arbitrary: D es fs')
  case (Cons ns L)
  have R: "ready fs pb sb D ns" using Cons.prems(4) [rule_format, of "[]" ns L] by simp
  obtain es1 fs1 where 1:
    "doUndoStep env fp (step_of (marked_file fs pb sb ns)) (es, fs') = (True, (es1, fs1))"
    "same_files es1 (expected_files fs pb sb)" "undo_inv fs pb sb (insert ns D) fs1"
    using undo_step_inv [OF S e U Cons.prems(1-3) R] by blast
  have "\<forall>xs m ys. L = xs @ m # ys \<longrightarrow> ready fs pb sb (insert ns D \<union> set xs) m"
  proof (intro allI impI)
    fix xs m ys assume "L = xs @ m # ys"
    then show "ready fs pb sb (insert ns D \<union> set xs) m"
      using Cons.prems(4) [rule_format, of "ns # xs" m ys] by simp
  qed
  moreover have "\<forall>ms\<in>insert ns D. scope ms" using Cons.prems(2) R by (simp add: ready_def)
  ultimately obtain es2 fs2 where
    "run_steps env fp (map (\<lambda>ns. step_of (marked_file fs pb sb ns)) L) (es1, fs1) = (True, (es2, fs2))"
    "undo_inv fs pb sb (insert ns D \<union> set L) fs2"
    using Cons.IH [OF 1(3) _ 1(2)] by blast
  then show ?case using 1(1) by auto
qed auto

subsection \<open>The order of the steps\<close>

lemma status_at_created:
  "status_at fs pb sb ns = CREATED \<longleftrightarrow> map_of fs (pb @ ns) = None \<and> map_of fs (sb @ ns) \<noteq> None"
  by (cases "map_of fs (pb @ ns)"; cases "map_of fs (sb @ ns)") (auto simp: status_at_def)

lemma status_at_zero_dir:
  assumes "status_at fs pb sb ns = 0" "map_of fs (pb @ ns) = Some d" "is_dir d"
  shows "\<exists>b. map_of fs (sb @ ns) = Some b \<and> is_dir b"
proof -
  obtain b where b: "map_of fs (sb @ ns) = Some b" "inode_cmp d b = 0"
    using assms by (cases "map_of fs (sb @ ns)") (auto simp: status_at_def)
  have "inode_cmp d b AND TYPE' = 0" using b by simp
  then have "i_mode d AND S_IFMT = i_mode b AND S_IFMT" by (simp del: inode_cmp_zero add: inode_cmp_zero(3))
  then show ?thesis using b assms(3) by (auto simp: S_ISDIR_def)
qed

lemma strict_sorted_split:
  fixes f :: "'a \<Rightarrow> 'b::linorder"
  assumes "sorted_wrt (<) (map f L)" "L = a @ n # b"
  shows "set a = {m \<in> set L. f m < f n}" "set b = {m \<in> set L. f n < f m}"
  using assms by (auto simp: sorted_wrt_append dest: less_asym)

lemma scope_take: "scope ns \<Longrightarrow> 0 < k \<Longrightarrow> scope (take k ns)"
  by (cases ns; cases k) (auto simp: scope_def list_all_iff dest: in_set_takeD)

lemma child_scope:
  assumes "fs_ok fs" "scope ns" "map_of fs (b @ ns @ [x]) = Some n"
  shows "scope (ns @ [x])"
  using fs_ok_dirs(1) [OF assms(1,3)] assms(2) by (auto simp: scope_def)

lemma child_created:
  assumes ok: "fs_ok fs" and S: "undo_setting fp fs pb sb" and ns: "scope ns"
    and nd: "\<forall>n. map_of fs (pb @ ns) = Some n \<longrightarrow> \<not> is_dir n"
    and ch: "map_of fs (sb @ ns @ [x]) \<noteq> None"
  shows "ns @ [x] \<in> set (created_names fs pb sb)"
proof -
  have "map_of fs (pb @ ns @ [x]) = None"
    using fs_ok_parent [OF ok, of pb ns x] nd ns by (cases "map_of fs (pb @ ns @ [x])") (auto simp: scope_def)
  then have "status_at fs pb sb (ns @ [x]) = CREATED"
    using ch by (simp add: status_at_created)
  then show ?thesis
    using child_scope [OF ok ns] ch ok changed_names_iff [of fs "ns @ [x]"]
    by (auto simp: created_names_def fs_ok_def)
qed

lemma less_path_take:
  assumes "k < length ns"
  shows "path_str (take k ns) < path_str ns"
  using path_str_less [of "drop k ns" "take k ns"] assms by simp

lemma ready_created:
  assumes S: "undo_setting fp fs pb sb" and ns: "ns \<in> set (created_names fs pb sb)"
    and D: "D = {m \<in> set (created_names fs pb sb). path_str ns < path_str m}"
  shows "ready fs pb sb D ns"
proof -
  have ok: "fs_ok fs" and wf: "sm_wf fs" using S by (auto simp: undo_setting_def fs_ok_def)
  have sc: "scope ns" "status_at fs pb sb ns = CREATED"
    using ns changed_names_iff [OF wf] by (auto simp: created_names_def)
  obtain m where m: "map_of fs (pb @ ns) = None" "map_of fs (sb @ ns) = Some m"
    using sc(2) by (auto simp: status_at_created)
  have "\<exists>d. value_at fs pb sb D (take k ns) = Some d \<and> is_dir d" if "0 < k" "k < length ns" for k
    using fs_ok_above [OF ok m(2) that] less_path_take [OF that(2)] by (auto simp: value_at_def D)
  moreover have "value_at fs pb sb D (ns @ [x]) = None" for x
  proof (cases "map_of fs (sb @ ns @ [x])")
    case None
    have "map_of fs (pb @ ns @ [x]) = None"
      using fs_ok_parent [OF ok, of pb ns x] m sc by (cases "map_of fs (pb @ ns @ [x])") (auto simp: scope_def)
    then show ?thesis using None by (simp add: value_at_def)
  next
    case (Some c)
    then have "ns @ [x] \<in> set (created_names fs pb sb)"
      using child_created [OF ok S sc(1)] m by auto
    then show ?thesis
      using path_str_less [of "[x]" ns] changed_names_iff [OF wf]
      by (auto simp: value_at_def D created_names_def status_at_created)
  qed
  ultimately show ?thesis using sc D by (simp add: ready_def)
qed

lemma ready_other:
  assumes S: "undo_setting fp fs pb sb" and ns: "ns \<in> set (other_names fs pb sb)"
    and D: "D = set (created_names fs pb sb) \<union> {m \<in> set (other_names fs pb sb). path_str m < path_str ns}"
  shows "ready fs pb sb D ns"
proof -
  have ok: "fs_ok fs" and wf: "sm_wf fs" using S by (auto simp: undo_setting_def fs_ok_def)
  have sc: "scope ns" "status_at fs pb sb ns \<noteq> CREATED" "status_at fs pb sb ns \<noteq> 0"
    using ns changed_names_iff [OF wf] by (auto simp: other_names_def)
  obtain n where n: "map_of fs (pb @ ns) = Some n"
    using sc by (cases "map_of fs (pb @ ns)"; cases "map_of fs (sb @ ns)") (auto simp: status_at_def)
  have mem: "m \<in> D" if "scope m" "status_at fs pb sb m \<noteq> 0" "path_str m < path_str ns" for m
    using that changed_names_iff [OF wf, of m] by (auto simp: D created_names_def other_names_def)
  have "\<exists>d. value_at fs pb sb D (take k ns) = Some d \<and> is_dir d" if k: "0 < k" "k < length ns" for k
  proof -
    let ?m = "take k ns"
    obtain d where d: "map_of fs (pb @ ?m) = Some d" "is_dir d"
      using fs_ok_above [OF ok n k] by auto
    have "?m \<in> D \<or> status_at fs pb sb ?m = 0"
      using mem scope_take [OF sc(1) k(1)] less_path_take [OF k(2)] by blast
    then show ?thesis
      using d status_at_zero_dir [OF _ d] by (auto simp: value_at_def)
  qed
  moreover have "value_at fs pb sb D (ns @ [x]) = None"
    if nd: "\<forall>n. map_of fs (pb @ ns) = Some n \<longrightarrow> \<not> is_dir n" for x
  proof -
    have pre: "map_of fs (pb @ ns @ [x]) = None"
      using fs_ok_parent [OF ok, of pb ns x] nd sc by (cases "map_of fs (pb @ ns @ [x])") (auto simp: scope_def)
    show ?thesis
    proof (cases "map_of fs (sb @ ns @ [x])")
      case (Some c)
      then show ?thesis using child_created [OF ok S sc(1) nd] pre by (auto simp: value_at_def D)
    qed (simp add: value_at_def pre)
  qed
  moreover have "ns \<notin> D"
    using sc by (auto simp: D created_names_def)
  ultimately show ?thesis using sc by (simp add: ready_def)
qed

lemma names_sorted_parts:
  assumes "sm_wf fs"
  shows "sorted_wrt (<) (map path_str (created_names fs pb sb))"
    "sorted_wrt (<) (map path_str (other_names fs pb sb))"
  using changed_names_sorted [OF assms, of pb sb]
  by (simp_all add: created_names_def other_names_def sorted_wrt_map sorted_wrt_filter)

lemma steps_ready:
  assumes S: "undo_setting fp fs pb sb"
    and L: "rev (created_names fs pb sb) @ other_names fs pb sb = xs @ ns # ys"
  shows "ready fs pb sb (set xs) ns"
proof -
  let ?C = "created_names fs pb sb" and ?O = "other_names fs pb sb"
  have wf: "sm_wf fs" using S by (auto simp: undo_setting_def fs_ok_def)
  note sorted = names_sorted_parts [OF wf, of pb sb]
  consider (c) zs where "rev ?C = xs @ ns # zs" | (o) zs where "xs = rev ?C @ zs" "?O = zs @ ns # ys"
    using L by (auto simp: append_eq_append_conv2 Cons_eq_append_conv append_eq_Cons_conv)
  then show ?thesis
  proof cases
    case c
    from arg_cong [OF this, of rev] have C: "?C = rev zs @ ns # rev xs" by simp
    have "ns \<in> set ?C" by (simp add: C)
    then show ?thesis
      using strict_sorted_split(2) [OF sorted(1) C] by (intro ready_created [OF S]) simp_all
  next
    case o
    have "ns \<in> set ?O" by (simp add: o(2))
    then show ?thesis
      using strict_sorted_split(1) [OF sorted(2) o(2)] o(1) by (intro ready_other [OF S]) simp_all
  qed
qed

lemma status_zero_equal:
  assumes "inode_status a b = 0" "on_some plain_inode a" "on_some plain_inode b"
  shows "a = b"
proof (cases a; cases b)
  fix n m assume ab: "a = Some n" "b = Some m"
  have st: "inode_cmp n m = 0" using assms(1) ab by simp
  have p: "plain_inode n" "plain_inode m" using assms(2,3) ab by simp_all
  have z: "inode_cmp n m AND f = 0" for f using st by simp
  have kind: "i_mode n AND S_IFMT = i_mode m AND S_IFMT"
    using z [of TYPE'] by (simp only: inode_cmp_zero)
  have perm: "(i_mode n XOR i_mode m) AND PERMS = 0"
    using z [of PERMISSIONS] by (simp only: inode_cmp_zero)
  have dat: "is_reg n \<or> is_lnk n \<longrightarrow> i_data n = i_data m"
    using z [of CONTENT] kind by (simp only: inode_cmp_zero simp_thms)
  have "n = m"
  proof (rule inode.equality)
    show "i_mode n = i_mode m" using same_mode [OF kind perm] p by (simp add: plain_inode_def)
    have "is_dir n = is_dir m" using kind by (simp add: S_ISDIR_def)
    then show "i_data n = i_data m" using dat p by (auto simp: plain_inode_def)
    show "i_uid n = i_uid m" using z [of USER] by (simp only: inode_cmp_zero)
    show "i_gid n = i_gid m" using z [of GROUP] by (simp only: inode_cmp_zero)
  qed simp
  then show ?thesis using ab by simp
qed (use assms in auto)

end
