(* ===== verification/UndoClaims.thy ===== *)
theory UndoClaims
  imports UndoAll
begin

text \<open>
  The properties of the file list and of undo: the restoration theorem with a witness on a small
  file system, the order of the steps, and what the code does in the cases that the restoration
  theorem excludes.
\<close>

subsection \<open>A small file system\<close>

text \<open>Subvolume \<open>/h\<close> with snapshot 1: a changed file, a deleted directory with a file, a created
  directory with a file, and a link.\<close>

definition dir_inode :: "u32 \<Rightarrow> inode" where
  "dir_inode p = \<lparr>i_mode = S_IFDIR OR p, i_uid = 0, i_gid = 0, i_data = []\<rparr>"

definition reg_inode :: "u32 \<Rightarrow> string \<Rightarrow> inode" where
  "reg_inode p d = \<lparr>i_mode = S_IFREG OR p, i_uid = 0, i_gid = 0, i_data = d\<rparr>"

definition lnk_inode :: "string \<Rightarrow> inode" where
  "lnk_inode t = \<lparr>i_mode = S_IFLNK OR 0x1FF, i_uid = 0, i_gid = 0, i_data = t\<rparr>"

definition sample_fs :: fs where
  "sample_fs = fold (\<lambda>(c, n). sm_put c n)
     [([''h''], dir_inode 0x1ED),
      ([''h'', ''.snapshots''], dir_inode 0x1ED),
      ([''h'', ''.snapshots'', ''1''], dir_inode 0x1ED),
      ([''h'', ''.snapshots'', ''1'', ''a''], reg_inode 0x1A4 ''old''),
      ([''h'', ''.snapshots'', ''1'', ''d''], dir_inode 0x1ED),
      ([''h'', ''.snapshots'', ''1'', ''d'', ''f''], reg_inode 0x180 ''data''),
      ([''h'', ''.snapshots'', ''1'', ''l''], lnk_inode ''a''),
      ([''h'', ''a''], reg_inode 0x180 ''new''),
      ([''h'', ''l''], dir_inode 0x1FF),
      ([''h'', ''n''], dir_inode 0x1ED),
      ([''h'', ''n'', ''x''], reg_inode 0x1A4 '''')] []"

definition sample_paths :: file_paths where
  "sample_paths = \<lparr>system_path = ''/h'', pre_path = ''/h/.snapshots/1'', post_path = ''/h''\<rparr>"

definition sample_env :: undo_env where
  "sample_env = \<lparr>e_umask = 0x12, e_clone = False, e_copy = (\<lambda>d. (True, d))\<rparr>"

lemma sample_setting: "undo_setting sample_paths sample_fs [''h'', ''.snapshots'', ''1''] [''h'']"
  by code_simp

lemma sample_undoable: "all_undoable sample_fs [''h'', ''.snapshots'', ''1''] [''h'']"
  by code_simp

text \<open>Running all steps.\<close>

lemma undo_all_restores:
  assumes "undo_setting fp fs pb sb" "env_ok env" "all_undoable fs pb sb"
  shows "\<exists>es fs'. run_steps env fp (getUndoSteps (expected_files fs pb sb)) (expected_files fs pb sb, fs)
      = (True, (es, fs'))
     \<and> (\<forall>ns. scope ns \<longrightarrow> map_of fs' (sb @ ns) = map_of fs (pb @ ns))
     \<and> (\<forall>c. (\<nexists>ns. scope ns \<and> c = sb @ ns) \<longrightarrow> map_of fs' c = map_of fs c)"
proof -
  let ?E = "expected_files fs pb sb"
  let ?L = "rev (created_names fs pb sb) @ other_names fs pb sb"
  have wf: "sm_wf fs" using assms(1) by (auto simp: undo_setting_def fs_ok_def)
  have "undo_inv fs pb sb {} fs" using wf by (simp add: undo_inv_def)
  then obtain es fs' where run: "run_steps env fp (getUndoSteps ?E) (?E, fs) = (True, (es, fs'))"
    and inv: "undo_inv fs pb sb (set ?L) fs'"
    using run_steps_inv [OF assms, of "{}" fs ?E ?L] steps_ready [OF assms(1)]
    by (auto simp: getUndoSteps_expected same_files_def)
  have mem: "ns \<in> set ?L \<longleftrightarrow> scope ns \<and> status_at fs pb sb ns \<noteq> 0" for ns
    using changed_names_iff [OF wf, of ns pb sb] by (auto simp: created_names_def other_names_def)
  have "map_of fs' (sb @ ns) = map_of fs (pb @ ns)" if ns: "scope ns" for ns
  proof (cases "ns \<in> set ?L")
    case False
    then have z: "status_at fs pb sb ns = 0" using mem ns by blast
    have "map_of fs (pb @ ns) = map_of fs (sb @ ns)"
      using z status_zero_equal all_undoable_unchanged [OF assms(3) wf ns z] by (simp add: status_at_def)
    then show ?thesis using False by (simp add: undo_inv_value [OF inv] value_at_def)
  qed (simp add: undo_inv_value [OF inv] value_at_def)
  moreover have "map_of fs' c = map_of fs c" if "\<nexists>ns. scope ns \<and> c = sb @ ns" for c
    using inv that mem by (auto simp: undo_inv_def)
  ultimately show ?thesis using run by blast
qed



subsection \<open>Lookup, statistic and order\<close>

text \<open>C16. A file is found after filtering and sorting exactly when the comparison has it and no
  ignore pattern matches its name; the binary search returns its position.\<close>

theorem find_after_filter_and_sort:
  assumes "distinct (map f_name entries)"
  shows "(case files_find (files_sort (files_filter ps entries)) name of
      None \<Rightarrow> \<forall>f\<in>set entries. f_name f = name \<longrightarrow> list_ex (\<lambda>p. fnmatch p name) ps
    | Some i \<Rightarrow> (let f = files_sort (files_filter ps entries) ! i in
        f \<in> set entries \<and> f_name f = name \<and> \<not> list_ex (\<lambda>p. fnmatch p name) ps))"
proof -
  let ?L = "files_sort (files_filter ps entries)"
  have d: "distinct (map f_name (files_filter ps entries))"
    using assms by (simp add: files_filter_def distinct_map inj_on_def)
  note s = files_sort_sorted [OF d]
  have set: "set ?L = {f \<in> set entries. \<not> filter_matches ps f}"
    by (simp add: files_sort_def files_filter_def)
  show ?thesis
  proof (cases "files_find ?L name")
    case None
    then have "name \<notin> f_name ` set ?L" by (simp add: files_find_None [OF s])
    then show ?thesis using None by (auto simp: set filter_matches_def)
  next
    case (Some i)
    then have i: "i < length ?L" "f_name (?L ! i) = name" by (simp_all add: files_find_Some [OF s])
    then have "?L ! i \<in> set ?L" by simp
    then show ?thesis using Some i by (simp add: set filter_matches_def Let_def)
  qed
qed

theorem find_after_filter_and_sort_witness:
  "files_find (files_sort (files_filter [''/m*''] [new_file ''/mtab'' 8, new_file ''/b'' 1, new_file ''/a'' 2])) ''/b''
     \<noteq> None"
proof -
  let ?es = "[new_file ''/mtab'' 8, new_file ''/b'' 1, new_file ''/a'' 2]"
  have m: "\<not> list_ex (\<lambda>p. fnmatch p ''/b'') [''/m*'']" by code_simp
  have d: "distinct (map f_name ?es)" by simp
  show ?thesis
  proof
    assume "files_find (files_sort (files_filter [''/m*''] ?es)) ''/b'' = None"
    then show False
      using find_after_filter_and_sort [OF d, where ps = "[''/m*'']" and name = "''/b''"] m
      by simp
  qed
qed

lemma count_action_counts:
  "numCreate (foldl count_action rs es) = numCreate rs + of_nat (length (filter (\<lambda>f. f_undo f \<and> getAction f = CREATE) es))
   \<and> numModify (foldl count_action rs es) = numModify rs + of_nat (length (filter (\<lambda>f. f_undo f \<and> getAction f = MODIFY) es))
   \<and> numDelete (foldl count_action rs es) = numDelete rs + of_nat (length (filter (\<lambda>f. f_undo f \<and> getAction f = DELETE) es))"
proof (induction es arbitrary: rs)
  case (Cons f es)
  then show ?case by (cases "getAction f") (auto simp: count_action_def)
qed simp

lemma steps_of_action:
  "length (filter (\<lambda>s. us_action s = a) (getUndoSteps es)) =
     length (filter (\<lambda>f. f_undo f \<and> getAction f = a) es)"
proof -
  have "length (filter (\<lambda>f. f_undo f \<and> getAction f = a) es) =
      length (filter (\<lambda>f. pre_to_post_status f = CREATED) (filter (\<lambda>f. f_undo f \<and> getAction f = a) es))
    + length (filter (\<lambda>f. pre_to_post_status f \<noteq> CREATED) (filter (\<lambda>f. f_undo f \<and> getAction f = a) es))"
    by (rule sum_length_filter_compl [symmetric])
  then show ?thesis
    by (simp add: getUndoSteps_def filter_map comp_def step_of_def rev_filter [symmetric] conj_ac)
qed

text \<open>The statistic that the user is shown before an undo counts the steps that are then made,
  by their action (as \<open>unsigned int\<close>).\<close>

theorem undo_statistic_counts_steps:
  "numCreate (getUndoStatistic es) = of_nat (length (filter (\<lambda>s. us_action s = CREATE) (getUndoSteps es)))
   \<and> numModify (getUndoStatistic es) = of_nat (length (filter (\<lambda>s. us_action s = MODIFY) (getUndoSteps es)))
   \<and> numDelete (getUndoStatistic es) = of_nat (length (filter (\<lambda>s. us_action s = DELETE) (getUndoSteps es)))"
  using count_action_counts [of "\<lparr>numCreate = 0, numModify = 0, numDelete = 0\<rparr>" es]
  by (simp add: getUndoStatistic_def steps_of_action)

subsection \<open>What undo does not restore\<close>

text \<open>A regular file that undo creates from the snapshot has its owner, group and content, but
  \<open>fchown\<close> runs after \<open>fchmod\<close>: its mode is the one that \<open>chown\<close> leaves, so a set-user-id bit
  of the snapshot's file is lost although the operation reports success.\<close>

theorem create_file_loses_setuid:
  assumes "reached fs c" "map_of fs c = None" "reached fs p" "map_of fs p = Some n" "p \<noteq> c"
    and "is_reg n" "i_mode n AND 0xFFFF = i_mode n" "env_ok env"
  shows "\<exists>fs'. createFile env (path_str p) (path_str c) (i_mode n) (i_uid n) (i_gid n) fs = (True, fs')
     \<and> map_of fs' = (map_of fs)(c \<mapsto> n\<lparr>i_mode := chown_mode (i_mode n)\<rparr>)
     \<and> \<not> has (chown_mode (i_mode n)) S_ISUID"
proof -
  have nl: "\<not> is_lnk n" using assms(6) kinds_disjoint(3) by simp
  let ?n1 = "\<lparr>i_mode = S_IFREG OR (i_mode n AND NOT (e_umask env) AND PERMS), i_uid = 0,
     i_gid = new_gid fs c, i_data = []\<rparr>"
  let ?fs1 = "sm_put c ?n1 fs"
  let ?fs3 = "set_owner c (i_uid n) (i_gid n) (set_mode c (i_mode n) ?fs1)"
  have m3: "map_of ?fs3 = (map_of fs)(c \<mapsto> n\<lparr>i_mode := chown_mode (i_mode n), i_data := []\<rparr>)"
    using restored_mode(2) [of "i_mode n" "i_mode n"] assms
    by (auto simp: map_of_set_owner map_of_set_mode)
  have "fd_data ?fs3 p = i_data n"
    using assms by (simp add: fd_data_def m3)
  then have "createFile env (path_str p) (path_str c) (i_mode n) (i_uid n) (i_gid n) fs
      = (True, set_data c (i_data n) ?fs3)"
    using assms(8) by (auto simp: createFile_def reached_open_read [OF assms(3,4) nl]
        reached_open_trunc [OF assms(1,2)] env_ok_def Let_def)
  moreover have "chown_mode (i_mode n) AND S_ISUID = 0"
    using kinds_disjoint(4) [OF assms(6)]
    by (intro bit_eqI) (auto simp: chown_mode_def bit_and_iff bit_not_iff)
  ultimately show ?thesis
    by (auto simp: map_of_set_data m3)
qed

lemma reached_code [code]:
  "reached fs c \<longleftrightarrow> sm_wf fs \<and> c \<noteq> [] \<and> list_all valid_name c \<and>
     list_all (\<lambda>k. case map_of fs (take k c) of None \<Rightarrow> False | Some n \<Rightarrow> is_dir n) [1..<length c]"
proof -
  have "(\<exists>n. x = Some n \<and> is_dir n) \<longleftrightarrow> (case x of None \<Rightarrow> False | Some n \<Rightarrow> is_dir n)" for x
    by (cases x) auto
  moreover have "(\<forall>k. 0 < k \<and> k < length c \<longrightarrow> P k) \<longleftrightarrow> list_all P [1..<length c]" for P
    by (auto simp: list_all_iff Suc_le_eq)
  ultimately show ?thesis by (simp add: reached_def dirs_to_def)
qed

theorem create_file_loses_setuid_witness:
  "\<exists>fs'. createFile sample_env ''/h/.snapshots/1/su'' ''/h/su'' 0x89ED 0 0
      [([''h''], dir_inode 0x1ED), ([''h'', ''.snapshots''], dir_inode 0x1ED),
       ([''h'', ''.snapshots'', ''1''], dir_inode 0x1ED),
       ([''h'', ''.snapshots'', ''1'', ''su''], reg_inode 0x9ED ''su'')] = (True, fs')
     \<and> map_of fs' [''h'', ''su''] = Some (reg_inode 0x1ED ''su'')"
proof -
  let ?fs = "[([''h''], dir_inode 0x1ED), ([''h'', ''.snapshots''], dir_inode 0x1ED),
       ([''h'', ''.snapshots'', ''1''], dir_inode 0x1ED),
       ([''h'', ''.snapshots'', ''1'', ''su''], reg_inode 0x9ED ''su'')]"
  have r: "reached ?fs [''h'', ''su'']" "reached ?fs [''h'', ''.snapshots'', ''1'', ''su'']"
    by code_simp+
  have e: "env_ok sample_env" by (simp add: env_ok_def sample_env_def)
  have m: "map_of ?fs [''h'', ''su''] = None"
    "map_of ?fs [''h'', ''.snapshots'', ''1'', ''su''] = Some (reg_inode 0x9ED ''su'')" by simp_all
  have k: "S_ISREG (i_mode (reg_inode 0x9ED ''su''))"
    "i_mode (reg_inode 0x9ED ''su'') AND 0xFFFF = i_mode (reg_inode 0x9ED ''su'')"
    "chown_mode (i_mode (reg_inode 0x9ED ''su'')) = S_IFREG OR 0x1ED" by code_simp+
  have v: "i_mode (reg_inode 0x9ED ''su'') = 0x89ED"
    by (simp add: reg_inode_def mode_defs)
  show ?thesis
    using create_file_loses_setuid [OF r(1) m(1) r(2) m(2) _ k(1,2) e] k(3) v
    by (auto simp: reg_inode_def)
qed

text \<open>For the subvolume \<open>/\<close> the parent of a top level path is the empty string, which no system
  call accepts: \<open>createParentDirectories\<close> fails, and undoing the deletion of a top level file fails
  without changing anything.\<close>

theorem root_subvolume_top_level_undo_fails:
  assumes "system_path fp = ''/''" "f_name f = CHR ''/'' # x" "CHR ''/'' \<notin> set x"
    and "pre_to_post_status f = DELETED"
  shows "\<exists>f'. doUndo env fp f fs = (False, f', fs)"
proof -
  have "resolve fs fl [] = Inl ENOENT" for fl by (simp add: resolve_def)
  then have st: "sys_stat fs [] = Inl ENOENT" "sys_mkdir fs u [] m = Inl ENOENT" for u m
    by (simp_all add: sys_stat_def namei_def sys_mkdir_def)
  have p: "createParentDirectories env (CHR ''/'' # x) fs = (False, fs)"
    using assms(3) rfind_append [of "CHR ''/''" x "[]"]
    by (subst createParentDirectories.simps)
      (simp add: st createParentDirectories.simps [of env "[]"] call_def)
  have "createAllTypes env fp f fs = (False, fs)"
    using assms p
    by (simp add: createAllTypes_def Let_def getAbsolutePath_def seq_def split: sum.split)
  then show ?thesis using assms by (simp add: doUndo_def Let_def)
qed

theorem root_subvolume_top_level_undo_fails_witness:
  "\<exists>f'. doUndo sample_env \<lparr>system_path = ''/'', pre_path = ''/.snapshots/1/snapshot'', post_path = ''/''\<rparr>
      (new_file ''/motd'' DELETED) sample_fs = (False, f', sample_fs)"
  using root_subvolume_top_level_undo_fails [of
      "\<lparr>system_path = ''/'', pre_path = ''/.snapshots/1/snapshot'', post_path = ''/''\<rparr>"
      "new_file ''/motd'' DELETED" "''motd''" sample_env sample_fs]
  by simp

text \<open>The status against the system can never be computed: the names of files start with a
  slash, so the first directory that \<open>deepopen\<close> opens has the empty name.\<close>

theorem system_status_throws:
  assumes "f_name f = CHR ''/'' # x" "pre_to_system_status f = - 1" "post_to_system_status f = - 1"
  shows "getStatus fs cmpf fp CMP_PRE_TO_SYSTEM f = Inl IOErrorException
     \<and> getStatus fs cmpf fp CMP_POST_TO_SYSTEM f = Inl IOErrorException"
proof -
  have "rfind CHR ''/'' (CHR ''/'' # x) \<noteq> None" by (subst rfind_None) simp
  then obtain i where "rfind CHR ''/'' (CHR ''/'' # x) = Some i" by (metis option.exhaust)
  then have "dirname (CHR ''/'' # x) = CHR ''/'' # take ((if i = 0 then 1 else i) - 1) x"
    by (cases i) (simp_all add: dirname_def)
  then obtain y where y: "dirname (f_name f) = CHR ''/'' # y" using assms(1) by auto
  have "deepopen fs d (CHR ''/'' # y) = Inl IOErrorException" for d
    by (subst deepopen.simps) (simp add: find_slash_def sdir_openat_def)
  then have "system_status fs cmpf p q (f_name f) = Inl IOErrorException" for p q
    by (auto simp: system_status_def y bindR_def sdir_open_def split: sum.split option.split)
  then show ?thesis
    using assms(2,3) by (simp_all add: getStatus_def getPreToSystemStatus_def getPostToSystemStatus_def)
qed

theorem system_status_throws_witness:
  "getStatus sample_fs (\<lambda>a b. Inr 0) sample_paths CMP_PRE_TO_SYSTEM (new_file ''/d/f'' DELETED)
     = Inl IOErrorException"
  using system_status_throws [of "new_file ''/d/f'' DELETED" "''d/f''" sample_fs "\<lambda>a b. Inr 0" sample_paths]
  by simp

definition link_fs :: fs where
  "link_fs = fold (\<lambda>(c, n). sm_put c n)
     [([''h''], dir_inode 0x1ED),
      ([''h'', ''.snapshots''], dir_inode 0x1ED),
      ([''h'', ''.snapshots'', ''1''], dir_inode 0x1ED),
      ([''h'', ''.snapshots'', ''1'', ''l''], lnk_inode ''s''),
      ([''h'', ''.snapshots'', ''1'', ''s''], reg_inode 0x180 ''secret''),
      ([''h'', ''l''], reg_inode 0x1A4 []),
      ([''h'', ''s''], reg_inode 0x180 ''secret'')] []"

text \<open>A link of the snapshot that had become a regular file with other permissions: undo puts the
  link back and then calls \<open>chmod\<close> on it, which changes the mode of the file it points to.  Here the
  link \<open>l\<close> points to a file \<open>s\<close> that only its owner may read; afterwards everybody may write it.\<close>

theorem undo_of_link_changes_target_mode:
  "map_of (snd (snd (run_steps sample_env sample_paths
       (getUndoSteps (expected_files link_fs [''h'', ''.snapshots'', ''1''] [''h'']))
       (expected_files link_fs [''h'', ''.snapshots'', ''1''] [''h''], link_fs)))) [''h'', ''s'']
     = Some (reg_inode 0x1FF ''secret'')
   \<and> map f_name (expected_files link_fs [''h'', ''.snapshots'', ''1''] [''h'']) = [''/l'']"
  by code_simp

end
