(* ===== verification/Compare.thy ===== *)
theory Compare
  imports Posix Status
begin

text \<open>
  The comparison of two directory trees (\<open>snapper/Compare.cc\<close>).  A tree is a datatype of nodes
  with their \<open>stat\<close>, the bytes of a file or the target of a link, whether they can be opened, and
  the entries in the order in which \<open>readdir\<close> gives them.  \<open>cmpDirs\<close> returns the calls of the
  callback in their order, or the exception that ends it.
\<close>

subsection \<open>Nodes\<close>

record stat =
  st_mode :: u32
  st_uid :: u32
  st_gid :: u32
  st_size :: nat
  st_dev :: nat
  st_ino :: nat
  st_mtim :: "int \<times> nat"

datatype fnode = FNode (n_stat: stat) (n_data: string) (n_io: bool) (n_kids: "(string \<times> fnode) list")

abbreviation n_isdir :: "fnode \<Rightarrow> bool" where
  "n_isdir n \<equiv> S_ISDIR (st_mode (n_stat n))"

subsection \<open>Comparing two files\<close>

text \<open>The block loop: \<open>read\<close> returns fewer bytes than asked for at the end of the file.\<close>

definition block_size :: nat where
  "block_size = 4096"

function cmp_blocks :: "nat \<Rightarrow> string \<Rightarrow> string \<Rightarrow> bool" where
  "cmp_blocks len d1 d2 =
     (if len = 0 then True
      else let t = min block_size len in
        if length (take t d1) \<noteq> t then False
        else if length (take t d2) \<noteq> t then False
        else if take t d1 \<noteq> take t d2 then False
        else cmp_blocks (len - t) (drop t d1) (drop t d2))"
  by auto
termination by (relation "measure (\<lambda>(len, d1, d2). len)") (auto simp: block_size_def)

declare cmp_blocks.simps [simp del]

definition cmpFilesContentReg :: "fnode \<Rightarrow> fnode \<Rightarrow> bool" where
  "cmpFilesContentReg n1 n2 =
     (let stat1 = n_stat n1; stat2 = n_stat n2 in
      if st_mtim stat1 = st_mtim stat2 then True
      else if st_size stat1 \<noteq> st_size stat2 then False
      else if st_size stat1 = 0 \<and> st_size stat2 = 0 then True
      else if st_dev stat1 = st_dev stat2 \<and> st_ino stat1 = st_ino stat2 then True
      else if \<not> n_io n1 then False
      else if \<not> n_io n2 then False
      else cmp_blocks (st_size stat1) (n_data n1) (n_data n2))"

text \<open>\<open>SFile::readlink\<close>: the return value and the buffer, which stays empty on failure.  The code
  converts the return value to \<open>bool\<close>, so that \<open>-1\<close> counts as success and \<open>0\<close> as failure.\<close>

definition sfile_readlink :: "fnode \<Rightarrow> int \<times> string" where
  "sfile_readlink n = (if n_io n then (int (length (take 1024 (n_data n))), take 1024 (n_data n))
     else (- 1, []))"

definition cmpFilesContentLnk :: "fnode \<Rightarrow> fnode \<Rightarrow> bool" where
  "cmpFilesContentLnk n1 n2 =
     (if st_mtim (n_stat n1) = st_mtim (n_stat n2) then True
      else let (r1, tmp1) = sfile_readlink n1 in
        if \<not> r1 \<noteq> 0 then False
        else let (r2, tmp2) = sfile_readlink n2 in
          if \<not> r2 \<noteq> 0 then False
          else tmp1 = tmp2)"

definition cmpFilesContent :: "fnode \<Rightarrow> fnode \<Rightarrow> bool res" where
  "cmpFilesContent n1 n2 =
     (let m1 = st_mode (n_stat n1); m2 = st_mode (n_stat n2) in
      if m1 AND S_IFMT \<noteq> m2 AND S_IFMT then Inl LogicErrorException
      else if S_ISREG m1 then Inr (cmpFilesContentReg n1 n2)
      else if S_ISLNK m1 then Inr (cmpFilesContentLnk n1 n2)
      else Inr True)"

definition cmpFiles :: "fnode \<Rightarrow> fnode \<Rightarrow> u32 res" where
  "cmpFiles n1 n2 =
     (let s1 = n_stat n1; s2 = n_stat n2 in
      bindR (if st_mode s1 AND S_IFMT \<noteq> st_mode s2 AND S_IFMT then Inr TYPE'
             else bindR (cmpFilesContent n1 n2) (\<lambda>eq. Inr (if \<not> eq then CONTENT else 0)))
      (\<lambda>status.
        let status = (if (st_mode s1 XOR st_mode s2) AND PERMS \<noteq> 0 then status OR PERMISSIONS else status);
            status = (if st_uid s1 \<noteq> st_uid s2 then status OR USER else status);
            status = (if st_gid s1 \<noteq> st_gid s2 then status OR GROUP else status)
        in Inr status))"

text \<open>\<open>cmpFiles\<close> on two names, either of which may not exist.\<close>

fun cmpFilesOpt :: "fnode option \<Rightarrow> fnode option \<Rightarrow> u32 res" where
  "cmpFilesOpt None (Some n2) = Inr CREATED"
| "cmpFilesOpt (Some n1) None = Inr DELETED"
| "cmpFilesOpt None None = Inl IOErrorException"
| "cmpFilesOpt (Some n1) (Some n2) = cmpFiles n1 n2"

subsection \<open>Comparing two directories\<close>

type_synonym report = "(string \<times> u32) list"

definition filter_name :: "string \<Rightarrow> bool" where
  "filter_name name \<longleftrightarrow> name = ''/.snapshots''"

definition subpath :: "string \<Rightarrow> string \<Rightarrow> string" where
  "subpath path name = path @ ''/'' @ name"

lemma fnode_kid_size:
  assumes "(name, k) \<in> set kids"
  shows "size k < Suc (size_list (size_prod (\<lambda>x. 0) size) kids)"
  using size_list_estimation' [OF assms, of "size k" "size_prod (\<lambda>x. 0) size"] by simp

function listSubdirs :: "fnode \<Rightarrow> string \<Rightarrow> u32 \<Rightarrow> report res" where
  "listSubdirs (FNode st d io kids) path status =
     bindR (mapR (\<lambda>(name, k).
         if n_isdir k then
           (if n_io k then bindR (listSubdirs k (subpath path name) status)
                              (\<lambda>l. Inr ((subpath path name, status) # l))
            else Inl IOErrorException)
         else Inr [(subpath path name, status)]) kids)
       (\<lambda>ls. Inr (concat ls))"
  by pat_completeness auto
termination
  by (relation "measure (\<lambda>(n, path, status). size n)") (auto dest: fnode_kid_size)

definition lonesome :: "fnode \<Rightarrow> string \<Rightarrow> string \<Rightarrow> u32 \<Rightarrow> report res" where
  "lonesome n path name status =
     (if n_isdir n then
        (if n_io n then bindR (listSubdirs n (subpath path name) status)
                           (\<lambda>l. Inr ((subpath path name, status) # l))
         else Inl IOErrorException)
      else Inr [(subpath path name, status)])"

text \<open>The merge loop of \<open>cmpDirsWorker\<close> over the two sorted lists of names.\<close>

function merge_loop :: "(string \<Rightarrow> bool) \<Rightarrow> (string \<Rightarrow> 'r list res) \<Rightarrow> (string \<Rightarrow> 'r list res) \<Rightarrow>
    (string \<Rightarrow> 'r list res) \<Rightarrow> string list \<Rightarrow> string list \<Rightarrow> 'r list res" where
  "merge_loop flt only1 only2 both l1 l2 =
     (if l1 = [] \<and> l2 = [] then Inr []
      else if l1 \<noteq> [] \<and> flt (hd l1) then merge_loop flt only1 only2 both (tl l1) l2
      else if l2 \<noteq> [] \<and> flt (hd l2) then merge_loop flt only1 only2 both l1 (tl l2)
      else if l1 = [] then
        bindR (only2 (hd l2)) (\<lambda>r. bindR (merge_loop flt only1 only2 both l1 (tl l2)) (\<lambda>rs. Inr (r @ rs)))
      else if l2 = [] then
        bindR (only1 (hd l1)) (\<lambda>r. bindR (merge_loop flt only1 only2 both (tl l1) l2) (\<lambda>rs. Inr (r @ rs)))
      else if hd l2 < hd l1 then
        bindR (only2 (hd l2)) (\<lambda>r. bindR (merge_loop flt only1 only2 both l1 (tl l2)) (\<lambda>rs. Inr (r @ rs)))
      else if hd l1 < hd l2 then
        bindR (only1 (hd l1)) (\<lambda>r. bindR (merge_loop flt only1 only2 both (tl l1) l2) (\<lambda>rs. Inr (r @ rs)))
      else if hd l1 \<noteq> hd l2 then Inl LogicErrorException
      else
        bindR (both (hd l1)) (\<lambda>r. bindR (merge_loop flt only1 only2 both (tl l1) (tl l2)) (\<lambda>rs. Inr (r @ rs))))"
  by pat_completeness auto
termination
proof (relation "measure (\<lambda>(f, a, b, c, l1, l2). length l1 + length l2)", goal_cases)
  case 1
  then show ?case by simp
qed (auto simp: neq_Nil_conv)

declare merge_loop.simps [simp del]

lemma merge_loop_cong [fundef_cong]:
  assumes "flt = flt'" "only1 = only1'" "only2 = only2'" "l1 = l1'" "l2 = l2'"
    and "\<And>n. n \<in> set l1' \<Longrightarrow> n \<in> set l2' \<Longrightarrow> both n = both' n"
  shows "merge_loop flt only1 only2 both l1 l2 = merge_loop flt' only1' only2' both' l1' l2'"
proof -
  have "\<forall>n. n \<in> set l1 \<longrightarrow> n \<in> set l2 \<longrightarrow> both n = both' n \<Longrightarrow>
      merge_loop flt only1 only2 both l1 l2 = merge_loop flt only1 only2 both' l1 l2"
  proof (induction flt only1 only2 both l1 l2 rule: merge_loop.induct)
    case (1 flt only1 only2 both l1 l2)
    have tl: "set (tl l) \<subseteq> set l" for l :: "string list" by (cases l) auto
    have m: "\<forall>n. n \<in> set (tl l1) \<longrightarrow> n \<in> set l2 \<longrightarrow> both n = both' n"
      "\<forall>n. n \<in> set l1 \<longrightarrow> n \<in> set (tl l2) \<longrightarrow> both n = both' n"
      "\<forall>n. n \<in> set (tl l1) \<longrightarrow> n \<in> set (tl l2) \<longrightarrow> both n = both' n"
      using 1(8) tl by blast+
    have h: "l1 \<noteq> [] \<Longrightarrow> l2 \<noteq> [] \<Longrightarrow> hd l1 = hd l2 \<Longrightarrow> both (hd l1) = both' (hd l1)"
      using 1(8) by (metis hd_in_set)
    show ?case
      using 1(1-7) m h
      by (subst (1 2) merge_loop.simps) (auto intro!: bindR_cong)
  qed
  then show ?thesis using assms by simp
qed

text \<open>\<open>twosome\<close>: \<open>worker\<close> is the comparison of two subdirectories.\<close>

definition open_listSubdirs :: "fnode \<Rightarrow> string \<Rightarrow> u32 \<Rightarrow> report res" where
  "open_listSubdirs n path status = (if n_io n then listSubdirs n path status else Inl IOErrorException)"

definition twosome :: "nat \<Rightarrow> nat \<Rightarrow> (fnode \<Rightarrow> fnode \<Rightarrow> string \<Rightarrow> report res) \<Rightarrow> fnode \<Rightarrow> fnode \<Rightarrow>
    string \<Rightarrow> string \<Rightarrow> report res" where
  "twosome dev1 dev2 worker n1 n2 path name =
     (let in1 = (st_dev (n_stat n1) = dev1); in2 = (st_dev (n_stat n2) = dev2); p = subpath path name in
      bindR (if in1 \<and> in2 then cmpFiles n1 n2 else Inr 0) (\<lambda>status.
      bindR (if \<not> has status TYPE' then
               (if n_isdir n1 \<and> in1 \<and> in2 then
                  (if n_io n1 \<and> n_io n2 \<and> n_isdir n2 then worker n1 n2 p else Inl IOErrorException)
                else Inr [])
             else
               bindR (if n_isdir n1 \<and> in1 then open_listSubdirs n1 p DELETED else Inr []) (\<lambda>a.
               bindR (if n_isdir n2 \<and> in2 then open_listSubdirs n2 p CREATED else Inr []) (\<lambda>b.
               Inr (a @ b))))
      (\<lambda>rest. Inr ((if status \<noteq> 0 then [(p, status)] else []) @ rest))))"

lemma twosome_cong [fundef_cong]:
  assumes "dev1 = dev1'" "dev2 = dev2'" "n1 = n1'" "n2 = n2'" "path = path'" "name = name'"
    and "worker n1' n2' (subpath path' name') = worker' n1' n2' (subpath path' name')"
  shows "twosome dev1 dev2 worker n1 n2 path name = twosome dev1' dev2' worker' n1' n2' path' name'"
  by (simp only: assms twosome_def Let_def)

text \<open>The worker.  The code does not check the results of \<open>stat\<close> on the names that it just read;
  a name that is not there does not occur (\<open>LogicErrorException\<close> marks the branch).\<close>

definition stat_kid :: "fnode \<Rightarrow> string \<Rightarrow> (fnode \<Rightarrow> report res) \<Rightarrow> report res" where
  "stat_kid dir name k = (case map_of (n_kids dir) name of None \<Rightarrow> Inl LogicErrorException | Some n \<Rightarrow> k n)"

lemma stat_kid_cong [fundef_cong]:
  assumes "dir = dir'" "name = name'" "\<And>n. (name', n) \<in> set (n_kids dir') \<Longrightarrow> k n = k' n"
  shows "stat_kid dir name k = stat_kid dir' name' k'"
  using assms by (auto simp: stat_kid_def split: option.split dest: map_of_SomeD)

definition lonesome_on :: "nat \<Rightarrow> u32 \<Rightarrow> fnode \<Rightarrow> string \<Rightarrow> string \<Rightarrow> report res" where
  "lonesome_on dev status dir path name =
     stat_kid dir name (\<lambda>n. if st_dev (n_stat n) = dev then lonesome n path name status else Inr [])"

function cmpDirsWorker :: "nat \<Rightarrow> nat \<Rightarrow> fnode \<Rightarrow> fnode \<Rightarrow> string \<Rightarrow> report res" where
  "cmpDirsWorker dev1 dev2 dir1 dir2 path =
     merge_loop (\<lambda>name. filter_name (subpath path name))
       (lonesome_on dev1 DELETED dir1 path)
       (lonesome_on dev2 CREATED dir2 path)
       (\<lambda>name. stat_kid dir1 name (\<lambda>n1. stat_kid dir2 name (\<lambda>n2.
          twosome dev1 dev2 (cmpDirsWorker dev1 dev2) n1 n2 path name)))
       (sort (map fst (n_kids dir1))) (sort (map fst (n_kids dir2)))"
  by pat_completeness auto
termination
proof (relation "measure (\<lambda>(dev1, dev2, dir1, dir2, path). size dir1)", goal_cases)
  case (2 dev1 dev2 dir1 dir2 path name n1 n2)
  then show ?case by (cases dir1) (auto dest: fnode_kid_size)
qed simp

declare cmpDirsWorker.simps [simp del]

definition cmpDirs :: "fnode \<Rightarrow> fnode \<Rightarrow> report res" where
  "cmpDirs dir1 dir2 = cmpDirsWorker (st_dev (n_stat dir1)) (st_dev (n_stat dir2)) dir1 dir2 []"

end
