(* ===== verification/CompareSpec.thy ===== *)
theory CompareSpec
  imports Compare
begin

text \<open>
  What a comparison reports.  \<open>node_status\<close> is the status of one path in two trees.  For two trees
  on one device each, whose nodes can be opened, \<open>cmpDirs\<close> reports every path below the root with a
  status other than 0 except \<open>/.snapshots\<close> and what lies below it, each once and with its status.
  Further lemmas: the block loop decides equality of contents, and the report in the other
  direction has the inverted statuses.
\<close>

subsection \<open>Contents\<close>

lemma cmp_blocks_correct:
  assumes "length d1 = len" "length d2 = len"
  shows "cmp_blocks len d1 d2 \<longleftrightarrow> d1 = d2"
  using assms
proof (induction len d1 d2 rule: cmp_blocks.induct)
  case (1 len d1 d2)
  define t where "t = min block_size len"
  have t: "t \<le> len" "len \<noteq> 0 \<longrightarrow> 0 < t" by (auto simp: t_def block_size_def)
  show ?case
  proof (cases "len = 0")
    case True
    then show ?thesis using 1 by (subst cmp_blocks.simps) simp
  next
    case False
    have "d1 = d2 \<longleftrightarrow> take t d1 = take t d2 \<and> drop t d1 = drop t d2"
      by (metis append_take_drop_id)
    moreover have "cmp_blocks (len - t) (drop t d1) (drop t d2) \<longleftrightarrow> drop t d1 = drop t d2"
      if "take t d1 = take t d2"
      using 1 False t that by (intro 1(1) [OF False t_def]) auto
    ultimately show ?thesis
      using False 1(2,3) t by (subst cmp_blocks.simps) (auto simp: t_def [symmetric] Let_def)
  qed
qed

definition content_equal :: "fnode \<Rightarrow> fnode \<Rightarrow> bool" where
  "content_equal n1 n2 = (if S_ISREG (st_mode (n_stat n1)) then cmpFilesContentReg n1 n2
     else if S_ISLNK (st_mode (n_stat n1)) then cmpFilesContentLnk n1 n2 else True)"

definition cmp_status :: "fnode \<Rightarrow> fnode \<Rightarrow> u32" where
  "cmp_status n1 n2 =
     (let s1 = n_stat n1; s2 = n_stat n2 in
      (if st_mode s1 AND S_IFMT \<noteq> st_mode s2 AND S_IFMT then TYPE'
       else flag (\<not> content_equal n1 n2) CONTENT)
      OR flag ((st_mode s1 XOR st_mode s2) AND PERMS \<noteq> 0) PERMISSIONS
      OR flag (st_uid s1 \<noteq> st_uid s2) USER OR flag (st_gid s1 \<noteq> st_gid s2) GROUP)"

lemma cmpFiles_status [simp]: "cmpFiles n1 n2 = Inr (cmp_status n1 n2)"
  by (auto simp: cmpFiles_def cmp_status_def cmpFilesContent_def content_equal_def Let_def flag_def or.assoc)

lemma cmp_status_bits:
  "bit (cmp_status n1 n2) n \<longleftrightarrow>
     (let s1 = n_stat n1; s2 = n_stat n2; k = (st_mode s1 AND S_IFMT = st_mode s2 AND S_IFMT) in
     (n = 2 \<and> \<not> k) \<or> (n = 3 \<and> k \<and> \<not> content_equal n1 n2)
   \<or> (n = 4 \<and> (st_mode s1 XOR st_mode s2) AND PERMS \<noteq> 0)
   \<or> (n = 5 \<and> st_uid s1 \<noteq> st_uid s2) \<or> (n = 6 \<and> st_gid s1 \<noteq> st_gid s2))"
proof -
  have t: "bit TYPE' n \<longleftrightarrow> n = 2" using flag_bits(3) [of True n] by (simp add: flag_def)
  show ?thesis
    unfolding cmp_status_def by (auto simp: bit_or_iff flag_bits t Let_def)
qed

lemma cmp_status_type:
  "cmp_status n1 n2 AND TYPE' = 0 \<longleftrightarrow>
     st_mode (n_stat n1) AND S_IFMT = st_mode (n_stat n2) AND S_IFMT"
  using has_bits(3) [of "cmp_status n1 n2"] by (simp add: cmp_status_bits Let_def)

lemma cmp_status_valid: "valid_status (cmp_status n1 n2)"
proof -

  have "cmp_status n1 n2 AND (TYPE' OR CONTENT OR PERMISSIONS OR USER OR GROUP) = cmp_status n1 n2"
  proof (rule bit_eqI)
    fix n
    have f: "bit TYPE' n \<longleftrightarrow> n = 2" "bit CONTENT n \<longleftrightarrow> n = 3" "bit PERMISSIONS n \<longleftrightarrow> n = 4"
      "bit USER n \<longleftrightarrow> n = 5" "bit GROUP n \<longleftrightarrow> n = 6"
      using flag_bits(3-7) [of True n] by (simp_all add: flag_def)
    show "bit (cmp_status n1 n2 AND (TYPE' OR CONTENT OR PERMISSIONS OR USER OR GROUP)) n
        = bit (cmp_status n1 n2) n"
      by (auto simp: bit_and_iff bit_or_iff f cmp_status_bits Let_def)
  qed
  moreover have "\<not> (has (cmp_status n1 n2) TYPE' \<and> has (cmp_status n1 n2) CONTENT)"
    by (auto simp: has_bits cmp_status_bits Let_def)
  ultimately show ?thesis by (simp add: valid_status_def)
qed

subsection \<open>Trees\<close>

fun node_at :: "fnode \<Rightarrow> string list \<Rightarrow> fnode option" where
  "node_at n [] = Some n"
| "node_at n (x # xs) = (case map_of (n_kids n) x of None \<Rightarrow> None | Some k \<Rightarrow> node_at k xs)"

fun node_status :: "fnode option \<Rightarrow> fnode option \<Rightarrow> u32" where
  "node_status None None = 0"
| "node_status None (Some n2) = CREATED"
| "node_status (Some n1) None = DELETED"
| "node_status (Some n1) (Some n2) = cmp_status n1 n2"

text \<open>A tree on the device \<open>dev\<close> whose nodes can be opened.\<close>

function tree_ok :: "nat \<Rightarrow> fnode \<Rightarrow> bool" where
  "tree_ok dev (FNode st d io kids) \<longleftrightarrow> io \<and> st_dev st = dev \<and> distinct (map fst kids)
     \<and> list_all (\<lambda>(x, k). valid_name x \<and> tree_ok dev k) kids \<and> (kids \<noteq> [] \<longrightarrow> S_ISDIR (st_mode st))"
  by pat_completeness auto
termination
  by (relation "measure (\<lambda>(dev, n). size n)") (auto dest: fnode_kid_size)

text \<open>All paths below a node, in the order of \<open>listSubdirs\<close>.\<close>

function names_of :: "fnode \<Rightarrow> string list list" where
  "names_of (FNode st d io kids) = concat (map (\<lambda>(x, k). [x] # map ((#) x) (names_of k)) kids)"
  by pat_completeness auto
termination
  by (relation "measure size") (auto dest: fnode_kid_size)

lemma tree_ok_parts:
  assumes "tree_ok dev n"
  shows "n_io n" "st_dev (n_stat n) = dev" "distinct (map fst (n_kids n))"
    "n_kids n \<noteq> [] \<Longrightarrow> n_isdir n"
    "map_of (n_kids n) x = Some k \<Longrightarrow> valid_name x \<and> tree_ok dev k"
    "(x, k) \<in> set (n_kids n) \<Longrightarrow> valid_name x \<and> tree_ok dev k"
  using assms by (cases n; auto simp: list_all_iff dest: map_of_SomeD)+

lemma names_of_non_dir: "tree_ok dev n \<Longrightarrow> \<not> n_isdir n \<Longrightarrow> names_of n = []"
  using tree_ok_parts(4) by (cases n) auto

lemma subpath_path_str: "subpath path x @ path_str ns = path @ path_str (x # ns)"
  by (simp add: subpath_def)

lemma mapR_Inr_eq: "(\<And>x. x \<in> set xs \<Longrightarrow> f x = Inr (g x)) \<Longrightarrow> mapR f xs = Inr (map g xs)"
  by (induction xs) auto

lemma kid_size: "(x, k) \<in> set (n_kids n) \<Longrightarrow> size k < size n"
  by (cases n) (auto dest: fnode_kid_size)

lemma listSubdirs_names:
  "tree_ok dev n \<Longrightarrow>
   listSubdirs n path s = Inr (map (\<lambda>ns. (path @ path_str ns, s)) (names_of n))"
proof (induction n arbitrary: path rule: measure_induct_rule [where f = size])
  case (less n)
  obtain st d io kids where n: "n = FNode st d io kids" by (cases n)
  let ?g = "\<lambda>(x, k). map (\<lambda>ns. (path @ path_str ns, s)) ([x] # map ((#) x) (names_of k))"
  let ?f = "\<lambda>(name, k).
         if n_isdir k then
           (if n_io k then bindR (listSubdirs k (subpath path name) s)
                              (\<lambda>l. Inr ((subpath path name, s) # l))
            else Inl IOErrorException)
         else Inr [(subpath path name, s)]"
  have "?f p = Inr (?g p)" if "p \<in> set kids" for p
  proof -
    obtain x k where p: "p = (x, k)" by (cases p)
    then have k: "(x, k) \<in> set (n_kids n)" using that n by simp
    then have ok: "tree_ok dev k" using tree_ok_parts(6) [OF less.prems] by auto
    have "listSubdirs k (subpath path x) s = Inr (map (\<lambda>ns. (subpath path x @ path_str ns, s)) (names_of k))"
      using less.IH [OF kid_size [OF k] ok] by simp
    then show ?thesis
      using tree_ok_parts(1) [OF ok] names_of_non_dir [OF ok] by (simp add: p subpath_def comp_def)
  qed
  then have "mapR ?f kids = Inr (map ?g kids)" by (rule mapR_Inr_eq)
  then show ?case
    by (simp add: n map_concat comp_def case_prod_unfold)
qed

lemma set_names_of:
  "tree_ok dev n \<Longrightarrow> distinct (names_of n) \<and> set (names_of n) = {ns. ns \<noteq> [] \<and> node_at n ns \<noteq> None}"
proof (induction n rule: measure_induct_rule [where f = size])
  case (less n)
  obtain st d io kids where n: "n = FNode st d io kids" by (cases n)
  have IH: "distinct (names_of k)" "set (names_of k) = {ns. ns \<noteq> [] \<and> node_at k ns \<noteq> None}"
    if "(x, k) \<in> set kids" for x k
    using less.IH [of k] kid_size [of x k n] tree_ok_parts(6) [OF less.prems, of x k] that n by auto
  have d: "distinct (map fst kids)" using tree_ok_parts(3) [OF less.prems] n by simp
  have nn: "[] \<notin> set (names_of k)" if "(x, k) \<in> set kids" for x k using IH(2) [OF that] by simp
  have "distinct (names_of n)"
    unfolding n names_of.simps
    using d IH(1) nn
  proof (induction kids)
    case (Cons p kids)
    obtain x k where p: "p = (x, k)" by (cases p)
    have "distinct ([x] # map ((#) x) (names_of k))"
      using Cons.prems(2,3) [of x k] p by (auto simp: distinct_map)
    moreover have "hd ns = y \<and> y \<in> fst ` set kids"
      if "ns \<in> set ([y] # map ((#) y) (names_of j))" "(y, j) \<in> set kids" for ns y j
      using that by force
    moreover have "x \<notin> fst ` set kids" using Cons.prems(1) p by simp
    ultimately show ?case using Cons p by (fastforce simp: distinct_append)
  qed simp
  moreover have "ns \<in> set (names_of n) \<longleftrightarrow> ns \<noteq> [] \<and> node_at n ns \<noteq> None" for ns
  proof (cases ns)
    case (Cons x xs)
    have "ns \<in> set (names_of n) \<longleftrightarrow> (\<exists>k. (x, k) \<in> set kids \<and> (xs = [] \<or> xs \<in> set (names_of k)))"
      by (force simp: n Cons)
    also have "\<dots> \<longleftrightarrow> (\<exists>k. map_of kids x = Some k \<and> node_at k xs \<noteq> None)"
      using IH(2) by (cases "xs = []") (auto simp: map_of_eq_Some_iff [OF d])
    also have "\<dots> \<longleftrightarrow> node_at n ns \<noteq> None"
      by (auto simp: n Cons split: option.splits)
    finally show ?thesis by (simp add: Cons)
  qed (auto simp: n)
  ultimately show ?case by blast
qed

subsection \<open>The merge loop\<close>

definition merged :: "(string \<Rightarrow> bool) \<Rightarrow> (string \<Rightarrow> 'r list) \<Rightarrow> 'r list res \<Rightarrow> string set \<Rightarrow> bool" where
  "merged flt G r S \<longleftrightarrow> (\<exists>R. r = Inr (concat (map G R)) \<and> sorted_wrt (<) R \<and> set R = {n \<in> S. \<not> flt n})"

lemma merged_cons:
  assumes "merged flt G r S" "f = Inr (G h)" "\<forall>n\<in>S. h < n" "\<not> flt h"
  shows "merged flt G (bindR f (\<lambda>a. bindR r (\<lambda>rs. Inr (a @ rs)))) (insert h S)"
proof -
  obtain R where "r = Inr (concat (map G R))" "sorted_wrt (<) R" "set R = {n \<in> S. \<not> flt n}"
    using assms(1) by (auto simp: merged_def)
  then show ?thesis
    using assms(2-4) unfolding merged_def by (intro exI [of _ "h # R"]) auto
qed

lemma merged_skip: "merged flt G r S \<Longrightarrow> flt h \<Longrightarrow> merged flt G r (insert h S)"
  using Collect_cong [of "\<lambda>n. n \<in> insert h S \<and> \<not> flt n" "\<lambda>n. n \<in> S \<and> \<not> flt n"]
  by (auto simp: merged_def)

lemma merge_loop_merged:
  assumes "sorted_wrt (<) l1" "sorted_wrt (<) l2"
    and "\<forall>n. \<not> flt n \<longrightarrow> n \<in> set l1 \<longrightarrow> n \<notin> set l2 \<longrightarrow> only1 n = Inr (G n)"
    and "\<forall>n. \<not> flt n \<longrightarrow> n \<in> set l2 \<longrightarrow> n \<notin> set l1 \<longrightarrow> only2 n = Inr (G n)"
    and "\<forall>n. \<not> flt n \<longrightarrow> n \<in> set l1 \<longrightarrow> n \<in> set l2 \<longrightarrow> both n = Inr (G n)"
  shows "merged flt G (merge_loop flt only1 only2 both l1 l2) (set l1 \<union> set l2)"
  using assms
proof (induction "length l1 + length l2" arbitrary: l1 l2 rule: less_induct)
  case less
  let ?ml = "merge_loop flt only1 only2 both"
  note o = less.prems(3-5)
  have ih: "merged flt G (?ml a c) (set a \<union> set c)"
    if "length a + length c < length l1 + length l2" "sorted_wrt (<) a" "sorted_wrt (<) c"
      "\<forall>n\<in>set a \<union> set c. \<not> flt n \<longrightarrow> (n \<in> set a \<longleftrightarrow> n \<in> set l1) \<and> (n \<in> set c \<longleftrightarrow> n \<in> set l2)" for a c
    using that o by (intro less.hyps) blast+
  have s: "sorted_wrt (<) l1" "sorted_wrt (<) l2" by fact+
  consider (nil) "l1 = []" "l2 = []" | (skip1) x t1 where "l1 = x # t1" "flt x"
    | (skip2) y t2 where "l2 = y # t2" "flt y" "l1 = [] \<or> \<not> flt (hd l1)"
    | (two) y t2 where "l2 = y # t2" "\<not> flt y" "l1 = [] \<or> (\<not> flt (hd l1) \<and> y < hd l1)"
    | (one) x t1 where "l1 = x # t1" "\<not> flt x" "l2 = [] \<or> (\<not> flt (hd l2) \<and> x < hd l2)"
    | (both) x t1 t2 where "l1 = x # t1" "l2 = x # t2" "\<not> flt x"
  proof (cases l1)
    case Nil
    then show thesis using nil skip2 two by (cases l2) auto
  next
    case c1: (Cons x t1)
    show thesis
    proof (cases l2)
      case Nil
      then show thesis using c1 skip1 one by (cases "flt x") auto
    next
      case c2: (Cons y t2)
      consider "flt x" | "\<not> flt x" "flt y" | "\<not> flt x" "\<not> flt y" "y < x"
        | "\<not> flt x" "\<not> flt y" "x < y" | "\<not> flt x" "\<not> flt y" "x = y" by fastforce
      then show thesis using c1 c2 by cases (auto intro: skip1 skip2 one two both)
    qed
  qed
  then show ?case
  proof cases
    case nil
    then show ?thesis by (subst merge_loop.simps) (auto simp: merged_def intro!: exI [of _ "[]"])
  next
    case skip1
    have "merged flt G (?ml t1 l2) (set t1 \<union> set l2)"
      using s skip1 by (intro ih) auto
    then have "merged flt G (?ml t1 l2) (insert x (set t1 \<union> set l2))"
      using skip1(2) by (rule merged_skip)
    then show ?thesis using skip1 by (subst merge_loop.simps) simp
  next
    case skip2
    have "merged flt G (?ml l1 t2) (set l1 \<union> set t2)"
      using s skip2 by (intro ih) auto
    then have "merged flt G (?ml l1 t2) (insert y (set l1 \<union> set t2))"
      using skip2(2) by (rule merged_skip)
    then show ?thesis using skip2 by (subst merge_loop.simps) auto
  next
    case two
    have below: "\<forall>n\<in>set l1 \<union> set t2. y < n"
      using s two by (cases l1) auto
    have "merged flt G (?ml l1 t2) (set l1 \<union> set t2)"
      using s two below by (intro ih) auto
    moreover have "only2 y = Inr (G y)" using o(2) two below by auto
    ultimately have "merged flt G (bindR (only2 y) (\<lambda>r. bindR (?ml l1 t2) (\<lambda>rs. Inr (r @ rs))))
        (insert y (set l1 \<union> set t2))"
      using below two(2) by (intro merged_cons)
    then show ?thesis using two by (subst merge_loop.simps) auto
  next
    case one
    have below: "\<forall>n\<in>set t1 \<union> set l2. x < n"
      using s one by (cases l2) auto
    have "merged flt G (?ml t1 l2) (set t1 \<union> set l2)"
      using s one below by (intro ih) auto
    moreover have "only1 x = Inr (G x)" using o(1) one below by auto
    ultimately have "merged flt G (bindR (only1 x) (\<lambda>r. bindR (?ml t1 l2) (\<lambda>rs. Inr (r @ rs))))
        (insert x (set t1 \<union> set l2))"
      using below one(2) by (intro merged_cons)
    then show ?thesis using one by (subst merge_loop.simps) auto
  next
    case both
    have below: "\<forall>n\<in>set t1 \<union> set t2. x < n"
      using s both by auto
    have "merged flt G (?ml t1 t2) (set t1 \<union> set t2)"
      using s both below by (intro ih) auto
    moreover have "both x = Inr (G x)" using o(3) both by auto
    ultimately have "merged flt G (bindR (both x) (\<lambda>r. bindR (?ml t1 t2) (\<lambda>rs. Inr (r @ rs))))
        (insert x (set t1 \<union> set t2))"
      using below both(3) by (intro merged_cons)
    then show ?thesis using both by (subst merge_loop.simps) auto
  qed
qed

subsection \<open>The worker\<close>

text \<open>\<open>reports r path f P\<close>: the report \<open>r\<close> has each path \<open>path @ path_str ns\<close> with \<open>P ns\<close> once, with
  the status \<open>f ns\<close>, and nothing else.\<close>

definition reports :: "report \<Rightarrow> string \<Rightarrow> (string list \<Rightarrow> u32) \<Rightarrow> (string list \<Rightarrow> bool) \<Rightarrow> bool" where
  "reports r path f P \<longleftrightarrow>
     (\<exists>L. r = map (\<lambda>ns. (path @ path_str ns, f ns)) L \<and> distinct L \<and> set L = Collect P)"

lemma reports_names:
  assumes "tree_ok dev n" "\<And>ns. ns \<noteq> [] \<Longrightarrow> node_at n ns \<noteq> None \<Longrightarrow> f (x # ns) = s"
  shows "reports (map (\<lambda>ns. (subpath path x @ path_str ns, s)) (names_of n)) path f
     (\<lambda>ns. \<exists>t. ns = x # t \<and> t \<noteq> [] \<and> node_at n t \<noteq> None)"
  unfolding reports_def
proof (intro exI conjI)
  note n = set_names_of [OF assms(1)]
  show "map (\<lambda>ns. (subpath path x @ path_str ns, s)) (names_of n)
      = map (\<lambda>ns. (path @ path_str ns, f ns)) (map ((#) x) (names_of n))"
    using n assms(2) by (auto simp: subpath_def)
  show "distinct (map ((#) x) (names_of n))" using n by (simp add: distinct_map)
  show "set (map ((#) x) (names_of n)) = {ns. \<exists>t. ns = x # t \<and> t \<noteq> [] \<and> node_at n t \<noteq> None}"
    using n by auto
qed

lemma reports_sub:
  assumes "reports r (subpath path x) g Q" "\<And>t. Q t \<Longrightarrow> f (x # t) = g t"
  shows "reports r path f (\<lambda>ns. \<exists>t. ns = x # t \<and> Q t)"
proof -
  obtain L where L: "r = map (\<lambda>ns. (subpath path x @ path_str ns, g ns)) L" "distinct L" "set L = Collect Q"
    using assms(1) by (auto simp: reports_def)
  then have "r = map (\<lambda>ns. (path @ path_str ns, f ns)) (map ((#) x) L)"
    using assms(2) by (auto simp: subpath_def)
  moreover have "distinct (map ((#) x) L)" using L(2) by (simp add: distinct_map)
  moreover have "set (map ((#) x) L) = {ns. \<exists>t. ns = x # t \<and> Q t}" using L(3) by auto
  ultimately show ?thesis unfolding reports_def by blast
qed

lemma reports_append:
  assumes "reports r path f P" "reports r' path f P'" "\<And>ns. P ns \<Longrightarrow> \<not> P' ns"
  shows "reports (r @ r') path f (\<lambda>ns. P ns \<or> P' ns)"
proof -
  obtain L L' where "r = map (\<lambda>ns. (path @ path_str ns, f ns)) L" "distinct L" "set L = Collect P"
    "r' = map (\<lambda>ns. (path @ path_str ns, f ns)) L'" "distinct L'" "set L' = Collect P'"
    using assms(1,2) by (auto simp: reports_def)
  then show ?thesis
    using assms(3) unfolding reports_def by (intro exI [of _ "L @ L'"]) auto
qed

lemma reports_none: "(\<And>ns. \<not> P ns) \<Longrightarrow> reports [] path f P"
  by (auto simp: reports_def)

lemma reports_here:
  "f [x] = s \<Longrightarrow> reports (if s \<noteq> 0 then [(subpath path x, s)] else []) path f (\<lambda>ns. ns = [x] \<and> s \<noteq> 0)"
  by (auto simp: reports_def subpath_def intro!: exI [of _ "if s \<noteq> 0 then [[x]] else []"])

lemma reports_cong: "reports r path f P \<Longrightarrow> (\<And>ns. P ns \<longleftrightarrow> P' ns) \<Longrightarrow> reports r path f P'"
  using ext [of P P'] by simp

lemma reports_concat:
  assumes "\<And>n. n \<in> set R \<Longrightarrow> reports (G n) path f (\<lambda>ns. P ns \<and> ns \<noteq> [] \<and> hd ns = n)" "distinct R"
  shows "reports (concat (map G R)) path f (\<lambda>ns. P ns \<and> ns \<noteq> [] \<and> hd ns \<in> set R)"
  using assms
proof (induction R)
  case Nil
  show ?case by (auto intro: reports_none)
next
  case (Cons n R)
  then have "reports (G n @ concat (map G R)) path f
      (\<lambda>ns. (P ns \<and> ns \<noteq> [] \<and> hd ns = n) \<or> (P ns \<and> ns \<noteq> [] \<and> hd ns \<in> set R))"
    by (intro reports_append) auto
  then have "reports (G n @ concat (map G R)) path f (\<lambda>ns. P ns \<and> ns \<noteq> [] \<and> hd ns \<in> set (n # R))"
    by (rule reports_cong) auto
  then show ?case by simp
qed

definition status_of :: "fnode \<Rightarrow> fnode \<Rightarrow> string list \<Rightarrow> u32" where
  "status_of n1 n2 ns = node_status (node_at n1 ns) (node_at n2 ns)"

lemma node_at_kid: "map_of (n_kids n) x = Some k \<Longrightarrow> node_at n (x # t) = node_at k t"
  by simp

lemma lonesome_reports:
  assumes "tree_ok dev k" "s \<noteq> 0" "\<And>t. node_at k t \<noteq> None \<Longrightarrow> f (x # t) = s"
  shows "\<exists>r. lonesome k path x s = Inr r \<and>
     reports r path f (\<lambda>ns. \<exists>t. ns = x # t \<and> node_at k t \<noteq> None)"
proof -
  let ?r = "(if s \<noteq> 0 then [(subpath path x, s)] else [])
     @ map (\<lambda>ns. (subpath path x @ path_str ns, s)) (names_of k)"
  have "reports ?r path f (\<lambda>ns. (ns = [x] \<and> s \<noteq> 0) \<or> (\<exists>t. ns = x # t \<and> t \<noteq> [] \<and> node_at k t \<noteq> None))"
    using assms(3) [of "[]"] assms(3)
    by (intro reports_append reports_names [OF assms(1)] reports_here) auto
  then have "reports ?r path f (\<lambda>ns. \<exists>t. ns = x # t \<and> node_at k t \<noteq> None)"
    by (rule reports_cong) (use assms(2) in fastforce)
  moreover have "lonesome k path x s = Inr ?r"
    using listSubdirs_names [OF assms(1)] tree_ok_parts(1) [OF assms(1)]
      names_of_non_dir [OF assms(1)] assms(2) by (simp add: lonesome_def)
  ultimately show ?thesis by blast
qed

lemma twosome_reports:
  assumes k1: "tree_ok dev1 k1" and k2: "tree_ok dev2 k2"
    and w: "n_isdir k1 \<Longrightarrow> n_isdir k2 \<Longrightarrow> \<exists>r. worker k1 k2 (subpath path x) = Inr r \<and>
      reports r (subpath path x) (status_of k1 k2) (\<lambda>t. t \<noteq> [] \<and> status_of k1 k2 t \<noteq> 0)"
    and f: "\<And>t. f (x # t) = status_of k1 k2 t"
  shows "\<exists>r. twosome dev1 dev2 worker k1 k2 path x = Inr r \<and>
     reports r path f (\<lambda>ns. \<exists>t. ns = x # t \<and> status_of k1 k2 t \<noteq> 0)"
proof -
  let ?p = "subpath path x" and ?s = "cmp_status k1 k2"
  let ?here = "if ?s \<noteq> 0 then [(?p, ?s)] else []"
  have fx: "f [x] = ?s" by (simp add: f status_of_def)
  note dev = tree_ok_parts(2) [OF k1] tree_ok_parts(2) [OF k2]
  note io = tree_ok_parts(1) [OF k1] tree_ok_parts(1) [OF k2]
  have flat: "node_at k (y # t) = None" if "tree_ok d k" "\<not> n_isdir k" for d k y t
    using tree_ok_parts(4) [OF that(1)] that(2) by (cases "n_kids k") auto
  show ?thesis
  proof (cases "st_mode (n_stat k1) AND S_IFMT = st_mode (n_stat k2) AND S_IFMT")
    case True
    have kind: "n_isdir k1 = n_isdir k2" using True by (simp add: S_ISDIR_def)
    have nt: "?s AND TYPE' = 0" using True by (simp add: cmp_status_type)
    have "\<exists>rest. (if n_isdir k1 then worker k1 k2 ?p else Inr []) = Inr rest \<and>
        reports rest path f (\<lambda>ns. \<exists>t. ns = x # t \<and> (t \<noteq> [] \<and> status_of k1 k2 t \<noteq> 0))"
    proof (cases "n_isdir k1")
      case True
      then obtain r where "worker k1 k2 ?p = Inr r"
        "reports r ?p (status_of k1 k2) (\<lambda>t. t \<noteq> [] \<and> status_of k1 k2 t \<noteq> 0)"
        using w kind by auto
      then show ?thesis using True f by (auto intro!: reports_sub)
    next
      case False
      have "status_of k1 k2 t = 0" if "t \<noteq> []" for t
        using that flat [OF k1 False] flat [OF k2] False kind by (cases t) (auto simp: status_of_def)
      then show ?thesis using False by (auto intro!: reports_none)
    qed
    then obtain rest where rest: "(if n_isdir k1 then worker k1 k2 ?p else Inr []) = Inr rest"
      "reports rest path f (\<lambda>ns. \<exists>t. ns = x # t \<and> (t \<noteq> [] \<and> status_of k1 k2 t \<noteq> 0))"
      by blast
    have "reports (?here @ rest) path f
        (\<lambda>ns. (ns = [x] \<and> ?s \<noteq> 0) \<or> (\<exists>t. ns = x # t \<and> (t \<noteq> [] \<and> status_of k1 k2 t \<noteq> 0)))"
    proof (rule reports_append)
      show "reports ?here path f (\<lambda>ns. ns = [x] \<and> ?s \<noteq> 0)"
        by (rule reports_here [where f = f and x = x, OF fx])
      show "reports rest path f (\<lambda>ns. \<exists>t. ns = x # t \<and> (t \<noteq> [] \<and> status_of k1 k2 t \<noteq> 0))"
        by (rule rest(2))
    qed auto
    then have "reports (?here @ rest) path f (\<lambda>ns. \<exists>t. ns = x # t \<and> status_of k1 k2 t \<noteq> 0)"
    proof (rule reports_cong)
      fix ns
      have "status_of k1 k2 [] = ?s" by (simp add: status_of_def)
      then show "((ns = [x] \<and> ?s \<noteq> 0) \<or> (\<exists>t. ns = x # t \<and> (t \<noteq> [] \<and> status_of k1 k2 t \<noteq> 0)))
          = (\<exists>t. ns = x # t \<and> status_of k1 k2 t \<noteq> 0)"
        by metis
    qed
    moreover have "twosome dev1 dev2 worker k1 k2 path x = Inr (?here @ rest)"
      using rest(1) nt dev io kind by (cases "n_isdir k1") (simp_all add: twosome_def Let_def)
    ultimately show ?thesis by blast
  next
    case False
    have ty: "?s AND TYPE' \<noteq> 0" using False by (simp add: cmp_status_type)
    have one: "\<not> n_isdir k1 \<or> \<not> n_isdir k2" using False by (auto simp: S_ISDIR_def)
    let ?a = "map (\<lambda>ns. (?p @ path_str ns, DELETED)) (names_of k1)"
    let ?b = "map (\<lambda>ns. (?p @ path_str ns, CREATED)) (names_of k2)"
    have st: "status_of k1 k2 t = (if node_at k1 t \<noteq> None then DELETED
        else if node_at k2 t \<noteq> None then CREATED else 0)" if "t \<noteq> []" for t
      using that one flat [OF k1] flat [OF k2]
      by (cases t; cases "node_at k1 t"; cases "node_at k2 t") (auto simp: status_of_def)
    have disj: "\<not> (node_at k1 t \<noteq> None \<and> node_at k2 t \<noteq> None)" if "t \<noteq> []" for t
      using that one flat [OF k1] flat [OF k2] by (cases t) auto
    have fa: "f (x # t) = DELETED" if "t \<noteq> []" "node_at k1 t \<noteq> None" for t
      using that st f by simp
    have fb: "f (x # t) = CREATED" if "t \<noteq> []" "node_at k2 t \<noteq> None" for t
      using that st f disj [of t] by simp
    note a = reports_names [where path = path and f = f and x = x, OF k1 fa]
    note b = reports_names [where path = path and f = f and x = x, OF k2 fb]
    have "reports (?here @ (?a @ ?b)) path f (\<lambda>ns. (ns = [x] \<and> ?s \<noteq> 0) \<or>
       ((\<exists>t. ns = x # t \<and> t \<noteq> [] \<and> node_at k1 t \<noteq> None) \<or> (\<exists>t. ns = x # t \<and> t \<noteq> [] \<and> node_at k2 t \<noteq> None)))"
      by (intro reports_append reports_here [where f = f and x = x, OF fx] a b) (use disj in \<open>auto, blast\<close>)
    then have "reports (?here @ (?a @ ?b)) path f (\<lambda>ns. \<exists>t. ns = x # t \<and> status_of k1 k2 t \<noteq> 0)"
    proof (rule reports_cong)
      fix ns
      have "status_of k1 k2 t \<noteq> 0 \<longleftrightarrow> (t = [] \<and> ?s \<noteq> 0) \<or> (t \<noteq> [] \<and> (node_at k1 t \<noteq> None \<or> node_at k2 t \<noteq> None))" for t
        using st [of t] by (cases "t = []") (auto simp: status_of_def)
      then show "((ns = [x] \<and> ?s \<noteq> 0) \<or> ((\<exists>t. ns = x # t \<and> t \<noteq> [] \<and> node_at k1 t \<noteq> None)
          \<or> (\<exists>t. ns = x # t \<and> t \<noteq> [] \<and> node_at k2 t \<noteq> None))) = (\<exists>t. ns = x # t \<and> status_of k1 k2 t \<noteq> 0)"
        by (simp only:) (cases ns; auto)
    qed
    moreover have "twosome dev1 dev2 worker k1 k2 path x = Inr (?here @ (?a @ ?b))"
      using ty dev io listSubdirs_names [OF k1] listSubdirs_names [OF k2]
        names_of_non_dir [OF k1] names_of_non_dir [OF k2]
      by (auto simp: twosome_def open_listSubdirs_def Let_def)
    ultimately show ?thesis by blast
  qed
qed

lemma sorted_names: "distinct xs \<Longrightarrow> sorted_wrt (<) (sort (xs :: string list))"
  by (simp add: strict_sorted_iff)

lemma filter_name_iff:
  assumes "list_all valid_name ps" "valid_name x"
  shows "filter_name (subpath (path_str ps) x) \<longleftrightarrow> ps = [] \<and> x = ''.snapshots''"
proof -
  have "subpath (path_str ps) x = path_str (ps @ [x])" by (simp add: subpath_def)
  moreover have "''/.snapshots'' = path_str [''.snapshots'']" by simp
  moreover have "list_all valid_name (ps @ [x])" "list_all valid_name [''.snapshots'']"
    using assms by (simp_all add: valid_name_def)
  ultimately have "filter_name (subpath (path_str ps) x) \<longleftrightarrow> ps @ [x] = [''.snapshots'']"
    unfolding filter_name_def by (metis comps_path_str)
  then show ?thesis by auto
qed

lemma worker_reports:
  assumes "tree_ok dev1 n1" "tree_ok dev2 n2" "list_all valid_name ps"
  shows "\<exists>r. cmpDirsWorker dev1 dev2 n1 n2 (path_str ps) = Inr r \<and>
    reports r (path_str ps) (status_of n1 n2)
      (\<lambda>ns. (ns \<noteq> [] \<and> status_of n1 n2 ns \<noteq> 0) \<and> \<not> (ps = [] \<and> hd ns = ''.snapshots''))"
  using assms
proof (induction "size n1" arbitrary: n1 n2 ps rule: less_induct)
  case less
  note ok = less.prems(1,2)
  let ?path = "path_str ps" and ?f = "status_of n1 n2"
  let ?flt = "\<lambda>x. filter_name (subpath ?path x)"
  let ?K1 = "fst ` set (n_kids n1)" and ?K2 = "fst ` set (n_kids n2)"
  let ?P = "\<lambda>ns. ns \<noteq> [] \<and> ?f ns \<noteq> 0"
  have kid1: "\<exists>k. map_of (n_kids n1) x = Some k \<and> tree_ok dev1 k \<and> valid_name x" if "x \<in> ?K1" for x
    using that tree_ok_parts(5) [OF ok(1), of x] by (cases "map_of (n_kids n1) x") (auto simp: map_of_eq_None_iff)
  have kid2: "\<exists>k. map_of (n_kids n2) x = Some k \<and> tree_ok dev2 k \<and> valid_name x" if "x \<in> ?K2" for x
    using that tree_ok_parts(5) [OF ok(2), of x] by (cases "map_of (n_kids n2) x") (auto simp: map_of_eq_None_iff)
  have none1: "map_of (n_kids n1) x = None" if "x \<notin> ?K1" for x using that by (simp add: map_of_eq_None_iff)
  have none2: "map_of (n_kids n2) x = None" if "x \<notin> ?K2" for x using that by (simp add: map_of_eq_None_iff)
  let ?o1 = "lonesome_on dev1 DELETED n1 ?path" and ?o2 = "lonesome_on dev2 CREATED n2 ?path"
  let ?b = "\<lambda>name. stat_kid n1 name (\<lambda>k1. stat_kid n2 name (\<lambda>k2.
          twosome dev1 dev2 (cmpDirsWorker dev1 dev2) k1 k2 ?path name))"
  let ?Q = "\<lambda>x r. reports r ?path ?f (\<lambda>ns. ?P ns \<and> ns \<noteq> [] \<and> hd ns = x)"
  have cong: "?Q x r" if "reports r ?path ?f (\<lambda>ns. \<exists>t. ns = x # t \<and> R t)" "\<And>t. R t \<longleftrightarrow> ?f (x # t) \<noteq> 0" for x r R
    using that(1) by (rule reports_cong) (use that(2) in \<open>auto simp: neq_Nil_conv\<close>)
  have e1: "\<exists>r. ?o1 x = Inr r \<and> ?Q x r" if x: "x \<in> ?K1" "x \<notin> ?K2" for x
  proof -
    obtain k where k: "map_of (n_kids n1) x = Some k" "tree_ok dev1 k" using kid1 [OF x(1)] by blast
    have st: "?f (x # t) = node_status (node_at k t) None" for t
      by (simp add: status_of_def k none2 [OF x(2)])
    have "\<exists>r. lonesome k ?path x DELETED = Inr r \<and>
        reports r ?path ?f (\<lambda>ns. \<exists>t. ns = x # t \<and> node_at k t \<noteq> None)"
      by (rule lonesome_reports [OF k(2)]) (auto simp: st)
    moreover have "node_at k t \<noteq> None \<longleftrightarrow> ?f (x # t) \<noteq> 0" for t
      by (cases "node_at k t") (auto simp: st)
    ultimately show ?thesis
      using k tree_ok_parts(2) [OF k(2)] cong by (auto simp: lonesome_on_def stat_kid_def)
  qed
  have e2: "\<exists>r. ?o2 x = Inr r \<and> ?Q x r" if x: "x \<in> ?K2" "x \<notin> ?K1" for x
  proof -
    obtain k where k: "map_of (n_kids n2) x = Some k" "tree_ok dev2 k" using kid2 [OF x(1)] by blast
    have st: "?f (x # t) = node_status None (node_at k t)" for t
      by (simp add: status_of_def k none1 [OF x(2)])
    have "\<exists>r. lonesome k ?path x CREATED = Inr r \<and>
        reports r ?path ?f (\<lambda>ns. \<exists>t. ns = x # t \<and> node_at k t \<noteq> None)"
      by (rule lonesome_reports [OF k(2)]) (auto simp: st)
    moreover have "node_at k t \<noteq> None \<longleftrightarrow> ?f (x # t) \<noteq> 0" for t
      by (cases "node_at k t") (auto simp: st)
    ultimately show ?thesis
      using k tree_ok_parts(2) [OF k(2)] cong by (auto simp: lonesome_on_def stat_kid_def)
  qed
  have e3: "\<exists>r. ?b x = Inr r \<and> ?Q x r" if x: "x \<in> ?K1" "x \<in> ?K2" for x
  proof -
    obtain k1 where k1: "map_of (n_kids n1) x = Some k1" "tree_ok dev1 k1" "valid_name x"
      using kid1 [OF x(1)] by blast
    obtain k2 where k2: "map_of (n_kids n2) x = Some k2" "tree_ok dev2 k2" using kid2 [OF x(2)] by blast
    have sp: "subpath ?path x = path_str (ps @ [x])" by (simp add: subpath_def)
    have st: "?f (x # t) = status_of k1 k2 t" for t by (simp add: status_of_def k1 k2)
    have "size k1 < size n1" using k1(1) by (intro kid_size [of x]) (rule map_of_SomeD)
    then have "\<exists>r. cmpDirsWorker dev1 dev2 k1 k2 (subpath ?path x) = Inr r \<and>
        reports r (subpath ?path x) (status_of k1 k2) (\<lambda>t. t \<noteq> [] \<and> status_of k1 k2 t \<noteq> 0)"
      using less.hyps [of k1 k2 "ps @ [x]"] k1 k2 less.prems(3) by (simp add: sp)
    then have "\<exists>r. twosome dev1 dev2 (cmpDirsWorker dev1 dev2) k1 k2 ?path x = Inr r \<and>
        reports r ?path ?f (\<lambda>ns. \<exists>t. ns = x # t \<and> status_of k1 k2 t \<noteq> 0)"
      by (intro twosome_reports [OF k1(2) k2(2)] st)
    then show ?thesis
      using k1 k2 st cong by (auto simp: stat_kid_def)
  qed
  define G where "G = (\<lambda>x. SOME r. (if x \<in> ?K1 then if x \<in> ?K2 then ?b x else ?o1 x else ?o2 x) = Inr r \<and> ?Q x r)"
  have G: "(if x \<in> ?K1 then if x \<in> ?K2 then ?b x else ?o1 x else ?o2 x) = Inr (G x) \<and> ?Q x (G x)"
    if "x \<in> ?K1 \<union> ?K2" for x
    unfolding G_def by (rule someI_ex) (use that e1 e2 e3 in auto)
  have "merged ?flt G (merge_loop ?flt ?o1 ?o2 ?b (sort (map fst (n_kids n1))) (sort (map fst (n_kids n2))))
      (set (sort (map fst (n_kids n1))) \<union> set (sort (map fst (n_kids n2))))"
  proof (rule merge_loop_merged)
    show "sorted_wrt (<) (sort (map fst (n_kids n1)))" "sorted_wrt (<) (sort (map fst (n_kids n2)))"
      using sorted_names tree_ok_parts(3) ok by blast+
    have s: "set (sort (map fst (n_kids n1))) = ?K1" "set (sort (map fst (n_kids n2))) = ?K2" by simp_all
    show "\<forall>x. \<not> ?flt x \<longrightarrow> x \<in> set (sort (map fst (n_kids n1))) \<longrightarrow>
        x \<notin> set (sort (map fst (n_kids n2))) \<longrightarrow> ?o1 x = Inr (G x)"
      unfolding s
    proof (intro allI impI, goal_cases)
      case (1 x)
      then show ?case using G [of x] by simp
    qed
    show "\<forall>x. \<not> ?flt x \<longrightarrow> x \<in> set (sort (map fst (n_kids n2))) \<longrightarrow>
        x \<notin> set (sort (map fst (n_kids n1))) \<longrightarrow> ?o2 x = Inr (G x)"
      unfolding s
    proof (intro allI impI, goal_cases)
      case (1 x)
      then show ?case using G [of x] by simp
    qed
    show "\<forall>x. \<not> ?flt x \<longrightarrow> x \<in> set (sort (map fst (n_kids n1))) \<longrightarrow>
        x \<in> set (sort (map fst (n_kids n2))) \<longrightarrow> ?b x = Inr (G x)"
      unfolding s
    proof (intro allI impI, goal_cases)
      case (1 x)
      then show ?case using G [of x] by simp
    qed
  qed
  then obtain R where R: "cmpDirsWorker dev1 dev2 n1 n2 ?path = Inr (concat (map G R))"
    "sorted_wrt (<) R" "set R = {x \<in> ?K1 \<union> ?K2. \<not> ?flt x}"
    by (auto simp: merged_def cmpDirsWorker.simps [of dev1 dev2 n1 n2])
  have "distinct R" using R(2) by (simp add: strict_sorted_iff)
  then have "reports (concat (map G R)) ?path ?f (\<lambda>ns. ?P ns \<and> ns \<noteq> [] \<and> hd ns \<in> set R)"
    using G R(3) by (intro reports_concat) auto
  then have "reports (concat (map G R)) ?path ?f (\<lambda>ns. ?P ns \<and> \<not> (ps = [] \<and> hd ns = ''.snapshots''))"
  proof (rule reports_cong)
    fix ns
    have "hd ns \<in> ?K1 \<union> ?K2" if "?P ns"
    proof (rule ccontr)
      assume "hd ns \<notin> ?K1 \<union> ?K2"
      then have "map_of (n_kids n1) (hd ns) = None" "map_of (n_kids n2) (hd ns) = None"
        using none1 none2 by blast+
      then show False using that by (cases ns) (simp_all add: status_of_def)
    qed
    moreover have "valid_name x" if "x \<in> ?K1 \<union> ?K2" for x using that kid1 kid2 by blast
    ultimately show "(?P ns \<and> ns \<noteq> [] \<and> hd ns \<in> set R) = (?P ns \<and> \<not> (ps = [] \<and> hd ns = ''.snapshots''))"
      using filter_name_iff [OF less.prems(3), of "hd ns"] R(3) by auto
  qed
  then show ?case using R(1) by blast
qed

end
