(* ===== verification/CompareClaims.thy ===== *)
theory CompareClaims
  imports CompareSpec
begin

text \<open>
  The properties of the comparison: what \<open>cmpDirs\<close> reports, the comparison in the other direction,
  when two regular files have equal content, and links that cannot be read.
\<close>

lemma node_at_valid:
  "tree_ok dev n \<Longrightarrow> node_at n ns \<noteq> None \<Longrightarrow> list_all valid_name ns"
proof (induction ns arbitrary: n)
  case (Cons x ns)
  then show ?case
    using tree_ok_parts(5) [OF Cons.prems(1), of x] by (auto split: option.splits)
qed simp

lemma status_of_valid_names:
  assumes "tree_ok dev1 t1" "tree_ok dev2 t2" "status_of t1 t2 ns \<noteq> 0"
  shows "list_all valid_name ns"
  using assms node_at_valid [OF assms(1), of ns] node_at_valid [OF assms(2), of ns]
  by (cases "node_at t1 ns"; cases "node_at t2 ns") (auto simp: status_of_def)

lemma cmpDirs_report:
  assumes "tree_ok dev1 t1" "tree_ok dev2 t2"
  obtains r where "cmpDirs t1 t2 = Inr r" "distinct (map fst r)"
    "set r = {(path_str ns, status_of t1 t2 ns) | ns.
               ns \<noteq> [] \<and> hd ns \<noteq> ''.snapshots'' \<and> status_of t1 t2 ns \<noteq> 0}"
proof -
  obtain r L where r: "cmpDirsWorker dev1 dev2 t1 t2 [] = Inr r"
    "r = map (\<lambda>ns. (path_str ns, status_of t1 t2 ns)) L" "distinct L"
    "set L = {ns. (ns \<noteq> [] \<and> status_of t1 t2 ns \<noteq> 0) \<and> hd ns \<noteq> ''.snapshots''}"
    using worker_reports [OF assms, of "[]"] by (auto simp: reports_def)
  have "inj_on path_str (set L)"
    using r(4) status_of_valid_names [OF assms] by (auto intro!: inj_onI) (metis comps_path_str)
  then have "distinct (map fst r)"
    using r(3) by (simp add: r(2) comp_def distinct_map)
  moreover have "cmpDirs t1 t2 = Inr r"
    using r(1) tree_ok_parts(2) assms by (simp add: cmpDirs_def)
  moreover have "set r = {(path_str ns, status_of t1 t2 ns) | ns.
               ns \<noteq> [] \<and> hd ns \<noteq> ''.snapshots'' \<and> status_of t1 t2 ns \<noteq> 0}"
    using r(4) by (auto simp: r(2))
  ultimately show ?thesis using that by blast
qed

text \<open>Two small trees: a changed file, a deleted directory, a created link.\<close>

definition sample_stat :: "u32 \<Rightarrow> nat \<Rightarrow> nat \<Rightarrow> stat" where
  "sample_stat m sz ino = \<lparr>st_mode = m, st_uid = 0, st_gid = 0, st_size = sz, st_dev = 7,
     st_ino = ino, st_mtim = (int ino, 0)\<rparr>"

definition sample_old :: fnode where
  "sample_old = FNode (sample_stat 0x41ED 0 1) [] True
     [(''f'', FNode (sample_stat 0x81A4 3 2) ''abc'' True []),
      (''d'', FNode (sample_stat 0x41ED 0 3) [] True
         [(''x'', FNode (sample_stat 0x81A4 0 4) [] True [])])]"

definition sample_new :: fnode where
  "sample_new = FNode (sample_stat 0x41ED 0 11) [] True
     [(''l'', FNode (sample_stat 0xA1FF 1 12) ''f'' True []),
      (''f'', FNode (sample_stat 0x8180 3 13) ''abd'' True [])]"

lemma sample_trees_ok: "tree_ok 7 sample_old" "tree_ok 7 sample_new"
  by code_simp+

text \<open>C3. A comparison reports exactly the differences: for two trees on one device each, \<open>cmpDirs\<close>
  returns every path below the root, outside \<open>/.snapshots\<close>, whose status in the two trees is not 0
  (created, deleted, or the set of its differences), each path once.\<close>

theorem cmpDirs_reports_differences:
  assumes "tree_ok dev1 t1" "tree_ok dev2 t2"
  shows "\<exists>r. cmpDirs t1 t2 = Inr r \<and> distinct (map fst r) \<and>
    set r = {(path_str ns, status_of t1 t2 ns) | ns.
               ns \<noteq> [] \<and> hd ns \<noteq> ''.snapshots'' \<and> status_of t1 t2 ns \<noteq> 0}"
  by (rule cmpDirs_report [OF assms], intro exI conjI, assumption+)

theorem cmpDirs_reports_differences_witness:
  "\<exists>r. cmpDirs sample_old sample_new = Inr r \<and> (''/f'', CONTENT OR PERMISSIONS) \<in> set r
     \<and> (''/d/x'', DELETED) \<in> set r \<and> (''/l'', CREATED) \<in> set r"
proof -
  have s: "status_of sample_old sample_new [''f''] = CONTENT OR PERMISSIONS"
    "status_of sample_old sample_new [''d'', ''x''] = DELETED"
    "status_of sample_old sample_new [''l''] = CREATED" by code_simp+
  obtain r where r: "cmpDirs sample_old sample_new = Inr r" and
    m: "\<And>ns. ns \<noteq> [] \<Longrightarrow> hd ns \<noteq> ''.snapshots'' \<Longrightarrow> status_of sample_old sample_new ns \<noteq> 0 \<Longrightarrow>
      (path_str ns, status_of sample_old sample_new ns) \<in> set r"
    using cmpDirs_reports_differences [OF sample_trees_ok] by blast
  have nz: "CONTENT OR PERMISSIONS \<noteq> 0" by (simp add: flag_defs)
  show ?thesis
    using r m [of "[''f'']"] m [of "[''d'', ''x'']"] m [of "[''l'']"] s nz by auto
qed

subsection \<open>The other direction\<close>

lemma cmp_blocks_sym: "cmp_blocks len d1 d2 = cmp_blocks len d2 d1"
proof (induction len d1 d2 rule: cmp_blocks.induct)
  case (1 len d1 d2)
  define t where "t = min block_size len"
  show ?case
    using 1 [OF _ t_def]
    by (subst (1 2) cmp_blocks.simps) (auto simp: t_def [symmetric] Let_def)
qed

lemma content_equal_sym:
  assumes "st_mode (n_stat n1) AND S_IFMT = st_mode (n_stat n2) AND S_IFMT"
  shows "content_equal n1 n2 = content_equal n2 n1"
proof -
  have "cmpFilesContentReg n1 n2 = cmpFilesContentReg n2 n1"
    by (auto simp: cmpFilesContentReg_def Let_def cmp_blocks_sym)
  moreover have "cmpFilesContentLnk n1 n2 = cmpFilesContentLnk n2 n1"
    by (auto simp: cmpFilesContentLnk_def Let_def split: prod.splits)
  ultimately show ?thesis
    using assms by (simp add: content_equal_def S_ISREG_def S_ISLNK_def)
qed

lemma cmp_status_sym: "cmp_status n1 n2 = cmp_status n2 n1"
  by (rule bit_eqI) (auto simp: cmp_status_bits Let_def content_equal_sym xor.commute)

lemma cmp_status_invert: "invertStatus (cmp_status n1 n2) = cmp_status n1 n2"
  by (rule invertStatus_other) (auto simp: has_bits cmp_status_bits Let_def)

lemma status_of_invert: "status_of t2 t1 ns = invertStatus (status_of t1 t2 ns)"
  by (cases "node_at t1 ns"; cases "node_at t2 ns")
    (auto simp: status_of_def cmp_status_invert intro: cmp_status_sym)

lemma invertStatus_zero: "invertStatus s = 0 \<Longrightarrow> valid_status s \<Longrightarrow> s = 0"
  using invertStatus_valid_twice [of s] by simp

lemma status_of_zero_sym: "status_of t2 t1 ns = 0 \<longleftrightarrow> status_of t1 t2 ns = 0"
  by (cases "node_at t1 ns"; cases "node_at t2 ns") (auto simp: status_of_def cmp_status_sym)

lemma sort_key_map_fst:
  "(\<And>p. fst (f p) = fst p) \<Longrightarrow> sort_key (fst :: string \<times> u32 \<Rightarrow> string) (map f r) = map f (sort_key fst r)"
proof (induction r)
  case (Cons p r)
  have "insort_key fst (f p) (map f xs) = map f (insort_key fst p xs)" for xs
    by (induction xs) (simp_all add: Cons.prems)
  then show ?case using Cons by simp
qed simp

text \<open>Two lists with distinct names and the same elements are the same after sorting.\<close>

lemma sort_key_fst_eq:
  assumes "distinct (map fst r)" "distinct (map fst r')" "set r = set r'"
  shows "sort_key (fst :: string \<times> u32 \<Rightarrow> string) r = sort_key fst r'"
proof (rule map_sorted_distinct_set_unique [where f = fst])
  show "inj_on fst (set (sort_key fst r) \<union> set (sort_key fst r'))"
    using assms by (simp add: distinct_map)
qed (use assms in \<open>auto simp: distinct_map\<close>)

text \<open>C4. The comparison in the other direction gives, after sorting by name, the same list with
  every status inverted; this is why a stored file list can serve both directions.\<close>

theorem cmpDirs_other_direction:
  assumes "tree_ok dev1 t1" "tree_ok dev2 t2"
  shows "\<exists>r r'. cmpDirs t1 t2 = Inr r \<and> cmpDirs t2 t1 = Inr r' \<and>
    sort_key fst r' = map (\<lambda>(name, s). (name, invertStatus s)) (sort_key fst r)"
proof -
  obtain r where r: "cmpDirs t1 t2 = Inr r" "distinct (map fst r)"
    "set r = {(path_str ns, status_of t1 t2 ns) | ns.
               ns \<noteq> [] \<and> hd ns \<noteq> ''.snapshots'' \<and> status_of t1 t2 ns \<noteq> 0}"
    by (rule cmpDirs_report [OF assms])
  obtain r' where r': "cmpDirs t2 t1 = Inr r'" "distinct (map fst r')"
    "set r' = {(path_str ns, status_of t2 t1 ns) | ns.
               ns \<noteq> [] \<and> hd ns \<noteq> ''.snapshots'' \<and> status_of t2 t1 ns \<noteq> 0}"
    by (rule cmpDirs_report [OF assms(2,1)])
  let ?inv = "\<lambda>(name, s). (name, invertStatus s)"
  have im: "f ` {g ns | ns. P ns} = {f (g ns) | ns. P ns}" for f :: "string \<times> u32 \<Rightarrow> string \<times> u32"
    and g :: "string list \<Rightarrow> string \<times> u32" and P by auto
  have "set r' = {(path_str ns, invertStatus (status_of t1 t2 ns)) | ns.
               ns \<noteq> [] \<and> hd ns \<noteq> ''.snapshots'' \<and> status_of t1 t2 ns \<noteq> 0}"
    unfolding r'(3) status_of_zero_sym [of t2 t1] by (simp only: status_of_invert [of t2 t1])
  then have "set (map ?inv r) = set r'"
    unfolding set_map r(3) im by simp
  moreover have fst: "map fst (map ?inv r) = map fst r" by (simp add: comp_def case_prod_unfold)
  ultimately have "sort_key fst r' = sort_key fst (map ?inv r)"
    using r(2) r'(2) by (intro sort_key_fst_eq) (simp_all only: fst)
  also have "\<dots> = map ?inv (sort_key fst r)"
    by (rule sort_key_map_fst) auto
  finally show ?thesis using r(1) r'(1) by blast
qed

theorem cmpDirs_other_direction_witness:
  "\<exists>r r'. cmpDirs sample_old sample_new = Inr r \<and> cmpDirs sample_new sample_old = Inr r' \<and>
    sort_key fst r' = map (\<lambda>(name, s). (name, invertStatus s)) (sort_key fst r)"
  using cmpDirs_other_direction [OF sample_trees_ok] .

subsection \<open>Contents\<close>

text \<open>C7. The status of two regular files has the bit \<open>CONTENT\<close> exactly when their modification times
  differ and either their bytes differ, or they are not empty, on different inodes, and one of them cannot be opened: files
  with the same modification time are never compared, and for all others the comparison of blocks of 4096 bytes, with its
  shortcuts for different sizes, for empty files and for one inode, is equality.\<close>
theorem content_status_is_exact:
  assumes "S_ISREG (st_mode (n_stat n1))" "S_ISREG (st_mode (n_stat n2))"
    and "st_size (n_stat n1) = length (n_data n1)" "st_size (n_stat n2) = length (n_data n2)"
    and "(st_dev (n_stat n1), st_ino (n_stat n1)) = (st_dev (n_stat n2), st_ino (n_stat n2)) \<Longrightarrow> n_data n1 = n_data n2"
  shows "\<exists>s. cmpFiles n1 n2 = Inr s \<and> (has s CONTENT \<longleftrightarrow> st_mtim (n_stat n1) \<noteq> st_mtim (n_stat n2)
    \<and> (n_data n1 \<noteq> n_data n2 \<or> n_data n1 \<noteq> [] \<and> \<not> (n_io n1 \<and> n_io n2)
       \<and> (st_dev (n_stat n1), st_ino (n_stat n1)) \<noteq> (st_dev (n_stat n2), st_ino (n_stat n2))))"
proof -
  have "\<not> cmpFilesContentReg n1 n2 \<longleftrightarrow> st_mtim (n_stat n1) \<noteq> st_mtim (n_stat n2)
    \<and> (n_data n1 \<noteq> n_data n2 \<or> n_data n1 \<noteq> [] \<and> \<not> (n_io n1 \<and> n_io n2)
       \<and> (st_dev (n_stat n1), st_ino (n_stat n1)) \<noteq> (st_dev (n_stat n2), st_ino (n_stat n2)))"
    using assms(3-5) cmp_blocks_correct [OF refl, of "n_data n2" "n_data n1"]
    by (auto simp: cmpFilesContentReg_def Let_def)
  moreover have "st_mode (n_stat n1) AND S_IFMT = st_mode (n_stat n2) AND S_IFMT"
    using assms(1,2) by (simp add: S_ISREG_def)
  ultimately show ?thesis
    using assms(1) by (simp add: has_bits cmp_status_bits Let_def content_equal_def)
qed

theorem content_status_is_exact_witness:
  "(\<exists>s. cmpFiles (FNode (sample_stat 0x81A4 3 2) ''abc'' True []) (FNode (sample_stat 0x8180 3 13) ''abd'' True [])
     = Inr s \<and> has s CONTENT)"
  using content_status_is_exact [of "FNode (sample_stat 0x81A4 3 2) ''abc'' True []"
      "FNode (sample_stat 0x8180 3 13) ''abd'' True []"]
  by (auto simp: sample_stat_def S_ISREG_def mode_defs)

text \<open>\<open>readlink\<close> signals failure by -1, which the code takes for success: two links of which
  neither can be read compare as equal, whatever their targets are.\<close>

theorem unreadable_links_compare_equal:
  assumes "S_ISLNK (st_mode (n_stat n1))" "S_ISLNK (st_mode (n_stat n2))" "\<not> n_io n1" "\<not> n_io n2"
  shows "\<exists>s. cmpFiles n1 n2 = Inr s \<and> \<not> has s CONTENT"
proof -
  have "content_equal n1 n2"
    using assms kinds_disjoint(6) by (simp add: content_equal_def cmpFilesContentLnk_def sfile_readlink_def)
  then show ?thesis by (simp add: has_bits cmp_status_bits)
qed

theorem unreadable_links_compare_equal_witness:
  "\<exists>s. cmpFiles (FNode (sample_stat 0xA1FF 1 2) ''a'' False []) (FNode (sample_stat 0xA1FF 1 3) ''b'' False [])
     = Inr s \<and> \<not> has s CONTENT"
  using unreadable_links_compare_equal [of "FNode (sample_stat 0xA1FF 1 2) ''a'' False []"
      "FNode (sample_stat 0xA1FF 1 3) ''b'' False []"]
  by (auto simp: sample_stat_def S_ISLNK_def mode_defs)

end
