(* ===== verification/DBusCodec.thy ===== *)
theory DBusCodec
  imports Strings Status
begin

text \<open>
  The wire format (\<open>dbus/DBusMessage.h\<close>, \<open>dbus/DBusMessage.cc\<close>, \<open>server/Types.cc\<close>,
  \<open>client/types.h\<close>, \<open>client/types.cc\<close>).  A message body is a list of typed values.  Every
  \<open>hihi >> x\<close> takes one value from the front of the body (a container as a whole: the code
  recurses into it and then moves on), every \<open>hoho << x\<close> appends one.  The locale \<open>codec\<close> is the
  contract between an encoder, a decoder and a signature; arrays are handled once for all codecs.
\<close>

named_theorems codec_simps \<open>decoding what was encoded\<close>

subsection \<open>Escaping\<close>

definition hex_digit :: "nat \<Rightarrow> char" where
  "hex_digit n = (if n < 10 then char_of (48 + n) else char_of (87 + n))"

definition is_xdigit :: "char \<Rightarrow> bool" where
  "is_xdigit c \<longleftrightarrow> is_digit c \<or> (of_char c \<ge> (97::nat) \<and> of_char c \<le> (102::nat))
     \<or> (of_char c \<ge> (65::nat) \<and> of_char c \<le> (70::nat))"

definition hex_val :: "char \<Rightarrow> nat" where
  "hex_val c = (if is_digit c then of_char c - 48
     else if of_char c \<ge> (97::nat) then of_char c - 87 else of_char c - 55)"

definition hexString :: "nat \<Rightarrow> string" where
  "hexString n = (if n < 16 then [hex_digit n] else [hex_digit (n div 16), hex_digit (n mod 16)])"

fun escape :: "string \<Rightarrow> string" where
  "escape [] = []"
| "escape (c # s) =
     (if c = CHR 0x5C then [CHR 0x5C, CHR 0x5C]
      else if of_char c > (127::nat) then [CHR 0x5C, CHR ''x''] @ hexString (of_char c)
      else [c]) @ escape s"

fun unescape :: "string \<Rightarrow> string res" where
  "unescape [] = Inr []"
| "unescape (c # s) =
     (if c = CHR 0x5C then
        (case s of
           [] \<Rightarrow> Inl MarshallingException
         | d # t \<Rightarrow>
             if d = CHR 0x5C then bindR (unescape t) (\<lambda>r. Inr (CHR 0x5C # r))
             else if d = CHR ''x'' then
               (case t of
                  [] \<Rightarrow> Inl MarshallingException
                | a # u \<Rightarrow>
                    if \<not> is_xdigit a then Inl MarshallingException
                    else (case u of
                        [] \<Rightarrow> Inr [char_of (hex_val a)]
                      | b # v \<Rightarrow>
                          if is_xdigit b then
                            bindR (unescape v) (\<lambda>r. Inr (char_of (16 * hex_val a + hex_val b) # r))
                          else bindR (unescape u) (\<lambda>r. Inr (char_of (hex_val a) # r))))
             else Inl MarshallingException)
      else bindR (unescape s) (\<lambda>r. Inr (c # r)))"

lemma hex_digit_props:
  assumes "n < 16"
  shows "is_xdigit (hex_digit n)" "hex_val (hex_digit n) = n"
  using assms by (auto simp: hex_digit_def is_xdigit_def hex_val_def is_digit_def)

lemma of_char_div16: "(of_char (c::char) :: nat) div 16 < 16"
  by (rule less_mult_imp_div_less) (use nat_of_char_less_256 [of c] in simp)

lemma hexString_high:
  assumes "of_char c > (127::nat)"
  shows "\<exists>a b. hexString (of_char c) = [a, b] \<and> is_xdigit a \<and> is_xdigit b
     \<and> 16 * hex_val a + hex_val b = (of_char c :: nat)"
  using assms hex_digit_props [OF of_char_div16 [of c]] hex_digit_props [of "of_char c mod 16"]
  by (auto simp: hexString_def)

lemma unescape_escape: "unescape (escape s) = Inr s"
proof (induction s)
  case (Cons c s)
  show ?case
  proof (cases "of_char c > (127::nat)")
    case True
    then obtain a b where ab: "hexString (of_char c) = [a, b]" "is_xdigit a" "is_xdigit b"
      "16 * hex_val a + hex_val b = (of_char c :: nat)"
      using hexString_high by blast
    have "c \<noteq> CHR 0x5C" using True by auto
    then show ?thesis
      using True ab Cons by simp
  next
    case False
    then show ?thesis using Cons by auto
  qed
qed simp

text \<open>What is put on the wire is 7 bit clean, so that it is valid UTF-8 whatever the bytes are.\<close>

lemma escape_ascii: "c \<in> set (escape s) \<Longrightarrow> of_char c \<le> (127::nat)"
proof (induction s)
  case (Cons x s)
  have h: "of_char (hex_digit n) \<le> (127::nat)" if "n < 16" for n
    using that by (auto simp: hex_digit_def)
  show ?case
    using Cons h [OF of_char_div16 [of x]] h [of "of_char x mod 16"]
    by (auto simp: hexString_def split: if_splits)
qed simp

lemma escape_nul: "CHR 0x00 \<notin> set s \<Longrightarrow> CHR 0x00 \<notin> set (escape s)"
proof (induction s)
  case (Cons x s)
  have h: "hex_digit n \<noteq> CHR 0x00" if "n < 16" for n
  proof
    assume "hex_digit n = CHR 0x00"
    then have "of_char (hex_digit n) = (0::nat)" by simp
    then show False using that by (auto simp: hex_digit_def split: if_splits)
  qed
  show ?case
    using Cons h [OF of_char_div16 [of x]] h [of "of_char x mod 16"]
    by (auto simp: hexString_def split: if_splits)
qed simp

subsection \<open>Values on the wire\<close>

datatype dval =
    DBool bool
  | DU16 "16 word"
  | DU32 u32
  | DI64 "64 word"
  | DStr string
  | DArr string "dval list"
  | DStruct "dval list"
  | DEntry dval dval

fun sig_of :: "dval \<Rightarrow> string" where
  "sig_of (DBool b) = ''b''"
| "sig_of (DU16 w) = ''q''"
| "sig_of (DU32 w) = ''u''"
| "sig_of (DI64 w) = ''x''"
| "sig_of (DStr s) = ''s''"
| "sig_of (DArr s vs) = ''a'' @ s"
| "sig_of (DStruct vs) = ''('' @ concat (map sig_of vs) @ '')''"
| "sig_of (DEntry k v) = ''{'' @ sig_of k @ sig_of v @ ''}''"

type_synonym 'a decoder = "dval \<Rightarrow> 'a res"

fun get_value :: "'a decoder \<Rightarrow> dval list \<Rightarrow> ('a \<times> dval list) res" where
  "get_value d [] = Inl MarshallingException"
| "get_value d (v # vs) = bindR (d v) (\<lambda>x. Inr (x, vs))"

text \<open>\<open>c_str\<close>: a C string ends at the first NUL.\<close>

definition c_str :: "string \<Rightarrow> string" where
  "c_str s = takeWhile (\<lambda>c. c \<noteq> CHR 0x00) s"

definition enc_bool :: "bool \<Rightarrow> dval" where "enc_bool b = DBool b"
definition enc_u16 :: "16 word \<Rightarrow> dval" where "enc_u16 w = DU16 w"
definition enc_u32 :: "u32 \<Rightarrow> dval" where "enc_u32 w = DU32 w"
definition enc_time :: "64 word \<Rightarrow> dval" where "enc_time t = DI64 t"
definition enc_string :: "string \<Rightarrow> dval" where "enc_string s = DStr (c_str (escape s))"
definition enc_cstr :: "string \<Rightarrow> dval" where "enc_cstr s = DStr s"

fun dec_bool :: "bool decoder" where
  "dec_bool (DBool b) = Inr b"
| "dec_bool _ = Inl MarshallingException"

fun dec_u16 :: "16 word decoder" where
  "dec_u16 (DU16 w) = Inr w"
| "dec_u16 _ = Inl MarshallingException"

fun dec_u32 :: "u32 decoder" where
  "dec_u32 (DU32 w) = Inr w"
| "dec_u32 _ = Inl MarshallingException"

fun dec_time :: "64 word decoder" where
  "dec_time (DI64 t) = Inr t"
| "dec_time _ = Inl MarshallingException"

fun dec_string :: "string decoder" where
  "dec_string (DStr s) = unescape s"
| "dec_string _ = Inl MarshallingException"

definition enc_array :: "string \<Rightarrow> ('a \<Rightarrow> dval) \<Rightarrow> 'a list \<Rightarrow> dval" where
  "enc_array sig e xs = DArr sig (map e xs)"

fun dec_array :: "string \<Rightarrow> 'a decoder \<Rightarrow> 'a list decoder" where
  "dec_array sig d (DArr s vs) =
     mapR (\<lambda>v. if sig_of v \<noteq> sig then Inl MarshallingException else d v) vs"
| "dec_array sig d _ = Inl MarshallingException"

definition enc_map :: "(string, string) smap \<Rightarrow> dval" where
  "enc_map m = DArr ''{ss}'' (map (\<lambda>(k, v). DEntry (enc_string k) (enc_string v)) m)"

fun dec_entry :: "(string \<times> string) decoder" where
  "dec_entry (DEntry a b) = bindR (dec_string a) (\<lambda>k. bindR (dec_string b) (\<lambda>v. Inr (k, v)))"
| "dec_entry _ = Inl FatalException"

fun dec_map :: "(string, string) smap \<Rightarrow> (string, string) smap decoder" where
  "dec_map init (DArr s vs) =
     bindR (mapR (\<lambda>v. if sig_of v \<noteq> ''{ss}'' then Inl MarshallingException else dec_entry v) vs)
       (\<lambda>kvs. Inr (fold (\<lambda>(k, v). sm_put k v) kvs init))"
| "dec_map init _ = Inl MarshallingException"

fun dec_struct :: "dval \<Rightarrow> (dval list) res" where
  "dec_struct (DStruct vs) = Inr vs"
| "dec_struct _ = Inl FatalException"

subsection \<open>The contract of a codec\<close>

locale codec =
  fixes enc :: "'a \<Rightarrow> dval" and dec :: "'a decoder" and ok :: "'a \<Rightarrow> bool" and sig :: string
  assumes dec_enc: "ok x \<Longrightarrow> dec (enc x) = Inr x"
    and sig_enc: "sig_of (enc x) = sig"
begin

lemma get_enc: "ok x \<Longrightarrow> get_value dec (enc x # rest) = Inr (x, rest)"
  by (simp add: dec_enc)

lemma dec_array_enc_array:
  assumes "\<forall>x\<in>set xs. ok x"
  shows "dec_array sig dec (enc_array sig enc xs) = Inr xs"
proof -
  have "mapR (\<lambda>v. if sig_of v \<noteq> sig then Inl MarshallingException else dec v) (map enc xs) = Inr xs"
    using assms by (induction xs) (simp_all add: dec_enc sig_enc)
  then show ?thesis by (simp add: enc_array_def)
qed

lemma sig_array: "sig_of (enc_array sig enc xs) = ''a'' @ sig"
  by (simp add: enc_array_def)

end

definition no_nul :: "string \<Rightarrow> bool" where
  "no_nul s \<longleftrightarrow> CHR 0x00 \<notin> set s"

lemma c_str_id: "CHR 0x00 \<notin> set s \<Longrightarrow> c_str s = s"
  by (induction s) (auto simp: c_str_def)

lemma dec_enc_string [codec_simps]: "no_nul s \<Longrightarrow> dec_string (enc_string s) = Inr s"
  using escape_nul [of s] by (simp add: enc_string_def c_str_id unescape_escape no_nul_def)

lemma sig_enc_string: "sig_of (enc_string s) = ''s''"
  by (simp add: enc_string_def)

lemma sig_enc_map: "sig_of (enc_map m) = ''a{ss}''"
  by (simp add: enc_map_def)

interpretation u16c: codec enc_u16 dec_u16 "\<lambda>_. True" "''q''"
  by unfold_locales (simp_all add: enc_u16_def)

interpretation u32c: codec enc_u32 dec_u32 "\<lambda>_. True" "''u''"
  by unfold_locales (simp_all add: enc_u32_def)

interpretation timec: codec enc_time dec_time "\<lambda>_. True" "''x''"
  by unfold_locales (simp_all add: enc_time_def)

interpretation strc: codec enc_string dec_string no_nul "''s''"
  by unfold_locales (simp_all add: dec_enc_string sig_enc_string)

definition map_ok :: "(string, string) smap \<Rightarrow> bool" where
  "map_ok m \<longleftrightarrow> sm_wf m \<and> list_all (\<lambda>(k, v). no_nul k \<and> no_nul v) m"

lemma fold_put_wf: "sm_wf m \<Longrightarrow> fold (\<lambda>(k, v). sm_put k v) m [] = m"
proof (rule sm_wf_ext)
  assume wf: "sm_wf m"
  show "sm_wf (fold (\<lambda>(k, v). sm_put k v) m [])"
    by (rule smap.wf_fold_put) simp
  have "map_of (rev m) = map_of m"
    using sm_wf_distinct [OF wf] by (simp add: map_of_inject_set rev_map [symmetric])
  then show "map_of (fold (\<lambda>(k, v). sm_put k v) m []) = map_of m"
    by (auto simp: smap.get_fold_put fun_eq_iff split: option.splits)
qed

lemma dec_enc_map [codec_simps]:
  assumes "map_ok m"
  shows "dec_map [] (enc_map m) = Inr m"
proof -
  have "mapR (\<lambda>v. if sig_of v \<noteq> ''{ss}'' then Inl MarshallingException else dec_entry v)
      (map (\<lambda>(k, v). DEntry (enc_string k) (enc_string v)) m) = Inr m"
    using assms
    by (induction m) (auto simp: map_ok_def dec_enc_string strc.sig_enc)
  then show ?thesis
    using assms fold_put_wf [of m] by (simp add: enc_map_def map_ok_def)
qed

interpretation mapc: codec enc_map "dec_map []" map_ok "''a{ss}''"
  by unfold_locales (simp_all add: dec_enc_map sig_enc_map)

subsection \<open>The types of the interface\<close>

record xconfig =
  xc_config_name :: string
  xc_subvolume :: string
  xc_raw :: "(string, string) smap"

text \<open>The type of a snapshot travels as an unchecked number.\<close>

record xsnapshot =
  xs_num :: u32
  xs_type :: "16 word"
  xs_pre_num :: u32
  xs_date :: "64 word"
  xs_uid :: u32
  xs_description :: string
  xs_cleanup :: string
  xs_userdata :: "(string, string) smap"

record xfile =
  xf_name :: string
  xf_status :: u32

definition enc_config :: "xconfig \<Rightarrow> dval" where
  "enc_config c = DStruct [enc_string (xc_config_name c), enc_string (xc_subvolume c), enc_map (xc_raw c)]"

definition dec_config :: "xconfig decoder" where
  "dec_config v = bindR (dec_struct v) (\<lambda>vs.
     bindR (get_value dec_string vs) (\<lambda>(a, vs).
     bindR (get_value dec_string vs) (\<lambda>(b, vs).
     bindR (get_value (dec_map []) vs) (\<lambda>(m, vs).
       Inr \<lparr>xc_config_name = a, xc_subvolume = b, xc_raw = m\<rparr>))))"

definition config_sig :: string where "config_sig = ''(ssa{ss})''"

definition enc_snapshot :: "xsnapshot \<Rightarrow> dval" where
  "enc_snapshot s = DStruct [enc_u32 (xs_num s), enc_u16 (xs_type s), enc_u32 (xs_pre_num s),
     enc_time (xs_date s), enc_u32 (xs_uid s), enc_string (xs_description s),
     enc_string (xs_cleanup s), enc_map (xs_userdata s)]"

definition dec_snapshot :: "xsnapshot decoder" where
  "dec_snapshot v = bindR (dec_struct v) (\<lambda>vs.
     bindR (get_value dec_u32 vs) (\<lambda>(num, vs).
     bindR (get_value dec_u16 vs) (\<lambda>(ty, vs).
     bindR (get_value dec_u32 vs) (\<lambda>(pre, vs).
     bindR (get_value dec_time vs) (\<lambda>(date, vs).
     bindR (get_value dec_u32 vs) (\<lambda>(uid, vs).
     bindR (get_value dec_string vs) (\<lambda>(desc, vs).
     bindR (get_value dec_string vs) (\<lambda>(clean, vs).
     bindR (get_value (dec_map []) vs) (\<lambda>(ud, vs).
       Inr \<lparr>xs_num = num, xs_type = ty, xs_pre_num = pre, xs_date = date, xs_uid = uid,
            xs_description = desc, xs_cleanup = clean, xs_userdata = ud\<rparr>)))))))))"

definition snapshot_sig :: string where "snapshot_sig = ''(uquxussa{ss})''"

definition enc_file :: "xfile \<Rightarrow> dval" where
  "enc_file f = DStruct [enc_string (xf_name f), enc_u32 (xf_status f)]"

definition dec_file :: "xfile decoder" where
  "dec_file v = bindR (dec_struct v) (\<lambda>vs.
     bindR (get_value dec_string vs) (\<lambda>(n, vs).
     bindR (get_value dec_u32 vs) (\<lambda>(s, vs). Inr \<lparr>xf_name = n, xf_status = s\<rparr>)))"

definition file_sig :: string where "file_sig = ''(su)''"

definition config_ok :: "xconfig \<Rightarrow> bool" where
  "config_ok c \<longleftrightarrow> no_nul (xc_config_name c) \<and> no_nul (xc_subvolume c) \<and> map_ok (xc_raw c)"

definition snapshot_ok :: "xsnapshot \<Rightarrow> bool" where
  "snapshot_ok s \<longleftrightarrow> no_nul (xs_description s) \<and> no_nul (xs_cleanup s) \<and> map_ok (xs_userdata s)"

lemmas get_basic = u16c.get_enc u32c.get_enc timec.get_enc strc.get_enc mapc.get_enc
lemmas sig_basic = u16c.sig_enc u32c.sig_enc timec.sig_enc strc.sig_enc mapc.sig_enc

interpretation configc: codec enc_config dec_config config_ok config_sig
proof unfold_locales
  show "config_ok x \<Longrightarrow> dec_config (enc_config x) = Inr x" for x
    by (simp add: dec_config_def enc_config_def config_ok_def get_basic del: get_value.simps)
  show "sig_of (enc_config x) = config_sig" for x
    by (simp add: enc_config_def config_sig_def sig_basic)
qed

interpretation snapshotc: codec enc_snapshot dec_snapshot snapshot_ok snapshot_sig
proof unfold_locales
  show "snapshot_ok x \<Longrightarrow> dec_snapshot (enc_snapshot x) = Inr x" for x
    by (simp add: dec_snapshot_def enc_snapshot_def snapshot_ok_def get_basic del: get_value.simps)
  show "sig_of (enc_snapshot x) = snapshot_sig" for x
    by (simp add: enc_snapshot_def snapshot_sig_def sig_basic)
qed

interpretation filec: codec enc_file dec_file "\<lambda>f. no_nul (xf_name f)" file_sig
proof unfold_locales
  show "no_nul (xf_name x) \<Longrightarrow> dec_file (enc_file x) = Inr x" for x
    by (simp add: dec_file_def enc_file_def get_basic del: get_value.simps)
  show "sig_of (enc_file x) = file_sig" for x
    by (simp add: enc_file_def file_sig_def sig_basic)
qed

subsection \<open>Round trips\<close>

text \<open>A string sent with \<open>Hoho::escape\<close> consists of 7 bit characters only (so that it is valid
  on the bus whatever bytes a file name has) and \<open>Hihi::unescape\<close> gives the string back.\<close>

theorem strings_survive_the_bus:
  "unescape (escape s) = Inr s \<and> (\<exists>t. escape s = t \<and> list_all (\<lambda>c. of_char c < (128::nat)) t)"
  using unescape_escape [of s] escape_ascii [of _ s] by (fastforce simp: list_all_iff)

text \<open>C39. The list of snapshots the server appends to a \<open>ListSnapshots\<close> reply has the signature the
  introspection data declares, and the client's \<open>hihi >> list<XSnapshot>\<close> reads back exactly that
  list, leaving what follows it in the message to the next extraction, for all descriptions, cleanup
  algorithms and userdata without a NUL character.\<close>

theorem snapshots_survive_the_bus:
  assumes "list_all snapshot_ok xs"
  shows "get_value (dec_array snapshot_sig dec_snapshot)
       (enc_array snapshot_sig enc_snapshot xs # rest) = Inr (xs, rest)
     \<and> sig_of (enc_array snapshot_sig enc_snapshot xs) = ''a(uquxussa{ss})''"
  using assms snapshotc.dec_array_enc_array [of xs] snapshotc.sig_array [of xs]
  by (simp add: list_all_iff snapshot_sig_def)

theorem snapshots_survive_the_bus_witness:
  "\<exists>xs. length xs = 2 \<and> get_value (dec_array snapshot_sig dec_snapshot)
       (enc_array snapshot_sig enc_snapshot xs # [DBool True]) = Inr (xs, [DBool True])"
proof -
  let ?s = "\<lparr>xs_num = 1, xs_type = 1, xs_pre_num = 0, xs_date = 1338000000, xs_uid = 0,
     xs_description = [CHR 0xFC, CHR 0x5C, CHR ''x''], xs_cleanup = ''number'',
     xs_userdata = [(''bootloader'', ''yes''), (''important'', [CHR 0xE9])]\<rparr>"
  let ?t = "?s\<lparr>xs_num := 2, xs_type := 2, xs_pre_num := 1\<rparr>"
  have "list_all snapshot_ok [?s, ?t]" by code_simp
  then show ?thesis
    using snapshots_survive_the_bus [of "[?s, ?t]" "[DBool True]"] by (intro exI [of _ "[?s, ?t]"]) simp
qed

text \<open>The files of a comparison and the configurations are read back as they were sent; a
  status bit field is transmitted unchanged.\<close>

theorem files_and_configs_survive_the_bus:
  assumes "list_all (\<lambda>f. no_nul (xf_name f)) fs" "list_all config_ok cs"
  shows "get_value (dec_array file_sig dec_file) (enc_array file_sig enc_file fs # rest) = Inr (fs, rest)"
    "get_value (dec_array config_sig dec_config) (enc_array config_sig enc_config cs # rest) = Inr (cs, rest)"
  using assms filec.dec_array_enc_array [of fs] configc.dec_array_enc_array [of cs]
  by (simp_all add: list_all_iff)

end
