(* ===== verification/Steps.thy ===== *)
theory Steps
  imports Prelude
begin

text \<open>
  Steps of a program that has a state and may throw: a function from the state to a result and
  the new state.  What is thrown is an exception of the library, or whatever else ends a program.  \<open>bindS\<close> is sequencing, \<open>catchS\<close> a \<open>try\<close> block whose handler sees the state as
  it was when the exception was thrown (nothing is rolled back), \<open>foreachS\<close> a loop over a
  container.  \<open>keeps P m\<close> states that \<open>m\<close> preserves \<open>P\<close>, whether it returns or throws; its rules
  are in the collection \<open>keeps\<close>.
\<close>

named_theorems keeps \<open>preservation of a predicate by the combinators\<close>

type_synonym ('s, 'e, 'a) gstep = "'s \<Rightarrow> ('e + 'a) \<times> 's"
type_synonym ('s, 'a) step = "('s, exn, 'a) gstep"

definition retS :: "'a \<Rightarrow> ('s, 'e, 'a) gstep" where
  "retS a s = (Inr a, s)"

definition throwS :: "'e \<Rightarrow> ('s, 'e, 'a) gstep" where
  "throwS e s = (Inl e, s)"

definition bindS :: "('s, 'e, 'a) gstep \<Rightarrow> ('a \<Rightarrow> ('s, 'e, 'b) gstep) \<Rightarrow> ('s, 'e, 'b) gstep" where
  "bindS m f s = (case m s of (Inl e, s') \<Rightarrow> (Inl e, s') | (Inr a, s') \<Rightarrow> f a s')"

abbreviation thenS :: "('s, 'e, 'a) gstep \<Rightarrow> ('s, 'e, 'b) gstep \<Rightarrow> ('s, 'e, 'b) gstep" where
  "thenS m n \<equiv> bindS m (\<lambda>_. n)"

definition catchS :: "('s, 'e, 'a) gstep \<Rightarrow> ('e \<Rightarrow> ('s, 'f, 'a) gstep) \<Rightarrow> ('s, 'f, 'a) gstep" where
  "catchS m h s = (case m s of (Inl e, s') \<Rightarrow> h e s' | (Inr a, s') \<Rightarrow> (Inr a, s'))"

definition getS :: "('s \<Rightarrow> 'a) \<Rightarrow> ('s, 'e, 'a) gstep" where
  "getS f s = (Inr (f s), s)"

definition modifyS :: "('s \<Rightarrow> 's) \<Rightarrow> ('s, 'e, unit) gstep" where
  "modifyS f s = (Inr (), f s)"

definition liftS :: "'e + 'a \<Rightarrow> ('s, 'e, 'a) gstep" where
  "liftS r s = (r, s)"

definition whenS :: "bool \<Rightarrow> ('s, 'e, unit) gstep \<Rightarrow> ('s, 'e, unit) gstep" where
  "whenS b m = (if b then m else retS ())"

definition throw_ifS :: "bool \<Rightarrow> 'e \<Rightarrow> ('s, 'e, unit) gstep" where
  "throw_ifS b e = (if b then throwS e else retS ())"

fun foreachS :: "('a \<Rightarrow> ('s, 'e, unit) gstep) \<Rightarrow> 'a list \<Rightarrow> ('s, 'e, unit) gstep" where
  "foreachS f [] = retS ()"
| "foreachS f (x # xs) = thenS (f x) (foreachS f xs)"

lemma step_simps [simp, result_simps]:
  "retS a s = (Inr a, s)"
  "throwS e s = (Inl e, s)"
  "getS g s = (Inr (g s), s)"
  "modifyS f s = (Inr (), f s)"
  "liftS r s = (r, s)"
  by (simp_all add: retS_def throwS_def getS_def modifyS_def liftS_def)

lemma bindS_simps [simp]:
  "m s = (Inr a, s') \<Longrightarrow> bindS m f s = f a s'"
  "m s = (Inl e, s') \<Longrightarrow> bindS m f s = (Inl e, s')"
  by (simp_all add: bindS_def)

lemma catchS_simps [simp]:
  "m s = (Inr a, s') \<Longrightarrow> catchS m h s = (Inr a, s')"
  "m s = (Inl e, s') \<Longrightarrow> catchS m h s = h e s'"
  by (simp_all add: catchS_def)

lemma bindS_step_simps [simp]:
  "bindS (retS a1) f1 = f1 a1"
  "bindS (throwS e) f2 = throwS e"
  "bindS (getS g) f3 s = f3 (g s) s"
  "bindS (modifyS h) f4 s = f4 () (h s)"
  "bindS (liftS (Inr a5)) f5 = f5 a5"
  "bindS (liftS (Inl e)) f6 = throwS e"
  by (auto simp: bindS_def fun_eq_iff)

lemma bindS_assoc: "bindS (bindS m f) g = bindS m (\<lambda>a. bindS (f a) g)"
  by (auto simp: bindS_def fun_eq_iff split: prod.splits sum.splits)

lemma whenS_simps [simp]: "whenS True m = m" "whenS False m = retS ()"
  by (simp_all add: whenS_def)

lemma throw_ifS_simps [simp]: "throw_ifS True e = throwS e" "throw_ifS False e = retS ()"
  by (simp_all add: throw_ifS_def)

text \<open>When a sequence returns, each of its parts did.\<close>

lemma bindS_Inr:
  "bindS m f s = (Inr b, s') \<longleftrightarrow> (\<exists>a s1. m s = (Inr a, s1) \<and> f a s1 = (Inr b, s'))"
  by (auto simp: bindS_def split: prod.splits sum.splits)

lemma throw_ifS_Inr: "throw_ifS b e s = (Inr u, s') \<longleftrightarrow> \<not> b \<and> s' = s"
  by (auto simp: throw_ifS_def)

subsection \<open>Preservation\<close>

definition keeps :: "('s \<Rightarrow> bool) \<Rightarrow> ('s, 'e, 'a) gstep \<Rightarrow> bool" where
  "keeps P m \<longleftrightarrow> (\<forall>s. P s \<longrightarrow> P (snd (m s)))"

lemma keepsI [intro?]: "(\<And>s. P s \<Longrightarrow> P (snd (m s))) \<Longrightarrow> keeps P m"
  by (simp add: keeps_def)

lemma keepsD: "keeps P m \<Longrightarrow> P s \<Longrightarrow> m s = (r, s') \<Longrightarrow> P s'"
  by (metis keeps_def snd_conv)

lemma keeps_basic [keeps]:
  "keeps P (retS a)" "keeps P (throwS e)" "keeps P (getS g)" "keeps P (liftS r)"
  "keeps P (throw_ifS b e)"
  by (auto simp: keeps_def throw_ifS_def)

lemma keeps_bind [keeps]:
  assumes "keeps P m" "\<And>a. keeps P (f a)"
  shows "keeps P (bindS m f)"
  using assms by (fastforce simp: keeps_def bindS_def split: prod.splits sum.splits)

lemma keeps_catch [keeps]:
  assumes "keeps P m" "\<And>e. keeps P (h e)"
  shows "keeps P (catchS m h)"
  using assms by (fastforce simp: keeps_def catchS_def split: prod.splits sum.splits)

lemma keeps_when [keeps]: "(b \<Longrightarrow> keeps P m) \<Longrightarrow> keeps P (whenS b m)"
  by (auto simp: whenS_def keeps_basic)

lemma keeps_if [keeps]:
  "(b \<Longrightarrow> keeps P m) \<Longrightarrow> (\<not> b \<Longrightarrow> keeps P n) \<Longrightarrow> keeps P (if b then m else n)"
  by simp

lemma keeps_option [keeps]:
  "(x = None \<Longrightarrow> keeps P m) \<Longrightarrow> (\<And>a. x = Some a \<Longrightarrow> keeps P (f a)) \<Longrightarrow>
   keeps P (case x of None \<Rightarrow> m | Some a \<Rightarrow> f a)"
  by (auto split: option.splits)

lemma keeps_foreach [keeps]: "(\<And>x. x \<in> set xs \<Longrightarrow> keeps P (f x)) \<Longrightarrow> keeps P (foreachS f xs)"
  by (induction xs) (auto intro!: keeps_basic keeps_bind)

lemma keeps_modify: "(\<And>s. P s \<Longrightarrow> P (f s)) \<Longrightarrow> keeps P (modifyS f)"
  by (simp add: keeps_def)

end
