(* ===== verification/XmlFile.thy ===== *)
theory XmlFile
  imports Strings
begin

text \<open>
  The documents of \<open>snapper/XmlFile.cc\<close> and \<open>snapper/XmlFile.h\<close>.  A node list is a list of
  siblings: the \<open>next\<close> pointer is the tail of the list, the \<open>children\<close> pointer the list of an
  element (\<open>NULL\<close> when it is empty).  Parsing and printing are libxml2: they are the two fields of
  \<open>xml_lib\<close>, an argument of everything that reads or writes a file.  What the code relies on is
  \<open>xml_faithful\<close>: printing a document and parsing it (\<open>XML_PARSE_NOBLANKS\<close>) gives it back up to
  empty text nodes.
\<close>

datatype xnode =
    Elem string "xnode list"
  | Text string
  | Comment string

fun xname :: "xnode \<Rightarrow> string" where
  "xname (Elem n cs) = n"
| "xname (Text t) = ''text''"
| "xname (Comment t) = ''comment''"

fun xchildren :: "xnode \<Rightarrow> xnode list" where
  "xchildren (Elem n cs) = cs"
| "xchildren _ = []"

fun xcontent :: "xnode \<Rightarrow> string option" where
  "xcontent (Elem n cs) = None"
| "xcontent (Text t) = Some t"
| "xcontent (Comment t) = Some t"

definition is_element :: "xnode \<Rightarrow> bool" where
  "is_element x = (case x of Elem n cs \<Rightarrow> True | _ \<Rightarrow> False)"

fun getChildNode :: "xnode list \<Rightarrow> string \<Rightarrow> xnode list" where
  "getChildNode [] name = []"
| "getChildNode (cur # rest) name =
     (if name = xname cur \<and> xchildren cur \<noteq> [] then xchildren cur else getChildNode rest name)"

fun getChildNodes :: "xnode list \<Rightarrow> string \<Rightarrow> xnode list list" where
  "getChildNodes [] name = []"
| "getChildNodes (cur # rest) name =
     (if is_element cur \<and> name = xname cur \<and> xchildren cur \<noteq> []
      then xchildren cur # getChildNodes rest name else getChildNodes rest name)"

fun getChildValue :: "xnode list \<Rightarrow> string \<Rightarrow> string option" where
  "getChildValue [] name = None"
| "getChildValue (cur # rest) name =
     (if is_element cur \<and> name = xname cur then
        Some (case xchildren cur of
            [] \<Rightarrow> []
          | c # cs \<Rightarrow> (case xcontent c of None \<Rightarrow> [] | Some t \<Rightarrow> t))
      else getChildValue rest name)"

text \<open>The template for numbers: \<open>istr >> value\<close> on the value of the node.  A value of white space
  only leaves the variable as it was.\<close>

definition read_into :: "string \<Rightarrow> u32 \<Rightarrow> u32" where
  "read_into s old = (if list_all is_space s then old else fst (read_uint s))"

definition getChildUint :: "xnode list \<Rightarrow> string \<Rightarrow> u32 \<Rightarrow> u32 option" where
  "getChildUint node name old = map_option (\<lambda>s. read_into s old) (getChildValue node name)"

definition setChildValue :: "string \<Rightarrow> string \<Rightarrow> xnode" where
  "setChildValue name value = Elem name [Text value]"

definition setChildUint :: "string \<Rightarrow> u32 \<Rightarrow> xnode" where
  "setChildUint name value = setChildValue name (decString (unat value))"

record xml_lib =
  xml_dump :: "xnode \<Rightarrow> string"
  xml_parse :: "string \<Rightarrow> xnode option"

text \<open>What printing and parsing does to a document: text nodes without a character vanish.\<close>

fun xnorm :: "xnode \<Rightarrow> xnode" where
  "xnorm (Elem n cs) = Elem n (map xnorm (filter (\<lambda>c. c \<noteq> Text []) cs))"
| "xnorm x = x"

definition xml_faithful :: "xml_lib \<Rightarrow> xnode \<Rightarrow> bool" where
  "xml_faithful X d \<longleftrightarrow> xml_parse X (xml_dump X d) = Some (xnorm d)"

lemma read_into_decString [simp]: "read_into (decString (unat w)) old = w"
proof -
  have "\<not> list_all is_space (decString (unat w))"
    using hd_decString_digit [of "unat w"] digit_not_space
    by (cases "decString (unat w)") (auto simp del: decString.simps)
  then show ?thesis
    using read_uint_decString [of "[]" w] by (simp add: read_into_def)
qed

lemma xnorm_setChildValue: "xnorm (setChildValue n v) = Elem n (if v = [] then [] else [Text v])"
  by (simp add: setChildValue_def)

lemma xnorm_setChildValue_simps [simp]:
  "is_element (xnorm (setChildValue n v))"
  "xname (xnorm (setChildValue n v)) = n"
  "xchildren (xnorm (setChildValue n v)) = (if v = [] then [] else [Text v])"
  by (simp_all add: xnorm_setChildValue is_element_def)

lemma getChildValue_head [simp]:
  "getChildValue (xnorm (setChildValue n v) # rest) n = Some v"
  by simp

lemma getChildValue_skip [simp]:
  "n \<noteq> m \<Longrightarrow> getChildValue (xnorm (setChildValue m v) # rest) n = getChildValue rest n"
  by simp

lemma getChildNodes_skip [simp]:
  "n \<noteq> m \<Longrightarrow> getChildNodes (xnorm (setChildValue m v) # rest) n = getChildNodes rest n"
  by simp

lemma setChildValue_not_Text [simp]: "setChildValue n v \<noteq> Text t" "Text t \<noteq> setChildValue n v"
  by (simp_all add: setChildValue_def)

end
