(* ===== verification/Datetime.thy ===== *)
theory Datetime
  imports Strings
begin

text \<open>
  \<open>datetime\<close> and \<open>scan_datetime\<close> of \<open>snapper/AppUtil.cc\<close> in the form in which the snapshot
  information uses them: \<open>utc\<close> and \<open>classic\<close> set, so that a time is printed as
  \<open>%F %T\<close> of its broken-down UTC time and read back by \<open>strptime\<close> and \<open>timegm\<close>.  The four C
  library functions are executable functions on the proleptic Gregorian calendar.
  A \<open>time_t\<close> is an \<open>int\<close>, \<open>(time_t)(-1)\<close> the error value of \<open>scan_datetime\<close>.
\<close>

subsection \<open>The calendar\<close>

record tm =
  tm_year :: int
  tm_mon :: nat
  tm_mday :: nat
  tm_hour :: nat
  tm_min :: nat
  tm_sec :: nat

definition leap :: "nat \<Rightarrow> bool" where
  "leap y \<longleftrightarrow> y mod 4 = 0 \<and> (y mod 100 \<noteq> 0 \<or> y mod 400 = 0)"

definition year_len :: "nat \<Rightarrow> nat" where
  "year_len y = (if leap y then 366 else 365)"

definition month_lens :: "nat \<Rightarrow> nat list" where
  "month_lens y = [31, if leap y then 29 else 28, 31, 30, 31, 30, 31, 31, 30, 31, 30, 31]"

text \<open>Days before the year \<open>y\<close> of a 400 year cycle, and the year of a day of the cycle.\<close>

primrec days_before :: "nat \<Rightarrow> nat" where
  "days_before 0 = 0"
| "days_before (Suc y) = days_before y + year_len y"

function year_of :: "nat \<Rightarrow> nat \<Rightarrow> nat \<times> nat" where
  "year_of d y = (if d < year_len y then (y, d) else year_of (d - year_len y) (Suc y))"
  by auto
termination by (relation "measure fst") (auto simp: year_len_def)

declare year_of.simps [simp del]

fun month_of :: "nat \<Rightarrow> nat list \<Rightarrow> nat \<times> nat" where
  "month_of d [] = (0, d)"
| "month_of d (m # ms) = (if d < m then (0, d)
     else (case month_of (d - m) ms of (i, r) \<Rightarrow> (Suc i, r)))"

text \<open>719528 days lie between 0000-01-01 and 1970-01-01, a cycle of 400 years has 146097.\<close>

definition gmtime :: "int \<Rightarrow> tm" where
  "gmtime t =
     (let days = t div 86400 + 719528; secs = nat (t mod 86400);
          era = days div 146097;
          (y, yday) = year_of (nat (days mod 146097)) 0;
          (m, d) = month_of yday (month_lens y)
      in \<lparr>tm_year = 400 * era + int y, tm_mon = m, tm_mday = Suc d,
          tm_hour = secs div 3600, tm_min = secs mod 3600 div 60, tm_sec = secs mod 60\<rparr>)"

definition timegm :: "tm \<Rightarrow> int" where
  "timegm x =
     (let era = tm_year x div 400; y = nat (tm_year x mod 400) in
      (era * 146097 + int (days_before y) - 719528
        + int (sum_list (take (tm_mon x) (month_lens y))) + int (tm_mday x) - 1) * 86400
      + int (tm_hour x) * 3600 + int (tm_min x) * 60 + int (tm_sec x))"

lemma days_before_formula:
  "days_before y + (y + 99) div 100 = 365 * y + (y + 3) div 4 + (y + 399) div 400"
proof (induction y)
  case (Suc y)
  have step: "(Suc y + k) div Suc k = (y + k) div Suc k + (if y mod Suc k = 0 then 1 else 0)" for k
    using div_Suc [of "y + k" "Suc k"] mod_add_self2 [of y "Suc k"] by (auto split: if_splits)
  note d4 = step [of 3, simplified] and d100 = step [of 99, simplified]
    and d400 = step [of 399, simplified]
  have m: "y mod 400 = 0 \<Longrightarrow> y mod 100 = 0" "y mod 100 = 0 \<Longrightarrow> y mod 4 = 0"
    using mod_mod_cancel [of 100 400 y] mod_mod_cancel [of 4 100 y] by auto
  show ?case
    using Suc m d4 d100 d400 by (auto simp: year_len_def leap_def split: if_splits)
qed simp

lemma days_before_400: "days_before 400 = 146097"
  using days_before_formula [of 400] by simp

lemma year_len_pos [simp]: "0 < year_len y"
  by (simp add: year_len_def)

lemma days_before_mono: "m \<le> n \<Longrightarrow> days_before m \<le> days_before n"
  by (rule lift_Suc_mono_le [of days_before]) auto

lemma year_of_correct:
  "year_of d y = (y', r) \<Longrightarrow>
     r < year_len y' \<and> days_before y + d = days_before y' + r"
proof (induction d y rule: year_of.induct)
  case (1 d y)
  show ?case
  proof (cases "d < year_len y")
    case True
    then show ?thesis using 1(2) by (subst (asm) year_of.simps) auto
  next
    case False
    then have "year_of (d - year_len y) (Suc y) = (y', r)"
      using 1(2) by (subst (asm) year_of.simps) auto
    then show ?thesis using 1(1) False by auto
  qed
qed

lemma year_of_cycle:
  assumes "year_of d 0 = (y, r)" "d < 146097"
  shows "y < 400"
proof (rule ccontr)
  assume "\<not> y < 400"
  then have "days_before 400 \<le> days_before y" by (intro days_before_mono) simp
  moreover have "days_before y + r = d"
    using year_of_correct [OF assms(1)] by simp
  ultimately show False using assms(2) by (simp add: days_before_400)
qed

lemma month_of_correct:
  "month_of d ms = (i, r) \<Longrightarrow> d < sum_list ms \<Longrightarrow>
     i < length ms \<and> r < ms ! i \<and> d = sum_list (take i ms) + r"
proof (induction d ms arbitrary: i r rule: month_of.induct)
  case (2 d m ms)
  show ?case
  proof (cases "d < m")
    case False
    then obtain j where j: "month_of (d - m) ms = (j, r)" "i = Suc j"
      using 2(2) by (auto split: prod.splits)
    then have "j < length ms \<and> r < ms ! j \<and> d - m = sum_list (take j ms) + r"
      using 2 False by (intro 2(1)) auto
    then show ?thesis using False j by auto
  qed (use 2 in auto)
qed simp

lemma sum_month_lens: "sum_list (month_lens y) = year_len y"
  by (simp add: month_lens_def year_len_def)

lemma month_lens_le: "i < 12 \<Longrightarrow> month_lens y ! i \<le> 31"
  by (auto simp: month_lens_def less_Suc_eq numeral_eq_Suc)

lemma length_month_lens [simp]: "length (month_lens y) = 12"
  by (simp add: month_lens_def)

text \<open>The fields of the broken-down time are in range, and \<open>timegm\<close> is its inverse.\<close>

lemma gmtime_parts:
  assumes "year_of (nat ((t div 86400 + 719528) mod 146097)) 0 = (y, yday)"
    and "month_of yday (month_lens y) = (m, d)"
  shows "y < 400" "m < 12" "d < 31"
    "int (days_before y + sum_list (take m (month_lens y)) + d)
       = (t div 86400 + 719528) mod 146097"
proof -
  let ?d = "(t div 86400 + 719528) mod 146097"
  have bound: "nat ?d < 146097" by (simp add: nat_less_iff)
  from year_of_cycle [OF assms(1) bound] show y: "y < 400" .
  from year_of_correct [OF assms(1)]
  have yd: "yday < year_len y" "days_before y + yday = nat ?d" by auto
  from month_of_correct [OF assms(2)] yd(1)
  have m: "m < 12" "d < month_lens y ! m" "yday = sum_list (take m (month_lens y)) + d"
    by (auto simp: sum_month_lens)
  show "m < 12" by (rule m(1))
  show "d < 31" using m month_lens_le [OF m(1), of y] by simp
  show "int (days_before y + sum_list (take m (month_lens y)) + d) = ?d"
    using yd m by simp
qed

lemma gmtime_ranges:
  "tm_mon (gmtime t) < 12" "1 \<le> tm_mday (gmtime t)" "tm_mday (gmtime t) \<le> 31"
  "tm_hour (gmtime t) < 24" "tm_min (gmtime t) < 60" "tm_sec (gmtime t) < 60"
proof -
  obtain y yday where y: "year_of (nat ((t div 86400 + 719528) mod 146097)) 0 = (y, yday)"
    by fastforce
  obtain m d where m: "month_of yday (month_lens y) = (m, d)" by fastforce
  note p = gmtime_parts [OF y m]
  have s: "nat (t mod 86400) < 86400" by (simp add: nat_less_iff)
  show "tm_mon (gmtime t) < 12" "1 \<le> tm_mday (gmtime t)" "tm_mday (gmtime t) \<le> 31"
    using p by (auto simp: gmtime_def Let_def y m)
  show "tm_hour (gmtime t) < 24" "tm_min (gmtime t) < 60" "tm_sec (gmtime t) < 60"
    using s by (auto simp: gmtime_def Let_def y m)
qed

lemma timegm_gmtime: "timegm (gmtime t) = t"
proof -
  let ?days = "t div 86400 + 719528"
  obtain y yday where y: "year_of (nat (?days mod 146097)) 0 = (y, yday)"
    by fastforce
  obtain m d where m: "month_of yday (month_lens y) = (m, d)" by fastforce
  note p = gmtime_parts [OF y m]
  have yr: "int y div 400 = 0" "int y mod 400 = int y"
    using p(1) by auto
  let ?s = "nat (t mod 86400)"
  have hms: "n div 3600 * 3600 + n mod 3600 div 60 * 60 + n mod 60 = n" for n :: nat
  proof -
    have "n mod 3600 = n mod 3600 div 60 * 60 + n mod 3600 mod 60" by simp
    also have "n mod 3600 mod 60 = n mod 60" by (simp add: mod_mod_cancel)
    finally show ?thesis by (metis add.assoc div_mult_mod_eq)
  qed
  have "int (?s div 3600 * 3600 + ?s mod 3600 div 60 * 60 + ?s mod 60) = t mod 86400"
    unfolding hms by simp
  then have secs: "int (?s div 3600) * 3600 + int (?s mod 3600 div 60) * 60 + int (?s mod 60) = t mod 86400"
    by (simp only: of_nat_add of_nat_mult of_nat_numeral)
  have "timegm (gmtime t) =
      ((?days div 146097) * 146097 + int (days_before y + sum_list (take m (month_lens y)) + d)
        - 719528) * 86400
        + (int (?s div 3600) * 3600 + int (?s mod 3600 div 60) * 60 + int (?s mod 60))"
    by (simp add: timegm_def gmtime_def Let_def y m yr algebra_simps)
  also have "\<dots> = t"
    unfolding secs p(4) by simp
  finally show ?thesis .
qed

subsection \<open>Printing and reading\<close>

definition pad2 :: "nat \<Rightarrow> string" where
  "pad2 n = (if n < 10 then [digit_char 0, digit_char n] else decString n)"

definition year_string :: "int \<Rightarrow> string" where
  "year_string y = (if y < 0 then CHR ''-'' # decString (nat (- y)) else decString (nat y))"

definition strftime_FT :: "tm \<Rightarrow> string" where
  "strftime_FT x = year_string (tm_year x) @ ''-'' @ pad2 (Suc (tm_mon x)) @ ''-''
     @ pad2 (tm_mday x) @ '' '' @ pad2 (tm_hour x) @ '':'' @ pad2 (tm_min x) @ '':''
     @ pad2 (tm_sec x)"

definition datetime :: "int \<Rightarrow> string" where
  "datetime t1 = strftime_FT (gmtime t1)"

text \<open>The number conversion of \<open>strptime\<close>: blanks are skipped, then at most \<open>n\<close> digits are read
  while the value can still stay in range.\<close>

fun num_loop :: "nat \<Rightarrow> nat \<Rightarrow> nat \<Rightarrow> string \<Rightarrow> nat \<times> string" where
  "num_loop 0 hi v s = (v, s)"
| "num_loop (Suc n) hi v [] = (v, [])"
| "num_loop (Suc n) hi v (c # s) =
     (if is_digit c \<and> 10 * v \<le> hi then num_loop n hi (10 * v + digit_val c) s else (v, c # s))"

definition get_number :: "nat \<Rightarrow> nat \<Rightarrow> nat \<Rightarrow> string \<Rightarrow> (nat \<times> string) option" where
  "get_number lo hi n s =
     (let s' = dropWhile (\<lambda>c. c = CHR '' '') s in
      if s' = [] \<or> \<not> is_digit (hd s') then None
      else let (v, r) = num_loop n hi 0 s' in if lo \<le> v \<and> v \<le> hi then Some (v, r) else None)"

fun get_char :: "char \<Rightarrow> string \<Rightarrow> string option" where
  "get_char c [] = None"
| "get_char c (x # s) = (if x = c then Some s else None)"

definition strptime_FT :: "string \<Rightarrow> (tm \<times> string) option" where
  "strptime_FT s =
     Option.bind (get_number 0 9999 4 s) (\<lambda>(y, s).
     Option.bind (get_char CHR ''-'' s) (\<lambda>s.
     Option.bind (get_number 1 12 2 s) (\<lambda>(m, s).
     Option.bind (get_char CHR ''-'' s) (\<lambda>s.
     Option.bind (get_number 1 31 2 s) (\<lambda>(d, s).
     (let s = dropWhile is_space s in
     Option.bind (get_number 0 23 2 s) (\<lambda>(hh, s).
     Option.bind (get_char CHR '':'' s) (\<lambda>s.
     Option.bind (get_number 0 59 2 s) (\<lambda>(mm, s).
     Option.bind (get_char CHR '':'' s) (\<lambda>s.
     Option.bind (get_number 0 61 2 s) (\<lambda>(ss, s).
       Some (\<lparr>tm_year = int y, tm_mon = m - 1, tm_mday = d, tm_hour = hh, tm_min = mm,
              tm_sec = ss\<rparr>, s))))))))))))"

definition scan_datetime :: "string \<Rightarrow> int" where
  "scan_datetime str = (case strptime_FT str of
       None \<Rightarrow> - 1
     | Some (s, p) \<Rightarrow> if p \<noteq> [] then - 1 else timegm s)"

lemma foldl_digits_ge: "v \<le> foldl (\<lambda>n c. 10 * n + digit_val c) v ds"
proof (induction ds arbitrary: v)
  case (Cons c ds)
  have "v \<le> 10 * v + digit_val c" by simp
  also have "\<dots> \<le> foldl (\<lambda>n c. 10 * n + digit_val c) (10 * v + digit_val c) ds"
    by (rule Cons.IH)
  finally show ?case by simp
qed simp

lemma num_loop_digits:
  "\<forall>c\<in>set ds. is_digit c \<Longrightarrow> length ds \<le> n \<Longrightarrow>
   rest = [] \<or> \<not> is_digit (hd rest) \<or> length ds = n \<Longrightarrow>
   foldl (\<lambda>n c. 10 * n + digit_val c) v ds \<le> hi \<Longrightarrow>
   num_loop n hi v (ds @ rest) = (foldl (\<lambda>n c. 10 * n + digit_val c) v ds, rest)"
proof (induction ds arbitrary: n v)
  case Nil
  then show ?case by (cases n; cases rest) auto
next
  case (Cons c ds)
  have "10 * v \<le> 10 * v + digit_val c" by simp
  also have "\<dots> \<le> hi"
    using Cons.prems(4) foldl_digits_ge [of "10 * v + digit_val c" ds] by simp
  finally show ?case using Cons by (cases n) auto
qed

lemma get_number_digits:
  assumes "\<forall>c\<in>set ds. is_digit c" "ds \<noteq> []" "length ds \<le> n"
    and "rest = [] \<or> \<not> is_digit (hd rest)" "digits_val ds \<le> hi" "lo \<le> digits_val ds"
  shows "get_number lo hi n (ds @ rest) = Some (digits_val ds, rest)"
proof -
  have h: "is_digit (hd ds)" using assms by (simp add: hd_in_set)
  then have "hd ds \<noteq> CHR '' ''" by (auto simp: is_digit_def)
  then have "dropWhile (\<lambda>c. c = CHR '' '') (ds @ rest) = ds @ rest"
    using assms(2) by (cases ds) auto
  then show ?thesis
    using assms h num_loop_digits [of ds n rest 0 hi]
    by (auto simp: get_number_def digits_val_def)
qed

lemma length_decString: "n < 10 ^ k \<Longrightarrow> 0 < k \<Longrightarrow> length (decString n) \<le> k"
proof (induction k arbitrary: n)
  case (Suc k)
  show ?case
  proof (cases "n < 10")
    case False
    then have "0 < k" using Suc.prems by (cases k) auto
    then have "length (decString (n div 10)) \<le> k"
      using Suc by (simp add: less_mult_imp_div_less mult.commute)
    then show ?thesis using False by (subst decString.simps) auto
  qed (subst decString.simps, auto)
qed simp

lemma pad2_props:
  assumes "n < 100"
  shows "\<forall>c\<in>set (pad2 n). is_digit c" "pad2 n \<noteq> []" "length (pad2 n) \<le> 2" "digits_val (pad2 n) = n"
  using assms decString_digits length_decString [of n 2] digits_val_decString [of n]
  by (auto simp: pad2_def digits_val_def)

lemmas get_number_pad2 =
  get_number_digits [OF pad2_props(1) pad2_props(2) pad2_props(3), unfolded pad2_props(4)]

lemma get_number_year:
  assumes "y \<le> 9999" "rest = [] \<or> \<not> is_digit (hd rest)"
  shows "get_number 0 9999 4 (decString y @ rest) = Some (y, rest)"
  using get_number_digits [of "decString y" 4 rest 9999 0] assms decString_digits
    length_decString [of y 4] by simp

lemma not_digit_sep [simp]:
  "\<not> is_digit CHR ''-''" "\<not> is_digit CHR '':''" "\<not> is_digit CHR '' ''"
  by (auto simp: is_digit_def)

lemma is_space_blank [simp]: "is_space CHR '' ''"
  by (simp add: is_space_def)

lemma strptime_strftime:
  assumes "0 \<le> tm_year x" "tm_year x \<le> 9999" "tm_mon x < 12" "1 \<le> tm_mday x"
    "tm_mday x \<le> 31" "tm_hour x < 24" "tm_min x < 60" "tm_sec x < 60"
  shows "strptime_FT (strftime_FT x) = Some (x, [])"
proof -
  have nospace: "dropWhile is_space (pad2 n @ s) = pad2 n @ s" if "n < 100" for n s
    using pad2_props(1,2) [OF that] by (cases "pad2 n") auto
  have last: "get_number 0 61 2 (pad2 (tm_sec x)) = Some (tm_sec x, [])"
    using get_number_pad2 [of "tm_sec x" "[]" 61 0] pad2_props(4) assms by simp
  show ?thesis
    using assms last
    by (simp add: strptime_FT_def strftime_FT_def year_string_def get_number_year nospace
        get_number_pad2 pad2_props(4))
qed

lemma gmtime_year:
  assumes "- 62167219200 \<le> t" "t < 253402300800"
  shows "0 \<le> tm_year (gmtime t)" "tm_year (gmtime t) \<le> 9999"
proof -
  let ?days = "t div 86400 + 719528"
  obtain y yday where y: "year_of (nat (?days mod 146097)) 0 = (y, yday)"
    by fastforce
  obtain m d where m: "month_of yday (month_lens y) = (m, d)" by fastforce
  have "y < 400" by (rule gmtime_parts(1) [OF y m])
  moreover have "- 719528 \<le> t div 86400" "t div 86400 < 2932897"
    using assms by linarith+
  then have "0 \<le> ?days div 146097" "?days div 146097 < 25"
    by linarith+
  ultimately show "0 \<le> tm_year (gmtime t)" "tm_year (gmtime t) \<le> 9999"
    by (simp_all add: gmtime_def Let_def y m)
qed

text \<open>A date of the years 0 to 9999 that is printed is read back as the same time.\<close>

lemma scan_datetime_datetime:
  assumes "- 62167219200 \<le> t" "t < 253402300800"
  shows "scan_datetime (datetime t) = t"
  using strptime_strftime [of "gmtime t"] gmtime_year [OF assms] gmtime_ranges [of t]
  by (simp add: scan_datetime_def datetime_def timegm_gmtime)

end
