(* ===== verification/Snapshot.thy ===== *)
theory Snapshot
  imports Steps XmlFile Datetime Status "HOL-Library.AList"
begin

text \<open>
  One snapshot (\<open>snapper/Snapshot.h\<close>, \<open>snapper/Snapshot.cc\<close>), the directory of information files it
  is kept in, and the virtual functions of \<open>snapper/Filesystem.h\<close> as a record of functions.

  The world is what the code finds on disk: the entries of the directory \<open>.snapshots\<close> in
  \<open>readdir\<close> order, each a directory with its entries or something else; the block devices and
  snapshot files elsewhere; the mounted file systems; the clock; and a script of faults: each system call that
  may fail for reasons outside the model takes one element of it, and fails when it is \<open>True\<close>.
  Theorems quantify over the script, so they cover every pattern of failures.
\<close>

datatype dnode = Reg string | Subvol | PlainDir

datatype ientry = IDir "(string \<times> dnode) list" | INonDir

record mtab_entry =
  mt_device :: string
  mt_dir :: string
  mt_type :: string
  mt_options :: "string list"

record world =
  infos_exist :: bool
  infos :: "(string \<times> ientry) list"
  devices :: "string list"
  mounts :: "mtab_entry list"
  clock :: int
  mktemp_value :: "64 word"
  faults :: "bool list"

record snapshot =
  sn_type :: snapshot_type
  sn_num :: u32
  sn_date :: int
  sn_uid :: u32
  sn_pre_num :: u32
  sn_description :: string
  sn_cleanup :: string
  sn_userdata :: "(string, string) smap"
  sn_info_modified :: bool
  sn_mount_checked :: bool
  sn_mount_user_request :: bool
  sn_mount_use_count :: u32

definition new_snapshot :: "snapshot_type \<Rightarrow> u32 \<Rightarrow> int \<Rightarrow> snapshot" where
  "new_snapshot type num date =
     \<lparr>sn_type = type, sn_num = num, sn_date = date, sn_uid = 0, sn_pre_num = 0,
      sn_description = [], sn_cleanup = [], sn_userdata = [], sn_info_modified = False,
      sn_mount_checked = False, sn_mount_user_request = False, sn_mount_use_count = 0\<rparr>"

definition isCurrent :: "snapshot \<Rightarrow> bool" where
  "isCurrent s \<longleftrightarrow> sn_num s = 0"

text \<open>The virtual functions of a \<open>Filesystem\<close> that snapshots use.\<close>

record fsops =
  fo_createConfig :: "(world, unit) step"
  fo_deleteConfig :: "(world, unit) step"
  fo_snapshotDir :: "u32 \<Rightarrow> string"
  fo_createSnapshot :: "u32 \<Rightarrow> (world, unit) step"
  fo_deleteSnapshot :: "u32 \<Rightarrow> (world, unit) step"
  fo_isSnapshotMounted :: "u32 \<Rightarrow> (world, bool) step"
  fo_mountSnapshot :: "u32 \<Rightarrow> (world, unit) step"
  fo_umountSnapshot :: "u32 \<Rightarrow> (world, unit) step"
  fo_checkSnapshot :: "u32 \<Rightarrow> world \<Rightarrow> bool"

subsection \<open>Directories\<close>

definition sys_ok :: "(world, bool) step" where
  "sys_ok w = (case faults w of [] \<Rightarrow> (Inr True, w) | b # bs \<Rightarrow> (Inr (\<not> b), w\<lparr>faults := bs\<rparr>))"

definition sys :: "exn \<Rightarrow> (world, unit) step" where
  "sys e = bindS sys_ok (\<lambda>ok. throw_ifS (\<not> ok) e)"

definition openInfosDir :: "(world, unit) step" where
  "openInfosDir = sys IOErrorException"

text \<open>\<open>SDir(infos_dir, name)\<close>: the entries of a directory below \<open>.snapshots\<close>.\<close>

definition open_sub :: "string \<Rightarrow> (world, (string \<times> dnode) list) step" where
  "open_sub name = thenS (sys IOErrorException) (bindS (getS infos) (\<lambda>is.
     case map_of is name of
       Some (IDir fs) \<Rightarrow> retS fs
     | _ \<Rightarrow> throwS IOErrorException))"

definition openInfoDir :: "snapshot \<Rightarrow> (world, string) step" where
  "openInfoDir s =
     (if isCurrent s then throwS IllegalSnapshotException
      else thenS openInfosDir
        (let name = decString (unat (sn_num s)) in thenS (open_sub name) (retS name)))"

definition put_entries :: "string \<Rightarrow> (string \<times> dnode) list \<Rightarrow> world \<Rightarrow> world" where
  "put_entries name fs w = w\<lparr>infos := AList.update name (IDir fs) (infos w)\<rparr>"

definition dir_entries :: "string \<Rightarrow> world \<Rightarrow> (string \<times> dnode) list" where
  "dir_entries name w = (case map_of (infos w) name of Some (IDir fs) \<Rightarrow> fs | _ \<Rightarrow> [])"

definition put_in :: "string \<Rightarrow> string \<Rightarrow> dnode \<Rightarrow> world \<Rightarrow> world" where
  "put_in dir name x w = put_entries dir (AList.update name x (dir_entries dir w)) w"

definition remove_in :: "string \<Rightarrow> string \<Rightarrow> world \<Rightarrow> world" where
  "remove_in dir name w = put_entries dir (AList.delete name (dir_entries dir w)) w"

text \<open>\<open>unlink\<close> of a file in an open directory; the callers ignore the result.\<close>

definition unlink_in :: "string \<Rightarrow> string \<Rightarrow> (world, unit) step" where
  "unlink_in dir name = bindS sys_ok (\<lambda>ok. bindS (getS (dir_entries dir)) (\<lambda>fs.
     case map_of fs name of
       Some (Reg c) \<Rightarrow> whenS ok (modifyS (remove_in dir name))
     | _ \<Rightarrow> retS ()))"

text \<open>\<open>unlink (name, AT_REMOVEDIR)\<close> in \<open>.snapshots\<close>: only an empty directory goes.\<close>

definition rmdir_info :: "string \<Rightarrow> (world, unit) step" where
  "rmdir_info name = bindS sys_ok (\<lambda>ok. bindS (getS infos) (\<lambda>is.
     whenS (ok \<and> map_of is name = Some (IDir [])) (modifyS (\<lambda>w. w\<lparr>infos := AList.delete name is\<rparr>))))"

subsection \<open>Temporary names\<close>

definition mktemp_letters :: string where
  "mktemp_letters = ''abcdefghijklmnopqrstuvwxyzABCDEFGHIJKLMNOPQRSTUVWXYZ0123456789''"

fun mktemp_suffix :: "nat \<Rightarrow> 64 word \<Rightarrow> string" where
  "mktemp_suffix 0 v = []"
| "mktemp_suffix (Suc n) v = mktemp_letters ! unat (v mod 62) # mktemp_suffix n (v div 62)"

definition mktemp_name :: "string \<Rightarrow> 64 word \<Rightarrow> string" where
  "mktemp_name template v = take (length template - 6) template @ mktemp_suffix 6 v"

text \<open>The attempts of \<open>mktemp\<close>: \<open>open\<close> with \<open>O_EXCL\<close> fails for a name that exists, and then the
  next value is tried.\<close>

fun mktemp_loop :: "nat \<Rightarrow> string \<Rightarrow> string list \<Rightarrow> 64 word \<Rightarrow> string option \<times> 64 word" where
  "mktemp_loop attempts template used v =
     (if attempts = 0 then (None, v)
      else if mktemp_name template v \<in> set used
      then mktemp_loop (attempts - 1) template used (v + 7777)
      else (Some (mktemp_name template v), v))"

declare mktemp_loop.simps [simp del]

text \<open>\<open>mktemp_value\<close> stands for the static \<open>value\<close> after the time of day was added to it.\<close>

definition mktemp :: "string \<Rightarrow> string \<Rightarrow> (world, string option) step" where
  "mktemp dir template = bindS sys_ok (\<lambda>ok. bindS (getS (\<lambda>w.
       mktemp_loop (62 * 62 * 62) template (map fst (dir_entries dir w)) (mktemp_value w))) (\<lambda>(r, v').
     thenS (modifyS (\<lambda>w. w\<lparr>mktemp_value := v'\<rparr>))
       (case r of
          None \<Rightarrow> retS None
        | Some name \<Rightarrow>
            if ok then thenS (modifyS (put_in dir name (Reg []))) (retS (Some name)) else retS None)))"

subsection \<open>The information file\<close>

definition info_nodes :: "snapshot \<Rightarrow> xnode list" where
  "info_nodes s =
     [setChildValue ''type'' (type_names ! enum_num (sn_type s)),
      setChildUint ''num'' (sn_num s),
      setChildValue ''date'' (datetime (sn_date s)),
      setChildUint ''uid'' (sn_uid s)]
     @ (if sn_type s = POST then [setChildUint ''pre_num'' (sn_pre_num s)] else [])
     @ (if sn_description s \<noteq> [] then [setChildValue ''description'' (sn_description s)] else [])
     @ (if sn_cleanup s \<noteq> [] then [setChildValue ''cleanup'' (sn_cleanup s)] else [])
     @ map (\<lambda>(k, v). Elem ''userdata'' [setChildValue ''key'' k, setChildValue ''value'' v]) (sn_userdata s)"

definition info_doc :: "snapshot \<Rightarrow> xnode" where
  "info_doc s = Elem ''snapshot'' (info_nodes s)"

definition save_doc :: "xml_lib \<Rightarrow> string \<Rightarrow> string option \<Rightarrow> xnode \<Rightarrow> (world, unit) step" where
  "save_doc X dir fd doc = (case fd of
       None \<Rightarrow> throwS IOErrorException
     | Some name \<Rightarrow> thenS (sys IOErrorException)
         (modifyS (put_in dir name (Reg (xml_dump X doc)))))"

definition rename_in :: "string \<Rightarrow> string \<Rightarrow> string \<Rightarrow> (world, unit) step" where
  "rename_in dir old new = thenS (sys IOErrorException) (bindS (getS (dir_entries dir)) (\<lambda>fs.
     case map_of fs old of
       None \<Rightarrow> throwS IOErrorException
     | Some x \<Rightarrow> modifyS (\<lambda>w. put_in dir new x (remove_in dir old w))))"

definition writeInfo :: "xml_lib \<Rightarrow> snapshot \<Rightarrow> (world, unit) step" where
  "writeInfo X s = bindS (openInfoDir s) (\<lambda>dir.
     bindS (mktemp dir ''info.xml.tmp-XXXXXX'') (\<lambda>tmp.
       thenS (save_doc X dir tmp (info_doc s)) (rename_in dir (the tmp) ''info.xml'')))"

definition flushInfo :: "xml_lib \<Rightarrow> snapshot \<Rightarrow> (world, snapshot) step" where
  "flushInfo X s =
     (if \<not> sn_info_modified s then retS s
      else thenS (writeInfo X s) (retS (s\<lparr>sn_info_modified := False\<rparr>)))"

text \<open>One turn of the loop of \<open>Snapshots::read\<close>, from the name of the directory and the document;
  \<open>None\<close> is \<open>continue\<close>. A number that is white space only leaves the variable \<open>num\<close> without a
  value; the model rejects it.\<close>

fun read_pairs :: "xnode list list \<Rightarrow> (string, string) smap \<Rightarrow> (string, string) smap" where
  "read_pairs [] m = m"
| "read_pairs (n # ns) m =
     (let key = (case getChildValue n ''key'' of None \<Rightarrow> [] | Some k \<Rightarrow> k);
          value = (case getChildValue n ''value'' of None \<Rightarrow> [] | Some v \<Rightarrow> v)
      in read_pairs ns (if key \<noteq> [] then sm_put key value m else m))"

definition read_info :: "string \<Rightarrow> xnode \<Rightarrow> snapshot option" where
  "read_info name root =
     (let node = getChildNode [root] ''snapshot'' in
      case Option.bind (getChildValue node ''type'') toValue of None \<Rightarrow> None | Some type \<Rightarrow>
      (case getChildUint node ''num'' 0 of None \<Rightarrow> None | Some num \<Rightarrow>
       if num = 0 then None
       else (case getChildValue node ''date'' of None \<Rightarrow> None | Some tmp \<Rightarrow>
         let date = scan_datetime tmp in
         if date = - 1 then None
         else if read_into name num \<noteq> num then None
         else Some ((new_snapshot type num date)
           \<lparr>sn_uid := (case getChildUint node ''uid'' 0 of None \<Rightarrow> 0 | Some u \<Rightarrow> u),
            sn_pre_num := (case getChildUint node ''pre_num'' 0 of None \<Rightarrow> 0 | Some u \<Rightarrow> u),
            sn_description := (case getChildValue node ''description'' of None \<Rightarrow> [] | Some d \<Rightarrow> d),
            sn_cleanup := (case getChildValue node ''cleanup'' of None \<Rightarrow> [] | Some c \<Rightarrow> c),
            sn_userdata := read_pairs (getChildNodes node ''userdata'') []\<rparr>))))"

definition read_one :: "xml_lib \<Rightarrow> fsops \<Rightarrow> string \<Rightarrow> (world, snapshot list) step" where
  "read_one X fs name = bindS (open_sub name) (\<lambda>files. thenS (sys IOErrorException)
     (case map_of files ''info.xml'' of
        Some (Reg content) \<Rightarrow>
          (case xml_parse X content of
             None \<Rightarrow> throwS IOErrorException
           | Some root \<Rightarrow>
               (case read_info name root of
                  None \<Rightarrow> retS []
                | Some s \<Rightarrow> bindS (getS (fo_checkSnapshot fs (sn_num s))) (\<lambda>ok.
                    retS (if ok then [s] else []))))
      | _ \<Rightarrow> throwS IOErrorException))"

subsection \<open>Setters and mount counters\<close>

definition setUid :: "u32 \<Rightarrow> snapshot \<Rightarrow> snapshot res" where
  "setUid val s = (if isCurrent s then Inl IllegalSnapshotException
     else Inr (s\<lparr>sn_uid := val, sn_info_modified := True\<rparr>))"

definition setDescription :: "string \<Rightarrow> snapshot \<Rightarrow> snapshot res" where
  "setDescription val s = (if isCurrent s then Inl IllegalSnapshotException
     else Inr (s\<lparr>sn_description := val, sn_info_modified := True\<rparr>))"

definition setCleanup :: "string \<Rightarrow> snapshot \<Rightarrow> snapshot res" where
  "setCleanup val s = (if isCurrent s then Inl IllegalSnapshotException
     else Inr (s\<lparr>sn_cleanup := val, sn_info_modified := True\<rparr>))"

definition bad_userdata_char :: "string \<Rightarrow> bool" where
  "bad_userdata_char s \<longleftrightarrow> list_ex (\<lambda>c. c = CHR '','' \<or> c = CHR ''='') s"

definition setUserdata :: "(string, string) smap \<Rightarrow> snapshot \<Rightarrow> snapshot res" where
  "setUserdata val s =
     (if isCurrent s then Inl IllegalSnapshotException
      else if list_ex (\<lambda>(k, v). k = [] \<or> bad_userdata_char k \<or> bad_userdata_char v) val
      then Inl InvalidUserdataException
      else Inr (s\<lparr>sn_userdata := val, sn_info_modified := True\<rparr>))"

definition mount_check :: "fsops \<Rightarrow> snapshot \<Rightarrow> (world, snapshot) step" where
  "mount_check fs s =
     (if sn_mount_checked s then retS s
      else bindS (fo_isSnapshotMounted fs (sn_num s)) (\<lambda>m.
        retS (s\<lparr>sn_mount_user_request := m, sn_mount_checked := True\<rparr>)))"

text \<open>The members are \<open>mutable\<close>: they keep what was assigned before an exception, so the new
  snapshot is part of the result in both cases.\<close>

definition mountFilesystemSnapshot ::
  "fsops \<Rightarrow> bool \<Rightarrow> snapshot \<Rightarrow> world \<Rightarrow> (unit res \<times> snapshot) \<times> world" where
  "mountFilesystemSnapshot fs user_request s w =
     (if isCurrent s then ((Inl IllegalSnapshotException, s), w)
      else (case mount_check fs s w of
          (Inl e, w') \<Rightarrow> ((Inl e, s), w')
        | (Inr s1, w') \<Rightarrow>
            (let s2 = (if user_request then s1\<lparr>sn_mount_user_request := True\<rparr>
                       else s1\<lparr>sn_mount_use_count := sn_mount_use_count s1 + 1\<rparr>)
             in case fo_mountSnapshot fs (sn_num s) w' of (r, w'') \<Rightarrow> ((r, s2), w''))))"

definition umountFilesystemSnapshot ::
  "fsops \<Rightarrow> bool \<Rightarrow> snapshot \<Rightarrow> world \<Rightarrow> (unit res \<times> snapshot) \<times> world" where
  "umountFilesystemSnapshot fs user_request s w =
     (if isCurrent s then ((Inl IllegalSnapshotException, s), w)
      else (case mount_check fs s w of
          (Inl e, w') \<Rightarrow> ((Inl e, s), w')
        | (Inr s1, w') \<Rightarrow>
            (let s2 = (if user_request then s1\<lparr>sn_mount_user_request := False\<rparr>
                       else s1\<lparr>sn_mount_use_count := sn_mount_use_count s1 - 1\<rparr>)
             in if user_request \<and> sn_mount_use_count s2 = 0
                then (case fo_umountSnapshot fs (sn_num s) w' of (r, w'') \<Rightarrow> ((r, s2), w''))
                else ((Inr (), s2), w'))))"

definition handleUmountFilesystemSnapshot :: "fsops \<Rightarrow> snapshot \<Rightarrow> (world, unit) step" where
  "handleUmountFilesystemSnapshot fs s =
     whenS (sn_mount_checked s \<and> \<not> sn_mount_user_request s \<and> sn_mount_use_count s = 0)
       (fo_umountSnapshot fs (sn_num s))"

definition createFilesystemSnapshot :: "fsops \<Rightarrow> snapshot \<Rightarrow> (world, unit) step" where
  "createFilesystemSnapshot fs s =
     (if isCurrent s then throwS IllegalSnapshotException else fo_createSnapshot fs (sn_num s))"

definition deleteFilesystemSnapshot :: "fsops \<Rightarrow> snapshot \<Rightarrow> (world, unit) step" where
  "deleteFilesystemSnapshot fs s =
     (if isCurrent s then throwS IllegalSnapshotException
      else thenS (fo_umountSnapshot fs (sn_num s)) (fo_deleteSnapshot fs (sn_num s)))"

end
