(* ===== verification/Snapshots.thy ===== *)
theory Snapshots
  imports Snapshot
begin

text \<open>
  The container \<open>Snapshots\<close> of \<open>snapper/Snapshot.cc\<close>: reading the list from disk and checking
  it, searching, numbers for new snapshots, creation with its cleanup after failures, deletion.
  The state is the world and the list; an iterator is an index, \<open>end()\<close> the length of the list.
\<close>

record sstate =
  disk :: world
  entries :: "snapshot list"

definition onW :: "(world, 'a) step \<Rightarrow> (sstate, 'a) step" where
  "onW m s = (case m (disk s) of (r, w) \<Rightarrow> (r, s\<lparr>disk := w\<rparr>))"

text \<open>The loop of \<open>read\<close>: what cannot be read is skipped, what was read stays.\<close>

fun read_dirs :: "xml_lib \<Rightarrow> fsops \<Rightarrow> string list \<Rightarrow> (world, snapshot list) step" where
  "read_dirs X fs [] = retS []"
| "read_dirs X fs (n # ns) =
     bindS (catchS (read_one X fs n) (\<lambda>e. if e = IOErrorException then retS [] else throwS e)) (\<lambda>a.
       bindS (read_dirs X fs ns) (\<lambda>b. retS (a @ b)))"

definition read_list :: "xml_lib \<Rightarrow> fsops \<Rightarrow> (world, snapshot list) step" where
  "read_list X fs = thenS openInfosDir (thenS (sys IOErrorException)
     (bindS (getS (\<lambda>w. map fst (infos w))) (read_dirs X fs)))"

definition current_snapshot :: snapshot where
  "current_snapshot = (new_snapshot SINGLE 0 (- 1))\<lparr>sn_description := ''current''\<rparr>"

definition sort_entries :: "snapshot list \<Rightarrow> snapshot list" where
  "sort_entries xs = sort_key sn_num xs"

definition initialize :: "xml_lib \<Rightarrow> fsops \<Rightarrow> (sstate, unit) step" where
  "initialize X fs =
     thenS (modifyS (\<lambda>s. s\<lparr>entries := [current_snapshot]\<rparr>))
       (catchS
         (bindS (onW (read_list X fs)) (\<lambda>r.
            modifyS (\<lambda>s. s\<lparr>entries := sort_entries (entries s @ r)\<rparr>)))
         (\<lambda>e. if e = IOErrorException then retS () else throwS e))"

subsection \<open>What check complains about\<close>

datatype complaint =
    ManyPosts u32 nat
  | PreLarger u32 u32
  | PreMissing u32 u32
  | PreNotPre u32 snapshot_type
  | InFuture u32
  | TimeShift u32

fun find_idx :: "('a \<Rightarrow> bool) \<Rightarrow> 'a list \<Rightarrow> nat" where
  "find_idx p [] = 0"
| "find_idx p (x # xs) = (if p x then 0 else Suc (find_idx p xs))"

definition find_num :: "u32 \<Rightarrow> snapshot list \<Rightarrow> nat" where
  "find_num num es = find_idx (\<lambda>s. sn_num s = num) es"

definition check_type :: "snapshot list \<Rightarrow> snapshot \<Rightarrow> complaint list" where
  "check_type es i1 = (case sn_type i1 of
       SINGLE \<Rightarrow> []
     | PRE \<Rightarrow> (let n = length (filter (\<lambda>i2. sn_pre_num i2 = sn_num i1) es)
              in if n > 1 then [ManyPosts (sn_num i1) n] else [])
     | POST \<Rightarrow> (if sn_pre_num i1 > sn_num i1 then [PreLarger (sn_pre_num i1) (sn_num i1)] else [])
         @ (let i2 = find_num (sn_pre_num i1) es
            in if i2 = length es then [PreMissing (sn_pre_num i1) (sn_num i1)]
               else if sn_type (es ! i2) \<noteq> PRE then [PreNotPre (sn_pre_num i1) (sn_type (es ! i2))]
               else []))"

fun check_loop :: "snapshot list \<Rightarrow> int \<Rightarrow> int \<Rightarrow> snapshot list \<Rightarrow> complaint list" where
  "check_loop es t0 t1 [] = []"
| "check_loop es t0 t1 (i # is) =
     check_type es i
     @ (if isCurrent i then check_loop es t0 t1 is
        else (if sn_date i > t0 then [InFuture (sn_num i)] else [])
          @ (if t1 \<noteq> - 1 \<and> sn_date i < t1 then [TimeShift (sn_num i)] else [])
          @ check_loop es t0 (sn_date i) is)"

definition check :: "int \<Rightarrow> snapshot list \<Rightarrow> complaint list" where
  "check now es = check_loop es now (- 1) es"

subsection \<open>Searching\<close>

definition findPost :: "nat \<Rightarrow> snapshot list \<Rightarrow> nat res" where
  "findPost pre es =
     (if pre = length es \<or> isCurrent (es ! pre) \<or> sn_type (es ! pre) \<noteq> PRE
      then Inl IllegalSnapshotException
      else Inr (find_idx (\<lambda>s. sn_type s = POST \<and> sn_pre_num s = sn_num (es ! pre)) es))"

definition findPre :: "nat \<Rightarrow> snapshot list \<Rightarrow> nat res" where
  "findPre post es =
     (if post = length es \<or> isCurrent (es ! post) \<or> sn_type (es ! post) \<noteq> POST
      then Inl IllegalSnapshotException
      else Inr (find_num (sn_pre_num (es ! post)) es))"

subsection \<open>Numbers for new snapshots\<close>

text \<open>
  The loop of \<open>nextNumber\<close> changes nothing until \<open>mkdir\<close> succeeds, so it is a search for the first
  number, going up from the last one (and wrapping around at the end of the 32 bit range), that the
  file system does not use and that has no entry in \<open>.snapshots\<close>.  \<open>None\<close>: every number is taken
  and the loop never ends.
\<close>

definition number_taken :: "fsops \<Rightarrow> world \<Rightarrow> u32 \<Rightarrow> bool" where
  "number_taken fs w num \<longleftrightarrow> fo_checkSnapshot fs num w
     \<or> map_of (infos w) (decString (unat num)) \<noteq> None"

fun search_number :: "nat \<Rightarrow> (u32 \<Rightarrow> bool) \<Rightarrow> u32 \<Rightarrow> u32 option" where
  "search_number fuel taken num =
     (if fuel = 0 then None
      else if taken (num + 1) then search_number (fuel - 1) taken (num + 1)
      else Some (num + 1))"

declare search_number.simps [simp del]

definition last_num :: "snapshot list \<Rightarrow> u32" where
  "last_num es = (if es = [] then 0 else sn_num (last es))"

definition nextNumber :: "fsops \<Rightarrow> (sstate, u32) step" where
  "nextNumber fs = thenS (onW openInfosDir) (bindS (getS (\<lambda>s.
       search_number (2 ^ 32) (number_taken fs (disk s)) (last_num (entries s)))) (\<lambda>r.
     case r of
       None \<Rightarrow> throwS Diverges
     | Some num \<Rightarrow>
         thenS (onW (sys IOErrorException))
           (thenS (onW (modifyS (put_entries (decString (unat num)) [])))
             (bindS (onW sys_ok) (\<lambda>_. retS num)))))"

subsection \<open>Creation and deletion\<close>

definition cleanup_info :: "u32 \<Rightarrow> (sstate, unit) step" where
  "cleanup_info num = thenS (onW openInfosDir) (onW (rmdir_info (decString (unat num))))"

definition createHelper :: "xml_lib \<Rightarrow> fsops \<Rightarrow> snapshot \<Rightarrow> (sstate, nat) step" where
  "createHelper X fs snapshot =
     thenS (catchS (onW (createFilesystemSnapshot fs snapshot))
              (\<lambda>e. if e = CreateSnapshotFailedException
                   then thenS (cleanup_info (sn_num snapshot)) (throwS e) else throwS e))
       (bindS (catchS (onW (flushInfo X snapshot))
              (\<lambda>e. if e = IOErrorException
                   then thenS (onW (deleteFilesystemSnapshot fs snapshot))
                          (thenS (cleanup_info (sn_num snapshot)) (throwS e))
                   else throwS e))
         (\<lambda>s'. bindS (getS (\<lambda>s. length (entries s))) (\<lambda>i.
            thenS (modifyS (\<lambda>s. s\<lparr>entries := entries s @ [s']\<rparr>)) (retS i))))"

definition createTyped ::
  "xml_lib \<Rightarrow> fsops \<Rightarrow> snapshot_type \<Rightarrow> u32 \<Rightarrow> string \<Rightarrow> (sstate, nat) step" where
  "createTyped X fs type pre_num description =
     bindS (nextNumber fs) (\<lambda>num. bindS (getS (\<lambda>s. clock (disk s))) (\<lambda>now.
       createHelper X fs ((new_snapshot type num now)
         \<lparr>sn_description := description, sn_pre_num := pre_num, sn_info_modified := True\<rparr>)))"

definition createSingleSnapshot :: "xml_lib \<Rightarrow> fsops \<Rightarrow> string \<Rightarrow> (sstate, nat) step" where
  "createSingleSnapshot X fs description = createTyped X fs SINGLE 0 description"

definition createPreSnapshot :: "xml_lib \<Rightarrow> fsops \<Rightarrow> string \<Rightarrow> (sstate, nat) step" where
  "createPreSnapshot X fs description = createTyped X fs PRE 0 description"

definition createPostSnapshot :: "xml_lib \<Rightarrow> fsops \<Rightarrow> string \<Rightarrow> nat \<Rightarrow> (sstate, nat) step" where
  "createPostSnapshot X fs description pre = bindS (getS entries) (\<lambda>es.
     if pre = length es \<or> isCurrent (es ! pre) \<or> sn_type (es ! pre) \<noteq> PRE
        \<or> findPost pre es \<noteq> Inr (length es)
     then throwS IllegalSnapshotException
     else createTyped X fs POST (sn_num (es ! pre)) description)"

definition filelist_name :: "u32 \<Rightarrow> string" where
  "filelist_name num = ''filelist-'' @ decString (unat num) @ ''.txt''"

definition is_filelist_file :: "string \<times> dnode \<Rightarrow> bool" where
  "is_filelist_file e = (case snd e of
       Reg c \<Rightarrow> starts_with (fst e) ''filelist-'' \<and> ends_with (fst e) ''.txt'' \<and> length (fst e) \<ge> 13
     | _ \<Rightarrow> False)"

definition drop_nth :: "nat \<Rightarrow> 'a list \<Rightarrow> 'a list" where
  "drop_nth i xs = take i xs @ drop (Suc i) xs"

definition deleteSnapshot :: "fsops \<Rightarrow> nat \<Rightarrow> (sstate, unit) step" where
  "deleteSnapshot fs i = bindS (getS entries) (\<lambda>es.
     if i = length es \<or> isCurrent (es ! i) then throwS IllegalSnapshotException
     else (let s = es ! i in
       thenS (onW (deleteFilesystemSnapshot fs s))
         (bindS (onW (openInfoDir s)) (\<lambda>dir.
           thenS (onW (unlink_in dir ''info.xml''))
             (bindS (onW (thenS (sys IOErrorException) (getS (dir_entries dir)))) (\<lambda>fes.
               thenS (onW (foreachS (\<lambda>e. unlink_in dir (fst e)) (filter is_filelist_file fes)))
                 (thenS (onW (foreachS (\<lambda>it. whenS (\<not> isCurrent it)
                      (bindS (openInfoDir it) (\<lambda>d. unlink_in d (filelist_name (sn_num s))))) es))
                   (thenS (onW openInfosDir)
                     (thenS (onW (rmdir_info (decString (unat (sn_num s)))))
                       (modifyS (\<lambda>st. st\<lparr>entries := drop_nth i (entries st)\<rparr>)))))))))))"

end
