(* ===== verification/Sysconfig.thy ===== *)
theory Sysconfig
  imports Strings
begin

text \<open>
  Text files and sysconfig files (\<open>snapper/AsciiFile.h\<close>, \<open>snapper/AsciiFile.cc\<close>): reading and
  saving lines, and keys with quoted values.  The regular expression of \<open>setValue\<close> and
  \<open>getValue\<close>, \<open>^[ \t]*KEY=(['"]?)([^'"]*)\1[ \t]*$\<close>, is written as a function: its first group is
  empty or the quote after the equals sign, and its second group takes as many characters other
  than quotes as it can.  The contract of a configuration file is the locale \<open>config_store\<close>.
\<close>

subsection \<open>Lines\<close>

text \<open>The lines that \<open>AsciiFileReader::getline\<close> returns for the bytes of a file.\<close>

function read_lines :: "string \<Rightarrow> string list" where
  "read_lines s =
     (if s = [] then []
      else takeWhile (\<lambda>c. c \<noteq> CHR 0x0A) s #
           read_lines (tl (dropWhile (\<lambda>c. c \<noteq> CHR 0x0A) s)))"
  by auto
termination
proof (relation "measure length", goal_cases)
  case (2 s)
  then have "0 < length s" by simp
  then show ?case
    using length_dropWhile_le [of "\<lambda>c. c \<noteq> CHR 0x0A" s] by (simp del: length_greater_0_conv)
qed simp

declare read_lines.simps [simp del]

text \<open>\<open>save\<close>: every line with a newline.  With \<open>remove_empty\<close> a file without lines is deleted, which
  is the result \<open>None\<close>.\<close>

definition save_lines :: "string list \<Rightarrow> string" where
  "save_lines ls = concat (map (\<lambda>l. l @ [CHR 0x0A]) ls)"

record ascii_file =
  remove_empty :: bool
  af_lines :: "string list"

definition ascii_save :: "ascii_file \<Rightarrow> string option" where
  "ascii_save f = (if remove_empty f \<and> af_lines f = [] then None else Some (save_lines (af_lines f)))"

definition ascii_reload :: "ascii_file \<Rightarrow> string option \<Rightarrow> ascii_file res" where
  "ascii_reload f content = (case content of
       None \<Rightarrow> Inl FileNotFoundException
     | Some s \<Rightarrow> Inr (f\<lparr>af_lines := read_lines s\<rparr>))"

lemma read_lines_Cons:
  "CHR 0x0A \<notin> set l \<Longrightarrow> read_lines (l @ CHR 0x0A # s) = l # read_lines s"
proof -
  assume "CHR 0x0A \<notin> set l"
  then have "takeWhile (\<lambda>c. c \<noteq> CHR 0x0A) (l @ CHR 0x0A # s) = l"
    "dropWhile (\<lambda>c. c \<noteq> CHR 0x0A) (l @ CHR 0x0A # s) = CHR 0x0A # s"
    by (auto simp: takeWhile_append dropWhile_append)
  then show ?thesis by (subst read_lines.simps) simp
qed

lemma read_save_lines:
  "\<forall>l\<in>set ls. CHR 0x0A \<notin> set l \<Longrightarrow> read_lines (save_lines ls) = ls"
  by (induction ls) (simp_all add: save_lines_def read_lines.simps [of "[]"] read_lines_Cons)

subsection \<open>Keys and values\<close>

definition is_ws :: "char \<Rightarrow> bool" where
  "is_ws c \<longleftrightarrow> c = CHR '' '' \<or> c = CHR 0x09"

definition is_quote :: "char \<Rightarrow> bool" where
  "is_quote c \<longleftrightarrow> c = CHR 0x22 \<or> c = CHR 0x27"

text \<open>The part of the expression after the equals sign: the value, if it matches.\<close>

definition match_value :: "string \<Rightarrow> string option" where
  "match_value r =
     (if r \<noteq> [] \<and> is_quote (hd r) then
        let v = takeWhile (\<lambda>c. \<not> is_quote c) (tl r); t = dropWhile (\<lambda>c. \<not> is_quote c) (tl r) in
        if t \<noteq> [] \<and> hd t = hd r \<and> list_all is_ws (tl t) then Some v else None
      else if list_all (\<lambda>c. \<not> is_quote c) r then Some r else None)"

definition match_line :: "string \<Rightarrow> string \<Rightarrow> string option" where
  "match_line key line =
     (let s = dropWhile is_ws line in
      if starts_with s (key @ ''='') then match_value (drop (length key + 1) s) else None)"

text \<open>The expression of \<open>getAllValues\<close>: a key of capitals, digits and underscores.\<close>

definition is_keychar :: "char \<Rightarrow> bool" where
  "is_keychar c \<longleftrightarrow> is_digit c \<or> (of_char c \<ge> (65::nat) \<and> of_char c \<le> (90::nat)) \<or> c = CHR ''_''"

definition match_any :: "string \<Rightarrow> (string \<times> string) option" where
  "match_any line =
     (let s = dropWhile is_ws line; k = takeWhile is_keychar s; r = dropWhile is_keychar s in
      if k \<noteq> [] \<and> r \<noteq> [] \<and> hd r = CHR ''='' then map_option (\<lambda>v. (k, v)) (match_value (tl r)) else None)"

record sysconfig =
  sc_lines :: "string list"
  sc_modified :: bool

fun replace_first :: "('a \<Rightarrow> bool) \<Rightarrow> 'a \<Rightarrow> 'a list \<Rightarrow> 'a list" where
  "replace_first P y [] = [y]"
| "replace_first P y (x # xs) = (if P x then y # xs else x # replace_first P y xs)"

definition config_line :: "string \<Rightarrow> string \<Rightarrow> string" where
  "config_line key v = key @ ''='' @ [CHR 0x22] @ v @ [CHR 0x22]"

definition setValue :: "string \<Rightarrow> string \<Rightarrow> sysconfig \<Rightarrow> sysconfig" where
  "setValue key v f = f\<lparr>sc_lines := replace_first (\<lambda>l. match_line key l \<noteq> None) (config_line key v) (sc_lines f),
                        sc_modified := True\<rparr>"

fun first_match :: "('a \<Rightarrow> 'b option) \<Rightarrow> 'a list \<Rightarrow> 'b option" where
  "first_match m [] = None"
| "first_match m (x # xs) = (case m x of None \<Rightarrow> first_match m xs | Some y \<Rightarrow> Some y)"

definition getValue :: "sysconfig \<Rightarrow> string \<Rightarrow> string option" where
  "getValue f key = first_match (match_line key) (sc_lines f)"

definition setValue_bool :: "string \<Rightarrow> bool \<Rightarrow> sysconfig \<Rightarrow> sysconfig" where
  "setValue_bool key v f = setValue key (if v then ''yes'' else ''no'') f"

definition getValue_bool :: "sysconfig \<Rightarrow> string \<Rightarrow> bool option" where
  "getValue_bool f key = map_option (\<lambda>tmp. tmp = ''yes'') (getValue f key)"

definition setValue_list :: "string \<Rightarrow> string list \<Rightarrow> sysconfig \<Rightarrow> sysconfig" where
  "setValue_list key values f = setValue key (join '' '' values) f"

text \<open>\<open>boost::split\<close> with \<open>token_compress_on\<close>: adjacent separators count as one.\<close>

function split_compress :: "(char \<Rightarrow> bool) \<Rightarrow> string \<Rightarrow> string list" where
  "split_compress p s =
     (let r = dropWhile (\<lambda>c. \<not> p c) s in
      if r = [] then [s] else takeWhile (\<lambda>c. \<not> p c) s # split_compress p (dropWhile p r))"
  by auto
termination
proof (relation "measure (\<lambda>(p, s). length s)", goal_cases)
  case (2 p s r)
  then have h: "p (hd r)" "r \<noteq> []" using hd_dropWhile [of "\<lambda>c. \<not> p c" s] by auto
  have "length (dropWhile p r) < length r"
  proof (cases r)
    case (Cons c t)
    then show ?thesis using h length_dropWhile_le [of p t] by simp
  qed (use h in simp)
  moreover have "length r \<le> length s"
    using 2(1) length_dropWhile_le [of "\<lambda>c. \<not> p c" s] by simp
  ultimately show ?case by simp
qed simp

declare split_compress.simps [simp del]

definition getValue_list :: "sysconfig \<Rightarrow> string \<Rightarrow> string list option" where
  "getValue_list f key = map_option (\<lambda>v.
     let tmp = trim is_space v in
     if tmp \<noteq> [] then split_compress is_ws tmp else []) (getValue f key)"

definition getAllValues :: "sysconfig \<Rightarrow> (string, string) smap" where
  "getAllValues f = foldl (\<lambda>ret line. case match_any line of
       Some (k, v) \<Rightarrow> sm_put k v ret | None \<Rightarrow> ret) [] (sc_lines f)"

text \<open>The destructor writes the file when a value was set.\<close>

definition sysconfig_close :: "sysconfig \<Rightarrow> string option" where
  "sysconfig_close f = (if sc_modified f then Some (save_lines (sc_lines f)) else None)"

definition sysconfig_open :: "string option \<Rightarrow> sysconfig res" where
  "sysconfig_open content = (case content of
       None \<Rightarrow> Inl FileNotFoundException
     | Some s \<Rightarrow> Inr \<lparr>sc_lines = read_lines s, sc_modified = False\<rparr>)"

subsection \<open>Matching\<close>

definition plain_key :: "string \<Rightarrow> bool" where
  "plain_key k \<longleftrightarrow> k \<noteq> [] \<and> list_all is_keychar k"

definition plain_value :: "string \<Rightarrow> bool" where
  "plain_value v \<longleftrightarrow> list_all (\<lambda>c. \<not> is_quote c) v"

lemma keychar_facts: "is_keychar c \<Longrightarrow> \<not> is_ws c \<and> c \<noteq> CHR ''=''"
  by (auto simp: is_keychar_def is_ws_def is_digit_def)

lemma not_keychar_eq [simp]: "\<not> is_keychar CHR ''=''"
  using keychar_facts by blast

lemma plain_key_takeWhile:
  assumes "plain_key k"
  shows "dropWhile is_ws (k @ s) = k @ s" "takeWhile (\<lambda>c. c \<noteq> CHR ''='') (k @ CHR ''='' # s) = k"
  using assms keychar_facts
  by (cases k; auto simp: plain_key_def list_all_iff)+

lemma match_value_quoted:
  "match_value (CHR 0x22 # v @ [CHR 0x22]) = (if plain_value v then Some v else None)"
proof (cases "plain_value v")
  case True
  then have p: "\<forall>c\<in>set v. \<not> is_quote c" by (simp add: plain_value_def list_all_iff)
  have "takeWhile (\<lambda>c. \<not> is_quote c) (v @ [CHR 0x22]) = v"
    "dropWhile (\<lambda>c. \<not> is_quote c) (v @ [CHR 0x22]) = [CHR 0x22]"
    using p by (auto simp: is_quote_def takeWhile_append dropWhile_append)
  then show ?thesis using True by (simp add: match_value_def is_quote_def)
next
  case False
  then obtain a q b where v: "v = a @ q # b" "is_quote q" "\<forall>c\<in>set a. \<not> is_quote c"
    using split_list_first_prop [of v is_quote] by (auto simp: plain_value_def list_all_iff)
  then have d: "dropWhile (\<lambda>c. \<not> is_quote c) (v @ [CHR 0x22]) = q # b @ [CHR 0x22]"
    by (auto simp: dropWhile_append)
  then show ?thesis
    using False by (auto simp: match_value_def is_quote_def is_ws_def Let_def)
qed

lemma match_config_line:
  assumes "plain_key k"
  shows "match_line k (config_line k v) = (if plain_value v then Some v else None)"
  using plain_key_takeWhile(1) [OF assms, of "CHR ''='' # CHR 0x22 # v @ [CHR 0x22]"]
  by (simp add: match_line_def config_line_def match_value_quoted starts_with_def Let_def)

lemma match_value_plain: "match_value r = Some v \<Longrightarrow> plain_value v"
  by (auto simp: match_value_def plain_value_def Let_def list_all_iff split: if_splits
      dest: set_takeWhileD)

lemma match_line_plain: "match_line k l = Some v \<Longrightarrow> plain_value v"
  by (auto simp: match_line_def Let_def split: if_splits dest: match_value_plain)

lemma match_line_key:
  assumes "plain_key k" "plain_key k'" "k \<noteq> k'" "match_line k l \<noteq> None"
  shows "match_line k' l = None"
proof -
  from assms(4) obtain s where s: "dropWhile is_ws l = k @ CHR ''='' # s"
    by (auto simp: match_line_def Let_def starts_with_iff split: if_splits)
  have "\<not> starts_with (dropWhile is_ws l) (k' @ ''='')"
  proof
    assume "starts_with (dropWhile is_ws l) (k' @ ''='')"
    then obtain t where "k @ CHR ''='' # s = k' @ CHR ''='' # t"
      unfolding s starts_with_iff by auto
    then have "k = k'"
      using plain_key_takeWhile(2) [OF assms(1), of s] plain_key_takeWhile(2) [OF assms(2), of t] by simp
    then show False using assms(3) by simp
  qed
  then show ?thesis by (simp add: match_line_def)
qed

lemma match_line_other_line:
  assumes "plain_key k" "plain_key k'" "k \<noteq> k'"
  shows "match_line k' (config_line k v) = None"
proof -
  have "\<not> starts_with (config_line k v) (k' @ ''='')"
  proof
    assume "starts_with (config_line k v) (k' @ ''='')"
    then obtain t where "k @ CHR ''='' # CHR 0x22 # v @ [CHR 0x22] = k' @ CHR ''='' # t"
      by (auto simp: starts_with_iff config_line_def)
    then show False
      using assms(3) plain_key_takeWhile(2) [OF assms(1)] plain_key_takeWhile(2) [OF assms(2)] by metis
  qed
  then show ?thesis
    using plain_key_takeWhile(1) [OF assms(1), of "CHR ''='' # CHR 0x22 # v @ [CHR 0x22]"]
    by (simp add: match_line_def config_line_def)
qed

lemma first_match_replace_same:
  "(\<And>x. P x \<longleftrightarrow> m x \<noteq> None) \<Longrightarrow> m y = Some v \<Longrightarrow> first_match m (replace_first P y xs) = Some v"
  by (induction xs) (auto split: option.splits)

lemma first_match_replace_other:
  "(\<And>x. P x \<Longrightarrow> m x = None) \<Longrightarrow> m y = None \<Longrightarrow> first_match m (replace_first P y xs) = first_match m xs"
  by (induction xs) (auto split: option.splits)

lemma first_match_Some: "first_match m xs = Some v \<Longrightarrow> \<exists>x\<in>set xs. m x = Some v"
  by (induction xs) (auto split: option.splits)

lemma getValue_setValue_same:
  "plain_key k \<Longrightarrow> plain_value v \<Longrightarrow> getValue (setValue k v f) k = Some v"
  unfolding getValue_def setValue_def by (simp add: first_match_replace_same match_config_line)

lemma getValue_setValue_other:
  assumes "plain_key k" "plain_key k'" "k \<noteq> k'"
  shows "getValue (setValue k v f) k' = getValue f k'"
  unfolding getValue_def setValue_def
  using match_line_key [OF assms] match_line_other_line [OF assms]
  by (simp add: first_match_replace_other)

lemma getValue_plain: "getValue f k = Some v \<Longrightarrow> plain_value v"
  by (auto simp: getValue_def dest!: first_match_Some match_line_plain)

subsection \<open>The contract of a configuration file\<close>

locale config_store =
  fixes get :: "'s \<Rightarrow> 'k \<Rightarrow> 'v option"
    and put :: "'k \<Rightarrow> 'v \<Rightarrow> 's \<Rightarrow> 's"
    and okkey :: "'k \<Rightarrow> bool" and okval :: "'v \<Rightarrow> bool"
  assumes get_put_same: "okkey k \<Longrightarrow> okval v \<Longrightarrow> get (put k v s) k = Some v"
    and get_put_other: "okkey k \<Longrightarrow> okkey k' \<Longrightarrow> k \<noteq> k' \<Longrightarrow> get (put k v s) k' = get s k'"
begin

lemma get_put_two:
  assumes "okkey k" "okkey k'" "k \<noteq> k'" "okval v" "okval v'"
  shows "get (put k' v' (put k v s)) k = Some v" "get (put k' v' (put k v s)) k' = Some v'"
  using assms by (simp_all add: get_put_same get_put_other)

lemma get_puts:
  assumes "\<forall>(k, v)\<in>set kvs. okkey k \<and> okval v" "distinct (map fst kvs)" "okkey k"
  shows "get (fold (\<lambda>(k, v). put k v) kvs s) k =
    (case map_of kvs k of None \<Rightarrow> get s k | Some v \<Rightarrow> Some v)"
  using assms
proof (induction kvs arbitrary: s)
  case (Cons p kvs)
  obtain j v where p: "p = (j, v)" by (cases p)
  have "map_of kvs j = None"
    using Cons.prems(2) p by (simp add: map_of_eq_None_iff)
  then show ?case
    using Cons p by (auto simp: get_put_same get_put_other split: option.splits)
qed simp

end

interpretation sysconf: config_store getValue setValue plain_key plain_value
  by unfold_locales (simp_all add: getValue_setValue_same getValue_setValue_other)

subsection \<open>Lists as values\<close>

definition plain_word :: "string \<Rightarrow> bool" where
  "plain_word w \<longleftrightarrow> w \<noteq> [] \<and> list_all (\<lambda>c. \<not> is_space c \<and> \<not> is_quote c) w"

lemma ws_space: "is_ws c \<Longrightarrow> is_space c"
  by (auto simp: is_ws_def is_space_def)

lemma plain_word_no_ws: "plain_word w \<Longrightarrow> c \<in> set w \<Longrightarrow> \<not> is_ws c \<and> \<not> is_space c"
  using ws_space by (auto simp: plain_word_def list_all_iff)

lemma split_compress_word: "plain_word w \<Longrightarrow> split_compress is_ws w = [w]"
proof -
  assume "plain_word w"
  then have "dropWhile (\<lambda>c. \<not> is_ws c) w = []" using plain_word_no_ws by auto
  then show ?thesis by (subst split_compress.simps) simp
qed

lemma split_compress_cons:
  assumes "plain_word w" "s \<noteq> []" "\<not> is_ws (hd s)"
  shows "split_compress is_ws (w @ CHR '' '' # s) = w # split_compress is_ws s"
proof -
  have d: "dropWhile (\<lambda>c. \<not> is_ws c) (w @ CHR '' '' # s) = CHR '' '' # s"
    "takeWhile (\<lambda>c. \<not> is_ws c) (w @ CHR '' '' # s) = w"
    using plain_word_no_ws [OF assms(1)] by (auto simp: is_ws_def takeWhile_append dropWhile_append)
  have "dropWhile is_ws s = s" using assms(2,3) by (cases s) auto
  then have "dropWhile is_ws (CHR '' '' # s) = s" by (simp add: is_ws_def)
  then show ?thesis by (subst split_compress.simps) (simp add: d Let_def)
qed

lemma join_Cons2: "ws \<noteq> [] \<Longrightarrow> join sep (w # ws) = w @ sep @ join sep ws"
  by (cases ws) auto

lemma hd_join: "ws \<noteq> [] \<Longrightarrow> list_all plain_word ws \<Longrightarrow> join '' '' ws \<noteq> [] \<and> \<not> is_space (hd (join '' '' ws))"
  by (cases ws; cases "tl ws") (auto simp: plain_word_def list_all_iff hd_append)

lemma last_join: "ws \<noteq> [] \<Longrightarrow> list_all plain_word ws \<Longrightarrow> \<not> is_space (last (join '' '' ws))"
proof (induction ws)
  case (Cons w ws)
  show ?case
  proof (cases "ws = []")
    case True
    then show ?thesis using Cons.prems by (auto simp: plain_word_def list_all_iff)
  next
    case False
    then show ?thesis using Cons hd_join [of ws] by (simp add: join_Cons2)
  qed
qed simp

lemma split_compress_join:
  "ws \<noteq> [] \<Longrightarrow> list_all plain_word ws \<Longrightarrow> split_compress is_ws (join '' '' ws) = ws"
proof (induction ws)
  case (Cons w ws)
  show ?case
  proof (cases "ws = []")
    case True
    then show ?thesis using Cons.prems by (simp add: split_compress_word)
  next
    case False
    then have "\<not> is_ws (hd (join '' '' ws))" "join '' '' ws \<noteq> []"
      using hd_join [of ws] ws_space Cons.prems by auto
    then show ?thesis
      using False Cons by (simp add: join_Cons2 split_compress_cons)
  qed
qed simp

lemma plain_value_join: "list_all plain_word ws \<Longrightarrow> plain_value (join '' '' ws)"
proof (induction ws)
  case (Cons w ws)
  then have "plain_value w" by (simp add: plain_word_def plain_value_def list_all_iff)
  then show ?case
    using Cons by (cases "ws = []") (simp_all add: join_Cons2 plain_value_def is_quote_def)
qed (simp add: plain_value_def)

lemma getValue_list_setValue_list:
  assumes "plain_key k" "list_all plain_word ws"
  shows "getValue_list (setValue_list k ws f) k = Some ws"
proof -
  have g: "getValue (setValue k (join '' '' ws) f) k = Some (join '' '' ws)"
    by (rule sysconf.get_put_same [OF assms(1) plain_value_join [OF assms(2)]])
  show ?thesis
  proof (cases "ws = []")
    case True
    then show ?thesis
      using g by (simp add: getValue_list_def setValue_list_def trim_id)
  next
    case False
    then have "trim is_space (join '' '' ws) = join '' '' ws"
      using hd_join last_join assms(2) by (intro trim_id) auto
    then show ?thesis
      using g False hd_join [OF False assms(2)]
      by (simp add: getValue_list_def setValue_list_def split_compress_join assms(2))
  qed
qed

lemma sysconfig_set_get_value: "plain_key k \<Longrightarrow> getValue (setValue k v f) k = Some v \<longleftrightarrow> plain_value v"
  using sysconf.get_put_same [of k v f] by (auto dest: getValue_plain)

text \<open>C37. For a key of capitals, digits and underscores: a list of words without quotes and white space that is stored in a
  sysconfig file is read back as the same list, \<open>getValue\<close> returns the value that \<open>setValue\<close> stored exactly when it has no
  quotes, and the values of other such keys do not change.\<close>
theorem sysconfig_set_get:
  assumes "plain_key k" "list_all plain_word ws"
  shows "getValue_list (setValue_list k ws f) k = Some ws
     \<and> (getValue (setValue k v f) k = Some v \<longleftrightarrow> plain_value v)
     \<and> (\<forall>k'. plain_key k' \<and> k' \<noteq> k \<longrightarrow> getValue (setValue k v f) k' = getValue f k')"
proof (intro conjI)
  show "getValue_list (setValue_list k ws f) k = Some ws"
    by (rule getValue_list_setValue_list [OF assms])
  show "getValue (setValue k v f) k = Some v \<longleftrightarrow> plain_value v"
    by (rule sysconfig_set_get_value [OF assms(1)])
  show "\<forall>k'. plain_key k' \<and> k' \<noteq> k \<longrightarrow> getValue (setValue k v f) k' = getValue f k'"
    using sysconf.get_put_other [OF assms(1)] by blast
qed

theorem sysconfig_set_get_witness:
  "getValue_list (setValue_list ''SNAPPER_CONFIGS'' [''root'', ''home''] \<lparr>sc_lines = [], sc_modified = False\<rparr>)
     ''SNAPPER_CONFIGS'' = Some [''root'', ''home'']"
proof -
  have "plain_key ''SNAPPER_CONFIGS''" "list_all plain_word [''root'', ''home'']" by code_simp+
  from sysconfig_set_get [OF this] show ?thesis by blast
qed

subsection \<open>All values\<close>

lemma match_any_iff: "match_any line = Some (k, v) \<longleftrightarrow> plain_key k \<and> match_line k line = Some v"
proof -
  let ?s = "dropWhile is_ws line"
  have key: "takeWhile is_keychar (k @ CHR ''='' # t) = k \<and> dropWhile is_keychar (k @ CHR ''='' # t) = CHR ''='' # t"
    if "plain_key k" for k t
    using that keychar_facts [of "CHR ''=''"] by (auto simp: plain_key_def list_all_iff takeWhile_append dropWhile_append)
  show ?thesis
  proof
    assume a: "match_any line = Some (k, v)"
    let ?r = "dropWhile is_keychar ?s"
    have k: "k = takeWhile is_keychar ?s" "k \<noteq> []" "?r \<noteq> []" "hd ?r = CHR ''=''" "match_value (tl ?r) = Some v"
      using a by (auto simp: match_any_def Let_def split: if_splits)
    have s: "?s = k @ CHR ''='' # tl ?r"
      using k(1,3,4) by (metis list.collapse takeWhile_dropWhile_id)
    have "plain_key k" using k(1,2) by (auto simp: plain_key_def list_all_iff dest: set_takeWhileD)
    moreover have "match_line k line = Some v"
      unfolding match_line_def Let_def by (subst (1 2) s) (simp add: starts_with_def k(5))
    ultimately show "plain_key k \<and> match_line k line = Some v" by simp
  next
    assume a: "plain_key k \<and> match_line k line = Some v"
    then obtain t where t: "?s = k @ CHR ''='' # t"
      by (auto simp: match_line_def Let_def starts_with_iff split: if_splits)
    then have "match_value t = Some v" using a by (simp add: match_line_def starts_with_def)
    then show "match_any line = Some (k, v)"
      using a key [of k t] by (simp add: match_any_def t plain_key_def)
  qed
qed

lemma match_any_None: "plain_key k \<Longrightarrow> match_any line = None \<Longrightarrow> match_line k line = None"
  using match_any_iff [of line k] by (cases "match_line k line") auto

lemma getAllValues_fold:
  assumes "plain_key k"
  shows "map_of (foldl (\<lambda>ret line. case match_any line of Some (k, v) \<Rightarrow> sm_put k v ret | None \<Rightarrow> ret) m ls) k =
    (case first_match (match_line k) (rev ls) of None \<Rightarrow> map_of m k | Some v \<Rightarrow> Some v)"
proof (induction ls arbitrary: m rule: rev_induct)
  case (snoc l ls)
  show ?case
  proof (cases "match_any l")
    case None
    then show ?thesis using snoc match_any_None [OF assms None] by simp
  next
    case (Some p)
    obtain j v where p: "p = (j, v)" by (cases p)
    then have j: "plain_key j" "match_line j l = Some v" using Some match_any_iff by auto
    show ?thesis
    proof (cases "j = k")
      case True
      then show ?thesis using snoc Some p j by simp
    next
      case False
      then have "match_line k l = None" using match_line_key [OF j(1) assms, of l] j(2) by simp
      then show ?thesis using snoc Some p False by simp
    qed
  qed
qed simp

text \<open>\<open>getAllValues\<close> and \<open>getValue\<close> read the same lines, but when a key occurs on several lines
  \<open>getAllValues\<close> reports the last of them and \<open>getValue\<close> the first.\<close>

theorem getAllValues_last_getValue_first:
  assumes "plain_key k"
  shows "map_of (getAllValues f) k = first_match (match_line k) (rev (sc_lines f))
     \<and> getValue f k = first_match (match_line k) (sc_lines f)"
  using getAllValues_fold [OF assms, of "[]" "sc_lines f"]
  by (simp add: getAllValues_def getValue_def option.case_eq_if)

theorem getAllValues_last_getValue_first_witness:
  "map_of (getAllValues \<lparr>sc_lines = [''FSTYPE=btrfs'', ''FSTYPE=ext4''], sc_modified = False\<rparr>) ''FSTYPE''
     = Some ''ext4''
   \<and> getValue \<lparr>sc_lines = [''FSTYPE=btrfs'', ''FSTYPE=ext4''], sc_modified = False\<rparr> ''FSTYPE'' = Some ''btrfs''"
proof -
  have k: "plain_key ''FSTYPE''" by code_simp
  have "first_match (match_line ''FSTYPE'') (rev [''FSTYPE=btrfs'', ''FSTYPE=ext4'']) = Some ''ext4''"
    "first_match (match_line ''FSTYPE'') [''FSTYPE=btrfs'', ''FSTYPE=ext4''] = Some ''btrfs''"
    by code_simp+
  then show ?thesis
    using getAllValues_last_getValue_first [OF k, of "\<lparr>sc_lines = [''FSTYPE=btrfs'', ''FSTYPE=ext4''], sc_modified = False\<rparr>"]
    by simp
qed

text \<open>C38. What a sysconfig file holds survives closing and opening the file, when no line, nor the key and the value
  stored last, has a newline: the destructor writes the lines, and reading them gives every key the value it had before,
  in particular the last key the value stored, exactly when that has no quotes (a value with quotes is unreadable before
  and after).\<close>
theorem sysconfig_survives_close:
  assumes "\<forall>l\<in>set (sc_lines f). CHR 0x0A \<notin> set l" "CHR 0x0A \<notin> set (k @ v)"
  shows "\<exists>g. sysconfig_open (sysconfig_close (setValue k v f)) = Inr g \<and> getValue g = getValue (setValue k v f)
    \<and> (plain_key k \<longrightarrow> (getValue g k = Some v \<longleftrightarrow> plain_value v))"
proof -
  have "set (replace_first P y xs) \<subseteq> insert y (set xs)" for P and y :: string and xs
    by (induction xs) auto
  then have "\<forall>l\<in>set (sc_lines (setValue k v f)). CHR 0x0A \<notin> set l"
    using assms by (fastforce simp: setValue_def config_line_def)
  then show ?thesis
    using sysconfig_set_get_value [of k v f]
    by (simp add: sysconfig_open_def sysconfig_close_def read_save_lines setValue_def getValue_def fun_eq_iff)
qed

theorem sysconfig_survives_close_witness:
  "\<exists>g. sysconfig_open (sysconfig_close (setValue ''FSTYPE'' ''btrfs'' \<lparr>sc_lines = [''# a''], sc_modified = False\<rparr>))
     = Inr g \<and> getValue g ''FSTYPE'' = Some ''btrfs''"
proof -
  have "plain_key ''FSTYPE''" "plain_value ''btrfs''" by code_simp+
  then show ?thesis
    using sysconfig_survives_close [of "\<lparr>sc_lines = [''# a''], sc_modified = False\<rparr>" "''FSTYPE''" "''btrfs''"] by auto
qed

end
