(* ===== verification/Comparison.thy ===== *)
theory Comparison
  imports Snapshots Files Sysconfig
begin

text \<open>
  A comparison of two snapshots (\<open>snapper/Comparison.cc\<close>): it is read from the file list in the
  information directory of the younger snapshot, or computed on the mounted snapshots and saved
  there.  The comparison of the two directories, a virtual function of the file system, is the
  argument \<open>cmp\<close>: it gives the reports in the order of the callback.
\<close>

type_synonym cmp_dirs = "snapshot \<Rightarrow> snapshot \<Rightarrow> (world, (string \<times> u32) list) step"

record comparison =
  cp_snapshot1 :: nat
  cp_snapshot2 :: nat
  cp_paths :: file_paths
  cp_files :: "file_rec list"

subsection \<open>The file list\<close>

definition file_line :: "bool \<Rightarrow> file_rec \<Rightarrow> string" where
  "file_line invert f =
     (let status = pre_to_post_status f;
          status = (if invert then invertStatus status else status)
      in statusToString status @ '' '' @ f_name f)"

definition parse_line :: "bool \<Rightarrow> string \<Rightarrow> file_rec option" where
  "parse_line invert line = (case find_index CHR '' '' line of
       None \<Rightarrow> None
     | Some pos \<Rightarrow>
         (let status = stringToStatus (take pos line);
              status = (if invert then invertStatus status else status)
          in Some (new_file (drop (Suc pos) line) status)))"

definition list_name :: "u32 \<Rightarrow> string" where
  "list_name num = ''filelist-'' @ decString (unat num) @ ''.txt''"

definition load_files :: "bool \<Rightarrow> string \<Rightarrow> file_rec list" where
  "load_files invert content = files_sort (List.map_filter (parse_line invert) (read_lines content))"

definition save_files :: "bool \<Rightarrow> file_rec list \<Rightarrow> string" where
  "save_files invert fs = save_lines (map (file_line invert) fs)"

text \<open>The numbers in ascending order, and whether they were swapped.\<close>

definition ordered_nums :: "snapshot \<Rightarrow> snapshot \<Rightarrow> bool \<times> u32 \<times> u32" where
  "ordered_nums s1 s2 = (let num1 = sn_num s1; num2 = sn_num s2; invert = num1 > num2
     in if invert then (invert, num2, num1) else (invert, num1, num2))"

definition comparison_load :: "snapshot \<Rightarrow> snapshot \<Rightarrow> (world, file_rec list option) step" where
  "comparison_load s1 s2 =
     (if isCurrent s1 \<or> isCurrent s2 then throwS IllegalSnapshotException
      else (case ordered_nums s1 s2 of (invert, num1, num2) \<Rightarrow>
        thenS openInfosDir (bindS (open_sub (decString (unat num2))) (\<lambda>fes.
          bindS sys_ok (\<lambda>ok.
            case map_of fes (list_name num1) of
              Some (Reg content) \<Rightarrow> retS (if ok then Some (load_files invert content) else None)
            | _ \<Rightarrow> retS None)))))"

definition comparison_save :: "snapshot \<Rightarrow> snapshot \<Rightarrow> file_rec list \<Rightarrow> (world, unit) step" where
  "comparison_save s1 s2 fs =
     (if isCurrent s1 \<or> isCurrent s2 then throwS IllegalSnapshotException
      else (case ordered_nums s1 s2 of (invert, num1, num2) \<Rightarrow>
        bindS (openInfoDir (if invert then s1 else s2)) (\<lambda>dir.
          bindS (mktemp dir (list_name num1 @ ''.tmp-XXXXXX'')) (\<lambda>tmp.
            case tmp of
              None \<Rightarrow> throwS IOErrorException
            | Some name \<Rightarrow>
                thenS (modifyS (put_in dir name (Reg (save_files invert fs))))
                  (catchS (rename_in dir name (list_name num1)) (\<lambda>_. retS ()))))))"

subsection \<open>Computing the comparison\<close>

definition mountAt :: "fsops \<Rightarrow> bool \<Rightarrow> nat \<Rightarrow> (sstate, unit) step" where
  "mountAt fs user_request i st =
     (case mountFilesystemSnapshot fs user_request (entries st ! i) (disk st) of
        ((r, s'), w) \<Rightarrow> (r, st\<lparr>disk := w, entries := (entries st)[i := s']\<rparr>))"

definition umountAt :: "fsops \<Rightarrow> bool \<Rightarrow> nat \<Rightarrow> (sstate, unit) step" where
  "umountAt fs user_request i st =
     (case umountFilesystemSnapshot fs user_request (entries st ! i) (disk st) of
        ((r, s'), w) \<Rightarrow> (r, st\<lparr>disk := w, entries := (entries st)[i := s']\<rparr>))"

definition comparison_mount :: "fsops \<Rightarrow> nat \<Rightarrow> nat \<Rightarrow> (sstate, unit) step" where
  "comparison_mount fs i1 i2 = bindS (getS entries) (\<lambda>es.
     thenS (whenS (\<not> isCurrent (es ! i1)) (mountAt fs False i1))
           (whenS (\<not> isCurrent (es ! i2)) (mountAt fs False i2)))"

definition comparison_umount :: "fsops \<Rightarrow> nat \<Rightarrow> nat \<Rightarrow> (sstate, unit) step" where
  "comparison_umount fs i1 i2 = bindS (getS entries) (\<lambda>es.
     thenS (whenS (\<not> isCurrent (es ! i1)) (umountAt fs False i1))
           (whenS (\<not> isCurrent (es ! i2)) (umountAt fs False i2)))"

definition comparison_create :: "fsops \<Rightarrow> cmp_dirs \<Rightarrow> nat \<Rightarrow> nat \<Rightarrow> (sstate, file_rec list) step" where
  "comparison_create fs cmp i1 i2 =
     thenS (comparison_mount fs i1 i2) (bindS (getS entries) (\<lambda>es.
       bindS (onW (cmp (es ! i1) (es ! i2))) (\<lambda>reports.
         thenS (comparison_umount fs i1 i2)
           (retS (files_sort (map (\<lambda>(name, status). new_file name status) reports))))))"

definition comparison_initialize ::
  "fsops \<Rightarrow> cmp_dirs \<Rightarrow> string list \<Rightarrow> nat \<Rightarrow> nat \<Rightarrow> (sstate, file_rec list) step" where
  "comparison_initialize fs cmp ignore_patterns i1 i2 = bindS (getS entries) (\<lambda>es.
     let s1 = es ! i1; s2 = es ! i2 in
     bindS (if isCurrent s1 \<or> isCurrent s2 then comparison_create fs cmp i1 i2
            else bindS (onW (comparison_load s1 s2)) (\<lambda>l. case l of
                Some files \<Rightarrow> retS files
              | None \<Rightarrow> bindS (comparison_create fs cmp i1 i2) (\<lambda>files.
                  thenS (onW (comparison_save s1 s2 files)) (retS files))))
       (\<lambda>files. retS (files_filter ignore_patterns files)))"

definition comparison_new ::
  "fsops \<Rightarrow> cmp_dirs \<Rightarrow> string \<Rightarrow> string list \<Rightarrow> nat \<Rightarrow> nat \<Rightarrow> (sstate, comparison) step" where
  "comparison_new fs cmp subvolume ignore_patterns i1 i2 = bindS (getS entries) (\<lambda>es.
     if i1 = length es \<or> i2 = length es \<or> i1 = i2 then throwS IllegalSnapshotException
     else (let dir = (\<lambda>s. if isCurrent s then subvolume else fo_snapshotDir fs (sn_num s)) in
       bindS (comparison_initialize fs cmp ignore_patterns i1 i2) (\<lambda>files.
         retS \<lparr>cp_snapshot1 = i1, cp_snapshot2 = i2,
               cp_paths = \<lparr>system_path = subvolume, pre_path = dir (es ! i1), post_path = dir (es ! i2)\<rparr>,
               cp_files = files\<rparr>)))"

definition comparison_undo_guard :: "snapshot list \<Rightarrow> comparison \<Rightarrow> unit res" where
  "comparison_undo_guard es c =
     (if isCurrent (es ! cp_snapshot1 c) then Inl IllegalSnapshotException else Inr ())"

definition comparison_undo_statistic :: "snapshot list \<Rightarrow> comparison \<Rightarrow> undo_statistic res" where
  "comparison_undo_statistic es c =
     bindR (comparison_undo_guard es c) (\<lambda>_. Inr (getUndoStatistic (cp_files c)))"

definition comparison_undo_steps :: "snapshot list \<Rightarrow> comparison \<Rightarrow> (undo_step list) res" where
  "comparison_undo_steps es c =
     bindR (comparison_undo_guard es c) (\<lambda>_. Inr (getUndoSteps (cp_files c)))"

text \<open>The step is done on the files of the comparison and the file system of the subvolume.\<close>

definition comparison_doUndoStep ::
  "undo_env \<Rightarrow> snapshot list \<Rightarrow> comparison \<Rightarrow> undo_step \<Rightarrow> fs \<Rightarrow> (bool \<times> file_rec list \<times> fs) res" where
  "comparison_doUndoStep env es c st fs = bindR (comparison_undo_guard es c)
     (\<lambda>_. Inr (doUndoStep env (cp_paths c) st (cp_files c, fs)))"

subsection \<open>What is saved is what is loaded\<close>

lemma find_index_append: "x \<notin> set a \<Longrightarrow> find_index x (a @ x # b) = Some (length a)"
  by (induction a) auto

lemma statusToString_blank: "CHR '' '' \<notin> set (statusToString s)" "CHR 0x0A \<notin> set (statusToString s)"
  using statusToString_Cons [of s] by auto

lemma parse_file_line:
  assumes "valid_status (pre_to_post_status f)"
  shows "parse_line iv2 (file_line iv1 f) =
    Some (new_file (f_name f) ((if iv1 \<noteq> iv2 then invertStatus else id) (pre_to_post_status f)))"
proof -
  let ?s = "if iv1 then invertStatus (pre_to_post_status f) else pre_to_post_status f"
  have v: "valid_status ?s" using assms valid_status_invert by simp
  have "find_index CHR '' '' (statusToString ?s @ CHR '' '' # f_name f) = Some 4"
    using find_index_append [OF statusToString_blank(1), of ?s "f_name f"] by simp
  then have "parse_line iv2 (file_line iv1 f) =
      Some (new_file (f_name f) (if iv2 then invertStatus ?s else ?s))"
    using stringToStatus_valid [OF v] by (simp add: parse_line_def file_line_def Let_def)
  then show ?thesis
    using invertStatus_valid_twice [OF assms] by (cases iv1; cases iv2) simp_all
qed

lemma file_line_newline: "CHR 0x0A \<notin> set (f_name f) \<Longrightarrow> CHR 0x0A \<notin> set (file_line iv f)"
  using statusToString_blank(2) by (simp add: file_line_def Let_def)

lemma map_filter_map: "List.map_filter f (map g xs) = List.map_filter (f \<circ> g) xs"
  by (induction xs) (auto simp: map_filter_simps split: option.splits)

lemma map_filter_Some: "(\<And>x. x \<in> set xs \<Longrightarrow> f x = Some (g x)) \<Longrightarrow> List.map_filter f xs = map g xs"
  by (induction xs) (simp_all add: map_filter_simps)

lemma load_save_files:
  assumes "\<forall>f\<in>set fs. CHR 0x0A \<notin> set (f_name f) \<and> valid_status (pre_to_post_status f)"
    and "sorted (map f_name fs)"
  shows "load_files iv2 (save_files iv1 fs) =
    map (\<lambda>f. new_file (f_name f) ((if iv1 \<noteq> iv2 then invertStatus else id) (pre_to_post_status f))) fs"
proof -
  let ?g = "\<lambda>f. new_file (f_name f) ((if iv1 \<noteq> iv2 then invertStatus else id) (pre_to_post_status f))"
  have "read_lines (save_files iv1 fs) = map (file_line iv1) fs"
    unfolding save_files_def using assms(1) file_line_newline by (intro read_save_lines) auto
  moreover have "List.map_filter (parse_line iv2) (map (file_line iv1) fs) = map ?g fs"
    unfolding map_filter_map using assms(1) parse_file_line by (intro map_filter_Some) auto
  moreover have "sort_key f_name (map ?g fs) = map ?g fs"
    using assms(2) by (intro sort_key_id_if_sorted) (simp add: comp_def)
  ultimately show ?thesis by (simp add: load_files_def files_sort_def)
qed

end
