(* ===== verification/Filesystems.thy ===== *)
theory Filesystems
  imports Snapshot
begin

text \<open>
  The file systems: \<open>snapper/Filesystem.cc\<close> (the choice of the class and the mount options),
  \<open>snapper/Btrfs.cc\<close> (without \<open>send\<close>, which is in \<open>TreeNode\<close> and \<open>StreamProcessor\<close>),
  \<open>snapper/Lvm.cc\<close> and \<open>snapper/Ext4.cc\<close>.  An external program is an argument: it takes the
  command line and the world and gives the exit status, its output and the new world.
\<close>

type_synonym runner = "string \<Rightarrow> world \<Rightarrow> (int \<times> string list) \<times> world"

subsection \<open>Filesystem\<close>

definition ign_opt :: "string list" where
  "ign_opt = [''ro'', ''rw'', ''exec'', ''noexec'', ''suid'', ''nosuid'', ''dev'', ''nodev'',
     ''atime'', ''noatime'', ''diratime'', ''nodiratime'',
     ''relatime'', ''norelatime'', ''strictatime'', ''nostrictatime'']"

fun remove_options :: "string list \<Rightarrow> string list \<Rightarrow> string list" where
  "remove_options [] ret = ret"
| "remove_options (i # is) ret = remove_options is (filter (\<lambda>r. r \<noteq> i) ret)"

definition filter_mount_options :: "string list \<Rightarrow> string list" where
  "filter_mount_options options = remove_options ign_opt options"

definition mount_data :: "string list \<Rightarrow> string" where
  "mount_data options = join '','' options"

text \<open>\<open>getMtabData\<close>: the first entry for the mount point that is not \<open>rootfs\<close>; \<open>None\<close> when the
  table cannot be opened.\<close>

definition getMtabData :: "string \<Rightarrow> world \<Rightarrow> mtab_entry option option \<times> world" where
  "getMtabData mount_point w = (case sys_ok w of
       (Inr True, w') \<Rightarrow>
         (Some (find (\<lambda>m. mt_type m \<noteq> ''rootfs'' \<and> mt_dir m = mount_point) (mounts w')), w')
     | (_, w') \<Rightarrow> (None, w'))"

subsection \<open>Who may write to the directory of information files\<close>

record dstat =
  st_ino :: nat
  st_dir :: bool
  st_uid :: u32
  st_gid :: u32
  st_mode :: u32

definition S_IWUSR :: u32 where "S_IWUSR = 0x80"
definition S_IWGRP :: u32 where "S_IWGRP = 0x10"
definition S_IWOTH :: u32 where "S_IWOTH = 0x02"

definition is_subvolume :: "dstat \<Rightarrow> bool" where
  "is_subvolume st \<longleftrightarrow> st_ino st = 256 \<and> st_dir st"

definition lvm_check_infos :: "dstat \<Rightarrow> unit res" where
  "lvm_check_infos st =
     (if st_uid st \<noteq> 0 then Inl IOErrorException
      else if st_gid st \<noteq> 0 \<and> st_mode st AND S_IWGRP \<noteq> 0 then Inl IOErrorException
      else if st_mode st AND S_IWOTH \<noteq> 0 then Inl IOErrorException
      else Inr ())"

definition btrfs_openSubvolumeDir :: "dstat \<Rightarrow> unit res" where
  "btrfs_openSubvolumeDir subvolume =
     (if \<not> is_subvolume subvolume then Inl IOErrorException else Inr ())"

definition btrfs_openInfosDir :: "dstat \<Rightarrow> dstat \<Rightarrow> unit res" where
  "btrfs_openInfosDir subvolume st = bindR (btrfs_openSubvolumeDir subvolume) (\<lambda>_.
     if \<not> is_subvolume st then Inl IOErrorException
     else if st_uid st \<noteq> 0 then Inl IOErrorException
     else if st_gid st \<noteq> 0 \<and> st_mode st AND S_IWGRP \<noteq> 0 then Inl IOErrorException
     else if st_mode st AND S_IWOTH \<noteq> 0 then Inl IOErrorException
     else Inr ())"

subsection \<open>Btrfs\<close>

text \<open>The ioctls: a name that exists cannot be created; an older kernel does not know the second
  version of the call (\<open>ENOTTY\<close>, \<open>EINVAL\<close>); only a subvolume can be destroyed, and only when it
  contains no other.\<close>

datatype ioctl_res = IoOk | IoUnknown | IoFail

definition ioctl_snap_create :: "string \<Rightarrow> string \<Rightarrow> (world, ioctl_res) step" where
  "ioctl_snap_create dir name = bindS (getS (dir_entries dir)) (\<lambda>fs.
     if map_of fs name \<noteq> None then retS IoFail
     else bindS sys_ok (\<lambda>ok.
       if ok then thenS (modifyS (put_in dir name Subvol)) (retS IoOk)
       else bindS sys_ok (\<lambda>known. retS (if known then IoFail else IoUnknown))))"

definition create_snapshot :: "string \<Rightarrow> string \<Rightarrow> (world, bool) step" where
  "create_snapshot dir name = bindS (ioctl_snap_create dir name) (\<lambda>r.
     if r = IoOk then retS True
     else if r = IoFail then retS False
     else bindS (ioctl_snap_create dir name) (\<lambda>r. retS (r = IoOk)))"

definition delete_subvolume :: "string \<Rightarrow> string \<Rightarrow> (world, bool) step" where
  "delete_subvolume dir name = bindS sys_ok (\<lambda>ok. bindS (getS (dir_entries dir)) (\<lambda>fs.
     if ok \<and> map_of fs name = Some Subvol then thenS (modifyS (remove_in dir name)) (retS True)
     else retS False))"

definition open_subvolume_dir :: "(world, unit) step" where
  "open_subvolume_dir = sys IOErrorException"

definition fs_openInfoDir :: "u32 \<Rightarrow> (world, string) step" where
  "fs_openInfoDir num = thenS openInfosDir
     (let name = decString (unat num) in thenS (open_sub name) (retS name))"

definition btrfs_createConfig :: "(world, unit) step" where
  "btrfs_createConfig = thenS open_subvolume_dir (bindS sys_ok (\<lambda>ok. bindS (getS infos_exist) (\<lambda>e.
     if ok \<and> \<not> e then modifyS (\<lambda>w. w\<lparr>infos_exist := True, infos := []\<rparr>)
     else throwS (CreateConfigFailedException ''creating btrfs snapshot failed''))))"

definition nested_subvolume :: "world \<Rightarrow> bool" where
  "nested_subvolume w \<longleftrightarrow> list_ex (\<lambda>(n, e). case e of
     IDir fs \<Rightarrow> list_ex (\<lambda>(x, d). d = Subvol) fs | INonDir \<Rightarrow> False) (infos w)"

definition btrfs_deleteConfig :: "(world, unit) step" where
  "btrfs_deleteConfig = thenS open_subvolume_dir (bindS sys_ok (\<lambda>ok.
     bindS (getS (\<lambda>w. infos_exist w \<and> \<not> nested_subvolume w)) (\<lambda>e.
     if ok \<and> e then modifyS (\<lambda>w. w\<lparr>infos_exist := False, infos := []\<rparr>)
     else throwS (DeleteConfigFailedException ''deleting btrfs snapshot failed''))))"

definition snapshot_dir_below :: "string \<Rightarrow> u32 \<Rightarrow> string" where
  "snapshot_dir_below subvolume num = (if subvolume = ''/'' then [] else subvolume)
     @ ''/.snapshots/'' @ decString (unat num) @ ''/snapshot''"

definition btrfs_createSnapshot :: "u32 \<Rightarrow> (world, unit) step" where
  "btrfs_createSnapshot num = thenS open_subvolume_dir (bindS (fs_openInfoDir num) (\<lambda>dir.
     bindS (create_snapshot dir ''snapshot'') (\<lambda>ok. throw_ifS (\<not> ok) CreateSnapshotFailedException)))"

definition btrfs_deleteSnapshot :: "u32 \<Rightarrow> (world, unit) step" where
  "btrfs_deleteSnapshot num = bindS (fs_openInfoDir num) (\<lambda>dir.
     bindS (delete_subvolume dir ''snapshot'') (\<lambda>ok. throw_ifS (\<not> ok) DeleteSnapshotFailedException))"

definition btrfs_checkSnapshot :: "u32 \<Rightarrow> world \<Rightarrow> bool" where
  "btrfs_checkSnapshot num w \<longleftrightarrow>
     map_of (dir_entries (decString (unat num)) w) ''snapshot'' = Some Subvol"

definition btrfs_ops :: "string \<Rightarrow> fsops" where
  "btrfs_ops subvolume =
     \<lparr>fo_createConfig = btrfs_createConfig, fo_deleteConfig = btrfs_deleteConfig,
      fo_snapshotDir = snapshot_dir_below subvolume,
      fo_createSnapshot = btrfs_createSnapshot, fo_deleteSnapshot = btrfs_deleteSnapshot,
      fo_isSnapshotMounted = (\<lambda>num. retS True), fo_mountSnapshot = (\<lambda>num. retS ()),
      fo_umountSnapshot = (\<lambda>num. retS ()), fo_checkSnapshot = btrfs_checkSnapshot\<rparr>"

subsection \<open>Lvm\<close>

record lvm =
  lvm_subvolume :: string
  lvm_mount_type :: string
  lvm_vg_name :: string
  lvm_lv_name :: string
  lvm_mount_options :: "string list"

definition LVCREATEBIN :: string where "LVCREATEBIN = ''/sbin/lvcreate''"
definition LVREMOVEBIN :: string where "LVREMOVEBIN = ''/sbin/lvremove''"
definition LVSBIN :: string where "LVSBIN = ''/sbin/lvs''"

text \<open>\<open>boost::replace_all_copy\<close> of two dashes by one and of one dash by two.\<close>

fun undouble :: "string \<Rightarrow> string" where
  "undouble (c # d # s) = (if c = CHR ''-'' \<and> d = CHR ''-'' then CHR ''-'' # undouble s
     else c # undouble (d # s))"
| "undouble s = s"

fun double :: "string \<Rightarrow> string" where
  "double [] = []"
| "double (c # s) = (if c = CHR ''-'' then [CHR ''-'', CHR ''-''] else [c]) @ double s"

text \<open>The match of \<open>^/dev/mapper/(.+[^-])-([^-].+)$\<close>: the first group is as long as possible.\<close>

definition lvm_dash :: "string \<Rightarrow> nat \<Rightarrow> bool" where
  "lvm_dash s i \<longleftrightarrow> 2 \<le> i \<and> i + 2 < length s \<and> s ! i = CHR ''-''
     \<and> s ! (i - 1) \<noteq> CHR ''-'' \<and> s ! (i + 1) \<noteq> CHR ''-''"

definition lvm_names :: "string \<Rightarrow> (string \<times> string) option" where
  "lvm_names s = (case filter (lvm_dash s) [0..<length s] of
       [] \<Rightarrow> None
     | i # is \<Rightarrow> (let p = last (i # is) in Some (take p s, drop (Suc p) s)))"

definition detect_names :: "string \<Rightarrow> (string \<times> string) option" where
  "detect_names device = (if \<not> starts_with device ''/dev/mapper/'' then None
     else map_option (\<lambda>(vg, lv). (undouble vg, undouble lv)) (lvm_names (drop 12 device)))"

definition lvs_cmd :: "string \<Rightarrow> string \<Rightarrow> string" where
  "lvs_cmd vg lv = LVSBIN @ '' -o segtype --noheadings '' @ quote (vg @ ''/'' @ lv)"

definition detectThinVolumeNames ::
  "runner \<Rightarrow> mtab_entry \<Rightarrow> world \<Rightarrow> (string \<times> string) option \<times> world" where
  "detectThinVolumeNames run m w = (case detect_names (mt_device m) of
       None \<Rightarrow> (None, w)
     | Some (vg, lv) \<Rightarrow> (case run (lvs_cmd vg lv) w of ((ret, out), w') \<Rightarrow>
         if ret \<noteq> 0 then (None, w')
         else if trim is_space (if out = [] then [] else hd out) \<noteq> ''thin'' then (None, w')
         else (Some (vg, lv), w')))"

definition is_type_char :: "char \<Rightarrow> bool" where
  "is_type_char c \<longleftrightarrow> c = CHR ''_'' \<or> is_digit c \<or> (of_char c \<ge> (97::nat) \<and> of_char c \<le> (122::nat))"

text \<open>\<open>Lvm::create\<close>: the match of \<open>^lvm\(([_a-z0-9]+)\)$\<close>.\<close>

definition lvm_fstype :: "string \<Rightarrow> string option" where
  "lvm_fstype fstype =
     (if starts_with fstype ''lvm('' \<and> ends_with fstype '')'' \<and> length fstype > 5
         \<and> list_all is_type_char (butlast (drop 4 fstype))
      then Some (butlast (drop 4 fstype)) else None)"

definition lvm_new ::
  "runner \<Rightarrow> (string \<Rightarrow> bool) \<Rightarrow> string \<Rightarrow> string \<Rightarrow> (world, lvm) step" where
  "lvm_new run executable subvolume mount_type w =
     (if \<not> executable LVCREATEBIN
      then (Inl (ProgramNotInstalledException (LVCREATEBIN @ '' not installed'')), w)
      else if \<not> executable LVSBIN
      then (Inl (ProgramNotInstalledException (LVSBIN @ '' not installed'')), w)
      else (case getMtabData subvolume w of
          (None, w') \<Rightarrow> (Inl InvalidConfigException, w')
        | (Some None, w') \<Rightarrow> (Inl InvalidConfigException, w')
        | (Some (Some m), w') \<Rightarrow> (case detectThinVolumeNames run m w' of
              (None, w'') \<Rightarrow> (Inl InvalidConfigException, w'')
            | (Some (vg, lv), w'') \<Rightarrow>
                (Inr \<lparr>lvm_subvolume = subvolume, lvm_mount_type = mount_type,
                      lvm_vg_name = vg, lvm_lv_name = lv,
                      lvm_mount_options = filter_mount_options (mt_options m)
                        @ (if mount_type = ''xfs'' then [''nouuid''] else [])\<rparr>, w''))))"

definition snapshotLvName :: "lvm \<Rightarrow> u32 \<Rightarrow> string" where
  "snapshotLvName L num = lvm_lv_name L @ ''-snapshot'' @ decString (unat num)"

definition getDevice :: "lvm \<Rightarrow> u32 \<Rightarrow> string" where
  "getDevice L num = ''/dev/mapper/'' @ double (lvm_vg_name L) @ ''-'' @ double (snapshotLvName L num)"

definition lvcreate_cmd :: "lvm \<Rightarrow> u32 \<Rightarrow> string" where
  "lvcreate_cmd L num = LVCREATEBIN @ '' --permission r --snapshot --name ''
     @ quote (snapshotLvName L num) @ '' '' @ quote (lvm_vg_name L @ ''/'' @ lvm_lv_name L)"

definition lvremove_cmd :: "lvm \<Rightarrow> u32 \<Rightarrow> string" where
  "lvremove_cmd L num = LVREMOVEBIN @ '' --force '' @ quote (lvm_vg_name L @ ''/'' @ snapshotLvName L num)"

definition system_cmd :: "runner \<Rightarrow> string \<Rightarrow> (world, int) step" where
  "system_cmd run cmd w = (case run cmd w of ((ret, out), w') \<Rightarrow> (Inr ret, w'))"

text \<open>\<open>mkdir\<close> of the mount point; the directory may be there already.\<close>

definition mkdir_in :: "string \<Rightarrow> string \<Rightarrow> exn \<Rightarrow> (world, unit) step" where
  "mkdir_in dir name e = bindS (getS (dir_entries dir)) (\<lambda>fs.
     if map_of fs name \<noteq> None then retS ()
     else thenS (sys e) (modifyS (put_in dir name PlainDir)))"

definition rmdir_in :: "string \<Rightarrow> string \<Rightarrow> (world, unit) step" where
  "rmdir_in dir name = bindS sys_ok (\<lambda>ok. bindS (getS (dir_entries dir)) (\<lambda>fs.
     whenS (ok \<and> map_of fs name = Some PlainDir) (modifyS (remove_in dir name))))"

definition lvm_createConfig :: "(world, unit) step" where
  "lvm_createConfig = thenS open_subvolume_dir (bindS (getS infos_exist) (\<lambda>e.
     if e then retS ()
     else thenS (sys (CreateConfigFailedException ''mkdir failed''))
       (modifyS (\<lambda>w. w\<lparr>infos_exist := True, infos := []\<rparr>))))"

definition lvm_deleteConfig :: "(world, unit) step" where
  "lvm_deleteConfig = thenS open_subvolume_dir (bindS sys_ok (\<lambda>ok.
     bindS (getS (\<lambda>w. infos_exist w \<and> infos w = [])) (\<lambda>e.
     if ok \<and> e then modifyS (\<lambda>w. w\<lparr>infos_exist := False\<rparr>)
     else throwS (DeleteConfigFailedException ''rmdir failed''))))"

definition lvm_createSnapshot :: "runner \<Rightarrow> lvm \<Rightarrow> u32 \<Rightarrow> (world, unit) step" where
  "lvm_createSnapshot run L num = bindS (system_cmd run (lvcreate_cmd L num)) (\<lambda>ret.
     if ret \<noteq> 0 then throwS CreateSnapshotFailedException
     else bindS (fs_openInfoDir num) (\<lambda>dir. mkdir_in dir ''snapshot'' CreateSnapshotFailedException))"

definition lvm_deleteSnapshot :: "runner \<Rightarrow> lvm \<Rightarrow> u32 \<Rightarrow> (world, unit) step" where
  "lvm_deleteSnapshot run L num = bindS (system_cmd run (lvremove_cmd L num)) (\<lambda>ret.
     if ret \<noteq> 0 then throwS DeleteSnapshotFailedException
     else bindS (fs_openInfoDir num) (\<lambda>dir. thenS (rmdir_in dir ''snapshot'')
       (thenS openInfosDir (rmdir_info (decString (unat num))))))"

definition mounted_at :: "string \<Rightarrow> (world, bool) step" where
  "mounted_at mount_point w = (case getMtabData mount_point w of
       (None, w') \<Rightarrow> (Inl IsSnapshotMountedFailedException, w')
     | (Some m, w') \<Rightarrow> (Inr (m \<noteq> None), w'))"

definition lvm_isSnapshotMounted :: "lvm \<Rightarrow> u32 \<Rightarrow> (world, bool) step" where
  "lvm_isSnapshotMounted L num = mounted_at (snapshot_dir_below (lvm_subvolume L) num)"

definition lvm_mountSnapshot :: "lvm \<Rightarrow> u32 \<Rightarrow> (world, unit) step" where
  "lvm_mountSnapshot L num = bindS (lvm_isSnapshotMounted L num) (\<lambda>m.
     if m then retS ()
     else bindS (fs_openInfoDir num) (\<lambda>dir. thenS (sys IOErrorException)
       (thenS (sys MountSnapshotFailedException)
         (modifyS (\<lambda>w. w\<lparr>mounts := mounts w @
            [\<lparr>mt_device = getDevice L num, mt_dir = snapshot_dir_below (lvm_subvolume L) num,
              mt_type = lvm_mount_type L, mt_options = lvm_mount_options L\<rparr>]\<rparr>)))))"

fun remove_first :: "('a \<Rightarrow> bool) \<Rightarrow> 'a list \<Rightarrow> 'a list" where
  "remove_first p [] = []"
| "remove_first p (x # xs) = (if p x then xs else x # remove_first p xs)"

definition umount_at :: "string \<Rightarrow> (world, unit) step" where
  "umount_at mount_point = thenS (sys UmountSnapshotFailedException)
     (modifyS (\<lambda>w. w\<lparr>mounts := rev (remove_first (\<lambda>m. mt_dir m = mount_point) (rev (mounts w)))\<rparr>))"

definition lvm_umountSnapshot :: "lvm \<Rightarrow> u32 \<Rightarrow> (world, unit) step" where
  "lvm_umountSnapshot L num = bindS (lvm_isSnapshotMounted L num) (\<lambda>m.
     if \<not> m then retS ()
     else bindS (fs_openInfoDir num) (\<lambda>dir. umount_at (snapshot_dir_below (lvm_subvolume L) num)))"

definition lvm_checkSnapshot :: "lvm \<Rightarrow> u32 \<Rightarrow> world \<Rightarrow> bool" where
  "lvm_checkSnapshot L num w \<longleftrightarrow> getDevice L num \<in> set (devices w)"

definition lvm_ops :: "runner \<Rightarrow> lvm \<Rightarrow> fsops" where
  "lvm_ops run L =
     \<lparr>fo_createConfig = lvm_createConfig, fo_deleteConfig = lvm_deleteConfig,
      fo_snapshotDir = snapshot_dir_below (lvm_subvolume L),
      fo_createSnapshot = lvm_createSnapshot run L, fo_deleteSnapshot = lvm_deleteSnapshot run L,
      fo_isSnapshotMounted = lvm_isSnapshotMounted L, fo_mountSnapshot = lvm_mountSnapshot L,
      fo_umountSnapshot = lvm_umountSnapshot L, fo_checkSnapshot = lvm_checkSnapshot L\<rparr>"

subsection \<open>Ext4\<close>

record ext4 =
  ext4_subvolume :: string
  ext4_mount_options :: "string list"

definition CHSNAPBIN :: string where "CHSNAPBIN = ''/sbin/chsnap''"
definition CHATTRBIN :: string where "CHATTRBIN = ''/usr/bin/chattr''"
definition TOUCHBIN :: string where "TOUCHBIN = ''/usr/bin/touch''"

definition ext4_new :: "(string \<Rightarrow> bool) \<Rightarrow> string \<Rightarrow> (world, ext4) step" where
  "ext4_new executable subvolume w =
     (if \<not> executable CHSNAPBIN
      then (Inl (ProgramNotInstalledException (CHSNAPBIN @ '' not installed'')), w)
      else if \<not> executable CHATTRBIN
      then (Inl (ProgramNotInstalledException (CHATTRBIN @ '' not installed'')), w)
      else (case getMtabData subvolume w of
          (None, w') \<Rightarrow> (Inl InvalidConfigException, w')
        | (Some None, w') \<Rightarrow> (Inl InvalidConfigException, w')
        | (Some (Some m), w') \<Rightarrow>
            (Inr \<lparr>ext4_subvolume = subvolume,
                  ext4_mount_options = filter_mount_options (mt_options m) @ [''loop'', ''noload'']\<rparr>, w')))"

definition ext4_snapshotDir :: "string \<Rightarrow> u32 \<Rightarrow> string" where
  "ext4_snapshotDir subvolume num = subvolume @ ''@'' @ decString (unat num)"

definition ext4_snapshotFile :: "string \<Rightarrow> u32 \<Rightarrow> string" where
  "ext4_snapshotFile subvolume num =
     (if subvolume = ''/'' then [] else subvolume) @ ''/.snapshots/'' @ decString (unat num)"

text \<open>A command whose exit status is not 0 raises \<open>e\<close>.\<close>

definition cmd_or :: "runner \<Rightarrow> string \<Rightarrow> exn \<Rightarrow> (world, unit) step" where
  "cmd_or run cmd e = bindS (system_cmd run cmd) (\<lambda>ret. throw_ifS (ret \<noteq> 0) e)"

text \<open>\<open>createConfig\<close> makes \<open>.snapshots\<close> and \<open>.snapshots/.info\<close>; the attribute is only set on a
  directory that was made.\<close>

definition ext4_createConfig :: "runner \<Rightarrow> string \<Rightarrow> (world, unit) step" where
  "ext4_createConfig run subvolume =
     thenS (bindS (getS infos_exist) (\<lambda>e.
         if e then retS ()
         else thenS (sys (CreateConfigFailedException ''mkdir failed''))
           (thenS (modifyS (\<lambda>w. w\<lparr>infos_exist := True, infos := []\<rparr>))
             (cmd_or run (CHATTRBIN @ '' +x '' @ quote (subvolume @ ''/.snapshots''))
               (CreateConfigFailedException ''chattr failed'')))))
       (bindS (getS infos) (\<lambda>is.
         if map_of is ''.info'' \<noteq> None then retS ()
         else thenS (sys (CreateConfigFailedException ''mkdir failed''))
           (thenS (modifyS (put_entries ''.info'' []))
             (cmd_or run (CHATTRBIN @ '' -x '' @ quote (subvolume @ ''/.snapshots/.info''))
               (CreateConfigFailedException ''chattr failed'')))))"

definition ext4_deleteConfig :: "(world, unit) step" where
  "ext4_deleteConfig =
     thenS (bindS sys_ok (\<lambda>ok. bindS (getS infos) (\<lambda>is.
         if ok \<and> map_of is ''.info'' = Some (IDir [])
         then modifyS (\<lambda>w. w\<lparr>infos := AList.delete ''.info'' is\<rparr>)
         else throwS (DeleteConfigFailedException ''rmdir failed''))))
       (bindS sys_ok (\<lambda>ok. bindS (getS (\<lambda>w. infos_exist w \<and> infos w = [])) (\<lambda>e.
         if ok \<and> e then modifyS (\<lambda>w. w\<lparr>infos_exist := False\<rparr>)
         else throwS (DeleteConfigFailedException ''rmdir failed''))))"

definition ext4_createSnapshot :: "runner \<Rightarrow> string \<Rightarrow> u32 \<Rightarrow> (world, unit) step" where
  "ext4_createSnapshot run subvolume num =
     thenS (cmd_or run (TOUCHBIN @ '' '' @ quote (ext4_snapshotFile subvolume num)) CreateSnapshotFailedException)
       (cmd_or run (CHSNAPBIN @ '' +S '' @ quote (ext4_snapshotFile subvolume num)) CreateSnapshotFailedException)"

definition ext4_deleteSnapshot :: "runner \<Rightarrow> string \<Rightarrow> u32 \<Rightarrow> (world, unit) step" where
  "ext4_deleteSnapshot run subvolume num =
     cmd_or run (CHSNAPBIN @ '' -S '' @ quote (ext4_snapshotFile subvolume num)) DeleteSnapshotFailedException"

definition ext4_isSnapshotMounted :: "string \<Rightarrow> u32 \<Rightarrow> (world, bool) step" where
  "ext4_isSnapshotMounted subvolume num = mounted_at (ext4_snapshotDir subvolume num)"

text \<open>The mount itself is commented out in the source: only the snapshot is enabled and the mount
  point made.\<close>

definition ext4_mountSnapshot :: "runner \<Rightarrow> string \<Rightarrow> u32 \<Rightarrow> (world, unit) step" where
  "ext4_mountSnapshot run subvolume num = bindS (ext4_isSnapshotMounted subvolume num) (\<lambda>m.
     if m then retS ()
     else thenS (cmd_or run (CHSNAPBIN @ '' +n '' @ quote (ext4_snapshotFile subvolume num)) MountSnapshotFailedException)
       (sys MountSnapshotFailedException))"

definition ext4_umountSnapshot :: "runner \<Rightarrow> string \<Rightarrow> u32 \<Rightarrow> (world, unit) step" where
  "ext4_umountSnapshot run subvolume num = bindS (ext4_isSnapshotMounted subvolume num) (\<lambda>m.
     if \<not> m then retS ()
     else thenS (cmd_or run (CHSNAPBIN @ '' -n '' @ quote (ext4_snapshotFile subvolume num)) UmountSnapshotFailedException)
       (bindS sys_ok (\<lambda>_. retS ())))"

definition ext4_checkSnapshot :: "string \<Rightarrow> u32 \<Rightarrow> world \<Rightarrow> bool" where
  "ext4_checkSnapshot subvolume num w \<longleftrightarrow> ext4_snapshotFile subvolume num \<in> set (devices w)"

definition ext4_ops :: "runner \<Rightarrow> ext4 \<Rightarrow> fsops" where
  "ext4_ops run E = (let subvolume = ext4_subvolume E in
     \<lparr>fo_createConfig = ext4_createConfig run subvolume, fo_deleteConfig = ext4_deleteConfig,
      fo_snapshotDir = ext4_snapshotDir subvolume,
      fo_createSnapshot = ext4_createSnapshot run subvolume,
      fo_deleteSnapshot = ext4_deleteSnapshot run subvolume,
      fo_isSnapshotMounted = ext4_isSnapshotMounted subvolume,
      fo_mountSnapshot = ext4_mountSnapshot run subvolume,
      fo_umountSnapshot = ext4_umountSnapshot run subvolume,
      fo_checkSnapshot = ext4_checkSnapshot subvolume\<rparr>)"

subsection \<open>The choice of the file system\<close>

text \<open>\<open>Filesystem::create\<close> asks the classes in this order; the first that knows the type is taken.\<close>

definition filesystem_create ::
  "runner \<Rightarrow> (string \<Rightarrow> bool) \<Rightarrow> string \<Rightarrow> string \<Rightarrow> (world, fsops) step" where
  "filesystem_create run executable fstype subvolume =
     (if fstype = ''btrfs'' then retS (btrfs_ops subvolume)
      else if fstype = ''ext4'' then bindS (ext4_new executable subvolume) (\<lambda>E. retS (ext4_ops run E))
      else (case lvm_fstype fstype of
          Some mount_type \<Rightarrow> bindS (lvm_new run executable subvolume mount_type) (\<lambda>L. retS (lvm_ops run L))
        | None \<Rightarrow> throwS InvalidConfigException))"

end
