(* ===== verification/SnapshotDisk.thy ===== *)
theory SnapshotDisk
  imports Snapshots
begin

text \<open>
  What is on disk, as a function of a directory and a name, and what the operations on the
  directories change of it.  The information file of a snapshot is read back as the snapshot that was
  written (up to the members that are not stored).
\<close>

named_theorems frame \<open>what a step leaves alone\<close>

definition entry :: "world \<Rightarrow> string \<Rightarrow> string \<Rightarrow> dnode option" where
  "entry w n x = map_of (dir_entries n w) x"

lemma dir_entries_simps [simp]:
  "dir_entries n (w\<lparr>faults := f\<rparr>) = dir_entries n w"
  "dir_entries n (w\<lparr>mktemp_value := v\<rparr>) = dir_entries n w"
  "dir_entries n (put_entries m fs w) = (if n = m then fs else dir_entries n w)"
  by (auto simp: dir_entries_def put_entries_def update_conv')

lemma put_entries_simps [simp]:
  "devices (put_entries m fs w) = devices w"
  "faults (put_entries m fs w) = faults w"
  "clock (put_entries m fs w) = clock w"
  by (simp_all add: put_entries_def)

lemma put_in_simps [simp]:
  "devices (put_in d x y w) = devices w" "devices (remove_in d x w) = devices w"
  "clock (put_in d x y w) = clock w" "clock (remove_in d x w) = clock w"
  by (simp_all add: put_in_def remove_in_def)

lemma entry_simps [simp]:
  "entry (w\<lparr>faults := f\<rparr>) n x = entry w n x"
  "entry (w\<lparr>mktemp_value := v\<rparr>) n x = entry w n x"
  "entry (put_in d y z w) n x = (if n = d \<and> x = y then Some z else entry w n x)"
  "entry (remove_in d y w) n x = (if n = d \<and> x = y then None else entry w n x)"
  by (auto simp: entry_def put_in_def remove_in_def update_conv' delete_conv')

lemma names_put_in:
  "map_of (infos w) d \<noteq> None \<Longrightarrow> map fst (infos (put_in d x y w)) = map fst (infos w)"
  "map_of (infos w) d \<noteq> None \<Longrightarrow> map fst (infos (remove_in d x w)) = map fst (infos w)"
  by (simp_all add: put_in_def remove_in_def put_entries_def update_keys map_of_eq_None_iff)

subsection \<open>Steps that only consume the script of faults\<close>

definition only_faults :: "world \<Rightarrow> world \<Rightarrow> bool" where
  "only_faults w w' \<longleftrightarrow> (\<exists>f. w' = w\<lparr>faults := f\<rparr>)"

lemma only_faults_refl [simp]: "only_faults w w"
  by (auto simp: only_faults_def intro: exI [of _ "faults w"])

lemma sys_ok_cases: obtains b f where "sys_ok w = (Inr b, w\<lparr>faults := f\<rparr>)"
proof (cases "faults w")
  case Nil
  then have "sys_ok w = (Inr True, w\<lparr>faults := []\<rparr>)" by (simp add: sys_ok_def)
  then show ?thesis by (rule that)
next
  case (Cons b bs)
  then have "sys_ok w = (Inr (\<not> b), w\<lparr>faults := bs\<rparr>)" by (simp add: sys_ok_def)
  then show ?thesis by (rule that)
qed

lemma sys_cases:
  obtains f where "sys e w = (Inr (), w\<lparr>faults := f\<rparr>)" | f where "sys e w = (Inl e, w\<lparr>faults := f\<rparr>)"
proof -
  obtain b f where "sys_ok w = (Inr b, w\<lparr>faults := f\<rparr>)" by (rule sys_ok_cases)
  then show ?thesis using that by (cases b) (auto simp: sys_def)
qed

lemma sys_Inr: "sys e w = (Inr u, w') \<Longrightarrow> \<exists>f. w' = w\<lparr>faults := f\<rparr>"
  by (rule sys_cases [of e w]) auto

lemma sys_no_faults [simp]:
  "faults w = [] \<Longrightarrow> sys e w = (Inr (), w)" "faults w = [] \<Longrightarrow> sys_ok w = (Inr True, w)"
  by (simp_all add: sys_def sys_ok_def)

lemma open_sub_Inr:
  "open_sub n w = (Inr fs, w') \<Longrightarrow>
     map_of (infos w) n = Some (IDir fs) \<and> (\<exists>f. w' = w\<lparr>faults := f\<rparr>)"
  by (rule sys_cases [of IOErrorException w]) (auto simp: open_sub_def split: option.splits ientry.splits)

lemma openInfoDir_Inr:
  assumes "openInfoDir s w = (Inr d, w')"
  shows "\<not> isCurrent s \<and> d = decString (unat (sn_num s)) \<and> (\<exists>fs. map_of (infos w) d = Some (IDir fs))
    \<and> (\<exists>f. w' = w\<lparr>faults := f\<rparr>)"
  using assms
  by (auto simp: openInfoDir_def openInfosDir_def Let_def bindS_Inr simp del: decString.simps
      dest!: sys_Inr open_sub_Inr split: if_splits)

subsection \<open>Temporary names are new\<close>

lemma length_mktemp_suffix [simp]: "length (mktemp_suffix n v) = n"
  by (induction n v rule: mktemp_suffix.induct) auto

lemma length_mktemp_name: "6 \<le> length t \<Longrightarrow> length (mktemp_name t v) = length t"
  by (simp add: mktemp_name_def)

lemma mktemp_loop_Some:
  "mktemp_loop k t used v = (Some n, v') \<Longrightarrow> n \<notin> set used \<and> (\<exists>v. n = mktemp_name t v)"
proof (induction k t used v rule: mktemp_loop.induct)
  case (1 k t used v)
  then show ?case by (auto simp: mktemp_loop.simps [of k] split: if_splits)
qed

definition untouched :: "world \<Rightarrow> world \<Rightarrow> bool" where
  "untouched w w' \<longleftrightarrow> devices w' = devices w \<and> clock w' = clock w \<and> map fst (infos w') = map fst (infos w)"

lemma untouched_simps [simp]:
  "untouched w (w'\<lparr>faults := f\<rparr>) = untouched w w'"
  "untouched w (w'\<lparr>mktemp_value := v\<rparr>) = untouched w w'"
  "untouched w w"
  by (simp_all add: untouched_def)

lemma untouched_put_in [simp]:
  "map_of (infos w') d \<noteq> None \<Longrightarrow> untouched w (put_in d x y w') = untouched w w'"
  "map_of (infos w') d \<noteq> None \<Longrightarrow> untouched w (remove_in d x w') = untouched w w'"
  by (simp_all add: untouched_def names_put_in)

lemma untouched_trans: "untouched w1 w2 \<Longrightarrow> untouched w2 w3 \<Longrightarrow> untouched w1 w3"
  by (simp add: untouched_def)

lemma untouched_dom: "untouched w w' \<Longrightarrow> map_of (infos w') d \<noteq> None \<longleftrightarrow> map_of (infos w) d \<noteq> None"
  by (metis map_of_eq_None_iff set_map untouched_def)

lemma mktemp_spec:
  assumes "mktemp d t w = (r, w')" "6 \<le> length t" "map_of (infos w) d \<noteq> None"
  obtains "r = Inr None" "untouched w w'" "\<And>n x. entry w' n x = entry w n x"
  | name where "r = Inr (Some name)" "untouched w w'" "entry w d name = None" "length name = length t"
      "\<And>n x. entry w' n x = (if n = d \<and> x = name then Some (Reg []) else entry w n x)"
proof -
  obtain b f where ok: "sys_ok w = (Inr b, w\<lparr>faults := f\<rparr>)" by (rule sys_ok_cases)
  obtain r' v' where l: "mktemp_loop (62 * 62 * 62) t (map fst (dir_entries d w)) (mktemp_value w) = (r', v')"
    by (cases "mktemp_loop (62 * 62 * 62) t (map fst (dir_entries d w)) (mktemp_value w)") auto
  have eq: "mktemp d t w = (case r' of
       None \<Rightarrow> (Inr None, w\<lparr>faults := f, mktemp_value := v'\<rparr>)
     | Some name \<Rightarrow> if b then (Inr (Some name), put_in d name (Reg []) (w\<lparr>faults := f, mktemp_value := v'\<rparr>))
         else (Inr None, w\<lparr>faults := f, mktemp_value := v'\<rparr>))"
    using ok l by (simp add: mktemp_def split: option.splits)
  show ?thesis
  proof (cases "r' = None \<or> \<not> b")
    case True
    then show ?thesis using eq assms that(1) by (auto split: option.splits)
  next
    case False
    then obtain name where n: "r' = Some name" "b" by auto
    then show ?thesis
      using eq assms l mktemp_loop_Some [of "62 * 62 * 62" t "map fst (dir_entries d w)" "mktemp_value w" name v']
      by (intro that(2) [of name]) (auto simp: entry_def [of w] map_of_eq_None_iff length_mktemp_name)
  qed
qed

subsection \<open>The information file\<close>

definition persistent :: "snapshot \<Rightarrow> snapshot" where
  "persistent s = s\<lparr>sn_info_modified := False, sn_mount_checked := False,
     sn_mount_user_request := False, sn_mount_use_count := 0\<rparr>"

text \<open>The snapshots the library stores: what the setters and the constructors can produce.\<close>

definition storable :: "snapshot \<Rightarrow> bool" where
  "storable s \<longleftrightarrow> sn_num s \<noteq> 0 \<and> - 62167219200 \<le> sn_date s \<and> sn_date s < 253402300800 \<and> sn_date s \<noteq> - 1
     \<and> (sn_type s \<noteq> POST \<longrightarrow> sn_pre_num s = 0)
     \<and> sm_wf (sn_userdata s) \<and> list_all (\<lambda>(k, v). k \<noteq> []) (sn_userdata s)"

lemma read_pairs_fold:
  "list_all (\<lambda>(k, v). k \<noteq> []) kvs \<Longrightarrow>
   read_pairs (map (\<lambda>(k, v). [xnorm (setChildValue ''key'' k), xnorm (setChildValue ''value'' v)]) kvs) m
     = fold (\<lambda>(k, v). sm_put k v) kvs m"
  by (induction kvs arbitrary: m) auto

lemma fold_put_id: "sm_wf m \<Longrightarrow> fold (\<lambda>(k, v). sm_put k v) m [] = m"
proof (rule sm_wf_ext)
  assume wf: "sm_wf m"
  show "sm_wf (fold (\<lambda>(k, v). sm_put k v) m [])"
    by (rule smap.wf_fold_put) simp
  have "map_of (rev m) = map_of m"
    using sm_wf_distinct [OF wf] by (simp add: map_of_inject_set rev_map [symmetric])
  then show "map_of (fold (\<lambda>(k, v). sm_put k v) m []) = map_of m"
    by (auto simp: smap.get_fold_put fun_eq_iff split: option.splits)
qed

definition ud_elem :: "string \<times> string \<Rightarrow> xnode" where
  "ud_elem = (\<lambda>(k, v). Elem ''userdata'' [setChildValue ''key'' k, setChildValue ''value'' v])"

lemma ud_elem_norm:
  "xnorm (ud_elem kv) = Elem ''userdata'' [xnorm (setChildValue ''key'' (fst kv)), xnorm (setChildValue ''value'' (snd kv))]"
  by (cases kv) (simp add: ud_elem_def setChildValue_def)

lemma getChildNodes_ud:
  "getChildNodes (map (xnorm \<circ> ud_elem) kvs) ''userdata''
     = map (\<lambda>(k, v). [xnorm (setChildValue ''key'' k), xnorm (setChildValue ''value'' v)]) kvs"
  by (induction kvs) (auto simp: ud_elem_norm is_element_def)

lemma getChildValue_ud: "x \<noteq> ''userdata'' \<Longrightarrow> getChildValue (map (xnorm \<circ> ud_elem) kvs) x = None"
  by (induction kvs) (auto simp: ud_elem_norm is_element_def)

lemma not_empty_text: "Elem n cs \<noteq> Text t" by simp

lemma info_nodes_norm:
  "map xnorm (filter (\<lambda>c. c \<noteq> Text []) (info_nodes s)) =
     [xnorm (setChildValue ''type'' (type_names ! enum_num (sn_type s))),
      xnorm (setChildValue ''num'' (decString (unat (sn_num s)))),
      xnorm (setChildValue ''date'' (datetime (sn_date s))),
      xnorm (setChildValue ''uid'' (decString (unat (sn_uid s))))]
     @ (if sn_type s = POST then [xnorm (setChildValue ''pre_num'' (decString (unat (sn_pre_num s))))] else [])
     @ (if sn_description s \<noteq> [] then [xnorm (setChildValue ''description'' (sn_description s))] else [])
     @ (if sn_cleanup s \<noteq> [] then [xnorm (setChildValue ''cleanup'' (sn_cleanup s))] else [])
     @ map (xnorm \<circ> ud_elem) (sn_userdata s)"
proof -
  have u: "filter (\<lambda>c. c \<noteq> Text []) (map (\<lambda>(k, v). Elem ''userdata''
      [setChildValue ''key'' k, setChildValue ''value'' v]) kvs) = map ud_elem kvs" for kvs
    by (induction kvs) (auto simp: ud_elem_def)
  show ?thesis
    by (simp add: info_nodes_def setChildUint_def u del: decString.simps)
qed

lemma toValue_name: "toValue (type_names ! enum_num t) = Some t"
  by (cases t) (auto simp: toValue_def type_names_def enum_num_def enum_of_def)

lemma read_info_write:
  assumes "storable s"
  shows "read_info (decString (unat (sn_num s))) (xnorm (info_doc s)) = Some (persistent s)"
proof -
  define ns where "ns = map xnorm (filter (\<lambda>c. c \<noteq> Text []) (info_nodes s))"
  have root: "getChildNode [xnorm (info_doc s)] ''snapshot'' = ns"
    using info_nodes_norm [of s] by (simp add: info_doc_def ns_def del: decString.simps)
  have date: "scan_datetime (datetime (sn_date s)) = sn_date s"
    using assms by (intro scan_datetime_datetime) (auto simp: storable_def)
  have ud: "read_pairs (getChildNodes ns ''userdata'') [] = sn_userdata s"
    using assms read_pairs_fold [of "sn_userdata s" "[]"] fold_put_id [of "sn_userdata s"]
    by (simp add: ns_def info_nodes_norm getChildNodes_ud storable_def del: decString.simps)
  have v: "getChildValue ns ''type'' = Some (type_names ! enum_num (sn_type s))"
    "getChildValue ns ''num'' = Some (decString (unat (sn_num s)))"
    "getChildValue ns ''date'' = Some (datetime (sn_date s))"
    "getChildValue ns ''uid'' = Some (decString (unat (sn_uid s)))"
    "getChildValue ns ''pre_num'' = (if sn_type s = POST then Some (decString (unat (sn_pre_num s))) else None)"
    "getChildValue ns ''description'' = (if sn_description s = [] then None else Some (sn_description s))"
    "getChildValue ns ''cleanup'' = (if sn_cleanup s = [] then None else Some (sn_cleanup s))"
    by (simp_all add: ns_def info_nodes_norm getChildValue_ud del: decString.simps)
  have n: "sn_num s \<noteq> 0" "sn_date s \<noteq> - 1" and p: "sn_type s \<noteq> POST \<Longrightarrow> sn_pre_num s = 0"
    using assms by (auto simp: storable_def)
  show ?thesis
    unfolding read_info_def root Let_def ud getChildUint_def v
    using n p by (simp add: toValue_name date persistent_def new_snapshot_def del: decString.simps)
qed

text \<open>A write that returns replaced the information file by the printed document and changed nothing
  else; a write that throws may leave a temporary file, never a changed information file.\<close>

lemma length_tmp [simp]: "length ''info.xml.tmp-XXXXXX'' = 19"
  by simp

lemma writeInfo_Inr:
  assumes "writeInfo X s w = (Inr u, w')"
  defines "d \<equiv> decString (unat (sn_num s))"
  shows "entry w' n x = (if n = d \<and> x = ''info.xml'' then Some (Reg (xml_dump X (info_doc s))) else entry w n x)"
    and "untouched w w'" and "\<exists>fs. map_of (infos w) d = Some (IDir fs)" and "sn_num s \<noteq> 0"
proof -
  from assms(1) obtain d' w1 t w2 x3 w3 where o': "openInfoDir s w = (Inr d', w1)"
    and m': "mktemp d' ''info.xml.tmp-XXXXXX'' w1 = (Inr t, w2)"
    and v': "save_doc X d' t (info_doc s) w2 = (Inr x3, w3)"
    and r': "rename_in d' (the t) ''info.xml'' w3 = (Inr u, w')"
    unfolding writeInfo_def bindS_Inr by blast
  have d': "d' = d" using openInfoDir_Inr [OF o'] by (simp add: d_def)
  note o = o' [unfolded d'] and m = m' [unfolded d'] and v = v' [unfolded d'] and r = r' [unfolded d']
  from openInfoDir_Inr [OF o] obtain f where w1: "w1 = w\<lparr>faults := f\<rparr>"
    and dir: "\<exists>fs. map_of (infos w) d = Some (IDir fs)" and cur: "sn_num s \<noteq> 0"
    by (auto simp: d_def isCurrent_def simp del: decString.simps)
  have dom: "map_of (infos w1) d \<noteq> None" using dir w1 by auto
  obtain name where t: "t = Some name" and new: "entry w1 d name = None" and len: "length name = 19"
    and w2: "untouched w1 w2" "\<And>n x. entry w2 n x = (if n = d \<and> x = name then Some (Reg []) else entry w1 n x)"
  proof (rule mktemp_spec [OF m _ dom])
    assume "(Inr t :: exn + string option) = Inr None"
    then show thesis using v by (simp add: save_doc_def)
  next
    fix name
    assume "(Inr t :: exn + string option) = Inr (Some name)" "untouched w1 w2" "entry w1 d name = None"
      "length name = length ''info.xml.tmp-XXXXXX''"
      "\<And>n x. entry w2 n x = (if n = d \<and> x = name then Some (Reg []) else entry w1 n x)"
    then show thesis by (intro that [of name]) simp_all
  qed simp
  have dom2: "map_of (infos w2) d \<noteq> None" using dom untouched_dom [OF w2(1)] by auto
  obtain f3 where w3: "w3 = put_in d name (Reg (xml_dump X (info_doc s))) (w2\<lparr>faults := f3\<rparr>)"
    using v t by (rule_tac sys_cases [of IOErrorException w2]) (auto simp: save_doc_def)
  obtain f4 where w': "w' = put_in d ''info.xml'' (Reg (xml_dump X (info_doc s))) (remove_in d name (w3\<lparr>faults := f4\<rparr>))"
  proof (rule sys_cases [of IOErrorException w3])
    fix f assume "sys IOErrorException w3 = (Inr (), w3\<lparr>faults := f\<rparr>)"
    moreover have "map_of (dir_entries d w3) name = Some (Reg (xml_dump X (info_doc s)))"
      using w3 entry_simps(3) [of d name _ "w2\<lparr>faults := f3\<rparr>" d name] by (simp add: entry_def)
    ultimately show thesis using r t that [of f] by (simp add: rename_in_def)
  next
    fix f assume "sys IOErrorException w3 = (Inl IOErrorException, w3\<lparr>faults := f\<rparr>)"
    then show thesis using r by (simp add: rename_in_def)
  qed
  have dom3: "map_of (infos w3) d \<noteq> None"
    using dom2 w3 untouched_dom [of w2 w3 d] by simp
  have "name \<noteq> ''info.xml''" using len by auto
  then show "entry w' n x = (if n = d \<and> x = ''info.xml'' then Some (Reg (xml_dump X (info_doc s))) else entry w n x)"
    using new by (auto simp: w' w3 w2 w1)
  have u: "untouched w w3"
    using w2(1) w3 w1 dom2 by (simp add: untouched_def names_put_in)
  let ?w4 = "remove_in d name (w3\<lparr>faults := f4\<rparr>)"
  have u4: "untouched w3 ?w4"
    using dom3 by (simp add: untouched_def names_put_in)
  moreover have "untouched ?w4 w'"
    using untouched_dom [OF u4, of d] dom3 by (simp add: untouched_def names_put_in w')
  ultimately show "untouched w w'" using u untouched_trans by blast
  show "\<exists>fs. map_of (infos w) d = Some (IDir fs)" "sn_num s \<noteq> 0" using dir cur by auto
qed

text \<open>The relation of a step that may leave garbage, but no other information file and no other
  snapshot.\<close>

definition quiet :: "world \<Rightarrow> world \<Rightarrow> bool" where
  "quiet w w' \<longleftrightarrow> devices w' = devices w
     \<and> (\<forall>n. entry w' n ''info.xml'' = entry w n ''info.xml'' \<and> entry w' n ''snapshot'' = entry w n ''snapshot'')
     \<and> (distinct (map fst (infos w)) \<longrightarrow> distinct (map fst (infos w')))"

lemma quietD:
  "quiet w w' \<Longrightarrow> devices w' = devices w"
  "quiet w w' \<Longrightarrow> entry w' n ''info.xml'' = entry w n ''info.xml''"
  "quiet w w' \<Longrightarrow> entry w' n ''snapshot'' = entry w n ''snapshot''"
  by (simp_all add: quiet_def)

lemma quiet_simps [simp]:
  "quiet w w" "quiet w (w'\<lparr>faults := f\<rparr>) = quiet w w'" "quiet w (w'\<lparr>mktemp_value := v\<rparr>) = quiet w w'"
  by (simp_all add: quiet_def)

lemma quiet_trans: "quiet w1 w2 \<Longrightarrow> quiet w2 w3 \<Longrightarrow> quiet w1 w3"
  by (simp add: quiet_def)

lemma distinct_put_in:
  "distinct (map fst (infos w)) \<Longrightarrow> distinct (map fst (infos (put_in d x y w)))"
  "distinct (map fst (infos w)) \<Longrightarrow> distinct (map fst (infos (remove_in d x w)))"
  by (simp_all add: put_in_def remove_in_def put_entries_def distinct_update)

lemma quiet_put_in [simp]:
  "x \<noteq> ''info.xml'' \<Longrightarrow> x \<noteq> ''snapshot'' \<Longrightarrow> quiet w w' \<Longrightarrow> quiet w (put_in d x y w')"
  "x \<noteq> ''info.xml'' \<Longrightarrow> x \<noteq> ''snapshot'' \<Longrightarrow> quiet w w' \<Longrightarrow> quiet w (remove_in d x w')"
  using distinct_put_in by (auto simp: quiet_def)

lemma quiet_sys [simp]: "quiet w (snd (sys e w))"
  by (rule sys_cases [of e w]) simp_all

lemma quiet_bind:
  assumes "bindS m f w = (r, w')"
    and "\<And>r1 w1. m w = (r1, w1) \<Longrightarrow> quiet w w1"
    and "\<And>a w1. m w = (Inr a, w1) \<Longrightarrow> f a w1 = (r, w') \<Longrightarrow> quiet w1 w'"
  shows "quiet w w'"
proof (cases "m w")
  case (Pair r1 w1)
  then show ?thesis
    using assms quiet_trans by (cases r1) (auto simp: bindS_def)
qed

lemma quiet_info:
  "sys_ok w = (r1, w') \<Longrightarrow> quiet w w'"
  "sys e w = (r2, w') \<Longrightarrow> quiet w w'"
  "open_sub n w = (r3, w') \<Longrightarrow> quiet w w'"
  "openInfosDir w = (r2, w') \<Longrightarrow> quiet w w'"
  subgoal by (rule sys_ok_cases [of w]) auto
  subgoal by (rule sys_cases [of e w]) auto
  subgoal by (rule sys_cases [of IOErrorException w])
      (auto simp: open_sub_def split: option.splits ientry.splits)
  subgoal unfolding openInfosDir_def by (rule sys_cases [of IOErrorException w]) auto
  done

lemma quiet_openInfoDir: "openInfoDir s w = (r, w') \<Longrightarrow> quiet w w'"
  by (auto simp: openInfoDir_def Let_def simp del: decString.simps split: if_splits
      elim!: quiet_bind dest: quiet_info)

lemma quiet_unlink_in:
  assumes "unlink_in d x w = (r, w')" "x \<noteq> ''info.xml''" "x \<noteq> ''snapshot''"
  shows "quiet w w'"
  using assms by (rule_tac sys_ok_cases [of w])
    (auto simp: unlink_in_def whenS_def split: option.splits dnode.splits if_splits)

lemma quiet_rmdir_info:
  assumes "rmdir_info n w = (r, w')"
  shows "quiet w w'"
proof (rule sys_ok_cases [of w])
  fix b f assume ok: "sys_ok w = (Inr b, w\<lparr>faults := f\<rparr>)"
  have "entry (w\<lparr>faults := f, infos := AList.delete n (infos w)\<rparr>) m x = entry w m x"
    if "map_of (infos w) n = Some (IDir [])" for m x
    using that by (auto simp: entry_def dir_entries_def delete_conv')
  then show ?thesis
    using ok assms distinct_delete [of "infos w" n]
    by (auto simp: rmdir_info_def whenS_def quiet_def split: if_splits)
qed

text \<open>A failed write.\<close>

lemma quiet_writeInfo:
  assumes "writeInfo X s w = (Inl e, w')"
  shows "quiet w w'"
proof (cases "openInfoDir s w")
  case (Pair r w1)
  show ?thesis
  proof (cases r)
    case (Inl e1)
    then show ?thesis using Pair assms quiet_openInfoDir [OF Pair] by (auto simp: writeInfo_def bindS_def)
  next
    case (Inr d)
    have q1: "quiet w w1" using quiet_openInfoDir [OF Pair] .
    have dom: "map_of (infos w1) d \<noteq> None" using openInfoDir_Inr [of s w d w1] Pair Inr by auto
    obtain r2 w2 where m: "mktemp d ''info.xml.tmp-XXXXXX'' w1 = (r2, w2)" by fastforce
    show ?thesis
    proof (rule mktemp_spec [OF m _ dom])
      assume "r2 = Inr None" "\<And>n x. entry w2 n x = entry w1 n x" "untouched w1 w2"
      then show ?thesis
        using assms Pair Inr m q1 by (auto simp: writeInfo_def save_doc_def quiet_def untouched_def)
    next
      fix name
      assume n: "r2 = Inr (Some name)" "length name = length ''info.xml.tmp-XXXXXX''" "untouched w1 w2"
        and e2: "\<And>n x. entry w2 n x = (if n = d \<and> x = name then Some (Reg []) else entry w1 n x)"
      have ne: "name \<noteq> ''info.xml''" "name \<noteq> ''snapshot''" using n by auto
      have q2: "quiet w w2" using q1 e2 n ne by (auto simp: quiet_def untouched_def)
      have ev: "writeInfo X s w = thenS (save_doc X d (Some name) (info_doc s)) (rename_in d name ''info.xml'') w2"
        using Pair Inr m n by (simp add: writeInfo_def)
      show ?thesis
      proof (rule sys_cases [of IOErrorException w2])
        fix f assume "sys IOErrorException w2 = (Inl IOErrorException, w2\<lparr>faults := f\<rparr>)"
        then show ?thesis using assms ev q2 by (auto simp: save_doc_def)
      next
        fix f assume s: "sys IOErrorException w2 = (Inr (), w2\<lparr>faults := f\<rparr>)"
        let ?w3 = "put_in d name (Reg (xml_dump X (info_doc s))) (w2\<lparr>faults := f\<rparr>)"
        have q3: "quiet w ?w3" using q2 ne by simp
        have "rename_in d name ''info.xml'' ?w3 = (Inl e, w')"
          using assms ev s by (simp add: save_doc_def)
        moreover have "map_of (dir_entries d ?w3) name \<noteq> None"
          using entry_simps(3) [of d name _ "w2\<lparr>faults := f\<rparr>" d name] by (simp add: entry_def)
        ultimately show ?thesis
          using q3 by (rule_tac sys_cases [of IOErrorException ?w3]) (auto simp: rename_in_def)
      qed
    qed simp
  qed
qed

end
