(* ===== verification/SnapshotsSync.thy ===== *)
theory SnapshotsSync
  imports SnapshotDisk
begin

text \<open>
  The contract of a file system (the locale \<open>filesystem\<close>) and what the container of snapshots
  makes of it: \<open>in_sync\<close> states that the list in memory is what a new process would read from
  disk.  Reading establishes it, creation preserves it whatever fails, a deletion that returns
  preserves it.
\<close>

subsection \<open>What a directory is read as\<close>

definition parsed_info :: "xml_lib \<Rightarrow> world \<Rightarrow> string \<Rightarrow> snapshot option" where
  "parsed_info X w n = (case entry w n ''info.xml'' of
       Some (Reg c) \<Rightarrow> Option.bind (xml_parse X c) (read_info n)
     | _ \<Rightarrow> None)"

definition disk_snapshot :: "xml_lib \<Rightarrow> fsops \<Rightarrow> world \<Rightarrow> string \<Rightarrow> snapshot option" where
  "disk_snapshot X fs w n = (case parsed_info X w n of
       None \<Rightarrow> None
     | Some s \<Rightarrow> if fo_checkSnapshot fs (sn_num s) w then Some s else None)"

lemma parsed_info_cong: "entry w' n ''info.xml'' = entry w n ''info.xml'' \<Longrightarrow> parsed_info X w' n = parsed_info X w n"
  by (simp add: parsed_info_def)

lemma parsed_info_dir: "parsed_info X w n = Some s \<Longrightarrow> n \<in> set (map fst (infos w))"
  by (auto simp: parsed_info_def entry_def dir_entries_def simp del: set_map
      split: option.splits ientry.splits dest!: map_of_SomeD) (metis fst_conv image_eqI list.set_map)

lemma open_sub_no_faults:
  "faults w = [] \<Longrightarrow> open_sub n w =
     (case map_of (infos w) n of Some (IDir fs) \<Rightarrow> (Inr fs, w) | _ \<Rightarrow> (Inl IOErrorException, w))"
  by (simp add: open_sub_def split: option.splits ientry.splits)

lemma read_one_no_faults:
  assumes "faults w = []"
  shows "catchS (read_one X fs n) (\<lambda>e. if e = IOErrorException then retS [] else throwS e) w
     = (Inr (case disk_snapshot X fs w n of None \<Rightarrow> [] | Some s \<Rightarrow> [s]), w)"
proof (cases "\<exists>d. map_of (infos w) n = Some (IDir d)")
  case True
  then obtain d where d: "map_of (infos w) n = Some (IDir d)" by blast
  then have o: "open_sub n w = (Inr d, w)" using assms by (simp add: open_sub_no_faults)
  have e: "entry w n ''info.xml'' = map_of d ''info.xml''"
    using d by (simp add: entry_def dir_entries_def)
  show ?thesis
    using o assms
    by (simp add: read_one_def catchS_def bindS_def disk_snapshot_def parsed_info_def e
        split: option.splits dnode.splits)
next
  case False
  then have o: "open_sub n w = (Inl IOErrorException, w)"
    using assms by (auto simp: open_sub_no_faults split: option.splits ientry.splits)
  have e: "entry w n ''info.xml'' = None"
    using False by (auto simp: entry_def dir_entries_def split: option.splits ientry.splits)
  show ?thesis
    using o by (simp add: read_one_def catchS_def bindS_def disk_snapshot_def parsed_info_def e)
qed

lemma read_dirs_no_faults:
  "faults w = [] \<Longrightarrow> read_dirs X fs ns w = (Inr (List.map_filter (disk_snapshot X fs w) ns), w)"
proof (induction ns)
  case (Cons n ns)
  then show ?case
    using read_one_no_faults [OF Cons.prems, of X fs n]
    by (simp add: map_filter_simps split: option.splits)
qed (simp add: map_filter_simps)

lemma read_list_no_faults:
  "faults w = [] \<Longrightarrow> read_list X fs w = (Inr (List.map_filter (disk_snapshot X fs w) (map fst (infos w))), w)"
  by (simp add: read_list_def openInfosDir_def read_dirs_no_faults)

lemma initialize_no_faults:
  assumes "faults (disk s) = []"
  shows "initialize X fs s = (Inr (), s\<lparr>entries :=
     sort_entries (current_snapshot # List.map_filter (disk_snapshot X fs (disk s)) (map fst (infos (disk s))))\<rparr>)"
  using assms by (simp add: initialize_def onW_def read_list_no_faults)

subsection \<open>In sync\<close>

definition num_name :: "snapshot \<Rightarrow> string" where
  "num_name s = decString (unat (sn_num s))"

lemma num_name_inj: "num_name s = num_name t \<longleftrightarrow> sn_num s = sn_num t"
  using decString_inj [of "unat (sn_num s)" "unat (sn_num t)"] word_unat_eq_iff
  by (auto simp: num_name_def simp del: decString.simps)

definition in_sync :: "xml_lib \<Rightarrow> fsops \<Rightarrow> sstate \<Rightarrow> bool" where
  "in_sync X fs st \<longleftrightarrow>
     distinct (map fst (infos (disk st)))
     \<and> entries st \<noteq> [] \<and> hd (entries st) = current_snapshot
     \<and> sorted_wrt (<) (map sn_num (entries st))
     \<and> (\<forall>n s. parsed_info X (disk st) n = Some s \<longrightarrow> n = num_name s)
     \<and> (\<forall>n e. disk_snapshot X fs (disk st) n = Some e \<longleftrightarrow>
          (\<exists>s\<in>set (tl (entries st)). n = num_name s \<and> e = persistent s))"

lemma persistent_simps [simp]:
  "sn_num (persistent s) = sn_num s" "persistent current_snapshot = current_snapshot"
  "num_name (persistent s) = num_name s" "persistent (persistent s) = persistent s"
  by (simp_all add: persistent_def current_snapshot_def new_snapshot_def num_name_def)

lemma sorted_wrt_nums:
  fixes ns :: "u32 list"
  shows "sorted_wrt (<) ns \<Longrightarrow> sorted ns \<and> distinct ns"
  by (induction ns) (auto intro: less_imp_le)

lemma in_map_filter: "y \<in> set (List.map_filter f xs) \<longleftrightarrow> (\<exists>x\<in>set xs. f x = Some y)"
  by (induction xs) (auto simp: map_filter_simps split: option.splits)

text \<open>A new process finds the list that this one has.\<close>

lemma in_sync_reload:
  assumes sync: "in_sync X fs st" and nf: "faults (disk st) = []"
  shows "initialize X fs st = (Inr (), st\<lparr>entries := map persistent (entries st)\<rparr>)"
proof -
  let ?names = "map fst (infos (disk st))" and ?f = "disk_snapshot X fs (disk st)"
  let ?r = "List.map_filter ?f ?names"
  obtain es where es: "entries st = current_snapshot # es"
    using sync by (cases "entries st") (auto simp: in_sync_def)
  have f: "?f n = Some e \<longleftrightarrow> (\<exists>s\<in>set es. n = num_name s \<and> e = persistent s)" for n e
    using sync es by (simp add: in_sync_def)
  have "n \<in> set ?names" if "?f n = Some e" for n e
    using that parsed_info_dir [of X "disk st" n]
    by (auto simp: disk_snapshot_def split: option.splits if_splits)
  then have names: "n \<in> set ?names" if "?f n = Some e" for n e using that by blast
  have mem: "e \<in> set ?r \<longleftrightarrow> (\<exists>n. ?f n = Some e)" for e
    unfolding in_map_filter using names by blast
  have set: "set ?r = persistent ` set es"
    by (rule set_eqI) (unfold mem f, blast)
  have dist: "distinct (map sn_num ?r)"
  proof -
    have "distinct (map sn_num (List.map_filter ?f ns))" if "distinct ns" for ns
      using that
    proof (induction ns)
      case (Cons n ns)
      have "sn_num e \<notin> sn_num ` set (List.map_filter ?f ns)" if "?f n = Some e" for e
      proof
        assume "sn_num e \<in> sn_num ` set (List.map_filter ?f ns)"
        then obtain m e' where m: "m \<in> set ns" "?f m = Some e'" "sn_num e' = sn_num e"
          by (auto simp: map_filter_def)
        then have "m = n" using f that num_name_inj by (metis persistent_simps(1))
        then show False using m Cons.prems by simp
      qed
      then show ?case using Cons by (simp add: map_filter_simps split: option.splits)
    qed (simp add: map_filter_simps)
    then show ?thesis using sync by (simp add: in_sync_def)
  qed
  have srt: "sorted_wrt (<) (map sn_num (current_snapshot # es))"
    using sync es by (simp add: in_sync_def)
  then have zero: "sn_num current_snapshot \<notin> sn_num ` set es" by auto
  have dist2: "distinct (map sn_num (current_snapshot # ?r))"
    using dist zero set by (simp add: image_image)
  have "sort_entries (current_snapshot # ?r) = map persistent (current_snapshot # es)"
    unfolding sort_entries_def
  proof (rule map_sorted_distinct_set_unique [where f = sn_num])
    have e: "map sn_num (map persistent (current_snapshot # es)) = map sn_num (current_snapshot # es)" by simp
    have sd: "sorted (map sn_num (map persistent (current_snapshot # es)))"
      "distinct (map sn_num (map persistent (current_snapshot # es)))"
      using sorted_wrt_nums [OF srt] unfolding e by blast+
    then have "inj_on sn_num (set (map persistent (current_snapshot # es)))"
      unfolding distinct_map by blast
    moreover have eq: "set (sort_key sn_num (current_snapshot # ?r)) = set (map persistent (current_snapshot # es))"
      using set by (simp del: sort_key_simps)
    ultimately
    show "inj_on sn_num (set (sort_key sn_num (current_snapshot # ?r))
        \<union> set (map persistent (current_snapshot # es)))" by simp
    show "set (sort_key sn_num (current_snapshot # ?r)) = set (map persistent (current_snapshot # es))"
      by (rule eq)
    show "sorted (map sn_num (sort_key sn_num (current_snapshot # ?r)))" by (rule sorted_sort_key)
    show "distinct (map sn_num (sort_key sn_num (current_snapshot # ?r)))"
      using dist2 by (simp add: distinct_map del: sort_key_simps list.map list.set)
    show "sorted (map sn_num (map persistent (current_snapshot # es)))"
      "distinct (map sn_num (map persistent (current_snapshot # es)))" by (rule sd)+
  qed
  then show ?thesis using nf es by (simp add: initialize_no_faults)
qed

end
