(* ===== verification/SnapshotsOps.thy ===== *)
theory SnapshotsOps
  imports SnapshotsSync
begin

text \<open>
  Creation and deletion of snapshots on any file system that keeps the contract \<open>filesystem\<close>: the
  list in memory and the directories stay in sync.
\<close>

text \<open>A step that concerns the snapshot \<open>num\<close> only.\<close>

definition touches :: "fsops \<Rightarrow> u32 \<Rightarrow> world \<Rightarrow> world \<Rightarrow> bool" where
  "touches fs num w w' \<longleftrightarrow>
     (\<forall>n. entry w' n ''info.xml'' = entry w n ''info.xml'')
     \<and> (\<forall>k. k \<noteq> num \<longrightarrow> fo_checkSnapshot fs k w' = fo_checkSnapshot fs k w)
     \<and> (distinct (map fst (infos w)) \<longrightarrow> distinct (map fst (infos w')))"

lemma touches_refl [simp]: "touches fs num w w"
  by (simp add: touches_def)

lemma touches_trans: "touches fs num w1 w2 \<Longrightarrow> touches fs num w2 w3 \<Longrightarrow> touches fs num w1 w3"
  by (simp add: touches_def)

text \<open>The number of a new snapshot: no directory, so no information file, has it.\<close>

definition unused :: "xml_lib \<Rightarrow> u32 \<Rightarrow> world \<Rightarrow> bool" where
  "unused X num w \<longleftrightarrow> (\<forall>n s. parsed_info X w n = Some s \<longrightarrow> sn_num s \<noteq> num)"

definition fresh_snapshot :: "snapshot_type \<Rightarrow> u32 \<Rightarrow> string \<Rightarrow> u32 \<Rightarrow> int \<Rightarrow> snapshot" where
  "fresh_snapshot type pre_num description num now = (new_snapshot type num now)
     \<lparr>sn_description := description, sn_pre_num := pre_num, sn_info_modified := True\<rparr>"

definition next_free :: "fsops \<Rightarrow> sstate \<Rightarrow> u32 option" where
  "next_free fs st = search_number (2 ^ 32) (number_taken fs (disk st)) (last_num (entries st))"

text \<open>What deleting the snapshot \<open>num\<close> may do to the disk.\<close>

definition deleted :: "fsops \<Rightarrow> u32 \<Rightarrow> world \<Rightarrow> world \<Rightarrow> bool" where
  "deleted fs num w w' \<longleftrightarrow>
     (\<forall>n. entry w' n ''info.xml'' = entry w n ''info.xml''
        \<or> n = decString (unat num) \<and> entry w' n ''info.xml'' = None)
     \<and> (\<forall>k. k \<noteq> num \<longrightarrow> fo_checkSnapshot fs k w' = fo_checkSnapshot fs k w)
     \<and> \<not> fo_checkSnapshot fs num w'
     \<and> (distinct (map fst (infos w)) \<longrightarrow> distinct (map fst (infos w')))"

lemma onW_Inr: "onW m st = (r, st') \<longleftrightarrow> (\<exists>w. m (disk st) = (r, w) \<and> st' = st\<lparr>disk := w\<rparr>)"
  by (auto simp: onW_def split: prod.splits)

lemma keeps_onW: "keeps P m \<Longrightarrow> keeps (\<lambda>st. P (disk st) \<and> entries st = es) (onW m)"
  by (auto simp: keeps_def onW_def split: prod.splits)

lemma set_drop_nth:
  assumes "distinct (map f xs)" "j < length xs"
  shows "set (drop_nth j xs) = {t \<in> set xs. f t \<noteq> f (xs ! j)}"
proof -
  have x: "xs = take j xs @ xs ! j # drop (Suc j) xs" using assms(2) by (rule id_take_nth_drop)
  have "distinct (map f (take j xs @ xs ! j # drop (Suc j) xs))" using assms(1) x by simp
  then have "\<forall>t\<in>set (take j xs) \<union> set (drop (Suc j) xs). f t \<noteq> f (xs ! j)"
    by (auto simp: image_iff)
  moreover have "set xs = set (take j xs) \<union> {xs ! j} \<union> set (drop (Suc j) xs)"
    using arg_cong [OF x, of set] by simp
  ultimately show ?thesis by (auto simp: drop_nth_def)
qed

locale filesystem =
  fixes fs :: fsops
  assumes check_frame: "devices w' = devices w \<Longrightarrow> (\<And>n. entry w' n ''snapshot'' = entry w n ''snapshot'')
      \<Longrightarrow> fo_checkSnapshot fs num w' = fo_checkSnapshot fs num w"
    and create_touches: "fo_createSnapshot fs num w = (r, w') \<Longrightarrow> touches fs num w w'"
    and create_check: "fo_createSnapshot fs num w = (Inr u, w') \<Longrightarrow> fo_checkSnapshot fs num w'"
    and delete_touches: "fo_deleteSnapshot fs num w = (r, w') \<Longrightarrow> touches fs num w w'"
    and delete_check: "fo_deleteSnapshot fs num w = (Inr u, w') \<Longrightarrow> \<not> fo_checkSnapshot fs num w'"
    and delete_failed: "fo_deleteSnapshot fs num w = (Inl e, w')
      \<Longrightarrow> fo_checkSnapshot fs num w' = fo_checkSnapshot fs num w"
    and umount_touches: "fo_umountSnapshot fs num w = (r, w') \<Longrightarrow> touches fs num w w'"
    and umount_check: "fo_umountSnapshot fs num w = (r, w')
      \<Longrightarrow> fo_checkSnapshot fs num w' = fo_checkSnapshot fs num w"
begin

lemma quiet_check: "quiet w w' \<Longrightarrow> fo_checkSnapshot fs k w' = fo_checkSnapshot fs k w"
  by (rule check_frame) (auto dest: quietD)

lemma quiet_touches: "quiet w w' \<Longrightarrow> touches fs num w w'"
  by (simp add: touches_def quiet_check) (simp add: quiet_def)

text \<open>What does not concern a number that is in use keeps the list in sync.\<close>

lemma in_sync_touches:
  assumes "in_sync X fs st" "touches fs num (disk st) (disk st')" "entries st' = entries st"
    and "\<And>n s. parsed_info X (disk st) n = Some s \<Longrightarrow> sn_num s = num \<Longrightarrow>
      fo_checkSnapshot fs num (disk st') = fo_checkSnapshot fs num (disk st)"
  shows "in_sync X fs st'"
proof -
  have p: "parsed_info X (disk st') n = parsed_info X (disk st) n" for n
    using assms(2) by (intro parsed_info_cong) (simp add: touches_def)
  have c: "fo_checkSnapshot fs (sn_num s) (disk st') = fo_checkSnapshot fs (sn_num s) (disk st)"
    if "parsed_info X (disk st) n = Some s" for n s
    using that assms(2,4) by (cases "sn_num s = num") (auto simp: touches_def)
  have "disk_snapshot X fs (disk st') n = disk_snapshot X fs (disk st) n" for n
    using c by (auto simp: disk_snapshot_def p split: option.splits)
  then show ?thesis using assms by (simp add: in_sync_def p touches_def)
qed

lemma in_sync_quiet:
  "in_sync X fs st \<Longrightarrow> quiet (disk st) (disk st') \<Longrightarrow> entries st' = entries st \<Longrightarrow> in_sync X fs st'"
  by (rule in_sync_touches [of X st 0 st']) (assumption | erule quiet_touches | erule quiet_check)+

lemma search_number_Some:
  "search_number k taken n = Some m \<Longrightarrow> \<not> taken m"
proof (induction k taken n rule: search_number.induct)
  case (1 k taken n)
  then show ?case by (auto simp: search_number.simps [of k] split: if_splits)
qed

lemma nextNumber_cases:
  obtains (fails) e f where "nextNumber fs st = (Inl e, st\<lparr>disk := (disk st)\<lparr>faults := f\<rparr>\<rparr>)"
  | (found) num f where "nextNumber fs st =
        (Inr num, st\<lparr>disk := (put_entries (decString (unat num)) [] (disk st))\<lparr>faults := f\<rparr>\<rparr>)"
      "\<not> number_taken fs (disk st) num"
      "search_number (2 ^ 32) (number_taken fs (disk st)) (last_num (entries st)) = Some num"
proof -
  let ?w = "disk st"
  have chk: "number_taken fs (?w\<lparr>faults := f\<rparr>) = number_taken fs ?w" for f
    by (simp add: number_taken_def fun_eq_iff check_frame [of ?w "?w\<lparr>faults := f\<rparr>"])
  have pe: "(put_entries n x (w\<lparr>faults := f\<rparr>))\<lparr>faults := g\<rparr> = (put_entries n x w)\<lparr>faults := g\<rparr>" for n x w f g
    by (simp add: put_entries_def)
  show thesis
  proof (rule sys_cases [of IOErrorException ?w])
    fix f assume "sys IOErrorException ?w = (Inl IOErrorException, ?w\<lparr>faults := f\<rparr>)"
    then show thesis
      by (intro fails [of IOErrorException f]) (simp add: nextNumber_def onW_def openInfosDir_def bindS_def)
  next
    fix f assume s1: "sys IOErrorException ?w = (Inr (), ?w\<lparr>faults := f\<rparr>)"
    show thesis
    proof (cases "search_number (2 ^ 32) (number_taken fs ?w) (last_num (entries st))")
      case None
      then show thesis using s1
        by (intro fails [of Diverges f])
          (simp add: nextNumber_def onW_def openInfosDir_def bindS_def chk del: power_numeral)
    next
      case (Some num)
      show thesis
      proof (rule sys_cases [of IOErrorException "?w\<lparr>faults := f\<rparr>"])
        fix g assume "sys IOErrorException (?w\<lparr>faults := f\<rparr>) = (Inl IOErrorException, ?w\<lparr>faults := f\<rparr>\<lparr>faults := g\<rparr>)"
        then show thesis using s1 Some
          by (intro fails [of IOErrorException g])
            (simp add: nextNumber_def onW_def openInfosDir_def bindS_def chk del: power_numeral)
      next
        fix g assume s2: "sys IOErrorException (?w\<lparr>faults := f\<rparr>) = (Inr (), ?w\<lparr>faults := f\<rparr>\<lparr>faults := g\<rparr>)"
        obtain b h where s3: "sys_ok (put_entries (decString (unat num)) [] (?w\<lparr>faults := g\<rparr>)) =
            (Inr b, (put_entries (decString (unat num)) [] (?w\<lparr>faults := g\<rparr>))\<lparr>faults := h\<rparr>)"
          by (rule sys_ok_cases)
        show thesis using s1 s2 s3 Some search_number_Some [OF Some]
          by (intro found [of num h])
            (simp_all add: nextNumber_def onW_def openInfosDir_def bindS_def chk pe del: power_numeral decString.simps)
      qed
    qed
  qed
qed

lemma quiet_new_dir:
  assumes "map_of (infos w) n = None"
  shows "quiet w ((put_entries n [] w)\<lparr>faults := f\<rparr>)"
proof -
  have "dir_entries n w = []" using assms by (simp add: dir_entries_def)
  then have "entry (put_entries n [] w) m x = entry w m x" for m x by (simp add: entry_def)
  then show ?thesis by (simp add: quiet_def) (simp add: put_entries_def distinct_update)
qed

text \<open>Creation: whatever fails, the list stays in sync, and it grows by the snapshot exactly when
  the creation returns.\<close>

lemma cleanup_quiet:
  assumes "cleanup_info num st = (r, st')"
  shows "quiet (disk st) (disk st') \<and> entries st' = entries st"
proof -
  obtain r1 w1 where o: "openInfosDir (disk st) = (r1, w1)" by fastforce
  obtain r2 w2 where d: "rmdir_info (decString (unat num)) w1 = (r2, w2)" by fastforce
  show ?thesis
    using assms o d quiet_info(4) [OF o] quiet_rmdir_info [OF d] quiet_trans
    by (cases r1) (auto simp: cleanup_info_def onW_def bindS_def simp del: decString.simps)
qed

lemma delete_fs_touches:
  assumes "deleteFilesystemSnapshot fs s w = (r, w')"
  shows "touches fs (sn_num s) w w'"
proof -
  obtain r1 w1 where u: "fo_umountSnapshot fs (sn_num s) w = (r1, w1)" by fastforce
  obtain r2 w2 where d: "fo_deleteSnapshot fs (sn_num s) w1 = (r2, w2)" by fastforce
  show ?thesis
    using assms u d umount_touches [OF u] delete_touches [OF d] touches_trans
    by (cases r1) (auto simp: deleteFilesystemSnapshot_def bindS_def split: if_splits)
qed

lemma create_fs_touches:
  "createFilesystemSnapshot fs s w = (r, w') \<Longrightarrow> touches fs (sn_num s) w w'"
  by (auto simp: createFilesystemSnapshot_def split: if_splits dest: create_touches)

lemma in_sync_write:
  assumes sync: "in_sync X fs st" and fresh: "unused X (sn_num s) (disk st)"
    and ok: "storable s" "xml_faithful X (info_doc s)"
    and big: "\<forall>e\<in>set (entries st). sn_num e < sn_num s"
    and chk: "fo_checkSnapshot fs (sn_num s) (disk st)"
    and wr: "writeInfo X s (disk st) = (Inr u, w')" and s': "s' = s\<lparr>sn_info_modified := False\<rparr>"
  shows "in_sync X fs (st\<lparr>disk := w', entries := entries st @ [s']\<rparr>)"
proof -
  note W = writeInfo_Inr [OF wr]
  let ?d = "num_name s"
  have c: "fo_checkSnapshot fs k w' = fo_checkSnapshot fs k (disk st)" for k
    using W by (intro check_frame) (simp_all add: untouched_def)
  have p: "parsed_info X w' n = (if n = ?d then Some (persistent s) else parsed_info X (disk st) n)" for n
    using W(1) [of n "''info.xml''"] read_info_write [OF ok(1)] ok(2)
    by (auto simp: parsed_info_def num_name_def xml_faithful_def simp del: decString.simps)
  have per: "persistent s' = persistent s" "num_name s' = num_name s" "sn_num s' = sn_num s"
    by (simp_all add: s' persistent_def num_name_def)
  obtain es where es: "entries st = current_snapshot # es"
    using sync by (cases "entries st") (auto simp: in_sync_def)
  have tidy: "n = num_name t" if "parsed_info X (disk st) n = Some t" for n t
    using sync that by (simp add: in_sync_def)
  have f: "disk_snapshot X fs (disk st) n = Some e \<longleftrightarrow> (\<exists>t\<in>set es. n = num_name t \<and> e = persistent t)" for n e
    using sync es by (simp add: in_sync_def)
  have none: "parsed_info X (disk st) ?d = None"
  proof (rule ccontr)
    assume "parsed_info X (disk st) ?d \<noteq> None"
    then obtain t where t: "parsed_info X (disk st) ?d = Some t" by blast
    then have "sn_num t = sn_num s" using tidy [OF t] num_name_inj by simp
    then show False using fresh t by (simp add: unused_def)
  qed
  have ds: "disk_snapshot X fs w' n = (if n = ?d then Some (persistent s) else disk_snapshot X fs (disk st) n)" for n
    using chk by (simp add: disk_snapshot_def p c split: option.split)
  have "disk_snapshot X fs w' n = Some e \<longleftrightarrow> (\<exists>t\<in>set (es @ [s']). n = num_name t \<and> e = persistent t)" for n e
  proof (cases "n = ?d")
    case True
    have no: "\<forall>t\<in>set es. num_name t \<noteq> ?d"
      using big es by (auto simp: num_name_inj)
    have "(\<exists>t\<in>set (es @ [s']). ?d = num_name t \<and> e = persistent t) \<longleftrightarrow> e = persistent s"
      using no per(1,2) by (metis Un_iff empty_iff empty_set insert_iff list.simps(15) set_append)
    then show ?thesis using True ds [of n] by auto
  next
    case False
    then show ?thesis using per ds f by auto
  qed
  moreover have "sorted_wrt (<) (map sn_num (entries st @ [s']))"
    using sync big per by (auto simp: in_sync_def sorted_wrt_append)
  moreover have "n = num_name t" if "parsed_info X w' n = Some t" for n t
    using that tidy p by (auto split: if_splits)
  moreover have "distinct (map fst (infos w'))"
    using sync W(2) by (simp add: in_sync_def untouched_def)
  ultimately show ?thesis using es by (simp add: in_sync_def)
qed

lemma createHelper_sync:
  assumes sync: "in_sync X fs st" and fresh: "unused X (sn_num s) (disk st)"
    and ok: "storable s" "xml_faithful X (info_doc s)" "sn_info_modified s"
    and big: "\<forall>e\<in>set (entries st). sn_num e < sn_num s"
    and run: "createHelper X fs s st = (r, st')"
  shows "in_sync X fs st' \<and> entries st' = (case r of Inl e \<Rightarrow> entries st
      | Inr i \<Rightarrow> entries st @ [s\<lparr>sn_info_modified := False\<rparr>]) \<and> (\<forall>i. r = Inr i \<longrightarrow> i = length (entries st))"
proof -
  let ?num = "sn_num s"
  have T: "in_sync X fs st2" if "touches fs ?num (disk st) (disk st2)" "entries st2 = entries st" for st2
    using that fresh by (intro in_sync_touches [OF sync]) (auto simp: unused_def)
  obtain r1 w1 where c: "createFilesystemSnapshot fs s (disk st) = (r1, w1)" by fastforce
  note t1 = create_fs_touches [OF c]
  obtain r2 st2 where cl: "cleanup_info ?num (st\<lparr>disk := w1\<rparr>) = (r2, st2)" by fastforce
  have q2: "touches fs ?num (disk st) (disk st2)" "entries st2 = entries st"
    using cleanup_quiet [OF cl] t1 touches_trans quiet_touches by auto
  obtain r3 w3 where wr: "writeInfo X s w1 = (r3, w3)" by fastforce
  obtain r4 w4 where d: "deleteFilesystemSnapshot fs s w3 = (r4, w4)" by fastforce
  obtain r5 st5 where cl5: "cleanup_info ?num (st\<lparr>disk := w4\<rparr>) = (r5, st5)" by fastforce
  show ?thesis
  proof (cases r1)
    case (Inl e)
    show ?thesis
    proof (cases "e = CreateSnapshotFailedException")
      case True
      have "r = (case r2 of Inl e2 \<Rightarrow> Inl e2 | Inr _ \<Rightarrow> Inl e)" "st' = st2"
        using run c cl Inl True by (cases r2; simp add: createHelper_def onW_def bindS_def catchS_def)+
      then show ?thesis using T q2 by (auto split: sum.splits)
    next
      case False
      then have "r = Inl e" "st' = st\<lparr>disk := w1\<rparr>"
        using run c Inl by (simp_all add: createHelper_def onW_def bindS_def catchS_def)
      then show ?thesis using T t1 by simp
    qed
  next
    case (Inr u1)
    note created = this
    have fl: "flushInfo X s w1 = (case r3 of Inl e \<Rightarrow> (Inl e, w3) | Inr u \<Rightarrow> (Inr (s\<lparr>sn_info_modified := False\<rparr>), w3))"
      using wr ok(3) by (simp add: flushInfo_def bindS_def split: sum.splits)
    show ?thesis
    proof (cases r3)
      case (Inl e)
      have t3: "touches fs ?num (disk st) w3"
        using quiet_touches [OF quiet_writeInfo] wr Inl t1 touches_trans by blast
      have t4: "touches fs ?num (disk st) w4" using t3 delete_fs_touches [OF d] touches_trans by blast
      have t5: "touches fs ?num (disk st) (disk st5)" "entries st5 = entries st"
        using cleanup_quiet [OF cl5] t4 touches_trans quiet_touches by auto
      have "(\<exists>e'. r = Inl e') \<and> (st' = st\<lparr>disk := w3\<rparr> \<or> st' = st\<lparr>disk := w4\<rparr> \<or> st' = st5)"
        using run c created fl Inl d cl5
        by (cases r4; cases r5; cases "e = IOErrorException"; simp add: createHelper_def onW_def bindS_def catchS_def)
          auto
      then show ?thesis using T t3 t4 t5 by auto
    next
      case (Inr u3)
      have st': "r = Inr (length (entries st))"
        "st' = st\<lparr>disk := w3, entries := entries st @ [s\<lparr>sn_info_modified := False\<rparr>]\<rparr>"
        using run c created fl Inr by (simp_all add: createHelper_def onW_def bindS_def catchS_def)
      let ?st1 = "st\<lparr>disk := w1\<rparr>"
      have "fo_checkSnapshot fs ?num w1"
        using c created create_check by (auto simp: createFilesystemSnapshot_def split: if_splits)
      moreover have "unused X ?num w1"
        using fresh t1 parsed_info_cong [of w1] by (simp add: unused_def touches_def)
      ultimately have "in_sync X fs (?st1\<lparr>disk := w3, entries := entries ?st1 @ [s\<lparr>sn_info_modified := False\<rparr>]\<rparr>)"
        using wr Inr T [of ?st1] t1 ok big by (intro in_sync_write [where u = u3]) simp_all
      then show ?thesis using st' by simp
    qed
  qed
qed

subsection \<open>Creating with a new number\<close>

lemma search_number_above:
  "search_number f taken n = Some m \<Longrightarrow> n < k \<Longrightarrow> \<not> taken k \<Longrightarrow> n < m"
proof (induction f taken n rule: search_number.induct)
  case (1 f taken n)
  have "n \<noteq> - 1" using 1(3) by auto
  then have up: "n < n + 1" using inc_less_eq_self_iff_eq [of n] by (simp add: not_le [symmetric])
  show ?case
  proof (cases "taken (n + 1)")
    case True
    then have "n + 1 < k" using 1(3,4) inc_le [of n k] by (metis le_neq_trans)
    then have "n + 1 < m"
      using 1 True by (auto simp: search_number.simps [of f] split: if_splits)
    then show ?thesis using up by simp
  next
    case False
    then show ?thesis using 1(2) up by (auto simp: search_number.simps [of f] split: if_splits)
  qed
qed

lemma sorted_last_max:
  "sorted_wrt (<) (map sn_num es) \<Longrightarrow> e \<in> set es \<Longrightarrow> sn_num e \<le> last_num es"
proof (induction es)
  case (Cons a es)
  then show ?case
    by (cases es) (auto simp: last_num_def intro: less_imp_le)
qed simp

lemma createTyped_sync:
  assumes sync: "in_sync X fs st"
    and free: "\<exists>k > last_num (entries st). \<not> number_taken fs (disk st) k"
    and date: "- 62167219200 \<le> clock (disk st)" "clock (disk st) < 253402300800" "clock (disk st) \<noteq> - 1"
    and xml: "\<forall>num. next_free fs st = Some num
      \<longrightarrow> xml_faithful X (info_doc (fresh_snapshot type pre_num description num (clock (disk st))))"
    and pre: "type \<noteq> POST \<longrightarrow> pre_num = 0"
    and run: "createTyped X fs type pre_num description st = (r, st')"
  shows "in_sync X fs st'"
    and "r = Inl e \<Longrightarrow> entries st' = entries st"
    and "r = Inr i \<Longrightarrow> \<exists>num. next_free fs st = Some num \<and> last_num (entries st) < num \<and> i = length (entries st)
      \<and> entries st' = entries st
          @ [(fresh_snapshot type pre_num description num (clock (disk st)))\<lparr>sn_info_modified := False\<rparr>]"
proof -
  have "in_sync X fs st' \<and> (\<forall>e. r = Inl e \<longrightarrow> entries st' = entries st)
    \<and> (\<forall>i. r = Inr i \<longrightarrow> (\<exists>num. next_free fs st = Some num \<and> last_num (entries st) < num
         \<and> i = length (entries st) \<and> entries st' = entries st
           @ [(fresh_snapshot type pre_num description num (clock (disk st)))\<lparr>sn_info_modified := False\<rparr>]))"
  proof (cases rule: nextNumber_cases [of st])
    case (fails e f)
    then have "r = Inl e" "st' = st\<lparr>disk := (disk st)\<lparr>faults := f\<rparr>\<rparr>"
      using run by (simp_all add: createTyped_def bindS_def)
    then show ?thesis using in_sync_quiet [OF sync, of st'] by simp
  next
    case (found num f)
    let ?w1 = "(put_entries (decString (unat num)) [] (disk st))\<lparr>faults := f\<rparr>"
    let ?st1 = "st\<lparr>disk := ?w1\<rparr>" and ?s = "fresh_snapshot type pre_num description num (clock (disk st))"
    have nf: "next_free fs st = Some num" using found(3) by (simp add: next_free_def del: power_numeral)
    have gt: "last_num (entries st) < num"
      using free search_number_above [OF found(3)] by blast
    have none: "map_of (infos (disk st)) (decString (unat num)) = None"
      using found(2) by (simp add: number_taken_def del: decString.simps)
    have q: "quiet (disk st) ?w1" using quiet_new_dir [OF none] .
    have sync1: "in_sync X fs ?st1" using in_sync_quiet [OF sync, of ?st1] q by simp
    have s: "sn_num ?s = num" "sn_info_modified ?s" by (simp_all add: fresh_snapshot_def new_snapshot_def)
    have "num \<noteq> 0" using gt by auto
    then have ok: "storable ?s"
      using date pre by (simp add: storable_def fresh_snapshot_def new_snapshot_def)
    have fresh: "unused X (sn_num ?s) (disk ?st1)"
      unfolding unused_def s
    proof (intro allI impI notI)
      fix n t assume p: "parsed_info X (disk ?st1) n = Some t" and t: "sn_num t = num"
      have p': "parsed_info X (disk st) n = Some t"
        using p q parsed_info_cong [of ?w1 n "disk st" X] by (simp add: quiet_def)
      then have "n = num_name t" using sync by (auto simp: in_sync_def)
      then have "n = decString (unat num)" using t by (simp add: num_name_def)
      then show False using parsed_info_dir [OF p'] none by (simp add: map_of_eq_None_iff del: decString.simps)
    qed
    have "sorted_wrt (<) (map sn_num (entries st))" using sync by (simp add: in_sync_def)
    then have big: "\<forall>e\<in>set (entries ?st1). sn_num e < sn_num ?s"
      using sorted_last_max gt s by fastforce
    have run1: "createHelper X fs ?s ?st1 = (r, st')"
      using run found(1) by (simp add: createTyped_def bindS_def fresh_snapshot_def)
    have faithful: "xml_faithful X (info_doc ?s)" using xml nf by simp
    show ?thesis
      using createHelper_sync [OF sync1 fresh ok faithful s(2) big run1] nf gt by (auto split: sum.splits)
  qed
  then show "in_sync X fs st'" "r = Inl e \<Longrightarrow> entries st' = entries st"
    "r = Inr i \<Longrightarrow> \<exists>num. next_free fs st = Some num \<and> last_num (entries st) < num \<and> i = length (entries st)
      \<and> entries st' = entries st
          @ [(fresh_snapshot type pre_num description num (clock (disk st)))\<lparr>sn_info_modified := False\<rparr>]"
    by blast+
qed

subsection \<open>Deletion\<close>

lemma deleted_quiet: "deleted fs num w w1 \<Longrightarrow> quiet w1 w2 \<Longrightarrow> deleted fs num w w2"
  using quiet_check [of w1 w2] by (simp add: deleted_def quiet_def)

lemma keeps_deleted:
  "(\<And>w1 r w2. m w1 = (r, w2) \<Longrightarrow> quiet w1 w2) \<Longrightarrow> keeps (deleted fs num w) m"
  by (rule keepsI) (metis deleted_quiet prod.collapse)

lemma keeps_deleted_unlink_info: "keeps (deleted fs num w) (unlink_in (decString (unat num)) ''info.xml'')"
proof (rule keepsI)
  let ?d = "decString (unat num)"
  fix w1 assume del: "deleted fs num w w1"
  obtain b f where ok: "sys_ok w1 = (Inr b, w1\<lparr>faults := f\<rparr>)" by (rule sys_ok_cases)
  let ?w2 = "snd (unlink_in ?d ''info.xml'' w1)"
  have "?w2 = w1\<lparr>faults := f\<rparr> \<or> ?w2 = remove_in ?d ''info.xml'' (w1\<lparr>faults := f\<rparr>)"
    using ok by (auto simp: unlink_in_def whenS_def simp del: decString.simps split: option.splits dnode.splits)
  moreover have "fo_checkSnapshot fs k (remove_in ?d ''info.xml'' (w1\<lparr>faults := f\<rparr>)) = fo_checkSnapshot fs k w1" for k
    by (rule check_frame) (simp_all del: decString.simps)
  moreover have "fo_checkSnapshot fs k (w1\<lparr>faults := f\<rparr>) = fo_checkSnapshot fs k w1" for k
    by (rule check_frame) simp_all
  ultimately show "deleted fs num w ?w2"
    using del distinct_put_in(2) [of "w1\<lparr>faults := f\<rparr>" ?d "''info.xml''"]
    by (elim disjE) (auto simp: deleted_def simp del: decString.simps)
qed

lemma filelist_not_info: "filelist_name n \<noteq> ''info.xml''" "filelist_name n \<noteq> ''snapshot''"
  by (simp_all add: filelist_name_def)

lemma is_filelist_not_info: "is_filelist_file e \<Longrightarrow> fst e \<noteq> ''info.xml'' \<and> fst e \<noteq> ''snapshot''"
  by (auto simp: is_filelist_file_def starts_with_def split: dnode.splits)

lemma deleteSnapshot_sync:
  assumes sync: "in_sync X fs st" and le: "i \<le> length (entries st)"
    and run: "deleteSnapshot fs i st = (Inr u, st')"
  shows "in_sync X fs st'" "entries st' = drop_nth i (entries st)" "0 < i" "i < length (entries st)"
    "\<not> fo_checkSnapshot fs (sn_num (entries st ! i)) (disk st')"
proof -
  let ?es = "entries st" let ?s = "?es ! i" let ?num = "sn_num ?s" let ?d = "decString (unat ?num)"
  have g: "i < length ?es" "\<not> isCurrent ?s"
    using run le by (auto simp: deleteSnapshot_def split: if_splits)
  obtain w1 where d1: "deleteFilesystemSnapshot fs ?s (disk st) = (Inr (), w1)"
    and rest: "deleteSnapshot fs i st = bindS (onW (openInfoDir ?s)) (\<lambda>dir.
           thenS (onW (unlink_in dir ''info.xml''))
             (bindS (onW (thenS (sys IOErrorException) (getS (dir_entries dir)))) (\<lambda>fes.
               thenS (onW (foreachS (\<lambda>e. unlink_in dir (fst e)) (filter is_filelist_file fes)))
                 (thenS (onW (foreachS (\<lambda>it. whenS (\<not> isCurrent it)
                      (bindS (openInfoDir it) (\<lambda>d. unlink_in d (filelist_name ?num)))) ?es))
                   (thenS (onW openInfosDir)
                     (thenS (onW (rmdir_info ?d))
                       (modifyS (\<lambda>st. st\<lparr>entries := drop_nth i (entries st)\<rparr>)))))))) (st\<lparr>disk := w1\<rparr>)"
    using run g
    by (cases "deleteFilesystemSnapshot fs ?s (disk st)"; cases "fst (deleteFilesystemSnapshot fs ?s (disk st))")
      (auto simp: deleteSnapshot_def onW_def bindS_def Let_def simp del: decString.simps)
  obtain w0 where um: "fo_umountSnapshot fs ?num (disk st) = (Inr (), w0)"
    and ds: "fo_deleteSnapshot fs ?num w0 = (Inr (), w1)"
    using d1 g by (auto simp: deleteFilesystemSnapshot_def bindS_Inr)
  have base: "deleted fs ?num (disk st) w1"
    using umount_touches [OF um] delete_touches [OF ds] delete_check [OF ds]
    by (simp add: deleted_def touches_def)
  let ?P = "deleted fs ?num (disk st)"
  note K = keepsD [where P = ?P]
  have k1: "keeps ?P (openInfoDir s)" "keeps ?P openInfosDir" "keeps ?P (rmdir_info n)"
    "x \<noteq> ''info.xml'' \<Longrightarrow> x \<noteq> ''snapshot'' \<Longrightarrow> keeps ?P (unlink_in n x)" for s n x
    by (auto intro!: keeps_deleted dest: quiet_openInfoDir quiet_info quiet_rmdir_info quiet_unlink_in)
  have kb: "keeps ?P (thenS (sys IOErrorException) (getS (dir_entries n)))" for n
    by (rule keeps_bind [OF keeps_deleted keeps_basic(3)]) (rule quiet_info)
  have k2: "keeps ?P (foreachS (\<lambda>e. unlink_in n (fst e)) (filter is_filelist_file fes))" for n fes
    by (rule keeps_foreach, rule k1(4)) (auto dest: is_filelist_not_info)
  have k3: "keeps ?P (foreachS (\<lambda>it. whenS (\<not> isCurrent it)
      (bindS (openInfoDir it) (\<lambda>d. unlink_in d (filelist_name ?num)))) ?es)"
    using filelist_not_info by (intro keeps_foreach keeps_when keeps_bind k1) auto
  have k4: "keeps ?P (unlink_in ?d ''info.xml'')" by (rule keeps_deleted_unlink_info)
  obtain wf where wf: "?P wf" and st': "st' = st\<lparr>disk := wf, entries := drop_nth i ?es\<rparr>"
  proof -
    from run rest obtain dir w2 w3 fes w4 w5 w6 w7 w8 where
      o: "openInfoDir ?s w1 = (Inr dir, w2)" and a: "unlink_in dir ''info.xml'' w2 = (Inr (), w3)"
      and b: "thenS (sys IOErrorException) (getS (dir_entries dir)) w3 = (Inr fes, w4)"
      and c: "foreachS (\<lambda>e. unlink_in dir (fst e)) (filter is_filelist_file fes) w4 = (Inr (), w5)"
      and d: "foreachS (\<lambda>it. whenS (\<not> isCurrent it)
        (bindS (openInfoDir it) (\<lambda>d. unlink_in d (filelist_name ?num)))) ?es w5 = (Inr (), w6)"
      and e: "openInfosDir w6 = (Inr (), w7)" and f: "rmdir_info ?d w7 = (Inr (), w8)"
      and fin: "st' = st\<lparr>disk := w8, entries := drop_nth i ?es\<rparr>"
      by (auto simp: bindS_Inr onW_Inr simp del: decString.simps)
    have "dir = ?d" using openInfoDir_Inr [OF o] by simp
    then have "?P w3" using K [OF k1(1) base o] K [OF k4 _ a [unfolded \<open>dir = ?d\<close>]] by blast
    then have "?P w8"
      using K [OF kb _ b] K [OF k2 _ c] K [OF k3 _ d] K [OF k1(2) _ e] K [OF k1(3) _ f] by blast
    then show thesis using fin by (rule that)
  qed
  obtain es where es: "?es = current_snapshot # es" using sync by (cases ?es) (auto simp: in_sync_def)
  have i0: "0 < i" using g es by (cases i) (auto simp: isCurrent_def current_snapshot_def new_snapshot_def)
  have srt: "sorted_wrt (<) (map sn_num ?es)" and dn: "distinct (map sn_num ?es)"
    using sync sorted_wrt_nums by (auto simp: in_sync_def)
  show "entries st' = drop_nth i ?es" "0 < i" "i < length ?es"
    "\<not> fo_checkSnapshot fs ?num (disk st')"
    using st' i0 g wf by (simp_all add: deleted_def)
  have split: "?es = take i ?es @ ?s # drop (Suc i) ?es" using g by (simp add: id_take_nth_drop)
  have i': "drop_nth i ?es = current_snapshot # drop_nth (i - 1) es" "es ! (i - 1) = ?s" "i - 1 < length es"
    using i0 g es by (cases i; simp add: drop_nth_def)+
  have tl_drop: "set (tl (drop_nth i ?es)) = {t \<in> set es. sn_num t \<noteq> ?num}"
    using i' set_drop_nth [of sn_num es "i - 1"] dn es by simp
  have "sorted_wrt (<) (map sn_num (take i ?es @ ?s # drop (Suc i) ?es))"
    using srt split by metis
  then have srt': "sorted_wrt (<) (map sn_num (drop_nth i ?es))"
    by (auto simp: drop_nth_def sorted_wrt_append)
  have tidy: "n = num_name t" if "parsed_info X (disk st) n = Some t" for n t
    using sync that by (simp add: in_sync_def)
  have f: "disk_snapshot X fs (disk st) n = Some e \<longleftrightarrow> (\<exists>t\<in>set es. n = num_name t \<and> e = persistent t)" for n e
    using sync es by (simp add: in_sync_def)
  have p: "parsed_info X wf n = parsed_info X (disk st) n \<or> n = num_name ?s \<and> parsed_info X wf n = None" for n
  proof (cases "entry wf n ''info.xml'' = entry (disk st) n ''info.xml''")
    case True
    then show ?thesis using parsed_info_cong [of wf n "disk st" X] by blast
  next
    case False
    then have "n = ?d" "entry wf n ''info.xml'' = None" using wf unfolding deleted_def by blast+
    then show ?thesis by (simp add: parsed_info_def num_name_def del: decString.simps)
  qed
  have c: "fo_checkSnapshot fs k wf = (k \<noteq> ?num \<and> fo_checkSnapshot fs k (disk st))" for k
    using wf by (cases "k = ?num") (simp_all add: deleted_def)
  have d: "disk_snapshot X fs wf n = (if n = num_name ?s then None else disk_snapshot X fs (disk st) n)" for n
  proof (cases "n = num_name ?s")
    case True
    then show ?thesis
      using p [of n] tidy [of n] by (auto simp: disk_snapshot_def c num_name_inj split: option.splits)
  next
    case False
    then show ?thesis
      using p [of n] tidy [of n] by (auto simp: disk_snapshot_def c num_name_inj split: option.splits)
  qed
  have tidy': "\<forall>n t. parsed_info X wf n = Some t \<longrightarrow> n = num_name t"
  proof (intro allI impI)
    fix n t assume "parsed_info X wf n = Some t"
    then show "n = num_name t" using p [of n] tidy [of n t] by auto
  qed
  have "disk_snapshot X fs wf n = Some e \<longleftrightarrow>
      (\<exists>t\<in>set (tl (drop_nth i ?es)). n = num_name t \<and> e = persistent t)" for n e
    unfolding d tl_drop using f [of n e] num_name_inj by auto
  moreover have "distinct (map fst (infos wf))"
    using wf sync by (simp add: deleted_def in_sync_def)
  ultimately show "in_sync X fs st'" using st' i'(1) srt' tidy' by (simp add: in_sync_def)
qed

end

end
