(* ===== verification/FilesystemClaims.thy ===== *)
theory FilesystemClaims
  imports Filesystems SnapshotsOps
begin

text \<open>
  Btrfs keeps the contract \<open>filesystem\<close>; the names of logical volumes survive the escaping of the
  device mapper; command lines are read by the shell as the words that were meant; the directory of
  information files is only used when no other user can write to it.
\<close>

subsection \<open>Btrfs keeps the contract\<close>

lemma btrfs_check_entry:
  "btrfs_checkSnapshot num w \<longleftrightarrow> entry w (decString (unat num)) ''snapshot'' = Some Subvol"
  by (simp add: btrfs_checkSnapshot_def entry_def del: decString.simps)

lemma decString_num: "decString (unat (a::u32)) = decString (unat b) \<longleftrightarrow> a = b"
  using decString_inj [of "unat a" "unat b"] word_unat_eq_iff by auto

lemma touches_faults: "touches fs num w (w'\<lparr>faults := f\<rparr>) \<longleftrightarrow> touches fs num w w'"
  if "\<And>k w f. fo_checkSnapshot fs k (w\<lparr>faults := f\<rparr>) = fo_checkSnapshot fs k w"
  using that by (simp add: touches_def)

lemma btrfs_check_simps [simp]:
  "btrfs_checkSnapshot k (w\<lparr>faults := f\<rparr>) = btrfs_checkSnapshot k w"
  by (simp add: btrfs_check_entry)

lemma fs_openInfoDir_cases:
  obtains f where "fs_openInfoDir num w = (Inl IOErrorException, w\<lparr>faults := f\<rparr>)"
  | f where "fs_openInfoDir num w = (Inr (decString (unat num)), w\<lparr>faults := f\<rparr>)"
proof (rule sys_cases [of IOErrorException w])
  fix f assume 1: "sys IOErrorException w = (Inl IOErrorException, w\<lparr>faults := f\<rparr>)"
  then show thesis by (intro that(1)) (simp add: fs_openInfoDir_def openInfosDir_def)
next
  fix f assume 1: "sys IOErrorException w = (Inr (), w\<lparr>faults := f\<rparr>)"
  show thesis
  proof (rule sys_cases [of IOErrorException "w\<lparr>faults := f\<rparr>"])
    fix g assume "sys IOErrorException (w\<lparr>faults := f\<rparr>) = (Inl IOErrorException, w\<lparr>faults := f\<rparr>\<lparr>faults := g\<rparr>)"
    then show thesis using 1
      by (intro that(1)) (simp add: fs_openInfoDir_def openInfosDir_def open_sub_def Let_def del: decString.simps)
  next
    fix g assume "sys IOErrorException (w\<lparr>faults := f\<rparr>) = (Inr (), w\<lparr>faults := f\<rparr>\<lparr>faults := g\<rparr>)"
    then have "fs_openInfoDir num w = (case map_of (infos w) (decString (unat num)) of
        Some (IDir fs) \<Rightarrow> (Inr (decString (unat num)), w\<lparr>faults := g\<rparr>)
      | _ \<Rightarrow> (Inl IOErrorException, w\<lparr>faults := g\<rparr>))"
      using 1 by (simp add: fs_openInfoDir_def openInfosDir_def open_sub_def Let_def bindS_def
          split: option.split ientry.split del: decString.simps)
    then show thesis using that [of g] by (auto split: option.splits ientry.splits simp del: decString.simps)
  qed
qed

text \<open>The outcome of a step on one entry \<open>snapshot\<close>.\<close>

lemma ioctl_snap_create_cases:
  obtains f r where "ioctl_snap_create d x w = (Inr r, w\<lparr>faults := f\<rparr>)" "r \<noteq> IoOk"
  | f where "ioctl_snap_create d x w = (Inr IoOk, put_in d x Subvol (w\<lparr>faults := f\<rparr>))"
proof (cases "map_of (dir_entries d w) x = None")
  case False
  then have "ioctl_snap_create d x w = (Inr IoFail, w\<lparr>faults := faults w\<rparr>)"
    by (simp add: ioctl_snap_create_def)
  then show thesis by (rule that(1)) simp
next
  case True
  obtain b f where s1: "sys_ok w = (Inr b, w\<lparr>faults := f\<rparr>)" by (rule sys_ok_cases)
  obtain c g where s2: "sys_ok (w\<lparr>faults := f\<rparr>) = (Inr c, w\<lparr>faults := f\<rparr>\<lparr>faults := g\<rparr>)"
    by (rule sys_ok_cases)
  show thesis
  proof (cases b)
    case b: True
    then show thesis using True s1 that(2) [of f] by (simp add: ioctl_snap_create_def)
  next
    case b: False
    then show thesis using True s1 s2 that(1) [of "if c then IoFail else IoUnknown" g]
      by (auto simp: ioctl_snap_create_def)
  qed
qed

lemma create_snapshot_cases:
  obtains f where "create_snapshot d x w = (Inr False, w\<lparr>faults := f\<rparr>)"
  | f where "create_snapshot d x w = (Inr True, put_in d x Subvol (w\<lparr>faults := f\<rparr>))"
proof (rule ioctl_snap_create_cases [of d x w])
  fix f r assume 1: "ioctl_snap_create d x w = (Inr r, w\<lparr>faults := f\<rparr>)" "r \<noteq> IoOk"
  show thesis
  proof (cases "r = IoFail")
    case True
    then show thesis using 1 that(1) [of f] by (simp add: create_snapshot_def)
  next
    case False
    then show thesis using 1
      by (rule_tac ioctl_snap_create_cases [of d x "w\<lparr>faults := f\<rparr>"]) (auto simp: create_snapshot_def intro: that)
  qed
next
  fix f assume "ioctl_snap_create d x w = (Inr IoOk, put_in d x Subvol (w\<lparr>faults := f\<rparr>))"
  then show thesis using that(2) [of f] by (simp add: create_snapshot_def)
qed

lemma btrfs_create_cases:
  obtains e f where "btrfs_createSnapshot num w = (Inl e, w\<lparr>faults := f\<rparr>)"
  | f where "btrfs_createSnapshot num w =
      (Inr (), put_in (decString (unat num)) ''snapshot'' Subvol (w\<lparr>faults := f\<rparr>))"
proof (rule sys_cases [of IOErrorException w])
  fix f assume "sys IOErrorException w = (Inl IOErrorException, w\<lparr>faults := f\<rparr>)"
  then show thesis by (intro that(1)) (simp add: btrfs_createSnapshot_def open_subvolume_dir_def)
next
  fix f assume 1: "sys IOErrorException w = (Inr (), w\<lparr>faults := f\<rparr>)"
  show thesis
  proof (rule fs_openInfoDir_cases [of num "w\<lparr>faults := f\<rparr>"])
    fix g assume "fs_openInfoDir num (w\<lparr>faults := f\<rparr>) = (Inl IOErrorException, w\<lparr>faults := f\<rparr>\<lparr>faults := g\<rparr>)"
    then show thesis using 1 by (intro that(1)) (simp add: btrfs_createSnapshot_def open_subvolume_dir_def)
  next
    fix g assume 2: "fs_openInfoDir num (w\<lparr>faults := f\<rparr>) = (Inr (decString (unat num)), w\<lparr>faults := f\<rparr>\<lparr>faults := g\<rparr>)"
    show thesis
    proof (rule create_snapshot_cases [of "decString (unat num)" "''snapshot''" "w\<lparr>faults := g\<rparr>"])
      fix h assume "create_snapshot (decString (unat num)) ''snapshot'' (w\<lparr>faults := g\<rparr>)
        = (Inr False, w\<lparr>faults := g\<rparr>\<lparr>faults := h\<rparr>)"
      then show thesis using 1 2
        by (intro that(1) [of CreateSnapshotFailedException h]) (simp add: btrfs_createSnapshot_def open_subvolume_dir_def bindS_def del: decString.simps)
    next
      fix h assume "create_snapshot (decString (unat num)) ''snapshot'' (w\<lparr>faults := g\<rparr>)
        = (Inr True, put_in (decString (unat num)) ''snapshot'' Subvol (w\<lparr>faults := g\<rparr>\<lparr>faults := h\<rparr>))"
      then show thesis using 1 2
        by (intro that(2) [of h]) (simp add: btrfs_createSnapshot_def open_subvolume_dir_def bindS_def del: decString.simps)
    qed
  qed
qed

lemma btrfs_delete_cases:
  obtains e f where "btrfs_deleteSnapshot num w = (Inl e, w\<lparr>faults := f\<rparr>)"
  | f where "btrfs_deleteSnapshot num w =
      (Inr (), remove_in (decString (unat num)) ''snapshot'' (w\<lparr>faults := f\<rparr>))"
proof (rule fs_openInfoDir_cases [of num w])
  fix f assume "fs_openInfoDir num w = (Inl IOErrorException, w\<lparr>faults := f\<rparr>)"
  then show thesis by (intro that(1)) (simp add: btrfs_deleteSnapshot_def)
next
  fix f assume 1: "fs_openInfoDir num w = (Inr (decString (unat num)), w\<lparr>faults := f\<rparr>)"
  obtain b g where s: "sys_ok (w\<lparr>faults := f\<rparr>) = (Inr b, w\<lparr>faults := f\<rparr>\<lparr>faults := g\<rparr>)"
    by (rule sys_ok_cases)
  show thesis
  proof (cases "b \<and> map_of (dir_entries (decString (unat num)) w) ''snapshot'' = Some Subvol")
    case True
    then show thesis using 1 s that(2) [of g]
      by (simp add: btrfs_deleteSnapshot_def delete_subvolume_def del: decString.simps)
  next
    case False
    then show thesis using 1 s that(1) [of DeleteSnapshotFailedException g]
      by (auto simp: btrfs_deleteSnapshot_def delete_subvolume_def simp del: decString.simps)
  qed
qed

interpretation btrfs: filesystem "btrfs_ops subvolume" for subvolume
proof unfold_locales
  show "fo_checkSnapshot (btrfs_ops subvolume) num w' = fo_checkSnapshot (btrfs_ops subvolume) num w"
    if "devices w' = devices w" "\<And>n. entry w' n ''snapshot'' = entry w n ''snapshot''" for w w' num
    using that by (simp add: btrfs_ops_def btrfs_check_entry del: decString.simps)
  show "touches (btrfs_ops subvolume) num w w'"
    if "fo_createSnapshot (btrfs_ops subvolume) num w = (r, w')" for num w r w'
    using that distinct_put_in(1) [of "w\<lparr>faults := f\<rparr>" for f]
    by (rule_tac btrfs_create_cases [of num w])
      (auto simp: btrfs_ops_def touches_def btrfs_check_entry decString_num simp del: decString.simps)
  show "fo_checkSnapshot (btrfs_ops subvolume) num w'"
    if "fo_createSnapshot (btrfs_ops subvolume) num w = (Inr u, w')" for num w u w'
    using that by (rule_tac btrfs_create_cases [of num w])
      (auto simp: btrfs_ops_def btrfs_check_entry simp del: decString.simps)
  show "touches (btrfs_ops subvolume) num w w'"
    if "fo_deleteSnapshot (btrfs_ops subvolume) num w = (r, w')" for num w r w'
    using that distinct_put_in(2) [of "w\<lparr>faults := f\<rparr>" for f]
    by (rule_tac btrfs_delete_cases [of num w])
      (auto simp: btrfs_ops_def touches_def btrfs_check_entry decString_num simp del: decString.simps)
  show "\<not> fo_checkSnapshot (btrfs_ops subvolume) num w'"
    if "fo_deleteSnapshot (btrfs_ops subvolume) num w = (Inr u, w')" for num w u w'
    using that by (rule_tac btrfs_delete_cases [of num w])
      (auto simp: btrfs_ops_def btrfs_check_entry simp del: decString.simps)
  show "fo_checkSnapshot (btrfs_ops subvolume) num w' = fo_checkSnapshot (btrfs_ops subvolume) num w"
    if "fo_deleteSnapshot (btrfs_ops subvolume) num w = (Inl e, w')" for num w e w'
    using that by (rule_tac btrfs_delete_cases [of num w])
      (auto simp: btrfs_ops_def btrfs_check_entry simp del: decString.simps)
  show "touches (btrfs_ops subvolume) num w w'"
    if "fo_umountSnapshot (btrfs_ops subvolume) num w = (r, w')" for num w r w'
    using that by (simp add: btrfs_ops_def)
  show "fo_checkSnapshot (btrfs_ops subvolume) num w' = fo_checkSnapshot (btrfs_ops subvolume) num w"
    if "fo_umountSnapshot (btrfs_ops subvolume) num w = (r, w')" for num w r w'
    using that by (simp add: btrfs_ops_def)
qed

subsection \<open>Names of logical volumes\<close>

lemma undouble_Cons: "c \<noteq> CHR ''-'' \<Longrightarrow> undouble (c # s) = c # undouble s"
  by (cases s) auto

lemma undouble_double [simp]: "undouble (double s) = s"
  by (induction s) (auto simp: undouble_Cons)

lemma length_double: "length s \<le> length (double s)"
  by (induction s) auto

lemma hd_double: "s \<noteq> [] \<Longrightarrow> double s \<noteq> [] \<and> hd (double s) = hd s"
  by (cases s) auto

lemma double_append: "double (s @ t) = double s @ double t"
  by (induction s) auto

lemma last_double: "s \<noteq> [] \<Longrightarrow> last (double s) = last s"
  by (induction s rule: rev_induct) (auto simp: double_append)

text \<open>A dash in an escaped name has a neighbour that is a dash.\<close>

lemma double_no_single:
  "i < length (double s) \<Longrightarrow> double s ! i = CHR ''-'' \<Longrightarrow>
     (0 < i \<and> double s ! (i - 1) = CHR ''-'') \<or> (Suc i < length (double s) \<and> double s ! Suc i = CHR ''-'')"
proof (induction s arbitrary: i)
  case (Cons c s)
  show ?case
  proof (cases "c = CHR ''-''")
    case True
    consider "i = 0" | "i = 1" | j where "i = j + 2" by (metis One_nat_def Suc_1 add.commute add_2_eq_Suc not0_implies_Suc)
    then show ?thesis
    proof cases
      case 3
      then show ?thesis using Cons.IH [of j] Cons.prems True by (cases j) auto
    qed (use True in auto)
  next
    case False
    show ?thesis
    proof (cases i)
      case 0
      then show ?thesis using False Cons.prems by simp
    next
      case (Suc j)
      then have "(0 < j \<and> double s ! (j - 1) = CHR ''-'') \<or> (Suc j < length (double s) \<and> double s ! Suc j = CHR ''-'')"
        using Cons.IH [of j] Cons.prems False by simp
      then show ?thesis using Suc False by (cases j) auto
    qed
  qed
qed simp

lemma filter_upt_single: "k < n \<Longrightarrow> (\<And>i. i < n \<Longrightarrow> P i \<longleftrightarrow> i = k) \<Longrightarrow> filter P [0..<n] = [k]"
proof (induction n)
  case (Suc n)
  show ?case
  proof (cases "k = n")
    case True
    then have "filter P [0..<n] = []" using Suc.prems(2) by (auto simp: filter_empty_conv)
    then show ?thesis using Suc.prems(2) True by simp
  next
    case False
    then show ?thesis using Suc by simp
  qed
qed simp

lemma lvm_names_double:
  assumes "2 \<le> length vg" "last vg \<noteq> CHR ''-''" "2 \<le> length lv" "hd lv \<noteq> CHR ''-''"
  shows "lvm_names (double vg @ CHR ''-'' # double lv) = Some (double vg, double lv)"
proof -
  let ?A = "double vg" and ?B = "double lv" let ?s = "?A @ CHR ''-'' # ?B"
  have A: "2 \<le> length ?A" "last ?A \<noteq> CHR ''-''" and B: "2 \<le> length ?B" "hd ?B \<noteq> CHR ''-''"
    using assms length_double [of vg] length_double [of lv] last_double [of vg] hd_double [of lv] by force+
  have "lvm_dash ?s i \<longleftrightarrow> i = length ?A" if "i < length ?s" for i
  proof
    assume d: "lvm_dash ?s i"
    show "i = length ?A"
    proof (rule ccontr)
      assume "i \<noteq> length ?A"
      then have "i < length ?A \<or> i = length ?A + Suc (i - length ?A - 1) \<and> i - length ?A - 1 < length ?B"
        using that by auto
      then consider "i < length ?A" | j where "i = length ?A + Suc j" "j < length ?B" by blast
      then show False
      proof cases
        case 1
        then have "i - Suc 0 < length ?A" by simp
        then show ?thesis using 1 d double_no_single [of i vg] by (auto simp: lvm_dash_def nth_append)
      next
        case 2
        then show ?thesis using d double_no_single [of j lv]
          by (cases j) (auto simp: lvm_dash_def nth_append)
      qed
    qed
  next
    assume "i = length ?A"
    then show "lvm_dash ?s i"
      using A B last_conv_nth [of ?A] hd_conv_nth [of ?B] by (fastforce simp: lvm_dash_def nth_append)
  qed
  then have "filter (lvm_dash ?s) [0..<length ?s] = [length ?A]"
    by (intro filter_upt_single) auto
  then show ?thesis by (simp add: lvm_names_def)
qed

text \<open>The names that \<open>Lvm::detectThinVolumeNames\<close> takes out of a device name are the volume
  group and the logical volume the device mapper made that name of: the regular expression splits
  at the only single dash, and undoing the escaping gives the names back, dashes included.\<close>

theorem lvm_names_of_device:
  assumes "2 \<le> length vg" "last vg \<noteq> CHR ''-''" "2 \<le> length lv" "hd lv \<noteq> CHR ''-''"
  shows "detect_names (''/dev/mapper/'' @ double vg @ ''-'' @ double lv) = Some (vg, lv)"
  using lvm_names_double [OF assms] by (simp add: detect_names_def starts_with_def)

theorem lvm_names_of_device_witness:
  "detect_names ''/dev/mapper/vg--system-lv--home'' = Some (''vg-system'', ''lv-home'')"
  using lvm_names_of_device [of "''vg-system''" "''lv-home''"] by simp

subsection \<open>Command lines, options and permissions\<close>

lemma sh_words_quote_end [simp]: "sh_words Sep w (quote s) = Some [s]"
  using sh_words_quote [of w s "[]"] by simp

lemmas cmd_defs = lvcreate_cmd_def lvremove_cmd_def lvs_cmd_def LVCREATEBIN_def LVREMOVEBIN_def LVSBIN_def

text \<open>Whatever characters the names of the volume group and of the logical volume contain, the
  shell reads the three command lines of \<open>Lvm\<close> as exactly the words the code means: no name is
  split, expanded or taken for another command.\<close>

theorem lvm_commands_are_quoted:
  "sh_words Sep [] (lvcreate_cmd L num) = Some [''/sbin/lvcreate'', ''--permission'', ''r'', ''--snapshot'', ''--name'',
     snapshotLvName L num, lvm_vg_name L @ ''/'' @ lvm_lv_name L]
   \<and> sh_words Sep [] (lvremove_cmd L num) = Some [''/sbin/lvremove'', ''--force'', lvm_vg_name L @ ''/'' @ snapshotLvName L num]
   \<and> sh_words Sep [] (lvs_cmd vg lv) = Some [''/sbin/lvs'', ''-o'', ''segtype'', ''--noheadings'', vg @ ''/'' @ lv]"
  by (simp add: cmd_defs sh_words_quote sh_plain_def)

lemma remove_options_filter: "remove_options is ret = filter (\<lambda>r. r \<notin> set is) ret"
  by (induction "is" ret rule: remove_options.induct) (auto intro!: filter_cong)

text \<open>The options a snapshot is mounted with are those of the original mount, in their order,
  less every option that would weaken the fixed flags (read-only, no set-user-id, no devices, no
  execution).\<close>

theorem mount_options_filtered:
  "filter_mount_options options = filter (\<lambda>r. r \<notin> set ign_opt) options"
  by (simp add: filter_mount_options_def remove_options_filter)

definition may_write :: "u32 \<Rightarrow> u32 list \<Rightarrow> dstat \<Rightarrow> bool" where
  "may_write uid gids st \<longleftrightarrow>
     (if uid = 0 then True
      else if uid = st_uid st then st_mode st AND S_IWUSR \<noteq> 0
      else if st_gid st \<in> set gids then st_mode st AND S_IWGRP \<noteq> 0
      else st_mode st AND S_IWOTH \<noteq> 0)"

text \<open>When \<open>openInfosDir\<close> accepts the directory \<open>.snapshots\<close> (on Btrfs or on LVM), the
  permission rules of the kernel let nobody write to it but root and members of the group root: the
  information files the daemon reads as root cannot be planted by another user.\<close>

theorem infos_dir_is_protected:
  assumes "btrfs_openInfosDir sv st = Inr () \<or> lvm_check_infos st = Inr ()"
    and "may_write uid gids st"
  shows "uid = 0 \<or> 0 \<in> set gids"
  using assms
  by (auto simp: btrfs_openInfosDir_def btrfs_openSubvolumeDir_def lvm_check_infos_def may_write_def
      bindR_eq_Inr split: if_splits)

theorem infos_dir_is_protected_witness:
  "\<exists>st. btrfs_openInfosDir st st = Inr () \<and> may_write 1000 [100, 0] st \<and> ((1000::u32) = 0 \<or> (0::u32) \<in> set [100, 0])"
proof -
  let ?st = "\<lparr>st_ino = 256, st_dir = True, st_uid = 0, st_gid = 0, st_mode = 0x1F8\<rparr>"
  have o: "btrfs_openInfosDir ?st ?st = Inr ()" and w: "may_write 1000 [100, 0] ?st" by code_simp+
  show ?thesis using infos_dir_is_protected [of ?st ?st 1000 "[100, 0]"] o w by blast
qed

text \<open>A logical volume that was made although the snapshot failed.\<close>

definition lvm_example :: lvm where
  "lvm_example = \<lparr>lvm_subvolume = ''/'', lvm_mount_type = ''ext4'', lvm_vg_name = ''vg0'',
     lvm_lv_name = ''root'', lvm_mount_options = []\<rparr>"

definition world_example :: world where
  "world_example = \<lparr>infos_exist = True, infos = [(''1'', IDir [])], devices = [], mounts = [], clock = 0,
     mktemp_value = 0, faults = []\<rparr>"

definition run_lvcreate :: runner where
  "run_lvcreate cmd w = (if cmd = lvcreate_cmd lvm_example 1
     then ((0, []), w\<lparr>devices := getDevice lvm_example 1 # devices w\<rparr>) else ((1, []), w))"

text \<open>\<open>Lvm::createSnapshot\<close> that fails after \<open>lvcreate\<close> (the directory of the snapshot cannot
  be made) reports the failure but leaves the logical volume behind, where \<open>checkSnapshot\<close> still
  finds it: the clean-up after a failed creation does not remove it.\<close>

theorem lvm_failed_create_leaves_volume:
  "\<exists>w. lvm_createSnapshot run_lvcreate lvm_example 1 (world_example\<lparr>faults := [False, False, True]\<rparr>)
        = (Inl CreateSnapshotFailedException, w)
     \<and> lvm_checkSnapshot lvm_example 1 w
     \<and> \<not> lvm_checkSnapshot lvm_example 1 world_example"
  by (intro exI conjI, code_simp) (code_simp, code_simp)

end
