(* ===== verification/SnapshotClaims.thy ===== *)
theory SnapshotClaims
  imports FilesystemClaims
begin

text \<open>
  Properties of the container of snapshots on Btrfs: what a new process reads, what creation and
  deletion preserve, that a number is always found, the links between pre and post snapshots, and
  the mount counters.
\<close>

subsection \<open>Reading\<close>

lemma read_info_props:
  assumes "read_info n root = Some e"
  shows "persistent e = e" "sn_num e \<noteq> 0"
proof -
  let ?node = "getChildNode [root] ''snapshot''"
  obtain type where t: "Option.bind (getChildValue ?node ''type'') toValue = Some type"
    using assms by (cases "Option.bind (getChildValue ?node ''type'') toValue") (simp_all add: read_info_def)
  obtain num where n: "getChildUint ?node ''num'' 0 = Some num"
    using assms t by (cases "getChildUint ?node ''num'' 0") (simp_all add: read_info_def)
  obtain date where d: "getChildValue ?node ''date'' = Some date"
    using assms t n by (cases "getChildValue ?node ''date''") (simp_all add: read_info_def Let_def split: if_splits)
  show "persistent e = e" "sn_num e \<noteq> 0"
    using assms t n d by (auto simp: read_info_def Let_def persistent_def new_snapshot_def split: if_splits)
qed

lemma disk_snapshot_parsed: "disk_snapshot X fs w n = Some e \<Longrightarrow> parsed_info X w n = Some e"
  by (auto simp: disk_snapshot_def split: option.splits if_splits)

lemma parsed_info_props:
  "parsed_info X w n = Some e \<Longrightarrow> persistent e = e \<and> sn_num e \<noteq> 0"
  by (auto simp: parsed_info_def read_info_props split: option.splits dnode.splits dest!: bind_eq_Some_conv [THEN iffD1])

lemma distinct_map_filter:
  assumes "distinct ns" "\<And>n m e d. f n = Some e \<Longrightarrow> f m = Some d \<Longrightarrow> g e = g d \<Longrightarrow> n = m"
  shows "distinct (map g (List.map_filter f ns))"
  using assms(1)
proof (induction ns)
  case (Cons n ns)
  have "g e \<notin> g ` set (List.map_filter f ns)" if "f n = Some e" for e
  proof
    assume "g e \<in> g ` set (List.map_filter f ns)"
    then obtain m d where "m \<in> set ns" "f m = Some d" "g d = g e" by (auto simp: in_map_filter)
    then show False using assms(2) [OF that, of m d] Cons.prems by simp
  qed
  then show ?case using Cons by (simp add: map_filter_simps split: option.splits)
qed (simp add: map_filter_simps)

lemma sorted_distinct_wrt:
  fixes ns :: "u32 list"
  shows "sorted ns \<Longrightarrow> distinct ns \<Longrightarrow> sorted_wrt (<) ns"
  by (induction ns) (auto simp: order.strict_iff_order)

text \<open>A disk with one snapshot.\<close>

definition snap_ex :: snapshot where
  "snap_ex = (new_snapshot PRE 1 1338000000)\<lparr>sn_description := ''update'', sn_userdata := [(''important'', ''yes'')]\<rparr>"

definition xml_ex :: xml_lib where
  "xml_ex = \<lparr>xml_dump = (\<lambda>_. ''doc''), xml_parse = (\<lambda>_. Some (xnorm (info_doc snap_ex)))\<rparr>"

definition state_ex :: sstate where
  "state_ex = \<lparr>disk = \<lparr>infos_exist = True,
      infos = [(''1'', IDir [(''snapshot'', Subvol), (''info.xml'', Reg ''doc'')])],
      devices = [], mounts = [], clock = 1338000100, mktemp_value = 0, faults = []\<rparr>,
    entries = [current_snapshot, snap_ex]\<rparr>"

lemma parsed_ex: "parsed_info xml_ex (disk state_ex) n = (if n = ''1'' then Some snap_ex else None)"
proof -
  have "storable snap_ex" by code_simp
  moreover have "num_name snap_ex = ''1''" "persistent snap_ex = snap_ex" by code_simp+
  ultimately have "read_info ''1'' (xnorm (info_doc snap_ex)) = Some snap_ex"
    using read_info_write [of snap_ex] by (simp add: num_name_def)
  then show ?thesis
    by (simp add: parsed_info_def entry_def dir_entries_def state_ex_def xml_ex_def)
qed

lemma sync_ex: "in_sync xml_ex (btrfs_ops ''/'') state_ex"
proof -
  have n: "num_name snap_ex = ''1''" "persistent snap_ex = snap_ex" "sn_num snap_ex = 1" by code_simp+
  have c: "fo_checkSnapshot (btrfs_ops ''/'') 1 (disk state_ex)" by code_simp
  have d: "disk_snapshot xml_ex (btrfs_ops ''/'') (disk state_ex) k = (if k = ''1'' then Some snap_ex else None)" for k
    using c n by (simp add: disk_snapshot_def parsed_ex)
  have e: "entries state_ex = [current_snapshot, snap_ex]" "map fst (infos (disk state_ex)) = [''1'']"
    "sn_num current_snapshot = 0"
    by (simp_all add: state_ex_def current_snapshot_def new_snapshot_def)
  show ?thesis unfolding in_sync_def e using n by (auto simp: parsed_ex d e)
qed

text \<open>Reading the directory of information files, when each file is stored under its number and
  no call fails, gives a list in sync with the disk: the current snapshot first, then strictly
  ascending numbers, each snapshot exactly once.\<close>

theorem initialize_gives_sync:
  assumes "faults (disk st) = []" "distinct (map fst (infos (disk st)))"
    and tidy: "\<And>n s. parsed_info X (disk st) n = Some s \<Longrightarrow> n = num_name s"
  shows "\<exists>st'. initialize X fs st = (Inr (), st') \<and> in_sync X fs st'"
proof -
  let ?w = "disk st" let ?r = "List.map_filter (disk_snapshot X fs ?w) (map fst (infos ?w))"
  let ?es = "sort_entries (current_snapshot # ?r)"
  have pos: "sn_num e \<noteq> 0" if "e \<in> set ?r" for e
    using that parsed_info_props disk_snapshot_parsed unfolding in_map_filter by blast
  have zero: "sn_num current_snapshot = 0" by (simp add: current_snapshot_def new_snapshot_def)
  have dist: "distinct (map sn_num ?r)"
    using assms(2) by (rule distinct_map_filter) (metis disk_snapshot_parsed num_name_inj tidy)
  have hd: "?es = current_snapshot # sort_key sn_num ?r"
  proof -
    have "insort_key sn_num current_snapshot ys = current_snapshot # ys" for ys
      using zero by (cases ys) auto
    then show ?thesis by (simp add: sort_entries_def)
  qed
  have srt: "sorted_wrt (<) (map sn_num ?es)"
  proof -
    have "sorted_wrt (<) (map sn_num (sort_key sn_num ?r))"
      using dist by (intro sorted_distinct_wrt) (simp_all add: distinct_map)
    then show ?thesis using pos zero by (auto simp: hd word_neq_0_conv)
  qed
  have mem: "disk_snapshot X fs ?w n = Some e \<longleftrightarrow> (\<exists>s\<in>set (tl ?es). n = num_name s \<and> e = persistent s)" for n e
  proof
    assume d: "disk_snapshot X fs ?w n = Some e"
    have "n \<in> set (map fst (infos ?w))" using parsed_info_dir [OF disk_snapshot_parsed [OF d]] .
    then have "e \<in> set ?r" using d unfolding in_map_filter by blast
    moreover have "n = num_name e" "persistent e = e"
      using tidy parsed_info_props disk_snapshot_parsed [OF d] by blast+
    ultimately show "\<exists>s\<in>set (tl ?es). n = num_name s \<and> e = persistent s" by (auto simp: hd)
  next
    assume "\<exists>s\<in>set (tl ?es). n = num_name s \<and> e = persistent s"
    then obtain s m where s: "disk_snapshot X fs ?w m = Some s" "n = num_name s" "e = persistent s"
      by (auto simp: hd in_map_filter simp del: set_map)
    then show "disk_snapshot X fs ?w n = Some e"
      using tidy parsed_info_props disk_snapshot_parsed [OF s(1)] by metis
  qed
  have "in_sync X fs (st\<lparr>entries := ?es\<rparr>)"
    unfolding in_sync_def using assms(2) tidy srt mem hd by simp
  then show ?thesis using assms(1) by (simp add: initialize_no_faults)
qed

theorem initialize_gives_sync_witness:
  "\<exists>st'. initialize xml_ex (btrfs_ops ''/'') state_ex = (Inr (), st') \<and> in_sync xml_ex (btrfs_ops ''/'') st'"
proof (rule initialize_gives_sync)
  show "faults (disk state_ex) = []" "distinct (map fst (infos (disk state_ex)))"
    by (simp_all add: state_ex_def)
  have "num_name snap_ex = ''1''" by code_simp
  then show "n = num_name s" if "parsed_info xml_ex (disk state_ex) n = Some s" for n s
    using that by (simp add: parsed_ex split: if_splits)
qed

text \<open>The information file of a snapshot is the document that \<open>writeInfo\<close> prints for it.\<close>

definition written :: "xml_lib \<Rightarrow> world \<Rightarrow> snapshot \<Rightarrow> bool" where
  "written X w s \<longleftrightarrow> entry w (num_name s) ''info.xml'' = Some (Reg (xml_dump X (info_doc s)))"

lemma written_parsed:
  "written X w s \<Longrightarrow> storable s \<Longrightarrow> xml_faithful X (info_doc s) \<Longrightarrow> parsed_info X w (num_name s) = Some (persistent s)"
  using read_info_write [of s] by (simp add: parsed_info_def written_def xml_faithful_def num_name_def del: decString.simps)

text \<open>C17. A new process finds every snapshot as it was written.  When the information file of each snapshot of the
  list is the document that the code prints for it, the file system has the snapshot, no other directory has an information
  file and no call fails, reading the disk gives exactly the list: the same snapshots in the same order, with everything
  that is stored (number, type, number of the first snapshot, date, user, description, clean-up algorithm, user data)
  unchanged.  A write of an information file that returns leaves that document.\<close>
theorem reload_finds_the_list:
  assumes "faults w = []" "distinct (map fst (infos w))"
    and "sorted_wrt (<) (map sn_num (current_snapshot # es))"
    and "\<forall>s \<in> set es. storable s \<and> xml_faithful X (info_doc s) \<and> written X w s \<and> fo_checkSnapshot fs (sn_num s) w"
    and "\<forall>n. n \<notin> num_name ` set es \<longrightarrow> entry w n ''info.xml'' = None"
  shows "initialize X fs \<lparr>disk = w, entries = old\<rparr> = (Inr (), \<lparr>disk = w, entries = current_snapshot # map persistent es\<rparr>)
    \<and> (\<forall>s v v'. writeInfo X s v = (Inr (), v') \<longrightarrow> written X v' s)"
proof
  let ?st = "\<lparr>disk = w, entries = current_snapshot # es\<rparr>"
  have p: "parsed_info X w n = Some e \<longleftrightarrow> (\<exists>s \<in> set es. n = num_name s \<and> e = persistent s)" for n e
  proof (cases "n \<in> num_name ` set es")
    case True
    then obtain s where s: "s \<in> set es" "n = num_name s" by blast
    have u: "s' = s" if "s' \<in> set es" "num_name s' = num_name s" for s'
      using that s(1) sorted_wrt_nums [of "map sn_num es"] assms(3) by (auto simp: num_name_inj distinct_map inj_on_def)
    have "parsed_info X w n = Some (persistent s)" using written_parsed assms(4) s by blast
    then show ?thesis using u s by (metis option.inject)
  next
    case False
    then have "parsed_info X w n = None" using assms(5) by (simp add: parsed_info_def)
    then show ?thesis using False by auto
  qed
  have d: "disk_snapshot X fs w n = parsed_info X w n" for n
  proof (cases "parsed_info X w n")
    case (Some e)
    with p obtain s where "s \<in> set es" "e = persistent s" by blast
    then show ?thesis using Some assms(4) by (simp add: disk_snapshot_def)
  qed (simp add: disk_snapshot_def)
  have "in_sync X fs ?st"
    using assms(2,3) p by (auto simp: in_sync_def d)
  from in_sync_reload [OF this] show "initialize X fs \<lparr>disk = w, entries = old\<rparr> = (Inr (), \<lparr>disk = w, entries = current_snapshot # map persistent es\<rparr>)"
    using assms(1) initialize_no_faults [of "\<lparr>disk = w, entries = old\<rparr>" X fs] initialize_no_faults [of ?st X fs] by simp
  show "\<forall>s v v'. writeInfo X s v = (Inr (), v') \<longrightarrow> written X v' s"
    by (auto simp: written_def num_name_def writeInfo_Inr(1) simp del: decString.simps)
qed

theorem reload_finds_the_list_witness:
  "initialize xml_ex (btrfs_ops ''/'') \<lparr>disk = disk state_ex, entries = []\<rparr>
     = (Inr (), \<lparr>disk = disk state_ex, entries = [current_snapshot, snap_ex]\<rparr>)"
proof -
  have n: "num_name snap_ex = ''1''" "persistent snap_ex = snap_ex" "sn_num snap_ex = 1" "sn_num current_snapshot = 0"
    "storable snap_ex" "fo_checkSnapshot (btrfs_ops ''/'') 1 (disk state_ex)" by code_simp+
  have "written xml_ex (disk state_ex) snap_ex"
    using n(1) by (simp add: written_def entry_def dir_entries_def state_ex_def xml_ex_def)
  moreover have "xml_faithful xml_ex (info_doc snap_ex)" by (simp add: xml_faithful_def xml_ex_def)
  moreover have "entry (disk state_ex) k ''info.xml'' = None" if "k \<noteq> ''1''" for k
    using that by (simp add: entry_def dir_entries_def state_ex_def)
  ultimately show ?thesis
    using conjunct1 [OF reload_finds_the_list [of "disk state_ex" "[snap_ex]" xml_ex "btrfs_ops ''/''" "[]"]] n
    by (simp add: state_ex_def)
qed

text \<open>C18. Creating a snapshot on Btrfs, whatever calls fail on the way: the list stays in sync with
  the disk. A creation that returns appends exactly one snapshot, with a number that is larger than all
  others and that neither the file system nor a directory used; a creation that throws leaves the list
  as it was.\<close>

theorem create_keeps_sync:
  assumes "in_sync X (btrfs_ops sv) st"
    and "\<exists>k > last_num (entries st). \<not> number_taken (btrfs_ops sv) (disk st) k"
    and "- 62167219200 \<le> clock (disk st)" "clock (disk st) < 253402300800" "clock (disk st) \<noteq> - 1"
    and "\<forall>num. next_free (btrfs_ops sv) st = Some num
      \<longrightarrow> xml_faithful X (info_doc (fresh_snapshot type pre_num description num (clock (disk st))))"
    and "type \<noteq> POST \<longrightarrow> pre_num = 0"
    and "createTyped X (btrfs_ops sv) type pre_num description st = (r, st')"
  shows "in_sync X (btrfs_ops sv) st' \<and> (case r of
      Inl e \<Rightarrow> entries st' = entries st
    | Inr i \<Rightarrow> (\<exists>num. next_free (btrfs_ops sv) st = Some num \<and> last_num (entries st) < num \<and> i = length (entries st)
        \<and> entries st' = entries st
            @ [(fresh_snapshot type pre_num description num (clock (disk st)))\<lparr>sn_info_modified := False\<rparr>]))"
proof (cases r)
  case (Inl e)
  then show ?thesis
    using btrfs.createTyped_sync(1) [OF assms] btrfs.createTyped_sync(2) [OF assms Inl] by simp
next
  case (Inr i)
  then show ?thesis
    using btrfs.createTyped_sync(1) [OF assms] btrfs.createTyped_sync(3) [OF assms Inr] by simp
qed

theorem create_keeps_sync_witness:
  "\<exists>X st r st'. createTyped X (btrfs_ops ''/'') SINGLE 0 ''update'' st = (r, st') \<and> in_sync X (btrfs_ops ''/'') st'"
proof -
  let ?st = "state_ex\<lparr>disk := (disk state_ex)\<lparr>infos := []\<rparr>, entries := [current_snapshot]\<rparr>"
  let ?s = "fresh_snapshot SINGLE 0 ''update'' 1 1338000100"
  let ?X = "\<lparr>xml_dump = (\<lambda>_. ''doc''), xml_parse = (\<lambda>_. Some (xnorm (info_doc ?s)))\<rparr>"
  have z: "sn_num current_snapshot = 0" by (simp add: current_snapshot_def new_snapshot_def)
  have p: "infos w = [] \<Longrightarrow> parsed_info X w n = None" for X w n
    by (simp add: parsed_info_def entry_def dir_entries_def)
  have free': "infos w = [] \<Longrightarrow> \<not> number_taken (btrfs_ops ''/'') w k" for w k
    by (simp add: number_taken_def btrfs_ops_def btrfs_checkSnapshot_def dir_entries_def)
  then have free: "\<not> number_taken (btrfs_ops ''/'') (disk ?st) k" for k by simp
  have nf: "next_free (btrfs_ops ''/'') ?st = Some 1"
    unfolding next_free_def by (subst search_number.simps) (simp add: free' last_num_def z)
  have sync: "in_sync ?X (btrfs_ops ''/'') ?st"
    by (simp add: in_sync_def disk_snapshot_def p)
  obtain r st' where r: "createTyped ?X (btrfs_ops ''/'') SINGLE 0 ''update'' ?st = (r, st')" by fastforce
  have ex: "\<exists>k > last_num (entries ?st). \<not> number_taken (btrfs_ops ''/'') (disk ?st) k"
    using free by (intro exI [of _ 1]) (simp add: last_num_def z)
  have cl: "clock (disk ?st) = 1338000100" by (simp add: state_ex_def)
  have xf: "\<forall>num. next_free (btrfs_ops ''/'') ?st = Some num \<longrightarrow>
      xml_faithful ?X (info_doc (fresh_snapshot SINGLE 0 ''update'' num (clock (disk ?st))))"
    unfolding nf cl by (simp add: xml_faithful_def)
  have "in_sync ?X (btrfs_ops ''/'') st'"
    by (rule conjunct1 [OF create_keeps_sync [OF sync ex _ _ _ xf _ r]]) (simp_all only: cl, simp_all)
  then show ?thesis using r by blast
qed

text \<open>C19. Deleting a snapshot on Btrfs that returns removes exactly that snapshot from the list, the
  list stays in sync with the disk and the subvolume is gone; the current snapshot cannot be
  deleted.\<close>

theorem delete_keeps_sync:
  assumes "in_sync X (btrfs_ops sv) st" "i \<le> length (entries st)"
    and "deleteSnapshot (btrfs_ops sv) i st = (Inr u, st')"
  shows "in_sync X (btrfs_ops sv) st' \<and> entries st' = drop_nth i (entries st)
    \<and> 0 < i \<and> i < length (entries st)
    \<and> \<not> btrfs_checkSnapshot (sn_num (entries st ! i)) (disk st')"
  using btrfs.deleteSnapshot_sync [OF assms] by (simp add: btrfs_ops_def)

theorem delete_keeps_sync_witness:
  "\<exists>st'. deleteSnapshot (btrfs_ops ''/'') 1 state_ex = (Inr (), st') \<and> entries st' = [current_snapshot]
     \<and> infos (disk st') = []"
proof -
  let ?r = "deleteSnapshot (btrfs_ops ''/'') 1 state_ex"
  have r: "fst ?r = Inr ()" "infos (disk (snd ?r)) = []" by code_simp+
  then obtain st' where st': "?r = (Inr (), st')" by (metis prod.collapse)
  have l: "entries state_ex = [current_snapshot, snap_ex]" by (simp add: state_ex_def)
  have "entries st' = drop_nth 1 [current_snapshot, snap_ex]"
    using delete_keeps_sync [OF sync_ex _ st'] l by simp
  then show ?thesis using st' r by (simp add: drop_nth_def)
qed

subsection \<open>A number is always found\<close>

lemma search_number_None:
  "search_number f taken n = None \<Longrightarrow> 1 \<le> i \<Longrightarrow> i \<le> f \<Longrightarrow> taken (n + of_nat i)"
proof (induction f taken n arbitrary: i rule: search_number.induct)
  case (1 f taken n)
  then have t: "taken (n + 1)" by (auto simp: search_number.simps [of f] split: if_splits)
  have rest: "search_number (f - 1) taken (n + 1) = None"
    using 1(2-4) t by (simp add: search_number.simps [of f])
  show ?case
  proof (cases "i = 1")
    case False
    have "taken (n + 1 + of_nat (i - 1))" using 1 t False rest by (intro 1(1)) auto
    moreover have "n + 1 + of_nat (i - 1) = n + of_nat i" using 1(3) by (simp add: of_nat_diff)
    ultimately show ?thesis by (simp only:)
  qed (use t in simp)
qed

lemma search_all_taken:
  assumes "search_number (2 ^ 32) taken (n::u32) = None"
  shows "taken k"
proof (cases "k = n")
  case True
  have "taken (n + of_nat (2 ^ 32))" using assms by (rule search_number_None) simp_all
  moreover have "(of_nat (2 ^ 32) :: u32) = 0" by simp
  ultimately show ?thesis using True by (metis add.right_neutral)
next
  case False
  have "unat (k - n) < 2 ^ 32" using unsigned_less [of "k - n", where ?'a = nat] by simp
  moreover have "unat (k - n) \<noteq> 0" using False by (simp add: unat_eq_0)
  ultimately have "taken (n + of_nat (unat (k - n)))"
    by (intro search_number_None [OF assms]) linarith+
  then show ?thesis by simp
qed

text \<open>C22. The loop of \<open>Snapshots::nextNumber\<close> ends on Btrfs: as long as \<open>.snapshots\<close> has fewer than
  2 ^ 32 entries, the search, which may wrap around at the end of the 32 bit range, finds a number that
  is not taken.\<close>

theorem next_number_terminates:
  assumes "length (infos (disk st)) < 2 ^ 32"
  shows "\<exists>num. next_free (btrfs_ops sv) st = Some num \<and> \<not> number_taken (btrfs_ops sv) (disk st) num"
proof (cases "next_free (btrfs_ops sv) st")
  case None
  have "number_taken (btrfs_ops sv) (disk st) k" for k
    using None unfolding next_free_def by (rule search_all_taken)
  moreover have "btrfs_checkSnapshot k (disk st) \<Longrightarrow> map_of (infos (disk st)) (decString (unat k)) \<noteq> None" for k
    by (auto simp: btrfs_checkSnapshot_def dir_entries_def simp del: decString.simps split: option.splits)
  ultimately have all: "map_of (infos (disk st)) (decString (unat (k::u32))) \<noteq> None" for k
    unfolding number_taken_def by (auto simp: btrfs_ops_def simp del: decString.simps not_None_eq)
  let ?N = "set (map fst (infos (disk st)))"
  have "range (\<lambda>k::u32. decString (unat k)) \<subseteq> ?N"
    using all by (auto simp: map_of_eq_None_iff simp del: decString.simps not_None_eq)
  moreover have "inj (\<lambda>k::u32. decString (unat k))"
    using decString_num by (auto simp: inj_def simp del: decString.simps)
  ultimately have "card (UNIV :: u32 set) \<le> card ?N"
    by (metis List.finite_set card_image card_mono)
  also have "card ?N \<le> length (infos (disk st))" by (metis card_length length_map)
  finally show ?thesis using assms by (simp add: card_word)
next
  case (Some num)
  then show ?thesis using btrfs.search_number_Some by (auto simp: next_free_def simp del: power_numeral)
qed

theorem next_number_terminates_witness: "\<exists>num. next_free (btrfs_ops ''/'') state_ex = Some num"
  using next_number_terminates [of state_ex "''/''"] by (auto simp: state_ex_def)

subsection \<open>Pre and post snapshots\<close>

lemma find_idx_le: "find_idx p xs \<le> length xs"
  by (induction xs) auto

lemma find_idx_end: "find_idx p xs = length xs \<longleftrightarrow> (\<forall>x\<in>set xs. \<not> p x)"
  by (induction xs) auto

lemma find_idx_nth: "find_idx p xs < length xs \<Longrightarrow> p (xs ! find_idx p xs)"
  by (induction xs) auto

lemma find_idx_unique:
  assumes "i < length xs" "p (xs ! i)" "\<And>j. j < length xs \<Longrightarrow> p (xs ! j) \<Longrightarrow> j = i"
  shows "find_idx p xs = i"
proof -
  have "find_idx p xs < length xs"
    using assms(1,2) find_idx_end [of p xs] find_idx_le [of p xs] nth_mem by (metis le_neq_implies_less)
  then show ?thesis using assms(3) find_idx_nth by blast
qed

definition one_post :: "snapshot list \<Rightarrow> bool" where
  "one_post es \<longleftrightarrow> (\<forall>i < length es. \<forall>j < length es.
     sn_type (es ! i) = POST \<and> sn_type (es ! j) = POST \<and> sn_pre_num (es ! i) = sn_pre_num (es ! j) \<longrightarrow> i = j)"

lemma bindS_cases:
  assumes "bindS m f s = (r, s')"
  obtains e where "m s = (Inl e, s')" "r = Inl e" | a s1 where "m s = (Inr a, s1)" "f a s1 = (r, s')"
  using assms by (auto simp: bindS_def split: prod.splits sum.splits)

lemma keeps_entries: "keeps (\<lambda>st. entries st = es) (onW m)"
  by (auto simp: keeps_def onW_def split: prod.splits)

lemma keeps_entries_cleanup: "keeps (\<lambda>st. entries st = es) (cleanup_info num)"
  unfolding cleanup_info_def by (intro keeps_bind keeps_entries)

lemma createHelper_entries:
  assumes "createHelper X fs s st = (r, st')"
  shows "entries st' = entries st \<or> (\<exists>s'. entries st' = entries st @ [s'] \<and> sn_type s' = sn_type s
    \<and> sn_pre_num s' = sn_pre_num s \<and> sn_num s' = sn_num s)"
proof -
  let ?P = "\<lambda>x. entries x = entries st"
  have k1: "keeps ?P (catchS (onW (createFilesystemSnapshot fs s)) (\<lambda>e. if e = CreateSnapshotFailedException
      then thenS (cleanup_info (sn_num s)) (throwS e) else throwS e))"
    by (intro keeps_catch keeps_if keeps_bind keeps_entries keeps_entries_cleanup keeps_basic)
  have k2: "keeps ?P (catchS (onW (flushInfo X s)) (\<lambda>e. if e = IOErrorException
      then thenS (onW (deleteFilesystemSnapshot fs s)) (thenS (cleanup_info (sn_num s)) (throwS e)) else throwS e))"
    by (intro keeps_catch keeps_if keeps_bind keeps_entries keeps_entries_cleanup keeps_basic)
  from assms show ?thesis
    unfolding createHelper_def
  proof (rule bindS_cases)
    fix e assume "catchS (onW (createFilesystemSnapshot fs s)) (\<lambda>e. if e = CreateSnapshotFailedException
      then thenS (cleanup_info (sn_num s)) (throwS e) else throwS e) st = (Inl e, st')"
    then show ?thesis using keepsD [OF k1, of st] by simp
  next
    fix a s1
    assume c1: "catchS (onW (createFilesystemSnapshot fs s)) (\<lambda>e. if e = CreateSnapshotFailedException
        then thenS (cleanup_info (sn_num s)) (throwS e) else throwS e) st = (Inr a, s1)"
      and rest: "bindS (catchS (onW (flushInfo X s)) (\<lambda>e. if e = IOErrorException
        then thenS (onW (deleteFilesystemSnapshot fs s)) (thenS (cleanup_info (sn_num s)) (throwS e)) else throwS e))
        (\<lambda>s'. bindS (getS (\<lambda>s. length (entries s))) (\<lambda>i.
          thenS (modifyS (\<lambda>s. s\<lparr>entries := entries s @ [s']\<rparr>)) (retS i))) s1 = (r, st')"
    have p1: "?P s1" using keepsD [OF k1 _ c1] by simp
    from rest show ?thesis
    proof (rule bindS_cases)
      fix e assume "catchS (onW (flushInfo X s)) (\<lambda>e. if e = IOErrorException
        then thenS (onW (deleteFilesystemSnapshot fs s)) (thenS (cleanup_info (sn_num s)) (throwS e))
        else throwS e) s1 = (Inl e, st')"
      then show ?thesis using keepsD [OF k2 p1] by simp
    next
      fix s' s2 assume c2: "catchS (onW (flushInfo X s)) (\<lambda>e. if e = IOErrorException
        then thenS (onW (deleteFilesystemSnapshot fs s)) (thenS (cleanup_info (sn_num s)) (throwS e))
        else throwS e) s1 = (Inr s', s2)"
        and fin: "bindS (getS (\<lambda>s. length (entries s))) (\<lambda>i.
          thenS (modifyS (\<lambda>s. s\<lparr>entries := entries s @ [s']\<rparr>)) (retS i)) s2 = (r, st')"
      have "?P s2" using keepsD [OF k2 p1 c2] .
      moreover have "s' = s \<or> s' = s\<lparr>sn_info_modified := False\<rparr>"
        using c2 by (auto simp: catchS_def onW_def flushInfo_def bindS_def
            split: prod.splits sum.splits if_splits)
      ultimately show ?thesis using fin by auto
    qed
  qed
qed

lemma createTyped_entries:
  assumes "createTyped X fs type pre desc st = (r, st')"
  shows "entries st' = entries st \<or> (\<exists>s'. entries st' = entries st @ [s'] \<and> sn_type s' = type \<and> sn_pre_num s' = pre)"
proof -
  have k: "keeps (\<lambda>x. entries x = entries st) (nextNumber fs)"
    unfolding nextNumber_def
    by (intro keeps_bind keeps_entries keeps_basic keeps_option)
  from assms show ?thesis
    unfolding createTyped_def
  proof (rule bindS_cases)
    fix e assume "nextNumber fs st = (Inl e, st')"
    then show ?thesis using keepsD [OF k, of st] by simp
  next
    fix num s1 assume n: "nextNumber fs st = (Inr num, s1)"
      and c: "bindS (getS (\<lambda>s. clock (disk s))) (\<lambda>now. createHelper X fs ((new_snapshot type num now)
         \<lparr>sn_description := desc, sn_pre_num := pre, sn_info_modified := True\<rparr>)) s1 = (r, st')"
    have "entries s1 = entries st" using keepsD [OF k _ n] by simp
    moreover have "createHelper X fs ((new_snapshot type num (clock (disk s1)))
        \<lparr>sn_description := desc, sn_pre_num := pre, sn_info_modified := True\<rparr>) s1 = (r, st')"
      using c by simp
    note createHelper_entries [OF this]
    ultimately show ?thesis by (auto simp: new_snapshot_def)
  qed
qed

text \<open>C24. No operation that creates a snapshot gives a pre snapshot a second post snapshot: the guard
  of \<open>createPostSnapshot\<close> keeps "at most one post per pre" whatever fails, on every file system.\<close>

theorem at_most_one_post:
  assumes "one_post (entries st)" "pre \<le> length (entries st)"
    and "createPostSnapshot X fs desc pre st = (r, st') \<or> createPreSnapshot X fs desc st = (r, st')
      \<or> createSingleSnapshot X fs desc st = (r, st')"
  shows "one_post (entries st')"
proof -
  have other: "one_post (entries st')" if "createTyped X fs type 0 desc st = (r, st')" "type \<noteq> POST" for type
    using createTyped_entries [OF that(1)] that(2) assms(1)
    by (auto simp: one_post_def nth_append less_Suc_eq)
  have post: "one_post (entries st')" if run: "createPostSnapshot X fs desc pre st = (r, st')"
  proof (cases "pre = length (entries st) \<or> isCurrent (entries st ! pre) \<or> sn_type (entries st ! pre) \<noteq> PRE
        \<or> findPost pre (entries st) \<noteq> Inr (length (entries st))")
    case True
    then show ?thesis using run assms(1) by (auto simp: createPostSnapshot_def)
  next
    case False
    then have "\<forall>x\<in>set (entries st). \<not> (sn_type x = POST \<and> sn_pre_num x = sn_num (entries st ! pre))"
      using find_idx_end [of "\<lambda>s. sn_type s = POST \<and> sn_pre_num s = sn_num (entries st ! pre)" "entries st"]
      by (auto simp: findPost_def split: if_splits)
    moreover have "createTyped X fs POST (sn_num (entries st ! pre)) desc st = (r, st')"
      using run False by (simp add: createPostSnapshot_def)
    ultimately show ?thesis
      using createTyped_entries [of X fs POST "sn_num (entries st ! pre)" desc st r st'] assms(1)
      by (fastforce simp: one_post_def nth_append less_Suc_eq)
  qed
  show ?thesis
    using assms(3) post other [of PRE] other [of SINGLE]
    by (auto simp: createPreSnapshot_def createSingleSnapshot_def)
qed

theorem at_most_one_post_witness:
  "\<exists>r st'. createPostSnapshot xml_ex (btrfs_ops ''/'') ''done'' 1 state_ex = (r, st') \<and> one_post (entries st')"
proof -
  obtain r st' where r: "createPostSnapshot xml_ex (btrfs_ops ''/'') ''done'' 1 state_ex = (r, st')" by fastforce
  have "one_post (entries state_ex)" "1 \<le> length (entries state_ex)"
    by (auto simp: one_post_def state_ex_def current_snapshot_def new_snapshot_def snap_ex_def less_Suc_eq)
  then have "one_post (entries st')" using at_most_one_post r by blast
  then show ?thesis using r by blast
qed

text \<open>In a list with ascending numbers and at most one post per pre, \<open>findPost\<close> and \<open>findPre\<close>
  are inverse to each other: from a pre snapshot to its post and back.\<close>

theorem findPost_findPre:
  assumes "sorted_wrt (<) (map sn_num es)" "one_post es"
    and "i < length es" "sn_type (es ! i) = PRE" "sn_num (es ! i) \<noteq> 0"
    and "j < length es" "sn_type (es ! j) = POST" "sn_num (es ! j) \<noteq> 0"
    and "sn_pre_num (es ! j) = sn_num (es ! i)"
  shows "findPost i es = Inr j \<and> findPre j es = Inr i"
proof
  have "find_idx (\<lambda>s. sn_type s = POST \<and> sn_pre_num s = sn_num (es ! i)) es = j"
    using assms by (intro find_idx_unique) (auto simp: one_post_def)
  then show "findPost i es = Inr j" using assms by (auto simp: findPost_def isCurrent_def)
  have d: "distinct (map sn_num es)" using sorted_wrt_nums [OF assms(1)] by blast
  have "find_idx (\<lambda>s. sn_num s = sn_num (es ! i)) es = i"
  proof (rule find_idx_unique)
    fix k assume "k < length es" "sn_num (es ! k) = sn_num (es ! i)"
    then show "k = i" using d assms(3) nth_eq_iff_index_eq [OF d, of k i] by simp
  qed (use assms(3) in simp_all)
  then show "findPre j es = Inr i" using assms by (auto simp: findPre_def isCurrent_def find_num_def)
qed

theorem findPost_findPre_witness:
  "findPost 1 [current_snapshot, snap_ex, (new_snapshot POST 2 1338000200)\<lparr>sn_pre_num := 1\<rparr>] = Inr 2
   \<and> findPre 2 [current_snapshot, snap_ex, (new_snapshot POST 2 1338000200)\<lparr>sn_pre_num := 1\<rparr>] = Inr 1"
proof -
  let ?es = "[current_snapshot, snap_ex, (new_snapshot POST 2 1338000200)\<lparr>sn_pre_num := 1\<rparr>]"
  have "sorted_wrt (<) (map sn_num ?es)" by code_simp
  moreover have "one_post ?es"
    by (auto simp: one_post_def less_Suc_eq snap_ex_def current_snapshot_def new_snapshot_def)
  ultimately show ?thesis
    using findPost_findPre [of ?es 1 2] by (simp add: snap_ex_def new_snapshot_def)
qed

subsection \<open>Mount counters\<close>

text \<open>A snapshot that is mounted for internal use and then released has the use count it had
  before, whether the mount itself worked or not, for every count (the addition wraps around).\<close>

theorem mount_use_is_balanced:
  assumes "sn_num s \<noteq> 0" "sn_mount_checked s"
    and "mountFilesystemSnapshot fs False s w = ((r, s2), w2)"
  shows "umountFilesystemSnapshot fs False s2 w2 = ((Inr (), s), w2)"
  using assms
  by (auto simp: mountFilesystemSnapshot_def umountFilesystemSnapshot_def mount_check_def isCurrent_def Let_def
      split: prod.splits)

theorem mount_use_is_balanced_witness:
  "\<exists>s2 w2. mountFilesystemSnapshot (btrfs_ops ''/'') False (snap_ex\<lparr>sn_mount_checked := True\<rparr>) (disk state_ex)
        = ((Inr (), s2), w2)
     \<and> umountFilesystemSnapshot (btrfs_ops ''/'') False s2 w2
        = ((Inr (), snap_ex\<lparr>sn_mount_checked := True\<rparr>), w2)"
proof -
  let ?s = "snap_ex\<lparr>sn_mount_checked := True\<rparr>"
  obtain r s2 w2 where m: "mountFilesystemSnapshot (btrfs_ops ''/'') False ?s (disk state_ex) = ((r, s2), w2)"
    by (metis surj_pair)
  have "r = Inr ()"
    using m by (auto simp: mountFilesystemSnapshot_def btrfs_ops_def mount_check_def snap_ex_def new_snapshot_def
        isCurrent_def Let_def)
  then show ?thesis using m mount_use_is_balanced [of ?s] by (auto simp: snap_ex_def new_snapshot_def)
qed

lemma minus_one_u32: "(- 1 :: u32) = 4294967295"
  by code_simp

text \<open>Releasing a snapshot that was not mounted for internal use wraps the use count around to
  4294967295, and from then on neither a client's request nor the periodic check unmounts it.\<close>

theorem umount_without_mount_wraps:
  assumes "sn_num s \<noteq> 0" "sn_mount_checked s" "sn_mount_use_count s = 0"
  shows "\<exists>s2. umountFilesystemSnapshot fs False s w = ((Inr (), s2), w)
     \<and> sn_mount_use_count s2 = 4294967295
     \<and> handleUmountFilesystemSnapshot fs s2 w = (Inr (), w)
     \<and> umountFilesystemSnapshot fs True s2 w = ((Inr (), s2\<lparr>sn_mount_user_request := False\<rparr>), w)"
  using assms
  by (auto simp: umountFilesystemSnapshot_def mount_check_def isCurrent_def Let_def
      handleUmountFilesystemSnapshot_def minus_one_u32 [symmetric])

theorem umount_without_mount_wraps_witness:
  "\<exists>s2. umountFilesystemSnapshot (btrfs_ops ''/'') False (snap_ex\<lparr>sn_mount_checked := True\<rparr>) (disk state_ex)
      = ((Inr (), s2), disk state_ex) \<and> sn_mount_use_count s2 = 4294967295"
  using umount_without_mount_wraps [of "snap_ex\<lparr>sn_mount_checked := True\<rparr>" "btrfs_ops ''/''" "disk state_ex"]
  by (auto simp: snap_ex_def new_snapshot_def)

end
