(* ===== verification/ComparisonClaims.thy ===== *)
theory ComparisonClaims
  imports Comparison SnapshotClaims
begin

text \<open>
  What a comparison guarantees: a file list that was saved is the one loaded later, in either
  direction; computing a comparison returns the mounts it took, unless the walk over the two trees
  throws.
\<close>

subsection \<open>The file list on disk\<close>

definition list_dir :: "snapshot \<Rightarrow> snapshot \<Rightarrow> string" where
  "list_dir s1 s2 = decString (unat (max (sn_num s1) (sn_num s2)))"

definition list_file :: "snapshot \<Rightarrow> snapshot \<Rightarrow> string" where
  "list_file s1 s2 = list_name (min (sn_num s1) (sn_num s2))"

lemma ordered_nums_max_min:
  "ordered_nums s1 s2 = (sn_num s1 > sn_num s2, min (sn_num s1) (sn_num s2), max (sn_num s1) (sn_num s2))"
  by (auto simp: ordered_nums_def Let_def min_def max_def)

lemma list_commute: "list_dir s2 s1 = list_dir s1 s2" "list_file s2 s1 = list_file s1 s2"
  by (simp_all add: list_dir_def list_file_def max.commute min.commute del: decString.simps)

lemma faults_put_in [simp]: "faults (put_in d x y w) = faults w" "faults (remove_in d x w) = faults w"
  by (simp_all add: put_in_def remove_in_def)

lemma info_put_in [simp]:
  "map_of (infos (put_in d x y w)) d = Some (IDir (AList.update x y (dir_entries d w)))"
  by (simp add: put_in_def put_entries_def update_conv')

text \<open>What \<open>save\<close> leaves when no system call fails.\<close>

lemma comparison_save_writes:
  assumes "faults w = []" and s: "comparison_save s1 s2 fs w = (Inr (), w')"
  shows "faults w' = []" "\<not> isCurrent s1" "\<not> isCurrent s2"
    and "entry w' (list_dir s1 s2) (list_file s1 s2) = Some (Reg (save_files (sn_num s1 > sn_num s2) fs))"
    and "\<exists>es. map_of (infos w') (list_dir s1 s2) = Some (IDir es)"
proof -
  let ?s = "if sn_num s1 > sn_num s2 then s1 else s2"
  let ?l = "list_file s1 s2" and ?c = "Reg (save_files (sn_num s1 > sn_num s2) fs)"
  have cur: "\<not> isCurrent s1 \<and> \<not> isCurrent s2"
    using s by (auto simp: comparison_save_def split: if_splits)
  then show "\<not> isCurrent s1" "\<not> isCurrent s2" by auto
  obtain dir w1 tmp w2 where o: "openInfoDir ?s w = (Inr dir, w1)"
    and m: "mktemp dir (?l @ ''.tmp-XXXXXX'') w1 = (Inr tmp, w2)"
    and r: "(case tmp of None \<Rightarrow> throwS IOErrorException
      | Some name \<Rightarrow> thenS (modifyS (put_in dir name ?c))
          (catchS (rename_in dir name ?l) (\<lambda>_. retS ()))) w2 = (Inr (), w')"
  proof -
    have "bindS (openInfoDir ?s) (\<lambda>dir. bindS (mktemp dir (?l @ ''.tmp-XXXXXX'')) (\<lambda>tmp. case tmp of
        None \<Rightarrow> throwS IOErrorException
      | Some name \<Rightarrow> thenS (modifyS (put_in dir name ?c))
          (catchS (rename_in dir name ?l) (\<lambda>_. retS ())))) w = (Inr (), w')"
      using s cur unfolding comparison_save_def ordered_nums_max_min list_file_def by simp
    then show thesis unfolding bindS_Inr by (elim exE conjE) (rule that)
  qed
  have d: "dir = list_dir s1 s2"
    using openInfoDir_Inr [OF o] by (auto simp: list_dir_def max_def simp del: decString.simps)
  have w1: "w1 = w"
    using o assms(1) by (auto simp: openInfoDir_def openInfosDir_def open_sub_def bindS_def Let_def
        simp del: decString.simps split: if_splits option.splits ientry.splits)
  have "\<exists>name v. tmp = Some name \<and> (\<exists>v. name = mktemp_name (?l @ ''.tmp-XXXXXX'') v)
      \<and> w2 = put_in dir name (Reg []) (w\<lparr>mktemp_value := v\<rparr>)"
    using m r assms(1) unfolding w1 mktemp_def
    by (auto dest!: mktemp_loop_Some split: option.splits prod.splits)
  then obtain name v where t: "tmp = Some name" and n: "\<exists>v. name = mktemp_name (?l @ ''.tmp-XXXXXX'') v"
    and w2: "w2 = put_in dir name (Reg []) (w\<lparr>mktemp_value := v\<rparr>)"
    by blast
  have ne: "name \<noteq> ?l"
    using n length_mktemp_name [of "?l @ ''.tmp-XXXXXX''"] by (auto dest!: arg_cong [of _ _ length])
  have e: "rename_in dir name ?l (put_in dir name ?c w2) =
      (Inr (), put_in dir ?l ?c (remove_in dir name (put_in dir name ?c w2)))"
    using assms(1) by (simp add: rename_in_def w2 put_in_def update_conv')
  have w': "w' = put_in dir ?l ?c (remove_in dir name (put_in dir name ?c w2))"
    using r t e by simp
  show "faults w' = []" using assms(1) by (simp add: w' w2)
  show "entry w' (list_dir s1 s2) ?l = Some ?c" by (simp add: w' d)
  show "\<exists>es. map_of (infos w') (list_dir s1 s2) = Some (IDir es)" by (simp add: w' d)
qed

text \<open>With a free temporary name nothing can go wrong.\<close>

lemma comparison_save_returns:
  assumes "faults w = []" "\<not> isCurrent s1" "\<not> isCurrent s2"
    and es: "map_of (infos w) (list_dir s1 s2) = Some (IDir es)"
    and free: "mktemp_name (list_file s1 s2 @ ''.tmp-XXXXXX'') (mktemp_value w) \<notin> fst ` set es"
  shows "fst (comparison_save s1 s2 fs w) = Inr ()"
proof -
  let ?s = "if sn_num s1 > sn_num s2 then s1 else s2"
  let ?l = "list_file s1 s2" and ?c = "Reg (save_files (sn_num s1 > sn_num s2) fs)"
  let ?d = "list_dir s1 s2" and ?n = "mktemp_name (list_file s1 s2 @ ''.tmp-XXXXXX'') (mktemp_value w)"
  have o: "openInfoDir ?s w = (Inr ?d, w)"
    using assms(1-3) es by (auto simp: openInfoDir_def openInfosDir_def open_sub_def Let_def list_dir_def max_def
        simp del: decString.simps)
  have m: "mktemp ?d (?l @ ''.tmp-XXXXXX'') w = (Inr (Some ?n), put_in ?d ?n (Reg []) w)"
    using assms(1) es free by (simp add: mktemp_def mktemp_loop.simps dir_entries_def)
  have r: "rename_in ?d ?n ?l (put_in ?d ?n ?c w2) =
      (Inr (), put_in ?d ?l ?c (remove_in ?d ?n (put_in ?d ?n ?c w2)))" if "faults w2 = []" for w2
    using that by (simp add: rename_in_def put_in_def update_conv')
  show ?thesis
    using assms(1-3) o m r
    unfolding comparison_save_def ordered_nums_max_min list_file_def by simp
qed

lemma comparison_load_reads:
  assumes "faults w = []" "\<not> isCurrent s1" "\<not> isCurrent s2"
    and "entry w (list_dir s1 s2) (list_file s1 s2) = Some (Reg content)"
    and "\<exists>es. map_of (infos w) (list_dir s1 s2) = Some (IDir es)"
  shows "comparison_load s1 s2 w = (Inr (Some (load_files (sn_num s1 > sn_num s2) content)), w)"
proof -
  obtain es where es: "map_of (infos w) (list_dir s1 s2) = Some (IDir es)" using assms(5) by blast
  have "open_sub (list_dir s1 s2) w = (Inr es, w)"
    using assms(1) es by (simp add: open_sub_def split: option.split)
  moreover have "map_of es (list_file s1 s2) = Some (Reg content)"
    using assms(4) es by (simp add: entry_def dir_entries_def)
  ultimately show ?thesis
    using assms(1-3) unfolding comparison_load_def ordered_nums_max_min list_dir_def list_file_def
    by (simp add: openInfosDir_def del: decString.simps)
qed

definition with_status :: "(u32 \<Rightarrow> u32) \<Rightarrow> file_rec list \<Rightarrow> file_rec list" where
  "with_status g fs = map (\<lambda>f. new_file (f_name f) (g (pre_to_post_status f))) fs"

text \<open>The files \<open>save\<close> can represent, in the order \<open>create\<close> leaves them in.\<close>

definition saveable :: "file_rec list \<Rightarrow> bool" where
  "saveable fs \<longleftrightarrow> sorted (map f_name fs)
     \<and> (\<forall>f\<in>set fs. CHR 0x0A \<notin> set (f_name f) \<and> valid_status (pre_to_post_status f))"

text \<open>C23. A sorted file list whose names have no newline and whose statuses are valid, which \<open>save\<close> wrote and
  \<open>load\<close> reads without a failing system call, is the list that \<open>load\<close> returns for the same two snapshots, and with every
  status inverted for the snapshots in the other order.\<close>
theorem saved_list_is_loaded:
  assumes "faults w = []" "comparison_save s1 s2 fs w = (Inr (), w')" "saveable fs" "sn_num s1 \<noteq> sn_num s2"
  shows "comparison_load s1 s2 w' = (Inr (Some (with_status id fs)), w')
    \<and> comparison_load s2 s1 w' = (Inr (Some (with_status invertStatus fs)), w')"
proof -
  note w = comparison_save_writes [OF assms(1,2)]
  have w': "entry w' (list_dir s2 s1) (list_file s2 s1) = Some (Reg (save_files (sn_num s1 > sn_num s2) fs))"
    "\<exists>es. map_of (infos w') (list_dir s2 s1) = Some (IDir es)"
    using w(4,5) list_commute [of s1 s2] by metis+
  have l: "load_files a (save_files b fs) = with_status (if b \<noteq> a then invertStatus else id) fs" for a b
    using load_save_files [of fs a b] assms(3) unfolding saveable_def with_status_def by blast
  have "sn_num s1 < sn_num s2 \<longleftrightarrow> \<not> sn_num s2 < sn_num s1" using assms(4) by auto
  then show ?thesis
    using comparison_load_reads [OF w(1) w(2) w(3) w(4) w(5)] comparison_load_reads [OF w(1) w(3) w(2) w']
    by (simp add: l)
qed

definition two_ex :: world where
  "two_ex = \<lparr>infos_exist = True,
     infos = [(''1'', IDir [(''snapshot'', Subvol)]), (''2'', IDir [(''snapshot'', Subvol)])],
     devices = [], mounts = [], clock = 1338000100, mktemp_value = 0, faults = []\<rparr>"

definition post_ex :: snapshot where
  "post_ex = (new_snapshot POST 2 1338000050)\<lparr>sn_pre_num := 1\<rparr>"

definition files_ex :: "file_rec list" where
  "files_ex = [new_file ''/etc/fstab'' CONTENT, new_file ''/tmp/new'' CREATED]"

lemma saved_list_is_loaded_witness:
  "\<exists>w'. comparison_save snap_ex post_ex files_ex two_ex = (Inr (), w')
     \<and> comparison_load snap_ex post_ex w' = (Inr (Some files_ex), w')
     \<and> comparison_load post_ex snap_ex w' =
        (Inr (Some [new_file ''/etc/fstab'' CONTENT, new_file ''/tmp/new'' DELETED]), w')"
proof -
  have l: "list_dir snap_ex post_ex = ''2''" "list_file snap_ex post_ex = ''filelist-1.txt''"
    "\<not> isCurrent snap_ex" "\<not> isCurrent post_ex"
    "map_of (infos two_ex) ''2'' = Some (IDir [(''snapshot'', Subvol)])"
    by code_simp+
  have ok: "fst (comparison_save snap_ex post_ex files_ex two_ex) = Inr ()"
    using l by (intro comparison_save_returns [where es = "[(''snapshot'', Subvol)]"]) (simp_all add: two_ex_def mktemp_name_def)
  have s: "saveable files_ex" by code_simp
  have i: "with_status id files_ex = files_ex"
    "with_status invertStatus files_ex = [new_file ''/etc/fstab'' CONTENT, new_file ''/tmp/new'' DELETED]"
    by code_simp+
  have n: "faults two_ex = []" "sn_num snap_ex \<noteq> sn_num post_ex" by code_simp+
  obtain w' where w': "comparison_save snap_ex post_ex files_ex two_ex = (Inr (), w')"
    using ok by (metis prod.collapse)
  show ?thesis using saved_list_is_loaded [OF n(1) w' s n(2)] w' by (simp add: i)
qed


subsection \<open>Mounts taken by a comparison\<close>

lemma comparison_mount_entries:
  assumes "comparison_mount fs i j st = (Inr (), st')" "i \<noteq> j"
    and "\<not> isCurrent (entries st ! i)" "\<not> isCurrent (entries st ! j)"
    and "sn_mount_checked (entries st ! i)" "sn_mount_checked (entries st ! j)"
  shows "entries st' = (entries st)[i := (entries st ! i)\<lparr>sn_mount_use_count := sn_mount_use_count (entries st ! i) + 1\<rparr>,
                                    j := (entries st ! j)\<lparr>sn_mount_use_count := sn_mount_use_count (entries st ! j) + 1\<rparr>]"
  using assms
  by (auto simp: comparison_mount_def mountAt_def mountFilesystemSnapshot_def mount_check_def bindS_Inr
      Let_def nth_list_update split: prod.splits)

lemma comparison_umount_entries:
  assumes "i \<noteq> j" "\<not> isCurrent (entries st ! i)" "\<not> isCurrent (entries st ! j)"
    and "sn_mount_checked (entries st ! i)" "sn_mount_checked (entries st ! j)"
  shows "comparison_umount fs i j st = (Inr (), st\<lparr>entries :=
    (entries st)[i := (entries st ! i)\<lparr>sn_mount_use_count := sn_mount_use_count (entries st ! i) - 1\<rparr>,
                 j := (entries st ! j)\<lparr>sn_mount_use_count := sn_mount_use_count (entries st ! j) - 1\<rparr>]\<rparr>)"
  using assms
  by (simp add: comparison_umount_def umountAt_def umountFilesystemSnapshot_def mount_check_def bindS_def
      Let_def nth_list_update)

text \<open>Computing a comparison of two snapshots takes one internal mount of each and returns both
  before it hands out the sorted list, so the list of snapshots is as before.\<close>
theorem comparison_create_returns_mounts:
  assumes "comparison_create fs cmp i j st = (Inr files, st')" "i \<noteq> j" "i < length (entries st)" "j < length (entries st)"
    and "\<not> isCurrent (entries st ! i)" "\<not> isCurrent (entries st ! j)"
    and "sn_mount_checked (entries st ! i)" "sn_mount_checked (entries st ! j)"
  shows "entries st' = entries st \<and> sorted (map f_name files)"
proof -
  from assms(1) obtain st1 reports st2 where m: "comparison_mount fs i j st = (Inr (), st1)"
    and c: "onW (cmp (entries st1 ! i) (entries st1 ! j)) st1 = (Inr reports, st2)"
    and u: "comparison_umount fs i j st2 = (Inr (), st')"
    and files: "files = files_sort (map (\<lambda>(name, status). new_file name status) reports)"
    by (auto simp: comparison_create_def bindS_Inr)
  have e2: "entries st2 = entries st1" using c by (auto simp: onW_def split: prod.splits)
  note e1 = comparison_mount_entries [OF m assms(2,5-8)]
  have "\<not> isCurrent (entries st2 ! i)" "\<not> isCurrent (entries st2 ! j)"
    "sn_mount_checked (entries st2 ! i)" "sn_mount_checked (entries st2 ! j)"
    using assms(2-8) by (simp_all add: e2 e1 isCurrent_def nth_list_update)
  from comparison_umount_entries [OF assms(2) this, of fs] u
  have "entries st' = (entries st2)[i := (entries st2 ! i)\<lparr>sn_mount_use_count := sn_mount_use_count (entries st2 ! i) - 1\<rparr>,
                 j := (entries st2 ! j)\<lparr>sn_mount_use_count := sn_mount_use_count (entries st2 ! j) - 1\<rparr>]"
    by auto
  then have "entries st' = entries st"
    using assms(2-4) by (intro nth_equalityI) (auto simp: e2 e1 nth_list_update)
  then show ?thesis by (simp add: files files_sort_def)
qed

text \<open>When the walk over the two trees throws, the exception leaves both snapshots with the use
  count of the internal mount: nothing returns it, and no later request or check unmounts them.\<close>
theorem comparison_create_leaks_mounts:
  assumes "comparison_mount fs i j st = (Inr (), st1)" "i \<noteq> j" "i < length (entries st)" "j < length (entries st)"
    and "\<not> isCurrent (entries st ! i)" "\<not> isCurrent (entries st ! j)"
    and "sn_mount_checked (entries st ! i)" "sn_mount_checked (entries st ! j)"
    and "sn_mount_use_count (entries st ! i) = 0"
    and "cmp (entries st1 ! i) (entries st1 ! j) (disk st1) = (Inl e, w)"
  shows "\<exists>st'. comparison_create fs cmp i j st = (Inl e, st') \<and> disk st' = w
    \<and> sn_mount_use_count (entries st' ! i) = 1
    \<and> handleUmountFilesystemSnapshot fs (entries st' ! i) w = (Inr (), w)"
proof -
  note e1 = comparison_mount_entries [OF assms(1,2,5-8)]
  have "comparison_create fs cmp i j st = (Inl e, st1\<lparr>disk := w\<rparr>)"
    using assms(1,10) by (simp add: comparison_create_def onW_def)
  moreover have "sn_mount_use_count (entries st1 ! i) = 1"
    using assms(2-4,9) by (simp add: e1 nth_list_update)
  ultimately show ?thesis
    by (simp add: handleUmountFilesystemSnapshot_def)
qed

definition pair_ex :: sstate where
  "pair_ex = \<lparr>disk = two_ex, entries = [current_snapshot, snap_ex\<lparr>sn_mount_checked := True\<rparr>,
     post_ex\<lparr>sn_mount_checked := True\<rparr>]\<rparr>"

lemma pair_ex_facts:
  "\<not> isCurrent (entries pair_ex ! 1)" "\<not> isCurrent (entries pair_ex ! 2)"
  "sn_mount_checked (entries pair_ex ! 1)" "sn_mount_checked (entries pair_ex ! 2)"
  "sn_mount_use_count (entries pair_ex ! 1) = 0" "1 < length (entries pair_ex)" "2 < length (entries pair_ex)"
  by code_simp+

lemma pair_ex_mount: "\<exists>st1. comparison_mount (btrfs_ops ''/'') 1 2 pair_ex = (Inr (), st1)"
  by (simp add: comparison_mount_def pair_ex_def mountAt_def mountFilesystemSnapshot_def mount_check_def
      btrfs_ops_def isCurrent_def snap_ex_def post_ex_def new_snapshot_def bindS_def Let_def)

lemma comparison_create_returns_mounts_witness:
  "\<exists>st'. comparison_create (btrfs_ops ''/'') (\<lambda>s1 s2. retS [(''/b'', CREATED), (''/a'', DELETED)]) 1 2 pair_ex
      = (Inr [new_file ''/a'' DELETED, new_file ''/b'' CREATED], st') \<and> entries st' = entries pair_ex"
proof -
  let ?cmp = "\<lambda>s1 s2. retS [(''/b'', CREATED), (''/a'', DELETED)]"
  let ?files = "[new_file ''/a'' DELETED, new_file ''/b'' CREATED]"
  have s: "files_sort [new_file ''/b'' CREATED, new_file ''/a'' DELETED] = ?files" by code_simp
  obtain st1 where m: "comparison_mount (btrfs_ops ''/'') 1 2 pair_ex = (Inr (), st1)"
    using pair_ex_mount by blast
  note e1 = comparison_mount_entries [OF m _ pair_ex_facts(1-4)]
  have "\<not> isCurrent (entries st1 ! 1)" "\<not> isCurrent (entries st1 ! 2)"
    "sn_mount_checked (entries st1 ! 1)" "sn_mount_checked (entries st1 ! 2)"
    using pair_ex_facts by (simp_all add: e1 isCurrent_def nth_list_update)
  then obtain st' where c: "comparison_create (btrfs_ops ''/'') ?cmp 1 2 pair_ex = (Inr ?files, st')"
    using m s by (simp add: comparison_create_def onW_def comparison_umount_entries)
  then show ?thesis
    using comparison_create_returns_mounts [OF c _ pair_ex_facts(6,7,1-4)] by simp
qed

lemma comparison_create_leaks_mounts_witness:
  "\<exists>st'. comparison_create (btrfs_ops ''/'') (\<lambda>s1 s2. throwS IOErrorException) 1 2 pair_ex
      = (Inl IOErrorException, st') \<and> sn_mount_use_count (entries st' ! 1) = 1"
proof -
  let ?cmp = "\<lambda>s1 s2. throwS IOErrorException"
  obtain st1 where m: "comparison_mount (btrfs_ops ''/'') 1 2 pair_ex = (Inr (), st1)"
    using pair_ex_mount by blast
  show ?thesis
    using comparison_create_leaks_mounts [OF m _ pair_ex_facts(6,7,1-5), of ?cmp] by auto
qed

end
