(* ===== verification/Snapper.thy ===== *)
theory Snapper
  imports Snapshots Filesystems Sysconfig
begin

text \<open>
  The class \<open>Snapper\<close> (\<open>snapper/Snapper.cc\<close>): loading a configuration with its file system,
  ignore patterns and snapshots, its destructor, and the static functions that list, create and
  delete configurations.  The state \<open>etc\<close> has the configuration files by path and, for each
  subvolume, the world its snapshots live in.  What the code calls and does not define is the record
  \<open>sysenv\<close>: libxml2, the external programs, the shell commands that copy and remove configuration
  files, and which paths are directories.
\<close>

record etc =
  ec_files :: "(string \<times> string) list"
  ec_disks :: "string \<Rightarrow> world"

record sysenv =
  se_xml :: xml_lib
  se_run :: runner
  se_executable :: "string \<Rightarrow> bool"
  se_shell :: "string \<Rightarrow> etc \<Rightarrow> int \<times> etc"
  se_isdir :: "string \<Rightarrow> bool"
  se_sysconfigfile :: string

record config_info =
  ci_name :: string
  ci_subvolume :: string
  ci_raw :: "(string, string) smap"

record snapper =
  sp_name :: string
  sp_config :: sysconfig
  sp_subvolume :: string
  sp_ops :: fsops
  sp_ignore_patterns :: "string list"
  sp_snapshots :: "snapshot list"

definition CONFIGSDIR :: string where "CONFIGSDIR = ''/etc/snapper/configs''"
definition CONFIGTEMPLATEDIR :: string where "CONFIGTEMPLATEDIR = ''/etc/snapper/config-templates''"
definition FILTERSDIR :: string where "FILTERSDIR = ''/etc/snapper/filters''"
definition CPBIN :: string where "CPBIN = ''/bin/cp''"
definition RMBIN :: string where "RMBIN = ''/bin/rm''"

definition config_path :: "string \<Rightarrow> string" where
  "config_path name = CONFIGSDIR @ ''/'' @ name"

definition template_path :: "string \<Rightarrow> string" where
  "template_path name = CONFIGTEMPLATEDIR @ ''/'' @ name"

subsection \<open>Configuration files\<close>

definition open_config :: "string \<Rightarrow> (etc, sysconfig) step" where
  "open_config path = bindS (getS ec_files) (\<lambda>fs. liftS (sysconfig_open (map_of fs path)))"

text \<open>The destructor of \<open>SysconfigFile\<close>.\<close>

definition close_config :: "string \<Rightarrow> sysconfig \<Rightarrow> (etc, unit) step" where
  "close_config path f = (case sysconfig_close f of
       None \<Rightarrow> retS ()
     | Some c \<Rightarrow> modifyS (\<lambda>e. e\<lparr>ec_files := AList.update path c (ec_files e)\<rparr>))"

text \<open>A step on the world of one subvolume.\<close>

definition onDisk :: "string \<Rightarrow> (world, 'a) step \<Rightarrow> (etc, 'a) step" where
  "onDisk subvolume m e = (case m (ec_disks e subvolume) of
     (r, w) \<Rightarrow> (r, e\<lparr>ec_disks := (ec_disks e)(subvolume := w)\<rparr>))"

text \<open>A step on a list of snapshots and the world it lives in.\<close>

definition onList :: "string \<Rightarrow> snapshot list \<Rightarrow> (sstate, 'a) step \<Rightarrow> (etc, 'a \<times> snapshot list) step" where
  "onList subvolume es m e = (case m \<lparr>disk = ec_disks e subvolume, entries = es\<rparr> of
     (r, st) \<Rightarrow> (map_sum id (\<lambda>a. (a, entries st)) r, e\<lparr>ec_disks := (ec_disks e)(subvolume := disk st)\<rparr>))"

subsection \<open>Construction and destruction\<close>

definition is_filter_file :: "string \<Rightarrow> bool" where
  "is_filter_file p \<longleftrightarrow> (let d = FILTERSDIR @ ''/''; b = drop (length d) p in
     starts_with p d \<and> ends_with b ''.txt'' \<and> hd b \<noteq> CHR ''.'' \<and> CHR ''/'' \<notin> set b)"

definition loadIgnorePatterns :: "etc \<Rightarrow> string list" where
  "loadIgnorePatterns e = concat (map (\<lambda>(p, c). read_lines c) (filter (\<lambda>(p, c). is_filter_file p) (ec_files e)))"

definition snapper_new :: "sysenv \<Rightarrow> string \<Rightarrow> bool \<Rightarrow> (etc, snapper) step" where
  "snapper_new E config_name disable_filters =
     bindS (catchS (open_config (config_path config_name))
              (\<lambda>e. throwS (if e = FileNotFoundException then ConfigNotFoundException else e))) (\<lambda>config.
     case getValue config ''SUBVOLUME'' of
       None \<Rightarrow> throwS InvalidConfigException
     | Some subvolume \<Rightarrow>
         (let fstype = (case getValue config ''FSTYPE'' of None \<Rightarrow> ''btrfs'' | Some t \<Rightarrow> t) in
          bindS (onDisk subvolume (filesystem_create (se_run E) (se_executable E) fstype subvolume)) (\<lambda>fs.
          bindS (getS (\<lambda>e. if disable_filters then [] else loadIgnorePatterns e)) (\<lambda>ignore.
          bindS (onList subvolume [] (initialize (se_xml E) fs)) (\<lambda>(_, es).
            retS \<lparr>sp_name = config_name, sp_config = config, sp_subvolume = subvolume, sp_ops = fs,
                  sp_ignore_patterns = ignore, sp_snapshots = es\<rparr>)))))"

definition snapper_destroy :: "sysenv \<Rightarrow> snapper \<Rightarrow> (etc, unit) step" where
  "snapper_destroy E sp = onDisk (sp_subvolume sp) (foreachS (\<lambda>s.
     bindS (flushInfo (se_xml E) s) (\<lambda>s'.
       catchS (handleUmountFilesystemSnapshot (sp_ops sp) s')
         (\<lambda>e. if e = UmountSnapshotFailedException then retS () else throwS e))) (sp_snapshots sp))"

subsection \<open>Listing, creating and deleting configurations\<close>

definition getConfig :: "string \<Rightarrow> (etc, config_info) step" where
  "getConfig config_name = bindS (open_config (config_path config_name)) (\<lambda>config.
     retS \<lparr>ci_name = config_name,
           ci_subvolume = (case getValue config ''SUBVOLUME'' of None \<Rightarrow> ''/'' | Some s \<Rightarrow> s),
           ci_raw = getAllValues config\<rparr>)"

definition config_names :: "sysconfig \<Rightarrow> string list" where
  "config_names f = (case getValue_list f ''SNAPPER_CONFIGS'' of None \<Rightarrow> [] | Some ns \<Rightarrow> ns)"

fun config_infos :: "string list \<Rightarrow> (etc, config_info list) step" where
  "config_infos [] = retS []"
| "config_infos (n # ns) =
     bindS (catchS (bindS (getConfig n) (\<lambda>c. retS [c]))
              (\<lambda>e. if e = FileNotFoundException then retS [] else throwS e)) (\<lambda>a.
       bindS (config_infos ns) (\<lambda>b. retS (a @ b)))"

definition getConfigs :: "sysenv \<Rightarrow> (etc, config_info list) step" where
  "getConfigs E = catchS
     (bindS (open_config (se_sysconfigfile E)) (\<lambda>sysconfig. config_infos (config_names sysconfig)))
     (\<lambda>e. throwS (if e = FileNotFoundException then ListConfigsFailedException ''sysconfig-file not found'' else e))"

text \<open>\<open>fstype()\<close> of the object that \<open>Filesystem::create\<close> made.\<close>

definition filesystem_fstype :: "string \<Rightarrow> string" where
  "filesystem_fstype fstype = (if fstype = ''btrfs'' \<or> fstype = ''ext4'' then fstype
     else (case lvm_fstype fstype of Some mount_type \<Rightarrow> ''lvm('' @ mount_type @ '')'' | None \<Rightarrow> []))"

definition create_failed :: "(exn \<Rightarrow> string option) \<Rightarrow> (etc, 'a) step \<Rightarrow> (etc, 'a) step" where
  "create_failed msg m = catchS m (\<lambda>e. throwS (case msg e of Some t \<Rightarrow> CreateConfigFailedException t | None \<Rightarrow> e))"

definition create_filesystem_msg :: "exn \<Rightarrow> string option" where
  "create_filesystem_msg e = (case e of
       InvalidConfigException \<Rightarrow> Some ''invalid filesystem type''
     | ProgramNotInstalledException t \<Rightarrow> Some t
     | _ \<Rightarrow> None)"

definition not_found_msg :: "string \<Rightarrow> exn \<Rightarrow> string option" where
  "not_found_msg t e = (if e = FileNotFoundException then Some t else None)"

text \<open>\<open>SystemCmd\<close>: the exit status of a command line.\<close>

definition shell :: "sysenv \<Rightarrow> string \<Rightarrow> (etc, int) step" where
  "shell E cmd e = (case se_shell E cmd e of (ret, e') \<Rightarrow> (Inr ret, e'))"

definition cp_cmd :: "string \<Rightarrow> string \<Rightarrow> string" where
  "cp_cmd template_name config_name =
     CPBIN @ '' '' @ quote (template_path template_name) @ '' '' @ quote (config_path config_name)"

definition rm_cmd :: "string \<Rightarrow> string" where
  "rm_cmd config_name = RMBIN @ '' '' @ quote (config_path config_name)"

text \<open>The two \<open>try\<close> blocks that edit configuration files.\<close>

definition add_config_name :: "sysenv \<Rightarrow> string \<Rightarrow> (etc, unit) step" where
  "add_config_name E config_name = create_failed (not_found_msg ''sysconfig-file not found'')
     (bindS (open_config (se_sysconfigfile E)) (\<lambda>sysconfig.
        if config_name \<in> set (config_names sysconfig)
        then throwS (CreateConfigFailedException ''config already exists'')
        else close_config (se_sysconfigfile E)
          (setValue_list ''SNAPPER_CONFIGS'' (config_names sysconfig @ [config_name]) sysconfig)))"

definition modify_config :: "string \<Rightarrow> string \<Rightarrow> string \<Rightarrow> (etc, unit) step" where
  "modify_config config_name subvolume fstype = create_failed (not_found_msg ''modifying config failed'')
     (bindS (open_config (config_path config_name)) (\<lambda>config.
        close_config (config_path config_name)
          (setValue ''FSTYPE'' (filesystem_fstype fstype) (setValue ''SUBVOLUME'' subvolume config))))"

definition createConfig :: "sysenv \<Rightarrow> string \<Rightarrow> string \<Rightarrow> string \<Rightarrow> string \<Rightarrow> (etc, unit) step" where
  "createConfig E config_name subvolume fstype template_name =
     thenS (throw_ifS (config_name = [] \<or> list_ex (\<lambda>c. c = CHR '','' \<or> c = CHR '' '' \<or> c = CHR 0x09) config_name)
              (CreateConfigFailedException ''illegal config name''))
    (thenS (throw_ifS (\<not> starts_with subvolume ''/'' \<or> \<not> se_isdir E subvolume)
              (CreateConfigFailedException ''illegal subvolume''))
    (bindS (getConfigs E) (\<lambda>configs.
     thenS (throw_ifS (list_ex (\<lambda>c. ci_subvolume c = subvolume) configs)
              (CreateConfigFailedException ''subvolume already covered''))
    (bindS (getS ec_files) (\<lambda>fs.
     thenS (throw_ifS (map_of fs (template_path template_name) = None)
              (CreateConfigFailedException ''cannot access template config''))
    (bindS (create_failed create_filesystem_msg
              (onDisk subvolume (filesystem_create (se_run E) (se_executable E) fstype subvolume))) (\<lambda>filesystem.
     thenS (add_config_name E config_name)
    (bindS (shell E (cp_cmd template_name config_name)) (\<lambda>ret.
     thenS (throw_ifS (ret \<noteq> 0) (CreateConfigFailedException ''copying config-file template failed''))
    (thenS (modify_config config_name subvolume fstype)
       (onDisk subvolume (fo_createConfig filesystem))))))))))))"

text \<open>The loop over the snapshots: after a deletion the next one has the index of the deleted one.
  The first argument counts the entries left to visit.\<close>

fun delete_all :: "fsops \<Rightarrow> nat \<Rightarrow> nat \<Rightarrow> (sstate, unit) step" where
  "delete_all fs 0 i = retS ()"
| "delete_all fs (Suc n) i = bindS (getS entries) (\<lambda>es.
     if isCurrent (es ! i) then delete_all fs n (Suc i)
     else bindS (catchS (thenS (deleteSnapshot fs i) (retS True))
                  (\<lambda>e. if e = DeleteSnapshotFailedException then retS False else throwS e))
            (\<lambda>deleted. delete_all fs n (if deleted then i else Suc i)))"

text \<open>A step whose object is destroyed whether it returns or throws.\<close>

definition finallyS :: "('s, 'a) step \<Rightarrow> ('s, unit) step \<Rightarrow> ('s, 'a) step" where
  "finallyS m final s = (case m s of (r, s') \<Rightarrow> (case final s' of
       (Inl e, s'') \<Rightarrow> (Inl e, s'')
     | (Inr _, s'') \<Rightarrow> (r, s'')))"

text \<open>A step on the snapshots of a loaded configuration; the list keeps what was done before an
  exception.\<close>

definition onSnapper :: "snapper \<Rightarrow> (sstate, 'a) step \<Rightarrow> etc \<Rightarrow> ('a res \<times> snapper) \<times> etc" where
  "onSnapper sp m e = (case m \<lparr>disk = ec_disks e (sp_subvolume sp), entries = sp_snapshots sp\<rparr> of
     (r, st) \<Rightarrow> ((r, sp\<lparr>sp_snapshots := entries st\<rparr>),
                 e\<lparr>ec_disks := (ec_disks e)(sp_subvolume sp := disk st)\<rparr>))"

definition delete_failed :: "exn \<Rightarrow> string \<Rightarrow> (etc, 'a) step \<Rightarrow> (etc, 'a) step" where
  "delete_failed x msg m = catchS m (\<lambda>e. throwS (if e = x then DeleteConfigFailedException msg else e))"

definition is_delete_config_failed :: "exn \<Rightarrow> bool" where
  "is_delete_config_failed e = (case e of DeleteConfigFailedException _ \<Rightarrow> True | _ \<Rightarrow> False)"

definition delete_config_files :: "sysenv \<Rightarrow> snapper \<Rightarrow> (etc, unit) step" where
  "delete_config_files E sp =
     thenS (catchS (onDisk (sp_subvolume sp) (fo_deleteConfig (sp_ops sp))) (\<lambda>e. throwS
              (if is_delete_config_failed e then DeleteConfigFailedException ''deleting snapshot failed'' else e)))
    (bindS (shell E (rm_cmd (sp_name sp))) (\<lambda>ret.
     thenS (throw_ifS (ret \<noteq> 0) (DeleteConfigFailedException ''deleting config-file failed''))
       (delete_failed FileNotFoundException ''sysconfig-file not found''
         (bindS (open_config (se_sysconfigfile E)) (\<lambda>sysconfig.
            close_config (se_sysconfigfile E)
              (setValue_list ''SNAPPER_CONFIGS'' (filter (\<lambda>n. n \<noteq> sp_name sp) (config_names sysconfig)) sysconfig))))))"

text \<open>The destructor of the \<open>Snapper\<close> object runs on every way out.\<close>

definition deleteConfig :: "sysenv \<Rightarrow> string \<Rightarrow> (etc, unit) step" where
  "deleteConfig E config_name = bindS (snapper_new E config_name False) (\<lambda>sp e.
     case onSnapper sp (delete_all (sp_ops sp) (length (sp_snapshots sp)) 0) e of
       ((r, sp'), e') \<Rightarrow>
         finallyS (bindS (liftS r) (\<lambda>_. delete_config_files E sp')) (snapper_destroy E sp') e')"

subsection \<open>The file system type of a directory\<close>

text \<open>The loop over \<open>/etc/mtab\<close>; \<open>None\<close>: the table cannot be opened.\<close>

fun best_mount :: "string \<Rightarrow> mtab_entry list \<Rightarrow> string \<Rightarrow> string \<Rightarrow> string \<times> string" where
  "best_mount subvolume [] best_match fstype = (best_match, fstype)"
| "best_mount subvolume (m # ms) best_match fstype =
     (if mt_type m = ''rootfs'' then best_mount subvolume ms best_match fstype
      else if length (mt_dir m) \<ge> length best_match \<and> is_subpath subvolume (mt_dir m)
      then best_mount subvolume ms (mt_dir m) (mt_type m)
      else best_mount subvolume ms best_match fstype)"

definition detectFstype :: "sysenv \<Rightarrow> mtab_entry list option \<Rightarrow> string \<Rightarrow> string option" where
  "detectFstype E mtab subvolume =
     (if \<not> starts_with subvolume ''/'' \<or> \<not> se_isdir E subvolume then None
      else (case mtab of None \<Rightarrow> None | Some ms \<Rightarrow>
        (case best_mount subvolume ms [] [] of (best_match, fstype) \<Rightarrow>
           if best_match \<noteq> [] then Some (if fstype = ''ext4dev'' then ''ext4'' else fstype) else None)))"

subsection \<open>What they do\<close>

definition covers :: "string \<Rightarrow> mtab_entry \<Rightarrow> bool" where
  "covers subvolume m \<longleftrightarrow> mt_type m \<noteq> ''rootfs'' \<and> is_subpath subvolume (mt_dir m)"

text \<open>The last of the entries with the longest directory, when there is one at least as long as the
  match so far.\<close>

lemma best_mount_spec:
  "best_mount sub ms best fst0 = (best', fst') \<Longrightarrow>
     (best' = best \<and> fst' = fst0 \<and> (\<forall>m\<in>set ms. covers sub m \<longrightarrow> length (mt_dir m) < length best))
     \<or> (\<exists>as m bs. ms = as @ m # bs \<and> covers sub m \<and> best' = mt_dir m \<and> fst' = mt_type m
          \<and> length best \<le> length (mt_dir m)
          \<and> (\<forall>x\<in>set as. covers sub x \<longrightarrow> length (mt_dir x) \<le> length (mt_dir m))
          \<and> (\<forall>x\<in>set bs. covers sub x \<longrightarrow> length (mt_dir x) < length (mt_dir m)))"
proof (induction ms arbitrary: best fst0)
  case (Cons a ms)
  show ?case
  proof (cases "covers sub a \<and> length best \<le> length (mt_dir a)")
    case True
    then have "best_mount sub ms (mt_dir a) (mt_type a) = (best', fst')"
      using Cons.prems by (simp add: covers_def)
    from Cons.IH [OF this] show ?thesis
    proof (elim disjE exE conjE, goal_cases)
      case 1
      then show ?case using True by (intro disjI2 exI [of _ "[]"] exI [of _ a] exI [of _ ms]) auto
    next
      case (2 as m bs)
      then show ?case using True by (intro disjI2 exI [of _ "a # as"] exI [of _ m] exI [of _ bs]) auto
    qed
  next
    case False
    then have "best_mount sub ms best fst0 = (best', fst')"
      using Cons.prems by (auto simp: covers_def split: if_splits)
    from Cons.IH [OF this] show ?thesis
    proof (elim disjE exE conjE, goal_cases)
      case 1
      then show ?case using False by auto
    next
      case (2 as m bs)
      then show ?case using False by (intro disjI2 exI [of _ "a # as"] exI [of _ m] exI [of _ bs]) auto
    qed
  qed
qed simp

text \<open>C36. The type that is detected is the one of the mount point that is the longest prefix of the
  directory, the last one mounted there, with \<open>ext4dev\<close> read as \<open>ext4\<close>.\<close>
theorem detectFstype_is_the_mount:
  assumes "detectFstype E (Some ms) subvolume = Some t"
  shows "\<exists>as m bs. ms = as @ m # bs \<and> covers subvolume m
    \<and> t = (if mt_type m = ''ext4dev'' then ''ext4'' else mt_type m)
    \<and> (\<forall>x\<in>set as. covers subvolume x \<longrightarrow> length (mt_dir x) \<le> length (mt_dir m))
    \<and> (\<forall>x\<in>set bs. covers subvolume x \<longrightarrow> length (mt_dir x) < length (mt_dir m))"
proof -
  obtain b f where b: "best_mount subvolume ms [] [] = (b, f)" by fastforce
  then have "b \<noteq> []" "t = (if f = ''ext4dev'' then ''ext4'' else f)"
    using assms by (auto simp: detectFstype_def split: if_splits)
  then show ?thesis using best_mount_spec [OF b] by blast
qed

end
