(* ===== verification/SnapperClaims.thy ===== *)
theory SnapperClaims
  imports Snapper
begin

text \<open>
  What the functions on configurations guarantee: a configuration that was created is listed, after
  the ones before it and for a subvolume none of them covers; and the order of the steps of
  \<open>createConfig\<close>, which leaves a configuration listed when its last step fails.
\<close>

subsection \<open>Reading configurations changes nothing\<close>

definition config_at :: "(string \<times> string) list \<Rightarrow> string \<Rightarrow> config_info option" where
  "config_at fs n = map_option (\<lambda>c. let f = \<lparr>sc_lines = read_lines c, sc_modified = False\<rparr> in
     \<lparr>ci_name = n, ci_subvolume = (case getValue f ''SUBVOLUME'' of None \<Rightarrow> ''/'' | Some s \<Rightarrow> s),
      ci_raw = getAllValues f\<rparr>) (map_of fs (config_path n))"

definition listed_names :: "sysenv \<Rightarrow> etc \<Rightarrow> string list" where
  "listed_names E e = (case map_of (ec_files e) (se_sysconfigfile E) of
       None \<Rightarrow> []
     | Some c \<Rightarrow> config_names \<lparr>sc_lines = read_lines c, sc_modified = False\<rparr>)"

lemma open_config_simps [simp]:
  "map_of (ec_files e) p = None \<Longrightarrow> open_config p e = (Inl FileNotFoundException, e)"
  "map_of (ec_files e) p = Some c \<Longrightarrow> open_config p e = (Inr \<lparr>sc_lines = read_lines c, sc_modified = False\<rparr>, e)"
  by (simp_all add: open_config_def sysconfig_open_def)

lemma config_infos_eq: "config_infos ns e = (Inr (List.map_filter (config_at (ec_files e)) ns), e)"
proof (induction ns)
  case (Cons n ns)
  then show ?case
    by (cases "map_of (ec_files e) (config_path n)")
      (simp_all add: getConfig_def config_at_def map_filter_simps bindS_def catchS_def Let_def)
qed (simp add: map_filter_simps)

lemma getConfigs_eq:
  "map_of (ec_files e) (se_sysconfigfile E) \<noteq> None \<Longrightarrow>
     getConfigs E e = (Inr (List.map_filter (config_at (ec_files e)) (listed_names E e)), e)"
  by (auto simp: getConfigs_def config_infos_eq listed_names_def)

lemma getConfigs_Inr: "getConfigs E e = (Inr cs, e') \<Longrightarrow> map_of (ec_files e) (se_sysconfigfile E) \<noteq> None"
  by (cases "map_of (ec_files e) (se_sysconfigfile E)") (simp_all add: getConfigs_def)

subsection \<open>Closing and opening a file\<close>

lemma read_lines_newline: "l \<in> set (read_lines s) \<Longrightarrow> CHR 0x0A \<notin> set l"
proof (induction s rule: read_lines.induct)
  case (1 s)
  then show ?case by (subst (asm) (2) read_lines.simps) (auto split: if_splits dest: set_takeWhileD)
qed

lemma reopen:
  assumes "\<forall>l\<in>set (sc_lines f). CHR 0x0A \<notin> set l" "sc_modified f"
  shows "sysconfig_open (sysconfig_close f) = Inr (f\<lparr>sc_modified := False\<rparr>)"
  using assms by (simp add: sysconfig_open_def sysconfig_close_def read_save_lines)

lemma setValue_newline:
  assumes "\<forall>l\<in>set (sc_lines f). CHR 0x0A \<notin> set l" "CHR 0x0A \<notin> set k" "CHR 0x0A \<notin> set v"
  shows "\<forall>l\<in>set (sc_lines (setValue k v f)). CHR 0x0A \<notin> set l"
proof -
  have "set (replace_first P y xs) \<subseteq> insert y (set xs)" for P and y :: string and xs
    by (induction xs) auto
  then show ?thesis using assms by (fastforce simp: setValue_def config_line_def)
qed

lemma setValue_modified [simp]: "sc_modified (setValue k v f)" "sc_modified (setValue_list k ws f)"
  by (simp_all add: setValue_def setValue_list_def)

lemma modified_irrelevant [simp]:
  "getValue (f\<lparr>sc_modified := b\<rparr>) = getValue f" "getValue_list (f\<lparr>sc_modified := b\<rparr>) = getValue_list f"
  "config_names (f\<lparr>sc_modified := b\<rparr>) = config_names f"
  by (auto simp: getValue_def getValue_list_def config_names_def fun_eq_iff)

lemma close_config_eq:
  "sc_modified f \<Longrightarrow> close_config p f e = (Inr (), e\<lparr>ec_files := AList.update p (save_lines (sc_lines f)) (ec_files e)\<rparr>)"
  by (simp add: close_config_def sysconfig_close_def)

lemma closed_lines:
  assumes "\<forall>l\<in>set (sc_lines f). CHR 0x0A \<notin> set l" "sc_modified f"
  shows "\<lparr>sc_lines = read_lines (save_lines (sc_lines f)), sc_modified = False\<rparr> = f\<lparr>sc_modified := False\<rparr>"
  using assms by (simp add: read_save_lines)

lemma newline_facts: "is_space CHR 0x0A" "\<not> is_type_char CHR 0x0A"
  by code_simp+

lemma plain_word_newline: "plain_word w \<Longrightarrow> CHR 0x0A \<notin> set w"
  using newline_facts by (auto simp: plain_word_def list_all_iff)

lemma join_newline: "list_all plain_word ws \<Longrightarrow> CHR 0x0A \<notin> set (join '' '' ws)"
proof (induction ws)
  case (Cons w ws)
  then have "CHR 0x0A \<notin> set w" "CHR 0x0A \<notin> set (join '' '' ws)"
    using plain_word_newline by simp_all
  then show ?case by (cases "ws = []") (simp_all add: join_Cons2)
qed simp

lemma filesystem_fstype_newline: "CHR 0x0A \<notin> set (filesystem_fstype t)"
proof -
  have "CHR 0x0A \<notin> set m" if "lvm_fstype t = Some m" for m
    using that newline_facts(2) by (auto simp: lvm_fstype_def list_all_iff split: if_splits)
  then show ?thesis by (auto simp: filesystem_fstype_def split: option.splits)
qed

subsection \<open>Creating a configuration\<close>

lemma create_failed_Inr: "create_failed msg m e = (Inr a, e') \<longleftrightarrow> m e = (Inr a, e')"
  by (auto simp: create_failed_def catchS_def split: prod.splits sum.splits)

lemma onDisk_files: "onDisk d m e = (r, e') \<Longrightarrow> ec_files e' = ec_files e"
  by (auto simp: onDisk_def split: prod.splits)

abbreviation opened :: "string \<Rightarrow> sysconfig" where
  "opened c \<equiv> \<lparr>sc_lines = read_lines c, sc_modified = False\<rparr>"

abbreviation with_config :: "string \<Rightarrow> string \<Rightarrow> sysconfig \<Rightarrow> sysconfig" where
  "with_config subvolume fstype f \<equiv> setValue ''FSTYPE'' (filesystem_fstype fstype) (setValue ''SUBVOLUME'' subvolume f)"

lemma shell_Inr: "shell E cmd e = (Inr ret, e') \<longleftrightarrow> se_shell E cmd e = (ret, e')"
  by (simp add: shell_def split: prod.split)

lemma open_config_Inr:
  "open_config p e = (Inr f, e') \<longleftrightarrow> e' = e \<and> (\<exists>c. map_of (ec_files e) p = Some c \<and> f = opened c)"
  by (cases "map_of (ec_files e) p") auto

lemma createConfig_Inr:
  assumes "createConfig E n sub t tmpl e = (Inr u, e')"
  obtains cs c1 c0 e2 e3 c3 where "getConfigs E e = (Inr cs, e)" "sub \<notin> ci_subvolume ` set cs"
    "map_of (ec_files e) (se_sysconfigfile E) = Some c1" "n \<notin> set (config_names (opened c1))"
    "map_of (ec_files e) (template_path tmpl) = Some c0"
    "ec_files e2 = AList.update (se_sysconfigfile E) (save_lines (sc_lines
       (setValue_list ''SNAPPER_CONFIGS'' (config_names (opened c1) @ [n]) (opened c1)))) (ec_files e)"
    "se_shell E (cp_cmd tmpl n) e2 = (0, e3)" "map_of (ec_files e3) (config_path n) = Some c3"
    "ec_files e' = AList.update (config_path n) (save_lines (sc_lines (with_config sub t (opened c3)))) (ec_files e3)"
proof -
  from assms obtain cs ec fs e1 e2 ret e3 e4 where
    g: "getConfigs E e = (Inr cs, ec)" and cov: "\<not> list_ex (\<lambda>c. ci_subvolume c = sub) cs"
    and tmpl: "map_of (ec_files ec) (template_path tmpl) \<noteq> None"
    and fs: "onDisk sub (filesystem_create (se_run E) (se_executable E) t sub) ec = (Inr fs, e1)"
    and o: "add_config_name E n e1 = (Inr (), e2)"
    and cp: "se_shell E (cp_cmd tmpl n) e2 = (ret, e3)" and ret: "ret = 0"
    and m: "modify_config n sub t e3 = (Inr (), e4)"
    and c: "onDisk sub (fo_createConfig fs) e4 = (Inr u, e')"
    unfolding createConfig_def bindS_Inr create_failed_Inr throw_ifS_Inr shell_Inr by auto
  have sys: "map_of (ec_files e) (se_sysconfigfile E) \<noteq> None" by (rule getConfigs_Inr [OF g])
  have ec: "ec = e" using g getConfigs_eq [OF sys] by simp
  have e1: "ec_files e1 = ec_files e" using onDisk_files [OF fs] ec by simp
  obtain c1 where c1: "map_of (ec_files e) (se_sysconfigfile E) = Some c1" using sys by blast
  have n: "n \<notin> set (config_names (opened c1))"
    and e2: "e2 = e1\<lparr>ec_files := AList.update (se_sysconfigfile E) (save_lines (sc_lines
      (setValue_list ''SNAPPER_CONFIGS'' (config_names (opened c1) @ [n]) (opened c1)))) (ec_files e1)\<rparr>"
    using o c1 e1 by (auto simp: add_config_name_def create_failed_Inr bindS_Inr open_config_Inr close_config_eq split: if_splits)
  obtain c3 where c3: "map_of (ec_files e3) (config_path n) = Some c3"
    and e4: "ec_files e4 = AList.update (config_path n) (save_lines (sc_lines (with_config sub t (opened c3)))) (ec_files e3)"
    using m by (auto simp: modify_config_def create_failed_Inr bindS_Inr open_config_Inr close_config_eq)
  have "sub \<notin> ci_subvolume ` set cs" using cov by (auto simp: list_ex_iff)
  then show thesis
    using that [of cs c1 _ e2 e3 c3] g ec c1 n tmpl e2 e1 cp ret c3 e4 onDisk_files [OF c] by auto
qed

lemma config_path_inj [simp]: "config_path a = config_path b \<longleftrightarrow> a = b"
  by (simp add: config_path_def)

lemma keys_plain: "plain_key ''SNAPPER_CONFIGS''" "plain_key ''SUBVOLUME''" "plain_key ''FSTYPE''"
  "CHR 0x0A \<notin> set ''SNAPPER_CONFIGS''" "CHR 0x0A \<notin> set ''SUBVOLUME''" "CHR 0x0A \<notin> set ''FSTYPE''"
  by code_simp+

lemma names_after:
  assumes "list_all plain_word ns"
  shows "config_names (opened (save_lines (sc_lines (setValue_list ''SNAPPER_CONFIGS'' ns (opened c))))) = ns"
proof -
  have "\<forall>l\<in>set (sc_lines (setValue_list ''SNAPPER_CONFIGS'' ns (opened c))). CHR 0x0A \<notin> set l"
    unfolding setValue_list_def
    using read_lines_newline [of _ c] keys_plain(4) join_newline [OF assms] by (intro setValue_newline) auto
  then have "opened (save_lines (sc_lines (setValue_list ''SNAPPER_CONFIGS'' ns (opened c)))) =
      (setValue_list ''SNAPPER_CONFIGS'' ns (opened c))\<lparr>sc_modified := False\<rparr>"
    by (intro closed_lines) simp_all
  then show ?thesis
    using getValue_list_setValue_list [OF keys_plain(1) assms, of "opened c"]
    by (simp only: modified_irrelevant) (simp add: config_names_def)
qed

lemma subvolume_after:
  assumes "plain_value sub" "CHR 0x0A \<notin> set sub"
  shows "getValue (opened (save_lines (sc_lines (with_config sub t (opened c))))) ''SUBVOLUME'' = Some sub"
proof -
  have "\<forall>l\<in>set (sc_lines (with_config sub t (opened c))). CHR 0x0A \<notin> set l"
    using read_lines_newline [of _ c] keys_plain assms(2) filesystem_fstype_newline
    by (intro setValue_newline) auto
  then have "opened (save_lines (sc_lines (with_config sub t (opened c)))) =
      (with_config sub t (opened c))\<lparr>sc_modified := False\<rparr>"
    by (intro closed_lines) simp_all
  then show ?thesis
    using sysconf.get_put_other [OF keys_plain(3,2)] sysconf.get_put_same [OF keys_plain(2) assms(1)]
    by (simp only: modified_irrelevant) simp
qed

lemma map_filter_cong: "(\<And>x. x \<in> set xs \<Longrightarrow> f x = g x) \<Longrightarrow> List.map_filter f xs = List.map_filter g xs"
  by (induction xs) (simp_all add: map_filter_simps split: option.split)

text \<open>C35. A configuration that was created is listed: the list of configurations is the one before with
  the new one added at its end, for the subvolume asked for, which no other configuration covers.  The conditions: the
  new name and the names listed before have no quotes and no white space (the code refuses only commas, blanks and tabs, and a
  name with a quote makes the list unreadable, \<open>quote_in_name_hides_configs\<close>), the subvolume has no quotes and no newline,
  and \<open>cp\<close> copies the template.\<close>
theorem created_config_is_listed:
  assumes "createConfig E n sub t tmpl e = (Inr (), e')"
    and cp: "\<And>e c. map_of (ec_files e) (template_path tmpl) = Some c \<Longrightarrow>
      se_shell E (cp_cmd tmpl n) e = (0, e\<lparr>ec_files := AList.update (config_path n) c (ec_files e)\<rparr>)"
    and "plain_word n" "list_all plain_word (listed_names E e)" "plain_value sub" "CHR 0x0A \<notin> set sub"
    and path: "\<forall>m. se_sysconfigfile E \<noteq> config_path m"
  shows "\<exists>cs c. getConfigs E e = (Inr cs, e) \<and> getConfigs E e' = (Inr (cs @ [c]), e')
    \<and> ci_name c = n \<and> ci_subvolume c = sub \<and> sub \<notin> ci_subvolume ` set cs"
proof -
  obtain cs c1 c0 e2 e3 c3 where g: "getConfigs E e = (Inr cs, e)" "sub \<notin> ci_subvolume ` set cs"
    "map_of (ec_files e) (se_sysconfigfile E) = Some c1" "n \<notin> set (config_names (opened c1))"
    and tmpl: "map_of (ec_files e) (template_path tmpl) = Some c0"
    and e2: "ec_files e2 = AList.update (se_sysconfigfile E) (save_lines (sc_lines
       (setValue_list ''SNAPPER_CONFIGS'' (config_names (opened c1) @ [n]) (opened c1)))) (ec_files e)"
    and e3: "se_shell E (cp_cmd tmpl n) e2 = (0, e3)" "map_of (ec_files e3) (config_path n) = Some c3"
    and e': "ec_files e' = AList.update (config_path n) (save_lines (sc_lines (with_config sub t (opened c3)))) (ec_files e3)"
    by (rule createConfig_Inr [OF assms(1)])
  let ?names = "listed_names E e"
  have names: "config_names (opened c1) = ?names" using g(3) by (simp add: listed_names_def)
  obtain ct where "map_of (ec_files e2) (template_path tmpl) = Some ct"
    using tmpl by (cases "template_path tmpl = se_sysconfigfile E") (simp_all add: e2 update_conv')
  from cp [OF this] have e3_files: "ec_files e3 = AList.update (config_path n) ct (ec_files e2)"
    using e3(1) by auto
  have other: "map_of (ec_files e') (config_path m) = map_of (ec_files e) (config_path m)" if "m \<noteq> n" for m
    using that path by (simp add: e' e3_files e2 update_conv') metis
  have sys: "map_of (ec_files e') (se_sysconfigfile E) = Some (save_lines (sc_lines
       (setValue_list ''SNAPPER_CONFIGS'' (?names @ [n]) (opened c1))))"
    using path by (simp add: e' e3_files e2 update_conv' names)
  have new: "map_of (ec_files e') (config_path n) = Some (save_lines (sc_lines (with_config sub t (opened c3))))"
    by (simp add: e' update_conv')
  have listed: "listed_names E e' = ?names @ [n]"
    using names_after [of "?names @ [n]" c1] assms(3,4) by (simp add: listed_names_def sys)
  have old: "List.map_filter (config_at (ec_files e')) ?names = cs"
  proof -
    have "List.map_filter (config_at (ec_files e')) ?names = List.map_filter (config_at (ec_files e)) ?names"
    proof (rule map_filter_cong)
      fix x assume "x \<in> set ?names"
      then have "x \<noteq> n" using g(4) names by auto
      then show "config_at (ec_files e') x = config_at (ec_files e) x" by (simp add: config_at_def other)
    qed
    then show ?thesis using g(1,3) getConfigs_eq [of e E] by simp
  qed
  obtain c where c: "config_at (ec_files e') n = Some c" "ci_name c = n" "ci_subvolume c = sub"
    using subvolume_after [OF assms(5,6), of t c3] by (simp add: config_at_def new Let_def)
  have "getConfigs E e' = (Inr (cs @ [c]), e')"
    using getConfigs_eq [of e' E] sys listed old c(1) by (simp add: map_filter_def)
  then show ?thesis using g(1,2) c by blast
qed

definition etc_ex :: etc where
  "etc_ex = \<lparr>ec_files = [(''/etc/sysconfig/snapper'', ''SNAPPER_CONFIGS='' @ [CHR 0x22] @ ''root'' @ [CHR 0x22, CHR 0x0A]),
      (''/etc/snapper/configs/root'', ''SUBVOLUME=/'' @ [CHR 0x0A]),
      (''/etc/snapper/config-templates/default'', ''FSTYPE=btrfs'' @ [CHR 0x0A])],
    ec_disks = (\<lambda>_. \<lparr>infos_exist = False, infos = [], devices = [], mounts = [], clock = 0,
      mktemp_value = 0, faults = []\<rparr>)\<rparr>"

text \<open>An environment in which \<open>cp\<close> of the template and \<open>rm\<close> of a configuration work.\<close>

definition env_ex :: sysenv where
  "env_ex = \<lparr>se_xml = \<lparr>xml_dump = (\<lambda>_. []), xml_parse = (\<lambda>_. None)\<rparr>,
    se_run = (\<lambda>cmd w. ((1, []), w)), se_executable = (\<lambda>_. True),
    se_shell = (\<lambda>cmd e. if cmd = cp_cmd ''default'' ''home'' then
       (case map_of (ec_files e) (template_path ''default'') of
          None \<Rightarrow> (1, e)
        | Some c \<Rightarrow> (0, e\<lparr>ec_files := AList.update (config_path ''home'') c (ec_files e)\<rparr>))
       else (1, e)),
    se_isdir = (\<lambda>p. p \<in> {''/'', ''/home''}), se_sysconfigfile = ''/etc/sysconfig/snapper''\<rparr>"

lemma sysconfig_not_a_config: "\<forall>m. se_sysconfigfile env_ex \<noteq> config_path m"
  by (simp add: env_ex_def config_path_def CONFIGSDIR_def)

lemma created_config_is_listed_witness:
  "\<exists>e' cs c. createConfig env_ex ''home'' ''/home'' ''btrfs'' ''default'' etc_ex = (Inr (), e')
     \<and> getConfigs env_ex e' = (Inr (cs @ [c]), e') \<and> ci_name c = ''home'' \<and> ci_subvolume c = ''/home''"
proof -
  have "fst (createConfig env_ex ''home'' ''/home'' ''btrfs'' ''default'' etc_ex) = Inr ()" by code_simp
  then obtain e' where c: "createConfig env_ex ''home'' ''/home'' ''btrfs'' ''default'' etc_ex = (Inr (), e')"
    by (metis prod.collapse)
  have cp: "se_shell env_ex (cp_cmd ''default'' ''home'') e =
      (0, e\<lparr>ec_files := AList.update (config_path ''home'') c (ec_files e)\<rparr>)"
    if "map_of (ec_files e) (template_path ''default'') = Some c" for e c
    using that by (simp add: env_ex_def)
  have p: "plain_word ''home''" "list_all plain_word (listed_names env_ex etc_ex)" "plain_value ''/home''"
    "CHR 0x0A \<notin> set ''/home''"
    by code_simp+
  show ?thesis
    using created_config_is_listed [OF c cp p sysconfig_not_a_config] c by blast
qed

text \<open>When the last step of \<open>createConfig\<close>, \<open>Filesystem::createConfig\<close>, fails, the error is reported
  but the configuration stays in \<open>SNAPPER_CONFIGS\<close>, and a second attempt fails because it exists.\<close>
theorem failed_create_config_stays_listed:
  assumes "add_config_name E n e = (Inr (), e1)"
    and "shell E (cp_cmd tmpl n) e1 = (Inr 0, e2)" "modify_config n sub t e2 = (Inr (), e3)"
    and "onDisk sub (fo_createConfig fs) e3 = (Inl x, e4)"
    and cp: "map_of (ec_files e2) (se_sysconfigfile E) = map_of (ec_files e1) (se_sysconfigfile E)"
    and "plain_word n" "list_all plain_word (listed_names E e)" "se_sysconfigfile E \<noteq> config_path n"
  shows "listed_names E e4 = listed_names E e @ [n]
    \<and> add_config_name E n e4 = (Inl (CreateConfigFailedException ''config already exists''), e4)"
proof -
  obtain c1 where c1: "map_of (ec_files e) (se_sysconfigfile E) = Some c1"
    and e1: "ec_files e1 = AList.update (se_sysconfigfile E) (save_lines (sc_lines
      (setValue_list ''SNAPPER_CONFIGS'' (config_names (opened c1) @ [n]) (opened c1)))) (ec_files e)"
    using assms(1) by (auto simp: add_config_name_def create_failed_Inr bindS_Inr open_config_Inr close_config_eq
        split: if_splits)
  obtain c3 where e3: "ec_files e3 = AList.update (config_path n) c3 (ec_files e2)"
    using assms(3) by (auto simp: modify_config_def create_failed_Inr bindS_Inr open_config_Inr close_config_eq)
  have s: "map_of (ec_files e4) (se_sysconfigfile E) = Some (save_lines (sc_lines
      (setValue_list ''SNAPPER_CONFIGS'' (listed_names E e @ [n]) (opened c1))))"
    using onDisk_files [OF assms(4)] assms(8) cp by (simp add: e3 e1 update_conv' listed_names_def c1)
  have n: "config_names (opened (save_lines (sc_lines (setValue_list ''SNAPPER_CONFIGS'' (listed_names E e @ [n])
      (opened c1))))) = listed_names E e @ [n]"
    using names_after [of "listed_names E e @ [n]" c1] assms(6,7) by simp
  show ?thesis
    using n by (simp add: listed_names_def [of E e4] s add_config_name_def create_failed_def not_found_msg_def catchS_def)
qed

lemma failed_create_config_stays_listed_witness:
  "\<exists>e1 e2 e3 e4. add_config_name env_ex ''home'' etc_ex = (Inr (), e1)
     \<and> shell env_ex (cp_cmd ''default'' ''home'') e1 = (Inr 0, e2)
     \<and> modify_config ''home'' ''/home'' ''btrfs'' e2 = (Inr (), e3)
     \<and> onDisk ''/home'' (throwS IOErrorException :: (world, unit) step) e3 = (Inl IOErrorException, e4)
     \<and> listed_names env_ex e4 = [''root'', ''home'']"
proof -
  let ?fs = "(btrfs_ops ''/home'')\<lparr>fo_createConfig := throwS IOErrorException\<rparr>"
  have "fst (add_config_name env_ex ''home'' etc_ex) = Inr ()" by code_simp
  then obtain e1 where 1: "add_config_name env_ex ''home'' etc_ex = (Inr (), e1)" by (metis prod.collapse)
  have t: "map_of (ec_files e1) (template_path ''default'') = Some (''FSTYPE=btrfs'' @ [CHR 0x0A])"
  proof -
    have "map_of (ec_files (snd (add_config_name env_ex ''home'' etc_ex))) (template_path ''default'') =
        Some (''FSTYPE=btrfs'' @ [CHR 0x0A])" by code_simp
    then show ?thesis by (simp add: 1)
  qed
  let ?e2 = "e1\<lparr>ec_files := AList.update (config_path ''home'') (''FSTYPE=btrfs'' @ [CHR 0x0A]) (ec_files e1)\<rparr>"
  have 2: "shell env_ex (cp_cmd ''default'' ''home'') e1 = (Inr 0, ?e2)"
    using t by (simp add: shell_Inr env_ex_def)
  obtain e3 where 3: "modify_config ''home'' ''/home'' ''btrfs'' ?e2 = (Inr (), e3)"
    by (simp add: modify_config_def create_failed_def close_config_eq update_conv')
  obtain e4 where 4: "onDisk ''/home'' (fo_createConfig ?fs) e3 = (Inl IOErrorException, e4)"
    by (simp add: onDisk_def)
  have p: "plain_word ''home''" "list_all plain_word (listed_names env_ex etc_ex)"
    "listed_names env_ex etc_ex = [''root'']"
    by code_simp+
  have "map_of (ec_files ?e2) (se_sysconfigfile env_ex) = map_of (ec_files e1) (se_sysconfigfile env_ex)"
    using sysconfig_not_a_config by (simp add: update_conv')
  from failed_create_config_stays_listed [OF 1 2 3 4 this p(1,2)] sysconfig_not_a_config 1 2 3 4 p(3)
  show ?thesis by auto
qed

text \<open>A name with a quote passes the check of the name; the line that is then written to \<open>SNAPPER_CONFIGS\<close> is not
  matched any more, so that no configuration is listed.\<close>
theorem quote_in_name_hides_configs:
  "\<exists>e. add_config_name env_ex (''a'' @ [CHR 0x22]) etc_ex = (Inr (), e)
     \<and> listed_names env_ex etc_ex = [''root''] \<and> listed_names env_ex e = []"
proof -
  have "(case add_config_name env_ex (''a'' @ [CHR 0x22]) etc_ex of (r, e) \<Rightarrow> r = Inr () \<and> listed_names env_ex e = [])"
    "listed_names env_ex etc_ex = [''root'']" by code_simp+
  then show ?thesis by (auto split: prod.splits)
qed

text \<open>A directory below several mount points gets the type of the innermost one.\<close>

definition mtab_ex :: "mtab_entry list" where
  "mtab_ex = [\<lparr>mt_device = ''/dev/sda1'', mt_dir = ''/'', mt_type = ''btrfs'', mt_options = []\<rparr>,
      \<lparr>mt_device = ''/dev/sda2'', mt_dir = ''/home'', mt_type = ''ext4dev'', mt_options = []\<rparr>]"

lemma detectFstype_is_the_mount_witness:
  "detectFstype env_ex (Some mtab_ex) ''/home'' = Some ''ext4''
   \<and> (\<exists>m\<in>set mtab_ex. covers ''/home'' m \<and> (\<forall>x\<in>set mtab_ex. covers ''/home'' x \<longrightarrow> length (mt_dir x) \<le> length (mt_dir m)))"
proof -
  have d: "detectFstype env_ex (Some mtab_ex) ''/home'' = Some ''ext4''" by code_simp
  from detectFstype_is_the_mount [OF d] obtain as m bs where m: "mtab_ex = as @ m # bs" "covers ''/home'' m"
    "\<forall>x\<in>set as. covers ''/home'' x \<longrightarrow> length (mt_dir x) \<le> length (mt_dir m)"
    "\<forall>x\<in>set bs. covers ''/home'' x \<longrightarrow> length (mt_dir x) < length (mt_dir m)" by blast
  have "m \<in> set mtab_ex" by (simp add: m(1))
  moreover have "\<forall>x\<in>set mtab_ex. covers ''/home'' x \<longrightarrow> length (mt_dir x) \<le> length (mt_dir m)"
    using m(3,4) by (auto simp: m(1) dest: less_imp_le)
  ultimately show ?thesis using d m(2) by blast
qed

end
