(* ===== verification/Introspection.thy ===== *)
theory Introspection
  imports DBusCodec
begin

text \<open>
  The description of the interface of the server (\<open>Client::introspect\<close> in \<open>server/Client.cc\<close>): the signals
  and the methods with the names and types of their arguments, and the XML text made of them.  The document
  type is a macro of the bus library, so it is a parameter.
\<close>

definition INTERFACE :: string where
  "INTERFACE = ''org.opensuse.Snapper''"

type_synonym bus_arg = "string \<times> string"

definition signals :: "(string \<times> bus_arg list) list" where
  "signals =
   [(''ConfigCreated'', [(''config-name'', ''s'')]),
    (''ConfigDeleted'', [(''config-name'', ''s'')]),
    (''SnapshotCreated'', [(''config-name'', ''s''), (''number'', ''u'')]),
    (''SnapshotModified'', [(''config-name'', ''s''), (''number'', ''u'')]),
    (''SnapshotDeleted'', [(''config-name'', ''s''), (''number'', ''u'')])]"

text \<open>The methods with what goes in and what comes out.\<close>

definition bus_methods :: "(string \<times> bus_arg list \<times> bus_arg list) list" where
  "bus_methods =
   [(''ListConfigs'', [], [(''configs'', ''v'')]),
    (''GetConfig'', [(''config-name'', ''s'')], [(''data'', ''(ssa{ss})'')]),
    (''CreateConfig'', [(''config-name'', ''s''), (''subvolume'', ''s''), (''fstype'', ''s''), (''template-name'', ''s'')],
       []),
    (''DeleteConfig'', [(''config-name'', ''s'')], []),
    (''LockConfig'', [(''config-name'', ''s'')], []),
    (''UnlockConfig'', [(''config-name'', ''s'')], []),
    (''ListSnapshots'', [(''config-name'', ''s'')], [(''snapshots'', ''v'')]),
    (''ListSnapshotsAtTime'', [(''config-name'', ''s''), (''begin'', ''x''), (''end'', ''x'')],
       [(''snapshots'', ''v'')]),
    (''GetSnapshot'', [(''config-name'', ''s''), (''number'', ''u'')], [(''type'', ''(uquxussa{ss})'')]),
    (''SetSnapshot'', [(''config-name'', ''s''), (''number'', ''u''), (''description'', ''s''), (''cleanup'', ''s''), (''userdata'', ''a{ss}'')],
       []),
    (''CreateSingleSnapshot'', [(''config-name'', ''s''), (''description'', ''s''), (''cleanup'', ''s''), (''userdata'', ''a{ss}'')],
       [(''number'', ''u'')]),
    (''CreatePreSnapshot'', [(''config-name'', ''s''), (''description'', ''s''), (''cleanup'', ''s''), (''userdata'', ''a{ss}'')],
       [(''number'', ''u'')]),
    (''CreatePostSnapshot'', [(''config-name'', ''s''), (''pre-number'', ''u''), (''description'', ''s''), (''cleanup'', ''s''), (''userdata'', ''a{ss}'')],
       [(''number'', ''u'')]),
    (''DeleteSnapshots'', [(''config-name'', ''s''), (''numbers'', ''au'')], []),
    (''MountSnapshot'', [(''config-name'', ''s''), (''number'', ''u''), (''user-request'', ''b'')], []),
    (''UmountSnapshot'', [(''config-name'', ''s''), (''number'', ''u''), (''user-request'', ''b'')], []),
    (''GetMountPoint'', [(''config-name'', ''s''), (''number'', ''u'')], []),
    (''CreateComparison'', [(''config-name'', ''s''), (''number1'', ''u''), (''number2'', ''u'')],
       [(''num-files'', ''u'')]),
    (''DeleteComparison'', [(''config-name'', ''s''), (''number1'', ''u''), (''number2'', ''u'')], []),
    (''GetFiles'', [(''config-name'', ''s''), (''number1'', ''u''), (''number2'', ''u'')], [(''files'', ''v'')])]"

definition xml_line :: "nat \<Rightarrow> string \<Rightarrow> string" where
  "xml_line n s = replicate n CHR '' '' @ s @ [CHR 0x0A]"

definition xml_quote :: "string \<Rightarrow> string" where
  "xml_quote s = [CHR 0x27] @ s @ [CHR 0x27]"

definition xml_arg :: "string \<Rightarrow> bus_arg \<Rightarrow> string" where
  "xml_arg direction a = xml_line 6 (''<arg name='' @ xml_quote (fst a) @ '' type='' @ xml_quote (snd a)
     @ (if direction = [] then [] else '' direction='' @ xml_quote direction) @ ''/>'')"

definition xml_signal :: "string \<times> bus_arg list \<Rightarrow> string" where
  "xml_signal x = xml_line 4 (''<signal name='' @ xml_quote (fst x) @ ''>'') @ concat (map (xml_arg []) (snd x))
     @ xml_line 4 ''</signal>''"

definition xml_method :: "string \<times> bus_arg list \<times> bus_arg list \<Rightarrow> string" where
  "xml_method x = xml_line 4 (''<method name='' @ xml_quote (fst x) @ ''>'')
     @ concat (map (xml_arg ''in'') (fst (snd x))) @ concat (map (xml_arg ''out'') (snd (snd x)))
     @ xml_line 4 ''</method>''"

definition xml_interface :: "string \<Rightarrow> string \<Rightarrow> string" where
  "xml_interface name body = xml_line 2 (''<interface name='' @ xml_quote name @ ''>'') @ body @ xml_line 2 ''</interface>''"

definition introspect :: "string \<Rightarrow> string" where
  "introspect doctype = xml_line 0 doctype @ xml_line 0 (''<node name='' @ xml_quote ''/org/opensuse/Snapper'' @ ''>'')
     @ xml_interface ''org.freedesktop.DBus.Introspectable'' (xml_method (''Introspect'', [], [(''xml_data'', ''s'')]))
     @ xml_interface INTERFACE (concat (map xml_signal signals) @ concat (map xml_method bus_methods))
     @ xml_line 0 ''</node>''"

text \<open>The declared types of a method.\<close>

definition declared_in :: "string \<Rightarrow> string list option" where
  "declared_in member = map_option (\<lambda>(ins, outs). map snd ins) (map_of bus_methods member)"

definition declared_out :: "string \<Rightarrow> string list option" where
  "declared_out member = map_option (\<lambda>(ins, outs). map snd outs) (map_of bus_methods member)"

end
