(* ===== verification/ServerState.thy ===== *)
theory ServerState
  imports Snapper Comparison Introspection "HOL-Library.Product_Lexorder"
begin

text \<open>
  The state of the server: the configurations it knows with their use counters
  (\<open>server/MetaSnapper.h\<close>, \<open>server/MetaSnapper.cc\<close>), its clients (\<open>server/Client.h\<close>), the background
  comparisons (\<open>server/Background.h\<close>), and the operations on them that the requests share.

  An iterator into the list of configurations is the identity \<open>me_id\<close> of its element, a pointer to a
  loaded \<open>Snapper\<close> the number of the load that made it, an iterator to a snapshot that somebody
  keeps the number of the snapshot.  What is sent is appended to \<open>sv_out\<close>.
\<close>

subsection \<open>What the server relies on\<close>

text \<open>The account databases, the user of a connection (\<open>dbus_bus_get_unix_user\<close>) the comparison of
  two directories, for each subvolume, and the document type of the interface description.\<close>

record senv = sysenv +
  se_user :: "string \<Rightarrow> u32 option"
  se_group :: "string \<Rightarrow> string list option"
  se_sender_uid :: "string \<Rightarrow> 64 word option"
  se_cmp :: "string \<Rightarrow> cmp_dirs"
  se_doctype :: string

subsection \<open>The state\<close>

record meta =
  me_id :: nat
  me_info :: config_info
  me_uids :: "u32 list"
  me_counter :: int
  me_last_used :: int
  me_snapper :: "(nat \<times> snapper) option"

record held_comparison =
  hc_snapper :: nat
  hc_num1 :: u32
  hc_num2 :: u32
  hc_files :: "file_rec list"

text \<open>A request \<open>CreateComparison\<close> between its two critical sections; \<open>None\<close> stands for \<open>end()\<close>.\<close>

record pending =
  pd_meta :: nat
  pd_snapper :: nat
  pd_num1 :: "u32 option"
  pd_num2 :: "u32 option"

record message =
  ms_sender :: string
  ms_interface :: string
  ms_member :: string
  ms_args :: "dval list"

record client_rec =
  cl_name :: string
  cl_comparisons :: "held_comparison list"
  cl_locks :: "string list"
  cl_mounts :: "(string \<times> u32, u32) smap"
  cl_tasks :: "message list"
  cl_pending :: "pending option"
  cl_zombie :: bool

record btask =
  bt_meta :: nat
  bt_num1 :: u32
  bt_num2 :: u32

text \<open>Where the thread of the background comparisons is: waiting for a task, with a copy of the first task, with the
  \<open>Snapper\<close> of its configuration, with the comparison made, and with the use returned but the task still in the
  list.\<close>

datatype worker =
    Waiting
  | Took btask
  | Holds btask nat
  | Compared btask nat
  | Returned

datatype reply =
    RUnit
  | RXml string
  | RNum u32
  | RString string
  | RConfig config_info
  | RConfigs "config_info list"
  | RSnapshot snapshot
  | RSnapshots "snapshot list"
  | RFiles "file_rec list"
  | RDebug "string list"

datatype out =
    Reply string reply
  | Error string string string
  | ConfigCreated string
  | ConfigDeleted string
  | SnapshotCreated string u32
  | SnapshotModified string u32
  | SnapshotsDeleted string "u32 list"

record server =
  sv_metas :: "meta list"
  sv_clients :: "client_rec list"
  sv_tasks :: "btask list"
  sv_worker :: worker
  sv_etc :: etc
  sv_now :: int
  sv_next_id :: nat
  sv_idle_timeout :: int
  sv_out :: "out list"

definition emit :: "out \<Rightarrow> (server, unit) step" where
  "emit x = modifyS (\<lambda>s. s\<lparr>sv_out := sv_out s @ [x]\<rparr>)"

definition onEtc :: "(etc, 'a) step \<Rightarrow> (server, 'a) step" where
  "onEtc m s = (case m (sv_etc s) of (r, e) \<Rightarrow> (r, s\<lparr>sv_etc := e\<rparr>))"

subsection \<open>Use counters\<close>

definition upd_meta :: "nat \<Rightarrow> (meta \<Rightarrow> meta) \<Rightarrow> server \<Rightarrow> server" where
  "upd_meta mid f s = s\<lparr>sv_metas := map (\<lambda>m. if me_id m = mid then f m else m) (sv_metas s)\<rparr>"

definition meta_of :: "server \<Rightarrow> nat \<Rightarrow> meta" where
  "meta_of s mid = hd (filter (\<lambda>m. me_id m = mid) (sv_metas s))"

definition inc_count :: "meta \<Rightarrow> meta" where
  "inc_count m = m\<lparr>me_counter := me_counter m + 1\<rparr>"

definition dec_count :: "int \<Rightarrow> meta \<Rightarrow> meta" where
  "dec_count now m = (let c = me_counter m - 1 in
     m\<lparr>me_counter := c, me_last_used := (if c = 0 then now else me_last_used m)\<rparr>)"

definition inc_use_count :: "nat \<Rightarrow> (server, unit) step" where
  "inc_use_count mid = modifyS (upd_meta mid inc_count)"

definition dec_use_count :: "nat \<Rightarrow> (server, unit) step" where
  "dec_use_count mid = modifyS (\<lambda>s. upd_meta mid (dec_count (sv_now s)) s)"

definition unused_for :: "int \<Rightarrow> meta \<Rightarrow> int" where
  "unused_for now m = (if me_counter m \<noteq> 0 then 0 else now - me_last_used m)"

subsection \<open>Configurations\<close>

text \<open>\<open>split\<close> of a trimmed value at blanks and tabs, adjacent ones counted once.\<close>

definition value_words :: "(string, string) smap \<Rightarrow> string \<Rightarrow> string list" where
  "value_words raw key = (case map_of raw key of
       None \<Rightarrow> []
     | Some v \<Rightarrow> (let tmp = trim is_space v in if tmp = [] then [] else split_compress is_ws tmp))"

definition get_group_uids :: "senv \<Rightarrow> string \<Rightarrow> u32 list" where
  "get_group_uids E groupname = (case se_group E groupname of
       None \<Rightarrow> []
     | Some members \<Rightarrow> List.map_filter (se_user E) members)"

definition meta_uids :: "senv \<Rightarrow> (string, string) smap \<Rightarrow> u32 list" where
  "meta_uids E raw = remdups_adj (sort
     (List.map_filter (se_user E) (value_words raw ''ALLOW_USERS'')
      @ concat (map (get_group_uids E) (value_words raw ''ALLOW_GROUPS''))))"

definition new_meta :: "senv \<Rightarrow> nat \<Rightarrow> int \<Rightarrow> config_info \<Rightarrow> meta" where
  "new_meta E mid now info = \<lparr>me_id = mid, me_info = info, me_uids = meta_uids E (ci_raw info),
     me_counter = 0, me_last_used = now, me_snapper = None\<rparr>"

definition add_meta :: "senv \<Rightarrow> config_info \<Rightarrow> (server, unit) step" where
  "add_meta E info = modifyS (\<lambda>s. s\<lparr>
     sv_metas := sv_metas s @ [new_meta E (sv_next_id s) (sv_now s) info], sv_next_id := Suc (sv_next_id s)\<rparr>)"

definition metas_init :: "senv \<Rightarrow> (server, unit) step" where
  "metas_init E = bindS (onEtc (getConfigs (sysenv.truncate E))) (foreachS (add_meta E))"

definition find_meta :: "string \<Rightarrow> (server, nat) step" where
  "find_meta config_name = bindS (getS sv_metas) (\<lambda>ms.
     case find (\<lambda>m. ci_name (me_info m) = config_name) ms of
       None \<Rightarrow> throwS UnknownConfig
     | Some m \<Rightarrow> retS (me_id m))"

definition metas_createConfig :: "senv \<Rightarrow> string \<Rightarrow> string \<Rightarrow> string \<Rightarrow> string \<Rightarrow> (server, unit) step" where
  "metas_createConfig E config_name subvolume fstype template_name =
     thenS (onEtc (createConfig (sysenv.truncate E) config_name subvolume fstype template_name))
       (bindS (onEtc (getConfig config_name)) (add_meta E))"

definition metas_deleteConfig :: "senv \<Rightarrow> nat \<Rightarrow> (server, unit) step" where
  "metas_deleteConfig E mid = bindS (getS (\<lambda>s. ci_name (me_info (meta_of s mid)))) (\<lambda>name.
     thenS (onEtc (deleteConfig (sysenv.truncate E) name))
       (\<lambda>s. thenS (case me_snapper (meta_of s mid) of
                None \<Rightarrow> retS ()
              | Some (k, sp) \<Rightarrow> onEtc (snapper_destroy (sysenv.truncate E) sp))
            (modifyS (\<lambda>s. s\<lparr>sv_metas := filter (\<lambda>m. me_id m \<noteq> mid) (sv_metas s)\<rparr>)) s))"

subsection \<open>Loading and using a configuration\<close>

definition getSnapper :: "senv \<Rightarrow> nat \<Rightarrow> (server, unit) step" where
  "getSnapper E mid s = thenS
     (if me_snapper (meta_of s mid) \<noteq> None then retS ()
      else bindS (onEtc (snapper_new (sysenv.truncate E) (ci_name (me_info (meta_of s mid))) False)) (\<lambda>sp.
        modifyS (\<lambda>s. (upd_meta mid (\<lambda>m. m\<lparr>me_snapper := Some (sv_next_id s, sp)\<rparr>) s)
          \<lparr>sv_next_id := Suc (sv_next_id s)\<rparr>)))
     (modifyS (\<lambda>s. upd_meta mid (\<lambda>m. m\<lparr>me_last_used := sv_now s\<rparr>) s)) s"

definition unload :: "senv \<Rightarrow> nat \<Rightarrow> (server, unit) step" where
  "unload E mid s = (case me_snapper (meta_of s mid) of
       None \<Rightarrow> (Inr (), s)
     | Some (k, sp) \<Rightarrow> thenS (onEtc (snapper_destroy (sysenv.truncate E) sp))
         (modifyS (upd_meta mid (\<lambda>m. m\<lparr>me_snapper := None\<rparr>))) s)"

text \<open>A step on the snapshots of a loaded configuration.\<close>

definition onSnaps :: "nat \<Rightarrow> (snapper \<Rightarrow> (sstate, 'a) step) \<Rightarrow> (server, 'a) step" where
  "onSnaps mid f s = (case me_snapper (meta_of s mid) of
       None \<Rightarrow> (Inl LogicErrorException, s)
     | Some (k, sp) \<Rightarrow> (case onSnapper sp (f sp) (sv_etc s) of
         ((r, sp'), e) \<Rightarrow> (r, (upd_meta mid (\<lambda>m. m\<lparr>me_snapper := Some (k, sp')\<rparr>) s)\<lparr>sv_etc := e\<rparr>)))"

definition snaps :: "nat \<Rightarrow> server \<Rightarrow> snapshot list" where
  "snaps mid s = (case me_snapper (meta_of s mid) of None \<Rightarrow> [] | Some (k, sp) \<Rightarrow> sp_snapshots sp)"

text \<open>\<open>snapshots.find(num)\<close>, and the exception that most requests throw when it is \<open>end()\<close>.\<close>

definition find_snapshot :: "nat \<Rightarrow> u32 \<Rightarrow> (server, nat) step" where
  "find_snapshot mid num = bindS (getS (snaps mid)) (\<lambda>es.
     let i = find_num num es in if i = length es then throwS IllegalSnapshotException else retS i)"

definition snapshotDir :: "snapper \<Rightarrow> snapshot \<Rightarrow> string" where
  "snapshotDir sp s = (if isCurrent s then sp_subvolume sp else fo_snapshotDir (sp_ops sp) (sn_num s))"

subsection \<open>Clients\<close>

definition new_client :: "string \<Rightarrow> client_rec" where
  "new_client name = \<lparr>cl_name = name, cl_comparisons = [], cl_locks = [], cl_mounts = [], cl_tasks = [],
     cl_pending = None, cl_zombie = False\<rparr>"

definition find_client :: "string \<Rightarrow> server \<Rightarrow> client_rec option" where
  "find_client name s = find (\<lambda>c. cl_name c = name) (sv_clients s)"

definition upd_client :: "string \<Rightarrow> (client_rec \<Rightarrow> client_rec) \<Rightarrow> server \<Rightarrow> server" where
  "upd_client name f s = s\<lparr>sv_clients := map (\<lambda>c. if cl_name c = name then f c else c) (sv_clients s)\<rparr>"

definition has_lock :: "client_rec \<Rightarrow> string \<Rightarrow> bool" where
  "has_lock c config_name \<longleftrightarrow> config_name \<in> set (cl_locks c)"

definition add_lock :: "string \<Rightarrow> client_rec \<Rightarrow> client_rec" where
  "add_lock config_name c = c\<lparr>cl_locks := List.insert config_name (cl_locks c)\<rparr>"

definition remove_lock :: "string \<Rightarrow> client_rec \<Rightarrow> client_rec" where
  "remove_lock config_name c = c\<lparr>cl_locks := removeAll config_name (cl_locks c)\<rparr>"

definition add_mount :: "string \<Rightarrow> u32 \<Rightarrow> client_rec \<Rightarrow> client_rec" where
  "add_mount config_name number c = (let k = (config_name, number) in
     c\<lparr>cl_mounts := sm_put k ((case map_of (cl_mounts c) k of None \<Rightarrow> 0 | Some n \<Rightarrow> n) + 1) (cl_mounts c)\<rparr>)"

definition remove_mount :: "string \<Rightarrow> u32 \<Rightarrow> client_rec \<Rightarrow> client_rec" where
  "remove_mount config_name number c = (let k = (config_name, number) in
     case map_of (cl_mounts c) k of
       None \<Rightarrow> c
     | Some n \<Rightarrow> if n > 1 then c\<lparr>cl_mounts := sm_put k (n - 1) (cl_mounts c)\<rparr>
               else c\<lparr>cl_mounts := sm_erase k (cl_mounts c)\<rparr>)"

text \<open>\<open>find_comparison\<close> looks only among the comparisons of the client itself.\<close>

definition find_comparison :: "nat \<Rightarrow> u32 option \<Rightarrow> u32 option \<Rightarrow> client_rec \<Rightarrow> nat res" where
  "find_comparison snapper num1 num2 c =
     (let i = find_idx (\<lambda>h. hc_snapper h = snapper \<and> Some (hc_num1 h) = num1 \<and> Some (hc_num2 h) = num2)
                (cl_comparisons c)
      in if i = length (cl_comparisons c) then Inl NoComparison else Inr i)"

text \<open>Deleting a comparison returns the use of every configuration whose \<open>Snapper\<close> it is.\<close>

definition release_comparison :: "held_comparison \<Rightarrow> (server, unit) step" where
  "release_comparison h = modifyS (\<lambda>s. s\<lparr>sv_metas := map (\<lambda>m.
     if (case me_snapper m of None \<Rightarrow> False | Some (k, sp) \<Rightarrow> k = hc_snapper h)
     then dec_count (sv_now s) m else m) (sv_metas s)\<rparr>)"

subsection \<open>Checks\<close>

definition get_unix_userid :: "senv \<Rightarrow> string \<Rightarrow> (64 word) res" where
  "get_unix_userid E me = (if me = [] then Inl FatalException
     else (case se_sender_uid E me of None \<Rightarrow> Inl FatalException | Some uid \<Rightarrow> Inr uid))"

definition check_root :: "senv \<Rightarrow> string \<Rightarrow> (server, unit) step" where
  "check_root E me = bindS (liftS (get_unix_userid E me)) (\<lambda>uid. throw_ifS (uid \<noteq> 0) Permissions)"

definition check_permission :: "senv \<Rightarrow> string \<Rightarrow> nat \<Rightarrow> (server, unit) step" where
  "check_permission E me mid = bindS (liftS (get_unix_userid E me)) (\<lambda>uid.
     bindS (getS (\<lambda>s. me_uids (meta_of s mid))) (\<lambda>uids.
       throw_ifS (uid \<noteq> 0 \<and> \<not> list_ex (\<lambda>u. ucast u = uid) uids) Permissions))"

definition check_lock :: "string \<Rightarrow> string \<Rightarrow> (server, unit) step" where
  "check_lock me config_name = bindS (getS sv_clients) (\<lambda>cs.
     throw_ifS (list_ex (\<lambda>c. \<not> cl_zombie c \<and> cl_name c \<noteq> me \<and> has_lock c config_name) cs) ConfigLocked)"

definition check_config_in_use :: "nat \<Rightarrow> (server, unit) step" where
  "check_config_in_use mid = bindS (getS (\<lambda>s. me_counter (meta_of s mid))) (\<lambda>n. throw_ifS (n \<noteq> 0) ConfigInUse)"

definition check_snapshot_in_use :: "nat \<Rightarrow> u32 \<Rightarrow> (server, unit) step" where
  "check_snapshot_in_use mid number = bindS (getS (\<lambda>s. ci_name (me_info (meta_of s mid)))) (\<lambda>name.
     bindS (getS sv_clients) (\<lambda>cs.
       throw_ifS (list_ex (\<lambda>c. map_of (cl_mounts c) (name, number) \<noteq> None) cs) SnapshotInUse))"

end
