(* ===== verification/Server.thy ===== *)
theory Server
  imports ServerState
begin

text \<open>
  The requests of \<open>server/Client.cc\<close>, the translation of exceptions into error replies, the workers
  and the main loop (\<open>server/snapperd.cc\<close>).  A request is one step of the state, because it holds
  \<open>big_mutex\<close> from its first check to its reply; only \<open>CreateComparison\<close> gives the mutex up, so it
  is two steps with anything in between, and the thread of the background comparisons,
  which does not take it, makes a step for each thing it does.
\<close>

type_synonym handler = "(server, unit) step"

definition reply :: "string \<Rightarrow> reply \<Rightarrow> handler" where
  "reply me r = emit (Reply me r)"

subsection \<open>Configurations and locks\<close>

definition list_configs :: "string \<Rightarrow> handler" where
  "list_configs me = bindS (getS (\<lambda>s. map me_info (sv_metas s))) (\<lambda>infos. reply me (RConfigs infos))"

definition get_config :: "senv \<Rightarrow> string \<Rightarrow> string \<Rightarrow> handler" where
  "get_config E me config_name = bindS (find_meta config_name) (\<lambda>mid.
     thenS (check_permission E me mid)
       (bindS (getS (\<lambda>s. me_info (meta_of s mid))) (\<lambda>info. reply me (RConfig info))))"

definition create_config :: "senv \<Rightarrow> string \<Rightarrow> string \<Rightarrow> string \<Rightarrow> string \<Rightarrow> string \<Rightarrow> handler" where
  "create_config E me config_name subvolume fstype template_name =
     thenS (check_root E me)
    (thenS (metas_createConfig E config_name subvolume fstype template_name)
    (thenS (reply me RUnit) (emit (ConfigCreated config_name))))"

definition delete_config :: "senv \<Rightarrow> string \<Rightarrow> string \<Rightarrow> handler" where
  "delete_config E me config_name = bindS (find_meta config_name) (\<lambda>mid.
     thenS (check_root E me)
    (thenS (check_lock me config_name)
    (thenS (check_config_in_use mid)
    (thenS (metas_deleteConfig E mid)
    (thenS (reply me RUnit) (emit (ConfigDeleted config_name)))))))"

definition lock_config :: "senv \<Rightarrow> string \<Rightarrow> string \<Rightarrow> handler" where
  "lock_config E me config_name = bindS (find_meta config_name) (\<lambda>mid.
     thenS (check_permission E me mid)
    (thenS (modifyS (upd_client me (add_lock config_name))) (reply me RUnit)))"

definition unlock_config :: "senv \<Rightarrow> string \<Rightarrow> string \<Rightarrow> handler" where
  "unlock_config E me config_name = bindS (find_meta config_name) (\<lambda>mid.
     thenS (check_permission E me mid)
    (thenS (modifyS (upd_client me (remove_lock config_name))) (reply me RUnit)))"

subsection \<open>Snapshots\<close>

text \<open>The beginning of the requests on the snapshots of a configuration.\<close>

definition with_snapper :: "senv \<Rightarrow> string \<Rightarrow> string \<Rightarrow> (nat \<Rightarrow> handler) \<Rightarrow> handler" where
  "with_snapper E me config_name body = bindS (find_meta config_name) (\<lambda>mid.
     thenS (check_permission E me mid) (thenS (getSnapper E mid) (body mid)))"

definition list_snapshots :: "senv \<Rightarrow> string \<Rightarrow> string \<Rightarrow> handler" where
  "list_snapshots E me config_name = with_snapper E me config_name (\<lambda>mid.
     bindS (getS (snaps mid)) (\<lambda>es. reply me (RSnapshots es)))"

definition list_snapshots_at_time ::
  "senv \<Rightarrow> string \<Rightarrow> string \<Rightarrow> 64 word \<Rightarrow> 64 word \<Rightarrow> handler" where
  "list_snapshots_at_time E me config_name begin_time end_time = with_snapper E me config_name (\<lambda>mid.
     bindS (getS (snaps mid)) (\<lambda>es. reply me (RSnapshots
       (filter (\<lambda>e. sn_date e \<ge> sint begin_time \<and> sn_date e \<le> sint end_time) es))))"

definition get_snapshot :: "senv \<Rightarrow> string \<Rightarrow> string \<Rightarrow> u32 \<Rightarrow> handler" where
  "get_snapshot E me config_name num = with_snapper E me config_name (\<lambda>mid.
     bindS (find_snapshot mid num) (\<lambda>i. bindS (getS (snaps mid)) (\<lambda>es. reply me (RSnapshot (es ! i)))))"

text \<open>A setter applied to the snapshot an iterator points to, and \<open>flushInfo\<close> of it.\<close>

definition set_entry :: "nat \<Rightarrow> (snapshot \<Rightarrow> snapshot res) \<Rightarrow> (sstate, unit) step" where
  "set_entry i f st = (case f (entries st ! i) of
       Inl e \<Rightarrow> (Inl e, st)
     | Inr s \<Rightarrow> (Inr (), st\<lparr>entries := (entries st)[i := s]\<rparr>))"

definition flush_entry :: "xml_lib \<Rightarrow> nat \<Rightarrow> (sstate, unit) step" where
  "flush_entry X i = bindS (getS entries) (\<lambda>es. bindS (onW (flushInfo X (es ! i))) (\<lambda>s.
     modifyS (\<lambda>st. st\<lparr>entries := (entries st)[i := s]\<rparr>)))"

definition set_snapshot ::
  "senv \<Rightarrow> string \<Rightarrow> string \<Rightarrow> u32 \<Rightarrow> string \<Rightarrow> string \<Rightarrow> (string, string) smap \<Rightarrow> handler" where
  "set_snapshot E me config_name num description cleanup userdata = with_snapper E me config_name (\<lambda>mid.
     bindS (find_snapshot mid num) (\<lambda>i.
       thenS (onSnaps mid (\<lambda>sp. thenS (set_entry i (setDescription description))
                (thenS (set_entry i (setCleanup cleanup)) (thenS (set_entry i (setUserdata userdata))
                  (flush_entry (se_xml E) i)))))
      (thenS (reply me RUnit) (emit (SnapshotModified config_name num)))))"

text \<open>What the three requests that create a snapshot do after its creation.\<close>

definition finish_snapshot ::
  "senv \<Rightarrow> string \<Rightarrow> string \<Rightarrow> (string, string) smap \<Rightarrow> nat \<Rightarrow> (sstate, u32) step" where
  "finish_snapshot E me cleanup userdata i = bindS (liftS (get_unix_userid E me)) (\<lambda>uid.
     thenS (set_entry i (setUid (ucast uid)))
    (thenS (set_entry i (setCleanup cleanup))
    (thenS (set_entry i (setUserdata userdata))
    (thenS (flush_entry (se_xml E) i)
    (bindS (getS entries) (\<lambda>es. retS (sn_num (es ! i))))))))"

definition create_single_snapshot ::
  "senv \<Rightarrow> string \<Rightarrow> string \<Rightarrow> string \<Rightarrow> string \<Rightarrow> (string, string) smap \<Rightarrow> handler" where
  "create_single_snapshot E me config_name description cleanup userdata = with_snapper E me config_name (\<lambda>mid.
     bindS (onSnaps mid (\<lambda>sp. bindS (createSingleSnapshot (se_xml E) (sp_ops sp) description)
              (finish_snapshot E me cleanup userdata))) (\<lambda>num.
       thenS (reply me (RNum num)) (emit (SnapshotCreated config_name num))))"

definition create_pre_snapshot ::
  "senv \<Rightarrow> string \<Rightarrow> string \<Rightarrow> string \<Rightarrow> string \<Rightarrow> (string, string) smap \<Rightarrow> handler" where
  "create_pre_snapshot E me config_name description cleanup userdata = with_snapper E me config_name (\<lambda>mid.
     bindS (onSnaps mid (\<lambda>sp. bindS (createPreSnapshot (se_xml E) (sp_ops sp) description)
              (finish_snapshot E me cleanup userdata))) (\<lambda>num.
       thenS (reply me (RNum num)) (emit (SnapshotCreated config_name num))))"

text \<open>\<open>Backgrounds::add_task\<close>.\<close>

definition add_background :: "nat \<Rightarrow> u32 \<Rightarrow> u32 \<Rightarrow> handler" where
  "add_background mid num1 num2 =
     thenS (modifyS (\<lambda>s. s\<lparr>sv_tasks := sv_tasks s @ [\<lparr>bt_meta = mid, bt_num1 = num1, bt_num2 = num2\<rparr>]\<rparr>))
       (inc_use_count mid)"

definition wants_background :: "config_info \<Rightarrow> bool" where
  "wants_background info = (case map_of (ci_raw info) ''BACKGROUND_COMPARISON'' of
       None \<Rightarrow> True | Some v \<Rightarrow> v = ''yes'')"

definition create_post_snapshot ::
  "senv \<Rightarrow> string \<Rightarrow> string \<Rightarrow> u32 \<Rightarrow> string \<Rightarrow> string \<Rightarrow> (string, string) smap \<Rightarrow> handler" where
  "create_post_snapshot E me config_name pre_num description cleanup userdata =
     with_snapper E me config_name (\<lambda>mid.
     bindS (onSnaps mid (\<lambda>sp. bindS (getS entries) (\<lambda>es.
              bindS (createPostSnapshot (se_xml E) (sp_ops sp) description (find_num pre_num es))
                (finish_snapshot E me cleanup userdata)))) (\<lambda>num.
     bindS (getS (\<lambda>s. me_info (meta_of s mid))) (\<lambda>info.
       thenS (whenS (wants_background info) (add_background mid pre_num num))
      (thenS (reply me (RNum num)) (emit (SnapshotCreated config_name num))))))"

definition delete_one :: "nat \<Rightarrow> u32 \<Rightarrow> handler" where
  "delete_one mid num = thenS (check_snapshot_in_use mid num)
     (onSnaps mid (\<lambda>sp. bindS (getS entries) (\<lambda>es. deleteSnapshot (sp_ops sp) (find_num num es))))"

definition delete_snapshots :: "senv \<Rightarrow> string \<Rightarrow> string \<Rightarrow> u32 list \<Rightarrow> handler" where
  "delete_snapshots E me config_name nums = bindS (find_meta config_name) (\<lambda>mid.
     thenS (check_permission E me mid)
    (thenS (check_lock me config_name)
    (thenS (check_config_in_use mid)
    (thenS (getSnapper E mid)
    (thenS (foreachS (delete_one mid) nums)
    (thenS (reply me RUnit) (emit (SnapshotsDeleted config_name nums))))))))"

definition mount_snapshot :: "senv \<Rightarrow> string \<Rightarrow> string \<Rightarrow> u32 \<Rightarrow> bool \<Rightarrow> handler" where
  "mount_snapshot E me config_name num user_request = with_snapper E me config_name (\<lambda>mid.
     bindS (find_snapshot mid num) (\<lambda>i.
       thenS (onSnaps mid (\<lambda>sp. mountAt (sp_ops sp) user_request i))
      (thenS (whenS (\<not> user_request) (modifyS (upd_client me (add_mount config_name num))))
        (bindS (onSnaps mid (\<lambda>sp. getS (\<lambda>st. snapshotDir sp (entries st ! i)))) (\<lambda>dir. reply me (RString dir))))))"

definition umount_snapshot :: "senv \<Rightarrow> string \<Rightarrow> string \<Rightarrow> u32 \<Rightarrow> bool \<Rightarrow> handler" where
  "umount_snapshot E me config_name num user_request = with_snapper E me config_name (\<lambda>mid.
     bindS (find_snapshot mid num) (\<lambda>i.
       thenS (onSnaps mid (\<lambda>sp. umountAt (sp_ops sp) user_request i))
      (thenS (whenS (\<not> user_request) (modifyS (upd_client me (remove_mount config_name num))))
        (reply me RUnit))))"

definition get_mount_point :: "senv \<Rightarrow> string \<Rightarrow> string \<Rightarrow> u32 \<Rightarrow> handler" where
  "get_mount_point E me config_name num = with_snapper E me config_name (\<lambda>mid.
     bindS (find_snapshot mid num) (\<lambda>i.
       bindS (onSnaps mid (\<lambda>sp. getS (\<lambda>st. snapshotDir sp (entries st ! i)))) (\<lambda>dir. reply me (RString dir))))"

subsection \<open>Comparisons\<close>

definition found_num :: "u32 \<Rightarrow> snapshot list \<Rightarrow> u32 option" where
  "found_num num es = (if find_num num es = length es then None else Some num)"

definition loaded_id :: "nat \<Rightarrow> server \<Rightarrow> nat" where
  "loaded_id mid s = (case me_snapper (meta_of s mid) of None \<Rightarrow> 0 | Some (k, sp) \<Rightarrow> k)"

text \<open>Up to \<open>lock.unlock()\<close>: the use count is taken by the \<open>RefHolder\<close>.\<close>

definition create_comparison_begin :: "senv \<Rightarrow> string \<Rightarrow> string \<Rightarrow> u32 \<Rightarrow> u32 \<Rightarrow> handler" where
  "create_comparison_begin E me config_name num1 num2 = with_snapper E me config_name (\<lambda>mid.
     bindS (getS (\<lambda>s. (loaded_id mid s, snaps mid s))) (\<lambda>(k, es).
       thenS (inc_use_count mid)
         (modifyS (upd_client me (\<lambda>c. c\<lparr>cl_pending := Some \<lparr>pd_meta = mid, pd_snapper = k,
            pd_num1 = found_num num1 es, pd_num2 = found_num num2 es\<rparr>\<rparr>)))))"

definition pending_index :: "u32 option \<Rightarrow> snapshot list \<Rightarrow> nat" where
  "pending_index n es = (case n of None \<Rightarrow> length es | Some num \<Rightarrow> find_num num es)"

text \<open>From the constructor of \<open>Comparison\<close> on.  The \<open>RefHolder\<close> returns its use when the function is
  left, by return or by exception.\<close>

definition create_comparison_body :: "senv \<Rightarrow> string \<Rightarrow> pending \<Rightarrow> handler" where
  "create_comparison_body E me p =
     bindS (onSnaps (pd_meta p) (\<lambda>sp. bindS (getS entries) (\<lambda>es.
        comparison_new (sp_ops sp) (se_cmp E (sp_subvolume sp)) (sp_subvolume sp) (sp_ignore_patterns sp)
          (pending_index (pd_num1 p) es) (pending_index (pd_num2 p) es)))) (\<lambda>c.
     thenS (modifyS (upd_client me (\<lambda>cl. cl\<lparr>cl_comparisons := cl_comparisons cl @
        [\<lparr>hc_snapper = pd_snapper p, hc_num1 = the (pd_num1 p), hc_num2 = the (pd_num2 p),
          hc_files = cp_files c\<rparr>]\<rparr>)))
    (thenS (inc_use_count (pd_meta p)) (reply me RUnit)))"

definition create_comparison_end :: "senv \<Rightarrow> string \<Rightarrow> pending \<Rightarrow> handler" where
  "create_comparison_end E me p =
     thenS (modifyS (upd_client me (\<lambda>c. c\<lparr>cl_pending := None\<rparr>)))
       (finallyS (create_comparison_body E me p) (dec_use_count (pd_meta p)))"

definition with_comparison ::
  "senv \<Rightarrow> string \<Rightarrow> string \<Rightarrow> u32 \<Rightarrow> u32 \<Rightarrow> (held_comparison \<Rightarrow> nat \<Rightarrow> handler) \<Rightarrow> handler" where
  "with_comparison E me config_name num1 num2 body = with_snapper E me config_name (\<lambda>mid.
     bindS (getS (\<lambda>s. (loaded_id mid s, snaps mid s, find_client me s))) (\<lambda>(k, es, cl).
       case cl of
         None \<Rightarrow> throwS NoComparison
       | Some c \<Rightarrow> bindS (liftS (find_comparison k (found_num num1 es) (found_num num2 es) c)) (\<lambda>i.
           body (cl_comparisons c ! i) i)))"

definition delete_comparison :: "senv \<Rightarrow> string \<Rightarrow> string \<Rightarrow> u32 \<Rightarrow> u32 \<Rightarrow> handler" where
  "delete_comparison E me config_name num1 num2 = with_comparison E me config_name num1 num2 (\<lambda>h i.
     thenS (release_comparison h)
    (thenS (modifyS (upd_client me (\<lambda>c. c\<lparr>cl_comparisons := drop_nth i (cl_comparisons c)\<rparr>)))
      (reply me RUnit)))"

definition get_files :: "senv \<Rightarrow> string \<Rightarrow> string \<Rightarrow> u32 \<Rightarrow> u32 \<Rightarrow> handler" where
  "get_files E me config_name num1 num2 = with_comparison E me config_name num1 num2 (\<lambda>h i.
     reply me (RFiles (hc_files h)))"

end
