(* ===== verification/ServerRun.thy ===== *)
theory ServerRun
  imports Server
begin

text \<open>
  Messages and threads of the server: the arguments and replies on the bus, \<open>Client::dispatch\<close> with
  its translation of exceptions, the worker of each client, the background worker, the destructor of
  a client, and what the main loop does on a call, on a disconnect and periodically
  (\<open>server/snapperd.cc\<close>).  An event whose result is an exception ends the process: the exception
  leaves the function of a thread or a destructor.
\<close>

subsection \<open>Arguments and replies\<close>

definition args1 :: "'a decoder \<Rightarrow> ('a \<Rightarrow> handler) \<Rightarrow> dval list \<Rightarrow> handler" where
  "args1 d f vs = bindS (liftS (get_value d vs)) (\<lambda>(a, vs). f a)"

definition args :: "'a decoder \<Rightarrow> ('a \<Rightarrow> dval list \<Rightarrow> handler) \<Rightarrow> dval list \<Rightarrow> handler" where
  "args d f vs = bindS (liftS (get_value d vs)) (\<lambda>(a, vs). f a vs)"

text \<open>The constructor of \<open>Hihi\<close> fails for a message without arguments.\<close>

definition with_args :: "dval list \<Rightarrow> handler \<Rightarrow> handler" where
  "with_args vs h = thenS (throw_ifS (vs = []) FatalException) h"

definition to_xconfig :: "config_info \<Rightarrow> xconfig" where
  "to_xconfig c = \<lparr>xc_config_name = ci_name c, xc_subvolume = ci_subvolume c, xc_raw = ci_raw c\<rparr>"

definition to_xsnapshot :: "snapshot \<Rightarrow> xsnapshot" where
  "to_xsnapshot s = \<lparr>xs_num = sn_num s, xs_type = of_nat (enum_num (sn_type s)), xs_pre_num = sn_pre_num s,
     xs_date = word_of_int (sn_date s), xs_uid = sn_uid s, xs_description = sn_description s,
     xs_cleanup = sn_cleanup s, xs_userdata = sn_userdata s\<rparr>"

definition to_xfile :: "file_rec \<Rightarrow> xfile" where
  "to_xfile f = \<lparr>xf_name = f_name f, xf_status = pre_to_post_status f\<rparr>"

fun reply_args :: "reply \<Rightarrow> dval list" where
  "reply_args RUnit = []"
| "reply_args (RXml t) = [DStr (c_str t)]"
| "reply_args (RNum n) = [enc_u32 n]"
| "reply_args (RString t) = [enc_string t]"
| "reply_args (RConfig c) = [enc_config (to_xconfig c)]"
| "reply_args (RConfigs cs) = [enc_array config_sig enc_config (map to_xconfig cs)]"
| "reply_args (RSnapshot s) = [enc_snapshot (to_xsnapshot s)]"
| "reply_args (RSnapshots es) = [enc_array snapshot_sig enc_snapshot (map to_xsnapshot es)]"
| "reply_args (RFiles fs) = [enc_array file_sig enc_file (map to_xfile fs)]"
| "reply_args (RDebug ts) = [enc_array ''s'' enc_string ts]"

subsection \<open>Debug\<close>

definition dec_int :: "int \<Rightarrow> string" where
  "dec_int n = (if n < 0 then ''-'' @ decString (nat (- n)) else decString (nat n))"

definition debug_client :: "string \<Rightarrow> client_rec \<Rightarrow> string" where
  "debug_client me c = ''    name:'' @ [CHR 0x27] @ cl_name c @ [CHR 0x27]
     @ (if cl_name c = me then '', myself'' else [])
     @ (if cl_zombie c then '', zombie'' else [])
     @ (if cl_locks c \<noteq> [] then '', locks '' @ decString (length (cl_locks c)) else [])
     @ (if cl_comparisons c \<noteq> [] then '', comparisons '' @ decString (length (cl_comparisons c)) else [])"

definition debug_meta :: "int \<Rightarrow> meta \<Rightarrow> string" where
  "debug_meta now m = ''    name:'' @ [CHR 0x27] @ ci_name (me_info m) @ [CHR 0x27]
     @ (if me_snapper m = None then []
        else '', loaded'' @ (if me_counter m = 0 then '', unused for '' @ dec_int (unused_for now m) @ ''s''
                             else '', use count '' @ dec_int (me_counter m)))"

definition debug :: "senv \<Rightarrow> string \<Rightarrow> handler" where
  "debug E me = thenS (check_root E me) (bindS (getS (\<lambda>s.
     [''clients:''] @ map (debug_client me) (sv_clients s)
     @ [''backgrounds:''] @ map (\<lambda>t. ''    name:'' @ [CHR 0x27] @ ci_name (me_info (meta_of s (bt_meta t))) @ [CHR 0x27]) (sv_tasks s)
     @ [''meta-snappers:''] @ map (debug_meta (sv_now s)) (sv_metas s)))
   (\<lambda>ts. reply me (RDebug ts)))"

subsection \<open>Dispatch\<close>

text \<open>The handler of a method with its arguments extracted in the order of the source; what follows
  them in the message is ignored.  \<open>None\<close>: no such method.\<close>

definition method_handler :: "senv \<Rightarrow> string \<Rightarrow> string \<Rightarrow> dval list \<Rightarrow> handler option" where
  "method_handler E me name vs =
    (let str = args dec_string; num = args dec_u32; ud = args1 (dec_map []) in
     if name = ''ListConfigs'' then Some (list_configs me)
     else if name = ''CreateConfig'' then Some (with_args vs (str (\<lambda>c. str (\<lambda>sub. str (\<lambda>fs. args1 dec_string (create_config E me c sub fs)))) vs))
     else if name = ''GetConfig'' then Some (with_args vs (args1 dec_string (get_config E me) vs))
     else if name = ''DeleteConfig'' then Some (with_args vs (args1 dec_string (delete_config E me) vs))
     else if name = ''LockConfig'' then Some (with_args vs (args1 dec_string (lock_config E me) vs))
     else if name = ''UnlockConfig'' then Some (with_args vs (args1 dec_string (unlock_config E me) vs))
     else if name = ''ListSnapshots'' then Some (with_args vs (args1 dec_string (list_snapshots E me) vs))
     else if name = ''ListSnapshotsAtTime'' then
       Some (with_args vs (str (\<lambda>c. args dec_time (\<lambda>b. args1 dec_time (list_snapshots_at_time E me c b))) vs))
     else if name = ''GetSnapshot'' then Some (with_args vs (str (\<lambda>c. args1 dec_u32 (get_snapshot E me c)) vs))
     else if name = ''SetSnapshot'' then
       Some (with_args vs (str (\<lambda>c. num (\<lambda>n. str (\<lambda>d. str (\<lambda>cl. ud (set_snapshot E me c n d cl))))) vs))
     else if name = ''CreateSingleSnapshot'' then
       Some (with_args vs (str (\<lambda>c. str (\<lambda>d. str (\<lambda>cl. ud (create_single_snapshot E me c d cl)))) vs))
     else if name = ''CreatePreSnapshot'' then
       Some (with_args vs (str (\<lambda>c. str (\<lambda>d. str (\<lambda>cl. ud (create_pre_snapshot E me c d cl)))) vs))
     else if name = ''CreatePostSnapshot'' then
       Some (with_args vs (str (\<lambda>c. num (\<lambda>n. str (\<lambda>d. str (\<lambda>cl. ud (create_post_snapshot E me c n d cl))))) vs))
     else if name = ''DeleteSnapshots'' then
       Some (with_args vs (str (\<lambda>c. args1 (dec_array ''u'' dec_u32) (delete_snapshots E me c)) vs))
     else if name = ''MountSnapshot'' then
       Some (with_args vs (str (\<lambda>c. num (\<lambda>n. args1 dec_bool (mount_snapshot E me c n))) vs))
     else if name = ''UmountSnapshot'' then
       Some (with_args vs (str (\<lambda>c. num (\<lambda>n. args1 dec_bool (umount_snapshot E me c n))) vs))
     else if name = ''GetMountPoint'' then Some (with_args vs (str (\<lambda>c. args1 dec_u32 (get_mount_point E me c)) vs))
     else if name = ''CreateComparison'' then
       Some (with_args vs (str (\<lambda>c. num (\<lambda>n. args1 dec_u32 (create_comparison_begin E me c n))) vs))
     else if name = ''DeleteComparison'' then
       Some (with_args vs (str (\<lambda>c. num (\<lambda>n. args1 dec_u32 (delete_comparison E me c n))) vs))
     else if name = ''GetFiles'' then Some (with_args vs (str (\<lambda>c. num (\<lambda>n. args1 dec_u32 (get_files E me c n))) vs))
     else if name = ''Debug'' then Some (debug E me)
     else None)"

definition DBUS_ERROR_FAILED :: string where
  "DBUS_ERROR_FAILED = ''org.freedesktop.DBus.Error.Failed''"

text \<open>The name and the text of the error that answers an exception.\<close>

definition error_of :: "exn \<Rightarrow> string \<times> string" where
  "error_of e = (case e of
       MarshallingException \<Rightarrow> (''error.dbus.marshalling'', DBUS_ERROR_FAILED)
     | FatalException \<Rightarrow> (''error.dbus.fatal'', DBUS_ERROR_FAILED)
     | UnknownConfig \<Rightarrow> (''error.unknown_config'', DBUS_ERROR_FAILED)
     | CreateConfigFailedException t \<Rightarrow> (''error.create_config_failed'', t)
     | DeleteConfigFailedException t \<Rightarrow> (''error.delete_config_failed'', t)
     | Permissions \<Rightarrow> (''error.no_permissions'', DBUS_ERROR_FAILED)
     | ConfigLocked \<Rightarrow> (''error.config_locked'', DBUS_ERROR_FAILED)
     | ConfigInUse \<Rightarrow> (''error.config_in_use'', DBUS_ERROR_FAILED)
     | SnapshotInUse \<Rightarrow> (''error.snapshot_in_use'', DBUS_ERROR_FAILED)
     | NoComparison \<Rightarrow> (''error.no_comparisons'', DBUS_ERROR_FAILED)
     | IllegalSnapshotException \<Rightarrow> (''error.illegal_snapshot'', DBUS_ERROR_FAILED)
     | CreateSnapshotFailedException \<Rightarrow> (''error.create_snapshot_failed'', DBUS_ERROR_FAILED)
     | DeleteSnapshotFailedException \<Rightarrow> (''error.delete_snapshot_failed'', DBUS_ERROR_FAILED)
     | UnknownFile \<Rightarrow> (''error.unknown_file'', DBUS_ERROR_FAILED)
     | InvalidUserdataException \<Rightarrow> (''error.invalid_userdata'', DBUS_ERROR_FAILED)
     | IOErrorException \<Rightarrow> (''error.io_error'', DBUS_ERROR_FAILED)
     | IsSnapshotMountedFailedException \<Rightarrow> (''error.is_snapshot_mounted'', DBUS_ERROR_FAILED)
     | MountSnapshotFailedException \<Rightarrow> (''error.mount_snapshot'', DBUS_ERROR_FAILED)
     | UmountSnapshotFailedException \<Rightarrow> (''error.umount_snapshot'', DBUS_ERROR_FAILED)
     | _ \<Rightarrow> (''error.something'', DBUS_ERROR_FAILED))"

text \<open>An interruption goes on to the worker; a request that never returns is not answered.\<close>

definition answering :: "string \<Rightarrow> handler \<Rightarrow> handler" where
  "answering me m = catchS m (\<lambda>e. if e = ThreadInterrupted \<or> e = Diverges then throwS e
     else (case error_of e of (name, msg) \<Rightarrow> emit (Error me name msg)))"

definition dispatch :: "senv \<Rightarrow> string \<Rightarrow> message \<Rightarrow> handler" where
  "dispatch E me msg =
     (case (if ms_interface msg = INTERFACE then method_handler E me (ms_member msg) (ms_args msg) else None) of
        None \<Rightarrow> emit (Error me ''error.unknown_method'' DBUS_ERROR_FAILED)
      | Some h \<Rightarrow> answering me h)"

subsection \<open>Threads\<close>

text \<open>\<open>Client::worker\<close>: the next message of the queue.\<close>

definition client_work :: "senv \<Rightarrow> string \<Rightarrow> handler" where
  "client_work E me = bindS (getS (find_client me)) (\<lambda>cl. case cl of
       None \<Rightarrow> retS ()
     | Some c \<Rightarrow> (case cl_tasks c of
         [] \<Rightarrow> retS ()
       | msg # rest \<Rightarrow> thenS (modifyS (upd_client me (\<lambda>c. c\<lparr>cl_tasks := rest\<rparr>))) (dispatch E me msg)))"

text \<open>The rest of a request \<open>CreateComparison\<close>, inside the \<open>try\<close> block of \<open>dispatch\<close>.\<close>

definition client_finish :: "senv \<Rightarrow> string \<Rightarrow> handler" where
  "client_finish E me = bindS (getS (find_client me)) (\<lambda>cl. case cl of
       None \<Rightarrow> retS ()
     | Some c \<Rightarrow> (case cl_pending c of
         None \<Rightarrow> retS ()
       | Some p \<Rightarrow> answering me (create_comparison_end E me p)))"

text \<open>The thread of a client that has disconnected is interrupted at the next interruption point, which
  the walk over the two trees has: the worker ends without looking at the rest of its queue.\<close>

definition interrupted_walk :: "string \<Rightarrow> cmp_dirs" where
  "interrupted_walk subvolume s1 s2 = throwS ThreadInterrupted"

definition client_interrupt :: "senv \<Rightarrow> string \<Rightarrow> handler" where
  "client_interrupt E me = catchS (client_finish (E\<lparr>se_cmp := interrupted_walk\<rparr>) me) (\<lambda>e.
     if e = ThreadInterrupted then modifyS (upd_client me (\<lambda>c. c\<lparr>cl_tasks := []\<rparr>)) else throwS e)"

text \<open>One step of \<open>Backgrounds::worker\<close>, which holds its own mutex only to copy and to remove the first task and takes
  no other lock: between any two of its steps the other threads and the main loop can run.  The use of the configuration
  is returned before the task is removed.  The worker catches only its interruption.\<close>

definition set_worker :: "worker \<Rightarrow> handler" where
  "set_worker w = modifyS (\<lambda>s. s\<lparr>sv_worker := w\<rparr>)"

definition background_comparison :: "senv \<Rightarrow> btask \<Rightarrow> handler" where
  "background_comparison E t = bindS (onSnaps (bt_meta t) (\<lambda>sp. bindS (getS entries) (\<lambda>es.
     comparison_new (sp_ops sp) (se_cmp E (sp_subvolume sp)) (sp_subvolume sp) (sp_ignore_patterns sp)
       (find_num (bt_num1 t) es) (find_num (bt_num2 t) es)))) (\<lambda>c. retS ())"

definition background_work :: "senv \<Rightarrow> handler" where
  "background_work E = bindS (getS (\<lambda>s. (sv_worker s, sv_tasks s))) (\<lambda>(w, ts). case w of
       Waiting \<Rightarrow> (case ts of [] \<Rightarrow> retS () | t # rest \<Rightarrow> set_worker (Took t))
     | Took t \<Rightarrow> thenS (getSnapper E (bt_meta t))
         (bindS (getS (loaded_id (bt_meta t))) (\<lambda>k. set_worker (Holds t k)))
     | Holds t k \<Rightarrow> thenS (background_comparison E t) (set_worker (Compared t k))
     | Compared t k \<Rightarrow> thenS (dec_use_count (bt_meta t)) (set_worker Returned)
     | Returned \<Rightarrow> modifyS (\<lambda>s. s\<lparr>sv_tasks := tl (sv_tasks s), sv_worker := Waiting\<rparr>))"

text \<open>\<open>Client::~Client\<close>: the comparisons and the mounts of the client are returned.\<close>

definition return_mounts :: "senv \<Rightarrow> (string \<times> u32) \<times> u32 \<Rightarrow> handler" where
  "return_mounts E m = (case m of ((config_name, number), use_count) \<Rightarrow>
     bindS (find_meta config_name) (\<lambda>mid.
       thenS (getSnapper E mid)
         (bindS (find_snapshot mid number) (\<lambda>i.
           foreachS (\<lambda>_. onSnaps mid (\<lambda>sp. umountAt (sp_ops sp) False i)) [0..<unat use_count]))))"

definition destroy_client :: "senv \<Rightarrow> client_rec \<Rightarrow> handler" where
  "destroy_client E c = thenS (foreachS release_comparison (cl_comparisons c))
     (foreachS (return_mounts E) (cl_mounts c))"

text \<open>The thread of a zombie has ended when it has no message left and no request in progress.\<close>

definition finished :: "client_rec \<Rightarrow> bool" where
  "finished c \<longleftrightarrow> cl_tasks c = [] \<and> cl_pending c = None"

definition remove_zombie :: "senv \<Rightarrow> client_rec \<Rightarrow> handler" where
  "remove_zombie E c = whenS (cl_zombie c \<and> finished c)
     (thenS (modifyS (\<lambda>s. s\<lparr>sv_clients := filter (\<lambda>d. cl_name d \<noteq> cl_name c) (sv_clients s)\<rparr>))
       (destroy_client E c))"

definition remove_zombies :: "senv \<Rightarrow> handler" where
  "remove_zombies E = bindS (getS sv_clients) (foreachS (remove_zombie E))"

subsection \<open>The main loop\<close>

definition idle_time :: int where "idle_time = 60"
definition snapper_cleanup_time :: int where "snapper_cleanup_time = 30"

definition method_call :: "senv \<Rightarrow> message \<Rightarrow> handler" where
  "method_call E msg =
     (if ms_interface msg = ''org.freedesktop.DBus.Introspectable'' \<and> ms_member msg = ''Introspect''
      then emit (Reply (ms_sender msg) (RXml (introspect (se_doctype E))))
      else thenS (modifyS (\<lambda>s. if find_client (ms_sender msg) s = None
                   then s\<lparr>sv_clients := sv_clients s @ [new_client (ms_sender msg)], sv_idle_timeout := - 1\<rparr> else s))
             (modifyS (upd_client (ms_sender msg) (\<lambda>c. c\<lparr>cl_tasks := cl_tasks c @ [msg]\<rparr>))))"

definition client_disconnected :: "string \<Rightarrow> handler" where
  "client_disconnected name = modifyS (upd_client name (\<lambda>c. c\<lparr>cl_zombie := True\<rparr>))"

definition unload_unused :: "senv \<Rightarrow> nat \<Rightarrow> handler" where
  "unload_unused E mid = bindS (getS (\<lambda>s. me_snapper (meta_of s mid) \<noteq> None
       \<and> unused_for (sv_now s) (meta_of s mid) > snapper_cleanup_time)) (\<lambda>b. whenS b (unload E mid))"

definition periodic :: "senv \<Rightarrow> handler" where
  "periodic E = thenS (remove_zombies E)
    (thenS (modifyS (\<lambda>s. if sv_clients s = [] \<and> sv_tasks s = [] then s\<lparr>sv_idle_timeout := idle_time\<rparr> else s))
    (bindS (getS (\<lambda>s. map me_id (sv_metas s))) (foreachS (unload_unused E))))"

definition periodic_timeout :: "server \<Rightarrow> int" where
  "periodic_timeout s =
     (if list_ex cl_zombie (sv_clients s) then 1000
      else if sv_tasks s \<noteq> [] then 1000
      else if list_ex (\<lambda>m. me_snapper m \<noteq> None \<and> me_counter m = 0) (sv_metas s) then 1000
      else - 1)"

datatype event =
    Call message
  | Work string
  | Finish string
  | Interrupt string
  | Background
  | Disconnected string
  | Periodic
  | Tick nat

text \<open>A client works on one message at a time.\<close>

fun enabled :: "server \<Rightarrow> event \<Rightarrow> bool" where
  "enabled s (Work name) = (case find_client name s of None \<Rightarrow> False
     | Some c \<Rightarrow> cl_tasks c \<noteq> [] \<and> cl_pending c = None)"
| "enabled s (Finish name) = (case find_client name s of None \<Rightarrow> False | Some c \<Rightarrow> cl_pending c \<noteq> None)"
| "enabled s (Interrupt name) = (case find_client name s of None \<Rightarrow> False
     | Some c \<Rightarrow> cl_pending c \<noteq> None \<and> cl_zombie c)"
| "enabled s Background = (sv_worker s \<noteq> Waiting \<or> sv_tasks s \<noteq> [])"
| "enabled s _ = True"

fun run_event :: "senv \<Rightarrow> event \<Rightarrow> handler" where
  "run_event E (Call msg) = method_call E msg"
| "run_event E (Work name) = client_work E name"
| "run_event E (Finish name) = client_finish E name"
| "run_event E (Interrupt name) = client_interrupt E name"
| "run_event E Background = background_work E"
| "run_event E (Disconnected name) = client_disconnected name"
| "run_event E Periodic = periodic E"
| "run_event E (Tick n) = modifyS (\<lambda>s. s\<lparr>sv_now := sv_now s + int n\<rparr>)"

definition start_server :: "etc \<Rightarrow> int \<Rightarrow> server" where
  "start_server e now = \<lparr>sv_metas = [], sv_clients = [], sv_tasks = [], sv_worker = Waiting, sv_etc = e, sv_now = now,
     sv_next_id = 0, sv_idle_timeout = idle_time, sv_out = []\<rparr>"

text \<open>The states the server reaches after it has read the configurations.\<close>

inductive reachable :: "senv \<Rightarrow> server \<Rightarrow> bool" for E where
  start: "metas_init E (start_server e now) = (Inr (), s) \<Longrightarrow> reachable E s"
| step: "reachable E s \<Longrightarrow> enabled s ev \<Longrightarrow> run_event E ev s = (Inr (), s') \<Longrightarrow> reachable E s'"

end
