(* ===== verification/ServerInvariant.thy ===== *)
theory ServerInvariant
  imports ServerRun
begin

text \<open>
  The invariant of the server: the use counter of a configuration is the number of comparisons that
  its clients hold on its loaded \<open>Snapper\<close>, of comparisons that are being made and of background
  tasks; and whatever these refer to is loaded and has the snapshots they were made for.

  \<open>okx hs e s\<close> is the invariant in the middle of a request: \<open>hs\<close> are comparisons that no client
  holds any more but whose use is not returned yet, \<open>e\<close> gives for each configuration how much its
  counter is ahead of the references.  Each operation on the state has its rule for it; the
  requests are then covered by the rules \<open>keeps\<close>.
\<close>

subsection \<open>Definitions\<close>

definition loaded :: "meta \<Rightarrow> nat option" where
  "loaded m = map_option fst (me_snapper m)"

definition nums :: "meta \<Rightarrow> u32 set" where
  "nums m = (case me_snapper m of None \<Rightarrow> {} | Some (k, sp) \<Rightarrow> sn_num ` set (sp_snapshots sp))"

definition held :: "server \<Rightarrow> held_comparison list" where
  "held s = concat (map cl_comparisons (sv_clients s))"

definition pendings :: "server \<Rightarrow> pending list" where
  "pendings s = List.map_filter cl_pending (sv_clients s)"

definition refs :: "held_comparison list \<Rightarrow> pending list \<Rightarrow> btask list \<Rightarrow> meta \<Rightarrow> int" where
  "refs hs ps ts m = int (length (filter (\<lambda>h. loaded m = Some (hc_snapper h)) hs)
     + length (filter (\<lambda>p. pd_meta p = me_id m) ps) + length (filter (\<lambda>t. bt_meta t = me_id m) ts))"

definition has_load :: "meta list \<Rightarrow> nat \<Rightarrow> u32 set \<Rightarrow> bool" where
  "has_load ms k N \<longleftrightarrow> (\<exists>m\<in>set ms. loaded m = Some k \<and> N \<subseteq> nums m)"

definition has_meta :: "meta list \<Rightarrow> nat \<Rightarrow> nat \<Rightarrow> u32 set \<Rightarrow> bool" where
  "has_meta ms mid k N \<longleftrightarrow> (\<exists>m\<in>set ms. me_id m = mid \<and> loaded m = Some k \<and> N \<subseteq> nums m)"

definition pd_nums :: "pending \<Rightarrow> u32 set" where
  "pd_nums p = set_option (pd_num1 p) \<union> set_option (pd_num2 p)"

text \<open>The invariant over the parts of the state it depends on.\<close>

definition fits :: "nat \<Rightarrow> held_comparison list \<Rightarrow> pending list \<Rightarrow> btask list \<Rightarrow> (nat \<Rightarrow> int) \<Rightarrow> meta list \<Rightarrow> bool" where
  "fits n hs ps ts e ms \<longleftrightarrow>
     distinct (map me_id ms) \<and> (\<forall>m\<in>set ms. me_id m < n)
     \<and> (\<forall>m\<in>set ms. \<forall>m'\<in>set ms. \<forall>k. loaded m = Some k \<and> loaded m' = Some k \<longrightarrow> me_id m = me_id m')
     \<and> (\<forall>m\<in>set ms. \<forall>k. loaded m = Some k \<longrightarrow> k < n)
     \<and> (\<forall>m\<in>set ms. me_counter m = refs hs ps ts m + e (me_id m))
     \<and> (\<forall>h\<in>set hs. has_load ms (hc_snapper h) {hc_num1 h, hc_num2 h})
     \<and> (\<forall>p\<in>set ps. has_meta ms (pd_meta p) (pd_snapper p) (pd_nums p))
     \<and> (\<forall>t\<in>set ts. \<exists>k. has_meta ms (bt_meta t) k {bt_num1 t, bt_num2 t})"

text \<open>The background comparisons: the list of tasks and the worker.  \<open>counted\<close> are the tasks whose use is still counted
  as that of a task, \<open>working\<close> is the comparison the worker makes, like a request in progress.\<close>

definition background :: "server \<Rightarrow> btask list \<times> worker" where
  "background s = (sv_tasks s, sv_worker s)"

definition in_work :: "btask \<Rightarrow> nat \<Rightarrow> pending" where
  "in_work t k = \<lparr>pd_meta = bt_meta t, pd_snapper = k, pd_num1 = Some (bt_num1 t), pd_num2 = Some (bt_num2 t)\<rparr>"

fun counted :: "btask list \<times> worker \<Rightarrow> btask list" where
  "counted (ts, Waiting) = ts"
| "counted (ts, Took t) = ts"
| "counted (ts, _) = tl ts"

fun working :: "btask list \<times> worker \<Rightarrow> pending list" where
  "working (ts, Holds t k) = [in_work t k]"
| "working (ts, Compared t k) = [in_work t k]"
| "working (ts, _) = []"

fun worker_ok :: "btask list \<times> worker \<Rightarrow> bool" where
  "worker_ok (ts, Waiting) = True"
| "worker_ok (ts, Took t) = (ts \<noteq> [] \<and> hd ts = t)"
| "worker_ok (ts, Holds t k) = (ts \<noteq> [] \<and> hd ts = t)"
| "worker_ok (ts, Compared t k) = (ts \<noteq> [] \<and> hd ts = t)"
| "worker_ok (ts, Returned) = (ts \<noteq> [])"

definition okx :: "held_comparison list \<Rightarrow> (nat \<Rightarrow> int) \<Rightarrow> server \<Rightarrow> bool" where
  "okx hs e s \<longleftrightarrow> fits (sv_next_id s) (hs @ held s) (pendings s @ working (background s)) (counted (background s)) e (sv_metas s)
     \<and> distinct (map cl_name (sv_clients s)) \<and> worker_ok (background s)"

definition server_ok :: "server \<Rightarrow> bool" where
  "server_ok s \<longleftrightarrow> okx [] (\<lambda>_. 0) s"

subsection \<open>Changes of the configurations\<close>

lemma fitsD:
  assumes "fits n hs ps ts e ms"
  shows "distinct (map me_id ms)"
    and "m \<in> set ms \<Longrightarrow> me_id m < n"
    and "m \<in> set ms \<Longrightarrow> m' \<in> set ms \<Longrightarrow> loaded m = Some k \<Longrightarrow> loaded m' = Some k \<Longrightarrow> me_id m = me_id m'"
    and "m \<in> set ms \<Longrightarrow> loaded m = Some k \<Longrightarrow> k < n"
    and "m \<in> set ms \<Longrightarrow> me_counter m = refs hs ps ts m + e (me_id m)"
    and "h \<in> set hs \<Longrightarrow> has_load ms (hc_snapper h) {hc_num1 h, hc_num2 h}"
    and "p \<in> set ps \<Longrightarrow> has_meta ms (pd_meta p) (pd_snapper p) (pd_nums p)"
    and "t \<in> set ts \<Longrightarrow> \<exists>k. has_meta ms (bt_meta t) k {bt_num1 t, bt_num2 t}"
  using assms unfolding fits_def by blast+

lemma fitsI:
  assumes "distinct (map me_id ms)" "\<And>m. m \<in> set ms \<Longrightarrow> me_id m < n"
    "\<And>m m' k. m \<in> set ms \<Longrightarrow> m' \<in> set ms \<Longrightarrow> loaded m = Some k \<Longrightarrow> loaded m' = Some k \<Longrightarrow> me_id m = me_id m'"
    "\<And>m k. m \<in> set ms \<Longrightarrow> loaded m = Some k \<Longrightarrow> k < n"
    "\<And>m. m \<in> set ms \<Longrightarrow> me_counter m = refs hs ps ts m + e (me_id m)"
    "\<And>h. h \<in> set hs \<Longrightarrow> has_load ms (hc_snapper h) {hc_num1 h, hc_num2 h}"
    "\<And>p. p \<in> set ps \<Longrightarrow> has_meta ms (pd_meta p) (pd_snapper p) (pd_nums p)"
    "\<And>t. t \<in> set ts \<Longrightarrow> \<exists>k. has_meta ms (bt_meta t) k {bt_num1 t, bt_num2 t}"
  shows "fits n hs ps ts e ms"
  using assms unfolding fits_def by blast

lemma fits_ids: "fits n hs ps ts e ms \<Longrightarrow> m \<in> set ms \<Longrightarrow> m' \<in> set ms \<Longrightarrow> me_id m = me_id m' \<Longrightarrow> m = m'"
  using fitsD(1) [of n hs ps ts e ms] by (auto simp: distinct_map inj_on_def)

lemma fits_loads:
  assumes "fits n hs ps ts e ms" "m \<in> set ms" "m' \<in> set ms" "loaded m = Some k" "loaded m' = Some k"
  shows "m = m'"
  using fits_ids [OF assms(1-3)] fitsD(3) [OF assms] by blast

text \<open>Counters change by \<open>d\<close>, lists of snapshots grow.\<close>

lemma fits_map:
  assumes F: "fits n hs ps ts e ms"
    and g: "\<And>m. m \<in> set ms \<Longrightarrow> me_id (g m) = me_id m \<and> me_counter (g m) = me_counter m + d (me_id m)
      \<and> loaded (g m) = loaded m \<and> nums m \<subseteq> nums (g m)"
  shows "fits n hs ps ts (\<lambda>x. e x + d x) (map g ms)"
proof -
  have r: "refs hs ps ts (g m) = refs hs ps ts m" if "m \<in> set ms" for m
    using g [OF that] by (simp add: refs_def)
  have l: "has_load ms k N \<Longrightarrow> has_load (map g ms) k N" for k N
    unfolding has_load_def using g by fastforce
  have m: "has_meta ms i k N \<Longrightarrow> has_meta (map g ms) i k N" for i k N
    unfolding has_meta_def using g by fastforce
  have i: "map me_id (map g ms) = map me_id ms" using g by simp
  show ?thesis
  proof (rule fitsI)
    show "distinct (map me_id (map g ms))" unfolding i by (rule fitsD(1) [OF F])
    show "\<exists>k. has_meta (map g ms) (bt_meta t) k {bt_num1 t, bt_num2 t}" if "t \<in> set ts" for t
      using fitsD(8) [OF F that] m by blast
    show "has_load (map g ms) (hc_snapper h) {hc_num1 h, hc_num2 h}" if "h \<in> set hs" for h
      using fitsD(6) [OF F that] l by blast
    show "has_meta (map g ms) (pd_meta p) (pd_snapper p) (pd_nums p)" if "p \<in> set ps" for p
      using fitsD(7) [OF F that] m by blast
  next
    fix y y' k assume a: "y \<in> set (map g ms)" "y' \<in> set (map g ms)" "loaded y = Some k" "loaded y' = Some k"
    then obtain m m' where mm: "m \<in> set ms" "m' \<in> set ms" "y = g m" "y' = g m'" by auto
    then have "me_id m = me_id m'" using g a fitsD(3) [OF F mm(1,2), of k] by simp
    then show "me_id y = me_id y'" using g mm by simp
  next
    fix y k assume "y \<in> set (map g ms)" "loaded y = Some k"
    then obtain m where "m \<in> set ms" "loaded (g m) = Some k" by auto
    then show "k < n" using g fitsD(4) [OF F] by simp
  next
    fix y assume "y \<in> set (map g ms)"
    then obtain m where m: "m \<in> set ms" "y = g m" by auto
    show "me_id y < n" "me_counter y = refs hs ps ts y + (e (me_id y) + d (me_id y))"
      using fitsD(2,5) [OF F m(1)] g [OF m(1)] r [OF m(1)] m(2) by simp_all
  qed
qed

text \<open>A configuration that is not loaded gets a new \<open>Snapper\<close>.\<close>

lemma fits_load:
  assumes F: "fits n hs ps ts e ms"
    and g: "\<And>m. m \<in> set ms \<Longrightarrow> me_id (g m) = me_id m \<and> me_counter (g m) = me_counter m"
    and new: "\<And>m. m \<in> set ms \<Longrightarrow> me_id m = i \<Longrightarrow> loaded m = None \<and> loaded (g m) = Some n"
    and old: "\<And>m. m \<in> set ms \<Longrightarrow> me_id m \<noteq> i \<Longrightarrow> g m = m"
  shows "fits (Suc n) hs ps ts e (map g ms)"
proof -
  have noref: "hc_snapper h \<noteq> n" if h: "h \<in> set hs" for h
  proof -
    obtain m where "m \<in> set ms" "loaded m = Some (hc_snapper h)"
      using fitsD(6) [OF F h] unfolding has_load_def by blast
    then show ?thesis using fitsD(4) [OF F] by blast
  qed
  have r: "refs hs ps ts (g m) = refs hs ps ts m" if "m \<in> set ms" for m
  proof (cases "me_id m = i")
    case True
    then have "filter (\<lambda>h. loaded (g m) = Some (hc_snapper h)) hs = []"
      "filter (\<lambda>h. loaded m = Some (hc_snapper h)) hs = []"
      using new [OF that True] noref by (auto simp: filter_empty_conv)
    then show ?thesis using g [OF that] by (simp add: refs_def)
  qed (use old [OF that] in simp)
  have l: "has_load ms k N \<Longrightarrow> has_load (map g ms) k N" for k N
    unfolding has_load_def using new old by (metis (no_types, lifting) image_eqI list.set_map option.distinct(1))
  have m: "has_meta ms j k N \<Longrightarrow> has_meta (map g ms) j k N" for j k N
    unfolding has_meta_def using new old by (metis (no_types, lifting) image_eqI list.set_map option.distinct(1))
  have id: "map me_id (map g ms) = map me_id ms" using g by simp
  have cases: "m \<in> set ms \<Longrightarrow> loaded (g m) = Some k \<Longrightarrow> (me_id m = i \<and> k = n) \<or> (me_id m \<noteq> i \<and> loaded m = Some k)" for m k
    using new old by (cases "me_id m = i") auto
  show ?thesis
  proof (rule fitsI)
    show "distinct (map me_id (map g ms))" unfolding id by (rule fitsD(1) [OF F])
    show "\<exists>k. has_meta (map g ms) (bt_meta t) k {bt_num1 t, bt_num2 t}" if "t \<in> set ts" for t
      using fitsD(8) [OF F that] m by blast
    show "has_load (map g ms) (hc_snapper h) {hc_num1 h, hc_num2 h}" if "h \<in> set hs" for h
      using fitsD(6) [OF F that] l by blast
    show "has_meta (map g ms) (pd_meta p) (pd_snapper p) (pd_nums p)" if "p \<in> set ps" for p
      using fitsD(7) [OF F that] m by blast
  next
    fix y y' k assume a: "y \<in> set (map g ms)" "y' \<in> set (map g ms)" "loaded y = Some k" "loaded y' = Some k"
    then obtain m m' where mm: "m \<in> set ms" "m' \<in> set ms" "y = g m" "y' = g m'" by auto
    have "me_id m = me_id m'"
      using cases [OF mm(1), of k] cases [OF mm(2), of k] a(3,4) mm fitsD(3) [OF F mm(1,2), of k]
        fitsD(4) [OF F mm(1), of k] fitsD(4) [OF F mm(2), of k] by auto
    then show "me_id y = me_id y'" using g mm by simp
  next
    fix y k assume "y \<in> set (map g ms)" "loaded y = Some k"
    then obtain m where m: "m \<in> set ms" "loaded (g m) = Some k" by auto
    show "k < Suc n" using cases [OF m] fitsD(4) [OF F m(1), of k] by auto
  next
    fix y assume "y \<in> set (map g ms)"
    then obtain m where m: "m \<in> set ms" "y = g m" by auto
    show "me_id y < Suc n" "me_counter y = refs hs ps ts y + e (me_id y)"
      using fitsD(2,5) [OF F m(1)] g [OF m(1)] r [OF m(1)] m(2) by simp_all
  qed
qed

text \<open>A configuration nobody refers to can change its \<open>Snapper\<close> as it likes, or go.\<close>

definition unreferenced :: "held_comparison list \<Rightarrow> pending list \<Rightarrow> btask list \<Rightarrow> meta \<Rightarrow> bool" where
  "unreferenced hs ps ts m \<longleftrightarrow> (\<forall>h\<in>set hs. loaded m \<noteq> Some (hc_snapper h))
     \<and> (\<forall>p\<in>set ps. pd_meta p \<noteq> me_id m) \<and> (\<forall>t\<in>set ts. bt_meta t \<noteq> me_id m)"

lemma refs_zero: "refs hs ps ts m = 0 \<longleftrightarrow> unreferenced hs ps ts m"
proof -
  have "refs hs ps ts m = 0 \<longleftrightarrow> filter (\<lambda>h. loaded m = Some (hc_snapper h)) hs = []
      \<and> filter (\<lambda>p. pd_meta p = me_id m) ps = [] \<and> filter (\<lambda>t. bt_meta t = me_id m) ts = []"
    by (simp add: refs_def del: of_nat_add)
  then show ?thesis by (auto simp: unreferenced_def filter_empty_conv)
qed

lemma fits_change:
  assumes F: "fits n hs ps ts e ms"
    and free: "\<And>m. m \<in> set ms \<Longrightarrow> me_id m = i \<Longrightarrow> unreferenced hs ps ts m"
    and g: "\<And>m. m \<in> set ms \<Longrightarrow> me_id (g m) = me_id m \<and> me_counter (g m) = me_counter m
      \<and> (loaded (g m) = None \<or> loaded (g m) = loaded m)"
    and old: "\<And>m. m \<in> set ms \<Longrightarrow> me_id m \<noteq> i \<Longrightarrow> g m = m"
  shows "fits n hs ps ts e (map g ms)"
proof -
  have r: "refs hs ps ts (g m) = refs hs ps ts m" if "m \<in> set ms" for m
  proof (cases "me_id m = i")
    case True
    have "refs hs ps ts m = 0" using free [OF that True] refs_zero by simp
    moreover have "refs hs ps ts (g m) = 0"
      using free [OF that True] g [OF that] unfolding refs_zero unreferenced_def by (metis option.distinct(1))
    ultimately show ?thesis by simp
  qed (use old [OF that] in simp)
  have l: "has_load (map g ms) (hc_snapper h) N" if "has_load ms (hc_snapper h) N" "h \<in> set hs" for h N
  proof -
    obtain m where m: "m \<in> set ms" "loaded m = Some (hc_snapper h)" "N \<subseteq> nums m"
      using \<open>has_load ms (hc_snapper h) N\<close> unfolding has_load_def by blast
    then have "me_id m \<noteq> i" using free that(2) unfolding unreferenced_def by blast
    then show ?thesis using m old unfolding has_load_def by force
  qed
  have m: "has_meta (map g ms) j k N" if "has_meta ms j k N" "j \<noteq> i" for j k N
    using that old unfolding has_meta_def by force
  have p: "pd_meta p \<noteq> i" if "p \<in> set ps" for p
    using fitsD(7) [OF F that] free that unfolding has_meta_def unreferenced_def by metis
  have t: "bt_meta t \<noteq> i" if "t \<in> set ts" for t
    using fitsD(8) [OF F that] free that unfolding has_meta_def unreferenced_def by metis
  have id: "map me_id (map g ms) = map me_id ms" using g by simp
  have sub: "loaded (g m) = Some k \<Longrightarrow> loaded m = Some k" if "m \<in> set ms" for m k
    using g [OF that] by auto
  show ?thesis
  proof (rule fitsI)
    show "distinct (map me_id (map g ms))" unfolding id by (rule fitsD(1) [OF F])
    show "\<exists>k. has_meta (map g ms) (bt_meta t') k {bt_num1 t', bt_num2 t'}" if "t' \<in> set ts" for t'
      using fitsD(8) [OF F that] m t [OF that] by blast
    show "has_load (map g ms) (hc_snapper h) {hc_num1 h, hc_num2 h}" if "h \<in> set hs" for h
      using fitsD(6) [OF F that] l that by blast
    show "has_meta (map g ms) (pd_meta q) (pd_snapper q) (pd_nums q)" if "q \<in> set ps" for q
      using fitsD(7) [OF F that] m p [OF that] by blast
  next
    fix y y' k assume a: "y \<in> set (map g ms)" "y' \<in> set (map g ms)" "loaded y = Some k" "loaded y' = Some k"
    then obtain m m' where mm: "m \<in> set ms" "m' \<in> set ms" "y = g m" "y' = g m'" by auto
    then have "me_id m = me_id m'" using sub a fitsD(3) [OF F mm(1,2), of k] by blast
    then show "me_id y = me_id y'" using g mm by simp
  next
    fix y k assume "y \<in> set (map g ms)" "loaded y = Some k"
    then obtain m where "m \<in> set ms" "loaded (g m) = Some k" by auto
    then show "k < n" using sub fitsD(4) [OF F] by blast
  qed (use fitsD(2,5) [OF F] g r in auto)
qed

text \<open>Other references, counted by another excess.\<close>

lemma fits_refs:
  assumes F: "fits n hs ps ts e ms"
    and "\<And>m. m \<in> set ms \<Longrightarrow> refs hs' ps' ts' m + e' (me_id m) = refs hs ps ts m + e (me_id m)"
    and "\<And>h. h \<in> set hs' \<Longrightarrow> h \<in> set hs \<or> has_load ms (hc_snapper h) {hc_num1 h, hc_num2 h}"
    and "\<And>p. p \<in> set ps' \<Longrightarrow> p \<in> set ps \<or> has_meta ms (pd_meta p) (pd_snapper p) (pd_nums p)"
    and "\<And>t. t \<in> set ts' \<Longrightarrow> t \<in> set ts \<or> (\<exists>k. has_meta ms (bt_meta t) k {bt_num1 t, bt_num2 t})"
  shows "fits n hs' ps' ts' e' ms"
proof (rule fitsI)
  show "distinct (map me_id ms)" by (rule fitsD(1) [OF F])
  show "has_load ms (hc_snapper h) {hc_num1 h, hc_num2 h}" if "h \<in> set hs'" for h
    using assms(3) [OF that] fitsD(6) [OF F] by blast
  show "has_meta ms (pd_meta p) (pd_snapper p) (pd_nums p)" if "p \<in> set ps'" for p
    using assms(4) [OF that] fitsD(7) [OF F] by blast
  show "\<exists>k. has_meta ms (bt_meta t) k {bt_num1 t, bt_num2 t}" if "t \<in> set ts'" for t
    using assms(5) [OF that] fitsD(8) [OF F] by blast
  show "me_counter m = refs hs' ps' ts' m + e' (me_id m)" if "m \<in> set ms" for m
    using fitsD(5) [OF F that] assms(2) [OF that] by simp
qed (use fitsD(2,3,4) [OF F] in blast)+

lemma fits_remove:
  assumes F: "fits n hs ps ts e ms" and free: "\<And>m. m \<in> set ms \<Longrightarrow> me_id m = i \<Longrightarrow> unreferenced hs ps ts m"
  shows "fits n hs ps ts e (filter (\<lambda>m. me_id m \<noteq> i) ms)"
proof -
  have p: "pd_meta p \<noteq> i" if "p \<in> set ps" for p
    using fitsD(7) [OF F that] free that unfolding has_meta_def unreferenced_def by metis
  have t: "bt_meta t \<noteq> i" if "t \<in> set ts" for t
    using fitsD(8) [OF F that] free that unfolding has_meta_def unreferenced_def by metis
  show ?thesis
  proof (rule fitsI)
  show "distinct (map me_id (filter (\<lambda>m. me_id m \<noteq> i) ms))"
    using fitsD(1) [OF F] by (rule distinct_map_filter)
  show "has_load (filter (\<lambda>m. me_id m \<noteq> i) ms) (hc_snapper h) {hc_num1 h, hc_num2 h}" if "h \<in> set hs" for h
    using fitsD(6) [OF F that] free that unfolding has_load_def unreferenced_def by auto
  show "has_meta (filter (\<lambda>m. me_id m \<noteq> i) ms) (pd_meta p) (pd_snapper p) (pd_nums p)" if "p \<in> set ps" for p
    using fitsD(7) [OF F that] p [OF that] unfolding has_meta_def by auto
  show "\<exists>k. has_meta (filter (\<lambda>m. me_id m \<noteq> i) ms) (bt_meta t) k {bt_num1 t, bt_num2 t}" if t_in: "t \<in> set ts" for t
  proof -
    obtain k where "has_meta ms (bt_meta t) k {bt_num1 t, bt_num2 t}" using fitsD(8) [OF F t_in] by blast
    then have "has_meta (filter (\<lambda>m. me_id m \<noteq> i) ms) (bt_meta t) k {bt_num1 t, bt_num2 t}"
      using t [OF t_in] unfolding has_meta_def by auto
    then show ?thesis by blast
  qed
    show "me_id x = me_id y" if "x \<in> set (filter (\<lambda>m. me_id m \<noteq> i) ms)" "y \<in> set (filter (\<lambda>m. me_id m \<noteq> i) ms)"
      "loaded x = Some k" "loaded y = Some k" for x y k
      using that fitsD(3) [OF F, of x y k] by simp
  qed (use fitsD(2,4,5) [OF F] in auto)
qed

lemma fits_add:
  assumes F: "fits n hs ps ts (\<lambda>_. 0) ms" and m: "me_id m = n" "me_counter m = 0" "me_snapper m = None"
  shows "fits (Suc n) hs ps ts (\<lambda>_. 0) (ms @ [m])"
proof -
  have l: "has_load ms k N \<Longrightarrow> has_load (ms @ [m]) k N" for k N by (auto simp: has_load_def)
  have h: "has_meta ms j k N \<Longrightarrow> has_meta (ms @ [m]) j k N \<and> j \<noteq> n" for j k N
    using fitsD(2) [OF F] by (auto simp: has_meta_def)
  have "unreferenced hs ps ts m"
    using h fitsD(7,8) [OF F] m unfolding unreferenced_def loaded_def by fastforce
  then have r: "refs hs ps ts m = 0" using refs_zero by blast
  have none: "loaded m = None" using m by (simp add: loaded_def)
  show ?thesis
  proof (rule fitsI)
    have "n \<notin> me_id ` set ms" using fitsD(2) [OF F] less_irrefl by blast
    then show "distinct (map me_id (ms @ [m]))" using fitsD(1) [OF F] m by simp
    show "\<exists>k. has_meta (ms @ [m]) (bt_meta t) k {bt_num1 t, bt_num2 t}" if "t \<in> set ts" for t
      using fitsD(8) [OF F that] h by blast
    show "me_id x < Suc n" if "x \<in> set (ms @ [m])" for x
      using that fitsD(2) [OF F] m by (auto intro: less_SucI)
    show "k < Suc n" if "x \<in> set (ms @ [m])" "loaded x = Some k" for x k
      using that fitsD(4) [OF F] none by (auto intro: less_SucI)
    show "has_load (ms @ [m]) (hc_snapper h) {hc_num1 h, hc_num2 h}" if "h \<in> set hs" for h
      using fitsD(6) [OF F that] l by blast
    show "has_meta (ms @ [m]) (pd_meta p) (pd_snapper p) (pd_nums p)" if "p \<in> set ps" for p
      using fitsD(7) [OF F that] h by blast
    show "me_counter x = refs hs ps ts x + 0" if "x \<in> set (ms @ [m])" for x
      using that fitsD(5) [OF F] r m by auto
  next
    fix x y k assume a: "x \<in> set (ms @ [m])" "y \<in> set (ms @ [m])" "loaded x = Some k" "loaded y = Some k"
    then have "x \<in> set ms" "y \<in> set ms" using none by auto
    then show "me_id x = me_id y" using a(3,4) fitsD(3) [OF F] by blast
  qed
qed

end
