(* ===== verification/ServerKeeps.thy ===== *)
theory ServerKeeps
  imports ServerInvariant
begin

text \<open>
  The operations of the server preserve the invariant: first the operations on a list of snapshots
  that lose none of its numbers (all but deletion), then the operations on the state of the server,
  then its requests and events.
\<close>

subsection \<open>Operations that lose no snapshot\<close>

definition grows :: "(sstate, 'a) step \<Rightarrow> bool" where
  "grows m \<longleftrightarrow> (\<forall>N. keeps (\<lambda>st. N \<subseteq> sn_num ` set (entries st)) m)"

lemma growsI: "(\<And>st. sn_num ` set (entries st) \<subseteq> sn_num ` set (entries (snd (m st)))) \<Longrightarrow> grows m"
  unfolding grows_def keeps_def by blast

lemma growsD: "grows m \<Longrightarrow> m st = (r, st') \<Longrightarrow> sn_num ` set (entries st) \<subseteq> sn_num ` set (entries st')"
  unfolding grows_def keeps_def by (metis order_refl snd_conv)

lemma grows_basic [keeps]:
  "grows (retS a)" "grows (throwS e)" "grows (getS g)" "grows (liftS r)" "grows (throw_ifS b e)" "grows (onW m)"
proof -
  show "grows (onW m)" by (intro growsI) (simp add: onW_def split: prod.split)
qed (auto simp: grows_def keeps_basic)

lemma grows_bind [keeps]: "grows m \<Longrightarrow> (\<And>a. grows (f a)) \<Longrightarrow> grows (bindS m f)"
  unfolding grows_def by (blast intro: keeps_bind)

lemma grows_catch [keeps]: "grows m \<Longrightarrow> (\<And>e. grows (h e)) \<Longrightarrow> grows (catchS m h)"
  unfolding grows_def by (blast intro: keeps_catch)

lemma grows_when [keeps]: "(b \<Longrightarrow> grows m) \<Longrightarrow> grows (whenS b m)"
  unfolding grows_def by (blast intro: keeps_when)

lemma grows_if [keeps]: "(b \<Longrightarrow> grows m) \<Longrightarrow> (\<not> b \<Longrightarrow> grows n) \<Longrightarrow> grows (if b then m else n)"
  by simp

lemma grows_option [keeps]:
  "(x = None \<Longrightarrow> grows m) \<Longrightarrow> (\<And>a. x = Some a \<Longrightarrow> grows (f a)) \<Longrightarrow> grows (case x of None \<Rightarrow> m | Some a \<Rightarrow> f a)"
  by (auto split: option.splits)

lemma grows_append [keeps]: "grows (modifyS (\<lambda>st. st\<lparr>entries := entries st @ xs\<rparr>))"
  by (intro growsI) auto

lemma nums_update: "sn_num s = sn_num (es ! i) \<Longrightarrow> sn_num ` set (es[i := s]) = sn_num ` set es"
proof -
  assume s: "sn_num s = sn_num (es ! i)"
  have "map sn_num (es[i := s]) = map sn_num es"
    using s by (cases "i < length es") (auto simp: map_update list_update_beyond intro!: list_update_same_conv [THEN iffD2])
  then show ?thesis by (metis list.set_map)
qed

lemma grows_set_entry: "(\<And>s s'. f s = Inr s' \<Longrightarrow> sn_num s' = sn_num s) \<Longrightarrow> grows (set_entry i f)"
  by (intro growsI) (auto simp: set_entry_def nums_update split: sum.split)

lemma setter_num:
  "setUid u s = Inr s' \<Longrightarrow> sn_num s' = sn_num s" "setDescription d s = Inr s' \<Longrightarrow> sn_num s' = sn_num s"
  "setCleanup d s = Inr s' \<Longrightarrow> sn_num s' = sn_num s" "setUserdata m s = Inr s' \<Longrightarrow> sn_num s' = sn_num s"
  by (auto simp: setUid_def setDescription_def setCleanup_def setUserdata_def split: if_splits)

lemma flushInfo_num: "flushInfo X s w = (Inr s', w') \<Longrightarrow> sn_num s' = sn_num s"
  by (auto simp: flushInfo_def bindS_Inr split: if_splits)

lemma grows_flush_entry [keeps]: "grows (flush_entry X i)"
proof (rule growsI)
  fix st :: sstate
  obtain r w where f: "flushInfo X (entries st ! i) (disk st) = (r, w)" by fastforce
  show "sn_num ` set (entries st) \<subseteq> sn_num ` set (entries (snd (flush_entry X i st)))"
  proof (cases r)
    case (Inr s)
    then show ?thesis using f flushInfo_num [of X "entries st ! i" "disk st" s w]
      by (simp add: flush_entry_def onW_def nums_update)
  qed (use f in \<open>simp add: flush_entry_def onW_def\<close>)
qed

lemma grows_finish [keeps]: "grows (finish_snapshot E me cleanup userdata i)"
  unfolding finish_snapshot_def by (intro keeps grows_set_entry setter_num)

lemma grows_create [keeps]:
  "grows (createSingleSnapshot X fs d)" "grows (createPreSnapshot X fs d)" "grows (createPostSnapshot X fs d i)"
proof -
  have "grows (createTyped X fs ty pre d)" for ty pre
    unfolding createTyped_def createHelper_def nextNumber_def cleanup_info_def by (intro keeps)
  then show "grows (createSingleSnapshot X fs d)" "grows (createPreSnapshot X fs d)" "grows (createPostSnapshot X fs d i)"
    unfolding createSingleSnapshot_def createPreSnapshot_def createPostSnapshot_def by (intro keeps | assumption)+
qed

lemma mount_num:
  "mountFilesystemSnapshot fs u s w = ((r, s'), w') \<Longrightarrow> sn_num s' = sn_num s"
  "umountFilesystemSnapshot fs u s w = ((r, s'), w') \<Longrightarrow> sn_num s' = sn_num s"
  by (auto simp: mountFilesystemSnapshot_def umountFilesystemSnapshot_def mount_check_def bindS_def Let_def
      split: if_splits prod.splits sum.splits)

lemma grows_mountAt [keeps]: "grows (mountAt fs u i)" "grows (umountAt fs u i)"
proof -
  show "grows (mountAt fs u i)"
    by (intro growsI) (auto simp: mountAt_def mount_num(1) nums_update split: prod.split)
  show "grows (umountAt fs u i)"
    by (intro growsI) (auto simp: umountAt_def mount_num(2) nums_update split: prod.split)
qed

lemma grows_comparison_new [keeps]: "grows (comparison_new fs cmp sub ign i j)"
  unfolding comparison_new_def comparison_initialize_def comparison_create_def comparison_mount_def
    comparison_umount_def Let_def
  by (intro keeps)

text \<open>A comparison that was made is one of two snapshots that exist.\<close>

lemma comparison_new_Inr:
  "comparison_new fs cmp sub ign i j st = (Inr c, st') \<Longrightarrow> i \<noteq> length (entries st) \<and> j \<noteq> length (entries st)"
  by (auto simp: comparison_new_def split: if_splits)

subsection \<open>Operations on the state\<close>

text \<open>What the invariant sees of the clients, and a client that has no comparison in progress.\<close>

definition clients_core :: "server \<Rightarrow> (string \<times> held_comparison list \<times> pending option) list" where
  "clients_core s = map (\<lambda>c. (cl_name c, cl_comparisons c, cl_pending c)) (sv_clients s)"

definition idle :: "string \<Rightarrow> server \<Rightarrow> bool" where
  "idle me s \<longleftrightarrow> (\<exists>cs. (me, cs, None) \<in> set (clients_core s))"

definition okc :: "held_comparison list \<Rightarrow> (nat \<Rightarrow> int) \<Rightarrow> string \<Rightarrow> server \<Rightarrow> bool" where
  "okc hs e me s \<longleftrightarrow> okx hs e s \<and> idle me s"

lemma core_facts:
  "held s = concat (map (\<lambda>(n, cs, p). cs) (clients_core s))"
  "pendings s = List.map_filter (\<lambda>(n, cs, p). p) (clients_core s)"
  "map cl_name (sv_clients s) = map fst (clients_core s)"
  by (simp_all add: held_def pendings_def clients_core_def comp_def map_filter_map)

lemma okx_core:
  "okx hs e s \<longleftrightarrow> fits (sv_next_id s) (hs @ concat (map (\<lambda>(n, cs, p). cs) (clients_core s)))
     (List.map_filter (\<lambda>(n, cs, p). p) (clients_core s) @ working (background s)) (counted (background s)) e (sv_metas s)
     \<and> distinct (map fst (clients_core s)) \<and> worker_ok (background s)"
  unfolding okx_def core_facts ..

lemma okx_cong:
  assumes "sv_metas s' = sv_metas s" "background s' = background s" "sv_next_id s' = sv_next_id s" "clients_core s' = clients_core s"
  shows "okx hs e s' = okx hs e s" "okc hs e me s' = okc hs e me s"
  using assms by (simp_all add: okc_def okx_core idle_def)

lemma okx_map:
  assumes "okx hs e s"
    and "\<And>m. m \<in> set (sv_metas s) \<Longrightarrow> me_id (g m) = me_id m \<and> me_counter (g m) = me_counter m + d (me_id m)
      \<and> loaded (g m) = loaded m \<and> nums m \<subseteq> nums (g m)"
    and "sv_metas s' = map g (sv_metas s)" "background s' = background s" "sv_next_id s' = sv_next_id s"
      "clients_core s' = clients_core s"
  shows "okx hs (\<lambda>x. e x + d x) s'"
  using assms fits_map [of "sv_next_id s" _ _ "counted (background s)" e "sv_metas s" g d] by (simp add: okx_core)

lemma meta_of_eq: "okx hs e s \<Longrightarrow> m \<in> set (sv_metas s) \<Longrightarrow> me_id m = i \<Longrightarrow> meta_of s i = m"
proof -
  assume a: "okx hs e s" "m \<in> set (sv_metas s)" "me_id m = i"
  then have "m' = m" if "m' \<in> set (filter (\<lambda>m. me_id m = i) (sv_metas s))" for m'
    using that fits_ids unfolding okx_def by auto
  moreover have "filter (\<lambda>m. me_id m = i) (sv_metas s) \<noteq> []" using a by (auto simp: filter_empty_conv)
  ultimately show ?thesis unfolding meta_of_def by (metis hd_in_set)
qed

lemma core_simps [simp]:
  "clients_core (upd_meta i f s) = clients_core s" "background (upd_meta i f s) = background s"
  "sv_next_id (upd_meta i f s) = sv_next_id s" "sv_clients (upd_meta i f s) = sv_clients s"
  "sv_tasks (upd_meta i f s) = sv_tasks s" "sv_worker (upd_meta i f s) = sv_worker s"
  "sv_metas (upd_client n h s) = sv_metas s" "sv_tasks (upd_client n h s) = sv_tasks s" "background (upd_client n h s) = background s"
  "background (s\<lparr>sv_metas := ms\<rparr>) = background s" "background (s\<lparr>sv_etc := x\<rparr>) = background s"
  "background (s\<lparr>sv_next_id := k\<rparr>) = background s" "background (s\<lparr>sv_out := os\<rparr>) = background s"
  "background (s\<lparr>sv_clients := cs\<rparr>) = background s" "background (s\<lparr>sv_now := t\<rparr>) = background s"
  "background (s\<lparr>sv_idle_timeout := t\<rparr>) = background s" "clients_core (s\<lparr>sv_worker := w\<rparr>) = clients_core s"
  "sv_next_id (upd_client n h s) = sv_next_id s"
  "clients_core (s\<lparr>sv_metas := ms\<rparr>) = clients_core s" "clients_core (s\<lparr>sv_etc := x\<rparr>) = clients_core s"
  "clients_core (s\<lparr>sv_next_id := k\<rparr>) = clients_core s" "clients_core (s\<lparr>sv_out := os\<rparr>) = clients_core s"
  "clients_core (s\<lparr>sv_tasks := ts\<rparr>) = clients_core s" "clients_core (s\<lparr>sv_now := t\<rparr>) = clients_core s"
  "clients_core (s\<lparr>sv_idle_timeout := t\<rparr>) = clients_core s"
  by (simp_all add: clients_core_def upd_meta_def upd_client_def background_def)

text \<open>Steps that change nothing the invariant depends on.\<close>

definition silent :: "(server, 'a) step \<Rightarrow> bool" where
  "silent m \<longleftrightarrow> (\<forall>s. let s' = snd (m s) in sv_metas s' = sv_metas s \<and> background s' = background s
     \<and> sv_next_id s' = sv_next_id s \<and> clients_core s' = clients_core s)"

lemma silentD:
  assumes "silent m"
  shows "sv_metas (snd (m s)) = sv_metas s" "background (snd (m s)) = background s"
    "sv_next_id (snd (m s)) = sv_next_id s" "clients_core (snd (m s)) = clients_core s"
  using assms unfolding silent_def Let_def by blast+

lemma silent_keeps:
  assumes "silent m"
  shows "keeps (okc hs e me) m" "keeps (okx hs e) m"
proof -
  have "okx hs e (snd (m s)) = okx hs e s \<and> okc hs e me (snd (m s)) = okc hs e me s" for s
    using okx_cong [of "snd (m s)" s] silentD [OF assms, of s] by blast
  then show "keeps (okc hs e me) m" "keeps (okx hs e) m" by (simp_all add: keeps_def)
qed

lemma silent_emit: "silent (emit x)" "silent (reply me r)"
  by (simp_all add: silent_def emit_def reply_def)

lemma silent_onEtc: "silent (onEtc m)"
  by (simp add: silent_def onEtc_def split: prod.split)

lemma silent_upd_client:
  "(\<And>c. cl_name (f c) = cl_name c \<and> cl_comparisons (f c) = cl_comparisons c \<and> cl_pending (f c) = cl_pending c) \<Longrightarrow>
     silent (modifyS (upd_client n f))"
  by (auto simp: silent_def clients_core_def upd_client_def)

lemma silent_locks: "silent (modifyS (upd_client n (add_lock x)))" "silent (modifyS (upd_client n (remove_lock x)))"
  "silent (modifyS (upd_client n (add_mount x i)))" "silent (modifyS (upd_client n (remove_mount x i)))"
  by (intro silent_upd_client, simp add: add_lock_def remove_lock_def add_mount_def remove_mount_def Let_def
      split: option.split)+

lemma silent_basic: "silent (retS a)" "silent (throwS e)" "silent (getS g)" "silent (liftS r)" "silent (throw_ifS b e)"
  by (simp_all add: silent_def throw_ifS_def)

lemma silent_bind: "silent m \<Longrightarrow> (\<And>a. silent (f a)) \<Longrightarrow> silent (bindS m f)"
  unfolding silent_def bindS_def Let_def by (simp split: prod.split sum.split) (metis snd_conv)

lemma silent_option:
  "silent m \<Longrightarrow> (\<And>a. silent (f a)) \<Longrightarrow> silent (case x of None \<Rightarrow> m | Some a \<Rightarrow> f a)"
  "silent m \<Longrightarrow> silent n \<Longrightarrow> silent (if b then m else n)"
  by (simp_all split: option.split)

lemma silent_finds: "silent (find_meta c)" "silent (find_snapshot i n)" "silent (check_root E me)" "silent (check_permission E me i)"
  "silent (check_lock me c)" "silent (check_config_in_use i)" "silent (check_snapshot_in_use i n)"
  unfolding find_meta_def find_snapshot_def check_root_def check_permission_def check_lock_def
    check_config_in_use_def check_snapshot_in_use_def Let_def
  by (intro silent_basic silent_bind silent_option)+

lemmas silents = silent_emit silent_onEtc silent_locks silent_finds

lemmas keeps_silent [keeps] = silents [THEN silent_keeps(1)]

lemma okc_keeps:
  assumes "keeps (okx hs e) m" "\<And>s. clients_core (snd (m s)) = clients_core s"
  shows "keeps (okc hs e me) m"
  using assms by (simp add: keeps_def okc_def idle_def)

lemma okx_map0:
  assumes "okx hs e s"
    and "\<And>m. m \<in> set (sv_metas s) \<Longrightarrow> me_id (g m) = me_id m \<and> me_counter (g m) = me_counter m
      \<and> loaded (g m) = loaded m \<and> nums m \<subseteq> nums (g m)"
    and "sv_metas s' = map g (sv_metas s)" "background s' = background s" "sv_next_id s' = sv_next_id s"
      "clients_core s' = clients_core s"
  shows "okx hs e s'"
  using okx_map [OF assms(1), of g "\<lambda>_. 0" s'] assms(2-6) by simp

lemma okx_touch: "okx hs e s \<Longrightarrow> okx hs e (upd_meta i (\<lambda>m. m\<lparr>me_last_used := t\<rparr>) s)"
  by (rule okx_map0 [where g = "\<lambda>m. if me_id m = i then m\<lparr>me_last_used := t\<rparr> else m"])
    (auto simp: upd_meta_def loaded_def nums_def clients_core_def)

lemma okx_load:
  assumes "okx hs e s" "me_snapper (meta_of s i) = None"
  shows "okx hs e ((upd_meta i (\<lambda>m. m\<lparr>me_snapper := Some (sv_next_id s, sp)\<rparr>) s)\<lparr>sv_next_id := Suc (sv_next_id s)\<rparr>)"
proof -
  let ?g = "\<lambda>m. if me_id m = i then m\<lparr>me_snapper := Some (sv_next_id s, sp)\<rparr> else m"
  have "m \<in> set (sv_metas s) \<Longrightarrow> me_id m = i \<Longrightarrow> me_snapper m = None" for m
    using meta_of_eq [OF assms(1)] assms(2) by metis
  then have "fits (Suc (sv_next_id s)) (hs @ held s) (pendings s @ working (background s)) (counted (background s)) e (map ?g (sv_metas s))"
    using assms(1) by (intro fits_load [where i = i]) (auto simp: okx_def loaded_def)
  then show ?thesis using assms(1) by (simp add: okx_core core_facts upd_meta_def)
qed

lemma getSnapper_eq:
  "getSnapper E i s = (if me_snapper (meta_of s i) \<noteq> None
     then (Inr (), upd_meta i (\<lambda>m. m\<lparr>me_last_used := sv_now s\<rparr>) s)
     else (case onEtc (snapper_new (sysenv.truncate E) (ci_name (me_info (meta_of s i))) False) s of
         (Inl x, s1) \<Rightarrow> (Inl x, s1)
       | (Inr sp, s1) \<Rightarrow> (Inr (), upd_meta i (\<lambda>m. m\<lparr>me_last_used := sv_now s1\<rparr>)
           ((upd_meta i (\<lambda>m. m\<lparr>me_snapper := Some (sv_next_id s1, sp)\<rparr>) s1)\<lparr>sv_next_id := Suc (sv_next_id s1)\<rparr>))))"
proof -
  have now: "sv_now (upd_meta j f s1) = sv_now s1" for j f s1 by (simp add: upd_meta_def)
  show ?thesis by (simp add: getSnapper_def bindS_def now split: prod.split sum.split)
qed

lemma meta_of_cong: "sv_metas s' = sv_metas s \<Longrightarrow> meta_of s' i = meta_of s i"
  by (simp add: meta_of_def)

lemma onEtc_sv: "onEtc m s = (r, s') \<Longrightarrow> sv_metas s' = sv_metas s \<and> background s' = background s
    \<and> sv_next_id s' = sv_next_id s \<and> clients_core s' = clients_core s"
  using silentD [OF silent_onEtc, of m s] by simp

lemma getSnapper_cases:
  obtains (here) "me_snapper (meta_of s i) \<noteq> None"
      "getSnapper E i s = (Inr (), upd_meta i (\<lambda>m. m\<lparr>me_last_used := sv_now s\<rparr>) s)"
  | (fails) x s1 where "me_snapper (meta_of s i) = None" "okx hs e s1 = okx hs e s" "clients_core s1 = clients_core s"
      "sv_metas s1 = sv_metas s" "getSnapper E i s = (Inl x, s1)"
  | (loads) sp s1 where "me_snapper (meta_of s i) = None" "okx hs e s1 = okx hs e s" "clients_core s1 = clients_core s"
      "sv_metas s1 = sv_metas s"
      "getSnapper E i s = (Inr (), upd_meta i (\<lambda>m. m\<lparr>me_last_used := sv_now s1\<rparr>)
         ((upd_meta i (\<lambda>m. m\<lparr>me_snapper := Some (sv_next_id s1, sp)\<rparr>) s1)\<lparr>sv_next_id := Suc (sv_next_id s1)\<rparr>))"
proof (cases "me_snapper (meta_of s i)")
  case None
  obtain r s1 where o: "onEtc (snapper_new (sysenv.truncate E) (ci_name (me_info (meta_of s i))) False) s = (r, s1)"
    by fastforce
  have same: "okx hs e s1 = okx hs e s" "clients_core s1 = clients_core s" "sv_metas s1 = sv_metas s"
    using okx_cong(1) [of s1 s] onEtc_sv [OF o] by blast+
  show ?thesis
  proof (cases r)
    case (Inl x)
    then show ?thesis using fails [OF None same] o None by (simp add: getSnapper_eq)
  next
    case (Inr sp)
    then show ?thesis using loads [OF None same] o None by (simp add: getSnapper_eq)
  qed
next
  case (Some a)
  then show ?thesis using here by (simp add: getSnapper_eq)
qed

lemma keeps_getSnapper_okx: "keeps (okx hs e) (getSnapper E i)"
proof (rule keepsI)
  fix s assume ok: "okx hs e s"
  show "okx hs e (snd (getSnapper E i s))"
  proof (cases rule: getSnapper_cases [where s = s and i = i and E = E and hs = hs and e = e])
    case here
    then show ?thesis using okx_touch [OF ok] by simp
  next
    case (fails x s1)
    then show ?thesis using ok by simp
  next
    case (loads sp s1)
    have ok1: "okx hs e s1" using ok loads(2) by blast
    have "me_snapper (meta_of s1 i) = None" using meta_of_cong [OF loads(4)] loads(1) by metis
    then show ?thesis using okx_touch [OF okx_load [OF ok1]] loads(5) by simp
  qed
qed

lemma getSnapper_core: "clients_core (snd (getSnapper E i s)) = clients_core s"
  by (cases rule: getSnapper_cases [where s = s and i = i and E = E and hs = "[]" and e = "\<lambda>_. 0"]) simp_all

lemma keeps_getSnapper [keeps]: "keeps (okc hs e me) (getSnapper E i)"
  by (rule okc_keeps [OF keeps_getSnapper_okx getSnapper_core])

lemma onSnaps_cases:
  obtains "me_snapper (meta_of s i) = None" "onSnaps i f s = (Inl LogicErrorException, s)"
  | k sp r sp' x where "me_snapper (meta_of s i) = Some (k, sp)" "onSnapper sp (f sp) (sv_etc s) = ((r, sp'), x)"
      "onSnaps i f s = (r, (upd_meta i (\<lambda>m. m\<lparr>me_snapper := Some (k, sp')\<rparr>) s)\<lparr>sv_etc := x\<rparr>)"
proof (cases "me_snapper (meta_of s i)")
  case None
  then show ?thesis using that(1) by (simp add: onSnaps_def)
next
  case (Some a)
  obtain k sp where a: "a = (k, sp)" by fastforce
  obtain r sp' x where "onSnapper sp (f sp) (sv_etc s) = ((r, sp'), x)" by (metis surj_pair)
  then show ?thesis using that(2) Some a by (simp add: onSnaps_def)
qed

lemma onSnapper_grows:
  "grows f \<Longrightarrow> onSnapper sp f e = ((r, sp'), x) \<Longrightarrow> sn_num ` set (sp_snapshots sp) \<subseteq> sn_num ` set (sp_snapshots sp')"
  using growsD [of f "\<lparr>disk = ec_disks e (sp_subvolume sp), entries = sp_snapshots sp\<rparr>"]
  by (auto simp: onSnapper_def split: prod.splits)

lemma keeps_onSnaps_okx:
  assumes "\<And>sp. grows (f sp)"
  shows "keeps (okx hs e) (onSnaps i f)"
proof (rule keepsI)
  fix s assume ok: "okx hs e s"
  show "okx hs e (snd (onSnaps i f s))"
  proof (cases rule: onSnaps_cases [of s i f])
    case 1
    then show ?thesis using ok by simp
  next
    case (2 k sp r sp' x)
    let ?g = "\<lambda>m. if me_id m = i then m\<lparr>me_snapper := Some (k, sp')\<rparr> else m"
    have m: "m \<in> set (sv_metas s) \<Longrightarrow> me_id m = i \<Longrightarrow> me_snapper m = Some (k, sp)" for m
      using meta_of_eq [OF ok] 2(1) by metis
    have "okx hs e ((upd_meta i (\<lambda>m. m\<lparr>me_snapper := Some (k, sp')\<rparr>) s)\<lparr>sv_etc := x\<rparr>)"
      using m onSnapper_grows [OF assms 2(2)]
      by (intro okx_map0 [OF ok, of ?g]) (auto simp: upd_meta_def loaded_def nums_def clients_core_def)
    then show ?thesis using 2(3) by simp
  qed
qed

lemma onSnaps_core: "clients_core (snd (onSnaps i f s)) = clients_core s"
  by (cases rule: onSnaps_cases [of s i f]) simp_all

lemma keeps_onSnaps [keeps]: "(\<And>sp. grows (f sp)) \<Longrightarrow> keeps (okc hs e me) (onSnaps i f)"
  by (rule okc_keeps [OF keeps_onSnaps_okx onSnaps_core])

subsection \<open>Configurations that are not in use\<close>

abbreviation ok0 :: "string \<Rightarrow> server \<Rightarrow> bool" where
  "ok0 me s \<equiv> okc [] (\<lambda>_. 0) me s"

definition zero_use :: "nat \<Rightarrow> server \<Rightarrow> bool" where
  "zero_use i s \<longleftrightarrow> (\<forall>m\<in>set (sv_metas s). me_id m = i \<longrightarrow> me_counter m = 0)"

definition okz :: "nat \<Rightarrow> string \<Rightarrow> server \<Rightarrow> bool" where
  "okz i me s \<longleftrightarrow> ok0 me s \<and> zero_use i s"

lemma okz_unreferenced:
  assumes "okx [] (\<lambda>_. 0) s" "zero_use i s" "m \<in> set (sv_metas s)" "me_id m = i"
  shows "unreferenced (held s) (pendings s @ working (background s)) (counted (background s)) m"
proof -
  have "fits (sv_next_id s) (held s) (pendings s @ working (background s)) (counted (background s)) (\<lambda>_. 0) (sv_metas s)"
    using assms(1) by (simp add: okx_def)
  from fitsD(5) [OF this assms(3)] have "refs (held s) (pendings s @ working (background s)) (counted (background s)) m = 0"
    using assms(2-4) unfolding zero_use_def by auto
  then show ?thesis using refs_zero by blast
qed

lemma okx_change:
  assumes "okx [] (\<lambda>_. 0) s" "zero_use i s"
    and g: "\<And>m. m \<in> set (sv_metas s) \<Longrightarrow> me_id (g m) = me_id m \<and> me_counter (g m) = me_counter m
      \<and> (loaded (g m) = None \<or> loaded (g m) = loaded m)"
    and old: "\<And>m. m \<in> set (sv_metas s) \<Longrightarrow> me_id m \<noteq> i \<Longrightarrow> g m = m"
    and s': "sv_metas s' = map g (sv_metas s)" "background s' = background s" "sv_next_id s' = sv_next_id s"
      "clients_core s' = clients_core s"
  shows "okx [] (\<lambda>_. 0) s' \<and> zero_use i s'"
proof -
  have "fits (sv_next_id s) (held s) (pendings s @ working (background s)) (counted (background s)) (\<lambda>_. 0) (map g (sv_metas s))"
    using assms(1) okz_unreferenced [OF assms(1,2)] by (intro fits_change [OF _ _ g old]) (auto simp: okx_def)
  moreover have "zero_use i s'" using assms(2) g unfolding zero_use_def s' by auto
  ultimately show ?thesis using assms(1) s' by (simp add: okx_core core_facts)
qed

lemma keeps_okz:
  assumes "keeps (ok0 me) m" "\<And>s. okx [] (\<lambda>_. 0) s \<Longrightarrow> zero_use i s \<Longrightarrow> zero_use i (snd (m s))"
  shows "keeps (okz i me) m"
  using assms by (simp add: keeps_def okz_def okc_def)

lemma silent_okz: "silent m \<Longrightarrow> keeps (okz i me) m"
  by (rule keeps_okz [OF silent_keeps(1)]) (simp_all add: zero_use_def silentD(1))

lemmas keeps_silent_okz [keeps] = silents [THEN silent_okz]

lemma keeps_getSnapper_okz [keeps]: "keeps (okz i me) (getSnapper E j)"
proof (rule keeps_okz [OF keeps_getSnapper])
  fix s assume "zero_use i s"
  then show "zero_use i (snd (getSnapper E j s))"
    by (cases rule: getSnapper_cases [where s = s and i = j and E = E and hs = "[]" and e = "\<lambda>_. 0"])
      (auto simp: zero_use_def upd_meta_def)
qed

text \<open>A configuration that is not in use may lose snapshots.\<close>

lemma keeps_onSnaps_okz: "keeps (okz i me) (onSnaps i f)"
proof (rule keepsI)
  fix s assume a: "okz i me s"
  show "okz i me (snd (onSnaps i f s))"
  proof (cases rule: onSnaps_cases [of s i f])
    case 1
    then show ?thesis using a by simp
  next
    case (2 k sp r sp' x)
    let ?g = "\<lambda>m. if me_id m = i then m\<lparr>me_snapper := Some (k, sp')\<rparr> else m"
    have ok: "okx [] (\<lambda>_. 0) s" "zero_use i s" using a by (simp_all add: okz_def okc_def)
    have m: "m \<in> set (sv_metas s) \<Longrightarrow> me_id m = i \<Longrightarrow> me_snapper m = Some (k, sp)" for m
      using meta_of_eq [OF ok(1)] 2(1) by metis
    have "okx [] (\<lambda>_. 0) (snd (onSnaps i f s)) \<and> zero_use i (snd (onSnaps i f s))"
      using m 2(3) by (intro okx_change [OF ok, of ?g]) (auto simp: upd_meta_def loaded_def clients_core_def)
    then show ?thesis using a onSnaps_core [of i f s] by (simp add: okz_def okc_def idle_def)
  qed
qed

lemma keeps_delete_one [keeps]: "keeps (okz i me) (delete_one i num)"
  unfolding delete_one_def by (intro keeps keeps_onSnaps_okz)

lemma after_check_config_in_use:
  assumes "\<And>s. okz i me s \<Longrightarrow> ok0 me (snd (rest s))"
  shows "keeps (ok0 me) (thenS (check_config_in_use i) rest)"
proof (rule keepsI)
  fix s assume ok: "ok0 me s"
  show "ok0 me (snd (thenS (check_config_in_use i) rest s))"
  proof (cases "me_counter (meta_of s i) = 0")
    case True
    have "zero_use i s" using ok meta_of_eq True unfolding zero_use_def okc_def by metis
    then have "ok0 me (snd (rest s))" using assms ok by (simp add: okz_def)
    then show ?thesis using True by (simp add: check_config_in_use_def)
  next
    case False
    then show ?thesis using ok by (simp add: check_config_in_use_def bindS_def)
  qed
qed

text \<open>Unloading and removing a configuration.\<close>

lemma unload_okx: "okx [] (\<lambda>_. 0) s \<Longrightarrow> zero_use i s \<Longrightarrow> okx [] (\<lambda>_. 0) (snd (unload E i s))"
proof -
  assume ok: "okx [] (\<lambda>_. 0) s" and z: "zero_use i s"
  show ?thesis
  proof (cases "me_snapper (meta_of s i)")
    case None
    then show ?thesis using ok by (simp add: unload_def)
  next
    case (Some p)
    obtain k sp where p: "p = (k, sp)" by fastforce
    obtain r s1 where o: "onEtc (snapper_destroy (sysenv.truncate E) sp) s = (r, s1)" by fastforce
    have 1: "okx [] (\<lambda>_. 0) s1" "zero_use i s1"
      using keepsD [OF silent_keeps(2) [OF silent_onEtc] ok o] z onEtc_sv [OF o] by (simp_all add: zero_use_def)
    let ?s2 = "upd_meta i (\<lambda>m. m\<lparr>me_snapper := None\<rparr>) s1"
    have "okx [] (\<lambda>_. 0) ?s2 \<and> zero_use i ?s2"
      by (rule okx_change [OF 1, where g = "\<lambda>m. if me_id m = i then m\<lparr>me_snapper := None\<rparr> else m"])
        (auto simp: upd_meta_def loaded_def clients_core_def)
    then show ?thesis using Some p o 1 by (cases r) (simp_all add: unload_def)
  qed
qed

lemma remove_meta_ok:
  assumes "okz i me s"
  shows "ok0 me (s\<lparr>sv_metas := filter (\<lambda>m. me_id m \<noteq> i) (sv_metas s)\<rparr>)"
proof -
  have ok: "okx [] (\<lambda>_. 0) s" "zero_use i s" using assms by (simp_all add: okz_def okc_def)
  have "fits (sv_next_id s) (held s) (pendings s @ working (background s)) (counted (background s)) (\<lambda>_. 0) (filter (\<lambda>m. me_id m \<noteq> i) (sv_metas s))"
    using ok(1) okz_unreferenced [OF ok] by (intro fits_remove) (simp_all add: okx_def)
  then show ?thesis using assms by (simp add: okz_def okc_def okx_core core_facts idle_def)
qed

lemma delete_meta_ok: "okz i me s \<Longrightarrow> ok0 me (snd (metas_deleteConfig E i s))"
proof -
  assume a: "okz i me s"
  obtain r s1 where d: "onEtc (deleteConfig (sysenv.truncate E) (ci_name (me_info (meta_of s i)))) s = (r, s1)" by fastforce
  have 1: "okz i me s1" using keepsD [OF silent_okz [OF silent_onEtc] a d] .
  show ?thesis
  proof (cases r)
    case (Inl e)
    then show ?thesis using d 1 by (simp add: metas_deleteConfig_def okz_def)
  next
    case (Inr u)
    let ?d = "(case me_snapper (meta_of s1 i) of None \<Rightarrow> retS () | Some (k, sp) \<Rightarrow>
        onEtc (snapper_destroy (sysenv.truncate E) sp)) :: (server, unit) step"
    have "silent ?d" using silent_onEtc silent_basic(1) by (auto split: option.split prod.split)
    then have k: "keeps (okz i me) ?d" by (rule silent_okz)
    obtain r2 s2 where 2: "?d s1 = (r2, s2)" by fastforce
    have "okz i me s2" by (rule keepsD [OF k 1 2])
    then have "ok0 me s2 \<and> ok0 me (s2\<lparr>sv_metas := filter (\<lambda>m. me_id m \<noteq> i) (sv_metas s2)\<rparr>)"
      using remove_meta_ok by (auto simp: okz_def)
    then show ?thesis using d Inr 2 by (cases r2) (simp_all add: metas_deleteConfig_def)
  qed
qed

lemma keeps_add_meta_okx: "keeps (okx [] (\<lambda>_. 0)) (add_meta E info)"
proof (rule keepsI)
  fix s assume ok: "okx [] (\<lambda>_. 0) s"
  let ?m = "new_meta E (sv_next_id s) (sv_now s) info"
  have "fits (Suc (sv_next_id s)) (held s) (pendings s @ working (background s)) (counted (background s)) (\<lambda>_. 0) (sv_metas s @ [?m])"
    using ok by (intro fits_add) (simp_all add: okx_def new_meta_def)
  then show "okx [] (\<lambda>_. 0) (snd (add_meta E info s))"
    using ok by (simp add: add_meta_def okx_core core_facts)
qed

lemma keeps_add_meta [keeps]: "keeps (ok0 me) (add_meta E info)"
  by (rule okc_keeps [OF keeps_add_meta_okx]) (simp add: add_meta_def clients_core_def)

lemma keeps_createConfig [keeps]: "keeps (ok0 me) (metas_createConfig E c d t n)"
  unfolding metas_createConfig_def by (intro keeps)

subsection \<open>Uses of a configuration\<close>

text \<open>An iterator to a configuration whose \<open>Snapper\<close> is loaded.\<close>

definition present :: "nat \<Rightarrow> nat \<Rightarrow> u32 set \<Rightarrow> server \<Rightarrow> bool" where
  "present i k N s \<longleftrightarrow> has_meta (sv_metas s) i k N"

lemma okx_inc: "okx hs e s \<Longrightarrow> okx hs (\<lambda>x. e x + (if x = i then 1 else 0)) (upd_meta i inc_count s)"
  by (rule okx_map [where g = "\<lambda>m. if me_id m = i then inc_count m else m"])
    (auto simp: upd_meta_def inc_count_def loaded_def nums_def clients_core_def)

lemma okx_dec: "okx hs e s \<Longrightarrow> okx hs (\<lambda>x. e x - (if x = i then 1 else 0)) (upd_meta i (dec_count t) s)"
  using okx_map [where g = "\<lambda>m. if me_id m = i then dec_count t m else m" and d = "\<lambda>x. - (if x = i then 1 else 0)"
      and s' = "upd_meta i (dec_count t) s" and s = s and hs = hs and e = e]
  by (auto simp: upd_meta_def dec_count_def loaded_def nums_def clients_core_def Let_def)

text \<open>A background task takes over the use that was counted for it.\<close>

lemma counted_task:
  assumes "worker_ok (background s)"
  shows "counted (background (s\<lparr>sv_tasks := sv_tasks s @ [t]\<rparr>)) = counted (background s) @ [t]"
    and "working (background (s\<lparr>sv_tasks := sv_tasks s @ [t]\<rparr>)) = working (background s)"
    and "worker_ok (background (s\<lparr>sv_tasks := sv_tasks s @ [t]\<rparr>))"
  using assms by (cases "sv_worker s"; simp add: background_def)+

lemma okx_task:
  assumes "okx hs e s" "present (bt_meta t) k {bt_num1 t, bt_num2 t} s"
  shows "okx hs (\<lambda>x. e x - (if x = bt_meta t then 1 else 0)) (s\<lparr>sv_tasks := sv_tasks s @ [t]\<rparr>)"
proof -
  have w: "worker_ok (background s)" using assms(1) by (simp add: okx_def)
  have F: "fits (sv_next_id s) (hs @ held s) (pendings s @ working (background s)) (counted (background s)) e (sv_metas s)"
    using assms(1) by (simp add: okx_def)
  have "fits (sv_next_id s) (hs @ held s) (pendings s @ working (background s)) (counted (background s) @ [t])
      (\<lambda>x. e x - (if x = bt_meta t then 1 else 0)) (sv_metas s)"
  proof (rule fits_refs [OF F])
    show "u \<in> set (counted (background s)) \<or> (\<exists>k. has_meta (sv_metas s) (bt_meta u) k {bt_num1 u, bt_num2 u})"
      if "u \<in> set (counted (background s) @ [t])" for u
      using that assms(2) unfolding present_def by auto
  qed (simp_all add: refs_def)
  then show ?thesis using assms(1) by (simp add: okx_core core_facts counted_task [OF w])
qed

text \<open>The worker takes over the use of the task it works on, and returns it.\<close>

lemma okx_hold:
  assumes "okx hs e s" "sv_worker s = Took t" "present (bt_meta t) k {bt_num1 t, bt_num2 t} s"
  shows "okx hs e (s\<lparr>sv_worker := Holds t k\<rparr>)"
proof -
  obtain rest where t: "sv_tasks s = t # rest"
    using assms(1,2) by (cases "sv_tasks s") (auto simp: okx_def background_def)
  have F: "fits (sv_next_id s) (hs @ held s) (pendings s) (t # rest) e (sv_metas s)"
    using assms(1,2) t by (simp add: okx_def background_def)
  have "fits (sv_next_id s) (hs @ held s) (pendings s @ [in_work t k]) rest e (sv_metas s)"
    by (rule fits_refs [OF F]) (use assms(3) in \<open>auto simp: refs_def in_work_def present_def pd_nums_def insert_commute\<close>)
  then show ?thesis using assms(1) t by (simp add: okx_core core_facts background_def)
qed

lemma okx_compared:
  assumes "okx hs e s" "sv_worker s = Holds t k"
  shows "okx hs e (s\<lparr>sv_worker := Compared t k\<rparr>)"
  using assms by (simp add: okx_core background_def)

lemma okx_returned:
  assumes "okx hs e s" "sv_worker s = Compared t k"
  shows "okx hs (\<lambda>x. e x + (if x = bt_meta t then 1 else 0)) (s\<lparr>sv_worker := Returned\<rparr>)"
proof -
  have F: "fits (sv_next_id s) (hs @ held s) (pendings s @ [in_work t k]) (tl (sv_tasks s)) e (sv_metas s)"
    using assms by (simp add: okx_def background_def)
  have "fits (sv_next_id s) (hs @ held s) (pendings s) (tl (sv_tasks s))
      (\<lambda>x. e x + (if x = bt_meta t then 1 else 0)) (sv_metas s)"
    by (rule fits_refs [OF F]) (auto simp: refs_def in_work_def)
  then show ?thesis using assms by (simp add: okx_core core_facts background_def)
qed

text \<open>Changes of one client.\<close>

definition upd_core :: "string \<Rightarrow> (held_comparison list \<Rightarrow> held_comparison list) \<Rightarrow> (pending option \<Rightarrow> pending option)
    \<Rightarrow> (string \<times> held_comparison list \<times> pending option) list \<Rightarrow> (string \<times> held_comparison list \<times> pending option) list" where
  "upd_core me f g cc = map (\<lambda>(n, cs, p). if n = me then (n, f cs, g p) else (n, cs, p)) cc"

lemma upd_core_split:
  assumes "distinct (map fst cc)" "(me, cs, p) \<in> set cc"
  obtains a b where "cc = a @ (me, cs, p) # b" "upd_core me f g cc = a @ (me, f cs, g p) # b"
proof -
  obtain a b where ab: "cc = a @ (me, cs, p) # b" using assms(2) by (meson split_list)
  have "me \<notin> set (map fst (a @ b))" using assms(1) ab by auto
  then have "map (\<lambda>(n, cs, p). if n = me then (n, f cs, g p) else (n, cs, p)) x = x" if "set x \<subseteq> set (a @ b)" for x
    using that by (intro map_idI) force
  then show thesis using that [of a b] ab by (simp add: upd_core_def)
qed

lemma fst_upd_core: "map fst (upd_core me f g cc) = map fst cc"
  by (auto simp: upd_core_def)

lemma core_upd_client:
  assumes "\<And>c. cl_name (h c) = cl_name c \<and> cl_comparisons (h c) = f (cl_comparisons c) \<and> cl_pending (h c) = g (cl_pending c)"
  shows "clients_core (upd_client me h s) = upd_core me f g (clients_core s)"
  using assms by (simp add: clients_core_def upd_client_def upd_core_def)

lemma okx_client:
  assumes ok: "okx hs e s" and me: "(me, cs, p) \<in> set (clients_core s)"
    and s': "sv_metas s' = sv_metas s" "background s' = background s" "sv_next_id s' = sv_next_id s"
      "clients_core s' = upd_core me f g (clients_core s)"
    and r: "\<And>m. m \<in> set (sv_metas s) \<Longrightarrow>
      refs (hs' @ f cs) (case g p of None \<Rightarrow> [] | Some q \<Rightarrow> [q]) [] m + e' (me_id m)
        = refs (hs @ cs) (case p of None \<Rightarrow> [] | Some q \<Rightarrow> [q]) [] m + e (me_id m)"
    and h: "\<And>h. h \<in> set (hs' @ f cs) \<Longrightarrow> h \<in> set (hs @ cs) \<or> has_load (sv_metas s) (hc_snapper h) {hc_num1 h, hc_num2 h}"
    and q: "\<And>q. g p = Some q \<Longrightarrow> p = Some q \<or> has_meta (sv_metas s) (pd_meta q) (pd_snapper q) (pd_nums q)"
  shows "okx hs' e' s'"
proof -
  have d: "distinct (map fst (clients_core s))" using ok by (simp add: okx_core)
  obtain a b where a: "clients_core s = a @ (me, cs, p) # b" "upd_core me f g (clients_core s) = a @ (me, f cs, g p) # b"
    by (rule upd_core_split [OF d me])
  let ?h = "\<lambda>cc. concat (map (\<lambda>(n, cs, p). cs) cc)" and ?p = "\<lambda>cc. List.map_filter (\<lambda>(n, cs, p). p) cc"
  let ?o = "\<lambda>p. case p of None \<Rightarrow> [] | Some q \<Rightarrow> [q]"
  have p: "?p (a @ (me, x, y) # b) = ?p a @ ?o y @ ?p b" for x y
    by (simp add: map_filter_def split: option.split)
  let ?w = "working (background s)" and ?t = "counted (background s)"
  have F: "fits (sv_next_id s) (hs @ ?h a @ cs @ ?h b) (?p a @ ?o p @ ?p b @ ?w) ?t e (sv_metas s)"
    using ok unfolding okx_core a(1) p by simp
  have "fits (sv_next_id s) (hs' @ ?h a @ f cs @ ?h b) (?p a @ ?o (g p) @ ?p b @ ?w) ?t e' (sv_metas s)"
  proof (rule fits_refs [OF F])
    fix m assume "m \<in> set (sv_metas s)"
    from r [OF this] show "refs (hs' @ ?h a @ f cs @ ?h b) (?p a @ ?o (g p) @ ?p b @ ?w) ?t m + e' (me_id m) =
       refs (hs @ ?h a @ cs @ ?h b) (?p a @ ?o p @ ?p b @ ?w) ?t m + e (me_id m)"
      by (simp add: refs_def)
  next
    fix x assume "x \<in> set (hs' @ ?h a @ f cs @ ?h b)"
    then have "x \<in> set (hs' @ f cs) \<or> x \<in> set (?h a @ ?h b)" by auto
    then show "x \<in> set (hs @ ?h a @ cs @ ?h b) \<or> has_load (sv_metas s) (hc_snapper x) {hc_num1 x, hc_num2 x}"
      using h by auto
  next
    fix x assume "x \<in> set (?p a @ ?o (g p) @ ?p b @ ?w)"
    then have "g p = Some x \<or> x \<in> set (?p a @ ?p b @ ?w)" by (auto split: option.splits)
    then show "x \<in> set (?p a @ ?o p @ ?p b @ ?w) \<or> has_meta (sv_metas s) (pd_meta x) (pd_snapper x) (pd_nums x)"
      using q by auto
  qed simp
  then have "fits (sv_next_id s) (hs' @ ?h (a @ (me, f cs, g p) # b)) (?p (a @ (me, f cs, g p) # b) @ ?w) ?t e' (sv_metas s)"
    unfolding p by simp
  then show ?thesis using d ok unfolding okx_core s' fst_upd_core by (simp add: a(2) [symmetric])
qed

subsection \<open>Comparisons\<close>

lemma has_meta_unique:
  assumes "okx hs e s" "has_meta (sv_metas s) i k N" "m \<in> set (sv_metas s)"
  shows "loaded m = Some k \<longleftrightarrow> me_id m = i"
proof -
  have F: "fits (sv_next_id s) (hs @ held s) (pendings s @ working (background s)) (counted (background s)) e (sv_metas s)"
    using assms(1) by (simp add: okx_def)
  obtain m0 where m0: "m0 \<in> set (sv_metas s)" "me_id m0 = i" "loaded m0 = Some k"
    using assms(2) by (auto simp: has_meta_def)
  show ?thesis using fits_ids [OF F assms(3) m0(1)] fits_loads [OF F assms(3) m0(1)] m0 by auto
qed

lemma okx_push:
  assumes ok: "okx hs e s" and me: "(me, cs, p) \<in> set (clients_core s)" and pr: "present i k {hc_num1 h, hc_num2 h} s"
    and h: "hc_snapper h = k"
  shows "okx hs (\<lambda>x. e x - (if x = i then 1 else 0))
    (upd_client me (\<lambda>cl. cl\<lparr>cl_comparisons := cl_comparisons cl @ [h]\<rparr>) s)"
proof (rule okx_client [OF ok me, where f = "\<lambda>cs. cs @ [h]" and g = "\<lambda>p. p"])
  show "clients_core (upd_client me (\<lambda>cl. cl\<lparr>cl_comparisons := cl_comparisons cl @ [h]\<rparr>) s) =
      upd_core me (\<lambda>cs. cs @ [h]) (\<lambda>p. p) (clients_core s)"
    by (rule core_upd_client) simp
  fix m assume "m \<in> set (sv_metas s)"
  then have "loaded m = Some k \<longleftrightarrow> me_id m = i" using has_meta_unique [OF ok] pr unfolding present_def by blast
  then show "refs (hs @ cs @ [h]) (case p of None \<Rightarrow> [] | Some q \<Rightarrow> [q]) [] m + (e (me_id m) - (if me_id m = i then 1 else 0)) =
      refs (hs @ cs) (case p of None \<Rightarrow> [] | Some q \<Rightarrow> [q]) [] m + e (me_id m)"
    by (simp add: refs_def h)
next
  fix x assume "x \<in> set (hs @ cs @ [h])"
  then show "x \<in> set (hs @ cs) \<or> has_load (sv_metas s) (hc_snapper x) {hc_num1 x, hc_num2 x}"
    using pr h by (auto simp: present_def has_meta_def has_load_def)
qed simp_all

lemma okx_pend:
  assumes ok: "okx hs e s" and me: "(me, cs, None) \<in> set (clients_core s)" and pr: "present (pd_meta p) (pd_snapper p) (pd_nums p) s"
  shows "okx hs (\<lambda>x. e x - (if x = pd_meta p then 1 else 0)) (upd_client me (\<lambda>c. c\<lparr>cl_pending := Some p\<rparr>) s)"
proof (rule okx_client [OF ok me, where f = "\<lambda>cs. cs" and g = "\<lambda>_. Some p"])
  show "clients_core (upd_client me (\<lambda>c. c\<lparr>cl_pending := Some p\<rparr>) s) =
      upd_core me (\<lambda>cs. cs) (\<lambda>_. Some p) (clients_core s)"
    by (rule core_upd_client) simp
qed (use pr in \<open>auto simp: refs_def present_def\<close>)

lemma okx_unpend:
  assumes ok: "okx hs e s" and me: "(me, cs, Some p) \<in> set (clients_core s)"
  shows "okx hs (\<lambda>x. e x + (if x = pd_meta p then 1 else 0)) (upd_client me (\<lambda>c. c\<lparr>cl_pending := None\<rparr>) s)"
proof (rule okx_client [OF ok me, where f = "\<lambda>cs. cs" and g = "\<lambda>_. None"])
  show "clients_core (upd_client me (\<lambda>c. c\<lparr>cl_pending := None\<rparr>) s) =
      upd_core me (\<lambda>cs. cs) (\<lambda>_. None) (clients_core s)"
    by (rule core_upd_client) simp
qed (auto simp: refs_def)

lemma drop_nth_split: "i < length cs \<Longrightarrow> length (filter P (drop_nth i cs)) + (if P (cs ! i) then 1 else 0) = length (filter P cs)"
proof -
  assume "i < length cs"
  then have "cs = take i cs @ cs ! i # drop (Suc i) cs" by (rule id_take_nth_drop)
  then have "length (filter P cs) = length (filter P (take i cs @ cs ! i # drop (Suc i) cs))" by simp
  then show ?thesis by (simp add: drop_nth_def)
qed

lemma okx_drop:
  assumes ok: "okx hs e s" and me: "(me, cs, p) \<in> set (clients_core s)" and i: "i < length cs"
  shows "okx (cs ! i # hs) e (upd_client me (\<lambda>cl. cl\<lparr>cl_comparisons := drop_nth i (cl_comparisons cl)\<rparr>) s)"
proof (rule okx_client [OF ok me, where f = "drop_nth i" and g = "\<lambda>p. p"])
  show "clients_core (upd_client me (\<lambda>cl. cl\<lparr>cl_comparisons := drop_nth i (cl_comparisons cl)\<rparr>) s) =
      upd_core me (drop_nth i) (\<lambda>p. p) (clients_core s)"
    by (rule core_upd_client) simp
  fix m
  show "refs ((cs ! i # hs) @ drop_nth i cs) (case p of None \<Rightarrow> [] | Some q \<Rightarrow> [q]) [] m + e (me_id m) =
      refs (hs @ cs) (case p of None \<Rightarrow> [] | Some q \<Rightarrow> [q]) [] m + e (me_id m)"
    using drop_nth_split [OF i, of "\<lambda>h. loaded m = Some (hc_snapper h)"] by (simp add: refs_def split: if_splits)
next
  fix x assume "x \<in> set ((cs ! i # hs) @ drop_nth i cs)"
  then show "x \<in> set (hs @ cs) \<or> has_load (sv_metas s) (hc_snapper x) {hc_num1 x, hc_num2 x}"
    using i by (auto simp: drop_nth_def dest: in_set_takeD in_set_dropD)
qed simp_all

lemma okx_release: "okx (h # hs) e s \<Longrightarrow> okx hs e (snd (release_comparison h s))"
proof -
  assume ok: "okx (h # hs) e s"
  have F: "fits (sv_next_id s) ((h # hs) @ held s) (pendings s @ working (background s)) (counted (background s)) e (sv_metas s)"
    using ok by (simp add: okx_def)
  obtain m0 where m0: "m0 \<in> set (sv_metas s)" "loaded m0 = Some (hc_snapper h)"
    using fitsD(6) [OF F, of h] by (auto simp: has_load_def)
  have l: "loaded m = Some (hc_snapper h) \<longleftrightarrow> me_id m = me_id m0" if "m \<in> set (sv_metas s)" for m
    using fits_ids [OF F that m0(1)] fits_loads [OF F that m0(1)] m0 by auto
  let ?g = "\<lambda>m. if (case me_snapper m of None \<Rightarrow> False | Some (k, sp) \<Rightarrow> k = hc_snapper h) then dec_count (sv_now s) m else m"
  let ?d = "\<lambda>x. - (if x = me_id m0 then 1 else 0) :: int"
  have g: "?g m = (if loaded m = Some (hc_snapper h) then dec_count (sv_now s) m else m)" for m
    by (simp add: loaded_def split: option.split)
  have "fits (sv_next_id s) ((h # hs) @ held s) (pendings s @ working (background s)) (counted (background s)) (\<lambda>x. e x + ?d x) (map ?g (sv_metas s))"
    by (rule fits_map [OF F]) (use l in \<open>simp add: g dec_count_def Let_def loaded_def nums_def\<close>)
  then have "fits (sv_next_id s) (hs @ held s) (pendings s @ working (background s)) (counted (background s)) e (map ?g (sv_metas s))"
  proof (rule fits_refs)
    fix m assume "m \<in> set (map ?g (sv_metas s))"
    then obtain m' where m': "m' \<in> set (sv_metas s)" "m = ?g m'" by auto
    have "loaded m = loaded m'" "me_id m = me_id m'"
      using m'(2) by (auto simp: g dec_count_def Let_def loaded_def)
    then have "loaded m = Some (hc_snapper h) \<longleftrightarrow> me_id m = me_id m0" using l [OF m'(1)] by simp
    then show "refs (hs @ held s) (pendings s @ working (background s)) (counted (background s)) m + e (me_id m) =
        refs ((h # hs) @ held s) (pendings s @ working (background s)) (counted (background s)) m + (e (me_id m) + ?d (me_id m))"
      by (simp add: refs_def)
  qed auto
  then show ?thesis using ok by (simp add: release_comparison_def okx_core core_facts)
qed

end
