(* ===== verification/ServerRequests.thy ===== *)
theory ServerRequests
  imports ServerKeeps
begin

text \<open>
  Every request and every event of the server preserves the invariant \<open>server_ok\<close>.
\<close>

subsection \<open>The beginning of a request\<close>

definition exists_meta :: "nat \<Rightarrow> server \<Rightarrow> bool" where
  "exists_meta i s \<longleftrightarrow> (\<exists>m\<in>set (sv_metas s). me_id m = i)"

lemma find_meta_cases:
  obtains "find_meta c s = (Inl UnknownConfig, s)" "\<forall>m\<in>set (sv_metas s). ci_name (me_info m) \<noteq> c"
  | m where "find_meta c s = (Inr (me_id m), s)" "m \<in> set (sv_metas s)" "ci_name (me_info m) = c"
proof (cases "find (\<lambda>m. ci_name (me_info m) = c) (sv_metas s)")
  case None
  then have "find_meta c s = (Inl UnknownConfig, s)" by (simp add: find_meta_def)
  moreover have "\<forall>m\<in>set (sv_metas s). ci_name (me_info m) \<noteq> c" using None by (simp add: find_None_iff)
  ultimately show ?thesis by (rule that(1))
next
  case (Some m)
  then have "find_meta c s = (Inr (me_id m), s)" by (simp add: find_meta_def)
  moreover have "m \<in> set (sv_metas s)" "ci_name (me_info m) = c" using Some by (auto simp: find_Some_iff)
  ultimately show ?thesis by (rule that(2))
qed

lemma silent_state: "find_meta c s = (r, s') \<Longrightarrow> s' = s" "check_permission E me i s = (r', s'') \<Longrightarrow> s'' = s"
  "find_snapshot i num s = (r3, s3) \<Longrightarrow> s3 = s"
  by (auto simp: find_meta_def check_permission_def find_snapshot_def bindS_def throw_ifS_def Let_def
      split: option.splits sum.splits if_splits)

lemma upd_meta_in: "m \<in> set (sv_metas s) \<Longrightarrow> me_id m = i \<Longrightarrow> f m \<in> set (sv_metas (upd_meta i f s))"
  by (force simp: upd_meta_def)

lemma getSnapper_Inr:
  assumes "getSnapper E i s = (Inr u, s')" "okx hs e s"
  shows "exists_meta i s \<Longrightarrow> exists_meta i s' \<and> me_snapper (meta_of s' i) \<noteq> None"
proof -
  assume ex: "exists_meta i s"
  have ok': "okx hs e s'" using keepsD [OF keeps_getSnapper_okx assms(2,1)] .
  obtain m where m: "m \<in> set (sv_metas s)" "me_id m = i" using ex by (auto simp: exists_meta_def)
  have "\<exists>m\<in>set (sv_metas s'). me_id m = i \<and> me_snapper m \<noteq> None"
  proof (cases rule: getSnapper_cases [where s = s and i = i and E = E and hs = hs and e = e])
    case here
    have "me_snapper m \<noteq> None" using here(1) meta_of_eq [OF assms(2) m] by simp
    then show ?thesis
      using assms(1) here(2) m upd_meta_in [OF m, of "\<lambda>m. m\<lparr>me_last_used := sv_now s\<rparr>"]
      by (intro bexI [of _ "m\<lparr>me_last_used := sv_now s\<rparr>"]) auto
  next
    case (fails x s1)
    then show ?thesis using assms(1) by simp
  next
    case (loads sp s1)
    let ?s2 = "(upd_meta i (\<lambda>m. m\<lparr>me_snapper := Some (sv_next_id s1, sp)\<rparr>) s1)\<lparr>sv_next_id := Suc (sv_next_id s1)\<rparr>"
    let ?m2 = "m\<lparr>me_snapper := Some (sv_next_id s1, sp)\<rparr>"
    have "?m2 \<in> set (sv_metas ?s2)"
      using upd_meta_in [of m s1 i "\<lambda>m. m\<lparr>me_snapper := Some (sv_next_id s1, sp)\<rparr>"] m loads(4) by simp
    from upd_meta_in [OF this, of i "\<lambda>m. m\<lparr>me_last_used := sv_now s1\<rparr>"] show ?thesis
      using assms(1) loads(5) m(2) by (intro bexI [of _ "?m2\<lparr>me_last_used := sv_now s1\<rparr>"]) simp_all
  qed
  then have "exists_meta i s' \<and> (\<exists>m\<in>set (sv_metas s'). me_id m = i \<and> me_snapper m \<noteq> None)"
    by (auto simp: exists_meta_def)
  then show ?thesis using meta_of_eq [OF ok'] by auto
qed

text \<open>A request on the snapshots of a configuration: either it ends with an exception before its body,
  or the body runs with the configuration loaded.\<close>

lemma with_snapper_rule:
  assumes "ok0 me s"
    and body: "\<And>i s1. ok0 me s1 \<Longrightarrow> exists_meta i s1 \<Longrightarrow> me_snapper (meta_of s1 i) \<noteq> None \<Longrightarrow> Q (snd (body i s1))"
    and ok: "\<And>s. ok0 me s \<Longrightarrow> Q s"
  shows "Q (snd (with_snapper E me c body s))"
proof (cases rule: find_meta_cases [of c s])
  case 1
  then show ?thesis using assms by (simp add: with_snapper_def)
next
  case (2 m)
  obtain r s1 where p: "check_permission E me (me_id m) s = (r, s1)" by fastforce
  obtain r2 s2 where g: "getSnapper E (me_id m) s = (r2, s2)" by fastforce
  have ok2: "ok0 me s2" by (rule keepsD [OF keeps_getSnapper assms(1) g])
  have "exists_meta (me_id m) s" using 2(2) by (auto simp: exists_meta_def)
  then have "r2 = Inr u \<Longrightarrow> exists_meta (me_id m) s2 \<and> me_snapper (meta_of s2 (me_id m)) \<noteq> None" for u
    using getSnapper_Inr [of E "me_id m" s u s2 "[]" "\<lambda>_. 0"] g assms(1) by (simp add: okc_def)
  then have "\<forall>u. r2 = Inr u \<longrightarrow> Q (snd (body (me_id m) s2))" using body [OF ok2] by blast
  moreover have "s1 = s" using silent_state(2) [OF p] .
  ultimately show ?thesis
    using 2(1) p g ok [OF assms(1)] ok [OF ok2]
    by (cases r; cases r2) (simp_all add: with_snapper_def)
qed

lemma keeps_with_snapper [keeps]: "(\<And>i. keeps (ok0 me) (body i)) \<Longrightarrow> keeps (ok0 me) (with_snapper E me' c body)"
  unfolding with_snapper_def by (intro keeps)

lemma keeps_prod [keeps]: "(\<And>a b. keeps P (f a b)) \<Longrightarrow> keeps P (case x of (a, b) \<Rightarrow> f a b)"
  by (cases x) simp

subsection \<open>Requests that move no reference\<close>

lemma grows_setters [keeps]:
  "grows (thenS (set_entry i (setDescription d)) (thenS (set_entry i (setCleanup cl)) (thenS (set_entry i (setUserdata ud)) (flush_entry X i))))"
  by (intro keeps grows_set_entry setter_num)

lemma keeps_simple_requests [keeps]:
  "keeps (ok0 me) (list_configs me)" "keeps (ok0 me) (get_config E me c)" "keeps (ok0 me) (lock_config E me c)"
  "keeps (ok0 me) (unlock_config E me c)" "keeps (ok0 me) (create_config E me c d t n)"
  "keeps (ok0 me) (list_snapshots E me c)" "keeps (ok0 me) (list_snapshots_at_time E me c tb te)"
  "keeps (ok0 me) (get_snapshot E me c num)" "keeps (ok0 me) (set_snapshot E me c num d cl ud)"
  "keeps (ok0 me) (create_single_snapshot E me c d cl ud)" "keeps (ok0 me) (create_pre_snapshot E me c d cl ud)"
  "keeps (ok0 me) (mount_snapshot E me c num u)" "keeps (ok0 me) (umount_snapshot E me c num u)"
  "keeps (ok0 me) (get_mount_point E me c num)" "keeps (ok0 me) (debug E me)"
  unfolding list_configs_def get_config_def lock_config_def unlock_config_def create_config_def list_snapshots_def
    list_snapshots_at_time_def get_snapshot_def set_snapshot_def create_single_snapshot_def create_pre_snapshot_def
    mount_snapshot_def umount_snapshot_def get_mount_point_def debug_def
  by (intro keeps)+

lemma keeps_delete_config [keeps]: "keeps (ok0 me) (delete_config E me c)"
proof -
  have rest: "ok0 me (snd (thenS (metas_deleteConfig E i) (thenS (reply me RUnit) (emit (ConfigDeleted c))) s))"
    if "okz i me s" for i s
  proof -
    obtain r s1 where d: "metas_deleteConfig E i s = (r, s1)" by fastforce
    have ok1: "ok0 me s1" using delete_meta_ok [OF that, of E] d by simp
    have "keeps (ok0 me) (thenS (reply me RUnit) (emit (ConfigDeleted c)))" by (intro keeps)
    then show ?thesis using d ok1 by (cases r) (simp_all add: keeps_def)
  qed
  show ?thesis
    unfolding delete_config_def by (intro keeps after_check_config_in_use rest)
qed

lemma keeps_delete_snapshots [keeps]: "keeps (ok0 me) (delete_snapshots E me c ns)"
proof -
  have "keeps (okz i me) (thenS (getSnapper E i) (thenS (foreachS (delete_one i) ns)
      (thenS (reply me RUnit) (emit (SnapshotsDeleted c ns)))))" for i
    by (intro keeps)
  then have rest: "ok0 me (snd (thenS (getSnapper E i) (thenS (foreachS (delete_one i) ns)
      (thenS (reply me RUnit) (emit (SnapshotsDeleted c ns)))) s))" if "okz i me s" for i s
    using that unfolding keeps_def okz_def by blast
  show ?thesis
    unfolding delete_snapshots_def by (intro keeps after_check_config_in_use rest)
qed

subsection \<open>A post snapshot and its background comparison\<close>

lemma find_idx_found: "find_idx p xs \<noteq> length xs \<Longrightarrow> find_idx p xs < length xs \<and> p (xs ! find_idx p xs)"
  by (induction xs) auto

lemma find_num_found: "find_num n es \<noteq> length es \<Longrightarrow> n \<in> sn_num ` set es"
  unfolding find_num_def using find_idx_found [of "\<lambda>s. sn_num s = n" es] by (metis imageI nth_mem)

lemma createHelper_index: "createHelper X fs s st = (Inr i, st') \<Longrightarrow> i < length (entries st')"
  unfolding createHelper_def by (auto simp: bindS_Inr)

lemma createPost_Inr:
  assumes "createPostSnapshot X fs d pre st = (Inr i, st')"
  shows "pre \<noteq> length (entries st) \<and> i < length (entries st')"
proof -
  have "pre \<noteq> length (entries st)" using assms by (auto simp: createPostSnapshot_def split: if_splits)
  moreover have "\<exists>ty p. createTyped X fs ty p d st = (Inr i, st')"
    using assms by (auto simp: createPostSnapshot_def split: if_splits)
  ultimately show ?thesis using createHelper_index unfolding createTyped_def bindS_Inr by blast
qed

lemma keeps_length [keeps]:
  "keeps (\<lambda>st. length (entries st) = n) (set_entry i f)" "keeps (\<lambda>st. length (entries st) = n) (flush_entry X i)"
proof -
  have w: "keeps (\<lambda>st. length (entries st) = n) (onW m)" for m :: "(world, snapshot) step"
    by (intro keepsI) (simp add: onW_def split: prod.split)
  show "keeps (\<lambda>st. length (entries st) = n) (set_entry i f)"
    by (intro keepsI) (simp add: set_entry_def split: sum.split)
  show "keeps (\<lambda>st. length (entries st) = n) (flush_entry X i)"
    unfolding flush_entry_def by (intro keeps w keeps_modify) simp
qed

lemma finish_Inr:
  assumes "finish_snapshot E me cl ud i st = (Inr num, st')" "i < length (entries st)"
  shows "num \<in> sn_num ` set (entries st')"
proof -
  have k: "keeps (\<lambda>st'. length (entries st') = length (entries st)) (finish_snapshot E me cl ud i)"
    unfolding finish_snapshot_def by (intro keeps)
  have "length (entries st') = length (entries st)" by (rule keepsD [OF k refl assms(1)])
  moreover have "num = sn_num (entries st' ! i)"
    using assms(1) unfolding finish_snapshot_def bindS_Inr by (auto simp: throwS_def)
  ultimately show ?thesis using assms(2) by simp
qed

lemma present_onSnaps:
  assumes "okx hs e s" "exists_meta i s" "onSnaps i f s = (Inr a, s')"
    and grow: "\<And>sp. grows (f sp)"
    and N: "\<And>sp st st'. f sp st = (Inr a, st') \<Longrightarrow> N \<subseteq> sn_num ` set (entries st')"
  shows "\<exists>k. present i k N s'"
proof (cases rule: onSnaps_cases [of s i f])
  case 1
  then show ?thesis using assms(3) by simp
next
  case (2 k sp r sp' x)
  obtain m where m: "m \<in> set (sv_metas s)" "me_id m = i" using assms(2) by (auto simp: exists_meta_def)
  have "N \<subseteq> sn_num ` set (sp_snapshots sp')"
    using 2(2,3) assms(3) N unfolding onSnapper_def by (force split: prod.splits)
  then show ?thesis
    using upd_meta_in [OF m, of "\<lambda>m. m\<lparr>me_snapper := Some (k, sp')\<rparr>"] 2(3) assms(3) m(2)
    by (auto simp: present_def has_meta_def loaded_def nums_def intro!: exI [of _ k] bexI [of _ "m\<lparr>me_snapper := Some (k, sp')\<rparr>"])
qed

lemma add_background_ok:
  assumes "ok0 me s" "present i k {n1, n2} s"
  shows "ok0 me (snd (add_background i n1 n2 s))"
proof -
  let ?t = "\<lparr>bt_meta = i, bt_num1 = n1, bt_num2 = n2\<rparr>"
  have "okx [] (\<lambda>x. 0 - (if x = i then 1 else 0)) (s\<lparr>sv_tasks := sv_tasks s @ [?t]\<rparr>)"
    using okx_task [of "[]" "\<lambda>_. 0" s ?t k] assms by (simp add: okc_def)
  from okx_inc [OF this, of i] have "okx [] (\<lambda>_. 0) (upd_meta i inc_count (s\<lparr>sv_tasks := sv_tasks s @ [?t]\<rparr>))"
    by (simp add: if_distrib cong: if_cong)
  then show ?thesis using assms(1) by (simp add: add_background_def inc_use_count_def okc_def idle_def)
qed

lemma keeps_create_post [keeps]: "keeps (ok0 me) (create_post_snapshot E me c pre d cl ud)"
proof (rule keepsI)
  fix s assume ok: "ok0 me s"
  let ?f = "\<lambda>sp. bindS (getS entries) (\<lambda>es.
      bindS (createPostSnapshot (se_xml E) (sp_ops sp) d (find_num pre es)) (finish_snapshot E me cl ud))"
  let ?tail = "\<lambda>i num. bindS (getS (\<lambda>s. me_info (meta_of s i))) (\<lambda>info.
      thenS (whenS (wants_background info) (add_background i pre num))
        (thenS (reply me (RNum num)) (emit (SnapshotCreated c num))))"
  have grow: "grows (?f sp)" for sp by (intro keeps)
  show "ok0 me (snd (create_post_snapshot E me c pre d cl ud s))"
    unfolding create_post_snapshot_def
  proof (rule with_snapper_rule [OF ok])
    fix i s1 assume ok1: "ok0 me s1" and ex: "exists_meta i s1"
    obtain r s2 where o: "onSnaps i ?f s1 = (r, s2)" by fastforce
    have ok2: "ok0 me s2" by (rule keepsD [OF keeps_onSnaps [OF grow] ok1 o])
    show "ok0 me (snd (bindS (onSnaps i ?f) (?tail i) s1))"
    proof (cases r)
      case (Inl x)
      then show ?thesis using o ok2 by simp
    next
      case (Inr num)
      have "{pre, num} \<subseteq> sn_num ` set (entries st')" if f: "?f sp st = (Inr num, st')" for sp st st'
      proof -
        obtain j st1 where j: "createPostSnapshot (se_xml E) (sp_ops sp) d (find_num pre (entries st)) st = (Inr j, st1)"
          "finish_snapshot E me cl ud j st1 = (Inr num, st')"
          using f by (auto simp: bindS_Inr)
        have "pre \<in> sn_num ` set (entries st)" using createPost_Inr [OF j(1)] find_num_found by blast
        then have "pre \<in> sn_num ` set (entries st')" using growsD [OF grow f] by blast
        moreover have "num \<in> sn_num ` set (entries st')"
          using finish_Inr [OF j(2)] createPost_Inr [OF j(1)] by blast
        ultimately show ?thesis by simp
      qed
      then obtain k where "present i k {pre, num} s2"
        using present_onSnaps [of "[]" "\<lambda>_. 0" s1 i ?f num s2 "{pre, num}"] ok1 ex o Inr grow by (auto simp: okc_def)
      then have bg: "ok0 me (snd (whenS b (add_background i pre num) s2))" for b
        using add_background_ok [OF ok2] ok2 by (simp add: whenS_def)
      have k: "keeps (ok0 me) (thenS (reply me (RNum num)) (emit (SnapshotCreated c num)))" by (intro keeps)
      obtain r3 s3 where w: "whenS (wants_background (me_info (meta_of s2 i))) (add_background i pre num) s2 = (r3, s3)"
        by fastforce
      then have "ok0 me s3" using bg by (metis snd_conv)
      then show ?thesis using o Inr w k by (cases r3) (simp_all add: keeps_def)
    qed
  qed
qed

subsection \<open>Comparisons\<close>

lemma found_num_Some: "x \<in> set_option (found_num num es) \<Longrightarrow> x \<in> sn_num ` set es"
  using find_num_found [of num es] by (auto simp: found_num_def split: if_splits)

lemma loaded_present:
  assumes "okx hs e s" "exists_meta i s" "me_snapper (meta_of s i) \<noteq> None" "N \<subseteq> sn_num ` set (snaps i s)"
  shows "present i (loaded_id i s) N s"
proof -
  obtain m where m: "m \<in> set (sv_metas s)" "me_id m = i" using assms(2) by (auto simp: exists_meta_def)
  have "meta_of s i = m" by (rule meta_of_eq [OF assms(1) m])
  then show ?thesis
    using assms(3,4) m by (auto simp: present_def has_meta_def loaded_def nums_def snaps_def loaded_id_def
        intro!: bexI [of _ m])
qed

lemma present_upd_meta:
  assumes "\<And>m. me_id (f m) = me_id m \<and> me_snapper (f m) = me_snapper m"
  shows "present i k N (upd_meta j f s) \<longleftrightarrow> present i k N s"
proof -
  define g where "g m = (if me_id m = j then f m else m)" for m
  have g: "me_id (g m) = me_id m" "loaded (g m) = loaded m" "nums (g m) = nums m" for m
    using assms by (simp_all add: g_def loaded_def nums_def)
  have "sv_metas (upd_meta j f s) = map g (sv_metas s)" by (simp add: upd_meta_def g_def)
  then show ?thesis by (simp add: present_def has_meta_def g)
qed

lemma present_inc: "present i k N (upd_meta j inc_count s) \<longleftrightarrow> present i k N s"
  by (rule present_upd_meta) (simp add: inc_count_def)

lemma begin_ok: "ok0 me s \<Longrightarrow> okx [] (\<lambda>_. 0) (snd (create_comparison_begin E me c n1 n2 s))"
  unfolding create_comparison_begin_def
proof (erule with_snapper_rule)
  fix i s1 assume ok: "ok0 me s1" and ex: "exists_meta i s1" and l: "me_snapper (meta_of s1 i) \<noteq> None"
  let ?p = "\<lparr>pd_meta = i, pd_snapper = loaded_id i s1, pd_num1 = found_num n1 (snaps i s1),
    pd_num2 = found_num n2 (snaps i s1)\<rparr>"
  have okx: "okx [] (\<lambda>_. 0) s1" using ok by (simp add: okc_def)
  obtain cs where me: "(me, cs, None) \<in> set (clients_core (upd_meta i inc_count s1))"
    using ok by (auto simp: okc_def idle_def)
  have "present i (loaded_id i s1) (pd_nums ?p) s1"
    using found_num_Some by (intro loaded_present [OF okx ex l]) (auto simp: pd_nums_def)
  then have "present (pd_meta ?p) (pd_snapper ?p) (pd_nums ?p) (upd_meta i inc_count s1)"
    by (simp add: present_inc)
  from okx_pend [OF okx_inc [OF okx] me this]
  have "okx [] (\<lambda>_. 0) (upd_client me (\<lambda>c. c\<lparr>cl_pending := Some ?p\<rparr>) (upd_meta i inc_count s1))"
    by (simp add: if_distrib cong: if_cong)
  then show "okx [] (\<lambda>_. 0) (snd (bindS (getS (\<lambda>s. (loaded_id i s, snaps i s))) (\<lambda>(k, es).
       thenS (inc_use_count i) (modifyS (upd_client me (\<lambda>c. c\<lparr>cl_pending := Some \<lparr>pd_meta = i, pd_snapper = k,
            pd_num1 = found_num n1 es, pd_num2 = found_num n2 es\<rparr>\<rparr>)))) s1))"
    by (simp add: inc_use_count_def)
qed (simp add: okc_def)

text \<open>The second part, for a client whose request is in progress.\<close>

lemma present_onSnaps_mono:
  assumes ok: "okx hs e s" and pr: "present i k N s" and o: "onSnaps j f s = (r, s')" and grow: "\<And>sp. grows (f sp)"
  shows "present i k N s'"
proof (cases rule: onSnaps_cases [of s j f])
  case 1
  then show ?thesis using pr o by simp
next
  case (2 k' sp r' sp' x)
  obtain m where m: "m \<in> set (sv_metas s)" "me_id m = i" "loaded m = Some k" "N \<subseteq> nums m"
    using pr by (auto simp: present_def has_meta_def)
  let ?s = "upd_meta j (\<lambda>m. m\<lparr>me_snapper := Some (k', sp')\<rparr>) s"
  have "present i k N ?s"
  proof (cases "i = j")
    case True
    have "me_snapper m = Some (k', sp)" using meta_of_eq [OF ok m(1,2)] 2(1) True by simp
    then have "k' = k" "N \<subseteq> sn_num ` set (sp_snapshots sp')"
      using m(3,4) onSnapper_grows [OF grow 2(2)] by (auto simp: loaded_def nums_def)
    then show ?thesis
      using upd_meta_in [OF m(1), of j "\<lambda>m. m\<lparr>me_snapper := Some (k', sp')\<rparr>"] m(2) True
      by (auto simp: present_def has_meta_def loaded_def nums_def intro!: bexI [of _ "m\<lparr>me_snapper := Some (k', sp')\<rparr>"])
  next
    case False
    then have "m \<in> set (sv_metas ?s)" using m(1,2) by (force simp: upd_meta_def)
    then show ?thesis using m by (auto simp: present_def has_meta_def)
  qed
  then show ?thesis using 2(3) o by (simp add: present_def)
qed

lemma found_indices:
  assumes f: "bindS (getS entries) (\<lambda>es. comparison_new fs cmp sub ign (pending_index n1 es) (pending_index n2 es)) st
      = (Inr c, st')"
  shows "n1 \<noteq> None \<and> n2 \<noteq> None"
proof -
  have "comparison_new fs cmp sub ign (pending_index n1 (entries st)) (pending_index n2 (entries st)) st = (Inr c, st')"
    using f by simp
  from comparison_new_Inr [OF this] show ?thesis by (cases n1; cases n2) (auto simp: pending_index_def)
qed

lemma onSnaps_runs:
  assumes "onSnaps i f s = (Inr a, s')"
  shows "\<exists>sp st st'. f sp st = (Inr a, st')"
proof (cases rule: onSnaps_cases [of s i f])
  case 1
  then show ?thesis using assms by simp
next
  case (2 k sp r sp' x)
  then have "fst (f sp \<lparr>disk = ec_disks (sv_etc s) (sp_subvolume sp), entries = sp_snapshots sp\<rparr>) = Inr a"
    using assms by (auto simp: onSnapper_def split: prod.splits)
  then show ?thesis by (metis prod.collapse)
qed

definition in_progress :: "string \<Rightarrow> pending \<Rightarrow> server \<Rightarrow> bool" where
  "in_progress me p s \<longleftrightarrow> okx [] (\<lambda>x. if x = pd_meta p then 1 else 0) s
     \<and> present (pd_meta p) (pd_snapper p) (pd_nums p) s \<and> (\<exists>cs. (me, cs, None) \<in> set (clients_core s))"

lemma silent_in_progress: "silent m \<Longrightarrow> keeps (in_progress me p) m"
proof (rule keepsI)
  fix s assume m: "silent m" and a: "in_progress me p s"
  note c = silentD [OF m, of s]
  show "in_progress me p (snd (m s))"
    using a okx_cong(1) [OF c, of "[]"] unfolding in_progress_def present_def c(1,4) by simp
qed

lemma body_in_progress: "keeps (in_progress me p) (create_comparison_body E me p)"
proof (rule keepsI)
  fix s assume a: "in_progress me p s"
  let ?e = "\<lambda>x. if x = pd_meta p then 1 else 0 :: int"
  let ?f = "\<lambda>sp. bindS (getS entries) (\<lambda>es.
        comparison_new (sp_ops sp) (se_cmp E (sp_subvolume sp)) (sp_subvolume sp) (sp_ignore_patterns sp)
          (pending_index (pd_num1 p) es) (pending_index (pd_num2 p) es))"
  have grow: "grows (?f sp)" for sp by (intro keeps)
  have ok: "okx [] ?e s" and pr: "present (pd_meta p) (pd_snapper p) (pd_nums p) s"
    using a by (simp_all add: in_progress_def)
  obtain cs where me: "(me, cs, None) \<in> set (clients_core s)" using a by (auto simp: in_progress_def)
  obtain r s1 where o: "onSnaps (pd_meta p) ?f s = (r, s1)" by fastforce
  have ok1: "okx [] ?e s1" by (rule keepsD [OF keeps_onSnaps_okx [OF grow] ok o])
  have pr1: "present (pd_meta p) (pd_snapper p) (pd_nums p) s1" by (rule present_onSnaps_mono [OF ok pr o grow])
  have me1: "(me, cs, None) \<in> set (clients_core s1)" using me onSnaps_core [of "pd_meta p" ?f s] o by simp
  show "in_progress me p (snd (create_comparison_body E me p s))"
  proof (cases r)
    case (Inl x)
    then show ?thesis using o ok1 pr1 me1 by (auto simp: create_comparison_body_def in_progress_def)
  next
    case (Inr c)
    obtain n1 n2 where n: "pd_num1 p = Some n1" "pd_num2 p = Some n2"
    proof -
      have "onSnaps (pd_meta p) ?f s = (Inr c, s1)" using o Inr by simp
      from onSnaps_runs [OF this] obtain sp :: snapper and st st' where "?f sp st = (Inr c, st')" by (elim exE)
      from found_indices [OF this] show thesis using that by auto
    qed
    let ?h = "\<lparr>hc_snapper = pd_snapper p, hc_num1 = the (pd_num1 p), hc_num2 = the (pd_num2 p), hc_files = cp_files c\<rparr>"
    let ?s2 = "upd_client me (\<lambda>cl. cl\<lparr>cl_comparisons := cl_comparisons cl @ [?h]\<rparr>) s1"
    have N: "present (pd_meta p) (pd_snapper p) {hc_num1 ?h, hc_num2 ?h} s1"
      using pr1 n by (simp add: present_def pd_nums_def has_meta_def insert_commute)
    have "okx [] (\<lambda>x. ?e x - (if x = pd_meta p then 1 else 0)) ?s2"
      by (rule okx_push [OF ok1 me1 N]) simp
    from okx_inc [OF this, of "pd_meta p"] have ok3: "okx [] ?e (upd_meta (pd_meta p) inc_count ?s2)"
      by (simp add: if_distrib cong: if_cong)
    have "clients_core ?s2 = upd_core me (\<lambda>cs. cs @ [?h]) (\<lambda>p. p) (clients_core s1)" by (rule core_upd_client) simp
    then have me3: "\<exists>cs. (me, cs, None) \<in> set (clients_core (upd_meta (pd_meta p) inc_count ?s2))"
      using me1 by (force simp: upd_core_def)
    have pr3: "present (pd_meta p) (pd_snapper p) (pd_nums p) (upd_meta (pd_meta p) inc_count ?s2)"
      using pr1 by (simp add: present_inc) (simp add: present_def)
    have "in_progress me p (upd_meta (pd_meta p) inc_count ?s2)"
      using ok3 pr3 me3 by (simp add: in_progress_def)
    then have "in_progress me p (snd (reply me RUnit (upd_meta (pd_meta p) inc_count ?s2)))"
      using silent_in_progress [OF silent_emit(2)] unfolding keeps_def by blast
    then show ?thesis using o Inr by (simp add: create_comparison_body_def inc_use_count_def)
  qed
qed

lemma end_ok:
  assumes ok: "okx [] (\<lambda>_. 0) s" and me: "(me, cs, Some p) \<in> set (clients_core s)"
  shows "ok0 me (snd (create_comparison_end E me p s))"
proof -
  let ?s1 = "upd_client me (\<lambda>c. c\<lparr>cl_pending := None\<rparr>) s"
  have "fits (sv_next_id s) (held s) (pendings s @ working (background s)) (counted (background s)) (\<lambda>_. 0) (sv_metas s)" using ok by (simp add: okx_def)
  moreover have "p \<in> set (pendings s)" using me by (force simp: core_facts map_filter_def)
  ultimately have pr: "present (pd_meta p) (pd_snapper p) (pd_nums p) ?s1"
    using fitsD(7) by (force simp: present_def)
  have "clients_core ?s1 = upd_core me (\<lambda>cs. cs) (\<lambda>_. None) (clients_core s)" by (rule core_upd_client) simp
  then have "(me, cs, None) \<in> set (clients_core ?s1)" using me by (force simp: upd_core_def)
  then have 1: "in_progress me p ?s1"
    using okx_unpend [OF ok me] pr by (auto simp: in_progress_def)
  obtain r s2 where b: "create_comparison_body E me p ?s1 = (r, s2)" by fastforce
  have "in_progress me p s2" by (rule keepsD [OF body_in_progress 1 b])
  then have 2: "okx [] (\<lambda>x. if x = pd_meta p then 1 else 0) s2" "idle me s2" by (simp_all add: in_progress_def idle_def)
  from okx_dec [OF 2(1), of "pd_meta p" "sv_now s2"] have "okx [] (\<lambda>_. 0) (upd_meta (pd_meta p) (dec_count (sv_now s2)) s2)"
    by simp
  then show ?thesis using b 2(2) by (simp add: create_comparison_end_def finallyS_def dec_use_count_def okc_def idle_def)
qed

end
