(* ===== verification/ServerEvents.thy ===== *)
theory ServerEvents
  imports ServerRequests
begin

text \<open>
  The dispatch of a message and the events of the server preserve the invariant, so it holds in every
  reachable state.
\<close>

lemma release_upd_client:
  "snd (release_comparison h (upd_client me f s)) = upd_client me f (snd (release_comparison h s))"
  by (simp add: release_comparison_def upd_client_def)

lemma find_client_core: "find_client me s = Some c \<Longrightarrow> (me, cl_comparisons c, cl_pending c) \<in> set (clients_core s)"
  by (auto simp: find_client_def find_Some_iff clients_core_def)

lemma delete_body_ok:
  assumes "ok0 me s" "find_client me s = Some c" "i < length (cl_comparisons c)"
  shows "ok0 me (snd (thenS (release_comparison (cl_comparisons c ! i))
    (thenS (modifyS (upd_client me (\<lambda>c. c\<lparr>cl_comparisons := drop_nth i (cl_comparisons c)\<rparr>))) (reply me RUnit)) s))"
proof -
  let ?h = "cl_comparisons c ! i" and ?d = "upd_client me (\<lambda>c. c\<lparr>cl_comparisons := drop_nth i (cl_comparisons c)\<rparr>)"
  have ok: "okx [] (\<lambda>_. 0) s" using assms(1) by (simp add: okc_def)
  have "okx [?h] (\<lambda>_. 0) (?d s)" by (rule okx_drop [OF ok find_client_core [OF assms(2)] assms(3)])
  then have 1: "okx [] (\<lambda>_. 0) (?d (snd (release_comparison ?h s)))"
    using okx_release [of ?h "[]" "\<lambda>_. 0" "?d s"] by (simp add: release_upd_client)
  have "clients_core (?d (snd (release_comparison ?h s))) =
      upd_core me (drop_nth i) (\<lambda>p. p) (clients_core (snd (release_comparison ?h s)))"
    by (rule core_upd_client) simp
  also have "clients_core (snd (release_comparison ?h s)) = clients_core s"
    by (simp add: release_comparison_def)
  finally have "idle me (?d (snd (release_comparison ?h s)))"
    using assms(1) by (force simp: okc_def idle_def upd_core_def)
  then have "ok0 me (?d (snd (release_comparison ?h s)))" using 1 by (simp add: okc_def)
  then have "ok0 me (snd (reply me RUnit (?d (snd (release_comparison ?h s)))))"
    using silent_keeps(1) [OF silent_emit(2)] unfolding keeps_def by blast
  then show ?thesis by (simp add: release_comparison_def)
qed

lemma find_comparison_Inr: "find_comparison k n1 n2 c = Inr i \<Longrightarrow> i < length (cl_comparisons c)"
proof -
  assume a: "find_comparison k n1 n2 c = Inr i"
  let ?p = "\<lambda>h. hc_snapper h = k \<and> Some (hc_num1 h) = n1 \<and> Some (hc_num2 h) = n2"
  have "i = find_idx ?p (cl_comparisons c)" "i \<noteq> length (cl_comparisons c)"
    using a by (auto simp: find_comparison_def Let_def split: if_splits)
  then show ?thesis using find_idx_found [of ?p "cl_comparisons c"] by simp
qed

lemma keeps_delete_comparison [keeps]: "keeps (ok0 me) (delete_comparison E me c n1 n2)"
  unfolding delete_comparison_def with_comparison_def
proof (intro keeps_with_snapper keepsI)
  fix i s assume ok: "ok0 me s"
  let ?c = "find_client me s"
  show "ok0 me (snd (bindS (getS (\<lambda>s. (loaded_id i s, snaps i s, find_client me s))) (\<lambda>(k, es, cl).
       case cl of None \<Rightarrow> throwS NoComparison
       | Some c \<Rightarrow> bindS (liftS (find_comparison k (found_num n1 es) (found_num n2 es) c)) (\<lambda>i.
           thenS (release_comparison (cl_comparisons c ! i))
             (thenS (modifyS (upd_client me (\<lambda>c. c\<lparr>cl_comparisons := drop_nth i (cl_comparisons c)\<rparr>))) (reply me RUnit)))) s))"
  proof (cases ?c)
    case (Some cl)
    show ?thesis
    proof (cases "find_comparison (loaded_id i s) (found_num n1 (snaps i s)) (found_num n2 (snaps i s)) cl")
      case (Inr j)
      then show ?thesis using Some delete_body_ok [OF ok Some find_comparison_Inr [OF Inr]] by simp
    qed (use Some ok in simp)
  qed (use ok in simp)
qed

lemma keeps_get_files [keeps]: "keeps (ok0 me) (get_files E me c n1 n2)"
  unfolding get_files_def with_comparison_def by (intro keeps)

subsection \<open>Dispatch\<close>

definition safe :: "string \<Rightarrow> handler \<Rightarrow> bool" where
  "safe me h \<longleftrightarrow> (\<forall>s. ok0 me s \<longrightarrow> okx [] (\<lambda>_. 0) (snd (h s)))"

lemma keeps_safe: "keeps (ok0 me) h \<Longrightarrow> safe me h"
  by (simp add: safe_def keeps_def okc_def)

lemma safe_args:
  "(\<And>a. safe me (f a)) \<Longrightarrow> safe me (args1 d f vs)" "(\<And>a vs. safe me (g a vs)) \<Longrightarrow> safe me (args d g vs)"
  by (simp_all add: safe_def args1_def args_def okc_def bindS_def split: sum.split prod.split)

lemma safe_with_args: "safe me h \<Longrightarrow> safe me (with_args vs h)"
  by (simp add: safe_def with_args_def throw_ifS_def okc_def)

lemma safe_begin: "safe me (create_comparison_begin E me c n1 n2)"
  using begin_ok by (simp add: safe_def)

lemmas safe_requests = safe_begin keeps_simple_requests [THEN keeps_safe] keeps_delete_config [THEN keeps_safe]
  keeps_delete_snapshots [THEN keeps_safe] keeps_create_post [THEN keeps_safe]
  keeps_delete_comparison [THEN keeps_safe] keeps_get_files [THEN keeps_safe]

lemma safe_handler: "method_handler E me name vs = Some h \<Longrightarrow> safe me h"
  unfolding method_handler_def Let_def
  by (auto split: if_split_asm intro!: safe_with_args safe_args safe_requests)

lemma safe_dispatch:
  assumes "ok0 me s"
  shows "okx [] (\<lambda>_. 0) (snd (dispatch E me msg s))"
proof -
  have e: "okx [] (\<lambda>_. 0) s' \<Longrightarrow> okx [] (\<lambda>_. 0) (snd (emit x s'))" for s' x
    using silent_keeps(2) [OF silent_emit(1)] unfolding keeps_def by blast
  have "okx [] (\<lambda>_. 0) (snd (answering me h s))" if "safe me h" for h
  proof -
    obtain r s1 where h: "h s = (r, s1)" by fastforce
    have "okx [] (\<lambda>_. 0) s1" using that assms h unfolding safe_def by (metis snd_conv)
    then show ?thesis using h e by (cases r) (auto simp: answering_def split: prod.split)
  qed
  then show ?thesis
    using e assms safe_handler unfolding dispatch_def by (auto simp: okc_def split: option.split)
qed

subsection \<open>Threads and the main loop\<close>

abbreviation okS :: "server \<Rightarrow> bool" where
  "okS \<equiv> okx [] (\<lambda>_. 0)"

lemma okS_silent: "silent m \<Longrightarrow> okS s \<Longrightarrow> okS (snd (m s))"
  using silent_keeps(2) unfolding keeps_def by blast

lemma silent_tasks: "silent (modifyS (upd_client me (\<lambda>c. c\<lparr>cl_tasks := f (cl_tasks c)\<rparr>)))"
  by (rule silent_upd_client) simp

lemma client_work_ok:
  assumes "okS s" "find_client me s = Some c" "cl_pending c = None"
  shows "okS (snd (client_work E me s))"
proof (cases "cl_tasks c")
  case (Cons msg rest)
  let ?s1 = "upd_client me (\<lambda>c. c\<lparr>cl_tasks := rest\<rparr>) s"
  have 1: "okS ?s1" using okS_silent [OF silent_tasks [of me "\<lambda>_. rest"] assms(1)] by simp
  have "clients_core ?s1 = clients_core s"
    using silentD(4) [OF silent_tasks [of me "\<lambda>_. rest"], of s] by simp
  then have "ok0 me ?s1" using 1 find_client_core [OF assms(2)] assms(3) by (auto simp: okc_def idle_def)
  then show ?thesis using safe_dispatch assms(2) Cons by (simp add: client_work_def)
qed (use assms in \<open>simp add: client_work_def\<close>)

lemma client_finish_idle:
  assumes "okS s" "find_client me s = Some c" "cl_pending c = Some p"
  shows "ok0 me (snd (client_finish E me s))"
proof -
  obtain r s1 where b: "create_comparison_end E me p s = (r, s1)" by fastforce
  have "ok0 me s1" using end_ok [OF assms(1), of me "cl_comparisons c" p E] find_client_core [OF assms(2)] assms(3) b by simp
  then show ?thesis
    using assms(2,3) b keepsD [OF silent_keeps(1) [OF silent_emit(1)]]
    by (cases r) (auto simp: client_finish_def answering_def keeps_def emit_def okc_def idle_def okx_core clients_core_def split: prod.split)
qed

lemma client_finish_ok:
  assumes "okS s"
  shows "okS (snd (client_finish E me s))"
proof (cases "find_client me s")
  case (Some c)
  show ?thesis
  proof (cases "cl_pending c")
    case (Some p)
    then show ?thesis using client_finish_idle [OF assms \<open>find_client me s = Some c\<close>] by (simp add: okc_def)
  qed (use Some assms in \<open>simp add: client_finish_def\<close>)
qed (use assms in \<open>simp add: client_finish_def\<close>)

lemma client_interrupt_ok:
  assumes "okS s"
  shows "okS (snd (client_interrupt E me s))"
proof -
  obtain r s1 where b: "client_finish (E\<lparr>se_cmp := interrupted_walk\<rparr>) me s = (r, s1)" by fastforce
  have "okS s1" using client_finish_ok [OF assms, of "E\<lparr>se_cmp := interrupted_walk\<rparr>" me] b by simp
  then show ?thesis
    using b okS_silent [OF silent_tasks [of me "\<lambda>_. []"]] by (cases r) (simp_all add: client_interrupt_def)
qed

lemma background_unchanged:
  "background (snd (getSnapper E i s)) = background s" "background (snd (onSnaps i f s)) = background s"
proof -
  show "background (snd (onSnaps i f s)) = background s" by (cases rule: onSnaps_cases [of s i f]) simp_all
  show "background (snd (getSnapper E i s)) = background s"
  proof -
    obtain r s1 where o: "onEtc (snapper_new (sysenv.truncate E) (ci_name (me_info (meta_of s i))) False) s = (r, s1)"
      by fastforce
    have "background s1 = background s" using onEtc_sv [OF o] by blast
    then show ?thesis using o by (cases r) (simp_all add: getSnapper_eq)
  qed
qed

lemma worker_unchanged:
  "getSnapper E i s = (r, s1) \<Longrightarrow> sv_worker s1 = sv_worker s" "onSnaps i f s = (x, s1) \<Longrightarrow> sv_worker s1 = sv_worker s"
  using background_unchanged(1) [of E i s] background_unchanged(2) [of i f s] by (simp_all add: background_def)

text \<open>The configuration of a task that is counted is loaded.\<close>

lemma task_present:
  assumes "okS s" "t \<in> set (counted (background s))"
  shows "present (bt_meta t) (loaded_id (bt_meta t) s) {bt_num1 t, bt_num2 t} s"
proof -
  have F: "fits (sv_next_id s) (held s) (pendings s @ working (background s)) (counted (background s)) (\<lambda>_. 0) (sv_metas s)"
    using assms(1) by (simp add: okx_def)
  obtain k where k: "has_meta (sv_metas s) (bt_meta t) k {bt_num1 t, bt_num2 t}" using fitsD(8) [OF F assms(2)] by blast
  then obtain m where m: "m \<in> set (sv_metas s)" "me_id m = bt_meta t" "loaded m = Some k" by (auto simp: has_meta_def)
  then have "loaded_id (bt_meta t) s = k"
    using meta_of_eq [OF assms(1) m(1,2)] by (auto simp: loaded_id_def loaded_def)
  then show ?thesis using k by (simp add: present_def)
qed

lemma grows_background: "grows (bindS (getS entries) (\<lambda>es.
    comparison_new (sp_ops sp) (se_cmp E (sp_subvolume sp)) (sp_subvolume sp) (sp_ignore_patterns sp)
      (find_num (bt_num1 t) es) (find_num (bt_num2 t) es)))"
  by (intro keeps)

lemma background_work_ok:
  assumes "okS s" "background_work E s = (Inr (), s')"
  shows "okS s'"
proof (cases "sv_worker s")
  case Waiting
  have "okS (s\<lparr>sv_worker := Took t\<rparr>)" if "sv_tasks s = t # ts" for t ts
    using assms(1) Waiting that by (simp add: okx_core background_def)
  then show ?thesis using assms Waiting
    by (auto simp: background_work_def set_worker_def split: list.splits)
next
  case (Took t)
  obtain u s1 where g: "getSnapper E (bt_meta t) s = (Inr u, s1)" and s': "s' = s1\<lparr>sv_worker := Holds t (loaded_id (bt_meta t) s1)\<rparr>"
    using assms(2) Took by (auto simp: background_work_def set_worker_def bindS_Inr)
  have 1: "okS s1" by (rule keepsD [OF keeps_getSnapper_okx assms(1) g])
  have w: "sv_worker s1 = Took t" using worker_unchanged(1) [OF g] Took by simp
  then have "t \<in> set (counted (background s1))" using 1 by (cases "sv_tasks s1") (auto simp: okx_def background_def)
  then show ?thesis unfolding s' by (intro okx_hold [OF 1 w] task_present [OF 1])
next
  case (Holds t k)
  then obtain c s1 where o: "onSnaps (bt_meta t) (\<lambda>sp. bindS (getS entries) (\<lambda>es.
            comparison_new (sp_ops sp) (se_cmp E (sp_subvolume sp)) (sp_subvolume sp) (sp_ignore_patterns sp)
              (find_num (bt_num1 t) es) (find_num (bt_num2 t) es))) s = (Inr c, s1)"
    and s': "s' = s1\<lparr>sv_worker := Compared t k\<rparr>"
    using assms(2) by (auto simp: background_work_def background_comparison_def set_worker_def bindS_Inr)
  have "okS s1" by (rule keepsD [OF keeps_onSnaps_okx [OF grows_background] assms(1) o])
  moreover have "sv_worker s1 = Holds t k" using worker_unchanged(2) [OF o] Holds by simp
  ultimately show ?thesis unfolding s' by (rule okx_compared)
next
  case (Compared t k)
  have s': "s' = (upd_meta (bt_meta t) (dec_count (sv_now s)) s)\<lparr>sv_worker := Returned\<rparr>"
    using assms(2) Compared by (auto simp: background_work_def dec_use_count_def set_worker_def)
  have "okx [] (\<lambda>x. 0 - (if x = bt_meta t then 1 else 0)) (upd_meta (bt_meta t) (dec_count (sv_now s)) s)"
    by (rule okx_dec [OF assms(1)])
  from okx_returned [OF this, of t k] show ?thesis using Compared by (simp add: s' if_distrib cong: if_cong)
next
  case Returned
  then show ?thesis using assms by (auto simp: background_work_def okx_core background_def)
qed

subsection \<open>Clients that have gone\<close>

lemma okx_remove_client:
  assumes ok: "okS s" and c: "c \<in> set (sv_clients s)" "cl_pending c = None"
  shows "okx (cl_comparisons c) (\<lambda>_. 0) (s\<lparr>sv_clients := filter (\<lambda>d. cl_name d \<noteq> cl_name c) (sv_clients s)\<rparr>)"
proof -
  have d: "distinct (map cl_name (sv_clients s))" using ok by (simp add: okx_def)
  obtain a b where ab: "sv_clients s = a @ c # b" using c(1) by (meson split_list)
  have f: "filter (\<lambda>d. cl_name d \<noteq> cl_name c) (sv_clients s) = a @ b"
  proof -
    have "cl_name c \<notin> cl_name ` set a" "cl_name c \<notin> cl_name ` set b" using d unfolding ab by simp_all
    then have "\<forall>x\<in>set a. cl_name x \<noteq> cl_name c" "\<forall>x\<in>set b. cl_name x \<noteq> cl_name c" by (metis imageI)+
    then have "filter (\<lambda>d. cl_name d \<noteq> cl_name c) a = a" "filter (\<lambda>d. cl_name d \<noteq> cl_name c) b = b"
      by (simp_all add: filter_id_conv)
    then show ?thesis unfolding ab by simp
  qed
  let ?h = "\<lambda>cs. concat (map cl_comparisons cs)" and ?p = "\<lambda>cs. List.map_filter cl_pending cs"
  have F: "fits (sv_next_id s) (?h a @ cl_comparisons c @ ?h b) (?p a @ ?p b @ working (background s)) (counted (background s)) (\<lambda>_. 0) (sv_metas s)"
    using ok c(2) unfolding okx_def held_def pendings_def ab by (simp add: map_filter_def)
  have "fits (sv_next_id s) (cl_comparisons c @ ?h (a @ b)) (?p (a @ b) @ working (background s)) (counted (background s)) (\<lambda>_. 0) (sv_metas s)"
    by (rule fits_refs [OF F]) (auto simp: refs_def map_filter_def)
  moreover have "worker_ok (background s)" using ok by (simp add: okx_def)
  ultimately show ?thesis using d unfolding okx_def held_def pendings_def by (simp add: f) (simp add: ab)
qed

lemma release_all: "okx hs e s \<Longrightarrow> okx [] e (snd (foreachS release_comparison hs s))
    \<and> fst (foreachS release_comparison hs s) = Inr () \<and> sv_clients (snd (foreachS release_comparison hs s)) = sv_clients s"
proof (induction hs arbitrary: s)
  case (Cons h hs)
  obtain s1 where r: "release_comparison h s = (Inr (), s1)" by (simp add: release_comparison_def)
  have "sv_clients s1 = sv_clients s" using r by (auto simp: release_comparison_def)
  moreover have "okx hs e s1" using okx_release [OF Cons.prems] r by simp
  ultimately show ?case using Cons.IH [of s1] r by simp
qed simp

definition okC :: "client_rec list \<Rightarrow> server \<Rightarrow> bool" where
  "okC cs s \<longleftrightarrow> okS s \<and> sv_clients s = cs"

lemma keeps_okC:
  assumes "keeps okS m" "\<And>s. sv_clients (snd (m s)) = sv_clients s"
  shows "keeps (okC cs) m"
  using assms by (simp add: keeps_def okC_def)

lemma onEtc_clients: "onEtc m s = (r, s') \<Longrightarrow> sv_clients s' = sv_clients s"
  by (auto simp: onEtc_def split: prod.splits)

lemma keeps_return_mounts: "keeps (okC cs) (return_mounts E m)"
proof -
  have f: "keeps (okC cs) (find_meta c)" "keeps (okC cs) (find_snapshot i num)" for c i num
    by (intro keeps_okC silent_keeps(2) silent_finds,
        simp add: find_meta_def find_snapshot_def Let_def split: option.split)+
  have o: "keeps (okC cs) (onSnaps i (\<lambda>sp. umountAt (sp_ops sp) False j))" for i j
  proof (rule keeps_okC [OF keeps_onSnaps_okx [OF grows_mountAt(2)]])
    fix s
    show "sv_clients (snd (onSnaps i (\<lambda>sp. umountAt (sp_ops sp) False j) s)) = sv_clients s"
      by (cases rule: onSnaps_cases [of s i "\<lambda>sp. umountAt (sp_ops sp) False j"]) simp_all
  qed
  have g: "keeps (okC cs) (getSnapper E i)" for i
  proof (rule keeps_okC [OF keeps_getSnapper_okx])
    fix s
    obtain r s1 where o: "onEtc (snapper_new (sysenv.truncate E) (ci_name (me_info (meta_of s i))) False) s = (r, s1)"
      by fastforce
    have "sv_clients s1 = sv_clients s" by (rule onEtc_clients [OF o])
    then show "sv_clients (snd (getSnapper E i s)) = sv_clients s" using o by (cases r) (simp_all add: getSnapper_eq)
  qed
  show ?thesis unfolding return_mounts_def by (intro keeps f o g)
qed

lemma remove_zombie_ok:
  assumes "okS s" "c \<in> set (sv_clients s)"
  shows "okS (snd (remove_zombie E c s)) \<and> (set (sv_clients (snd (remove_zombie E c s))) \<supseteq> {d \<in> set (sv_clients s). cl_name d \<noteq> cl_name c})"
proof (cases "cl_zombie c \<and> finished c")
  case True
  let ?s1 = "s\<lparr>sv_clients := filter (\<lambda>d. cl_name d \<noteq> cl_name c) (sv_clients s)\<rparr>"
  have "okx (cl_comparisons c) (\<lambda>_. 0) ?s1"
    using True assms by (intro okx_remove_client) (simp_all add: finished_def)
  from release_all [OF this] obtain s2 where s2: "foreachS release_comparison (cl_comparisons c) ?s1 = (Inr (), s2)"
    "okS s2" "sv_clients s2 = sv_clients ?s1" by (metis prod.collapse)
  have "keeps (okC (sv_clients ?s1)) (foreachS (return_mounts E) (cl_mounts c))"
    by (intro keeps keeps_return_mounts)
  then have "okC (sv_clients ?s1) (snd (foreachS (return_mounts E) (cl_mounts c) s2))"
    using s2 unfolding keeps_def okC_def by simp
  then show ?thesis using True s2(1) by (auto simp: remove_zombie_def destroy_client_def okC_def)
qed (use assms in \<open>auto simp: remove_zombie_def\<close>)

lemma remove_zombies_ok:
  "okS s \<Longrightarrow> set cs \<subseteq> set (sv_clients s) \<Longrightarrow> distinct (map cl_name cs) \<Longrightarrow> okS (snd (foreachS (remove_zombie E) cs s))"
proof (induction cs arbitrary: s)
  case (Cons c cs)
  obtain r s1 where r: "remove_zombie E c s = (r, s1)" by fastforce
  have "okS s1" "{d \<in> set (sv_clients s). cl_name d \<noteq> cl_name c} \<subseteq> set (sv_clients s1)"
    using remove_zombie_ok [OF Cons.prems(1), of c E] Cons.prems(2) r by simp_all
  moreover have "set cs \<subseteq> {d \<in> set (sv_clients s). cl_name d \<noteq> cl_name c}"
    using Cons.prems(2,3) by (auto simp: image_iff)
  ultimately show ?case using Cons.IH [of s1] Cons.prems(3) r by (cases r) auto
qed simp

lemma unload_unused_ok: "keeps okS (unload_unused E i)"
proof (rule keepsI)
  fix s assume ok: "okS s"
  show "okS (snd (unload_unused E i s))"
  proof (cases "me_snapper (meta_of s i) \<noteq> None \<and> unused_for (sv_now s) (meta_of s i) > snapper_cleanup_time")
    case True
    then have "me_counter (meta_of s i) = 0" by (auto simp: unused_for_def snapper_cleanup_time_def split: if_splits)
    then have "zero_use i s" using meta_of_eq [OF ok] by (auto simp: zero_use_def)
    then show ?thesis using unload_okx [OF ok] True by (simp add: unload_unused_def)
  next
    case False
    have "unload_unused E i s = whenS (me_snapper (meta_of s i) \<noteq> None
        \<and> unused_for (sv_now s) (meta_of s i) > snapper_cleanup_time) (unload E i) s"
      by (simp only: unload_unused_def bindS_def getS_def prod.case sum.case)
    then have "unload_unused E i s = (Inr (), s)" by (simp only: whenS_def if_not_P [OF False] retS_def)
    then show ?thesis using ok by simp
  qed
qed

lemma okS_new_client:
  assumes "okS s" "find_client n s = None"
  shows "okS (s\<lparr>sv_clients := sv_clients s @ [new_client n], sv_idle_timeout := t\<rparr>)"
proof -
  have "n \<notin> cl_name ` set (sv_clients s)" using assms(2) by (auto simp: find_client_def find_None_iff)
  then show ?thesis
    using assms(1) by (simp add: okx_def held_def pendings_def new_client_def map_filter_def)
qed

lemma event_ok:
  assumes "okS s" "enabled s ev" "run_event E ev s = (Inr (), s')"
  shows "okS s'"
proof (cases ev)
  case (Call msg)
  let ?n = "ms_sender msg"
  let ?f = "modifyS (\<lambda>s. if find_client ?n s = None
      then s\<lparr>sv_clients := sv_clients s @ [new_client ?n], sv_idle_timeout := - 1\<rparr> else s)"
  have "keeps okS ?f" using okS_new_client by (intro keeps_modify) auto
  then have "keeps okS (method_call E msg)"
    unfolding method_call_def
    by (intro keeps_if keeps_bind silent_keeps(2) [OF silent_emit(1)] silent_keeps(2) [OF silent_tasks])
  then show ?thesis using assms Call unfolding keeps_def by (metis run_event.simps(1) snd_conv)
next
  case (Work n)
  then obtain c where "find_client n s = Some c" "cl_pending c = None" using assms(2) by (auto split: option.splits)
  then show ?thesis using client_work_ok [OF assms(1)] assms(3) Work by (metis run_event.simps(2) snd_conv)
next
  case (Finish n)
  then show ?thesis using client_finish_ok [OF assms(1), of E n] assms(3) by simp
next
  case (Interrupt n)
  then show ?thesis using client_interrupt_ok [OF assms(1), of E n] assms(3) by simp
next
  case Background
  then show ?thesis using background_work_ok [OF assms(1)] assms(3) by simp
next
  case (Disconnected n)
  have "silent (client_disconnected n)" unfolding client_disconnected_def by (rule silent_upd_client) simp
  then show ?thesis using okS_silent assms Disconnected by (metis run_event.simps(6) snd_conv)
next
  case Periodic
  have 1: "keeps okS (remove_zombies E)"
  proof (rule keepsI)
    fix s assume "okS s"
    then show "okS (snd (remove_zombies E s))"
      using remove_zombies_ok [of s "sv_clients s" E] by (simp add: remove_zombies_def okx_def)
  qed
  have 2: "keeps okS (modifyS (\<lambda>s. if sv_clients s = [] \<and> sv_tasks s = [] then s\<lparr>sv_idle_timeout := idle_time\<rparr> else s))"
    by (intro keeps_modify) (auto simp: okx_core)
  have "keeps okS (periodic E)"
    unfolding periodic_def by (intro keeps_bind 1 2 keeps_basic keeps_foreach unload_unused_ok)
  then show ?thesis using assms Periodic unfolding keeps_def by (metis run_event.simps(7) snd_conv)
next
  case (Tick n)
  then show ?thesis using assms by (auto simp: okx_core)
qed

lemma start_ok: "metas_init E (start_server e now) = (Inr (), s) \<Longrightarrow> okS s"
proof -
  assume a: "metas_init E (start_server e now) = (Inr (), s)"
  have 0: "okS (start_server e now)"
    by (simp add: start_server_def okx_def fits_def held_def pendings_def map_filter_def background_def)
  have "keeps okS (metas_init E)"
    unfolding metas_init_def by (intro keeps_bind keeps_foreach keeps_add_meta_okx silent_keeps(2) silent_onEtc)
  from keepsD [OF this 0 a] show ?thesis .
qed

lemma reachable_ok: "reachable E s \<Longrightarrow> server_ok s"
  unfolding server_ok_def by (induction rule: reachable.induct) (auto intro: start_ok event_ok)

end
