(* ===== verification/ServerExample.thy ===== *)
theory ServerExample
  imports ServerEvents SnapperClaims
begin

text \<open>
  A run of the server on concrete data, for the witnesses: one configuration on the root directory
  with one snapshot, root as \<open>:1.1\<close>, a user as \<open>:1.2\<close>, and the state in which root holds a
  comparison of the running system and the snapshot.
\<close>

definition xml_ex :: xnode where
  "xml_ex = Elem ''snapshot'' [setChildValue ''type'' ''single'', setChildValue ''num'' ''1'',
     setChildValue ''date'' (datetime 1369562400)]"

definition disk_ex :: world where
  "disk_ex = \<lparr>infos_exist = True,
     infos = [(''1'', IDir [(''snapshot'', Subvol), (''info.xml'', Reg [])])],
     devices = [], mounts = [], clock = 0, mktemp_value = 0, faults = []\<rparr>"

definition etc1_ex :: etc where
  "etc1_ex = \<lparr>ec_files = [(''/etc/sysconfig/snapper'', ''SNAPPER_CONFIGS='' @ [CHR 0x22] @ ''root'' @ [CHR 0x22, CHR 0x0A]),
      (''/etc/snapper/configs/root'', ''SUBVOLUME=/'' @ [CHR 0x0A])], ec_disks = (\<lambda>_. disk_ex)\<rparr>"

definition senv_ex :: senv where
  "senv_ex = sysenv.extend (env_ex\<lparr>se_xml := \<lparr>xml_dump = (\<lambda>_. []), xml_parse = (\<lambda>_. Some xml_ex)\<rparr>\<rparr>)
     \<lparr>se_user = (\<lambda>_. None), se_group = (\<lambda>_. None), se_sender_uid = (\<lambda>n. Some (if n = '':1.1'' then 0 else 1000)),
      se_cmp = (\<lambda>_ _ _. retS [(''/a'', CREATED)]), se_doctype = []\<rparr>"

lemma senv_ex_simps [simp]:
  "se_xml (sysenv.truncate senv_ex) = \<lparr>xml_dump = (\<lambda>_. []), xml_parse = (\<lambda>_. Some xml_ex)\<rparr>"
  "se_xml senv_ex = \<lparr>xml_dump = (\<lambda>_. []), xml_parse = (\<lambda>_. Some xml_ex)\<rparr>"
  "se_sysconfigfile (sysenv.truncate senv_ex) = ''/etc/sysconfig/snapper''"
  "se_user senv_ex = (\<lambda>_. None)" "se_group senv_ex = (\<lambda>_. None)"
  "se_sender_uid senv_ex = (\<lambda>n. Some (if n = '':1.1'' then 0 else 1000))"
  "se_cmp senv_ex = (\<lambda>_ _ _. retS [(''/a'', CREATED)])"
  by (simp_all add: senv_ex_def env_ex_def sysenv.truncate_def sysenv.extend_def)

subsection \<open>Start\<close>

fun run_events :: "senv \<Rightarrow> event list \<Rightarrow> server \<Rightarrow> server option" where
  "run_events E [] s = Some s"
| "run_events E (ev # evs) s = (if \<not> enabled s ev then None
     else (case run_event E ev s of (Inl _, _) \<Rightarrow> None | (Inr _, s') \<Rightarrow> run_events E evs s'))"

lemma run_events_reachable: "reachable E s \<Longrightarrow> run_events E evs s = Some s' \<Longrightarrow> reachable E s'"
proof (induction evs arbitrary: s)
  case (Cons ev evs)
  obtain r s1 where r: "run_event E ev s = (r, s1)" by fastforce
  then show ?case using Cons by (auto split: if_splits sum.splits intro: reachable.step)
qed simp

definition info_ex :: config_info where
  "info_ex = \<lparr>ci_name = ''root'', ci_subvolume = ''/'', ci_raw = [(''SUBVOLUME'', ''/'')]\<rparr>"

definition server_ex :: server where
  "server_ex = \<lparr>sv_metas = [\<lparr>me_id = 0, me_info = info_ex, me_uids = [], me_counter = 0, me_last_used = 1000,
       me_snapper = None\<rparr>],
     sv_clients = [], sv_tasks = [], sv_worker = Waiting, sv_etc = etc1_ex, sv_now = 1000, sv_next_id = 1,
     sv_idle_timeout = idle_time, sv_out = []\<rparr>"

lemma read_sysconfig_ex:
  "map_of (ec_files etc1_ex) ''/etc/sysconfig/snapper'' = Some (''SNAPPER_CONFIGS='' @ [CHR 0x22] @ ''root'' @ [CHR 0x22, CHR 0x0A])"
  "map_of (ec_files etc1_ex) (config_path ''root'') = Some (''SUBVOLUME=/'' @ [CHR 0x0A])"
  by (simp_all add: etc1_ex_def config_path_def CONFIGSDIR_def)

definition cfg_ex :: sysconfig where
  "cfg_ex = \<lparr>sc_lines = [''SUBVOLUME=/''], sc_modified = False\<rparr>"

definition syscfg_ex :: sysconfig where
  "syscfg_ex = \<lparr>sc_lines = [''SNAPPER_CONFIGS='' @ [CHR 0x22] @ ''root'' @ [CHR 0x22]], sc_modified = False\<rparr>"

lemma open_ex:
  "open_config ''/etc/sysconfig/snapper'' etc1_ex = (Inr syscfg_ex, etc1_ex)"
  "open_config (config_path ''root'') etc1_ex = (Inr cfg_ex, etc1_ex)"
proof -
  have "read_lines (''SNAPPER_CONFIGS='' @ [CHR 0x22] @ ''root'' @ [CHR 0x22, CHR 0x0A])
      = [''SNAPPER_CONFIGS='' @ [CHR 0x22] @ ''root'' @ [CHR 0x22]]"
    "read_lines (''SUBVOLUME=/'' @ [CHR 0x0A]) = [''SUBVOLUME=/'']" by code_simp+
  then show
    "open_config ''/etc/sysconfig/snapper'' etc1_ex = (Inr syscfg_ex, etc1_ex)"
    "open_config (config_path ''root'') etc1_ex = (Inr cfg_ex, etc1_ex)"
    by (simp_all add: open_config_def read_sysconfig_ex sysconfig_open_def cfg_ex_def syscfg_ex_def)
qed

lemma values_ex:
  "config_names syscfg_ex = [''root'']"
  "getValue cfg_ex ''SUBVOLUME'' = Some ''/''" "getValue cfg_ex ''FSTYPE'' = None"
  "getAllValues cfg_ex = [(''SUBVOLUME'', ''/'')]"
  by code_simp+

lemma start_ex: "metas_init senv_ex (start_server etc1_ex 1000) = (Inr (), server_ex)"
proof -
  have g: "getConfig ''root'' etc1_ex = (Inr info_ex, etc1_ex)"
    by (simp add: getConfig_def open_ex values_ex info_ex_def)
  then have "getConfigs (sysenv.truncate senv_ex) etc1_ex = (Inr [info_ex], etc1_ex)"
    by (simp add: getConfigs_def catchS_def open_ex values_ex bindS_def)
  moreover have "meta_uids senv_ex [(''SUBVOLUME'', ''/'')] = []"
    by (simp add: meta_uids_def value_words_def map_filter_def)
  ultimately show ?thesis
    by (simp add: metas_init_def onEtc_def start_server_def add_meta_def new_meta_def server_ex_def info_ex_def bindS_def)
qed

lemma reachable_ex: "reachable senv_ex server_ex"
  by (rule reachable.start [OF start_ex])

subsection \<open>Loading the configuration\<close>

definition snap1_ex :: snapshot where
  "snap1_ex = new_snapshot SINGLE 1 1369562400"

lemma decString_1: "decString (Suc 0) = ''1''"
  by code_simp

lemma read_info_ex: "read_info ''1'' xml_ex = Some snap1_ex"
proof -
  have "scan_datetime (datetime 1369562400) = 1369562400" by (rule scan_datetime_datetime) simp_all
  moreover have "read_into ''1'' 0 = 1" "read_into ''1'' 1 = 1"
    using read_into_decString [of 1] by (simp_all add: decString_1 del: decString.simps)
  moreover have "toValue ''single'' = Some SINGLE" by code_simp
  ultimately show ?thesis
    by (simp add: read_info_def xml_ex_def setChildValue_def is_element_def getChildUint_def snap1_ex_def new_snapshot_def)
qed

definition sp_ex :: snapper where
  "sp_ex = \<lparr>sp_name = ''root'', sp_config = cfg_ex, sp_subvolume = ''/'', sp_ops = btrfs_ops ''/'',
     sp_ignore_patterns = [], sp_snapshots = [current_snapshot, snap1_ex]\<rparr>"

lemma initialize_ex:
  "initialize \<lparr>xml_dump = (\<lambda>_. []), xml_parse = (\<lambda>_. Some xml_ex)\<rparr> (btrfs_ops ''/'') \<lparr>disk = disk_ex, entries = []\<rparr>
     = (Inr (), \<lparr>disk = disk_ex, entries = [current_snapshot, snap1_ex]\<rparr>)"
proof -
  let ?X = "\<lparr>xml_dump = (\<lambda>_. []), xml_parse = (\<lambda>_. Some xml_ex)\<rparr>"
  have c: "fo_checkSnapshot (btrfs_ops ''/'') 1 disk_ex"
    by (simp add: btrfs_ops_def btrfs_checkSnapshot_def dir_entries_def disk_ex_def decString_1 del: decString.simps)
  have "read_one ?X (btrfs_ops ''/'') ''1'' disk_ex = (Inr [snap1_ex], disk_ex)"
    using c by (simp add: read_one_def open_sub_def sys_def sys_ok_def bindS_def read_info_ex disk_ex_def
        snap1_ex_def new_snapshot_def)
  then have "read_list ?X (btrfs_ops ''/'') disk_ex = (Inr [snap1_ex], disk_ex)"
    by (simp add: read_list_def openInfosDir_def sys_def sys_ok_def bindS_def catchS_def disk_ex_def)
  then show ?thesis
    by (simp add: initialize_def catchS_def onW_def bindS_def sort_entries_def current_snapshot_def snap1_ex_def
        new_snapshot_def)
qed

lemma snapper_new_ex: "snapper_new (sysenv.truncate senv_ex) ''root'' False etc1_ex = (Inr sp_ex, etc1_ex)"
proof -
  have "loadIgnorePatterns etc1_ex = []" by code_simp
  moreover have "ec_disks etc1_ex ''/'' = disk_ex" "(ec_disks etc1_ex)(''/'' := disk_ex) = ec_disks etc1_ex"
    by (simp_all add: etc1_ex_def fun_eq_iff)
  ultimately show ?thesis
    by (simp add: snapper_new_def catchS_def open_ex values_ex filesystem_create_def onDisk_def onList_def
        initialize_ex bindS_def sp_ex_def)
qed

subsection \<open>A comparison\<close>

definition loaded_ex :: server where
  "loaded_ex = server_ex\<lparr>sv_metas := [(hd (sv_metas server_ex))\<lparr>me_snapper := Some (1, sp_ex)\<rparr>], sv_next_id := 2\<rparr>"

lemma getSnapper_ex:
  "getSnapper senv_ex 0 (server_ex\<lparr>sv_clients := cs, sv_idle_timeout := t\<rparr>)
     = (Inr (), loaded_ex\<lparr>sv_clients := cs, sv_idle_timeout := t\<rparr>)"
  by (simp add: getSnapper_def meta_of_def server_ex_def onEtc_def info_ex_def snapper_new_ex bindS_def upd_meta_def loaded_ex_def)

definition request_ex :: "string \<Rightarrow> string \<Rightarrow> dval list \<Rightarrow> message" where
  "request_ex me name vs = \<lparr>ms_sender = me, ms_interface = INTERFACE, ms_member = name, ms_args = vs\<rparr>"

definition comparison_request :: message where
  "comparison_request = request_ex '':1.1'' ''CreateComparison'' [enc_string ''root'', enc_u32 0, enc_u32 1]"

definition pending_ex :: pending where
  "pending_ex = \<lparr>pd_meta = 0, pd_snapper = 1, pd_num1 = Some 0, pd_num2 = Some 1\<rparr>"

definition called_ex :: server where
  "called_ex = server_ex\<lparr>sv_clients := [(new_client '':1.1'')\<lparr>cl_tasks := [comparison_request]\<rparr>], sv_idle_timeout := - 1\<rparr>"

definition begun_ex :: server where
  "begun_ex = upd_meta 0 inc_count
     (loaded_ex\<lparr>sv_clients := [(new_client '':1.1'')\<lparr>cl_pending := Some pending_ex\<rparr>], sv_idle_timeout := - 1\<rparr>)"

lemma call_ex: "method_call senv_ex comparison_request server_ex = (Inr (), called_ex)"
  by (simp add: method_call_def comparison_request_def request_ex_def find_client_def called_ex_def server_ex_def
      upd_client_def new_client_def INTERFACE_def bindS_def)

lemma nums_ex: "sn_num current_snapshot = 0" "sn_num snap1_ex = 1"
  by (simp_all add: current_snapshot_def snap1_ex_def new_snapshot_def)

lemma loaded_ex_meta: "meta_of (loaded_ex\<lparr>sv_clients := cs, sv_idle_timeout := t\<rparr>) 0 = (hd (sv_metas server_ex))\<lparr>me_snapper := Some (1, sp_ex)\<rparr>"
  by (simp add: loaded_ex_def meta_of_def server_ex_def)

lemma begin_ex:
  "create_comparison_begin senv_ex '':1.1'' ''root'' 0 1
     (server_ex\<lparr>sv_clients := [new_client '':1.1''], sv_idle_timeout := - 1\<rparr>) = (Inr (), begun_ex)"
proof -
  let ?s = "server_ex\<lparr>sv_clients := [new_client '':1.1''], sv_idle_timeout := - 1\<rparr>"
  have "find_meta ''root'' ?s = (Inr 0, ?s)" by (simp add: find_meta_def server_ex_def info_ex_def)
  moreover have "check_permission senv_ex '':1.1'' 0 ?s = (Inr (), ?s)"
    by (simp add: check_permission_def get_unix_userid_def)
  moreover have "found_num 0 [current_snapshot, snap1_ex] = Some 0" "found_num 1 [current_snapshot, snap1_ex] = Some 1"
    by (simp_all add: found_num_def find_num_def nums_ex)
  ultimately show ?thesis
    by (simp add: create_comparison_begin_def with_snapper_def bindS_def getSnapper_ex loaded_id_def snaps_def
        loaded_ex_meta sp_ex_def inc_use_count_def upd_client_def upd_meta_def begun_ex_def pending_ex_def new_client_def)
qed

lemma work_ex: "client_work senv_ex '':1.1'' called_ex = (Inr (), begun_ex)"
proof -
  let ?s = "server_ex\<lparr>sv_clients := [new_client '':1.1''], sv_idle_timeout := - 1\<rparr>"
  let ?h = "create_comparison_begin senv_ex '':1.1'' ''root'' 0 1"
  have "find_client '':1.1'' called_ex = Some ((new_client '':1.1'')\<lparr>cl_tasks := [comparison_request]\<rparr>)"
    by (simp add: find_client_def called_ex_def new_client_def)
  moreover have "upd_client '':1.1'' (\<lambda>c. c\<lparr>cl_tasks := []\<rparr>) called_ex = ?s"
    by (simp add: upd_client_def called_ex_def new_client_def)
  moreover have "method_handler senv_ex '':1.1'' (ms_member comparison_request) (ms_args comparison_request) = Some ?h"
    by (simp add: with_args_def fun_eq_iff method_handler_def comparison_request_def request_ex_def args_def args1_def dec_enc_string
        no_nul_def enc_u32_def)
  ultimately show ?thesis
    using begin_ex
    by (simp add: client_work_def dispatch_def answering_def catchS_def comparison_request_def request_ex_def)
qed

text \<open>The second half: the two trees are compared and the comparison is kept.\<close>

definition sp2_ex :: snapper where
  "sp2_ex = sp_ex\<lparr>sp_snapshots := [current_snapshot, snap1_ex\<lparr>sn_mount_checked := True, sn_mount_user_request := True\<rparr>]\<rparr>"

definition held_ex :: held_comparison where
  "held_ex = \<lparr>hc_snapper = 1, hc_num1 = 0, hc_num2 = 1, hc_files = [new_file ''/a'' CREATED]\<rparr>"

definition meta_ex :: meta where
  "meta_ex = (hd (sv_metas server_ex))\<lparr>me_snapper := Some (1, sp2_ex), me_counter := 1\<rparr>"

definition compared_ex :: server where
  "compared_ex = begun_ex\<lparr>sv_metas := [meta_ex],
     sv_clients := [(new_client '':1.1'')\<lparr>cl_comparisons := [held_ex]\<rparr>], sv_out := [Reply '':1.1'' RUnit]\<rparr>"

lemma comparison_new_ex:
  "comparison_new (btrfs_ops ''/'') (\<lambda>_ _. retS [(''/a'', CREATED)]) ''/'' [] 0 (Suc 0)
     \<lparr>disk = disk_ex, entries = [current_snapshot, snap1_ex]\<rparr> =
   (Inr \<lparr>cp_snapshot1 = 0, cp_snapshot2 = 1,
      cp_paths = \<lparr>system_path = ''/'', pre_path = ''/'', post_path = snapshot_dir_below ''/'' 1\<rparr>,
      cp_files = [new_file ''/a'' CREATED]\<rparr>,
    \<lparr>disk = disk_ex, entries = sp_snapshots sp2_ex\<rparr>)"
proof -
  have f: "files_filter [] [new_file ''/a'' CREATED] = [new_file ''/a'' CREATED]"
    "files_sort [new_file ''/a'' CREATED] = [new_file ''/a'' CREATED]" by code_simp+
  have c: "isCurrent current_snapshot" "\<not> isCurrent snap1_ex" by (simp_all add: isCurrent_def nums_ex)
  show ?thesis
    by (simp add: comparison_new_def comparison_initialize_def comparison_create_def comparison_mount_def
        comparison_umount_def mountAt_def umountAt_def mountFilesystemSnapshot_def umountFilesystemSnapshot_def
        mount_check_def btrfs_ops_def onW_def bindS_def Let_def c f isCurrent_def nums_ex sp2_ex_def snap1_ex_def new_snapshot_def)
qed

lemma begun_ex_meta: "meta_of (begun_ex\<lparr>sv_clients := cs\<rparr>) 0 = (hd (sv_metas server_ex))\<lparr>me_snapper := Some (1, sp_ex), me_counter := 1\<rparr>"
  by (simp add: begun_ex_def upd_meta_def loaded_ex_def meta_of_def server_ex_def inc_count_def)

lemma body_ex:
  "create_comparison_body senv_ex '':1.1'' pending_ex (begun_ex\<lparr>sv_clients := [new_client '':1.1'']\<rparr>)
     = (Inr (), upd_meta 0 inc_count compared_ex)"
proof -
  have p: "pending_index (Some 0) [current_snapshot, snap1_ex] = 0"
    "pending_index (Some 1) [current_snapshot, snap1_ex] = Suc 0"
    by (simp_all add: pending_index_def find_num_def nums_ex)
  have d: "ec_disks (sv_etc begun_ex) ''/'' = disk_ex"
    "(ec_disks (sv_etc begun_ex))(''/'' := disk_ex) = ec_disks (sv_etc begun_ex)"
    by (simp_all add: begun_ex_def upd_meta_def loaded_ex_def server_ex_def etc1_ex_def fun_eq_iff)
  have o: "onSnaps (pd_meta pending_ex) (\<lambda>sp. bindS (getS entries) (\<lambda>es.
        comparison_new (sp_ops sp) (se_cmp senv_ex (sp_subvolume sp)) (sp_subvolume sp) (sp_ignore_patterns sp)
          (pending_index (pd_num1 pending_ex) es) (pending_index (pd_num2 pending_ex) es)))
      (begun_ex\<lparr>sv_clients := [new_client '':1.1'']\<rparr>)
    = (Inr \<lparr>cp_snapshot1 = 0, cp_snapshot2 = 1,
         cp_paths = \<lparr>system_path = ''/'', pre_path = ''/'', post_path = snapshot_dir_below ''/'' 1\<rparr>,
         cp_files = [new_file ''/a'' CREATED]\<rparr>,
       begun_ex\<lparr>sv_clients := [new_client '':1.1''], sv_metas := [meta_ex]\<rparr>)"
    using comparison_new_ex d
    by (simp add: onSnaps_def begun_ex_meta onSnapper_def sp_ex_def pending_ex_def p)
      (simp add: begun_ex_def upd_meta_def loaded_ex_def server_ex_def meta_ex_def inc_count_def sp2_ex_def sp_ex_def)
  show ?thesis
    unfolding create_comparison_body_def
    by (subst bindS_def, subst o, simp add: bindS_def inc_use_count_def reply_def emit_def upd_client_def upd_meta_def compared_ex_def
        new_client_def held_ex_def pending_ex_def)
      (simp add: begun_ex_def upd_meta_def loaded_ex_def server_ex_def meta_ex_def)
qed

lemma finish_ex: "client_finish senv_ex '':1.1'' begun_ex = (Inr (), compared_ex)"
proof -
  have "find_client '':1.1'' begun_ex = Some ((new_client '':1.1'')\<lparr>cl_pending := Some pending_ex\<rparr>)"
    by (simp add: find_client_def begun_ex_def upd_meta_def new_client_def)
  moreover have "upd_client '':1.1'' (\<lambda>c. c\<lparr>cl_pending := None\<rparr>) begun_ex = begun_ex\<lparr>sv_clients := [new_client '':1.1'']\<rparr>"
    by (simp add: upd_client_def begun_ex_def upd_meta_def new_client_def)
  moreover have "dec_use_count 0 (upd_meta 0 inc_count compared_ex) = (Inr (), compared_ex)"
    by (simp add: dec_use_count_def upd_meta_def compared_ex_def meta_ex_def inc_count_def dec_count_def server_ex_def
        Let_def)
  ultimately have "create_comparison_end senv_ex '':1.1'' pending_ex begun_ex = (Inr (), compared_ex)"
    using body_ex by (simp add: create_comparison_end_def finallyS_def) (simp add: pending_ex_def)
  then show ?thesis
    using \<open>find_client '':1.1'' begun_ex = _\<close> by (simp add: client_finish_def answering_def catchS_def)
qed

lemma compared_reachable: "reachable senv_ex compared_ex"
proof -
  have "run_events senv_ex [Call comparison_request, Work '':1.1'', Finish '':1.1''] server_ex = Some compared_ex"
    using call_ex work_ex finish_ex
    by (simp add: find_client_def called_ex_def begun_ex_def upd_meta_def new_client_def)
  then show ?thesis by (rule run_events_reachable [OF reachable_ex])
qed

end
