(* ===== verification/ServerReplies.thy ===== *)
theory ServerReplies
  imports ServerEvents
begin

text \<open>
  What the requests do besides moving references: the answers they send and the users a
  configuration is open to.  A predicate of the state that only depends on these is \<open>inert\<close>: the
  operations below the requests keep it.  Two predicates are: which answers were sent so far, and
  that the users of every configuration are those its file names.
\<close>

subsection \<open>Answers\<close>

fun answer_to :: "out \<Rightarrow> string option" where
  "answer_to (Reply name r) = Some name"
| "answer_to (Error name n t) = Some name"
| "answer_to _ = None"

definition answers :: "server \<Rightarrow> string list" where
  "answers s = List.map_filter answer_to (sv_out s)"

lemma map_filter_append: "List.map_filter f (xs @ ys) = List.map_filter f xs @ List.map_filter f ys"
  by (simp add: map_filter_def)

lemma find_client_Some: "find_client me s = Some c \<Longrightarrow> c \<in> set (sv_clients s) \<and> cl_name c = me"
  by (auto simp: find_client_def find_Some_iff)

lemma find_client_None: "find_client me s = None \<longleftrightarrow> (\<forall>c\<in>set (sv_clients s). cl_name c \<noteq> me)"
  by (auto simp: find_client_def find_None_iff)

lemma find_client_map:
  assumes "\<And>c. cl_name (f c) = cl_name c"
  shows "find_client n (upd_client n f s) = map_option f (find_client n s)"
proof -
  have "find (\<lambda>c. cl_name c = n) (map (\<lambda>c. if cl_name c = n then f c else c) cs) = map_option f (find (\<lambda>c. cl_name c = n) cs)" for cs
    by (induction cs) (simp_all add: assms)
  then show ?thesis by (simp add: find_client_def upd_client_def)
qed

definition uids_ok :: "senv \<Rightarrow> server \<Rightarrow> bool" where
  "uids_ok E s \<longleftrightarrow> (\<forall>m\<in>set (sv_metas s). me_uids m = meta_uids E (ci_raw (me_info m)))"

definition same_config :: "(meta \<Rightarrow> meta) \<Rightarrow> bool" where
  "same_config g \<longleftrightarrow> (\<forall>m. me_info (g m) = me_info m \<and> me_uids (g m) = me_uids m)"

locale inert =
  fixes E :: senv and P :: "server \<Rightarrow> bool"
  assumes fields: "P s \<Longrightarrow> P (s\<lparr>sv_etc := e\<rparr>)" "P s \<Longrightarrow> P (s\<lparr>sv_clients := cs\<rparr>)"
      "P s \<Longrightarrow> P (s\<lparr>sv_tasks := ts\<rparr>)" "P s \<Longrightarrow> P (s\<lparr>sv_next_id := n\<rparr>)"
      "P s \<Longrightarrow> P (s\<lparr>sv_worker := w\<rparr>)"
    and metas: "P s \<Longrightarrow> same_config g \<Longrightarrow> P (s\<lparr>sv_metas := map g (sv_metas s)\<rparr>)"
    and added: "P s \<Longrightarrow> P (s\<lparr>sv_metas := sv_metas s @ [new_meta E i t info]\<rparr>)"
    and removed: "P s \<Longrightarrow> P (s\<lparr>sv_metas := filter f (sv_metas s)\<rparr>)"
    and signal: "P s \<Longrightarrow> answer_to x = None \<Longrightarrow> P (s\<lparr>sv_out := sv_out s @ [x]\<rparr>)"
begin

lemma upd_meta: "P s \<Longrightarrow> same_config f \<Longrightarrow> P (upd_meta i f s)"
  unfolding upd_meta_def by (rule metas) (auto simp: same_config_def)

lemma on_etc: "keeps P (onEtc m)"
  by (auto simp: keeps_def onEtc_def intro: fields split: prod.split)

lemma upd_client: "keeps P (modifyS (upd_client n f))"
  by (simp add: keeps_def upd_client_def fields)

lemma emit_signal: "answer_to x = None \<Longrightarrow> keeps P (emit x)"
  by (simp add: keeps_def emit_def signal)

lemma counts: "keeps P (inc_use_count i)" "keeps P (dec_use_count i)" "keeps P (release_comparison h)"
  by (simp_all add: keeps_def inc_use_count_def dec_use_count_def release_comparison_def upd_meta metas
      same_config_def inc_count_def dec_count_def Let_def)

lemma finds: "keeps P (find_meta c)" "keeps P (find_snapshot i n)" "keeps P (check_root E' me)"
  "keeps P (check_permission E' me i)" "keeps P (check_lock me c)" "keeps P (check_config_in_use i)"
  "keeps P (check_snapshot_in_use i n)"
  unfolding find_meta_def find_snapshot_def check_root_def check_permission_def check_lock_def
    check_config_in_use_def check_snapshot_in_use_def Let_def
  by (intro keeps)+

lemma load: "keeps P (getSnapper E' i)"
proof -
  have l: "P s \<Longrightarrow> P ((upd_meta i (\<lambda>m. m\<lparr>me_snapper := x\<rparr>) s)\<lparr>sv_next_id := n\<rparr>)" for s x n
    by (intro fields upd_meta) (simp_all add: same_config_def)
  have t: "P s \<Longrightarrow> P (upd_meta i (\<lambda>m. m\<lparr>me_last_used := x\<rparr>) s)" for s x
    by (intro upd_meta) (simp_all add: same_config_def)
  have "keeps P (thenS
     (if b then retS ()
      else bindS (onEtc (snapper_new (sysenv.truncate E') c False)) (\<lambda>sp.
        modifyS (\<lambda>s. (upd_meta i (\<lambda>m. m\<lparr>me_snapper := Some (sv_next_id s, sp)\<rparr>) s)\<lparr>sv_next_id := Suc (sv_next_id s)\<rparr>)))
     (modifyS (\<lambda>s. upd_meta i (\<lambda>m. m\<lparr>me_last_used := sv_now s\<rparr>) s)))" for b c
    by (intro keeps on_etc keeps_modify l t)
  then show ?thesis by (simp add: keeps_def getSnapper_def)
qed

lemma on_snaps: "keeps P (onSnaps i f)"
  unfolding keeps_def onSnaps_def
  by (auto split: option.split prod.split intro!: fields upd_meta simp: same_config_def)

lemma unloading: "keeps P (unload E' i)"
proof -
  have u: "P s \<Longrightarrow> P (upd_meta i (\<lambda>m. m\<lparr>me_snapper := None\<rparr>) s)" for s
    by (intro upd_meta) (simp_all add: same_config_def)
  have "keeps P (thenS (onEtc m) (modifyS (upd_meta i (\<lambda>m. m\<lparr>me_snapper := None\<rparr>))))" for m :: "(etc, unit) step"
    by (intro keeps on_etc keeps_modify u)
  then show ?thesis by (simp add: keeps_def unload_def split: option.split)
qed

lemma config_added: "keeps P (add_meta E info)"
  unfolding add_meta_def by (intro keeps_modify fields added)

lemma config_removed: "keeps P (metas_deleteConfig E' i)"
proof -
  have "keeps P (thenS (case x of None \<Rightarrow> retS () | Some (k, sp) \<Rightarrow> onEtc (snapper_destroy (sysenv.truncate E') sp))
      (modifyS (\<lambda>s. s\<lparr>sv_metas := filter f (sv_metas s)\<rparr>)))" for x :: "(nat \<times> snapper) option" and f
    by (intro keeps_bind keeps_modify removed; cases x) (auto intro!: keeps on_etc split: prod.split)
  then have "keeps P (\<lambda>s. thenS (case me_snapper (meta_of s i) of None \<Rightarrow> retS () | Some (k, sp) \<Rightarrow> onEtc (snapper_destroy (sysenv.truncate E') sp))
      (modifyS (\<lambda>s. s\<lparr>sv_metas := filter (\<lambda>m. me_id m \<noteq> i) (sv_metas s)\<rparr>)) s)"
    unfolding keeps_def by blast
  then show ?thesis unfolding metas_deleteConfig_def by (intro keeps on_etc)
qed

lemma config_created: "keeps P (metas_createConfig E c d t n)"
  unfolding metas_createConfig_def by (intro keeps on_etc config_added)

lemma delete_snapshot: "keeps P (delete_one i n)"
  unfolding delete_one_def by (intro keeps finds on_snaps)

lemma background: "keeps P (add_background i n1 n2)"
  unfolding add_background_def by (intro keeps counts keeps_modify fields)

lemma with_loaded: "(\<And>i. keeps P (body i)) \<Longrightarrow> keeps P (with_snapper E' me c body)"
  unfolding with_snapper_def by (intro keeps finds load)

lemmas inert_keeps = on_etc upd_client counts finds load on_snaps unloading config_added config_removed
  config_created delete_snapshot background

end

interpretation sent: inert E "\<lambda>s. answers s = A" for E A
  by unfold_locales (simp_all add: answers_def map_filter_append map_filter_simps)

subsection \<open>One answer for each request\<close>

definition quiet :: "(server, 'a) step \<Rightarrow> bool" where
  "quiet m \<longleftrightarrow> (\<forall>s. answers (snd (m s)) = answers s)"

definition once :: "string \<Rightarrow> (server, 'a) step \<Rightarrow> bool" where
  "once me m \<longleftrightarrow> 
     (\<forall>s. answers (snd (m s)) = answers s @ (if isl (fst (m s)) then [] else [me]))"

lemma quiet_keeps: "quiet m \<longleftrightarrow> (\<forall>A. keeps (\<lambda>s. answers s = A) m)"
  by (simp add: quiet_def keeps_def)

lemma quietI: "(\<And>A. keeps (\<lambda>s. answers s = A) m) \<Longrightarrow> quiet m"
  by (simp add: quiet_keeps)

lemma quiet_answers: "quiet m \<Longrightarrow> m s = (r, s') \<Longrightarrow> answers s' = answers s"
  by (metis quiet_def snd_conv)

lemma once_bind:
  assumes "quiet m" "\<And>a. once me (f a)"
  shows "once me (bindS m f)"
  unfolding once_def
proof
  fix s
  obtain r s1 where m: "m s = (r, s1)" by fastforce
  have "answers s1 = answers s" by (rule quiet_answers [OF assms(1) m])
  then show "answers (snd (bindS m f s)) = answers s @ (if isl (fst (bindS m f s)) then [] else [me])"
    using assms(2) m unfolding once_def by (cases r) simp_all
qed

lemma once_throw: "once me (throwS e)"
  by (simp add: once_def)

lemma once_cases:
  "once me m \<Longrightarrow> (\<And>a. once me (f a)) \<Longrightarrow> once me (case x of None \<Rightarrow> m | Some a \<Rightarrow> f a)"
  "(\<And>a b. once me (g a b)) \<Longrightarrow> once me (case p of (a, b) \<Rightarrow> g a b)"
  by (simp_all split: option.split prod.split)

lemma once_reply: "once me (reply me r)"
  by (simp add: once_def reply_def emit_def answers_def map_filter_append map_filter_simps)

lemma once_reply_signal: "answer_to x = None \<Longrightarrow> once me (thenS (reply me r) (emit x))"
  by (simp add: once_def reply_def emit_def answers_def map_filter_append map_filter_simps)

lemma once_finally:
  assumes "once me m" "quiet final" "\<And>s. \<not> isl (fst (final s))"
  shows "once me (finallyS m final)"
  unfolding once_def
proof
  fix s
  obtain r s1 where m: "m s = (r, s1)" by fastforce
  obtain u s2 where f: "final s1 = (u, s2)" by fastforce
  have "answers s2 = answers s1" by (rule quiet_answers [OF assms(2) f])
  moreover have "answers s1 = answers s @ (if isl r then [] else [me])" using assms(1) m unfolding once_def by (metis fst_conv snd_conv)
  moreover have "finallyS m final s = (r, s2)" using m f assms(3) [of s1] by (cases u) (simp_all add: finallyS_def)
  ultimately show "answers (snd (finallyS m final s)) = answers s @ (if isl (fst (finallyS m final s)) then [] else [me])"
    by simp
qed

lemma quiet_ops:
  "quiet (onEtc m)" "quiet (modifyS (upd_client n f))" "quiet (inc_use_count i)" "quiet (dec_use_count i)"
  "quiet (release_comparison h)" "quiet (find_meta c)" "quiet (find_snapshot i num)" "quiet (check_root E me)"
  "quiet (check_permission E me i)" "quiet (check_lock me c)" "quiet (check_config_in_use i)" "quiet (getSnapper E i)"
  "quiet (onSnaps i g)" "quiet (metas_createConfig E c d t tn)" "quiet (metas_deleteConfig E i)"
  "quiet (getS h')" "quiet (liftS lr)" "quiet (foreachS (delete_one i) ns)" "quiet (whenS b (add_background i n1 n2))"
  "quiet (whenS b (modifyS (upd_client n f)))"
  by (intro quietI keeps sent.inert_keeps)+

lemma once_with_snapper: "(\<And>i. once me (body i)) \<Longrightarrow> once me (with_snapper E me' c body)"
  unfolding with_snapper_def by (intro once_bind quiet_ops)

lemmas once_rules = once_bind once_throw once_cases once_reply_signal once_reply once_with_snapper quiet_ops

lemma once_requests:
  "once me (list_configs me)" "once me (get_config E me c)" "once me (lock_config E me c)"
  "once me (unlock_config E me c)" "once me (create_config E me c d t n)" "once me (delete_config E me c)"
  "once me (list_snapshots E me c)" "once me (list_snapshots_at_time E me c tb te)"
  "once me (get_snapshot E me c num)" "once me (set_snapshot E me c num d cl ud)"
  "once me (create_single_snapshot E me c d cl ud)" "once me (create_pre_snapshot E me c d cl ud)"
  "once me (create_post_snapshot E me c num d cl ud)" "once me (delete_snapshots E me c ns)"
  "once me (mount_snapshot E me c num u)" "once me (umount_snapshot E me c num u)"
  "once me (get_mount_point E me c num)" "once me (debug E me)"
  "once me (delete_comparison E me c num num2)" "once me (get_files E me c num num2)"
  unfolding list_configs_def get_config_def lock_config_def unlock_config_def create_config_def delete_config_def
    list_snapshots_def list_snapshots_at_time_def get_snapshot_def set_snapshot_def create_single_snapshot_def
    create_pre_snapshot_def create_post_snapshot_def delete_snapshots_def mount_snapshot_def umount_snapshot_def
    get_mount_point_def debug_def delete_comparison_def get_files_def with_comparison_def
  by ((rule once_rules | simp; fail)+)

lemma once_comparison: "once me (create_comparison_body E me p)"
  unfolding create_comparison_body_def by (intro once_rules)

lemma once_args:
  "(\<And>a. once me (f a)) \<Longrightarrow> once me (args1 d f vs)" "(\<And>a vs. once me (g a vs)) \<Longrightarrow> once me (args d g vs)"
  unfolding args1_def args_def by (intro once_rules, simp)+

lemma once_with_args: "once me h \<Longrightarrow> once me (with_args vs h)"
  by (simp add: once_def with_args_def throw_ifS_def)

lemma once_handler: "method_handler E me name vs = Some h \<Longrightarrow> name \<noteq> ''CreateComparison'' \<Longrightarrow> once me h"
  unfolding method_handler_def Let_def
  by (auto split: if_split_asm intro!: once_with_args once_args once_requests)

subsection \<open>Predicates that do not depend on the answers\<close>

lemma keeps_list [keeps]: "keeps P a \<Longrightarrow> (\<And>x xs. keeps P (b x xs)) \<Longrightarrow> keeps P (case ys of [] \<Rightarrow> a | x # xs \<Rightarrow> b x xs)"
  by (simp split: list.split)

lemma keeps_worker [keeps]:
  "keeps P a \<Longrightarrow> (\<And>t. keeps P (b t)) \<Longrightarrow> (\<And>t k. keeps P (c t k)) \<Longrightarrow> (\<And>t k. keeps P (d t k)) \<Longrightarrow> keeps P e \<Longrightarrow>
     keeps P (case w of Waiting \<Rightarrow> a | Took t \<Rightarrow> b t | Holds t k \<Rightarrow> c t k | Compared t k \<Rightarrow> d t k | Returned \<Rightarrow> e)"
  by (simp split: worker.split)

lemma keeps_finally: "keeps P m \<Longrightarrow> keeps P n \<Longrightarrow> keeps P (finallyS m n)"
  unfolding keeps_def finallyS_def by (fastforce split: prod.split sum.split)

locale deaf = inert +
  assumes sent: "P s \<Longrightarrow> P (s\<lparr>sv_out := xs\<rparr>)"
begin

lemma answer: "keeps P (emit x)" "keeps P (reply me r)"
  by (simp_all add: keeps_def emit_def reply_def sent)

lemma tasks: "keeps P (modifyS (\<lambda>s. s\<lparr>sv_tasks := g s\<rparr>))" "keeps P (set_worker w)"
  "keeps P (modifyS (\<lambda>s. s\<lparr>sv_tasks := g s, sv_worker := w\<rparr>))"
  by (simp_all add: keeps_def fields set_worker_def)

lemmas rules = keeps keeps_prod answer tasks inert_keeps with_loaded

lemma requests:
  "keeps P (list_configs me)" "keeps P (get_config E' me c)" "keeps P (lock_config E' me c)"
  "keeps P (unlock_config E' me c)" "keeps P (create_config E me c d t n)" "keeps P (delete_config E' me c)"
  "keeps P (list_snapshots E' me c)" "keeps P (list_snapshots_at_time E' me c tb te)"
  "keeps P (get_snapshot E' me c num)" "keeps P (set_snapshot E' me c num d cl ud)"
  "keeps P (create_single_snapshot E' me c d cl ud)" "keeps P (create_pre_snapshot E' me c d cl ud)"
  "keeps P (create_post_snapshot E' me c num d cl ud)" "keeps P (delete_snapshots E' me c ns)"
  "keeps P (mount_snapshot E' me c num u)" "keeps P (umount_snapshot E' me c num u)"
  "keeps P (get_mount_point E' me c num)" "keeps P (debug E' me)"
  "keeps P (delete_comparison E' me c num num2)" "keeps P (get_files E' me c num num2)"
  "keeps P (create_comparison_begin E' me c num num2)" "keeps P (create_comparison_body E' me p)"
  unfolding list_configs_def get_config_def lock_config_def unlock_config_def create_config_def delete_config_def
    list_snapshots_def list_snapshots_at_time_def get_snapshot_def set_snapshot_def create_single_snapshot_def
    create_pre_snapshot_def create_post_snapshot_def delete_snapshots_def mount_snapshot_def umount_snapshot_def
    get_mount_point_def debug_def delete_comparison_def get_files_def with_comparison_def create_comparison_begin_def
    create_comparison_body_def
  by (intro rules)+

lemma arguments:
  "(\<And>a. keeps P (f a)) \<Longrightarrow> keeps P (args1 d f vs)" "(\<And>a vs. keeps P (g a vs)) \<Longrightarrow> keeps P (args d g vs)"
  "keeps P h \<Longrightarrow> keeps P (with_args vs h)"
  unfolding args1_def args_def with_args_def by (intro rules, simp)+

lemma handler: "method_handler E me name vs = Some h \<Longrightarrow> keeps P h"
  unfolding method_handler_def Let_def
  by (auto split: if_split_asm intro!: arguments requests)

lemma answering_kept: "keeps P h \<Longrightarrow> keeps P (answering me h)"
  unfolding answering_def by (intro rules)

lemma dispatched: "keeps P (dispatch E me msg)"
  unfolding dispatch_def by (intro rules answering_kept handler) (simp split: if_splits)

lemma finish: "keeps P (client_finish E' me)"
  unfolding client_finish_def create_comparison_end_def
  by (intro rules answering_kept keeps_finally requests)

lemma threads: "keeps P (client_work E me)" "keeps P (client_interrupt E' me)" "keeps P (background_work E')"
  "keeps P (client_disconnected me)"
  unfolding client_work_def client_interrupt_def background_work_def background_comparison_def client_disconnected_def
  by (intro rules dispatched finish)+

lemma zombies: "keeps P (remove_zombies E')"
proof -
  have "keeps P (modifyS (\<lambda>s. s\<lparr>sv_clients := g s\<rparr>))" for g by (simp add: keeps_def fields)
  then show ?thesis
    unfolding remove_zombies_def remove_zombie_def destroy_client_def return_mounts_def by (intro rules)
qed

lemma unused: "keeps P (unload_unused E' i)"
  unfolding unload_unused_def by (intro rules)

end

subsection \<open>The users of a configuration are those of its file\<close>

interpretation users: deaf E "uids_ok E" for E
  by unfold_locales (auto simp: uids_ok_def same_config_def new_meta_def)

lemma users_modify: "(\<And>s. sv_metas (f s) = sv_metas s) \<Longrightarrow> keeps (uids_ok E) (modifyS f)"
  by (simp add: keeps_def uids_ok_def)

lemma users_event: "keeps (uids_ok E) (run_event E ev)"
proof (cases ev)
  case (Call msg)
  show ?thesis unfolding Call run_event.simps method_call_def by (intro users.rules users_modify) simp
next
  case Periodic
  show ?thesis unfolding Periodic run_event.simps periodic_def by (intro users.rules users.zombies users.unused users_modify) simp
next
  case (Tick n)
  show ?thesis unfolding Tick run_event.simps by (intro users_modify) simp
qed (simp_all add: users.threads users.finish)

lemma users_reachable: "reachable E s \<Longrightarrow> uids_ok E s"
proof (induction rule: reachable.induct)
  case (start e now s)
  have "keeps (uids_ok E) (metas_init E)" unfolding metas_init_def by (intro users.rules)
  moreover have "uids_ok E (start_server e now)" by (simp add: uids_ok_def start_server_def)
  ultimately show ?case using start unfolding keeps_def by (metis snd_conv)
next
  case (step s ev s')
  then show ?case using users_event [of E ev] unfolding keeps_def by (metis snd_conv)
qed

end
