(* ===== verification/ServerClaims.thy ===== *)
theory ServerClaims
  imports ServerExample ServerReplies
begin

text \<open>
  What the server guarantees to its clients: use counters and comparisons, permissions, locks, the
  users of a configuration; and what it does not: what the use counters do not count.
\<close>

subsection \<open>Use counters\<close>

lemma refs_tasks:
  assumes "worker_ok b"
  shows "int (length (filter (\<lambda>t. bt_meta t = i) (fst b)))
    = int (length (filter (\<lambda>p. pd_meta p = i) (working b))) + int (length (filter (\<lambda>t. bt_meta t = i) (counted b)))
      + (if snd b = Returned \<and> bt_meta (hd (fst b)) = i then 1 else 0)"
proof -
  obtain ts w where b: "b = (ts, w)" by fastforce
  show ?thesis using assms by (cases w; cases ts) (auto simp: b in_work_def)
qed

text \<open>C20. In every state the server reaches, the use counter of a configuration is the number of
  comparisons its clients hold on it, of comparisons in progress and of background tasks in the list, where the first
  task does not count any more when the worker has returned its use and not yet removed it: so
  the assertion in \<open>dec_use_count\<close> never fails, and a configuration without any of these can be unloaded.\<close>
theorem use_counter_counts_uses:
  assumes "reachable E s" "m \<in> set (sv_metas s)"
  shows "me_counter m + (if sv_worker s = Returned \<and> bt_meta (hd (sv_tasks s)) = me_id m then 1 else 0)
    = int (length (filter (\<lambda>h. loaded m = Some (hc_snapper h)) (concat (map cl_comparisons (sv_clients s))))
      + length (filter (\<lambda>p. pd_meta p = me_id m) (List.map_filter cl_pending (sv_clients s)))
      + length (filter (\<lambda>t. bt_meta t = me_id m) (sv_tasks s)))
    \<and> (sv_worker s = Returned \<longrightarrow> sv_tasks s \<noteq> [])"
proof -
  have F: "fits (sv_next_id s) (held s) (pendings s @ working (background s)) (counted (background s)) (\<lambda>_. 0) (sv_metas s)"
    and w: "worker_ok (background s)"
    using reachable_ok [OF assms(1)] by (simp_all add: server_ok_def okx_def)
  have "sv_worker s = Returned \<longrightarrow> sv_tasks s \<noteq> []" using w by (auto simp: background_def)
  then show ?thesis
    using fitsD(5) [OF F assms(2)] refs_tasks [OF w, of "me_id m"]
    by (simp only: refs_def held_def pendings_def background_def fst_conv snd_conv filter_append length_append of_nat_add) simp
qed

lemma compared_ex_facts:
  "sv_metas compared_ex = [meta_ex]" "sv_tasks compared_ex = []" "sv_worker compared_ex = Waiting" "held_ex \<in> set (cl_comparisons (hd (sv_clients compared_ex)))"
  "sv_clients compared_ex = [(new_client '':1.1'')\<lparr>cl_comparisons := [held_ex]\<rparr>]" "me_counter meta_ex = 1" "loaded meta_ex = Some 1"
  by (simp_all add: compared_ex_def begun_ex_def upd_meta_def loaded_ex_def server_ex_def meta_ex_def loaded_def)

lemma use_counter_counts_uses_witness:
  "reachable senv_ex compared_ex \<and> sv_metas compared_ex = [meta_ex]
   \<and> int (length (filter (\<lambda>h. loaded meta_ex = Some (hc_snapper h)) (concat (map cl_comparisons (sv_clients compared_ex))))
      + length (filter (\<lambda>p. pd_meta p = me_id meta_ex) (List.map_filter cl_pending (sv_clients compared_ex)))
      + length (filter (\<lambda>t. bt_meta t = me_id meta_ex) (sv_tasks compared_ex))) = 1"
  using use_counter_counts_uses [OF compared_reachable, of meta_ex] compared_reachable compared_ex_facts(1,3,6) by simp

text \<open>C21. In every state the server reaches, the \<open>Snapper\<close> that a comparison of a client points to is
  loaded, by exactly one configuration, and both snapshots of the comparison are in its list:
  no deletion, unloading or reloading leaves a comparison with a dangling iterator.\<close>
theorem comparisons_never_dangle:
  assumes "reachable E s" "c \<in> set (sv_clients s)" "h \<in> set (cl_comparisons c)"
  shows "\<exists>!m. m \<in> set (sv_metas s) \<and> loaded m = Some (hc_snapper h)
      \<and> hc_num1 h \<in> nums m \<and> hc_num2 h \<in> nums m"
proof -
  have F: "fits (sv_next_id s) (held s) (pendings s @ working (background s)) (counted (background s)) (\<lambda>_. 0) (sv_metas s)"
    using reachable_ok [OF assms(1)] by (simp add: server_ok_def okx_def)
  have "h \<in> set (held s)" using assms(2,3) by (auto simp: held_def)
  from fitsD(6) [OF F this] obtain m where m: "m \<in> set (sv_metas s)" "loaded m = Some (hc_snapper h)"
    "hc_num1 h \<in> nums m" "hc_num2 h \<in> nums m" by (auto simp: has_load_def)
  show ?thesis using m fits_loads [OF F] by (intro ex1I [of _ m]) auto
qed

lemma comparisons_never_dangle_witness:
  "\<exists>!m. m \<in> set (sv_metas compared_ex) \<and> loaded m = Some (hc_snapper held_ex)
      \<and> hc_num1 held_ex \<in> nums m \<and> hc_num2 held_ex \<in> nums m"
  by (rule comparisons_never_dangle [OF compared_reachable, of "hd (sv_clients compared_ex)"])
    (simp_all add: compared_ex_facts)

subsection \<open>Permissions and locks\<close>

definition denied :: "senv \<Rightarrow> string \<Rightarrow> meta \<Rightarrow> bool" where
  "denied E me m \<longleftrightarrow> (\<forall>uid. get_unix_userid E me = Inr uid \<longrightarrow> uid \<noteq> 0 \<and> \<not> list_ex (\<lambda>u. ucast u = uid) (me_uids m))"

definition config_methods :: "string list" where
  "config_methods = [''GetConfig'', ''LockConfig'', ''UnlockConfig'', ''ListSnapshots'', ''ListSnapshotsAtTime'',
     ''GetSnapshot'', ''SetSnapshot'', ''CreateSingleSnapshot'', ''CreatePreSnapshot'', ''CreatePostSnapshot'',
     ''DeleteSnapshots'', ''MountSnapshot'', ''UmountSnapshot'', ''GetMountPoint'', ''CreateComparison'',
     ''DeleteComparison'', ''GetFiles'']"

text \<open>A handler that fails with one of the exceptions and changes nothing.\<close>

definition refuses :: "exn set \<Rightarrow> server \<Rightarrow> handler \<Rightarrow> bool" where
  "refuses X s h \<longleftrightarrow> (\<exists>x\<in>X. h s = (Inl x, s))"

abbreviation bus_exns :: "exn set" where
  "bus_exns \<equiv> {MarshallingException, FatalException}"

definition bus_errors :: "'a decoder \<Rightarrow> bool" where
  "bus_errors d \<longleftrightarrow> (\<forall>v x. d v = Inl x \<longrightarrow> x \<in> bus_exns)"

lemma unescape_hex: "unescape (CHR 0x5C # CHR ''x'' # a # b # w) =
   (if \<not> is_xdigit a then Inl MarshallingException
    else if is_xdigit b then bindR (unescape w) (\<lambda>r. Inr (char_of (16 * hex_val a + hex_val b) # r))
    else bindR (unescape (b # w)) (\<lambda>r. Inr (char_of (hex_val a) # r)))"
  by (subst unescape.simps(2)) (simp del: unescape.simps)

lemma unescape_errors: "unescape t = Inl x \<Longrightarrow> x = MarshallingException"
proof (induction t arbitrary: x rule: length_induct)
  case (1 t)
  show ?case
  proof (cases "\<exists>r f. unescape t = bindR (unescape r) (\<lambda>y. Inr (f y)) \<and> length r < length t")
    case True
    then obtain r f where r: "unescape t = bindR (unescape r) (\<lambda>y. Inr (f y))" "length r < length t" by blast
    then have "unescape r = Inl x" using "1.prems" by (cases "unescape r") simp_all
    then show ?thesis using "1.IH" r(2) by blast
  next
    case False
    have rest: False if "unescape t = bindR (unescape r) (\<lambda>y. Inr (c # y))" "length r < length t" for r c
      using False that by blast
    show ?thesis
    proof (cases t)
      case Nil
      then show ?thesis using "1.prems" by simp
    next
      case (Cons c s)
      have c: "c = CHR 0x5C" by (rule ccontr) (use rest [of s c] Cons in simp)
      show ?thesis
      proof (cases s)
        case Nil
        then show ?thesis using "1.prems" Cons c by simp
      next
        case (Cons d u)
        note t = \<open>t = c # s\<close> Cons c
        have d: "d \<noteq> CHR 0x5C" using rest [of u "CHR 0x5C"] t c by auto
        show ?thesis
        proof (cases u)
          case Nil
          then show ?thesis using "1.prems" t c d by (simp split: if_splits)
        next
          case (Cons a v)
          note u = t Cons
          show ?thesis
          proof (cases v)
            case Nil
            then show ?thesis using "1.prems" u c d by (simp split: if_splits)
          next
            case (Cons b w)
            show ?thesis
            proof (cases "d = CHR ''x''")
              case False
              then show ?thesis using "1.prems" u c d by simp
            next
              case x: True
              have t: "t = CHR 0x5C # CHR ''x'' # a # b # w" using u c x Cons by simp
              show ?thesis
                using "1.prems" rest [of w] rest [of "b # w"] unfolding t unescape_hex
                by (cases "unescape w"; cases "unescape (b # w)") (simp_all del: unescape.simps split: if_splits)
            qed
          qed
        qed
      qed
    qed
  qed
qed

lemma mapR_errors: "mapR f xs = Inl x \<Longrightarrow> \<exists>y. f y = Inl x"
  by (induction xs) (auto simp: bindR_eq_Inl)

lemma bus_errors_dec:
  "bus_errors dec_string" "bus_errors dec_u32" "bus_errors dec_time" "bus_errors dec_bool" "bus_errors dec_entry"
proof -
  show s: "bus_errors dec_string"
    unfolding bus_errors_def by (intro allI, case_tac v) (auto dest: unescape_errors)
  show "bus_errors dec_u32" "bus_errors dec_time" "bus_errors dec_bool"
    unfolding bus_errors_def by (intro allI, case_tac v; simp)+
  show "bus_errors dec_entry"
    using s unfolding bus_errors_def
    by (intro allI, case_tac v) (auto simp: bindR_eq_Inl)
qed

lemma bus_errors_containers: "bus_errors d \<Longrightarrow> bus_errors (dec_array t d)" "bus_errors (dec_map [])"
proof -
  show "bus_errors (dec_array t d)" if d: "bus_errors d"
    unfolding bus_errors_def
  proof (intro allI impI)
    fix v x assume a: "dec_array t d v = Inl x"
    have m: "mapR (\<lambda>v. if sig_of v \<noteq> t then Inl MarshallingException else d v) vs = Inl x \<Longrightarrow> x \<in> bus_exns" for vs
      using mapR_errors d by (fastforce simp: bus_errors_def split: if_splits)
    show "x \<in> bus_exns" using a m by (cases v) (auto split: if_splits)
  qed
  show "bus_errors (dec_map [])"
    unfolding bus_errors_def
  proof (intro allI impI)
    fix v x assume a: "dec_map [] v = Inl x"
    have m: "mapR (\<lambda>v. if sig_of v \<noteq> ''{ss}'' then Inl MarshallingException else dec_entry v) vs = Inl x
        \<Longrightarrow> x \<in> bus_exns" for vs
      using mapR_errors bus_errors_dec(5) by (fastforce simp: bus_errors_def split: if_splits)
    show "x \<in> bus_exns" using a m by (cases v) (auto simp: bindR_eq_Inl split: if_splits)
  qed
qed

lemma refuses_args:
  assumes "bus_errors d" "bus_exns \<subseteq> X"
  shows "(\<And>a. refuses X s (f a)) \<Longrightarrow> refuses X s (args1 d f vs)"
    and "(\<And>a vs. refuses X s (g a vs)) \<Longrightarrow> refuses X s (args d g vs)"
proof -
  have "get_value d vs = Inl x \<Longrightarrow> x \<in> X" for x
    using assms by (cases vs) (auto simp: bus_errors_def bindR_eq_Inl)
  then show "(\<And>a. refuses X s (f a)) \<Longrightarrow> refuses X s (args1 d f vs)"
    "(\<And>a vs. refuses X s (g a vs)) \<Longrightarrow> refuses X s (args d g vs)"
    by (cases "get_value d vs"; force simp: refuses_def args1_def args_def)+
qed

lemma refuses_with_args: "refuses X s h \<Longrightarrow> bus_exns \<subseteq> X \<Longrightarrow> refuses X s (with_args vs h)"
  by (cases "vs = []") (auto simp: refuses_def with_args_def throw_ifS_def)

lemma get_unix_userid_errors: "get_unix_userid E me = Inl x \<Longrightarrow> x = FatalException"
  by (auto simp: get_unix_userid_def split: if_splits option.splits)

lemma refuses_check:
  assumes "okS s" "find_meta c s = (Inr mid, s)" "m \<in> set (sv_metas s)" "me_id m = mid" "denied E me m"
  shows "refuses (insert Permissions bus_exns) s
    (bindS (find_meta c) (\<lambda>mid. thenS (check_permission E me mid) (rest mid)))"
proof -
  have m: "meta_of s mid = m" by (rule meta_of_eq [OF assms(1,3,4)])
  show ?thesis
  proof (cases "get_unix_userid E me")
    case (Inl x)
    then show ?thesis using assms(2) get_unix_userid_errors by (auto simp: refuses_def check_permission_def)
  next
    case (Inr uid)
    then have "check_permission E me mid s = (Inl Permissions, s)"
      using assms(5) m by (simp add: check_permission_def denied_def)
    then show ?thesis using assms(2) by (auto simp: refuses_def)
  qed
qed

text \<open>Such a handler is answered by an error, and nothing else changes.\<close>

lemma refused_dispatch:
  assumes "ms_interface msg = INTERFACE" "method_handler E me (ms_member msg) (ms_args msg) = Some h"
    and "refuses X s h" "ThreadInterrupted \<notin> X" "Diverges \<notin> X"
  shows "\<exists>x\<in>X. dispatch E me msg s = (Inr (), s\<lparr>sv_out := sv_out s @ [Error me (fst (error_of x)) (snd (error_of x))]\<rparr>)"
proof -
  obtain x where x: "x \<in> X" "h s = (Inl x, s)" using assms(3) by (auto simp: refuses_def)
  have d: "dispatch E me msg = answering me h" by (simp add: dispatch_def assms(1,2))
  have "x \<noteq> ThreadInterrupted" "x \<noteq> Diverges" using x(1) assms(4,5) by auto
  then show ?thesis
    using x(1) by (intro bexI [of _ x]) (simp_all add: d answering_def catchS_def x(2) emit_def case_prod_beta)
qed

text \<open>The requests that only root may make; everything else but \<open>ListConfigs\<close>, which everybody may ask for, names a
  configuration in its first argument and needs permission to use it.\<close>

definition root_methods :: "string list" where
  "root_methods = [''CreateConfig'', ''DeleteConfig'', ''Debug'']"

definition not_root :: "senv \<Rightarrow> string \<Rightarrow> bool" where
  "not_root E me \<longleftrightarrow> (\<forall>uid. get_unix_userid E me = Inr uid \<longrightarrow> uid \<noteq> 0)"

definition lacks_permission :: "senv \<Rightarrow> string \<Rightarrow> message \<Rightarrow> server \<Rightarrow> bool" where
  "lacks_permission E me msg s \<longleftrightarrow> (if ms_member msg \<in> set root_methods then not_root E me
     else \<exists>c rest m. get_value dec_string (ms_args msg) = Inr (c, rest) \<and> find_meta c s = (Inr (me_id m), s)
       \<and> m \<in> set (sv_metas s) \<and> denied E me m)"

abbreviation denial_exns :: "exn set" where
  "denial_exns \<equiv> insert UnknownConfig (insert Permissions bus_exns)"

lemma refuses_mono: "refuses X s h \<Longrightarrow> X \<subseteq> Y \<Longrightarrow> refuses Y s h"
  by (auto simp: refuses_def)

lemma refuses_root:
  assumes "not_root E me"
  shows "refuses denial_exns s (thenS (check_root E me) rest)"
    "refuses denial_exns s (bindS (find_meta c) (\<lambda>mid. thenS (check_root E me) (rest' mid)))"
proof -
  obtain x where x: "x \<in> insert Permissions bus_exns" "check_root E me t = (Inl x, t)" for t
  proof (cases "get_unix_userid E me")
    case (Inl x)
    then show ?thesis using get_unix_userid_errors [OF Inl] that by (simp add: check_root_def)
  next
    case (Inr uid)
    then show ?thesis using assms that [of Permissions] by (simp add: check_root_def not_root_def)
  qed
  then show "refuses denial_exns s (thenS (check_root E me) rest)" by (auto simp: refuses_def)
  show "refuses denial_exns s (bindS (find_meta c) (\<lambda>mid. thenS (check_root E me) (rest' mid)))"
    using x by (cases rule: find_meta_cases [of c s]) (auto simp: refuses_def)
qed

lemma root_handlers:
  assumes "not_root E me" "n \<in> set root_methods"
  shows "\<exists>h. method_handler E me n vs = Some h \<and> refuses denial_exns s h"
proof -
  have h: "refuses denial_exns s (create_config E me c sub fs t)" "refuses denial_exns s (delete_config E me c)"
    "refuses denial_exns s (debug E me)" for c sub fs t
    unfolding create_config_def delete_config_def debug_def by (rule refuses_root [OF assms(1)])+
  have "\<forall>n\<in>set root_methods. \<exists>h. method_handler E me n vs = Some h \<and> refuses denial_exns s h"
    unfolding root_methods_def method_handler_def Let_def
    by simp (intro conjI refuses_with_args refuses_args bus_errors_dec h; blast)
  then show ?thesis using assms(2) by blast
qed

lemma config_handlers:
  assumes "okS s" "find_meta c s = (Inr (me_id m), s)" "m \<in> set (sv_metas s)" "denied E me m"
    and "get_value dec_string vs = Inr (c, rest)" "n \<in> set config_methods"
  shows "\<exists>h. method_handler E me n vs = Some h \<and> refuses denial_exns s h"
proof -
  note check = refuses_check [OF assms(1-3) refl assms(4)]
  have w: "refuses (insert Permissions bus_exns) s (with_snapper E me c body)" for body
    unfolding with_snapper_def by (rule check)
  note defs = list_snapshots_def list_snapshots_at_time_def get_snapshot_def set_snapshot_def create_single_snapshot_def
    create_pre_snapshot_def create_post_snapshot_def mount_snapshot_def umount_snapshot_def get_mount_point_def
    create_comparison_begin_def delete_comparison_def get_files_def with_comparison_def
    get_config_def lock_config_def unlock_config_def delete_snapshots_def
  have first: "args1 dec_string f vs = f c" "args dec_string g vs = g c rest" for f g
    using assms(5) by (simp_all add: args1_def args_def liftS_def bindS_def fun_eq_iff)
  have "\<forall>n\<in>set config_methods. \<exists>h. method_handler E me n vs = Some h \<and> refuses (insert Permissions bus_exns) s h"
    unfolding config_methods_def method_handler_def Let_def first
    by (simp add: first) (intro conjI refuses_with_args refuses_args bus_errors_dec bus_errors_containers subset_insertI; unfold defs; rule w check)
  then show ?thesis using assms(6) refuses_mono by blast
qed

lemma other_handlers:
  "n \<notin> set root_methods \<Longrightarrow> n \<notin> set config_methods \<Longrightarrow> n \<noteq> ''ListConfigs'' \<Longrightarrow> method_handler E me n vs = None"
  by (simp add: root_methods_def config_methods_def method_handler_def)

text \<open>C28. Nobody does what he has no permission for: when a sender who is not root asks for the creation or the deletion
  of a configuration or for the debug output, or a sender who may not use the configuration that a request names makes
  any other request than \<open>ListConfigs\<close>, the answer is an error, and nothing else of the state of the server
  changes.\<close>
theorem denied_requests_change_nothing:
  assumes "reachable E s" "ms_member msg \<noteq> ''ListConfigs''" "lacks_permission E me msg s"
  shows "\<exists>name. dispatch E me msg s = (Inr (), s\<lparr>sv_out := sv_out s @ [Error me name DBUS_ERROR_FAILED]\<rparr>)
    \<and> name \<in> {''error.no_permissions'', ''error.dbus.marshalling'', ''error.dbus.fatal'', ''error.unknown_config'',
        ''error.unknown_method''}"
proof (cases "ms_interface msg = INTERFACE \<and> method_handler E me (ms_member msg) (ms_args msg) \<noteq> None")
  case False
  then have "(if ms_interface msg = INTERFACE then method_handler E me (ms_member msg) (ms_args msg) else None) = None" by simp
  then have "dispatch E me msg s = (Inr (), s\<lparr>sv_out := sv_out s @ [Error me ''error.unknown_method'' DBUS_ERROR_FAILED]\<rparr>)"
    by (simp only: dispatch_def option.case emit_def modifyS_def)
  then show ?thesis by (intro exI [of _ "''error.unknown_method''"] conjI) (assumption, simp)
next
  case True
  have ok: "okS s" using reachable_ok [OF assms(1)] by (simp add: server_ok_def)
  have "ms_member msg \<in> set root_methods \<or> ms_member msg \<in> set config_methods"
    using other_handlers [of "ms_member msg" E me "ms_args msg"] True assms(2) by blast
  moreover have "set root_methods \<inter> set config_methods = {}" by (simp add: root_methods_def config_methods_def)
  ultimately obtain h where h: "method_handler E me (ms_member msg) (ms_args msg) = Some h" "refuses denial_exns s h"
    using assms(3) root_handlers config_handlers [OF ok] unfolding lacks_permission_def by (metis (no_types, lifting) IntI empty_iff)
  then obtain x where x: "x \<in> denial_exns"
    "dispatch E me msg s = (Inr (), s\<lparr>sv_out := sv_out s @ [Error me (fst (error_of x)) (snd (error_of x))]\<rparr>)"
    using refused_dispatch [of msg E me h denial_exns s] True by blast
  have "fst (error_of x) \<in> {''error.no_permissions'', ''error.dbus.marshalling'', ''error.dbus.fatal'', ''error.unknown_config'',
      ''error.unknown_method''}" "snd (error_of x) = DBUS_ERROR_FAILED"
    using x(1) by (elim insertE emptyE; simp add: error_of_def)+
  then show ?thesis using x(2) by (intro exI [of _ "fst (error_of x)"] conjI) (simp_all only:)
qed

lemma server_ex_facts:
  "hd (sv_metas server_ex) \<in> set (sv_metas server_ex)" "find_meta ''root'' server_ex = (Inr (me_id (hd (sv_metas server_ex))), server_ex)"
  by (simp_all add: server_ex_def find_meta_def info_ex_def)

lemma denied_requests_change_nothing_witness:
  "\<exists>name. dispatch senv_ex '':1.2'' (request_ex '':1.2'' ''ListSnapshots'' [enc_string ''root'']) server_ex
      = (Inr (), server_ex\<lparr>sv_out := sv_out server_ex @ [Error '':1.2'' name DBUS_ERROR_FAILED]\<rparr>)
    \<and> name \<in> {''error.no_permissions'', ''error.dbus.marshalling'', ''error.dbus.fatal'', ''error.unknown_config'',
        ''error.unknown_method''}"
proof (rule denied_requests_change_nothing [OF reachable_ex])
  have "denied senv_ex '':1.2'' (hd (sv_metas server_ex))"
    by (simp add: denied_def get_unix_userid_def server_ex_def)
  moreover have "get_value dec_string (ms_args (request_ex '':1.2'' ''ListSnapshots'' [enc_string ''root''])) = Inr (''root'', [])"
    by (simp add: request_ex_def dec_enc_string no_nul_def)
  moreover have "ms_member (request_ex '':1.2'' ''ListSnapshots'' [enc_string ''root'']) \<notin> set root_methods"
    by (simp add: request_ex_def root_methods_def)
  ultimately show "lacks_permission senv_ex '':1.2'' (request_ex '':1.2'' ''ListSnapshots'' [enc_string ''root'']) server_ex"
    using server_ex_facts unfolding lacks_permission_def by auto
qed (simp add: request_ex_def)

subsection \<open>Locks\<close>

lemma check_permission_cases:
  obtains "check_permission E me i s = (Inr (), s)"
  | x where "x \<in> insert Permissions bus_exns" "check_permission E me i s = (Inl x, s)"
proof (cases "get_unix_userid E me")
  case (Inl x)
  then show ?thesis using get_unix_userid_errors [OF Inl] that(2) by (simp add: check_permission_def)
next
  case (Inr uid)
  then show ?thesis
    using that by (cases "uid \<noteq> 0 \<and> \<not> list_ex (\<lambda>u. ucast u = uid) (me_uids (meta_of s i))") (auto simp: check_permission_def)
qed

lemma check_root_cases:
  obtains "check_root E me s = (Inr (), s)"
  | x where "x \<in> insert Permissions bus_exns" "check_root E me s = (Inl x, s)"
proof (cases "get_unix_userid E me")
  case (Inl x)
  then show ?thesis using get_unix_userid_errors [OF Inl] that(2) by (simp add: check_root_def)
next
  case (Inr uid)
  then show ?thesis using that by (cases "uid = 0") (auto simp: check_root_def)
qed

abbreviation lock_exns :: "exn set" where
  "lock_exns \<equiv> {UnknownConfig, ConfigLocked, Permissions, MarshallingException, FatalException}"

lemma refuses_locked:
  assumes "check_lock me c s = (Inl ConfigLocked, s)"
  shows "refuses lock_exns s (delete_snapshots E me c ns)" "refuses lock_exns s (delete_config E me c)"
proof -
  show "refuses lock_exns s (delete_snapshots E me c ns)"
  proof (cases rule: find_meta_cases [of c s])
    case (2 m)
    then show ?thesis
      using assms by (cases rule: check_permission_cases [of E me "me_id m" s])
        (auto simp: refuses_def delete_snapshots_def)
  qed (auto simp: refuses_def delete_snapshots_def)
  show "refuses lock_exns s (delete_config E me c)"
  proof (cases rule: find_meta_cases [of c s])
    case (2 m)
    then show ?thesis
      using assms by (cases rule: check_root_cases [of E me s]) (auto simp: refuses_def delete_config_def)
  qed (auto simp: refuses_def delete_config_def)
qed

text \<open>C29. While a connected client has a configuration locked, no other client, root included, can
  delete one of its snapshots or the configuration: the request is answered by an error and nothing
  changes.\<close>
theorem locked_config_is_left_alone:
  assumes "c \<in> set (sv_clients s)" "\<not> cl_zombie c" "cl_name c \<noteq> me" "has_lock c config"
    and "ms_interface msg = INTERFACE" "ms_member msg \<in> {''DeleteSnapshots'', ''DeleteConfig''}"
    and "get_value dec_string (ms_args msg) = Inr (config, rest)"
  shows "\<exists>name. dispatch E me msg s = (Inr (), s\<lparr>sv_out := sv_out s @ [Error me name DBUS_ERROR_FAILED]\<rparr>)"
proof -
  have l: "check_lock me config s = (Inl ConfigLocked, s)"
    using assms(1-4) by (auto simp: check_lock_def list_ex_iff throw_ifS_def)
  have first: "args1 dec_string f (ms_args msg) = f config" "args dec_string g (ms_args msg) = g config rest" for f g
    using assms(7) by (simp_all add: args1_def args_def)
  have d: "refuses lock_exns s (args1 (dec_array ''u'' dec_u32) (delete_snapshots E me config) rest)"
    by (intro refuses_args(1) bus_errors_containers bus_errors_dec refuses_locked(1) [OF l]) simp
  obtain h where h: "method_handler E me (ms_member msg) (ms_args msg) = Some h" "refuses lock_exns s h"
    using assms(6) refuses_with_args [OF d] refuses_with_args [OF refuses_locked(2) [OF l, of E]]
    by (auto simp: method_handler_def first)
  from refused_dispatch [OF assms(5) h] show ?thesis by (auto simp: error_of_def)
qed

lemma locked_config_is_left_alone_witness:
  "\<exists>name. dispatch senv_ex '':1.1'' (request_ex '':1.1'' ''DeleteConfig'' [enc_string ''root''])
      (server_ex\<lparr>sv_clients := [(new_client '':1.2'')\<lparr>cl_locks := [''root'']\<rparr>]\<rparr>)
    = (Inr (), server_ex\<lparr>sv_clients := [(new_client '':1.2'')\<lparr>cl_locks := [''root'']\<rparr>],
         sv_out := sv_out server_ex @ [Error '':1.1'' name DBUS_ERROR_FAILED]\<rparr>)"
  using locked_config_is_left_alone [where s = "server_ex\<lparr>sv_clients := [(new_client '':1.2'')\<lparr>cl_locks := [''root'']\<rparr>]\<rparr>"
      and c = "(new_client '':1.2'')\<lparr>cl_locks := [''root'']\<rparr>" and me = "'':1.1''" and config = "''root''" and rest = "[]"
      and msg = "request_ex '':1.1'' ''DeleteConfig'' [enc_string ''root'']" and E = senv_ex]
  by (simp add: request_ex_def dec_enc_string no_nul_def new_client_def has_lock_def)

subsection \<open>Users\<close>

lemma set_map_filter': "u \<in> set (List.map_filter f xs) \<longleftrightarrow> (\<exists>x\<in>set xs. f x = Some u)"
  by (induction xs) (auto simp: map_filter_simps split: option.splits)

lemma set_get_group_uids: "u \<in> set (get_group_uids E g) \<longleftrightarrow>
    (\<exists>ms. se_group E g = Some ms \<and> (\<exists>n\<in>set ms. se_user E n = Some u))"
  by (cases "se_group E g") (simp_all add: get_group_uids_def set_map_filter')

lemma set_meta_uids: "u \<in> set (meta_uids E raw) \<longleftrightarrow>
   (\<exists>n\<in>set (value_words raw ''ALLOW_USERS''). se_user E n = Some u)
   \<or> (\<exists>g\<in>set (value_words raw ''ALLOW_GROUPS''). \<exists>ms. se_group E g = Some ms \<and> (\<exists>n\<in>set ms. se_user E n = Some u))"
  by (simp add: meta_uids_def set_map_filter' set_get_group_uids)

text \<open>C27. In every state the server reaches, a sender may use a configuration exactly when its user is
  root, one of the users that \<open>ALLOW_USERS\<close> of the configuration names, or a member of one of the groups that
  \<open>ALLOW_GROUPS\<close> names.\<close>
theorem permission_is_by_config:
  assumes "reachable E s" "m \<in> set (sv_metas s)"
  shows "fst (check_permission E me (me_id m) s) = Inr () \<longleftrightarrow>
    (\<exists>uid. get_unix_userid E me = Inr uid \<and> (uid = 0 \<or> (\<exists>u. ucast u = uid \<and>
      ((\<exists>n\<in>set (value_words (ci_raw (me_info m)) ''ALLOW_USERS''). se_user E n = Some u)
       \<or> (\<exists>g\<in>set (value_words (ci_raw (me_info m)) ''ALLOW_GROUPS''). \<exists>ms. se_group E g = Some ms
            \<and> (\<exists>n\<in>set ms. se_user E n = Some u))))))"
proof -
  have "okS s" using reachable_ok [OF assms(1)] by (simp add: server_ok_def)
  then have "meta_of s (me_id m) = m" using meta_of_eq assms(2) by blast
  moreover have "me_uids m = meta_uids E (ci_raw (me_info m))"
    using users_reachable [OF assms(1)] assms(2) by (simp add: uids_ok_def)
  ultimately show ?thesis
    by (cases "get_unix_userid E me")
      (auto simp: check_permission_def throw_ifS_def list_ex_iff set_meta_uids)
qed

lemma permission_is_by_config_witness:
  "fst (check_permission senv_ex '':1.1'' (me_id (hd (sv_metas server_ex))) server_ex) = Inr ()"
proof -
  have "get_unix_userid senv_ex '':1.1'' = Inr 0" by (simp add: get_unix_userid_def)
  then show ?thesis by (simp add: permission_is_by_config [OF reachable_ex server_ex_facts(1)])
qed

subsection \<open>Mounts of a configuration that was deleted\<close>

lemma release_names: "map (\<lambda>m. ci_name (me_info m)) (sv_metas (snd (foreachS release_comparison hs s)))
   = map (\<lambda>m. ci_name (me_info m)) (sv_metas s)
   \<and> fst (foreachS release_comparison hs s) = Inr ()"
  by (induction hs arbitrary: s) (auto simp: release_comparison_def dec_count_def Let_def comp_def cong: map_cong)

text \<open>C40. When a client that has disconnected holds a mount of a configuration that was deleted
  meanwhile, its destructor throws \<open>UnknownConfig\<close> out of the periodic task of the main loop, which
  ends the server.\<close>
theorem mount_of_deleted_config_ends_server:
  assumes "sv_clients s = as @ c # bs" "\<forall>a\<in>set as. \<not> (cl_zombie a \<and> finished a)" "cl_zombie c" "finished c"
    and "cl_mounts c = ((config, num), k) # rest" "\<forall>m\<in>set (sv_metas s). ci_name (me_info m) \<noteq> config"
  shows "fst (run_event E Periodic s) = Inl UnknownConfig"
proof -
  let ?s1 = "s\<lparr>sv_clients := filter (\<lambda>d. cl_name d \<noteq> cl_name c) (sv_clients s)\<rparr>"
  obtain r s2 where rel: "foreachS release_comparison (cl_comparisons c) ?s1 = (r, s2)" by fastforce
  have r: "r = Inr ()" "map (\<lambda>m. ci_name (me_info m)) (sv_metas s2) = map (\<lambda>m. ci_name (me_info m)) (sv_metas s)"
    using release_names [of "cl_comparisons c" ?s1] rel by simp_all
  have "set (map (\<lambda>m. ci_name (me_info m)) (sv_metas s2)) = set (map (\<lambda>m. ci_name (me_info m)) (sv_metas s))"
    by (simp only: r(2))
  then have "config \<notin> (\<lambda>m. ci_name (me_info m)) ` set (sv_metas s2)" using assms(6) by auto
  then have "find_meta config s2 = (Inl UnknownConfig, s2)"
    by (cases rule: find_meta_cases [of config s2]) auto
  then have d: "destroy_client E c ?s1 = (Inl UnknownConfig, s2)"
    using rel r(1) by (simp add: destroy_client_def assms(5) return_mounts_def)
  have z: "remove_zombie E c s = (Inl UnknownConfig, s2)"
    using d assms(3,4) by (simp add: remove_zombie_def)
  have "foreachS (remove_zombie E) (as @ c # bs) s = (Inl UnknownConfig, s2)"
    using assms(2) z by (induction as) (auto simp: remove_zombie_def)
  then have "remove_zombies E s = (Inl UnknownConfig, s2)" by (simp add: remove_zombies_def assms(1))
  then show ?thesis by (simp add: periodic_def)
qed

lemma mount_of_deleted_config_ends_server_witness:
  "fst (run_event senv_ex Periodic (server_ex\<lparr>sv_metas := [],
     sv_clients := [(new_client '':1.2'')\<lparr>cl_zombie := True, cl_mounts := [((''root'', 1), 1)]\<rparr>]\<rparr>)) = Inl UnknownConfig"
  by (rule mount_of_deleted_config_ends_server [where as = "[]" and bs = "[]" and rest = "[]" and config = "''root''"
        and num = 1 and k = 1 and c = "(new_client '':1.2'')\<lparr>cl_zombie := True, cl_mounts := [((''root'', 1), 1)]\<rparr>"])
    (simp_all add: finished_def new_client_def)

end
