(* ===== verification/SendStream.thy ===== *)
theory SendStream
  imports Compare
begin

text \<open>
  The comparison of two read-only btrfs snapshots (\<open>snapper/Btrfs.cc\<close>, \<open>tree_node\<close>,
  \<open>StreamProcessor\<close>): the kernel sends the commands that turn the first snapshot into the second,
  and the callbacks of libbtrfs collect in a tree what they do to each path.  A pointer to a node is
  the path it was found by.  What the kernel sends, and whether the ioctls work, is the record \<open>send_env\<close>.
\<close>

subsection \<open>The tree\<close>

datatype tree_node = TNode (tn_status: u32) (tn_childs: "(string, tree_node) smap")

definition new_node :: tree_node where
  "new_node = TNode 0 []"

text \<open>The first component of a name and the rest, when it has a slash.\<close>

definition split_name :: "string \<Rightarrow> (string \<times> string) option" where
  "split_name name = (case find_index CHR ''/'' name of
       None \<Rightarrow> None
     | Some pos \<Rightarrow> Some (take pos name, drop (Suc pos) name))"

lemma find_index_length: "find_index x xs = Some n \<Longrightarrow> n < length xs"
  by (induction xs arbitrary: n) (auto split: if_splits)

lemma split_name_length: "split_name name = Some (a, b) \<Longrightarrow> length b < length name"
  by (auto simp: split_name_def dest: find_index_length split: option.splits)

function tn_find :: "string \<Rightarrow> tree_node \<Rightarrow> tree_node option" where
  "tn_find name t = (case split_name name of
       None \<Rightarrow> map_of (tn_childs t) name
     | Some (a, b) \<Rightarrow> (case map_of (tn_childs t) a of None \<Rightarrow> None | Some c \<Rightarrow> tn_find b c))"
  by auto
termination by (relation "measure (\<lambda>(name, t). length name)") (auto dest: split_name_length)

text \<open>\<open>find\<close> or \<open>make_pair(name, tree_node())\<close> in the children.\<close>

definition child :: "string \<Rightarrow> tree_node \<Rightarrow> tree_node" where
  "child a t = (case map_of (tn_childs t) a of None \<Rightarrow> new_node | Some c \<Rightarrow> c)"

definition put_child :: "string \<Rightarrow> tree_node \<Rightarrow> tree_node \<Rightarrow> tree_node" where
  "put_child a c t = TNode (tn_status t) (sm_put a c (tn_childs t))"

text \<open>\<open>insert\<close> and a change of the node it returns.\<close>

function tn_insert :: "string \<Rightarrow> (tree_node \<Rightarrow> tree_node) \<Rightarrow> tree_node \<Rightarrow> tree_node" where
  "tn_insert name g t = (case split_name name of
       None \<Rightarrow> put_child name (g (child name t)) t
     | Some (a, b) \<Rightarrow> put_child a (tn_insert b g (child a t)) t)"
  by auto
termination by (relation "measure (\<lambda>(name, g, t). length name)") (auto dest: split_name_length)

function tn_erase :: "string \<Rightarrow> tree_node \<Rightarrow> tree_node" where
  "tn_erase name t = (case split_name name of
       None \<Rightarrow> (case map_of (tn_childs t) name of
           None \<Rightarrow> t
         | Some c \<Rightarrow> if tn_childs c = [] then TNode (tn_status t) (sm_erase name (tn_childs t))
                    else put_child name (TNode 0 (tn_childs c)) t)
     | Some (a, b) \<Rightarrow> (case map_of (tn_childs t) a of
           None \<Rightarrow> t
         | Some c \<Rightarrow> (let c' = tn_erase b c in
             if tn_status c' = 0 \<and> tn_childs c' = [] then TNode (tn_status t) (sm_erase a (tn_childs t))
             else put_child a c' t)))"
  by auto
termination by (relation "measure (\<lambda>(name, t). length name)") (auto dest: split_name_length)

definition set_status :: "(u32 \<Rightarrow> u32) \<Rightarrow> tree_node \<Rightarrow> tree_node" where
  "set_status f n = TNode (f (tn_status n)) (tn_childs n)"

text \<open>The children change places with the (empty) ones of the new node.\<close>

definition tn_rename :: "string \<Rightarrow> string \<Rightarrow> tree_node \<Rightarrow> bool \<times> tree_node" where
  "tn_rename old new t = (case tn_find old t of
       None \<Rightarrow> (False, t)
     | Some oo \<Rightarrow> (case tn_find new t of
         Some _ \<Rightarrow> (False, t)
       | None \<Rightarrow> (True, tn_erase old (tn_insert old (\<lambda>n. TNode (tn_status n) [])
                          (tn_insert new (\<lambda>n. oo) t)))))"

subsection \<open>What the callbacks do\<close>

definition touched :: "u32 \<Rightarrow> u32" where
  "touched s = (s AND NOT (CREATED OR DELETED)) OR (CONTENT OR PERMISSIONS OR USER OR GROUP)"

definition created :: "string \<Rightarrow> tree_node \<Rightarrow> tree_node" where
  "created name t = (case tn_find name t of
       None \<Rightarrow> tn_insert name (set_status (\<lambda>_. CREATED)) t
     | Some _ \<Rightarrow> tn_insert name (set_status touched) t)"

definition deleted :: "string \<Rightarrow> tree_node \<Rightarrow> tree_node" where
  "deleted name t = (case tn_find name t of
       None \<Rightarrow> tn_insert name (set_status (\<lambda>_. DELETED)) t
     | Some _ \<Rightarrow> tn_erase name t)"

definition flagged :: "u32 \<Rightarrow> string \<Rightarrow> tree_node \<Rightarrow> tree_node" where
  "flagged f name t = tn_insert name (set_status (\<lambda>s. s OR f)) t"

lemma tree_node_child_size:
  assumes "(name, c) \<in> set cs"
  shows "size c < Suc (size_list (size_prod (\<lambda>x. 0) size) cs)"
  using size_list_estimation' [OF assms, of "size c" "size_prod (\<lambda>x. 0) size"] by simp

text \<open>The loop body of \<open>merge\<close> for one child.\<close>

definition merge_node :: "string \<Rightarrow> u32 \<Rightarrow> tree_node \<Rightarrow> tree_node" where
  "merge_node x status files = (case tn_find x files of
       None \<Rightarrow> tn_insert x (set_status (\<lambda>_. status)) files
     | Some _ \<Rightarrow> tn_insert x (set_status touched) files)"

function merge :: "string \<Rightarrow> string \<Rightarrow> tree_node \<Rightarrow> tree_node \<Rightarrow> tree_node" where
  "merge to prefix (TNode st cs) files = foldl (\<lambda>files (name, c).
     let x = (if prefix = [] then to @ ''/'' @ name else to @ ''/'' @ prefix @ ''/'' @ name)
     in merge to x c (merge_node x (tn_status c) files)) files cs"
  by pat_completeness auto
termination
  by (relation "measure (\<lambda>(to, prefix, t, files). size t)") (auto dest: tree_node_child_size)

declare tn_find.simps [simp del] tn_insert.simps [simp del] tn_erase.simps [simp del] merge.simps [simp del]

subsection \<open>Directories\<close>

definition open_dir :: "fnode \<Rightarrow> string \<Rightarrow> fnode res" where
  "open_dir dir name = (if name = ''.'' then Inr dir
     else (case map_of (n_kids dir) name of
         None \<Rightarrow> Inl IOErrorException
       | Some k \<Rightarrow> if n_isdir k \<and> n_io k then Inr k else Inl IOErrorException))"

function deep_open :: "fnode \<Rightarrow> string \<Rightarrow> fnode res" where
  "deep_open dir name = (case split_name name of
       None \<Rightarrow> open_dir dir name
     | Some (a, b) \<Rightarrow> bindR (open_dir dir a) (\<lambda>d. deep_open d b))"
  by auto
termination by (relation "measure (\<lambda>(dir, name). length name)") (auto dest: split_name_length)

declare deep_open.simps [simp del]

function entries_recursive :: "fnode \<Rightarrow> string list res" where
  "entries_recursive (FNode st d io kids) =
     bindR (mapR (\<lambda>(name, k).
         if n_isdir k then
           (if n_io k then bindR (entries_recursive k) (\<lambda>b. Inr (name # map (\<lambda>e. name @ ''/'' @ e) b))
            else Inl IOErrorException)
         else Inr [name]) kids)
       (\<lambda>ls. Inr (concat ls))"
  by pat_completeness auto
termination by (relation "measure size") (auto dest: fnode_kid_size)

subsection \<open>The commands of a stream\<close>

datatype send_cmd =
    Subvol | Snapshot
  | Mkfile string | Mkdir string | Mknod string | Mkfifo string | Mksock string
  | Symlink string | Rename string string | Link string | Unlink string | Rmdir string
  | Write string | Clone string | SetXattr string | RemoveXattr string | Truncate string
  | Chmod string | Chown string | Utimes string | UpdateExtent string

text \<open>The names below a directory that is renamed, as they are in the first snapshot.\<close>

definition moved_entries :: "fnode \<Rightarrow> string \<Rightarrow> string list res" where
  "moved_entries dir1 from = bindR (deep_open dir1 (dirname from)) (\<lambda>tmpdir1.
     case map_of (n_kids tmpdir1) (basename from) of
       None \<Rightarrow> Inr []
     | Some n \<Rightarrow> if n_isdir n then bindR (open_dir tmpdir1 (basename from)) entries_recursive else Inr [])"

definition move_path :: "string \<Rightarrow> string \<Rightarrow> tree_node \<Rightarrow> tree_node" where
  "move_path from to t = created to (deleted from t)"

definition process_rename :: "fnode \<Rightarrow> string \<Rightarrow> string \<Rightarrow> tree_node \<Rightarrow> tree_node res" where
  "process_rename dir1 from to files = (case tn_find from files of
       None \<Rightarrow> bindR (moved_entries dir1 from) (\<lambda>entries.
         Inr (foldl (\<lambda>t e. move_path (from @ ''/'' @ e) (to @ ''/'' @ e) t) (move_path from to files) entries))
     | Some it1 \<Rightarrow> (case tn_find to files of
         None \<Rightarrow> Inr (snd (tn_rename from to files))
       | Some it2 \<Rightarrow> Inr (merge to [] (TNode 0 (tn_childs it1))
             (move_path from to (tn_insert from (\<lambda>n. TNode (tn_status n) []) files)))))"

fun process_cmd :: "fnode \<Rightarrow> send_cmd \<Rightarrow> tree_node \<Rightarrow> tree_node res" where
  "process_cmd dir1 (Mkfile path) t = Inr (created path t)"
| "process_cmd dir1 (Mkdir path) t = Inr (created path t)"
| "process_cmd dir1 (Symlink path) t = Inr (created path t)"
| "process_cmd dir1 (Rename from to) t = process_rename dir1 from to t"
| "process_cmd dir1 (Link path) t = Inr (created path t)"
| "process_cmd dir1 (Unlink path) t = Inr (deleted path t)"
| "process_cmd dir1 (Rmdir path) t = Inr (deleted path t)"
| "process_cmd dir1 (Write path) t = Inr (flagged CONTENT path t)"
| "process_cmd dir1 (Clone path) t = Inr (flagged CONTENT path t)"
| "process_cmd dir1 (Truncate path) t = Inr (flagged CONTENT path t)"
| "process_cmd dir1 (Chmod path) t = Inr (flagged PERMISSIONS path t)"
| "process_cmd dir1 (Chown path) t = Inr (flagged (USER OR GROUP) path t)"
| "process_cmd dir1 (UpdateExtent path) t = Inr (flagged CONTENT path t)"
| "process_cmd dir1 _ t = Inr t"

fun process_stream :: "fnode \<Rightarrow> send_cmd list \<Rightarrow> tree_node \<Rightarrow> tree_node res" where
  "process_stream dir1 [] t = Inr t"
| "process_stream dir1 (c # cs) t = bindR (process_cmd dir1 c t) (process_stream dir1 cs)"

subsection \<open>Checking and reporting\<close>

definition join_name :: "string \<Rightarrow> string \<Rightarrow> string" where
  "join_name prefix name = (if prefix = [] then name else prefix @ ''/'' @ name)"

definition check_status :: "fnode \<Rightarrow> fnode \<Rightarrow> string \<Rightarrow> u32 \<Rightarrow> u32 res" where
  "check_status dir1 dir2 name status =
     (let status = (if has status CREATED then CREATED else status);
          status = (if has status DELETED then DELETED else status);
          content = CONTENT OR PERMISSIONS OR USER OR GROUP
      in if has status content then
           bindR (deep_open dir1 (dirname name)) (\<lambda>subdir1.
           bindR (deep_open dir2 (dirname name)) (\<lambda>subdir2.
           bindR (cmpFilesOpt (map_of (n_kids subdir1) (basename name)) (map_of (n_kids subdir2) (basename name)))
             (\<lambda>s. Inr ((status AND NOT content) OR s))))
         else Inr status)"

function tn_check :: "fnode \<Rightarrow> fnode \<Rightarrow> string \<Rightarrow> tree_node \<Rightarrow> tree_node res" where
  "tn_check dir1 dir2 prefix (TNode st cs) = bindR (mapR (\<lambda>(name, c).
       bindR (check_status dir1 dir2 (join_name prefix name) (tn_status c)) (\<lambda>s.
       bindR (tn_check dir1 dir2 (join_name prefix name) c) (\<lambda>c'. Inr (name, TNode s (tn_childs c'))))) cs)
     (\<lambda>cs'. Inr (TNode st cs'))"
  by pat_completeness auto
termination
  by (relation "measure (\<lambda>(dir1, dir2, prefix, t). size t)") (auto dest: tree_node_child_size)

function tn_result :: "string \<Rightarrow> tree_node \<Rightarrow> report" where
  "tn_result prefix (TNode st cs) = concat (map (\<lambda>(name, c).
     (if tn_status c \<noteq> 0 then [(''/'' @ join_name prefix name, tn_status c)] else [])
     @ tn_result (join_name prefix name) c) cs)"
  by pat_completeness auto
termination
  by (relation "measure (\<lambda>(prefix, t). size t)") (auto dest: tree_node_child_size)

declare tn_check.simps [simp del] tn_result.simps [simp del]

subsection \<open>The comparison\<close>

text \<open>The two flags of the subvolumes (\<open>None\<close>: the ioctl fails), whether the search for subvolumes can
  be initialised, what the kernel sends, whether the send ioctl and the reader of the stream work.
  That the root of the first snapshot is not found changes nothing: the result of \<open>get_root_id\<close>, a
  \<open>bool\<close>, is compared with \<open>< 0\<close>.\<close>

record send_env =
  se_init :: bool
  se_ro1 :: "bool option"
  se_ro2 :: "bool option"
  se_stream :: "send_cmd list"
  se_ioctl :: bool
  se_reader :: bool

definition is_subvolume_ro :: "bool option \<Rightarrow> bool res" where
  "is_subvolume_ro flags = (case flags of None \<Rightarrow> Inl IOErrorException | Some ro \<Rightarrow> Inr ro)"

definition do_send :: "send_env \<Rightarrow> fnode \<Rightarrow> tree_node res" where
  "do_send V dir1 = (case process_stream dir1 (se_stream V) new_node of
       Inl e \<Rightarrow> Inl (if se_ioctl V then e else BtrfsSendReceiveException)
     | Inr files \<Rightarrow> if se_ioctl V \<and> se_reader V then Inr files else Inl BtrfsSendReceiveException)"

definition stream_process :: "send_env \<Rightarrow> fnode \<Rightarrow> fnode \<Rightarrow> report res" where
  "stream_process V dir1 dir2 =
     (if \<not> se_init V then Inl BtrfsSendReceiveException
      else bindR (is_subvolume_ro (se_ro1 V)) (\<lambda>ro1.
           bindR (if \<not> ro1 then Inl BtrfsSendReceiveException else
             bindR (is_subvolume_ro (se_ro2 V)) (\<lambda>ro2. if \<not> ro2 then Inl BtrfsSendReceiveException else Inr ())) (\<lambda>_.
           bindR (do_send V dir1) (\<lambda>files.
           bindR (tn_check dir1 dir2 [] files) (\<lambda>files. Inr (tn_result [] files))))))"

definition btrfs_cmpDirs :: "send_env \<Rightarrow> fnode \<Rightarrow> fnode \<Rightarrow> report res" where
  "btrfs_cmpDirs V dir1 dir2 = (case stream_process V dir1 dir2 of
       Inr r \<Rightarrow> Inr r
     | Inl e \<Rightarrow> if e = ThreadInterrupted then Inl e else cmpDirs dir1 dir2)"

end
