(* ===== verification/SendStreamTree.thy ===== *)
theory SendStreamTree
  imports SendStream
begin

text \<open>
  The tree of \<open>SendStream\<close> as a map from paths (lists of components) to statuses.  In a \<open>pruned\<close>
  tree every node leads to a status other than 0, so the map alone says which nodes there are; the
  operations keep trees pruned and are functions on the map.
\<close>

subsection \<open>Paths\<close>

abbreviation parts :: "string \<Rightarrow> string list" where
  "parts name \<equiv> split_on (\<lambda>c. c = CHR ''/'') name"

lemma find_index_parts: "find_index c xs = Some n \<Longrightarrow> xs = take n xs @ c # drop (Suc n) xs \<and> c \<notin> set (take n xs)"
  by (induction xs arbitrary: n) (auto split: if_splits)

lemma find_index_None: "find_index c xs = None \<longleftrightarrow> c \<notin> set xs"
  by (induction xs) auto

lemma split_name_parts:
  "split_name name = None \<Longrightarrow> parts name = [name]"
  "split_name name = Some (a, b) \<Longrightarrow> parts name = a # parts b"
proof -
  show "parts name = [name]" if "split_name name = None"
    using that by (intro split_on_no_sep) (auto simp: split_name_def find_index_None split: option.splits)
  show "parts name = a # parts b" if h: "split_name name = Some (a, b)"
  proof -
    obtain n where n: "find_index CHR ''/'' name = Some n" "a = take n name" "b = drop (Suc n) name"
      using h unfolding split_name_def by (cases "find_index CHR ''/'' name") fastforce+
    then have "name = a @ CHR ''/'' # b" "CHR ''/'' \<notin> set a" using find_index_parts [OF n(1)] by auto
    then show ?thesis using split_on_append [of a "\<lambda>c. c = CHR ''/''" "CHR ''/''" b] by auto
  qed
qed

lemma parts_append: "parts (a @ CHR ''/'' # b) = parts a @ parts b"
  by (rule split_on_slash_append) simp

lemma parts_join: "parts (join_name prefix name) = (if prefix = [] then parts name else parts prefix @ parts name)"
  by (simp add: join_name_def parts_append)

subsection \<open>The operations on paths\<close>

fun t_find :: "string list \<Rightarrow> tree_node \<Rightarrow> tree_node option" where
  "t_find [] t = Some t"
| "t_find (a # p) t = (case map_of (tn_childs t) a of None \<Rightarrow> None | Some c \<Rightarrow> t_find p c)"

fun t_insert :: "string list \<Rightarrow> (tree_node \<Rightarrow> tree_node) \<Rightarrow> tree_node \<Rightarrow> tree_node" where
  "t_insert [] g t = g t"
| "t_insert (a # p) g t = put_child a (t_insert p g (child a t)) t"

definition drop_or_put :: "string \<Rightarrow> tree_node \<Rightarrow> tree_node \<Rightarrow> tree_node" where
  "drop_or_put a c t = (if tn_status c = 0 \<and> tn_childs c = [] then TNode (tn_status t) (sm_erase a (tn_childs t))
     else put_child a c t)"

fun t_erase :: "string list \<Rightarrow> tree_node \<Rightarrow> tree_node" where
  "t_erase [] t = TNode 0 (tn_childs t)"
| "t_erase (a # p) t = (case map_of (tn_childs t) a of None \<Rightarrow> t | Some c \<Rightarrow> drop_or_put a (t_erase p c) t)"

lemma tn_find_parts: "tn_find name t = t_find (parts name) t"
proof (induction name t rule: tn_find.induct)
  case (1 name t)
  then show ?case
    by (subst tn_find.simps) (auto simp: split_name_parts split: option.split)
qed

lemma tn_insert_parts: "tn_insert name g t = t_insert (parts name) g t"
proof (induction name g t rule: tn_insert.induct)
  case (1 name g t)
  then show ?case
    by (subst tn_insert.simps) (auto simp: split_name_parts split: option.split)
qed

lemma tn_erase_parts: "tn_erase name t = t_erase (parts name) t"
proof (induction name t rule: tn_erase.induct)
  case (1 name t)
  then show ?case
    by (subst tn_erase.simps) (auto simp: split_name_parts drop_or_put_def Let_def split: option.split)
qed

subsection \<open>Statuses and pruned trees\<close>

definition st_at :: "tree_node \<Rightarrow> string list \<Rightarrow> u32" where
  "st_at t p = (case t_find p t of None \<Rightarrow> 0 | Some n \<Rightarrow> tn_status n)"

definition alive :: "tree_node \<Rightarrow> bool" where
  "alive n \<longleftrightarrow> tn_status n \<noteq> 0 \<or> tn_childs n \<noteq> []"

function pruned :: "tree_node \<Rightarrow> bool" where
  "pruned (TNode st cs) = (sm_wf cs \<and> (\<forall>x\<in>set cs. alive (snd x) \<and> pruned (snd x)))"
  by pat_completeness auto
termination by (relation "measure size") (auto dest: tree_node_child_size)

lemma pruned_iff: "pruned t \<longleftrightarrow> sm_wf (tn_childs t) \<and> (\<forall>(a, c)\<in>set (tn_childs t). alive c \<and> pruned c)"
  by (cases t) auto

declare pruned.simps [simp del]

lemma pruned_child: "pruned t \<Longrightarrow> map_of (tn_childs t) a = Some c \<Longrightarrow> alive c \<and> pruned c"
  by (subst (asm) pruned_iff) (auto dest: map_of_SomeD)

lemma pruned_wf: "pruned t \<Longrightarrow> sm_wf (tn_childs t)"
  by (subst (asm) pruned_iff) simp

lemma pruned_new: "pruned new_node" "pruned (TNode s [])"
  by (subst pruned_iff, simp add: new_node_def)+

lemma pruned_find: "pruned t \<Longrightarrow> t_find p t = Some n \<Longrightarrow> pruned n \<and> (p \<noteq> [] \<longrightarrow> alive n)"
proof (induction p arbitrary: t)
  case (Cons a p)
  then obtain c where c: "map_of (tn_childs t) a = Some c" "t_find p c = Some n" by (auto split: option.splits)
  then show ?case using Cons.IH [of c] pruned_child [OF Cons.prems(1) c(1)] by (cases p) auto
qed simp

lemma alive_status: "pruned n \<Longrightarrow> alive n \<Longrightarrow> \<exists>q. st_at n q \<noteq> 0"
proof (induction n rule: pruned.induct)
  case (1 st cs)
  show ?case
  proof (cases "st = 0")
    case False
    then show ?thesis by (intro exI [of _ "[]"]) (simp add: st_at_def)
  next
    case True
    then obtain a c cs' where cs: "cs = (a, c) # cs'" using "1.prems" by (auto simp: alive_def neq_Nil_conv)
    then have "alive c" "pruned c" using pruned_child [OF "1.prems"(1), of a c] by simp_all
    then obtain q where "st_at c q \<noteq> 0" using "1.IH" [of "(a, c)"] cs by auto
    then show ?thesis by (intro exI [of _ "a # q"]) (simp add: st_at_def cs)
  qed
qed

lemma t_find_append: "t_find (p @ q) t = Option.bind (t_find p t) (t_find q)"
  by (induction p arbitrary: t) (auto split: option.splits)

lemma st_at_append: "t_find p t = Some n \<Longrightarrow> st_at t (p @ q) = st_at n q"
  by (simp add: st_at_def t_find_append)

lemma present_iff: "pruned t \<Longrightarrow> p \<noteq> [] \<Longrightarrow> t_find p t \<noteq> None \<longleftrightarrow> (\<exists>q. st_at t (p @ q) \<noteq> 0)"
proof
  assume "pruned t" "p \<noteq> []" "t_find p t \<noteq> None"
  then obtain n where n: "t_find p t = Some n" by auto
  then show "\<exists>q. st_at t (p @ q) \<noteq> 0"
    using pruned_find [OF \<open>pruned t\<close> n] \<open>p \<noteq> []\<close> alive_status [of n] st_at_append [OF n] by auto
next
  assume "\<exists>q. st_at t (p @ q) \<noteq> 0"
  then show "t_find p t \<noteq> None" by (cases "t_find p t") (simp_all add: st_at_def t_find_append)
qed

lemma st_at_Cons: "st_at t (a # p) = (case map_of (tn_childs t) a of None \<Rightarrow> 0 | Some c \<Rightarrow> st_at c p)"
  by (simp add: st_at_def split: option.split)

lemma st_at_Nil: "st_at t [] = tn_status t"
  by (simp add: st_at_def)

lemma st_at_child: "st_at (child a t) p = st_at t (a # p)"
  by (cases p) (simp_all add: child_def st_at_Cons new_node_def st_at_Nil split: option.split)

lemma st_at_put_child: "st_at (put_child a c t) q = (case q of [] \<Rightarrow> tn_status t
    | b # r \<Rightarrow> if b = a then st_at c r else st_at t q)"
  by (cases q) (simp_all add: put_child_def st_at_Nil st_at_Cons)

lemma set_sm_put: "sm_wf m \<Longrightarrow> x \<in> set (sm_put k v m) \<Longrightarrow> x = (k, v) \<or> x \<in> set m"
  by (induction k v m rule: sm_put.induct) (auto split: if_splits)

lemma set_sm_erase: "x \<in> set (sm_erase k m) \<Longrightarrow> x \<in> set m"
  by (induction k m rule: sm_erase.induct) (auto split: if_splits)

lemma pruned_put_child: "pruned t \<Longrightarrow> pruned c \<Longrightarrow> alive c \<Longrightarrow> pruned (put_child a c t)"
  by (subst pruned_iff, subst (asm) (1) pruned_iff) (auto simp: put_child_def dest!: set_sm_put)

lemma tn_status_put_child [simp]: "tn_status (put_child a c t) = tn_status t"
  by (simp add: put_child_def)

lemma pruned_child_node: "pruned t \<Longrightarrow> pruned (child a t)"
  by (simp add: child_def pruned_new split: option.split) (metis pruned_child)

text \<open>Inserting with a change of the status to a value other than 0.\<close>

lemma st_at_insert: "st_at (t_insert p (set_status f) t) q = (if q = p then f (st_at t p) else st_at t q)"
proof (induction p arbitrary: t q)
  case Nil
  then show ?case by (cases q) (simp_all add: set_status_def st_at_Nil st_at_Cons)
next
  case (Cons a p)
  then show ?case by (cases q) (auto simp: st_at_put_child st_at_child st_at_Nil)
qed

lemma alive_insert: "f (st_at t p) \<noteq> 0 \<Longrightarrow> alive (t_insert p (set_status f) t)"
proof (cases p)
  case Nil
  then show "f (st_at t p) \<noteq> 0 \<Longrightarrow> ?thesis" by (simp add: alive_def set_status_def st_at_Nil)
next
  case (Cons a p')
  have "sm_put a c cs \<noteq> []" for c :: tree_node and cs by (cases "(a, c, cs)" rule: sm_put.cases) auto
  then show "f (st_at t p) \<noteq> 0 \<Longrightarrow> ?thesis" using Cons by (simp add: alive_def put_child_def)
qed

lemma pruned_insert: "pruned t \<Longrightarrow> f (st_at t p) \<noteq> 0 \<Longrightarrow> pruned (t_insert p (set_status f) t)"
proof (induction p arbitrary: t)
  case Nil
  then show ?case by (subst pruned_iff, subst (asm) pruned_iff) (simp add: set_status_def)
next
  case (Cons a p)
  then have "f (st_at (child a t) p) \<noteq> 0" by (simp add: st_at_child)
  then show ?case
    using Cons pruned_child_node [OF Cons.prems(1)] by (simp add: pruned_put_child alive_insert)
qed

subsection \<open>Erasing\<close>

lemma st_at_not_alive: "\<not> alive n \<Longrightarrow> st_at n q = 0"
  by (cases q) (simp_all add: alive_def st_at_Nil st_at_Cons)

lemma st_at_drop_or_put: "pruned t \<Longrightarrow> st_at (drop_or_put a c t) q = (case q of [] \<Rightarrow> tn_status t
    | b # r \<Rightarrow> if b = a then st_at c r else st_at t q)"
  using st_at_not_alive [of c]
  by (cases q) (auto simp: drop_or_put_def alive_def st_at_Nil st_at_Cons put_child_def map_of_sm_erase pruned_wf)

lemma pruned_drop_or_put: "pruned t \<Longrightarrow> pruned c \<Longrightarrow> pruned (drop_or_put a c t)"
proof (cases "alive c")
  case False
  then show "pruned t \<Longrightarrow> pruned c \<Longrightarrow> ?thesis"
    by (subst pruned_iff, subst (asm) pruned_iff) (auto simp: drop_or_put_def alive_def dest: set_sm_erase)
next
  case True
  then show "pruned t \<Longrightarrow> pruned c \<Longrightarrow> ?thesis" using pruned_put_child [of t c a] by (auto simp: drop_or_put_def alive_def)
qed

lemma tn_status_drop_or_put [simp]: "tn_status (drop_or_put a c t) = tn_status t"
  by (simp add: drop_or_put_def)

lemma erase_spec: "pruned t \<Longrightarrow> pruned (t_erase p t) \<and> st_at (t_erase p t) q = (if q = p then 0 else st_at t q)"
proof (induction p arbitrary: t q)
  case Nil
  then show ?case
    by (subst pruned_iff, subst (asm) pruned_iff) (cases q; simp add: st_at_Nil st_at_Cons)
next
  case (Cons a p)
  show ?case
  proof (cases "map_of (tn_childs t) a")
    case None
    then show ?thesis using Cons.prems by (auto simp: st_at_Cons)
  next
    case (Some c)
    then have c: "pruned c" using pruned_child [OF Cons.prems] by simp
    have p: "pruned (drop_or_put a (t_erase p c) t)"
      by (rule pruned_drop_or_put [OF Cons.prems]) (use Cons.IH [OF c] in blast)
    have "st_at (drop_or_put a (t_erase p c) t) q = (if q = a # p then 0 else st_at t q)"
      unfolding st_at_drop_or_put [OF Cons.prems]
      using Cons.IH [OF c] Some by (cases q) (auto simp: st_at_Nil st_at_Cons)
    then show ?thesis using p Some by simp
  qed
qed

subsection \<open>The operations of the stream on the map\<close>

type_synonym status_map = "string list \<Rightarrow> u32"

definition present :: "status_map \<Rightarrow> string list \<Rightarrow> bool" where
  "present m p \<longleftrightarrow> (\<exists>q. m (p @ q) \<noteq> 0)"

definition m_created :: "string list \<Rightarrow> status_map \<Rightarrow> status_map" where
  "m_created p m = m(p := (if present m p then touched (m p) else CREATED))"

definition m_deleted :: "string list \<Rightarrow> status_map \<Rightarrow> status_map" where
  "m_deleted p m = m(p := (if present m p then 0 else DELETED))"

definition m_flagged :: "u32 \<Rightarrow> string list \<Rightarrow> status_map \<Rightarrow> status_map" where
  "m_flagged f p m = m(p := m p OR f)"

definition m_move :: "string list \<Rightarrow> string list \<Rightarrow> status_map \<Rightarrow> status_map" where
  "m_move old new m = (\<lambda>p. if take (length new) p = new then m (old @ drop (length new) p)
     else if take (length old) p = old then 0 else m p)"

text \<open>A pruned tree represents a map.\<close>

definition represents :: "tree_node \<Rightarrow> status_map \<Rightarrow> bool" where
  "represents t m \<longleftrightarrow> pruned t \<and> st_at t = m"

lemma represents_present: "represents t m \<Longrightarrow> tn_find name t \<noteq> None \<longleftrightarrow> present m (parts name)"
  using present_iff [of t "parts name"] by (auto simp: represents_def present_def tn_find_parts)

lemma touched_nonzero: "touched s \<noteq> 0"
proof -
  have "bit (touched s) 3" by (simp add: touched_def bit_or_iff bit_and_iff CONTENT_def bit_simps flag_defs)
  then show ?thesis by auto
qed

lemma represents_insert:
  "represents t m \<Longrightarrow> f (m (parts name)) \<noteq> 0 \<Longrightarrow>
     represents (tn_insert name (set_status f) t) (m(parts name := f (m (parts name))))"
  unfolding represents_def by (auto simp: tn_insert_parts st_at_insert pruned_insert fun_eq_iff)

lemma represents_created: "represents t m \<Longrightarrow> represents (created name t) (m_created (parts name) m)"
  using represents_present [of t m name] represents_insert [of t m "\<lambda>_. CREATED" name]
    represents_insert [of t m touched name] touched_nonzero
  by (auto simp: created_def m_created_def split: option.split)

lemma represents_erase: "represents t m \<Longrightarrow> represents (tn_erase name t) (m(parts name := 0))"
  using erase_spec [of t "parts name"] by (auto simp: represents_def tn_erase_parts fun_eq_iff)

lemma represents_deleted: "represents t m \<Longrightarrow> represents (deleted name t) (m_deleted (parts name) m)"
  using represents_present [of t m name] represents_insert [of t m "\<lambda>_. DELETED" name] represents_erase
  by (auto simp: deleted_def m_deleted_def split: option.split)

lemma or_nonzero: "f \<noteq> 0 \<Longrightarrow> s OR f \<noteq> (0 :: u32)"
  by (metis or_eq_0_iff)

lemma represents_flagged: "represents t m \<Longrightarrow> f \<noteq> 0 \<Longrightarrow> represents (flagged f name t) (m_flagged f (parts name) m)"
  unfolding flagged_def m_flagged_def using represents_insert [of t m "\<lambda>s. s OR f" name] or_nonzero by simp

subsection \<open>Renaming\<close>

abbreviation below :: "string list \<Rightarrow> string list \<Rightarrow> bool" where
  "below p q \<equiv> take (length p) q = p"

lemma below_Cons: "below (a # p) q \<longleftrightarrow> (\<exists>r. q = a # r \<and> below p r)"
  by (cases q) auto

lemma below_total: "below p q \<Longrightarrow> below r q \<Longrightarrow> below p r \<or> below r p"
proof (induction p arbitrary: q r)
  case (Cons a p)
  then obtain q' where q: "q = a # q'" "below p q'" unfolding below_Cons by blast
  show ?case
  proof (cases r)
    case (Cons b r')
    then have "b = a" "below r' q'" using Cons.prems(2) q by auto
    then show ?thesis using Cons.IH [OF q(2), of r'] \<open>r = b # r'\<close> by auto
  qed simp
qed simp

lemma sm_put_put: "sm_wf m \<Longrightarrow> sm_put k v (sm_put k w m) = sm_put k v m"
  by (rule smap.put_put)

lemma sm_erase_put: "sm_wf m \<Longrightarrow> sm_erase k (sm_put k w m) = sm_erase k m"
  by (rule smap.wf_ext) (auto simp: smap.get_del smap.get_put)

lemma drop_or_put_put: "pruned t \<Longrightarrow> drop_or_put a c (put_child a x t) = drop_or_put a c t"
  using pruned_wf [of t] by (simp add: drop_or_put_def put_child_def sm_put_put sm_erase_put)

definition empty_node :: "tree_node \<Rightarrow> tree_node" where
  "empty_node n = TNode (tn_status n) []"

lemma cut_spec:
  "pruned t \<Longrightarrow> t_find p t \<noteq> None \<Longrightarrow> pruned (t_erase p (t_insert p empty_node t))
     \<and> st_at (t_erase p (t_insert p empty_node t)) q = (if below p q then 0 else st_at t q)"
proof (induction p arbitrary: t q)
  case Nil
  then show ?case by (cases q) (simp_all add: empty_node_def pruned_new st_at_Nil st_at_Cons)
next
  case (Cons a p)
  then obtain c where c: "map_of (tn_childs t) a = Some c" "t_find p c \<noteq> None" by (auto split: option.splits)
  let ?c = "t_erase p (t_insert p empty_node c)"
  have pc: "pruned c" using pruned_child [OF Cons.prems(1) c(1)] by simp
  have e: "t_erase (a # p) (t_insert (a # p) empty_node t) = drop_or_put a ?c t"
    using c(1) drop_or_put_put [OF Cons.prems(1)] by (simp add: child_def put_child_def)
  have p: "pruned (drop_or_put a ?c t)"
    by (rule pruned_drop_or_put [OF Cons.prems(1)]) (use Cons.IH [OF pc c(2)] in blast)
  have "st_at (drop_or_put a ?c t) q = (if below (a # p) q then 0 else st_at t q)"
    unfolding st_at_drop_or_put [OF Cons.prems(1)]
    using Cons.IH [OF pc c(2)] c(1) by (cases q) (auto simp: st_at_Nil st_at_Cons)
  then show ?case using p e by simp
qed

lemma paste_spec:
  "pruned t \<Longrightarrow> pruned n \<Longrightarrow> alive n \<Longrightarrow> pruned (t_insert p (\<lambda>_. n) t) \<and> alive (t_insert p (\<lambda>_. n) t)
     \<and> st_at (t_insert p (\<lambda>_. n) t) q = (if below p q then st_at n (drop (length p) q) else st_at t q)"
proof (induction p arbitrary: t q)
  case (Cons a p)
  note IH = Cons.IH [OF pruned_child_node [OF Cons.prems(1)] Cons.prems(2,3)]
  have "sm_put a c cs \<noteq> []" for c :: tree_node and cs by (cases "(a, c, cs)" rule: sm_put.cases) auto
  then have "alive (t_insert (a # p) (\<lambda>_. n) t)" by (simp add: alive_def put_child_def)
  moreover have "pruned (t_insert (a # p) (\<lambda>_. n) t)"
    using pruned_put_child [OF Cons.prems(1)] IH by simp
  moreover have "st_at (t_insert (a # p) (\<lambda>_. n) t) q
      = (if below (a # p) q then st_at n (drop (length (a # p)) q) else st_at t q)"
    using IH by (cases q) (auto simp: st_at_put_child st_at_child st_at_Nil)
  ultimately show ?case by simp
qed simp

lemma represents_rename:
  assumes "represents t m" "present m (parts old)" "\<not> present m (parts new)" "\<not> below (parts old) (parts new)"
  shows "fst (tn_rename old new t) \<and> represents (snd (tn_rename old new t)) (m_move (parts old) (parts new) m)"
proof -
  let ?o = "parts old" and ?n = "parts new"
  have t: "pruned t" "st_at t = m" using assms(1) by (auto simp: represents_def)
  obtain oo where oo: "t_find ?o t = Some oo"
    using represents_present [OF assms(1), of old] assms(2) by (auto simp: tn_find_parts)
  have nn: "t_find ?n t = None"
    using represents_present [OF assms(1), of new] assms(3) by (auto simp: tn_find_parts)
  have o: "pruned oo" "alive oo" using pruned_find [OF t(1) oo] by auto
  let ?t1 = "t_insert ?n (\<lambda>_. oo) t"
  have t1: "pruned ?t1" "st_at ?t1 q = (if below ?n q then st_at oo (drop (length ?n) q) else st_at t q)" for q
    using paste_spec [OF t(1) o] by auto
  have keep: "st_at ?t1 (?o @ q) = m (?o @ q)" if "m (?o @ q) \<noteq> 0" for q
  proof -
    have "\<not> below ?n (?o @ q)"
    proof
      assume b: "below ?n (?o @ q)"
      then have "?o @ q = ?n @ drop (length ?n) (?o @ q)" by (metis append_take_drop_id)
      then have "m (?n @ drop (length ?n) (?o @ q)) \<noteq> 0" using that by simp
      then show False using assms(3) by (auto simp: present_def)
    qed
    then show ?thesis using t1(2) t(2) by simp
  qed
  have "t_find ?o ?t1 \<noteq> None"
    using present_iff [OF t1(1), of ?o] keep assms(2) by (auto simp: present_def)
  from cut_spec [OF t1(1) this]
  have c: "pruned (t_erase ?o (t_insert ?o empty_node ?t1))"
    "st_at (t_erase ?o (t_insert ?o empty_node ?t1)) q = (if below ?o q then 0 else st_at ?t1 q)" for q
    by auto
  have r: "tn_rename old new t = (True, t_erase ?o (t_insert ?o empty_node ?t1))"
    using oo nn by (simp add: tn_rename_def tn_find_parts tn_insert_parts tn_erase_parts empty_node_def [abs_def])
  have "(if below ?o q then 0 else st_at ?t1 q) = m_move ?o ?n m q" for q
  proof (cases "below ?n q")
    case True
    have "\<not> below ?o q"
    proof
      assume b: "below ?o q"
      have "\<not> below ?n ?o"
      proof
        assume "below ?n ?o"
        then have "?o = ?n @ drop (length ?n) ?o" by (metis append_take_drop_id)
        then have "t_find ?o t = None" using nn t_find_append [of ?n "drop (length ?n) ?o" t] by simp
        then show False using oo by simp
      qed
      then show False using below_total [OF b True] assms(4) by blast
    qed
    then show ?thesis using True t1(2) st_at_append [OF oo] t(2) by (simp add: m_move_def)
  next
    case False
    then show ?thesis using t1(2) t(2) by (simp add: m_move_def)
  qed
  then show ?thesis using r c t(2) by (auto simp: represents_def fun_eq_iff)
qed

end
