(* ===== verification/SendStreamClaims.thy ===== *)
theory SendStreamClaims
  imports SendStreamTree
begin

text \<open>
  What the comparison by a btrfs stream reports: the map of the commands (a refinement), statuses
  that were checked against the two snapshots, and three cases in which the report is not what happened.
\<close>

subsection \<open>The stream as a function on maps\<close>

definition m_path :: "string \<Rightarrow> string \<Rightarrow> status_map \<Rightarrow> status_map" where
  "m_path from to m = m_created (parts to) (m_deleted (parts from) m)"

text \<open>A command as a function on maps; renaming to a name that the map has already, or to one below the
  old name, is left out.\<close>

fun m_defined :: "send_cmd \<Rightarrow> status_map \<Rightarrow> bool" where
  "m_defined (Rename from to) m \<longleftrightarrow> \<not> present m (parts from)
     \<or> \<not> present m (parts to) \<and> \<not> below (parts from) (parts to)"
| "m_defined _ m \<longleftrightarrow> True"

fun m_cmd :: "fnode \<Rightarrow> send_cmd \<Rightarrow> status_map \<Rightarrow> status_map res" where
  "m_cmd dir1 (Mkfile p) m = Inr (m_created (parts p) m)"
| "m_cmd dir1 (Mkdir p) m = Inr (m_created (parts p) m)"
| "m_cmd dir1 (Symlink p) m = Inr (m_created (parts p) m)"
| "m_cmd dir1 (Link p) m = Inr (m_created (parts p) m)"
| "m_cmd dir1 (Unlink p) m = Inr (m_deleted (parts p) m)"
| "m_cmd dir1 (Rmdir p) m = Inr (m_deleted (parts p) m)"
| "m_cmd dir1 (Write p) m = Inr (m_flagged CONTENT (parts p) m)"
| "m_cmd dir1 (Clone p) m = Inr (m_flagged CONTENT (parts p) m)"
| "m_cmd dir1 (Truncate p) m = Inr (m_flagged CONTENT (parts p) m)"
| "m_cmd dir1 (UpdateExtent p) m = Inr (m_flagged CONTENT (parts p) m)"
| "m_cmd dir1 (Chmod p) m = Inr (m_flagged PERMISSIONS (parts p) m)"
| "m_cmd dir1 (Chown p) m = Inr (m_flagged (USER OR GROUP) (parts p) m)"
| "m_cmd dir1 (Rename from to) m =
     (if present m (parts from) then Inr (m_move (parts from) (parts to) m)
      else bindR (moved_entries dir1 from) (\<lambda>es. Inr (foldl (\<lambda>m e. m_path (from @ ''/'' @ e) (to @ ''/'' @ e) m) (m_path from to m) es)))"
| "m_cmd dir1 _ m = Inr m"

fun m_stream :: "fnode \<Rightarrow> send_cmd list \<Rightarrow> status_map \<Rightarrow> status_map res option" where
  "m_stream dir1 [] m = Some (Inr m)"
| "m_stream dir1 (c # cs) m = (if \<not> m_defined c m then None
     else (case m_cmd dir1 c m of Inl e \<Rightarrow> Some (Inl e) | Inr m' \<Rightarrow> m_stream dir1 cs m'))"

definition simulates :: "tree_node res \<Rightarrow> status_map res \<Rightarrow> bool" where
  "simulates r s \<longleftrightarrow> (case s of Inl e \<Rightarrow> r = Inl e | Inr m \<Rightarrow> \<exists>t. r = Inr t \<and> represents t m)"

lemma simulates_simps [simp]:
  "simulates (Inr t) (Inr m) \<longleftrightarrow> represents t m" "simulates (Inl e) (Inl e') \<longleftrightarrow> e = e'"
  by (simp_all add: simulates_def)

lemma represents_path: "represents t m \<Longrightarrow> represents (move_path from to t) (m_path from to m)"
  by (simp add: move_path_def m_path_def represents_created represents_deleted)

lemma represents_entries: "represents t m \<Longrightarrow>
   represents (foldl (\<lambda>t e. move_path (f e) (g e) t) t es) (foldl (\<lambda>m e. m_path (f e) (g e) m) m es)"
  by (induction es arbitrary: t m) (simp_all add: represents_path)

lemma flags_or_nonzero: "USER OR GROUP \<noteq> 0"
  by (simp add: or_nonzero)

lemma cmd_simulates:
  assumes "represents t m" "m_defined c m"
  shows "simulates (process_cmd dir1 c t) (m_cmd dir1 c m)"
proof (cases c)
  case (Rename a b)
  show ?thesis
  proof (cases "present m (parts a)")
    case False
    then have "tn_find a t = None" using represents_present [OF assms(1), of a] by auto
    then show ?thesis
      using False Rename represents_entries [OF represents_path [OF assms(1)]]
      by (cases "moved_entries dir1 a") (simp_all add: process_rename_def)
  next
    case True
    then have n: "\<not> present m (parts b)" "\<not> below (parts a) (parts b)" using assms(2) Rename by auto
    have "tn_find a t \<noteq> None" "tn_find b t = None"
      using True n represents_present [OF assms(1), of a] represents_present [OF assms(1), of b] by auto
    then show ?thesis
      using represents_rename [OF assms(1) True n] True Rename by (auto simp: process_rename_def)
  qed
qed (use assms in \<open>simp_all add: represents_created represents_deleted represents_flagged flags_or_nonzero\<close>)

lemma stream_simulates:
  "represents t m \<Longrightarrow> m_stream dir1 cs m = Some r \<Longrightarrow> simulates (process_stream dir1 cs t) r"
proof (induction cs arbitrary: t m)
  case (Cons c cs)
  then have d: "m_defined c m" by (simp split: if_splits)
  note sim = cmd_simulates [OF Cons.prems(1) d, of dir1]
  show ?case
  proof (cases "m_cmd dir1 c m")
    case (Inl e)
    then have "r = Inl e" using Cons.prems(2) d by simp
    then show ?thesis using sim Inl d by (simp add: simulates_def)
  next
    case (Inr m')
    then obtain t' where "process_cmd dir1 c t = Inr t'" "represents t' m'" using sim by (auto simp: simulates_def)
    then show ?thesis using Cons.IH [of t' m'] Cons.prems(2) d Inr by simp
  qed
qed auto

subsection \<open>The report of a tree\<close>

lemma join_snoc: "pp \<noteq> [] \<Longrightarrow> join ''/'' (pp @ [n]) = join ''/'' pp @ ''/'' @ n"
  by (induction "''/''" pp rule: join.induct) auto

lemma join_eq_Nil: "[] \<notin> set pp \<Longrightarrow> join ''/'' pp = [] \<longleftrightarrow> pp = []"
  by (induction "''/''" pp rule: join.induct) auto

lemma join_name_join: "[] \<notin> set pp \<Longrightarrow> join_name (join ''/'' pp) n = join ''/'' (pp @ [n])"
  using join_eq_Nil [of pp] by (cases "pp = []") (auto simp: join_name_def join_snoc)

lemma path_str_join: "pp \<noteq> [] \<Longrightarrow> ''/'' @ join ''/'' pp = path_str pp"
  by (induction "''/''" pp rule: join.induct) auto

lemma split_Nil: "{F p | p. Q p} = (if Q [] then {F []} else {}) \<union> {F p | p. p \<noteq> [] \<and> Q p}"
  by auto

lemma tn_result_set:
  "pruned t \<Longrightarrow> (\<And>p. st_at t p \<noteq> 0 \<Longrightarrow> [] \<notin> set p) \<Longrightarrow> [] \<notin> set pp \<Longrightarrow>
   set (tn_result (join ''/'' pp) t) = {(path_str (pp @ p), st_at t p) | p. p \<noteq> [] \<and> st_at t p \<noteq> 0}"
proof (induction "join ''/'' pp" t arbitrary: pp rule: tn_result.induct)
  case (1 st cs)
  have entry: "set ((if tn_status c \<noteq> 0 then [(''/'' @ join_name (join ''/'' pp) n, tn_status c)] else [])
      @ tn_result (join_name (join ''/'' pp) n) c)
    = {(path_str (pp @ n # p), st_at c p) | p. st_at c p \<noteq> 0}" if "(n, c) \<in> set cs" for n c
  proof -
    have m: "map_of cs n = Some c"
      using that pruned_wf [OF "1.prems"(1)] sm_wf_distinct by (auto intro: map_of_is_SomeI)
    then have c: "pruned c" "alive c" using pruned_child [OF "1.prems"(1), of n c] by auto
    have sc: "st_at (TNode st cs) (n # p) = st_at c p" for p using m by (simp add: st_at_Cons)
    obtain q where "st_at c q \<noteq> 0" using alive_status [OF c] by blast
    then have "[] \<notin> set (n # q)" using "1.prems"(2) sc by metis
    then have n: "n \<noteq> []" by auto
    have ne: "[] \<notin> set p" if "st_at c p \<noteq> 0" for p using "1.prems"(2) [of "n # p"] sc that by auto
    have j: "join_name (join ''/'' pp) n = join ''/'' (pp @ [n])" by (rule join_name_join [OF "1.prems"(3)])
    have "set (tn_result (join ''/'' (pp @ [n])) c) = {(path_str ((pp @ [n]) @ p), st_at c p) | p. p \<noteq> [] \<and> st_at c p \<noteq> 0}"
      using "1.hyps" [OF that _ _ c(1) ne, of n "pp @ [n]"] n "1.prems"(3) j by fastforce
    moreover have "''/'' @ join ''/'' (pp @ [n]) = path_str (pp @ [n])" by (rule path_str_join) simp
    ultimately show ?thesis
      using split_Nil [of "\<lambda>p. (path_str (pp @ n # p), st_at c p)" "\<lambda>p. st_at c p \<noteq> 0"]
      by (simp add: j st_at_Nil)
  qed
  have m: "map_of cs n = Some c \<longleftrightarrow> (n, c) \<in> set cs" for n c
    using sm_wf_distinct [OF pruned_wf [OF "1.prems"(1)]] by (simp add: map_of_eq_Some_iff)
  have "set (tn_result (join ''/'' pp) (TNode st cs))
      = (\<Union>(n, c)\<in>set cs. {(path_str (pp @ n # p), st_at c p) | p. st_at c p \<noteq> 0})"
    unfolding tn_result.simps set_concat set_map image_image
  proof (rule SUP_cong [OF refl], goal_cases)
    case (1 x)
    obtain n c where x: "x = (n, c)" by (cases x)
    show ?case using entry [of n c] 1 unfolding x prod.case by blast
  qed
  also have "\<dots> = {(path_str (pp @ p), st_at (TNode st cs) p) | p. p \<noteq> [] \<and> st_at (TNode st cs) p \<noteq> 0}"
  proof (intro set_eqI iffI)
    fix x assume "x \<in> (\<Union>(n, c)\<in>set cs. {(path_str (pp @ n # p), st_at c p) | p. st_at c p \<noteq> 0})"
    then obtain n c p where n: "(n, c) \<in> set cs" "x = (path_str (pp @ n # p), st_at c p)" "st_at c p \<noteq> 0" by auto
    then have "map_of cs n = Some c" using m by blast
    then have "st_at (TNode st cs) (n # p) = st_at c p" by (simp add: st_at_Cons)
    then show "x \<in> {(path_str (pp @ p), st_at (TNode st cs) p) | p. p \<noteq> [] \<and> st_at (TNode st cs) p \<noteq> 0}"
      using n(2,3) by (intro CollectI exI [of _ "n # p"]) simp
  next
    fix x assume "x \<in> {(path_str (pp @ p), st_at (TNode st cs) p) | p. p \<noteq> [] \<and> st_at (TNode st cs) p \<noteq> 0}"
    then obtain n p where n: "x = (path_str (pp @ n # p), st_at (TNode st cs) (n # p))" "st_at (TNode st cs) (n # p) \<noteq> 0"
      by (auto simp: neq_Nil_conv)
    then obtain c where c: "map_of cs n = Some c" by (auto simp: st_at_Cons split: option.splits)
    then have "st_at (TNode st cs) (n # p) = st_at c p" by (simp add: st_at_Cons)
    then show "x \<in> (\<Union>(n, c)\<in>set cs. {(path_str (pp @ n # p), st_at c p) | p. st_at c p \<noteq> 0})"
      using n c m by (intro UN_I [of "(n, c)"]) auto
  qed
  finally show ?case .
qed

subsection \<open>What a stream reports\<close>

text \<open>C5. For a stream without a rename onto a name that the tree has already, or onto one below the old name
  (\<open>m_defined\<close>, so that \<open>m_stream\<close> is defined), the tree that the commands build implements a function from paths to
  statuses: each command changes the status of the paths it names as \<open>m_cmd\<close> says, whatever the shape of the tree, and
  the report is the list of the paths with a status other than 0 with their statuses.  The other renames take the branch
  of the code that merges two nodes; \<open>stream_merge_doubles_the_target\<close> shows that it reports paths which no command
  names.\<close>
theorem stream_refines_map:
  assumes "m_stream dir1 cs (\<lambda>_. 0) = Some (Inr m)" "\<And>p. m p \<noteq> 0 \<Longrightarrow> [] \<notin> set p"
  shows "\<exists>t. process_stream dir1 cs new_node = Inr t
    \<and> set (tn_result [] t) = {(path_str p, m p) | p. p \<noteq> [] \<and> m p \<noteq> 0}"
proof -
  have "represents new_node (\<lambda>_. 0)"
    by (simp add: represents_def pruned_new fun_eq_iff st_at_not_alive alive_def new_node_def)
  from stream_simulates [OF this assms(1)] obtain t where
    t: "process_stream dir1 cs new_node = Inr t" "pruned t" "st_at t = m"
    by (auto simp: simulates_def represents_def)
  have "[] \<notin> set p" if "st_at t p \<noteq> 0" for p using assms(2) that t(3) by simp
  from tn_result_set [OF t(2) this, of "[]"] t show ?thesis by auto
qed

lemma m_step: "m_defined c m \<Longrightarrow> m_cmd d c m = Inr m' \<Longrightarrow> m_stream d (c # cs) m = m_stream d cs m'"
  by simp

lemma present_zero: "\<not> present (\<lambda>_. 0) p"
  by (simp add: present_def)

lemma present_upd: "v \<noteq> 0 \<Longrightarrow> present (m(x := v)) p \<longleftrightarrow> below p x \<or> present m p"
proof -
  have "below p x \<longleftrightarrow> (\<exists>q. x = p @ q)" by (metis append_eq_conv_conj append_take_drop_id)
  then show "v \<noteq> 0 \<Longrightarrow> ?thesis" by (auto simp: present_def)
qed

definition dir_ex :: "(string \<times> fnode) list \<Rightarrow> fnode" where
  "dir_ex kids = FNode \<lparr>st_mode = S_IFDIR OR 0x1ED, st_uid = 0, st_gid = 0, st_size = 0, st_dev = 1, st_ino = 1,
     st_mtim = (0, 0)\<rparr> [] True kids"

lemma stream_refines_map_witness:
  "\<exists>t. process_stream (dir_ex []) [Mkfile ''o257'', Rename ''o257'' ''d/new'', Unlink ''old'', Chmod ''d''] new_node = Inr t
    \<and> set (tn_result [] t) = {(''/d/new'', CREATED), (''/old'', DELETED), (''/d'', PERMISSIONS)}"
proof -
  let ?m = "(((\<lambda>_. 0) :: status_map)([''d'', ''new''] := CREATED))([''old''] := DELETED, [''d''] := PERMISSIONS)"
  have mv: "m_move [''o257''] [''d'', ''new''] ((\<lambda>_. 0)([''o257''] := CREATED)) = (\<lambda>_. 0)([''d'', ''new''] := CREATED)"
  proof
    fix p show "m_move [''o257''] [''d'', ''new''] ((\<lambda>_. 0)([''o257''] := CREATED)) p = ((\<lambda>_. 0)([''d'', ''new''] := CREATED)) p"
    proof (cases "below [''d'', ''new''] p")
      case True
      then obtain q where "p = [''d'', ''new''] @ q" by (metis append_take_drop_id)
      then show ?thesis by (cases q) (simp_all add: m_move_def)
    next
      case False
      then show ?thesis by (auto simp: m_move_def)
    qed
  qed
  have m: "m_stream (dir_ex []) [Mkfile ''o257'', Rename ''o257'' ''d/new'', Unlink ''old'', Chmod ''d''] (\<lambda>_. 0) = Some (Inr ?m)"
  proof -
    let ?m0 = "(\<lambda>_. 0) :: status_map" and ?d = "dir_ex []"
    have 1: "m_cmd ?d (Mkfile ''o257'') ?m0 = Inr (?m0([''o257''] := CREATED))"
      by (simp add: m_created_def present_zero)
    let ?m1 = "?m0([''o257''] := CREATED)"
    have 2: "m_cmd ?d (Rename ''o257'' ''d/new'') ?m1 = Inr (?m0([''d'', ''new''] := CREATED))"
      "m_defined (Rename ''o257'' ''d/new'') ?m1"
      using mv by (simp_all add: present_upd present_zero)
    let ?m2 = "?m0([''d'', ''new''] := CREATED)"
    have 3: "m_cmd ?d (Unlink ''old'') ?m2 = Inr (?m2([''old''] := DELETED))"
      by (simp add: m_deleted_def present_upd present_zero)
    have 4: "m_cmd ?d (Chmod ''d'') (?m2([''old''] := DELETED)) = Inr (?m2([''old''] := DELETED, [''d''] := PERMISSIONS))"
      by (simp add: m_flagged_def)
    have d: "m_defined (Mkfile x) m" "m_defined (Unlink x) m" "m_defined (Chmod x) m" for x m by simp_all
    show ?thesis
      unfolding m_step [OF d(1) 1] m_step [OF 2(2,1)] m_step [OF d(2) 3] m_step [OF d(3) 4] m_stream.simps(1) ..
  qed
  have nz: "?m p \<noteq> 0 \<longleftrightarrow> p \<in> {[''d'', ''new''], [''old''], [''d'']}" for p
    by simp
  have A: "{(path_str p, ?m p) | p. p \<noteq> [] \<and> ?m p \<noteq> 0} = {(''/d/new'', CREATED), (''/old'', DELETED), (''/d'', PERMISSIONS)}"
  proof -
    have "{(path_str p, ?m p) | p. p \<noteq> [] \<and> ?m p \<noteq> 0} = (\<lambda>p. (path_str p, ?m p)) ` {p. p \<noteq> [] \<and> ?m p \<noteq> 0}"
      by (rule setcompr_eq_image)
    also have "{p. p \<noteq> [] \<and> ?m p \<noteq> 0} = {[''d'', ''new''], [''old''], [''d'']}"
      unfolding nz by blast
    also have "(\<lambda>p. (path_str p, ?m p)) ` \<dots> = {(''/d/new'', CREATED), (''/old'', DELETED), (''/d'', PERMISSIONS)}"
      by simp
    finally show ?thesis .
  qed
  have ne: "[] \<notin> set p" if "?m p \<noteq> 0" for p using that unfolding nz by fastforce
  from stream_refines_map [OF m ne] show ?thesis unfolding A .
qed

subsection \<open>Statuses are checked\<close>

definition plain_flags :: "u32 \<Rightarrow> bool" where
  "plain_flags s \<longleftrightarrow> s AND NOT (CREATED OR DELETED OR CONTENT OR PERMISSIONS OR USER OR GROUP) = 0"

lemma plain_flags_simps: "plain_flags 0" "plain_flags CREATED" "plain_flags DELETED"
  "plain_flags s \<Longrightarrow> plain_flags f \<Longrightarrow> plain_flags (s OR f)" "plain_flags s \<Longrightarrow> plain_flags (s AND f)"
  "plain_flags CONTENT" "plain_flags PERMISSIONS" "plain_flags USER" "plain_flags GROUP"
  by (auto simp: plain_flags_def flag_defs bit_eq_iff bit_simps)

lemma plain_touched: "plain_flags s \<Longrightarrow> plain_flags (touched s)"
  unfolding touched_def by (intro plain_flags_simps)

function plain_nodes :: "tree_node \<Rightarrow> bool" where
  "plain_nodes (TNode st cs) = (\<forall>x\<in>set cs. plain_flags (tn_status (snd x)) \<and> plain_nodes (snd x))"
  by pat_completeness auto
termination by (relation "measure size") (auto dest: tree_node_child_size)

definition plain :: "tree_node \<Rightarrow> bool" where
  "plain n \<longleftrightarrow> plain_flags (tn_status n) \<and> plain_nodes n"

lemma plain_nodes_iff: "plain_nodes t \<longleftrightarrow> (\<forall>(a, c)\<in>set (tn_childs t). plain c)"
  by (cases t) (auto simp: plain_def)

declare plain_nodes.simps [simp del]

lemma plain_nodesI: "(\<And>a c. (a, c) \<in> set (tn_childs t) \<Longrightarrow> plain c) \<Longrightarrow> plain_nodes t"
  by (subst plain_nodes_iff) auto

lemma plain_nodesD: "plain_nodes t \<Longrightarrow> (a, c) \<in> set (tn_childs t) \<Longrightarrow> plain c"
  by (subst (asm) plain_nodes_iff) auto

lemma plain_new: "plain new_node"
  by (simp add: plain_def new_node_def plain_flags_simps plain_nodes.simps)

lemma plain_child: "plain_nodes t \<Longrightarrow> plain (child a t)"
  using plain_nodesD [of t a] by (auto simp: child_def plain_new split: option.split dest: map_of_SomeD)

lemma set_sm_put': "x \<in> set (sm_put k v m) \<Longrightarrow> x = (k, v) \<or> x \<in> set m"
  by (induction k v m rule: sm_put.induct) (auto split: if_splits)

lemma plain_put_child: "plain_nodes t \<Longrightarrow> plain c \<Longrightarrow> plain_nodes (put_child a c t)"
  by (rule plain_nodesI) (auto simp: put_child_def dest!: set_sm_put' intro: plain_nodesD)

lemma plain_insert:
  assumes "\<And>n. plain n \<Longrightarrow> plain (g n)"
  shows "plain_nodes t \<Longrightarrow> p \<noteq> [] \<Longrightarrow> plain_nodes (t_insert p g t)"
proof (induction p arbitrary: t)
  case (Cons a p)
  note c = plain_child [OF Cons.prems(1), of a]
  have "plain (t_insert p g (child a t))"
  proof (cases p)
    case Nil
    then show ?thesis using assms [OF c] by simp
  next
    case (Cons b p')
    have "plain_nodes (t_insert p g (child a t))"
      by (rule Cons.IH) (use c Cons in \<open>simp_all add: plain_def\<close>)
    then show ?thesis using c Cons by (simp add: plain_def)
  qed
  then show ?case using plain_put_child [OF Cons.prems(1)] by simp
qed simp

lemma plain_tn_insert: "(\<And>n. plain n \<Longrightarrow> plain (g n)) \<Longrightarrow> plain_nodes t \<Longrightarrow> plain_nodes (tn_insert name g t)"
  by (simp add: tn_insert_parts plain_insert)

lemma plain_same_childs: "plain_nodes t \<Longrightarrow> tn_childs t' = tn_childs t \<Longrightarrow> plain_nodes t'"
  by (rule plain_nodesI) (auto intro: plain_nodesD)

lemma plain_set_status: "(\<And>s. plain_flags s \<Longrightarrow> plain_flags (f s)) \<Longrightarrow> plain n \<Longrightarrow> plain (set_status f n)"
  by (auto simp: plain_def set_status_def intro: plain_same_childs)

lemma plain_drop_or_put: "plain_nodes t \<Longrightarrow> plain c \<Longrightarrow> plain_nodes (drop_or_put a c t)"
proof -
  assume t: "plain_nodes t" and c: "plain c"
  have "plain_nodes (TNode st (sm_erase a (tn_childs t)))" for st
    by (rule plain_nodesI) (auto intro: plain_nodesD [OF t] dest: set_sm_erase)
  then show ?thesis using plain_put_child [OF t c] by (simp add: drop_or_put_def)
qed

lemma plain_erase: "plain t \<Longrightarrow> plain (t_erase p t)"
proof (induction p arbitrary: t)
  case Nil
  then show ?case by (auto simp: plain_def plain_flags_simps intro: plain_same_childs)
next
  case (Cons a p)
  then have n: "plain_nodes t" by (simp add: plain_def)
  have "plain c" if "map_of (tn_childs t) a = Some c" for c
    using plain_nodesD [OF n] that by (auto dest: map_of_SomeD)
  then show ?case
    using Cons.IH plain_drop_or_put [OF n] Cons.prems by (auto simp: plain_def split: option.split)
qed

lemma plain_tn_erase:
  assumes "plain_nodes t"
  shows "plain_nodes (tn_erase name t)"
proof -
  obtain a p where n: "parts name = a # p" by (cases "parts name") auto
  have "plain c" if "map_of (tn_childs t) a = Some c" for c
    using plain_nodesD [OF assms] that by (auto dest: map_of_SomeD)
  then show ?thesis
    using plain_drop_or_put [OF assms] plain_erase assms by (auto simp: tn_erase_parts n split: option.split)
qed

lemma plain_created: "plain_nodes t \<Longrightarrow> plain_nodes (created name t)"
  unfolding created_def
  by (auto intro!: plain_tn_insert plain_set_status plain_flags_simps plain_touched split: option.split)

lemma plain_deleted: "plain_nodes t \<Longrightarrow> plain_nodes (deleted name t)"
  unfolding deleted_def
  by (auto intro!: plain_tn_insert plain_tn_erase plain_set_status plain_flags_simps split: option.split)

lemma plain_flagged: "plain_nodes t \<Longrightarrow> plain_flags f \<Longrightarrow> plain_nodes (flagged f name t)"
  unfolding flagged_def by (intro plain_tn_insert plain_set_status plain_flags_simps)

lemma plain_merge: "plain_nodes tmp \<Longrightarrow> plain_nodes files \<Longrightarrow> plain_nodes (merge to prefix tmp files)"
proof (induction to prefix tmp files rule: merge.induct)
  case (1 to prefix st cs files)
  have node: "plain_nodes f \<Longrightarrow> plain_flags s \<Longrightarrow> plain_nodes (merge_node x s f)" for f s x
    unfolding merge_node_def
    by (auto intro!: plain_tn_insert plain_set_status plain_touched split: option.split)
  define step where "step files = (\<lambda>(name, c).
     let x = (if prefix = [] then to @ ''/'' @ name else to @ ''/'' @ prefix @ ''/'' @ name)
     in merge to x c (merge_node x (tn_status c) files))" for files :: tree_node
  have s: "plain_nodes (step f x)" if "x \<in> set cs" "plain_nodes f" for f x
  proof -
    obtain name c where x: "x = (name, c)" by (cases x)
    have "plain c" using plain_nodesD [OF "1.prems"(1)] that(1) x by simp
    then show ?thesis
      using "1.IH" [OF that(1) x [symmetric]] node [OF that(2)] that x by (auto simp: step_def Let_def plain_def)
  qed
  have "set xs \<subseteq> set cs \<Longrightarrow> plain_nodes f \<Longrightarrow> plain_nodes (foldl step f xs)" for xs f
    using s by (induction xs arbitrary: f) auto
  then show ?case using "1.prems"(2) by (simp add: merge.simps step_def [symmetric])
qed

lemma plain_found: "plain_nodes t \<Longrightarrow> p \<noteq> [] \<Longrightarrow> t_find p t = Some n \<Longrightarrow> plain n"
proof (induction p arbitrary: t)
  case (Cons a p)
  then obtain c where c: "map_of (tn_childs t) a = Some c" "t_find p c = Some n" by (auto split: option.splits)
  then have "plain c" using plain_nodesD [OF Cons.prems(1)] by (auto dest: map_of_SomeD)
  then show ?case using Cons.IH [of c] c by (cases p) (auto simp: plain_def)
qed simp

lemma plain_empty: "plain n \<Longrightarrow> plain (TNode (tn_status n) [])"
  by (simp add: plain_def plain_nodes.simps)

lemma plain_moves: "plain_nodes t \<Longrightarrow> plain_nodes (foldl (\<lambda>t e. move_path (f e) (g e) t) t es)"
  by (induction es arbitrary: t) (simp_all add: move_path_def plain_created plain_deleted)

lemma plain_rename:
  assumes "plain_nodes t" "process_rename dir1 a b t = Inr t'"
  shows "plain_nodes t'"
proof (cases "tn_find a t")
  case None
  then show ?thesis
    using assms plain_moves [of "move_path a b t"] plain_created plain_deleted
    by (auto simp: process_rename_def bindR_eq_Inr move_path_def)
next
  case (Some oo)
  then have oo: "plain oo" using plain_found [OF assms(1), of "parts a" oo] by (simp add: tn_find_parts)
  show ?thesis
  proof (cases "tn_find b t")
    case None
    then show ?thesis
      using assms Some oo plain_empty
      by (auto simp: process_rename_def tn_rename_def intro!: plain_tn_erase plain_tn_insert)
  next
    case (Some it2)
    have "plain_nodes (TNode 0 (tn_childs oo))" using oo by (auto simp: plain_def intro: plain_same_childs)
    then show ?thesis
      using assms \<open>tn_find a t = Some oo\<close> Some plain_empty
      by (auto simp: process_rename_def move_path_def intro!: plain_merge plain_created plain_deleted plain_tn_insert)
  qed
qed

lemma plain_cmd: "plain_nodes t \<Longrightarrow> process_cmd dir1 c t = Inr t' \<Longrightarrow> plain_nodes t'"
  by (cases c) (auto intro!: plain_created plain_deleted plain_flagged plain_flags_simps intro: plain_rename)

lemma plain_stream: "plain_nodes t \<Longrightarrow> process_stream dir1 cs t = Inr t' \<Longrightarrow> plain_nodes t'"
  by (induction cs arbitrary: t) (auto simp: bindR_eq_Inr dest: plain_cmd)

text \<open>A status after the check.\<close>

definition checked :: "fnode \<Rightarrow> fnode \<Rightarrow> string \<Rightarrow> u32 \<Rightarrow> bool" where
  "checked dir1 dir2 name s \<longleftrightarrow> s = 0 \<or> s = CREATED \<or> s = DELETED \<or>
     (\<exists>d1 d2. deep_open dir1 (dirname name) = Inr d1 \<and> deep_open dir2 (dirname name) = Inr d2
        \<and> cmpFilesOpt (map_of (n_kids d1) (basename name)) (map_of (n_kids d2) (basename name)) = Inr s)"

lemma plain_rest:
  assumes "plain_flags s" "\<not> has s CREATED" "\<not> has s DELETED"
  shows "s AND NOT (CONTENT OR PERMISSIONS OR USER OR GROUP) = 0"
proof -
  have z: "s AND NOT 123 = 0" "s AND 1 = 0" "s AND 2 = 0"
    using assms by (simp_all add: plain_flags_def flag_defs)
  have "s AND NOT 120 = (s AND NOT 123) OR (s AND 1) OR (s AND 2)"
  proof -
    have "(NOT 120 :: u32) = NOT 123 OR 1 OR 2" by simp
    then show ?thesis by (simp only: bit.conj_disj_distrib)
  qed
  then show ?thesis using z by (simp add: flag_defs)
qed

lemma and_parts: "s AND NOT m = 0 \<Longrightarrow> s AND m = 0 \<Longrightarrow> s = (0 :: u32)"
  by (metis bit.conj_disj_distrib bit.disj_cancel_right bit.conj_one_right or.right_neutral)

lemma flags_disjoint: "CREATED AND (CONTENT OR PERMISSIONS OR USER OR GROUP) = 0"
  "DELETED AND (CONTENT OR PERMISSIONS OR USER OR GROUP) = 0" "CREATED AND DELETED = 0"
  by (simp_all add: flag_defs)

lemma check_status_checked:
  assumes "plain_flags s" "check_status dir1 dir2 name s = Inr s'"
  shows "checked dir1 dir2 name s'"
proof -
  consider "has s DELETED" "\<not> has s CREATED" | "has s CREATED" | "\<not> has s CREATED" "\<not> has s DELETED" by blast
  then show ?thesis
  proof cases
    case 3
    show ?thesis
    proof (cases "has s (CONTENT OR PERMISSIONS OR USER OR GROUP)")
      case True
      then show ?thesis
        using assms(2) 3 plain_rest [OF assms(1) 3]
        by (auto simp: check_status_def Let_def bindR_eq_Inr checked_def)
    next
      case False
      then have "s = 0"
        using and_parts [OF plain_rest [OF assms(1) 3]] by simp
      then show ?thesis using assms(2) by (simp add: check_status_def checked_def)
    qed
  qed (use assms(2) flags_disjoint in \<open>auto simp: check_status_def Let_def checked_def\<close>)
qed

lemma check_result:
  "plain_nodes t \<Longrightarrow> tn_check dir1 dir2 prefix t = Inr t' \<Longrightarrow> (x, s) \<in> set (tn_result prefix t') \<Longrightarrow>
     \<exists>name. x = ''/'' @ name \<and> checked dir1 dir2 name s \<and> s \<noteq> 0"
proof (induction dir1 dir2 prefix t arbitrary: t' rule: tn_check.induct)
  case (1 dir1 dir2 prefix st cs)
  obtain cs' where cs': "t' = TNode st cs'" "list_all2 (\<lambda>(name, c) y.
      bindR (check_status dir1 dir2 (join_name prefix name) (tn_status c)) (\<lambda>s.
      bindR (tn_check dir1 dir2 (join_name prefix name) c) (\<lambda>c'. Inr (name, TNode s (tn_childs c')))) = Inr y) cs cs'"
    using "1.prems"(2) by (auto simp: tn_check.simps bindR_eq_Inr mapR_Inr_iff case_prod_unfold)
  from "1.prems"(3) obtain name c' where c': "(name, c') \<in> set cs'"
    "(x, s) \<in> set ((if tn_status c' \<noteq> 0 then [(''/'' @ join_name prefix name, tn_status c')] else [])
       @ tn_result (join_name prefix name) c')"
    by (auto simp: cs'(1) tn_result.simps)
  obtain name0 c where c: "(name0, c) \<in> set cs" "bindR (check_status dir1 dir2 (join_name prefix name0) (tn_status c)) (\<lambda>s.
      bindR (tn_check dir1 dir2 (join_name prefix name0) c) (\<lambda>c'. Inr (name0, TNode s (tn_childs c')))) = Inr (name, c')"
    using cs'(2) c'(1) by (fastforce simp: list_all2_conv_all_nth in_set_conv_nth)
  then obtain s0 c0 where s0: "check_status dir1 dir2 (join_name prefix name) (tn_status c) = Inr s0"
    "tn_check dir1 dir2 (join_name prefix name) c = Inr c0" "c' = TNode s0 (tn_childs c0)" "name0 = name"
    by (auto simp: bindR_eq_Inr)
  have p: "plain c" using plain_nodesD [OF "1.prems"(1)] c(1) by auto
  have same: "tn_result (join_name prefix name) c' = tn_result (join_name prefix name) c0"
    by (cases c0) (simp add: s0(3) tn_result.simps)
  have IH: "(x, s) \<in> set (tn_result (join_name prefix name) c0) \<Longrightarrow>
     \<exists>name. x = ''/'' @ name \<and> checked dir1 dir2 name s \<and> s \<noteq> 0"
    using "1.IH" [of "(name, c)" name c s0 c0] c(1) s0 p by (simp add: plain_def)
  show ?case
    using c'(2) check_status_checked [OF _ s0(1)] p IH s0 same
    by (auto simp: plain_def split: if_splits)
qed

text \<open>C6. A status that the comparison by a stream reports is \<open>CREATED\<close> or \<open>DELETED\<close>, or what the
  comparison of the two entries of that name gives: what the kernel says of contents and attributes is checked.\<close>
theorem stream_statuses_are_checked:
  assumes "stream_process V dir1 dir2 = Inr r" "(x, s) \<in> set r"
  shows "\<exists>name. x = ''/'' @ name \<and> s \<noteq> 0 \<and> (s = CREATED \<or> s = DELETED \<or>
    (\<exists>d1 d2. deep_open dir1 (dirname name) = Inr d1 \<and> deep_open dir2 (dirname name) = Inr d2
       \<and> cmpFilesOpt (map_of (n_kids d1) (basename name)) (map_of (n_kids d2) (basename name)) = Inr s))"
proof -
  obtain t t' where t: "process_stream dir1 (se_stream V) new_node = Inr t" "tn_check dir1 dir2 [] t = Inr t'" "r = tn_result [] t'"
    using assms(1) by (auto simp: stream_process_def do_send_def bindR_eq_Inr split: if_splits sum.splits)
  have "plain_nodes t" using plain_stream [OF _ t(1)] plain_new by (simp add: plain_def)
  then obtain name where "x = ''/'' @ name" "checked dir1 dir2 name s" "s \<noteq> 0"
    using check_result [OF _ t(2)] assms(2) t(3) by blast
  then show ?thesis unfolding checked_def by blast
qed

definition send_ex :: "send_cmd list \<Rightarrow> send_env" where
  "send_ex cs = \<lparr>se_init = True, se_ro1 = Some True, se_ro2 = Some True, se_stream = cs, se_ioctl = True, se_reader = True\<rparr>"

definition file_ex :: "nat \<Rightarrow> string \<Rightarrow> fnode" where
  "file_ex n data = FNode \<lparr>st_mode = S_IFREG OR 0x1A4, st_uid = 0, st_gid = 0, st_size = length data, st_dev = 1,
     st_ino = n, st_mtim = (int n, 0)\<rparr> data True []"

theorem stream_statuses_are_checked_witness:
  "\<exists>name. ''/f'' = ''/'' @ name \<and> CONTENT \<noteq> 0 \<and> (CONTENT = CREATED \<or> CONTENT = DELETED \<or>
    (\<exists>d1 d2. deep_open (dir_ex [(''f'', file_ex 2 ''a'')]) (dirname name) = Inr d1
       \<and> deep_open (dir_ex [(''f'', file_ex 3 ''b'')]) (dirname name) = Inr d2
       \<and> cmpFilesOpt (map_of (n_kids d1) (basename name)) (map_of (n_kids d2) (basename name)) = Inr CONTENT))"
proof -
  have "stream_process (send_ex [Write ''f'', Utimes ''f'']) (dir_ex [(''f'', file_ex 2 ''a'')])
     (dir_ex [(''f'', file_ex 3 ''b'')]) = Inr [(''/f'', CONTENT)]" by code_simp
  from stream_statuses_are_checked [OF this] show ?thesis by simp
qed

subsection \<open>Changes that the comparison by a stream does not report\<close>

text \<open>A directory that is removed after an entry of it (as it always is) is not reported when the entry has
  made a node for it: the node has no status, and \<open>deleted\<close> takes a name it knows for one that the stream created.\<close>

theorem stream_forgets_removed_directory:
  "stream_process (send_ex [Unlink ''a/b'', Rmdir ''a'']) (dir_ex [(''a'', dir_ex [(''b'', file_ex 2 ''x'')])]) (dir_ex [])
     = Inr [(''/a/b'', DELETED)]"
  "cmpDirs (dir_ex [(''a'', dir_ex [(''b'', file_ex 2 ''x'')])]) (dir_ex []) = Inr [(''/a'', DELETED), (''/a/b'', DELETED)]"
  by code_simp+

text \<open>When a directory of the stream takes the place of a removed one, \<open>merge\<close> puts what is below a
  directory of it at a name that has the target twice.\<close>

theorem stream_merge_doubles_the_target:
  "stream_process (send_ex [Mkdir ''o'', Mkdir ''o/d'', Mkfile ''o/d/f'', Rmdir ''x'', Rename ''o'' ''x'']) (dir_ex [(''x'', dir_ex [])])
     (dir_ex [(''x'', dir_ex [(''d'', dir_ex [(''f'', file_ex 2 ''x'')])])])
     = Inr [(''/x/d'', CREATED), (''/x/x/d/f'', CREATED)]"
  by code_simp

text \<open>The callbacks for fifos, devices and sockets do nothing, so that the rename from the temporary name of
  such an entry is taken for one of an entry of the first snapshot: the temporary name, which neither snapshot has, is
  reported as deleted.\<close>

theorem stream_reports_temporary_name:
  "stream_process (send_ex [Mkfifo ''o1'', Rename ''o1'' ''f'']) (dir_ex []) (dir_ex [(''f'', file_ex 2 ''x'')])
     = Inr [(''/f'', CREATED), (''/o1'', DELETED)]"
  by code_simp

end
