(* ===== verification/ClientCalls.thy ===== *)
theory ClientCalls
  imports DBusCodec Snapshots Files
begin

text \<open>
  The client's side of the bus (\<open>client/commands.cc\<close>, \<open>client/types.h\<close>, \<open>client/types.cc\<close>): one
  function for each method of the service, which encodes the arguments, waits for the reply and decodes
  it.  What answers a call is a parameter \<open>peer\<close>, a step on a state of its own; the state of the client
  records the calls beside it; of \<open>argv\<close> it has the arguments from \<open>optind\<close> on and the one before.
  A program ends by an exception of the library or the bus, by the error reply of a call (\<open>DBus::ErrorException\<close> with its name and message), by \<open>std::terminate\<close>, or by \<open>exit\<close>.
\<close>

datatype stop =
    Threw exn
  | ErrorReply string string
  | Terminated
  | Exited bool

text \<open>\<open>Exited False\<close> is \<open>exit(EXIT_FAILURE)\<close>.\<close>

record 's client =
  cn_peer :: 's
  cn_calls :: "(string \<times> dval list) list"
  cn_prev :: string
  cn_args :: "string list"
  cn_out :: string
  cn_err :: string
  cn_fs :: fs

type_synonym 's peer = "string \<Rightarrow> dval list \<Rightarrow> ('s, stop, dval list) gstep"
type_synonym ('s, 'a) cstep = "('s client, stop, 'a) gstep"

subsection \<open>A call\<close>

text \<open>\<open>send_with_reply_and_block\<close>, and the extraction of the first value of a reply.\<close>

definition bus_call :: "'s peer \<Rightarrow> string \<Rightarrow> dval list \<Rightarrow> ('s, dval list) cstep" where
  "bus_call P member vs c = (case P member vs (cn_peer c) of
     (r, s) \<Rightarrow> (r, c\<lparr>cn_peer := s, cn_calls := cn_calls c @ [(member, vs)]\<rparr>))"

definition decode :: "'a decoder \<Rightarrow> dval list \<Rightarrow> ('s, 'a) cstep" where
  "decode d vs = (if vs = [] then throwS (Threw FatalException)
     else (case get_value d vs of Inl e \<Rightarrow> throwS (Threw e) | Inr (a, rest) \<Rightarrow> retS a))"

definition no_reply :: "dval list \<Rightarrow> ('s, unit) cstep" where
  "no_reply vs = retS ()"

subsection \<open>Configurations\<close>

definition command_list_xconfigs :: "'s peer \<Rightarrow> ('s, xconfig list) cstep" where
  "command_list_xconfigs P = bindS (bus_call P ''ListConfigs'' []) (decode (dec_array config_sig dec_config))"

definition command_get_xconfig :: "'s peer \<Rightarrow> string \<Rightarrow> ('s, xconfig) cstep" where
  "command_get_xconfig P config_name =
     bindS (bus_call P ''GetConfig'' [enc_string config_name]) (decode dec_config)"

definition command_create_xconfig ::
  "'s peer \<Rightarrow> string \<Rightarrow> string \<Rightarrow> string \<Rightarrow> string \<Rightarrow> ('s, unit) cstep" where
  "command_create_xconfig P config_name subvolume fstype template_name = bindS (bus_call P ''CreateConfig''
     [enc_string config_name, enc_string subvolume, enc_string fstype, enc_string template_name]) no_reply"

definition command_delete_xconfig :: "'s peer \<Rightarrow> string \<Rightarrow> ('s, unit) cstep" where
  "command_delete_xconfig P config_name = bindS (bus_call P ''DeleteConfig'' [enc_string config_name]) no_reply"

subsection \<open>Snapshots\<close>

definition command_list_xsnapshots :: "'s peer \<Rightarrow> string \<Rightarrow> ('s, xsnapshot list) cstep" where
  "command_list_xsnapshots P config_name =
     bindS (bus_call P ''ListSnapshots'' [enc_string config_name]) (decode (dec_array snapshot_sig dec_snapshot))"

definition command_get_xsnapshot :: "'s peer \<Rightarrow> string \<Rightarrow> u32 \<Rightarrow> ('s, xsnapshot) cstep" where
  "command_get_xsnapshot P config_name num =
     bindS (bus_call P ''GetSnapshot'' [enc_string config_name, enc_u32 num]) (decode dec_snapshot)"

definition command_set_xsnapshot :: "'s peer \<Rightarrow> string \<Rightarrow> u32 \<Rightarrow> xsnapshot \<Rightarrow> ('s, unit) cstep" where
  "command_set_xsnapshot P config_name num d = bindS (bus_call P ''SetSnapshot''
     [enc_string config_name, enc_u32 num, enc_string (xs_description d), enc_string (xs_cleanup d), enc_map (xs_userdata d)])
     no_reply"

definition command_create_single_xsnapshot ::
  "'s peer \<Rightarrow> string \<Rightarrow> string \<Rightarrow> string \<Rightarrow> (string, string) smap \<Rightarrow> ('s, u32) cstep" where
  "command_create_single_xsnapshot P config_name description cleanup userdata = bindS (bus_call P ''CreateSingleSnapshot''
     [enc_string config_name, enc_string description, enc_string cleanup, enc_map userdata]) (decode dec_u32)"

definition command_create_pre_xsnapshot ::
  "'s peer \<Rightarrow> string \<Rightarrow> string \<Rightarrow> string \<Rightarrow> (string, string) smap \<Rightarrow> ('s, u32) cstep" where
  "command_create_pre_xsnapshot P config_name description cleanup userdata = bindS (bus_call P ''CreatePreSnapshot''
     [enc_string config_name, enc_string description, enc_string cleanup, enc_map userdata]) (decode dec_u32)"

definition command_create_post_xsnapshot ::
  "'s peer \<Rightarrow> string \<Rightarrow> u32 \<Rightarrow> string \<Rightarrow> string \<Rightarrow> (string, string) smap \<Rightarrow> ('s, u32) cstep" where
  "command_create_post_xsnapshot P config_name prenum description cleanup userdata = bindS (bus_call P ''CreatePostSnapshot''
     [enc_string config_name, enc_u32 prenum, enc_string description, enc_string cleanup, enc_map userdata]) (decode dec_u32)"

definition command_delete_xsnapshots :: "'s peer \<Rightarrow> string \<Rightarrow> u32 list \<Rightarrow> ('s, unit) cstep" where
  "command_delete_xsnapshots P config_name nums =
     bindS (bus_call P ''DeleteSnapshots'' [enc_string config_name, enc_array ''u'' enc_u32 nums]) no_reply"

definition command_mount_xsnapshots :: "'s peer \<Rightarrow> string \<Rightarrow> u32 \<Rightarrow> bool \<Rightarrow> ('s, string) cstep" where
  "command_mount_xsnapshots P config_name num user_request = bindS (bus_call P ''MountSnapshot''
     [enc_string config_name, enc_u32 num, enc_bool user_request]) (decode dec_string)"

definition command_umount_xsnapshots :: "'s peer \<Rightarrow> string \<Rightarrow> u32 \<Rightarrow> bool \<Rightarrow> ('s, unit) cstep" where
  "command_umount_xsnapshots P config_name num user_request = bindS (bus_call P ''UmountSnapshot''
     [enc_string config_name, enc_u32 num, enc_bool user_request]) no_reply"

definition command_get_xmount_point :: "'s peer \<Rightarrow> string \<Rightarrow> u32 \<Rightarrow> ('s, string) cstep" where
  "command_get_xmount_point P config_name num =
     bindS (bus_call P ''GetMountPoint'' [enc_string config_name, enc_u32 num]) (decode dec_string)"

subsection \<open>Comparisons\<close>

definition command_create_xcomparison :: "'s peer \<Rightarrow> string \<Rightarrow> u32 \<Rightarrow> u32 \<Rightarrow> ('s, unit) cstep" where
  "command_create_xcomparison P config_name number1 number2 =
     bindS (bus_call P ''CreateComparison'' [enc_string config_name, enc_u32 number1, enc_u32 number2]) no_reply"

definition command_get_xfiles :: "'s peer \<Rightarrow> string \<Rightarrow> u32 \<Rightarrow> u32 \<Rightarrow> ('s, xfile list) cstep" where
  "command_get_xfiles P config_name number1 number2 =
     bindS (bus_call P ''GetFiles'' [enc_string config_name, enc_u32 number1, enc_u32 number2])
       (decode (dec_array file_sig dec_file))"

definition command_xdebug :: "'s peer \<Rightarrow> ('s, string list) cstep" where
  "command_xdebug P = bindS (bus_call P ''Debug'' []) (decode (dec_array ''s'' dec_string))"

subsection \<open>Lists of snapshots\<close>

text \<open>An iterator is an index, \<open>end()\<close> the length.  A \<open>throw\<close> without an exception terminates.\<close>

definition xs_is :: "snapshot_type \<Rightarrow> xsnapshot \<Rightarrow> bool" where
  "xs_is t x \<longleftrightarrow> xs_type x = of_nat (enum_num t)"

definition getDate :: "xsnapshot \<Rightarrow> int" where
  "getDate x = sint (xs_date x)"

definition x_isCurrent :: "xsnapshot \<Rightarrow> bool" where
  "x_isCurrent x \<longleftrightarrow> xs_num x = 0"

definition x_find :: "u32 \<Rightarrow> xsnapshot list \<Rightarrow> nat" where
  "x_find num xs = find_idx (\<lambda>x. xs_num x = num) xs"

definition x_findPre :: "nat \<Rightarrow> xsnapshot list \<Rightarrow> stop + nat" where
  "x_findPre post xs =
     (if post = length xs \<or> x_isCurrent (xs ! post) \<or> \<not> xs_is POST (xs ! post) then Inl Terminated
      else Inr (find_idx (\<lambda>x. xs_is PRE x \<and> xs_num x = xs_pre_num (xs ! post)) xs))"

definition x_findPost :: "nat \<Rightarrow> xsnapshot list \<Rightarrow> stop + nat" where
  "x_findPost pre xs =
     (if pre = length xs \<or> x_isCurrent (xs ! pre) \<or> \<not> xs_is PRE (xs ! pre) then Inl Terminated
      else Inr (find_idx (\<lambda>x. xs_is POST x \<and> xs_pre_num x = xs_num (xs ! pre)) xs))"

end
