(* ===== verification/Cleanup.thy ===== *)
theory Cleanup
  imports ClientCalls Datetime
begin

text \<open>
  The cleanup algorithms of the client (\<open>client/cleanup.cc\<close>).  A list of iterators into the list of
  snapshots is a list of indices into it.  The clock and \<open>localtime_r\<close>, which depends on the time zone, are
  parameters.  What an algorithm chooses is separated from its calls: \<open>number_victims\<close> and
  \<open>timeline_victims\<close> are the code between the reply to \<open>ListSnapshots\<close> and the first \<open>DeleteSnapshots\<close>.
\<close>

record cleanup_env =
  ce_now :: int
  ce_localtime :: "int \<Rightarrow> tm"

subsection \<open>Numbers in a configuration\<close>

text \<open>\<open>string >> number\<close>: nothing is stored when there is nothing but white space, 0 when there is no
  digit, and the bound of the type when the number is out of range.\<close>

definition scan_sign :: "string \<Rightarrow> bool \<times> string" where
  "scan_sign s = (let s1 = dropWhile is_space s;
       sign = (s1 \<noteq> [] \<and> (hd s1 = CHR ''-'' \<or> hd s1 = CHR ''+''))
     in (sign \<and> hd s1 = CHR ''-'', takeWhile is_digit (if sign then tl s1 else s1)))"

definition into_size :: "string \<Rightarrow> nat \<Rightarrow> nat" where
  "into_size s old = (if list_all is_space s then old
     else (case scan_sign s of (neg, ds) \<Rightarrow>
       if ds = [] then 0
       else if digits_val ds \<ge> 2 ^ 64 then 2 ^ 64 - 1
       else if neg then (2 ^ 64 - digits_val ds) mod 2 ^ 64 else digits_val ds))"

definition into_time :: "string \<Rightarrow> int \<Rightarrow> int" where
  "into_time s old = (if list_all is_space s then old
     else (case scan_sign s of (neg, ds) \<Rightarrow>
       if ds = [] then 0
       else if neg then max (- (2 ^ 63)) (- int (digits_val ds))
       else min (2 ^ 63 - 1) (int (digits_val ds))))"

definition size_option :: "xconfig \<Rightarrow> string \<Rightarrow> nat \<Rightarrow> nat" where
  "size_option ci key old = (case map_of (xc_raw ci) key of None \<Rightarrow> old | Some v \<Rightarrow> into_size v old)"

definition time_option :: "xconfig \<Rightarrow> string \<Rightarrow> int \<Rightarrow> int" where
  "time_option ci key old = (case map_of (xc_raw ci) key of None \<Rightarrow> old | Some v \<Rightarrow> into_time v old)"

subsection \<open>Filters\<close>

text \<open>The subtraction from the current time is done in 64 bits.\<close>

definition age_limit :: "cleanup_env \<Rightarrow> int \<Rightarrow> int" where
  "age_limit W min_age = sint (word_of_int (ce_now W - min_age) :: 64 word)"

definition younger_than :: "int \<Rightarrow> xsnapshot \<Rightarrow> bool" where
  "younger_than t x \<longleftrightarrow> getDate x > t"

definition filter1 :: "cleanup_env \<Rightarrow> int \<Rightarrow> xsnapshot list \<Rightarrow> nat list \<Rightarrow> nat list" where
  "filter1 W min_age xs tmp = filter (\<lambda>i. \<not> younger_than (age_limit W min_age) (xs ! i)) tmp"

text \<open>Whether the loop of \<open>filter2\<close> goes on without keeping the snapshot.\<close>

definition lacks_partner :: "xsnapshot list \<Rightarrow> nat list \<Rightarrow> nat \<Rightarrow> stop + bool" where
  "lacks_partner xs tmp i =
     bindR (if xs_is PRE (xs ! i) then bindR (x_findPost i xs) (\<lambda>j. Inr (j \<noteq> length xs \<and> j \<notin> set tmp)) else Inr False)
       (\<lambda>b. if b then Inr True
         else if xs_is POST (xs ! i) then bindR (x_findPre i xs) (\<lambda>j. Inr (j \<noteq> length xs \<and> j \<notin> set tmp))
         else Inr False)"

fun filter2_loop :: "xsnapshot list \<Rightarrow> nat list \<Rightarrow> nat list \<Rightarrow> stop + nat list" where
  "filter2_loop xs tmp [] = Inr []"
| "filter2_loop xs tmp (i # is) = bindR (lacks_partner xs tmp i) (\<lambda>b.
     bindR (filter2_loop xs tmp is) (\<lambda>ret. Inr (if b then ret else i # ret)))"

definition filter2 :: "xsnapshot list \<Rightarrow> nat list \<Rightarrow> stop + nat list" where
  "filter2 xs tmp = filter2_loop xs tmp tmp"

text \<open>The last loop of every algorithm: a call for each snapshot.\<close>

definition delete_each :: "'s peer \<Rightarrow> string \<Rightarrow> xsnapshot list \<Rightarrow> nat list \<Rightarrow> ('s, bool) cstep" where
  "delete_each P config_name xs tmp =
     thenS (foreachS (\<lambda>i. command_delete_xsnapshots P config_name [xs_num (xs ! i)]) tmp) (retS True)"

definition with_cleanup :: "string \<Rightarrow> xsnapshot list \<Rightarrow> nat list" where
  "with_cleanup a xs = filter (\<lambda>i. xs_cleanup (xs ! i) = a) [0..<length xs]"

subsection \<open>By number\<close>

definition number_victims :: "cleanup_env \<Rightarrow> int \<Rightarrow> nat \<Rightarrow> xsnapshot list \<Rightarrow> stop + nat list" where
  "number_victims W min_age limit xs = (let tmp = with_cleanup ''number'' xs in
     if length tmp > limit then filter2 xs (filter1 W min_age xs (take (length tmp - limit) tmp)) else Inr [])"

definition do_cleanup_number :: "cleanup_env \<Rightarrow> 's peer \<Rightarrow> string \<Rightarrow> ('s, bool) cstep" where
  "do_cleanup_number W P config_name = bindS (command_get_xconfig P config_name) (\<lambda>ci.
     bindS (command_list_xsnapshots P config_name) (\<lambda>xs.
     bindS (liftS (number_victims W (time_option ci ''NUMBER_MIN_AGE'' 1800) (size_option ci ''NUMBER_LIMIT'' 50) xs))
       (delete_each P config_name xs)))"

subsection \<open>By timeline\<close>

definition equal_year :: "tm \<Rightarrow> tm \<Rightarrow> bool" where
  "equal_year a b \<longleftrightarrow> tm_year a = tm_year b"

definition equal_month :: "tm \<Rightarrow> tm \<Rightarrow> bool" where
  "equal_month a b \<longleftrightarrow> equal_year a b \<and> tm_mon a = tm_mon b"

definition equal_day :: "tm \<Rightarrow> tm \<Rightarrow> bool" where
  "equal_day a b \<longleftrightarrow> equal_month a b \<and> tm_mday a = tm_mday b"

definition equal_hour :: "tm \<Rightarrow> tm \<Rightarrow> bool" where
  "equal_hour a b \<longleftrightarrow> equal_day a b \<and> tm_hour a = tm_hour b"

fun is_first :: "(tm \<Rightarrow> tm \<Rightarrow> bool) \<Rightarrow> cleanup_env \<Rightarrow> xsnapshot list \<Rightarrow> nat list \<Rightarrow> nat \<Rightarrow> bool" where
  "is_first pred W xs [] it1 = True"
| "is_first pred W xs (it2 # is) it1 =
     (if it1 = it2 then is_first pred W xs is it1
      else (let t1 = getDate (xs ! it1); t2 = getDate (xs ! it2) in
        if \<not> pred (ce_localtime W t1) (ce_localtime W t2) then True
        else if t1 > t2 then False
        else is_first pred W xs is it1))"

record limits =
  l_hourly :: nat
  l_daily :: nat
  l_monthly :: nat
  l_yearly :: nat

text \<open>The loop, with the four limits and what has been kept of each.\<close>

fun timeline_loop :: "cleanup_env \<Rightarrow> xsnapshot list \<Rightarrow> limits \<Rightarrow> limits \<Rightarrow> nat list \<Rightarrow> nat list" where
  "timeline_loop W xs l n [] = []"
| "timeline_loop W xs l n (i # is) =
     (if l_hourly n < l_hourly l \<and> is_first equal_hour W xs (i # is) i
        then timeline_loop W xs l (n\<lparr>l_hourly := Suc (l_hourly n)\<rparr>) is
      else if l_daily n < l_daily l \<and> is_first equal_day W xs (i # is) i
        then timeline_loop W xs l (n\<lparr>l_daily := Suc (l_daily n)\<rparr>) is
      else if l_monthly n < l_monthly l \<and> is_first equal_month W xs (i # is) i
        then timeline_loop W xs l (n\<lparr>l_monthly := Suc (l_monthly n)\<rparr>) is
      else if l_yearly n < l_yearly l \<and> is_first equal_year W xs (i # is) i
        then timeline_loop W xs l (n\<lparr>l_yearly := Suc (l_yearly n)\<rparr>) is
      else i # timeline_loop W xs l n is)"

definition timeline_victims :: "cleanup_env \<Rightarrow> int \<Rightarrow> limits \<Rightarrow> xsnapshot list \<Rightarrow> stop + nat list" where
  "timeline_victims W min_age l xs =
     (let tmp = timeline_loop W xs l \<lparr>l_hourly = 0, l_daily = 0, l_monthly = 0, l_yearly = 0\<rparr> (rev (with_cleanup ''timeline'' xs))
      in filter2 xs (filter1 W min_age xs (rev tmp)))"

definition timeline_limits :: "xconfig \<Rightarrow> limits" where
  "timeline_limits ci = \<lparr>l_hourly = size_option ci ''TIMELINE_LIMIT_HOURLY'' 10,
     l_daily = size_option ci ''TIMELINE_LIMIT_DAILY'' 10, l_monthly = size_option ci ''TIMELINE_LIMIT_MONTHLY'' 10,
     l_yearly = size_option ci ''TIMELINE_LIMIT_YEARLY'' 10\<rparr>"

definition do_cleanup_timeline :: "cleanup_env \<Rightarrow> 's peer \<Rightarrow> string \<Rightarrow> ('s, bool) cstep" where
  "do_cleanup_timeline W P config_name = bindS (command_get_xconfig P config_name) (\<lambda>ci.
     bindS (command_list_xsnapshots P config_name) (\<lambda>xs.
     bindS (liftS (timeline_victims W (time_option ci ''TIMELINE_MIN_AGE'' 1800) (timeline_limits ci) xs))
       (delete_each P config_name xs)))"

subsection \<open>Empty pairs\<close>

fun empty_pairs :: "'s peer \<Rightarrow> string \<Rightarrow> xsnapshot list \<Rightarrow> nat list \<Rightarrow> ('s, nat list) cstep" where
  "empty_pairs P config_name xs [] = retS []"
| "empty_pairs P config_name xs (i # is) =
     bindS (if \<not> xs_is PRE (xs ! i) then retS []
       else bindS (liftS (x_findPost i xs)) (\<lambda>j.
         if j = length xs then retS []
         else thenS (command_create_xcomparison P config_name (xs_num (xs ! i)) (xs_num (xs ! j)))
           (bindS (command_get_xfiles P config_name (xs_num (xs ! i)) (xs_num (xs ! j))) (\<lambda>files.
             retS (if files = [] then [i, j] else [])))))
       (\<lambda>a. bindS (empty_pairs P config_name xs is) (\<lambda>b. retS (a @ b)))"

definition do_cleanup_empty_pre_post :: "cleanup_env \<Rightarrow> 's peer \<Rightarrow> string \<Rightarrow> ('s, bool) cstep" where
  "do_cleanup_empty_pre_post W P config_name = bindS (command_get_xconfig P config_name) (\<lambda>ci.
     bindS (command_list_xsnapshots P config_name) (\<lambda>xs.
     bindS (empty_pairs P config_name xs [0..<length xs]) (\<lambda>tmp.
     bindS (liftS (filter2 xs (filter1 W (time_option ci ''EMPTY_PRE_POST_MIN_AGE'' 1800) xs tmp)))
       (delete_each P config_name xs))))"

end
