(* ===== verification/CleanupClaims.thy ===== *)
theory CleanupClaims
  imports Cleanup
begin

text \<open>
  What the cleanup algorithms choose: exactly the old snapshots beyond the limit whose partner is
  chosen too, never one of a pair alone, and of the timeline never the first snapshot of one of the newest
  hours, days, months and years.
\<close>

subsection \<open>Pairs\<close>

text \<open>A pre snapshot and its post snapshot, and what the server guarantees of them.\<close>

definition partners :: "xsnapshot list \<Rightarrow> nat \<Rightarrow> nat \<Rightarrow> bool" where
  "partners xs i j \<longleftrightarrow> i < length xs \<and> j < length xs \<and> xs_is PRE (xs ! i) \<and> xs_is POST (xs ! j)
     \<and> xs_pre_num (xs ! j) = xs_num (xs ! i)"

definition paired :: "xsnapshot list \<Rightarrow> bool" where
  "paired xs \<longleftrightarrow> distinct (map xs_num xs) \<and> (\<forall>x\<in>set xs. xs_is PRE x \<or> xs_is POST x \<longrightarrow> xs_num x \<noteq> 0)
     \<and> (\<forall>i j k. partners xs i j \<and> partners xs i k \<longrightarrow> j = k)"

lemma types_differ: "xs_is PRE x \<Longrightarrow> \<not> xs_is POST x" "xs_is SINGLE x \<Longrightarrow> \<not> xs_is PRE x \<and> \<not> xs_is POST x"
  by (auto simp: xs_is_def enum_num_def)

lemma find_idx_is:
  assumes "i < length xs" "p (xs ! i)" "\<And>k. k < length xs \<Longrightarrow> p (xs ! k) \<Longrightarrow> k = i"
  shows "find_idx p xs = i"
  using assms
proof (induction xs arbitrary: i)
  case (Cons x xs)
  show ?case
  proof (cases i)
    case (Suc k)
    have "\<not> p x" using Cons.prems(3) [of 0] Suc by force
    moreover have "find_idx p xs = k"
    proof (rule Cons.IH)
      show "m < length xs \<Longrightarrow> p (xs ! m) \<Longrightarrow> m = k" for m using Cons.prems(3) [of "Suc m"] Suc by simp
    qed (use Cons.prems Suc in auto)
    ultimately show ?thesis using Suc by simp
  qed (use Cons.prems in simp)
qed simp

lemma find_idx_none: "(\<And>k. k < length xs \<Longrightarrow> \<not> p (xs ! k)) \<Longrightarrow> find_idx p xs = length xs"
proof (induction xs)
  case (Cons x xs)
  have "\<not> p x" using Cons.prems [of 0] by simp
  moreover have "find_idx p xs = length xs" using Cons.prems [of "Suc k" for k] by (intro Cons.IH) auto
  ultimately show ?case by simp
qed simp

lemma findPost_cases:
  assumes "paired xs" "i < length xs" "xs_is PRE (xs ! i)"
  shows "(\<exists>j. partners xs i j \<and> x_findPost i xs = Inr j) \<or> ((\<forall>j. \<not> partners xs i j) \<and> x_findPost i xs = Inr (length xs))"
proof -
  have nz: "\<not> x_isCurrent (xs ! i)" using assms by (auto simp: paired_def x_isCurrent_def)
  show ?thesis
  proof (cases "\<exists>j. partners xs i j")
    case True
    then obtain j where j: "partners xs i j" ..
    have "find_idx (\<lambda>x. xs_is POST x \<and> xs_pre_num x = xs_num (xs ! i)) xs = j"
    proof (rule find_idx_is)
      fix k assume "k < length xs" "xs_is POST (xs ! k) \<and> xs_pre_num (xs ! k) = xs_num (xs ! i)"
      then have "partners xs i k" using assms by (simp add: partners_def)
      then show "k = j" using j assms(1) unfolding paired_def by blast
    qed (use j in \<open>auto simp: partners_def\<close>)
    then show ?thesis using j nz assms by (auto simp: x_findPost_def)
  next
    case False
    then have "find_idx (\<lambda>x. xs_is POST x \<and> xs_pre_num x = xs_num (xs ! i)) xs = length xs"
      using assms by (intro find_idx_none) (auto simp: partners_def)
    then show ?thesis using False nz assms by (auto simp: x_findPost_def)
  qed
qed

lemma findPre_cases:
  assumes "paired xs" "j < length xs" "xs_is POST (xs ! j)"
  shows "(\<exists>i. partners xs i j \<and> x_findPre j xs = Inr i) \<or> ((\<forall>i. \<not> partners xs i j) \<and> x_findPre j xs = Inr (length xs))"
proof -
  have nz: "\<not> x_isCurrent (xs ! j)" using assms by (auto simp: paired_def x_isCurrent_def)
  show ?thesis
  proof (cases "\<exists>i. partners xs i j")
    case True
    then obtain i where i: "partners xs i j" ..
    have "find_idx (\<lambda>x. xs_is PRE x \<and> xs_num x = xs_pre_num (xs ! j)) xs = i"
    proof (rule find_idx_is)
      fix k assume "k < length xs" "xs_is PRE (xs ! k) \<and> xs_num (xs ! k) = xs_pre_num (xs ! j)"
      then show "k = i"
        using i assms(1) by (auto simp: partners_def paired_def distinct_conv_nth)
    qed (use i in \<open>auto simp: partners_def\<close>)
    then show ?thesis using i nz assms by (auto simp: x_findPre_def)
  next
    case False
    then have "find_idx (\<lambda>x. xs_is PRE x \<and> xs_num x = xs_pre_num (xs ! j)) xs = length xs"
      using assms by (intro find_idx_none) (auto simp: partners_def)
    then show ?thesis using False nz assms by (auto simp: x_findPre_def)
  qed
qed

definition has_partner :: "xsnapshot list \<Rightarrow> nat set \<Rightarrow> nat \<Rightarrow> bool" where
  "has_partner xs T i \<longleftrightarrow> (\<forall>j. partners xs i j \<or> partners xs j i \<longrightarrow> j \<in> T)"

lemma lacks_partner_eq:
  assumes "paired xs" "i < length xs"
  shows "lacks_partner xs tmp i = Inr (\<not> has_partner xs (set tmp) i)"
proof -
  consider "xs_is PRE (xs ! i)" | "xs_is POST (xs ! i)" | "\<not> xs_is PRE (xs ! i)" "\<not> xs_is POST (xs ! i)" by blast
  then show ?thesis
  proof cases
    case 1
    then have n: "\<not> partners xs j i" for j using types_differ(1) by (auto simp: partners_def)
    consider j where "partners xs i j" "x_findPost i xs = Inr j" | "\<forall>j. \<not> partners xs i j" "x_findPost i xs = Inr (length xs)"
      using findPost_cases [OF assms 1] by blast
    then show ?thesis
    proof cases
      case (1 j)
      have "partners xs i k \<longleftrightarrow> k = j" for k using 1(1) assms(1) unfolding paired_def by blast
      moreover have "j \<noteq> length xs" using 1(1) by (simp add: partners_def)
      ultimately show ?thesis
        using \<open>xs_is PRE (xs ! i)\<close> types_differ(1) 1(2) n by (auto simp: lacks_partner_def has_partner_def)
    next
      case 2
      then show ?thesis using 1 types_differ(1) n by (auto simp: lacks_partner_def has_partner_def)
    qed
  next
    case 2
    then have n: "\<not> partners xs i j" for j using types_differ(1) by (auto simp: partners_def)
    have np: "\<not> xs_is PRE (xs ! i)" using 2 types_differ(1) by blast
    consider j where "partners xs j i" "x_findPre i xs = Inr j" | "\<forall>j. \<not> partners xs j i" "x_findPre i xs = Inr (length xs)"
      using findPre_cases [OF assms 2] by blast
    then show ?thesis
    proof cases
      case (1 j)
      have "partners xs k i \<longleftrightarrow> k = j" for k
        using 1(1) assms(1) by (auto simp: partners_def paired_def distinct_conv_nth)
      moreover have "j \<noteq> length xs" using 1(1) by (simp add: partners_def)
      ultimately show ?thesis
        using 2 np 1(2) n by (auto simp: lacks_partner_def has_partner_def)
    next
      case none: 2
      then show ?thesis using 2 np n by (auto simp: lacks_partner_def has_partner_def)
    qed
  next
    case 3
    then show ?thesis by (auto simp: lacks_partner_def has_partner_def partners_def)
  qed
qed

lemma filter2_eq:
  assumes "paired xs" "\<forall>i\<in>set tmp. i < length xs"
  shows "filter2 xs tmp = Inr (filter (has_partner xs (set tmp)) tmp)"
proof -
  have "filter2_loop xs tmp is = Inr (filter (has_partner xs (set tmp)) is)" if "\<forall>i\<in>set is. i < length xs" for "is"
    using that by (induction "is") (simp_all add: lacks_partner_eq [OF assms(1)])
  then show ?thesis using assms(2) by (simp add: filter2_def)
qed

subsection \<open>By number\<close>

lemma with_cleanup_split:
  assumes "i \<in> set (with_cleanup a xs)"
  shows "with_cleanup a xs = filter (\<lambda>k. xs_cleanup (xs ! k) = a) [0..<i] @ i # filter (\<lambda>k. xs_cleanup (xs ! k) = a) [Suc i..<length xs]"
proof -
  have i: "i < length xs" "xs_cleanup (xs ! i) = a" using assms by (auto simp: with_cleanup_def)
  have "[0..<length xs] = [0..<i] @ [i..<length xs]"
    using upt_add_eq_append [of 0 i "length xs - i"] i(1) by simp
  then have "[0..<length xs] = [0..<i] @ i # [Suc i..<length xs]" unfolding upt_conv_Cons [OF i(1)] .
  then have "with_cleanup a xs = filter (\<lambda>k. xs_cleanup (xs ! k) = a) ([0..<i] @ i # [Suc i..<length xs])"
    unfolding with_cleanup_def by (rule arg_cong)
  then show ?thesis using i(2) by (simp only: filter_append filter.simps refl if_True)
qed

lemma with_cleanup_props: "sorted (with_cleanup a xs)" "distinct (with_cleanup a xs)"
  "i \<in> set (with_cleanup a xs) \<longleftrightarrow> i < length xs \<and> xs_cleanup (xs ! i) = a"
  by (auto simp: with_cleanup_def sorted_wrt_filter)

lemma filter_indices: "length (filter (\<lambda>k. p (xs ! k)) [m..<length xs]) = length (filter p (drop m xs))"
proof -
  have "map ((!) xs) [m..<length xs] = drop m xs" by (rule nth_equalityI) auto
  from arg_cong [OF this, of "filter p"]
  have "filter p (drop m xs) = map ((!) xs) (filter (\<lambda>k. p (xs ! k)) [m..<length xs])"
    by (simp add: filter_map comp_def)
  from arg_cong [OF this, of length] show ?thesis by simp
qed

lemma take_distinct_iff:
  assumes "distinct (as @ i # bs)"
  shows "i \<in> set (take m (as @ i # bs)) \<longleftrightarrow> length as < m"
proof (cases "m \<le> length as")
  case True
  then show ?thesis using assms by (auto dest: in_set_takeD)
next
  case False
  then obtain k where "m = Suc (length as + k)" by (metis add_Suc_right less_natE not_less)
  then show ?thesis by (simp add: take_Cons)
qed

definition later :: "string \<Rightarrow> xsnapshot list \<Rightarrow> nat \<Rightarrow> nat" where
  "later a xs i = length (filter (\<lambda>x. xs_cleanup x = a) (drop (Suc i) xs))"

lemma beyond_limit:
  "i \<in> set (take (length (with_cleanup a xs) - l) (with_cleanup a xs))
   \<longleftrightarrow> i < length xs \<and> xs_cleanup (xs ! i) = a \<and> l \<le> later a xs i"
proof (cases "i \<in> set (with_cleanup a xs)")
  case True
  let ?bs = "filter (\<lambda>k. xs_cleanup (xs ! k) = a) [Suc i..<length xs]"
  and ?as = "filter (\<lambda>k. xs_cleanup (xs ! k) = a) [0..<i]"
  have e: "with_cleanup a xs = ?as @ i # ?bs" by (rule with_cleanup_split [OF True])
  have "distinct (?as @ i # ?bs)" using with_cleanup_props(2) [of a xs] e by simp
  then have "i \<in> set (take (length (?as @ i # ?bs) - l) (?as @ i # ?bs)) \<longleftrightarrow> length ?as < length (?as @ i # ?bs) - l"
    by (rule take_distinct_iff)
  also have "\<dots> \<longleftrightarrow> l \<le> length ?bs" by auto
  also have "length ?bs = later a xs i"
    using filter_indices [of "\<lambda>x. xs_cleanup x = a" xs "Suc i"] by (simp add: later_def)
  finally show ?thesis using True with_cleanup_props(3) [of i a xs] unfolding e [symmetric] by blast
next
  case False
  then show ?thesis using with_cleanup_props(3) [of i a xs] by (auto dest: in_set_takeD)
qed

definition number_due :: "cleanup_env \<Rightarrow> int \<Rightarrow> nat \<Rightarrow> xsnapshot list \<Rightarrow> nat \<Rightarrow> bool" where
  "number_due W min_age limit xs i \<longleftrightarrow> i < length xs \<and> xs_cleanup (xs ! i) = ''number''
     \<and> getDate (xs ! i) \<le> age_limit W min_age \<and> limit \<le> later ''number'' xs i"

text \<open>C8. The cleanup by number chooses, in their order, exactly the snapshots with this algorithm that have at least
  the limit of such snapshots after them, are not younger than the minimal age, and whose pre or post
  snapshot, if there is one, meets the same conditions.\<close>
theorem number_cleanup_choice:
  assumes "paired xs"
  shows "\<exists>v. number_victims W min_age limit xs = Inr v \<and> sorted v \<and> distinct v
    \<and> (\<forall>i. i \<in> set v \<longleftrightarrow> number_due W min_age limit xs i
         \<and> (\<forall>j. partners xs i j \<or> partners xs j i \<longrightarrow> number_due W min_age limit xs j))"
proof -
  let ?tmp = "with_cleanup ''number'' xs"
  let ?d = "filter1 W min_age xs (take (length ?tmp - limit) ?tmp)"
  have d: "i \<in> set ?d \<longleftrightarrow> number_due W min_age limit xs i" for i
    using beyond_limit [of i "''number''" xs limit] by (auto simp: filter1_def number_due_def younger_than_def)
  have sd: "sorted ?d" "distinct ?d"
    unfolding filter1_def using with_cleanup_props by (simp_all add: sorted_wrt_filter sorted_wrt_take)
  have "number_victims W min_age limit xs = filter2 xs ?d"
    by (simp add: number_victims_def Let_def filter2_def filter1_def)
  also have "\<dots> = Inr (filter (has_partner xs (set ?d)) ?d)"
    by (rule filter2_eq [OF assms]) (use d in \<open>simp add: number_due_def\<close>)
  finally show ?thesis
    using sd d by (intro exI [of _ "filter (has_partner xs (set ?d)) ?d"]) (auto simp: sorted_wrt_filter has_partner_def)
qed

definition x_ex :: "u32 \<Rightarrow> 16 word \<Rightarrow> u32 \<Rightarrow> int \<Rightarrow> string \<Rightarrow> xsnapshot" where
  "x_ex num ty pre date cleanup = \<lparr>xs_num = num, xs_type = ty, xs_pre_num = pre, xs_date = word_of_int date, xs_uid = 0,
     xs_description = [], xs_cleanup = cleanup, xs_userdata = []\<rparr>"

text \<open>Seven snapshots a minute apart: a pair, two single ones, a pair whose post snapshot is among the last two.\<close>

definition number_ex :: "xsnapshot list" where
  "number_ex = [x_ex 0 0 0 0 [], x_ex 1 1 0 60 ''number'', x_ex 2 2 1 120 ''number'', x_ex 3 0 0 180 ''timeline'',
     x_ex 4 0 0 240 ''number'', x_ex 5 1 0 300 ''number'', x_ex 6 2 5 360 ''number'', x_ex 7 0 0 420 ''number'']"

lemma paired_iff: "paired xs \<longleftrightarrow> distinct (map xs_num xs)
  \<and> list_all (\<lambda>x. xs_is PRE x \<or> xs_is POST x \<longrightarrow> xs_num x \<noteq> 0) xs
  \<and> list_all (\<lambda>i. list_all (\<lambda>j. list_all (\<lambda>k. partners xs i j \<and> partners xs i k \<longrightarrow> j = k) [0..<length xs])
      [0..<length xs]) [0..<length xs]"
proof -
  have "(\<forall>i j k. partners xs i j \<and> partners xs i k \<longrightarrow> j = k) \<longleftrightarrow>
     (\<forall>i\<in>{0..<length xs}. \<forall>j\<in>{0..<length xs}. \<forall>k\<in>{0..<length xs}. partners xs i j \<and> partners xs i k \<longrightarrow> j = k)"
    by (auto simp: partners_def)
  then show ?thesis by (simp add: paired_def list_all_iff)
qed

theorem number_cleanup_choice_witness:
  "number_victims \<lparr>ce_now = 2000, ce_localtime = gmtime\<rparr> 1000 2 number_ex = Inr [1, 2, 4]
   \<and> (\<exists>v. number_victims \<lparr>ce_now = 2000, ce_localtime = gmtime\<rparr> 1000 2 number_ex = Inr v \<and> 4 \<in> set v \<and> 5 \<notin> set v)"
proof -
  have p: "paired number_ex" unfolding paired_iff by code_simp
  have v: "number_victims \<lparr>ce_now = 2000, ce_localtime = gmtime\<rparr> 1000 2 number_ex = Inr [1, 2, 4]" by code_simp
  then have "number_due \<lparr>ce_now = 2000, ce_localtime = gmtime\<rparr> 1000 2 number_ex 4"
    using number_cleanup_choice [OF p, of "\<lparr>ce_now = 2000, ce_localtime = gmtime\<rparr>" 1000 2] by auto
  with v show ?thesis by simp
qed

subsection \<open>By timeline\<close>

text \<open>The timeline snapshots before an index; whether a snapshot is in another period than the one before it, and
  how many of those from an index on are.\<close>

definition before :: "xsnapshot list \<Rightarrow> nat \<Rightarrow> nat list" where
  "before xs m = filter (\<lambda>i. xs_cleanup (xs ! i) = ''timeline'') [0..<m]"

definition begins :: "(tm \<Rightarrow> tm \<Rightarrow> bool) \<Rightarrow> cleanup_env \<Rightarrow> xsnapshot list \<Rightarrow> nat \<Rightarrow> bool" where
  "begins p W xs i \<longleftrightarrow> before xs i = [] \<or>
     \<not> p (ce_localtime W (getDate (xs ! i))) (ce_localtime W (getDate (xs ! last (before xs i))))"

definition beginnings :: "(tm \<Rightarrow> tm \<Rightarrow> bool) \<Rightarrow> cleanup_env \<Rightarrow> xsnapshot list \<Rightarrow> nat \<Rightarrow> nat" where
  "beginnings p W xs m = length (filter (\<lambda>i. xs_cleanup (xs ! i) = ''timeline'' \<and> begins p W xs i) [m..<length xs])"

definition in_order :: "xsnapshot list \<Rightarrow> bool" where
  "in_order xs \<longleftrightarrow> sorted_wrt (\<lambda>i j. getDate (xs ! i) < getDate (xs ! j)) (before xs (length xs))"

lemma before_Suc: "before xs (Suc m) = before xs m @ (if xs_cleanup (xs ! m) = ''timeline'' then [m] else [])"
  by (simp add: before_def)

lemma before_set: "i \<in> set (before xs m) \<longleftrightarrow> i < m \<and> xs_cleanup (xs ! i) = ''timeline''"
  by (auto simp: before_def)

lemma in_orderD:
  assumes "in_order xs" "i < j" "j < length xs" "xs_cleanup (xs ! i) = ''timeline''" "xs_cleanup (xs ! j) = ''timeline''"
  shows "getDate (xs ! i) < getDate (xs ! j)"
proof -
  let ?P = "\<lambda>k. xs_cleanup (xs ! k) = ''timeline''"
  have "[0..<length xs] = [0..<j] @ [j..<length xs]"
    using upt_add_eq_append [of 0 j "length xs - j"] assms(3) by simp
  then have "before xs (length xs) = before xs j @ filter ?P [j..<length xs]"
    unfolding before_def by (simp only: filter_append)
  then have "sorted_wrt (\<lambda>i j. getDate (xs ! i) < getDate (xs ! j)) (before xs j @ filter ?P [j..<length xs])"
    using assms(1) by (simp only: in_order_def)
  moreover have "i \<in> set (before xs j)" "j \<in> set (filter ?P [j..<length xs])"
    using assms by (simp_all add: before_set)
  ultimately show ?thesis unfolding sorted_wrt_append by blast
qed

lemma is_first_begins:
  assumes "in_order xs" "i < length xs" "xs_cleanup (xs ! i) = ''timeline''"
  shows "is_first p W xs (i # rev (before xs i)) i \<longleftrightarrow> begins p W xs i"
proof (cases "before xs i" rule: rev_cases)
  case (snoc ks k)
  have k: "k < i" "xs_cleanup (xs ! k) = ''timeline''" using snoc before_set [of k xs i] by auto
  have "getDate (xs ! k) < getDate (xs ! i)" by (rule in_orderD [OF assms(1) k(1) assms(2) k(2) assms(3)])
  then show ?thesis using k(1) snoc by (simp add: begins_def Let_def)
qed (simp add: begins_def)

lemma beginnings_step:
  "m < length xs \<Longrightarrow> beginnings p W xs m =
     (if xs_cleanup (xs ! m) = ''timeline'' \<and> begins p W xs m then Suc (beginnings p W xs (Suc m)) else beginnings p W xs (Suc m))"
  unfolding beginnings_def by (subst upt_conv_Cons) simp_all

definition kept_at :: "cleanup_env \<Rightarrow> xsnapshot list \<Rightarrow> limits \<Rightarrow> nat \<Rightarrow> bool" where
  "kept_at W xs l i \<longleftrightarrow>
     (begins equal_hour W xs i \<and> beginnings equal_hour W xs (Suc i) < l_hourly l)
   \<or> (begins equal_day W xs i \<and> beginnings equal_day W xs (Suc i) < l_daily l)
   \<or> (begins equal_month W xs i \<and> beginnings equal_month W xs (Suc i) < l_monthly l)
   \<or> (begins equal_year W xs i \<and> beginnings equal_year W xs (Suc i) < l_yearly l)"

definition counted :: "cleanup_env \<Rightarrow> xsnapshot list \<Rightarrow> limits \<Rightarrow> nat \<Rightarrow> bool" where
  "counted W xs n m \<longleftrightarrow> l_hourly n \<le> beginnings equal_hour W xs m \<and> l_daily n \<le> beginnings equal_day W xs m
     \<and> l_monthly n \<le> beginnings equal_month W xs m \<and> l_yearly n \<le> beginnings equal_year W xs m"

lemma timeline_loop_keeps:
  assumes "in_order xs"
  shows "m \<le> length xs \<Longrightarrow> counted W xs n m \<Longrightarrow> i \<in> set (timeline_loop W xs l n (rev (before xs m))) \<Longrightarrow>
    i \<in> set (before xs m) \<and> \<not> kept_at W xs l i"
proof (induction m arbitrary: n)
  case 0
  then show ?case by (simp add: before_def)
next
  case (Suc m)
  note step = beginnings_step [of m xs _ W]
  have m: "m < length xs" using Suc.prems(1) by simp
  show ?case
  proof (cases "xs_cleanup (xs ! m) = ''timeline''")
    case False
    then have "counted W xs n m" using Suc.prems(2) step [OF m] by (simp add: counted_def)
    then show ?thesis using Suc.IH [of n] Suc.prems(3) m False by (simp add: before_Suc)
  next
    case True
    note first = is_first_begins [OF assms m True]
    let ?rest = "rev (before xs m)"
    have r: "rev (before xs (Suc m)) = m # ?rest" using True by (simp add: before_Suc)
    have sub: "i \<in> set (before xs m) \<Longrightarrow> i \<in> set (before xs (Suc m))" by (auto simp: before_Suc)
    have go: "i \<in> set (timeline_loop W xs l n' ?rest) \<Longrightarrow> counted W xs n' m \<Longrightarrow> ?thesis" for n'
      using Suc.IH [of n'] m sub by simp
    have c: "l_hourly n \<le> beginnings equal_hour W xs (Suc m)" "l_daily n \<le> beginnings equal_day W xs (Suc m)"
      "l_monthly n \<le> beginnings equal_month W xs (Suc m)" "l_yearly n \<le> beginnings equal_year W xs (Suc m)"
      using Suc.prems(2) by (simp_all add: counted_def)
    have c': "counted W xs n m" using c step [OF m] by (simp add: counted_def)
    have L: "timeline_loop W xs l n (m # ?rest) =
       (if l_hourly n < l_hourly l \<and> begins equal_hour W xs m then timeline_loop W xs l (n\<lparr>l_hourly := Suc (l_hourly n)\<rparr>) ?rest
        else if l_daily n < l_daily l \<and> begins equal_day W xs m then timeline_loop W xs l (n\<lparr>l_daily := Suc (l_daily n)\<rparr>) ?rest
        else if l_monthly n < l_monthly l \<and> begins equal_month W xs m then timeline_loop W xs l (n\<lparr>l_monthly := Suc (l_monthly n)\<rparr>) ?rest
        else if l_yearly n < l_yearly l \<and> begins equal_year W xs m then timeline_loop W xs l (n\<lparr>l_yearly := Suc (l_yearly n)\<rparr>) ?rest
        else m # timeline_loop W xs l n ?rest)"
      by (simp only: timeline_loop.simps first)
    have i: "i \<in> set (timeline_loop W xs l n (m # ?rest))" using Suc.prems(3) r by simp
    consider "l_hourly n < l_hourly l \<and> begins equal_hour W xs m"
      | "\<not> (l_hourly n < l_hourly l \<and> begins equal_hour W xs m)" "l_daily n < l_daily l \<and> begins equal_day W xs m"
      | "\<not> (l_hourly n < l_hourly l \<and> begins equal_hour W xs m)" "\<not> (l_daily n < l_daily l \<and> begins equal_day W xs m)"
        "l_monthly n < l_monthly l \<and> begins equal_month W xs m"
      | "\<not> (l_hourly n < l_hourly l \<and> begins equal_hour W xs m)" "\<not> (l_daily n < l_daily l \<and> begins equal_day W xs m)"
        "\<not> (l_monthly n < l_monthly l \<and> begins equal_month W xs m)" "l_yearly n < l_yearly l \<and> begins equal_year W xs m"
      | "\<not> (l_hourly n < l_hourly l \<and> begins equal_hour W xs m)" "\<not> (l_daily n < l_daily l \<and> begins equal_day W xs m)"
        "\<not> (l_monthly n < l_monthly l \<and> begins equal_month W xs m)" "\<not> (l_yearly n < l_yearly l \<and> begins equal_year W xs m)"
      by blast
    then show ?thesis
    proof cases
      case 1
      then have "timeline_loop W xs l n (m # ?rest) = timeline_loop W xs l (n\<lparr>l_hourly := Suc (l_hourly n)\<rparr>) ?rest"
        by (simp only: L simp_thms if_True if_False)
      then show ?thesis using go [of "n\<lparr>l_hourly := Suc (l_hourly n)\<rparr>"] i c step [OF m] True 1 by (simp add: counted_def)
    next
      case 2
      then have "timeline_loop W xs l n (m # ?rest) = timeline_loop W xs l (n\<lparr>l_daily := Suc (l_daily n)\<rparr>) ?rest"
        by (simp only: L simp_thms if_True if_False)
      then show ?thesis using go [of "n\<lparr>l_daily := Suc (l_daily n)\<rparr>"] i c step [OF m] True 2 by (simp add: counted_def)
    next
      case 3
      then have "timeline_loop W xs l n (m # ?rest) = timeline_loop W xs l (n\<lparr>l_monthly := Suc (l_monthly n)\<rparr>) ?rest"
        by (simp only: L simp_thms if_True if_False)
      then show ?thesis using go [of "n\<lparr>l_monthly := Suc (l_monthly n)\<rparr>"] i c step [OF m] True 3 by (simp add: counted_def)
    next
      case 4
      then have "timeline_loop W xs l n (m # ?rest) = timeline_loop W xs l (n\<lparr>l_yearly := Suc (l_yearly n)\<rparr>) ?rest"
        by (simp only: L simp_thms if_True if_False)
      then show ?thesis using go [of "n\<lparr>l_yearly := Suc (l_yearly n)\<rparr>"] i c step [OF m] True 4 by (simp add: counted_def)
    next
      case 5
      then have "timeline_loop W xs l n (m # ?rest) = m # timeline_loop W xs l n ?rest"
        by (simp only: L simp_thms if_False)
      then consider "i = m" | "i \<in> set (timeline_loop W xs l n ?rest)" using i by auto
      then show ?thesis
      proof cases
        case 1
        then show ?thesis using 5 c True by (auto simp: kept_at_def before_set)
      next
        case 2
        then show ?thesis using go [OF _ c'] by blast
      qed
    qed
  qed
qed

lemma timeline_loop_subset:
  "distinct is \<Longrightarrow> distinct (timeline_loop W xs l n is) \<and> set (timeline_loop W xs l n is) \<subseteq> set is"
proof (induction "is" arbitrary: n)
  case (Cons i "is")
  have IH: "distinct (timeline_loop W xs l n' is) \<and> set (timeline_loop W xs l n' is) \<subseteq> set is" for n'
    using Cons by simp
  have "i \<notin> set is" using Cons.prems by simp
  then show ?case unfolding timeline_loop.simps using IH by (auto simp del: is_first.simps)
qed simp

lemma budget_step:
  fixes H D M Y :: nat
  assumes "a \<Longrightarrow> 0 < H" "b \<Longrightarrow> 0 < D" "c \<Longrightarrow> 0 < M" "d \<Longrightarrow> 0 < Y"
    and "N \<le> length X1 + (H - 1) + D + M + Y" "N \<le> length X2 + H + (D - 1) + M + Y"
    and "N \<le> length X3 + H + D + (M - 1) + Y" "N \<le> length X4 + H + D + M + (Y - 1)" "N \<le> length X5 + H + D + M + Y"
  shows "Suc N \<le> length (if a then X1 else if b then X2 else if c then X3 else if d then X4 else x # X5) + H + D + M + Y"
proof -
  consider a | "\<not> a" b | "\<not> a" "\<not> b" c | "\<not> a" "\<not> b" "\<not> c" d | "\<not> a" "\<not> b" "\<not> c" "\<not> d" by blast
  then show ?thesis
  proof cases
    case 1 then show ?thesis using assms(1,5) by simp
  next
    case 2 then show ?thesis using assms(2,6) by simp
  next
    case 3 then show ?thesis using assms(3,7) by simp
  next
    case 4 then show ?thesis using assms(4,8) by simp
  next
    case 5 then show ?thesis using assms(9) by simp
  qed
qed

lemma timeline_loop_length:
  "length is \<le> length (timeline_loop W xs l n is) + (l_hourly l - l_hourly n) + (l_daily l - l_daily n)
     + (l_monthly l - l_monthly n) + (l_yearly l - l_yearly n)"
proof (induction "is" arbitrary: n)
  case (Cons i "is")
  show ?case
    unfolding timeline_loop.simps length_Cons
  proof (rule budget_step)
    show "length is \<le> length (timeline_loop W xs l (n\<lparr>l_hourly := Suc (l_hourly n)\<rparr>) is) + (l_hourly l - l_hourly n - 1)
      + (l_daily l - l_daily n) + (l_monthly l - l_monthly n) + (l_yearly l - l_yearly n)"
      using Cons [of "n\<lparr>l_hourly := Suc (l_hourly n)\<rparr>"] by simp
    show "length is \<le> length (timeline_loop W xs l (n\<lparr>l_daily := Suc (l_daily n)\<rparr>) is) + (l_hourly l - l_hourly n)
      + (l_daily l - l_daily n - 1) + (l_monthly l - l_monthly n) + (l_yearly l - l_yearly n)"
      using Cons [of "n\<lparr>l_daily := Suc (l_daily n)\<rparr>"] by simp
    show "length is \<le> length (timeline_loop W xs l (n\<lparr>l_monthly := Suc (l_monthly n)\<rparr>) is) + (l_hourly l - l_hourly n)
      + (l_daily l - l_daily n) + (l_monthly l - l_monthly n - 1) + (l_yearly l - l_yearly n)"
      using Cons [of "n\<lparr>l_monthly := Suc (l_monthly n)\<rparr>"] by simp
    show "length is \<le> length (timeline_loop W xs l (n\<lparr>l_yearly := Suc (l_yearly n)\<rparr>) is) + (l_hourly l - l_hourly n)
      + (l_daily l - l_daily n) + (l_monthly l - l_monthly n) + (l_yearly l - l_yearly n - 1)"
      using Cons [of "n\<lparr>l_yearly := Suc (l_yearly n)\<rparr>"] by simp
    show "length is \<le> length (timeline_loop W xs l n is) + (l_hourly l - l_hourly n)
      + (l_daily l - l_daily n) + (l_monthly l - l_monthly n) + (l_yearly l - l_yearly n)" by (rule Cons)
  qed simp_all
qed simp

lemma timeline_victims_eq:
  assumes "paired xs" "timeline_victims W min_age l xs = Inr v"
  obtains tmp where "tmp = timeline_loop W xs l \<lparr>l_hourly = 0, l_daily = 0, l_monthly = 0, l_yearly = 0\<rparr> (rev (before xs (length xs)))"
    "set v = {i \<in> set tmp. getDate (xs ! i) \<le> age_limit W min_age
       \<and> has_partner xs {i \<in> set tmp. getDate (xs ! i) \<le> age_limit W min_age} i}"
proof -
  let ?tmp = "timeline_loop W xs l \<lparr>l_hourly = 0, l_daily = 0, l_monthly = 0, l_yearly = 0\<rparr> (rev (before xs (length xs)))"
  let ?d = "filter1 W min_age xs (rev ?tmp)"
  have b: "with_cleanup ''timeline'' xs = before xs (length xs)" by (simp add: with_cleanup_def before_def)
  have "distinct (rev (before xs (length xs)))" by (simp add: before_def)
  then have "set ?tmp \<subseteq> set (before xs (length xs))" using timeline_loop_subset by fastforce
  then have "\<forall>i\<in>set ?d. i < length xs" by (auto simp: filter1_def before_set)
  from filter2_eq [OF assms(1) this] have "v = filter (has_partner xs (set ?d)) ?d"
    using assms(2) by (simp add: timeline_victims_def b Let_def)
  moreover have "set ?d = {i \<in> set ?tmp. getDate (xs ! i) \<le> age_limit W min_age}"
    by (auto simp: filter1_def younger_than_def)
  ultimately show ?thesis by (intro that [OF refl]) auto
qed

text \<open>C9. The cleanup by timeline, for snapshots in the order of their dates, never chooses the first snapshot of one of
  the newest hours, days, months or years, as many of each as the configuration says, whatever the time zone.\<close>
theorem timeline_cleanup_keeps:
  assumes "paired xs" "in_order xs" "timeline_victims W min_age l xs = Inr v"
    and "(p, k) \<in> {(equal_hour, l_hourly l), (equal_day, l_daily l), (equal_month, l_monthly l), (equal_year, l_yearly l)}"
    and "begins p W xs i" "beginnings p W xs (Suc i) < k"
  shows "i \<notin> set v"
proof
  assume "i \<in> set v"
  from timeline_victims_eq [OF assms(1,3)] obtain tmp where
    tmp: "tmp = timeline_loop W xs l \<lparr>l_hourly = 0, l_daily = 0, l_monthly = 0, l_yearly = 0\<rparr> (rev (before xs (length xs)))"
      "set v = {i \<in> set tmp. getDate (xs ! i) \<le> age_limit W min_age
       \<and> has_partner xs {i \<in> set tmp. getDate (xs ! i) \<le> age_limit W min_age} i}" .
  have "counted W xs \<lparr>l_hourly = 0, l_daily = 0, l_monthly = 0, l_yearly = 0\<rparr> (length xs)" by (simp add: counted_def)
  from timeline_loop_keeps [OF assms(2) order_refl this, of i l] \<open>i \<in> set v\<close>
  have "\<not> kept_at W xs l i" unfolding tmp by blast
  then show False using assms(4-6) by (auto simp: kept_at_def)
qed

text \<open>C10. After the cleanup by timeline the old single snapshots of the timeline are at most as many as the four
  limits together.\<close>
theorem timeline_cleanup_bounds:
  assumes "paired xs" "timeline_victims W min_age l xs = Inr v"
  shows "card {i. i < length xs \<and> xs_cleanup (xs ! i) = ''timeline'' \<and> xs_is SINGLE (xs ! i)
      \<and> getDate (xs ! i) \<le> age_limit W min_age \<and> i \<notin> set v}
    \<le> l_hourly l + l_daily l + l_monthly l + l_yearly l"
proof -
  from timeline_victims_eq [OF assms] obtain tmp where
    tmp: "tmp = timeline_loop W xs l \<lparr>l_hourly = 0, l_daily = 0, l_monthly = 0, l_yearly = 0\<rparr> (rev (before xs (length xs)))"
      "set v = {i \<in> set tmp. getDate (xs ! i) \<le> age_limit W min_age
       \<and> has_partner xs {i \<in> set tmp. getDate (xs ! i) \<le> age_limit W min_age} i}" .
  let ?B = "before xs (length xs)"
  have d: "distinct (rev ?B)" by (simp add: before_def)
  have single: "has_partner xs T i" if "xs_is SINGLE (xs ! i)" for T i
    using types_differ(2) [OF that] by (auto simp: has_partner_def partners_def)
  have "{i. i < length xs \<and> xs_cleanup (xs ! i) = ''timeline'' \<and> xs_is SINGLE (xs ! i)
      \<and> getDate (xs ! i) \<le> age_limit W min_age \<and> i \<notin> set v} \<subseteq> set ?B - set tmp"
    unfolding tmp(2) using single by (auto simp: before_set)
  then have "card {i. i < length xs \<and> xs_cleanup (xs ! i) = ''timeline'' \<and> xs_is SINGLE (xs ! i)
      \<and> getDate (xs ! i) \<le> age_limit W min_age \<and> i \<notin> set v} \<le> card (set ?B - set tmp)"
    by (rule card_mono [rotated]) simp
  also have "\<dots> = length ?B - length tmp"
    using timeline_loop_subset [OF d, of W xs l "\<lparr>l_hourly = 0, l_daily = 0, l_monthly = 0, l_yearly = 0\<rparr>"] d tmp(1)
    by (simp add: card_Diff_subset distinct_card)
  also have "\<dots> \<le> l_hourly l + l_daily l + l_monthly l + l_yearly l"
    using timeline_loop_length [of "rev ?B" W xs l "\<lparr>l_hourly = 0, l_daily = 0, l_monthly = 0, l_yearly = 0\<rparr>"] tmp(1) by simp
  finally show ?thesis .
qed

text \<open>Three snapshots of a day, in two hours, and two of an hour of the next; one hour and two days are kept.\<close>

definition timeline_ex :: "xsnapshot list" where
  "timeline_ex = [x_ex 1 0 0 75600 ''timeline'', x_ex 2 0 0 77400 ''timeline'', x_ex 3 0 0 79200 ''timeline'',
     x_ex 4 0 0 86400 ''timeline'', x_ex 5 0 0 88200 ''timeline'']"

definition limits_ex :: limits where
  "limits_ex = \<lparr>l_hourly = 1, l_daily = 2, l_monthly = 0, l_yearly = 0\<rparr>"

definition clock_ex :: cleanup_env where
  "clock_ex = \<lparr>ce_now = 200000, ce_localtime = \<lambda>t. \<lparr>tm_year = 70, tm_mon = 0, tm_mday = nat (t div 86400) + 1,
     tm_hour = nat (t div 3600 mod 24), tm_min = 0, tm_sec = 0\<rparr>\<rparr>"

lemma timeline_ex_facts:
  "paired timeline_ex" "in_order timeline_ex"
  "timeline_victims clock_ex 1800 limits_ex timeline_ex = Inr [1, 2, 4]"
proof -
  have "\<forall>x\<in>set timeline_ex. xs_is SINGLE x" by (simp add: timeline_ex_def x_ex_def xs_is_def enum_num_def)
  then have "\<forall>x\<in>set timeline_ex. \<not> xs_is PRE x \<and> \<not> xs_is POST x" using types_differ(2) by blast
  moreover have "distinct (map xs_num timeline_ex)" by (simp add: timeline_ex_def x_ex_def)
  ultimately show "paired timeline_ex" by (auto simp: paired_def partners_def)
qed code_simp+

theorem timeline_cleanup_keeps_witness: "(0::nat) \<notin> set [1, 2, 4]"
proof -
  have "begins equal_day clock_ex timeline_ex 0" "beginnings equal_day clock_ex timeline_ex (Suc 0) < l_daily limits_ex"
    by code_simp+
  from timeline_cleanup_keeps [OF timeline_ex_facts _ this] show ?thesis by simp
qed

theorem timeline_cleanup_bounds_witness:
  "card {i. i < length timeline_ex \<and> xs_cleanup (timeline_ex ! i) = ''timeline'' \<and> xs_is SINGLE (timeline_ex ! i)
      \<and> getDate (timeline_ex ! i) \<le> age_limit clock_ex 1800 \<and> i \<notin> set [1, 2, 4]} \<le> 1 + 2"
  using timeline_cleanup_bounds [OF timeline_ex_facts(1,3)] by (simp add: limits_ex_def)

subsection \<open>Limits that are not numbers\<close>

text \<open>A limit that is not a number is read as 0, so that no snapshot is kept for it.\<close>

theorem limit_that_is_no_number_is_zero:
  assumes "map_of (xc_raw ci) key = Some (c # v)" "\<not> is_space c" "c \<noteq> CHR ''-''" "c \<noteq> CHR ''+''" "\<not> is_digit c"
  shows "size_option ci key old = 0"
  using assms by (simp add: size_option_def into_size_def scan_sign_def Let_def)

end
