(* ===== verification/ClientServer.thy ===== *)
theory ClientServer
  imports CleanupClaims ServerClaims
begin

text \<open>
  The client and the server together: the peer of the client is the server, which takes the message,
  works on it in the thread of this client and sends the reply, with nothing else in between.
\<close>

definition bus_request :: "string \<Rightarrow> string \<Rightarrow> dval list \<Rightarrow> message" where
  "bus_request me member vs = \<lparr>ms_sender = me, ms_interface = INTERFACE, ms_member = member, ms_args = vs\<rparr>"

text \<open>The reply: the first message that goes to the client.\<close>

fun bus_reply :: "string \<Rightarrow> out list \<Rightarrow> stop + dval list" where
  "bus_reply me [] = Inl (ErrorReply ''org.freedesktop.DBus.Error.NoReply'' [])"
| "bus_reply me (x # xs) = (case x of
       Reply name r \<Rightarrow> if name = me then Inr (reply_args r) else bus_reply me xs
     | Error name n t \<Rightarrow> if name = me then Inl (ErrorReply n t) else bus_reply me xs
     | _ \<Rightarrow> bus_reply me xs)"

definition serve :: "senv \<Rightarrow> string \<Rightarrow> server peer" where
  "serve E me member vs s =
     (case thenS (method_call E (bus_request me member vs)) (thenS (client_work E me) (client_finish E me)) s of
        (r, s') \<Rightarrow> (bus_reply me (drop (length (sv_out s)) (sv_out s')), s'))"

subsection \<open>The state between two calls\<close>

definition waits :: "string \<Rightarrow> server \<Rightarrow> bool" where
  "waits me s \<longleftrightarrow> server_ok s \<and> (\<forall>c\<in>set (sv_clients s). cl_name c = me \<longrightarrow> cl_tasks c = [] \<and> cl_pending c = None)"

definition registered :: "string \<Rightarrow> server \<Rightarrow> server" where
  "registered me s = (if find_client me s = None
     then s\<lparr>sv_clients := sv_clients s @ [new_client me], sv_idle_timeout := - 1\<rparr> else s)"

lemma waits_registered:
  assumes "waits me s"
  shows "waits me (registered me s)" "find_client me (registered me s) \<noteq> None"
proof -
  show "find_client me (registered me s) \<noteq> None"
    by (auto simp: registered_def find_client_None new_client_def)
  show "waits me (registered me s)"
    using assms okS_new_client [of s me "- 1"] by (auto simp: waits_def registered_def server_ok_def new_client_def)
qed

lemma waits_ok0: "waits me s \<Longrightarrow> ok0 me (registered me s)"
proof -
  assume "waits me s"
  then obtain c where w: "waits me (registered me s)" "find_client me (registered me s) = Some c"
    using waits_registered by blast
  then have "cl_pending c = None" using find_client_Some by (auto simp: waits_def)
  then show ?thesis
    using w find_client_core [OF w(2)] by (auto simp: okc_def idle_def waits_def server_ok_def)
qed

lemma registered_simps [simp]:
  "sv_metas (registered me s) = sv_metas s" "sv_out (registered me s) = sv_out s" "sv_etc (registered me s) = sv_etc s"
  "sv_tasks (registered me s) = sv_tasks s"
  by (simp_all add: registered_def)

lemma call_and_work:
  assumes "waits me s"
  shows "thenS (method_call E (bus_request me member vs)) (client_work E me) s = dispatch E me (bus_request me member vs) (registered me s)"
proof -
  let ?msg = "bus_request me member vs" and ?r = "registered me s"
  let ?s1 = "upd_client me (\<lambda>c. c\<lparr>cl_tasks := cl_tasks c @ [?msg]\<rparr>) ?r"
  have w: "waits me ?r" by (rule waits_registered(1) [OF assms])
  obtain c where c: "find_client me ?r = Some c" using waits_registered [OF assms] by blast
  have t: "cl_tasks c = []" using w find_client_Some [OF c] by (auto simp: waits_def)
  have "method_call E ?msg s = (Inr (), ?s1)"
    by (simp add: method_call_def bus_request_def INTERFACE_def registered_def)
  moreover have "find_client me ?s1 = Some (c\<lparr>cl_tasks := [?msg]\<rparr>)"
    by (simp add: find_client_map c t)
  moreover have "upd_client me (\<lambda>c. c\<lparr>cl_tasks := []\<rparr>) ?s1 = ?r"
  proof -
    have "map (\<lambda>c. if cl_name c = me then c\<lparr>cl_tasks := []\<rparr> else c) (sv_clients ?r) = sv_clients ?r"
      using w by (intro map_idI) (auto simp: waits_def)
    then show ?thesis by (simp add: upd_client_def comp_def if_distrib cong: if_cong)
  qed
  ultimately show ?thesis by (simp add: client_work_def)
qed

subsection \<open>What a request leaves alone\<close>

text \<open>The operations below the requests send nothing, and change neither the clients nor the counters.\<close>

definition counts :: "server \<Rightarrow> (nat \<times> string \<times> int) list" where
  "counts s = map (\<lambda>m. (me_id m, ci_name (me_info m), me_counter m)) (sv_metas s)"

definition still :: "server \<Rightarrow> out list \<times> client_rec list \<times> (nat \<times> string \<times> int) list" where
  "still s = (sv_out s, sv_clients s, counts s)"

abbreviation stays :: "(server, 'a) step \<Rightarrow> bool" where
  "stays m \<equiv> \<forall>x. keeps (\<lambda>s. still s = x) m"

lemma staysD: "stays m \<Longrightarrow> m s = (r, s') \<Longrightarrow> still s' = still s"
  using keepsD [of "\<lambda>s'. still s' = still s" m s r s'] by blast

lemma out_upd [simp]: "sv_out (upd_meta i f s) = sv_out s" "sv_out (upd_client n h s) = sv_out s"
  by (simp_all add: upd_meta_def upd_client_def)

lemma counts_map:
  "(\<And>m. me_id (f m) = me_id m \<and> me_info (f m) = me_info m \<and> me_counter (f m) = me_counter m) \<Longrightarrow> counts (upd_meta i f s) = counts s"
  by (simp add: counts_def upd_meta_def comp_def if_distrib cong: if_cong)

lemma stays_etc: "keeps (\<lambda>s. still s = x) (onEtc m)"
  by (auto simp: keeps_def onEtc_def still_def counts_def split: prod.split)

lemma stays_finds: "keeps (\<lambda>s. still s = x) (find_meta c)" "keeps (\<lambda>s. still s = x) (find_snapshot i n)"
  "keeps (\<lambda>s. still s = x) (check_permission E me i)" "keeps (\<lambda>s. still s = x) (check_lock me c)"
  "keeps (\<lambda>s. still s = x) (check_config_in_use i)" "keeps (\<lambda>s. still s = x) (check_snapshot_in_use i n)"
  unfolding find_meta_def find_snapshot_def check_permission_def check_lock_def check_config_in_use_def check_snapshot_in_use_def Let_def
  by (intro keeps)+

lemma stays_load: "keeps (\<lambda>s. still s = x) (getSnapper E i)"
proof -
  have l: "still s = x \<Longrightarrow> still ((upd_meta i (\<lambda>m. m\<lparr>me_snapper := y\<rparr>) s)\<lparr>sv_next_id := n\<rparr>) = x" for s y n
    using counts_map [of "\<lambda>m. m\<lparr>me_snapper := y\<rparr>" i s] by (simp add: still_def counts_def)
  have t: "still s = x \<Longrightarrow> still (upd_meta i (\<lambda>m. m\<lparr>me_last_used := y\<rparr>) s) = x" for s y
    using counts_map [of "\<lambda>m. m\<lparr>me_last_used := y\<rparr>" i s] by (simp add: still_def)
  have "keeps (\<lambda>s. still s = x) (thenS
     (if b then retS ()
      else bindS (onEtc (snapper_new (sysenv.truncate E) c False)) (\<lambda>sp.
        modifyS (\<lambda>s. (upd_meta i (\<lambda>m. m\<lparr>me_snapper := Some (sv_next_id s, sp)\<rparr>) s)\<lparr>sv_next_id := Suc (sv_next_id s)\<rparr>)))
     (modifyS (\<lambda>s. upd_meta i (\<lambda>m. m\<lparr>me_last_used := sv_now s\<rparr>) s)))" for b c
    by (intro keeps stays_etc keeps_modify l t)
  then show ?thesis by (simp add: keeps_def getSnapper_def)
qed

lemma stays_snaps: "keeps (\<lambda>s. still s = x) (onSnaps i f)"
proof (rule keepsI)
  fix s assume s: "still s = x"
  show "still (snd (onSnaps i f s)) = x"
  proof (cases rule: onSnaps_cases [of s i f])
    case (2 k sp r sp' y)
    then show ?thesis using s counts_map [of "\<lambda>m. m\<lparr>me_snapper := Some (k, sp')\<rparr>" i s] by (simp add: still_def counts_def)
  qed (use s in simp)
qed

lemma stays_delete: "keeps (\<lambda>s. still s = x) (delete_one i n)"
  unfolding delete_one_def by (intro keeps stays_finds stays_snaps)

lemmas stays_rules = keeps stays_etc stays_finds stays_load stays_snaps stays_delete

subsection \<open>The requests of the cleanup\<close>

lemma one_arg: "no_nul c \<Longrightarrow> with_args (enc_string c # vs) (args1 dec_string f (enc_string c # vs)) = f c"
  by (simp add: with_args_def args1_def dec_enc_string fun_eq_iff)

lemma first_arg: "no_nul c \<Longrightarrow> with_args (enc_string c # vs) (args dec_string g (enc_string c # vs)) = g c vs"
  by (simp add: with_args_def args_def dec_enc_string fun_eq_iff)

lemma num_args: "args dec_u32 g (enc_u32 n # vs) = g n vs" "args1 dec_u32 f [enc_u32 n] = f n"
  by (simp_all add: args_def args1_def enc_u32_def fun_eq_iff)

lemma nums_arg: "args1 (dec_array ''u'' dec_u32) f [enc_array ''u'' enc_u32 ns] = f ns"
proof -
  have "dec_array ''u'' dec_u32 (enc_array ''u'' enc_u32 ns) = Inr ns" by (rule u32c.dec_array_enc_array) simp
  then show ?thesis by (simp add: args1_def fun_eq_iff)
qed

lemma handlers:
  assumes "no_nul c"
  shows "method_handler E me ''GetConfig'' [enc_string c] = Some (get_config E me c)"
    "method_handler E me ''ListSnapshots'' [enc_string c] = Some (list_snapshots E me c)"
    "method_handler E me ''DeleteSnapshots'' [enc_string c, enc_array ''u'' enc_u32 ns] = Some (delete_snapshots E me c ns)"
    "method_handler E me ''GetFiles'' [enc_string c, enc_u32 n1, enc_u32 n2] = Some (get_files E me c n1 n2)"
    "method_handler E me ''CreateComparison'' [enc_string c, enc_u32 n1, enc_u32 n2] = Some (create_comparison_begin E me c n1 n2)"
  by (simp_all add: method_handler_def one_arg first_arg num_args nums_arg assms)

definition framed :: "client_rec list \<Rightarrow> (nat \<times> string \<times> int) list \<Rightarrow> server \<Rightarrow> bool" where
  "framed cs k s \<longleftrightarrow> sv_clients s = cs \<and> counts s = k"

lemma framed_stays: "stays m \<Longrightarrow> keeps (framed cs k) m"
proof (rule keepsI)
  fix s assume m: "stays m" "framed cs k s"
  obtain r s' where "m s = (r, s')" by fastforce
  then show "framed cs k (snd (m s))" using staysD [OF m(1)] m(2) by (force simp: framed_def still_def)
qed

lemma framed_out: "keeps (framed cs k) (emit x)" "keeps (framed cs k) (reply me r)"
  by (simp_all add: keeps_def framed_def emit_def reply_def counts_def)

lemma framed_basic:
  "keeps (framed cs k) (find_meta c)" "keeps (framed cs k) (check_permission E me i)" "keeps (framed cs k) (check_lock me c)"
  "keeps (framed cs k) (check_config_in_use i)" "keeps (framed cs k) (getSnapper E i)" "keeps (framed cs k) (delete_one i n)"
  by (intro framed_stays allI stays_rules)+

lemma framed_requests:
  "keeps (framed cs k) (get_config E me c)" "keeps (framed cs k) (list_snapshots E me c)"
  "keeps (framed cs k) (delete_snapshots E me c ns)" "keeps (framed cs k) (get_files E me c n1 n2)"
  unfolding get_config_def list_snapshots_def delete_snapshots_def get_files_def with_comparison_def with_snapper_def
  by (intro keeps keeps_prod framed_out framed_basic)+

text \<open>A request of this kind.\<close>

lemma answering_eq:
  "answering me h s = (case h s of
       (Inr u, s') \<Rightarrow> (Inr u, s')
     | (Inl e, s') \<Rightarrow> if e = ThreadInterrupted \<or> e = Diverges then (Inl e, s')
         else (Inr (), s'\<lparr>sv_out := sv_out s' @ [Error me (fst (error_of e)) (snd (error_of e))]\<rparr>))"
  by (auto simp: answering_def catchS_def emit_def case_prod_beta split: prod.split sum.split)

lemma serve_eq:
  assumes "waits me s" "method_handler E me member vs = Some h"
    and "answering me h (registered me s) = (r, s2)" "sv_clients s2 = sv_clients (registered me s)"
  shows "serve E me member vs s = (bus_reply me (drop (length (sv_out s)) (sv_out s2)), s2)"
proof -
  have d: "thenS (method_call E (bus_request me member vs)) (client_work E me) s = (r, s2)"
    unfolding call_and_work [OF assms(1)] using assms(2,3) by (simp add: dispatch_def bus_request_def)
  have "client_finish E me s2 = (Inr (), s2)"
  proof -
    obtain c where c: "find_client me s2 = Some c"
      using waits_registered(2) [OF assms(1)] assms(4) by (auto simp: find_client_def)
    then have "cl_pending c = None"
      using waits_registered(1) [OF assms(1)] find_client_Some [OF c] assms(4) by (simp add: waits_def)
    then show ?thesis by (simp add: client_finish_def c)
  qed
  then have "thenS (method_call E (bus_request me member vs)) (thenS (client_work E me) (client_finish E me)) s = (r, s2)"
    unfolding bindS_assoc [symmetric] using d by (cases r) simp_all
  then show ?thesis by (simp add: serve_def)
qed

lemma serve_framed:
  assumes "waits me s" "method_handler E me member vs = Some h" "keeps (ok0 me) h" "\<And>cs k. keeps (framed cs k) h"
  obtains r s2 s3 where "h (registered me s) = (r, s2)" "okS s2"
    "serve E me member vs s = (bus_reply me (drop (length (sv_out s)) (sv_out s3)), s3)"
    "s3 = s2 \<or> (\<exists>e. r = Inl e \<and> s3 = s2\<lparr>sv_out := sv_out s2 @ [Error me (fst (error_of e)) (snd (error_of e))]\<rparr>)"
    "isl r \<or> s3 = s2" "\<And>e. r = Inl e \<Longrightarrow> e \<noteq> ThreadInterrupted \<Longrightarrow> e \<noteq> Diverges \<Longrightarrow>
       s3 = s2\<lparr>sv_out := sv_out s2 @ [Error me (fst (error_of e)) (snd (error_of e))]\<rparr>"
    "waits me s3" "counts s3 = counts s" "sv_clients s3 = sv_clients (registered me s)"
proof -
  obtain r s2 where h: "h (registered me s) = (r, s2)" by fastforce
  obtain x s3 where a: "answering me h (registered me s) = (x, s3)" by fastforce
  have s3: "s3 = s2 \<or> (\<exists>e. r = Inl e \<and> s3 = s2\<lparr>sv_out := sv_out s2 @ [Error me (fst (error_of e)) (snd (error_of e))]\<rparr>)"
    "isl r \<or> s3 = s2" "\<And>e. r = Inl e \<Longrightarrow> e \<noteq> ThreadInterrupted \<Longrightarrow> e \<noteq> Diverges \<Longrightarrow>
       s3 = s2\<lparr>sv_out := sv_out s2 @ [Error me (fst (error_of e)) (snd (error_of e))]\<rparr>"
    using a by (auto simp: answering_eq h split: sum.splits if_splits)
  have ok: "okS s2" using keepsD [OF assms(3) waits_ok0 [OF assms(1)] h] by (simp add: okc_def)
  have "framed (sv_clients (registered me s)) (counts s) s2"
    by (rule keepsD [OF assms(4) _ h]) (simp add: framed_def counts_def)
  then have f: "sv_clients s2 = sv_clients (registered me s)" "counts s2 = counts s" by (simp_all add: framed_def)
  then have f3: "sv_clients s3 = sv_clients (registered me s)" "counts s3 = counts s" using s3(1) by (auto simp: counts_def)
  have ok3: "okS s3" using ok s3(1) by (auto simp: okx_core clients_core_def)
  have w: "waits me s3" using waits_registered(1) [OF assms(1)] f3(1) ok3 by (simp add: waits_def server_ok_def)
  show ?thesis
    by (rule that [OF h ok serve_eq [OF assms(1,2) a f3(1)] s3 w f3(2,1)])
qed

subsection \<open>Comparisons keep a configuration in use\<close>

definition busy :: "string \<Rightarrow> server \<Rightarrow> bool" where
  "busy c s \<longleftrightarrow> (\<exists>m. find (\<lambda>m. ci_name (me_info m) = c) (sv_metas s) = Some m \<and> me_counter m > 0)"

definition add_use :: "nat \<Rightarrow> int \<Rightarrow> nat \<times> string \<times> int \<Rightarrow> nat \<times> string \<times> int" where
  "add_use i d x = (case x of (j, n, k) \<Rightarrow> (j, n, if j = i then k + d else k))"

lemma counts_inc: "counts (upd_meta i inc_count s) = map (add_use i 1) (counts s)"
  "counts (upd_meta i (dec_count t) s) = map (add_use i (- 1)) (counts s)"
  by (auto simp: counts_def upd_meta_def inc_count_def dec_count_def add_use_def Let_def)

lemma counts_clients [simp]: "counts (upd_client n f s) = counts s" "counts (s\<lparr>sv_out := os\<rparr>) = counts s"
  by (simp_all add: counts_def upd_client_def)

lemma busy_counts:
  "busy c s \<longleftrightarrow> (\<exists>i k. find (\<lambda>(i, n, k). n = c) (counts s) = Some (i, c, k) \<and> k > 0)"
proof -
  have "find (\<lambda>(i, n, k). n = c) (map (\<lambda>m. (me_id m, ci_name (me_info m), me_counter m)) ms)
    = map_option (\<lambda>m. (me_id m, ci_name (me_info m), me_counter m)) (find (\<lambda>m. ci_name (me_info m) = c) ms)" for ms
    by (induction ms) simp_all
  then have e: "find (\<lambda>(i, n, k). n = c) (counts s)
    = map_option (\<lambda>m. (me_id m, ci_name (me_info m), me_counter m)) (find (\<lambda>m. ci_name (me_info m) = c) (sv_metas s))"
    by (simp add: counts_def)
  show ?thesis unfolding busy_def e by (auto simp: find_Some_iff)
qed

lemma silent_checks:
  "check_lock me c s = (Inl ConfigLocked, s) \<or> check_lock me c s = (Inr (), s)"
  by (auto simp: check_lock_def throw_ifS_def)

lemma busy_delete:
  assumes "okS s" "busy c s"
  shows "\<exists>e \<in> insert ConfigInUse lock_exns. delete_snapshots E me c ns s = (Inl e, s)"
proof -
  obtain m where m: "find (\<lambda>m. ci_name (me_info m) = c) (sv_metas s) = Some m" "me_counter m > 0"
    using assms(2) by (auto simp: busy_def)
  then have f: "find_meta c s = (Inr (me_id m), s)" by (simp add: find_meta_def)
  have "meta_of s (me_id m) = m" using meta_of_eq [OF assms(1)] m(1) by (auto simp: find_Some_iff)
  then have u: "check_config_in_use (me_id m) s = (Inl ConfigInUse, s)" using m(2) by (simp add: check_config_in_use_def)
  show ?thesis
    using f u silent_checks [of me c s]
    by (cases rule: check_permission_cases [of E me "me_id m" s]) (auto simp: delete_snapshots_def)
qed

lemma serve_delete_busy:
  assumes "waits me s" "no_nul c" "busy c s"
  shows "\<exists>n t s'. serve E me ''DeleteSnapshots'' [enc_string c, enc_array ''u'' enc_u32 ns] s = (Inl (ErrorReply n t), s')
    \<and> sv_metas s' = sv_metas s"
proof -
  have "okS (registered me s)" using waits_registered(1) [OF assms(1)] by (simp add: waits_def server_ok_def)
  moreover have "busy c (registered me s)" using assms(3) by (simp add: busy_def)
  ultimately have "\<exists>e \<in> insert ConfigInUse lock_exns. delete_snapshots E me c ns (registered me s) = (Inl e, registered me s)"
    by (rule busy_delete)
  then obtain e where e: "e \<in> insert ConfigInUse lock_exns"
    "delete_snapshots E me c ns (registered me s) = (Inl e, registered me s)" by (rule bexE)
  show ?thesis
  proof (rule serve_framed [OF assms(1) handlers(3) [OF assms(2)] keeps_delete_snapshots framed_requests(3), of E ns])
    fix r s2 s3
    assume s: "delete_snapshots E me c ns (registered me s) = (r, s2)"
      "serve E me ''DeleteSnapshots'' [enc_string c, enc_array ''u'' enc_u32 ns] s = (bus_reply me (drop (length (sv_out s)) (sv_out s3)), s3)"
      "\<And>e. r = Inl e \<Longrightarrow> e \<noteq> ThreadInterrupted \<Longrightarrow> e \<noteq> Diverges \<Longrightarrow>
       s3 = s2\<lparr>sv_out := sv_out s2 @ [Error me (fst (error_of e)) (snd (error_of e))]\<rparr>"
    have "e \<noteq> ThreadInterrupted" "e \<noteq> Diverges" using e(1) by auto
    then have "s3 = (registered me s)\<lparr>sv_out := sv_out s @ [Error me (fst (error_of e)) (snd (error_of e))]\<rparr>"
      using s(1) s(3) [of e] e(2) registered_simps(2) [of me s] by auto
    then show ?thesis using s(2) by simp
  qed
qed

lemma begin_result:
  assumes "create_comparison_begin E me c n1 n2 s = (r, s')"
  shows "case r of Inl e \<Rightarrow> still s' = still s
     | Inr u \<Rightarrow> (\<exists>m p. find (\<lambda>m. ci_name (me_info m) = c) (sv_metas s) = Some m \<and> pd_meta p = me_id m \<and> sv_out s' = sv_out s
         \<and> counts s' = map (add_use (me_id m) 1) (counts s)
         \<and> sv_clients s' = sv_clients (upd_client me (\<lambda>c. c\<lparr>cl_pending := Some p\<rparr>) s))"
proof (cases "find (\<lambda>m. ci_name (me_info m) = c) (sv_metas s)")
  case None
  then have "find_meta c s = (Inl UnknownConfig, s)" by (simp add: find_meta_def)
  then show ?thesis using assms by (auto simp: create_comparison_begin_def with_snapper_def)
next
  case (Some m)
  let ?body = "bindS (getS (\<lambda>s. (loaded_id (me_id m) s, snaps (me_id m) s))) (\<lambda>(k, es).
       thenS (inc_use_count (me_id m))
         (modifyS (upd_client me (\<lambda>c. c\<lparr>cl_pending := Some \<lparr>pd_meta = me_id m, pd_snapper = k,
            pd_num1 = found_num n1 es, pd_num2 = found_num n2 es\<rparr>\<rparr>))))"
  obtain r1 s1 where o: "thenS (check_permission E me (me_id m)) (getSnapper E (me_id m)) s = (r1, s1)" by fastforce
  have st: "still s1 = still s" by (rule staysD [where m = "thenS (check_permission E me (me_id m)) (getSnapper E (me_id m))", OF _ o])
      (intro allI stays_rules)
  have f: "find_meta c s = (Inr (me_id m), s)" using Some by (simp add: find_meta_def)
  have e: "create_comparison_begin E me c n1 n2 s = bindS (thenS (check_permission E me (me_id m)) (getSnapper E (me_id m))) (\<lambda>_. ?body) s"
    using f by (simp add: create_comparison_begin_def with_snapper_def bindS_assoc)
  show ?thesis
  proof (cases r1)
    case (Inl x)
    then show ?thesis using assms e o st by auto
  next
    case (Inr u)
    let ?p = "\<lparr>pd_meta = me_id m, pd_snapper = loaded_id (me_id m) s1, pd_num1 = found_num n1 (snaps (me_id m) s1),
      pd_num2 = found_num n2 (snaps (me_id m) s1)\<rparr>"
    have r: "r = Inr ()" "s' = upd_client me (\<lambda>c. c\<lparr>cl_pending := Some ?p\<rparr>) (upd_meta (me_id m) inc_count s1)"
      using assms e o Inr by (auto simp: inc_use_count_def)
    have s1: "sv_out s1 = sv_out s" "sv_clients s1 = sv_clients s" "counts s1 = counts s" using st by (simp_all add: still_def)
    have "sv_clients s' = sv_clients (upd_client me (\<lambda>c. c\<lparr>cl_pending := Some ?p\<rparr>) s)"
      unfolding r(2) by (simp add: upd_client_def s1)
    moreover have "sv_out s' = sv_out s" "counts s' = map (add_use (me_id m) 1) (counts s)"
      unfolding r(2) by (simp_all add: s1 counts_inc)
    moreover have "pd_meta ?p = me_id m" by simp
    ultimately show ?thesis using r(1) Some by (auto intro!: exI [of _ ?p])
  qed
qed

lemma end_result:
  assumes "create_comparison_end E me p s = (r, s')"
  shows "case r of Inl e \<Rightarrow> sv_out s' = sv_out s
     | Inr u \<Rightarrow> counts s' = counts s \<and> sv_out s' = sv_out s @ [Reply me RUnit]
         \<and> (\<exists>f. (\<forall>c. cl_name (f c) = cl_name c \<and> cl_tasks (f c) = cl_tasks c \<and> cl_pending (f c) = None)
             \<and> sv_clients s' = sv_clients (upd_client me f s))"
proof -
  let ?s0 = "upd_client me (\<lambda>c. c\<lparr>cl_pending := None\<rparr>) s"
  let ?o = "onSnaps (pd_meta p) (\<lambda>sp. bindS (getS entries) (\<lambda>es.
        comparison_new (sp_ops sp) (se_cmp E (sp_subvolume sp)) (sp_subvolume sp) (sp_ignore_patterns sp)
          (pending_index (pd_num1 p) es) (pending_index (pd_num2 p) es)))"
  obtain r1 s1 where o: "?o ?s0 = (r1, s1)" by fastforce
  have st: "still s1 = still ?s0" by (rule staysD [where m = ?o, OF _ o]) (intro allI stays_rules)
  have e: "create_comparison_end E me p s = finallyS (create_comparison_body E me p) (dec_use_count (pd_meta p)) ?s0"
    by (simp add: create_comparison_end_def)
  show ?thesis
  proof (cases r1)
    case (Inl x)
    then have "create_comparison_body E me p ?s0 = (Inl x, s1)" using o by (simp add: create_comparison_body_def)
    then show ?thesis using assms e st by (auto simp: finallyS_def dec_use_count_def still_def)
  next
    case (Inr cp)
    let ?g = "\<lambda>cl. cl\<lparr>cl_comparisons := cl_comparisons cl @ [\<lparr>hc_snapper = pd_snapper p, hc_num1 = the (pd_num1 p),
        hc_num2 = the (pd_num2 p), hc_files = cp_files cp\<rparr>]\<rparr>"
    let ?s2 = "upd_meta (pd_meta p) inc_count (upd_client me ?g s1)"
    have b: "create_comparison_body E me p ?s0 = (Inr (), ?s2\<lparr>sv_out := sv_out ?s2 @ [Reply me RUnit]\<rparr>)"
      using o Inr by (simp add: create_comparison_body_def inc_use_count_def reply_def emit_def)
    let ?s3 = "?s2\<lparr>sv_out := sv_out ?s2 @ [Reply me RUnit]\<rparr>"
    have r: "r = Inr ()" "s' = upd_meta (pd_meta p) (dec_count (sv_now ?s3)) ?s3"
      using assms e b by (simp_all add: finallyS_def dec_use_count_def)
    have "map (add_use (pd_meta p) (- 1) \<circ> add_use (pd_meta p) 1) (counts s) = counts s"
      by (rule map_idI) (auto simp: add_use_def)
    then have "counts s' = counts s"
      using st unfolding r(2) by (simp add: counts_inc still_def)
    moreover have "sv_clients s' = sv_clients (upd_client me (\<lambda>c. ?g (c\<lparr>cl_pending := None\<rparr>)) s)"
    proof -
      have "sv_clients s' = sv_clients (upd_client me ?g s1)" unfolding r(2) by simp
      also have "\<dots> = sv_clients (upd_client me ?g ?s0)" using st by (simp add: still_def upd_client_def)
      also have "\<dots> = sv_clients (upd_client me (\<lambda>c. ?g (c\<lparr>cl_pending := None\<rparr>)) s)" by (simp add: upd_client_def)
      finally show ?thesis .
    qed
    moreover have "sv_out s' = sv_out s @ [Reply me RUnit]" using st unfolding r(2) by (simp add: still_def)
    ultimately show ?thesis using r(1) by (auto intro!: exI [of _ "\<lambda>c. ?g (c\<lparr>cl_pending := None\<rparr>)"])
  qed
qed

text \<open>A comparison that is answered has put its configuration into use.\<close>

lemma busy_add_use:
  assumes "okS s" "find (\<lambda>m. ci_name (me_info m) = c) (sv_metas s) = Some m"
    and "counts s' = map (add_use (me_id m) 1) (counts s)"
  shows "busy c s'"
proof -
  have "me_counter m \<ge> 0"
  proof -
    have "fits (sv_next_id s) (held s) (pendings s @ working (background s)) (counted (background s)) (\<lambda>_. 0) (sv_metas s)" using assms(1) by (simp add: okx_def)
    from fitsD(5) [OF this] assms(2) show ?thesis by (auto simp: refs_def find_Some_iff)
  qed
  moreover have "find (\<lambda>(i, n, k). n = c) (counts s') = Some (me_id m, c, me_counter m + 1)"
  proof -
    have f: "find (\<lambda>(i, n, k). n = c) (map (add_use j 1 \<circ> (\<lambda>m. (me_id m, ci_name (me_info m), me_counter m))) ms)
      = map_option (\<lambda>m. add_use j 1 (me_id m, ci_name (me_info m), me_counter m)) (find (\<lambda>m. ci_name (me_info m) = c) ms)" for j ms
      by (induction ms) (simp_all add: add_use_def)
    have "ci_name (me_info m) = c" using assms(2) by (auto simp: find_Some_iff)
    moreover have "counts s' = map (add_use (me_id m) 1 \<circ> (\<lambda>m. (me_id m, ci_name (me_info m), me_counter m))) (sv_metas s)"
      unfolding assms(3) by (simp add: counts_def)
    ultimately show ?thesis by (simp only: f assms(2)) (simp add: add_use_def)
  qed
  ultimately show ?thesis unfolding busy_counts by auto
qed

lemma serve_work:
  assumes "waits me s" "method_handler E me member vs = Some h" "answering me h (registered me s) = (Inr u, s2)"
  shows "serve E me member vs s = (case client_finish E me s2 of (r, s') \<Rightarrow> (bus_reply me (drop (length (sv_out s)) (sv_out s')), s'))"
proof -
  have "thenS (method_call E (bus_request me member vs)) (client_work E me) s = (Inr u, s2)"
    unfolding call_and_work [OF assms(1)] using assms(2,3) by (simp add: dispatch_def bus_request_def)
  then have "thenS (method_call E (bus_request me member vs)) (thenS (client_work E me) (client_finish E me)) s = client_finish E me s2"
    unfolding bindS_assoc [symmetric] by simp
  then show ?thesis by (simp add: serve_def)
qed

lemma serve_comparison:
  assumes "waits me s" "no_nul c"
    and serve: "serve E me ''CreateComparison'' [enc_string c, enc_u32 n1, enc_u32 n2] s = (Inr vs, s')"
  shows "waits me s' \<and> busy c s'"
proof -
  let ?h = "create_comparison_begin E me c n1 n2" and ?s1 = "registered me s"
  note handler = handlers(5) [OF assms(2), of E me n1 n2]
  have w1: "waits me ?s1" by (rule waits_registered(1) [OF assms(1)])
  have ok1: "okS ?s1" using w1 by (simp add: waits_def server_ok_def)
  obtain r s2 where b: "?h ?s1 = (r, s2)" by fastforce
  show ?thesis
  proof (cases r)
    case (Inl e)
    have st: "still s2 = still ?s1" using begin_result [OF b] Inl by simp
    obtain x s3 where a: "answering me ?h ?s1 = (x, s3)" by fastforce
    have s3: "s3 = s2 \<or> s3 = s2\<lparr>sv_out := sv_out s2 @ [Error me (fst (error_of e)) (snd (error_of e))]\<rparr>"
      using a by (auto simp: answering_eq b Inl split: if_splits)
    then have "sv_clients s3 = sv_clients ?s1" using st by (auto simp: still_def)
    from serve_eq [OF assms(1) handler a this] serve have "bus_reply me (drop (length (sv_out s)) (sv_out s3)) = Inr vs" by simp
    then show ?thesis using s3 st by (auto simp: still_def)
  next
    case (Inr u)
    obtain m p where m: "find (\<lambda>m. ci_name (me_info m) = c) (sv_metas s) = Some m" "sv_out s2 = sv_out s"
      "counts s2 = map (add_use (me_id m) 1) (counts ?s1)" "sv_clients s2 = sv_clients (upd_client me (\<lambda>c. c\<lparr>cl_pending := Some p\<rparr>) ?s1)"
      using begin_result [OF b] Inr by auto
    have a: "answering me ?h ?s1 = (Inr u, s2)" by (simp add: answering_eq b Inr)
    obtain c1 where c1: "find_client me ?s1 = Some c1" using waits_registered(2) [OF assms(1)] by blast
    have c2: "find_client me s2 = Some (c1\<lparr>cl_pending := Some p\<rparr>)"
      using find_client_map [of "\<lambda>c. c\<lparr>cl_pending := Some p\<rparr>" me ?s1] c1 m(4) by (simp add: find_client_def)
    have ok2: "okS s2" using safe_begin [of me E c n1 n2] waits_ok0 [OF assms(1)] b unfolding safe_def by (metis snd_conv)
    obtain r3 s3 where f: "create_comparison_end E me p s2 = (r3, s3)" by fastforce
    obtain x s4 where fin: "client_finish E me s2 = (x, s4)" by fastforce
    have ans: "answering me (create_comparison_end E me p) s2 = (x, s4)" using fin c2 by (simp add: client_finish_def)
    have ok4: "okS s4" using client_finish_ok [OF ok2, of E me] fin by simp
    have reply: "bus_reply me (drop (length (sv_out s)) (sv_out s4)) = Inr vs" "s' = s4"
      using serve_work [OF assms(1) handler a] serve fin by simp_all
    show ?thesis
    proof (cases r3)
      case (Inl e)
      have "sv_out s3 = sv_out s" using end_result [OF f] Inl m(2) by simp
      then have "sv_out s4 = sv_out s \<or> sv_out s4 = sv_out s @ [Error me (fst (error_of e)) (snd (error_of e))]"
        using ans by (auto simp: answering_eq f Inl split: if_splits)
      then show ?thesis using reply(1) by auto
    next
      case (Inr v)
      then have s4: "s4 = s3" using ans by (simp add: answering_eq f)
      obtain g where g: "\<forall>c. cl_name (g c) = cl_name c \<and> cl_tasks (g c) = cl_tasks c \<and> cl_pending (g c) = None"
        "sv_clients s3 = sv_clients (upd_client me g s2)" "counts s3 = counts s2"
        using end_result [OF f] Inr by auto
      have "\<forall>c\<in>set (sv_clients s2). cl_name c = me \<longrightarrow> cl_tasks c = []"
      proof (intro ballI impI)
        fix d assume "d \<in> set (sv_clients s2)" "cl_name d = me"
        from this(1) have "d \<in> (\<lambda>e. if cl_name e = me then e\<lparr>cl_pending := Some p\<rparr> else e) ` set (sv_clients ?s1)"
          unfolding m(4) upd_client_def by simp
        then obtain e where e: "d = (if cl_name e = me then e\<lparr>cl_pending := Some p\<rparr> else e)" "e \<in> set (sv_clients ?s1)"
          by (rule imageE)
        then have "cl_name e = me" using \<open>cl_name d = me\<close> by (simp split: if_splits)
        then have "cl_tasks e = []" using w1 e(2) unfolding waits_def by blast
        then show "cl_tasks d = []" using e(1) by simp
      qed
      then have "\<forall>c\<in>set (sv_clients s4). cl_name c = me \<longrightarrow> cl_tasks c = [] \<and> cl_pending c = None"
      proof (intro ballI impI)
        fix d assume "d \<in> set (sv_clients s4)" "cl_name d = me"
        then obtain e where "e \<in> set (sv_clients s2)" "d = (if cl_name e = me then g e else e)"
          unfolding s4 g(2) upd_client_def by auto
        then show "cl_tasks d = [] \<and> cl_pending d = None"
          using g(1) \<open>cl_name d = me\<close> \<open>\<forall>c\<in>set (sv_clients s2). cl_name c = me \<longrightarrow> cl_tasks c = []\<close>
          by (auto split: if_splits)
      qed
      then have "waits me s4" using ok4 by (simp add: waits_def server_ok_def)
      moreover have "busy c s4"
        unfolding s4 by (rule busy_add_use [of ?s1 c m]) (use ok1 m(1,3) g(3) in simp_all)
      ultimately show ?thesis using reply(2) by simp
    qed
  qed
qed

subsection \<open>Calls of the client\<close>

text \<open>The names of the methods a step has called.\<close>

definition calls :: "('s, 'a) cstep \<Rightarrow> string set \<Rightarrow> bool" where
  "calls m M \<longleftrightarrow> (\<forall>c. \<exists>ds. cn_calls (snd (m c)) = cn_calls c @ ds \<and> fst ` set ds \<subseteq> M)"

lemma calls_basic: "calls (retS a) M" "calls (throwS e) M" "calls (liftS x) M" "calls (decode d vs) M" "calls (no_reply vs) M"
  by (auto simp: calls_def decode_def no_reply_def split: sum.split)

lemma calls_bind:
  assumes "calls m M" "\<And>a. calls (f a) M"
  shows "calls (bindS m f) M"
  unfolding calls_def
proof
  fix c
  obtain r c1 where m: "m c = (r, c1)" by fastforce
  obtain ds where ds: "cn_calls c1 = cn_calls c @ ds" "fst ` set ds \<subseteq> M" using assms(1) m unfolding calls_def by (metis snd_conv)
  show "\<exists>ds. cn_calls (snd (bindS m f c)) = cn_calls c @ ds \<and> fst ` set ds \<subseteq> M"
  proof (cases r)
    case (Inr a)
    obtain es where "cn_calls (snd (f a c1)) = cn_calls c1 @ es" "fst ` set es \<subseteq> M"
      using assms(2) unfolding calls_def by blast
    then show ?thesis using m Inr ds by (intro exI [of _ "ds @ es"]) auto
  qed (use m ds in auto)
qed

lemma calls_call: "member \<in> M \<Longrightarrow> calls (bus_call P member vs) M"
  by (auto simp: calls_def bus_call_def split: prod.split)

lemma calls_commands:
  "''GetConfig'' \<in> M \<Longrightarrow> calls (command_get_xconfig P c) M"
  "''ListSnapshots'' \<in> M \<Longrightarrow> calls (command_list_xsnapshots P c) M"
  "''DeleteSnapshots'' \<in> M \<Longrightarrow> calls (command_delete_xsnapshots P c ns) M"
  "''CreateComparison'' \<in> M \<Longrightarrow> calls (command_create_xcomparison P c n1 n2) M"
  "''GetFiles'' \<in> M \<Longrightarrow> calls (command_get_xfiles P c n1 n2) M"
  unfolding command_get_xconfig_def command_list_xsnapshots_def command_delete_xsnapshots_def
    command_create_xcomparison_def command_get_xfiles_def
  by (intro calls_bind calls_call calls_basic; assumption)+

lemma calls_empty_pairs:
  "{''CreateComparison'', ''GetFiles''} \<subseteq> M \<Longrightarrow> calls (empty_pairs P c xs is) M"
proof (induction "is")
  case (Cons i "is")
  then show ?case by (auto intro!: calls_bind calls_basic calls_commands)
qed (simp add: calls_basic)

subsection \<open>A successful call\<close>

lemma bus_call_Inr:
  "bus_call P member vs c = (Inr ws, c') \<Longrightarrow> P member vs (cn_peer c) = (Inr ws, cn_peer c')"
  by (auto simp: bus_call_def split: prod.splits)

lemma decode_state: "decode d vs c = (r, c') \<Longrightarrow> c' = c"
  by (auto simp: decode_def split: if_splits sum.splits)

lemma no_reply_eq [simp]: "no_reply vs c = (Inr (), c)"
  by (simp add: no_reply_def)

lemma command_Inr:
  assumes "bindS (bus_call P member vs) (decode d) c = (Inr a, c')"
  obtains ws rest where "P member vs (cn_peer c) = (Inr ws, cn_peer c')" "get_value d ws = Inr (a, rest)"
proof -
  obtain ws c1 where ws: "bus_call P member vs c = (Inr ws, c1)" "decode d ws c1 = (Inr a, c')"
    using assms by (auto simp: bindS_Inr)
  have "c1 = c'" using decode_state [OF ws(2)] by simp
  moreover have "\<exists>rest. get_value d ws = Inr (a, rest)" using ws(2) by (auto simp: decode_def split: if_splits sum.splits)
  ultimately show ?thesis using that bus_call_Inr [OF ws(1)] by blast
qed

lemma serve_waits:
  assumes "waits me s" "no_nul c" "serve E me member vs s = (r, s')"
    and "(member, vs) \<in> {(''GetConfig'', [enc_string c]), (''ListSnapshots'', [enc_string c]),
      (''GetFiles'', [enc_string c, enc_u32 n1, enc_u32 n2])}"
  shows "waits me s' \<and> counts s' = counts s"
proof -
  consider "member = ''GetConfig''" "vs = [enc_string c]" | "member = ''ListSnapshots''" "vs = [enc_string c]"
    | "member = ''GetFiles''" "vs = [enc_string c, enc_u32 n1, enc_u32 n2]" using assms(4) by auto
  then show ?thesis
  proof cases
    case 1
    show ?thesis
      by (rule serve_framed [OF assms(1) handlers(1) [OF assms(2)] keeps_simple_requests(2) framed_requests(1), of E])
        (use assms(3) 1 in auto)
  next
    case 2
    show ?thesis
      by (rule serve_framed [OF assms(1) handlers(2) [OF assms(2)] keeps_simple_requests(6) framed_requests(2), of E])
        (use assms(3) 2 in auto)
  next
    case 3
    show ?thesis
      by (rule serve_framed [OF assms(1) handlers(4) [OF assms(2)] keeps_get_files framed_requests(4), of E n1 n2])
        (use assms(3) 3 in auto)
  qed
qed

end
