(* ===== verification/CleanupServer.thy ===== *)
theory CleanupServer
  imports ClientServer
begin

text \<open>
  The cleanup by number against the server, after which the server lists what the algorithm has chosen to keep.
\<close>

subsection \<open>The cleanup by number on the server\<close>

definition listed :: "string \<Rightarrow> server \<Rightarrow> snapshot list option" where
  "listed c s = (case find (\<lambda>m. ci_name (me_info m) = c) (sv_metas s) of
       None \<Rightarrow> None | Some m \<Rightarrow> map_option (\<lambda>(k, sp). sp_snapshots sp) (me_snapper m))"

lemma find_upd_meta:
  assumes "\<And>m. me_info (f m) = me_info m"
  shows "find (\<lambda>m. ci_name (me_info m) = c) (sv_metas (upd_meta i f s))
    = map_option (\<lambda>m. if me_id m = i then f m else m) (find (\<lambda>m. ci_name (me_info m) = c) (sv_metas s))"
proof -
  have "find (\<lambda>m. ci_name (me_info m) = c) (map (\<lambda>m. if me_id m = i then f m else m) ms)
    = map_option (\<lambda>m. if me_id m = i then f m else m) (find (\<lambda>m. ci_name (me_info m) = c) ms)" for ms
    by (induction ms) (simp_all add: assms)
  then show ?thesis by (simp add: upd_meta_def)
qed

lemma listed_simps [simp]:
  "listed c (s\<lparr>sv_out := os\<rparr>) = listed c s" "listed c (registered me s) = listed c s" "listed c (s\<lparr>sv_etc := e\<rparr>) = listed c s"
  by (simp_all add: listed_def)

lemma listed_touch: "listed c (upd_meta i (\<lambda>m. m\<lparr>me_last_used := t\<rparr>) s) = listed c s"
  unfolding listed_def by (subst find_upd_meta) (auto split: option.split)

lemma listedD:
  assumes "okS s" "listed c s = Some es"
  obtains m k sp where "find (\<lambda>m. ci_name (me_info m) = c) (sv_metas s) = Some m" "me_snapper m = Some (k, sp)"
    "sp_snapshots sp = es" "find_meta c s = (Inr (me_id m), s)" "meta_of s (me_id m) = m"
proof -
  obtain m k sp where m: "find (\<lambda>m. ci_name (me_info m) = c) (sv_metas s) = Some m" "me_snapper m = Some (k, sp)" "sp_snapshots sp = es"
    using assms(2) by (auto simp: listed_def split: option.splits)
  moreover have "find_meta c s = (Inr (me_id m), s)" using m(1) by (simp add: find_meta_def)
  moreover have "meta_of s (me_id m) = m" using meta_of_eq [OF assms(1)] m(1) by (auto simp: find_Some_iff)
  ultimately show ?thesis by (rule that)
qed

text \<open>Deleting a snapshot of a loaded list.\<close>

lemma deleteSnapshot_entries:
  assumes "deleteSnapshot fs i st = (Inr u, st')"
  shows "entries st' = drop_nth i (entries st)"
proof -
  have w: "onW m st1 = (r, st2) \<Longrightarrow> entries st2 = entries st1" for m :: "(world, 'b) step" and st1 r st2
    by (auto simp: onW_def split: prod.splits)
  show ?thesis
    using assms unfolding deleteSnapshot_def
    by (auto simp: bindS_Inr Let_def split: if_splits dest!: w)
qed

lemma drop_found:
  assumes "distinct (map sn_num es)" "find_num n es \<noteq> length es"
  shows "drop_nth (find_num n es) es = filter (\<lambda>e. sn_num e \<noteq> n) es"
  using assms
proof (induction es)
  case (Cons e es)
  show ?case
  proof (cases "sn_num e = n")
    case True
    then have "filter (\<lambda>e. sn_num e \<noteq> n) es = es" using Cons.prems(1) by (auto simp: filter_id_conv image_iff)
    then show ?thesis using True by (simp add: find_num_def drop_nth_def)
  next
    case False
    then show ?thesis using Cons by (auto simp: find_num_def drop_nth_def)
  qed
qed (simp add: find_num_def)

lemma delete_one_listed:
  assumes "okS s" "find (\<lambda>m. ci_name (me_info m) = c) (sv_metas s) = Some m" "me_snapper m = Some (k, sp)"
    and "distinct (map sn_num (sp_snapshots sp))" "delete_one (me_id m) n s = (Inr u, s')"
  shows "listed c s' = Some (filter (\<lambda>e. sn_num e \<noteq> n) (sp_snapshots sp))"
proof -
  let ?f = "\<lambda>sp. bindS (getS entries) (\<lambda>es. deleteSnapshot (sp_ops sp) (find_num n es))"
  have m: "meta_of s (me_id m) = m" using meta_of_eq [OF assms(1)] assms(2) by (auto simp: find_Some_iff)
  have "check_snapshot_in_use (me_id m) n s = (Inr (), s)" and o: "onSnaps (me_id m) ?f s = (Inr u, s')"
    using assms(5) by (auto simp: delete_one_def bindS_Inr check_snapshot_in_use_def throw_ifS_Inr split: if_splits)
  obtain r st where d: "deleteSnapshot (sp_ops sp) (find_num n (sp_snapshots sp))
      \<lparr>disk = ec_disks (sv_etc s) (sp_subvolume sp), entries = sp_snapshots sp\<rparr> = (r, st)" by fastforce
  have s': "r = Inr u" "s' = (upd_meta (me_id m) (\<lambda>m. m\<lparr>me_snapper := Some (k, sp\<lparr>sp_snapshots := entries st\<rparr>)\<rparr>) s)
      \<lparr>sv_etc := (sv_etc s)\<lparr>ec_disks := (ec_disks (sv_etc s))(sp_subvolume sp := disk st)\<rparr>\<rparr>"
    using o d by (auto simp: onSnaps_def m assms(3) onSnapper_def)
  have "entries st = drop_nth (find_num n (sp_snapshots sp)) (sp_snapshots sp)"
    using deleteSnapshot_entries d s'(1) by fastforce
  moreover have "find_num n (sp_snapshots sp) \<noteq> length (sp_snapshots sp)"
    using d s'(1) by (auto simp: deleteSnapshot_def)
  ultimately have e: "entries st = filter (\<lambda>e. sn_num e \<noteq> n) (sp_snapshots sp)" using drop_found [OF assms(4)] by simp
  have "find (\<lambda>m. ci_name (me_info m) = c) (sv_metas s')
      = Some (m\<lparr>me_snapper := Some (k, sp\<lparr>sp_snapshots := entries st\<rparr>)\<rparr>)"
    unfolding s'(2) using find_upd_meta [of "\<lambda>m. m\<lparr>me_snapper := Some (k, sp\<lparr>sp_snapshots := entries st\<rparr>)\<rparr>" c "me_id m" s] assms(2)
    by simp
  then show ?thesis by (simp add: listed_def e)
qed

text \<open>What a successful request leaves, for each of the three requests.\<close>

lemma getSnapper_loaded:
  assumes "okS s" "find (\<lambda>m. ci_name (me_info m) = c) (sv_metas s) = Some m" "me_snapper m = Some x"
  shows "getSnapper E (me_id m) s = (Inr (), upd_meta (me_id m) (\<lambda>m. m\<lparr>me_last_used := sv_now s\<rparr>) s)"
proof -
  have "m \<in> set (sv_metas s)" using assms(2) by (auto simp: find_Some_iff)
  then have "meta_of s (me_id m) = m" by (rule meta_of_eq [OF assms(1)]) simp
  then show ?thesis using assms(3) by (simp add: getSnapper_eq)
qed

lemma find_meta_of:
  assumes "find (\<lambda>m. ci_name (me_info m) = c) (sv_metas s) = Some m"
  shows "find_meta c s = (Inr (me_id m), s)"
  using assms by (simp add: find_meta_def)

lemma permitted:
  assumes "check_permission E me i s = (Inr u, s')"
  shows "s' = s \<and> check_permission E me i s = (Inr (), s)"
  using assms by (cases rule: check_permission_cases [of E me i s]) auto

text \<open>A request that sends only its reply, at the end: when it is answered by a reply it has returned.\<close>

lemma answered:
  assumes h: "h (registered me s) = (r, s2)" and "serve E me member vs s = (bus_reply me (drop (length (sv_out s)) (sv_out s3)), s3)"
    and s3: "s3 = s2 \<or> (\<exists>e. r = Inl e \<and> s3 = s2\<lparr>sv_out := sv_out s2 @ [Error me (fst (error_of e)) (snd (error_of e))]\<rparr>)"
    and "isl r \<or> s3 = s2" "serve E me member vs s = (Inr ws, s')" "isl r \<Longrightarrow> sv_out s2 = sv_out s"
  obtains u where "h (registered me s) = (Inr u, s3)" "s' = s3" "bus_reply me (drop (length (sv_out s)) (sv_out s3)) = Inr ws"
proof (cases r)
  case (Inl e)
  then have "sv_out s2 = sv_out s" using assms(6) by simp
  then have False using s3 assms(2,5) by auto
  then show ?thesis ..
next
  case (Inr u)
  then show ?thesis using assms that [of u] by auto
qed

lemma stays_then_out:
  assumes "stays m" "bindS m f s = (r, s')" "\<And>a s. \<exists>s' b. f a s = (Inr b, s')" "isl r"
  shows "sv_out s' = sv_out s"
proof -
  obtain q s1 where q: "m s = (q, s1)" by fastforce
  show ?thesis
  proof (cases q)
    case (Inl e)
    then show ?thesis using staysD [OF assms(1) q] assms(2) q by (simp add: still_def)
  next
    case (Inr a)
    obtain s2 b where "f a s1 = (Inr b, s2)" using assms(3) by blast
    then show ?thesis using assms(2,4) q Inr by auto
  qed
qed

lemma serve_config:
  assumes "waits me s" "no_nul cfg" "find (\<lambda>m. ci_name (me_info m) = cfg) (sv_metas s) = Some m"
    and "serve E me ''GetConfig'' [enc_string cfg] s = (Inr ws, s')"
  shows "waits me s' \<and> sv_metas s' = sv_metas s \<and> ws = [enc_config (to_xconfig (me_info m))]"
proof (rule serve_framed [OF assms(1) handlers(1) [OF assms(2)] keeps_simple_requests(2) framed_requests(1), of E])
  let ?s1 = "registered me s"
  fix r s2 s3
  assume a: "get_config E me cfg ?s1 = (r, s2)"
    "serve E me ''GetConfig'' [enc_string cfg] s = (bus_reply me (drop (length (sv_out s)) (sv_out s3)), s3)"
    "s3 = s2 \<or> (\<exists>e. r = Inl e \<and> s3 = s2\<lparr>sv_out := sv_out s2 @ [Error me (fst (error_of e)) (snd (error_of e))]\<rparr>)"
    "isl r \<or> s3 = s2" "waits me s3"
  have f: "find_meta cfg ?s1 = (Inr (me_id m), ?s1)" using assms(3) by (simp add: find_meta_of)
  have ok: "okS ?s1" using waits_registered(1) [OF assms(1)] by (simp add: waits_def server_ok_def)
  have o: "sv_out s2 = sv_out s" if "isl r"
    using that a(1) f by (cases rule: check_permission_cases [of E me "me_id m" ?s1]) (auto simp: get_config_def reply_def emit_def)
  from answered [where h = "get_config E me cfg" and s = s and me = me, OF a(1-4) assms(4) o] obtain u where u: "get_config E me cfg ?s1 = (Inr u, s3)" "s' = s3"
    "bus_reply me (drop (length (sv_out s)) (sv_out s3)) = Inr ws" .
  have "meta_of ?s1 (me_id m) = m"
    by (rule meta_of_eq [OF ok]) (use assms(3) in \<open>auto simp: find_Some_iff\<close>)
  then have "s3 = ?s1\<lparr>sv_out := sv_out s @ [Reply me (RConfig (me_info m))]\<rparr>"
    using u(1) f permitted by (fastforce simp: get_config_def bindS_Inr reply_def emit_def)
  then show ?thesis using u(2,3) a(5) by simp
qed

lemma serve_list:
  assumes "waits me s" "no_nul cfg" "listed cfg s = Some es"
    and "serve E me ''ListSnapshots'' [enc_string cfg] s = (Inr ws, s')"
  shows "waits me s' \<and> listed cfg s' = Some es \<and> ws = [enc_array snapshot_sig enc_snapshot (map to_xsnapshot es)]"
proof (rule serve_framed [OF assms(1) handlers(2) [OF assms(2)] keeps_simple_requests(6) framed_requests(2), of E])
  let ?s1 = "registered me s"
  fix r s2 s3
  assume a: "list_snapshots E me cfg ?s1 = (r, s2)"
    "serve E me ''ListSnapshots'' [enc_string cfg] s = (bus_reply me (drop (length (sv_out s)) (sv_out s3)), s3)"
    "s3 = s2 \<or> (\<exists>e. r = Inl e \<and> s3 = s2\<lparr>sv_out := sv_out s2 @ [Error me (fst (error_of e)) (snd (error_of e))]\<rparr>)"
    "isl r \<or> s3 = s2" "waits me s3"
  have ok: "okS ?s1" using waits_registered(1) [OF assms(1)] by (simp add: waits_def server_ok_def)
  have "listed cfg ?s1 = Some es" using assms(3) by simp
  from listedD [OF ok this] obtain m k sp where m: "find (\<lambda>m. ci_name (me_info m) = cfg) (sv_metas ?s1) = Some m"
    "me_snapper m = Some (k, sp)" "sp_snapshots sp = es" "find_meta cfg ?s1 = (Inr (me_id m), ?s1)" "meta_of ?s1 (me_id m) = m" .
  let ?s2 = "upd_meta (me_id m) (\<lambda>m. m\<lparr>me_last_used := sv_now ?s1\<rparr>) ?s1"
  have g: "getSnapper E (me_id m) ?s1 = (Inr (), ?s2)" by (rule getSnapper_loaded [OF ok m(1,2)])
  have "snaps (me_id m) ?s2 = es"
  proof -
    have "m\<lparr>me_last_used := sv_now ?s1\<rparr> \<in> set (sv_metas ?s2)" using m(1) by (force simp: upd_meta_def find_Some_iff)
    from meta_of_eq [OF okx_touch [OF ok] this] m(2,3) show ?thesis by (simp add: snaps_def)
  qed
  then have e: "list_snapshots E me cfg ?s1 = bindS (check_permission E me (me_id m)) (\<lambda>_ s.
      (Inr (), (upd_meta (me_id m) (\<lambda>m. m\<lparr>me_last_used := sv_now ?s1\<rparr>) ?s1)\<lparr>sv_out := sv_out s @ [Reply me (RSnapshots es)]\<rparr>)) ?s1"
    using m(4) g by (cases rule: check_permission_cases [of E me "me_id m" ?s1])
      (simp_all add: list_snapshots_def with_snapper_def reply_def emit_def)
  have o: "sv_out s2 = sv_out s" if "isl r"
    using e that a(1) by (cases rule: check_permission_cases [of E me "me_id m" ?s1]) auto
  from answered [where h = "list_snapshots E me cfg" and s = s and me = me, OF a(1-4) assms(4) o] obtain u where u: "list_snapshots E me cfg ?s1 = (Inr u, s3)" "s' = s3"
    "bus_reply me (drop (length (sv_out s)) (sv_out s3)) = Inr ws" .
  have "s3 = ?s2\<lparr>sv_out := sv_out s @ [Reply me (RSnapshots es)]\<rparr>"
    using u(1) e permitted by (fastforce simp: bindS_Inr)
  then show ?thesis using u(2,3) a(5) assms(3) by (simp add: listed_touch)
qed

lemma serve_delete:
  assumes "waits me s" "no_nul cfg" "listed cfg s = Some es" "distinct (map sn_num es)"
    and "serve E me ''DeleteSnapshots'' [enc_string cfg, enc_array ''u'' enc_u32 [n]] s = (Inr ws, s')"
  shows "waits me s' \<and> listed cfg s' = Some (filter (\<lambda>e. sn_num e \<noteq> n) es)"
proof (rule serve_framed [OF assms(1) handlers(3) [OF assms(2)] keeps_delete_snapshots framed_requests(3), of E "[n]"])
  let ?s1 = "registered me s" and ?h = "delete_snapshots E me cfg [n]"
  fix r s2 s3
  assume a: "?h ?s1 = (r, s2)"
    "serve E me ''DeleteSnapshots'' [enc_string cfg, enc_array ''u'' enc_u32 [n]] s = (bus_reply me (drop (length (sv_out s)) (sv_out s3)), s3)"
    "s3 = s2 \<or> (\<exists>e. r = Inl e \<and> s3 = s2\<lparr>sv_out := sv_out s2 @ [Error me (fst (error_of e)) (snd (error_of e))]\<rparr>)"
    "isl r \<or> s3 = s2" "waits me s3"
  let ?pre = "bindS (find_meta cfg) (\<lambda>mid. thenS (check_permission E me mid) (thenS (check_lock me cfg)
     (thenS (check_config_in_use mid) (thenS (getSnapper E mid) (foreachS (delete_one mid) [n])))))"
  have e: "?h = bindS ?pre (\<lambda>_. thenS (reply me RUnit) (emit (SnapshotsDeleted cfg [n])))"
    by (simp add: delete_snapshots_def bindS_assoc)
  have o: "sv_out s2 = sv_out s" if "isl r"
  proof -
    have "stays ?pre" by (intro allI stays_rules)
    from stays_then_out [OF this a(1) [unfolded e] _ that] show ?thesis by (simp add: reply_def emit_def)
  qed
  from answered [where h = ?h and s = s and me = me, OF a(1-4) assms(5) o]
  obtain u where u: "?h ?s1 = (Inr u, s3)" "s' = s3" .
  have ok: "okS ?s1" using waits_registered(1) [OF assms(1)] by (simp add: waits_def server_ok_def)
  have "listed cfg ?s1 = Some es" using assms(3) by simp
  from listedD [OF ok this] obtain m k sp where m: "find (\<lambda>m. ci_name (me_info m) = cfg) (sv_metas ?s1) = Some m"
    "me_snapper m = Some (k, sp)" "sp_snapshots sp = es" "find_meta cfg ?s1 = (Inr (me_id m), ?s1)" "meta_of ?s1 (me_id m) = m" .
  let ?s2 = "upd_meta (me_id m) (\<lambda>m. m\<lparr>me_last_used := sv_now ?s1\<rparr>) ?s1" and ?m = "m\<lparr>me_last_used := sv_now ?s1\<rparr>"
  have g: "getSnapper E (me_id m) ?s1 = (Inr (), ?s2)" by (rule getSnapper_loaded [OF ok m(1,2)])
  have "check_config_in_use (me_id m) ?s1 = (q, t) \<Longrightarrow> t = ?s1" for q t
    by (auto simp: check_config_in_use_def throw_ifS_def split: if_splits)
  then obtain s4 where d: "delete_one (me_id m) n ?s2 = (Inr (), s4)" "s3 = s4\<lparr>sv_out := sv_out s4 @ [Reply me RUnit, SnapshotsDeleted cfg [n]]\<rparr>"
    using u(1) m(4) g silent_checks [of me cfg ?s1] unfolding e
    by (cases rule: check_permission_cases [of E me "me_id m" ?s1]) (auto simp: bindS_Inr reply_def emit_def)
  have f: "find (\<lambda>m. ci_name (me_info m) = cfg) (sv_metas ?s2) = Some ?m"
    using find_upd_meta [of "\<lambda>m. m\<lparr>me_last_used := sv_now ?s1\<rparr>" cfg "me_id m" ?s1] m(1) by simp
  have "listed cfg s4 = Some (filter (\<lambda>e. sn_num e \<noteq> n) (sp_snapshots sp))"
    by (rule delete_one_listed [OF okx_touch [OF ok] f, of k sp n "()"]) (use m(2,3) assms(4) d(1) in simp_all)
  then show ?thesis using u(2) a(5) d(2) m(3) by simp
qed

lemma delete_each_listed:
  assumes "no_nul cfg" "waits me (cn_peer c)" "listed cfg (cn_peer c) = Some es" "distinct (map sn_num es)"
    and "foreachS (\<lambda>i. command_delete_xsnapshots (serve E me) cfg [f i]) v c = (Inr u, c')"
  shows "listed cfg (cn_peer c') = Some (filter (\<lambda>e. sn_num e \<notin> f ` set v) es)"
  using assms(2-)
proof (induction v arbitrary: c es)
  case (Cons i v)
  obtain c1 where c1: "command_delete_xsnapshots (serve E me) cfg [f i] c = (Inr (), c1)"
    "foreachS (\<lambda>i. command_delete_xsnapshots (serve E me) cfg [f i]) v c1 = (Inr u, c')"
    using Cons.prems(4) by (auto simp: bindS_Inr)
  obtain ws where "serve E me ''DeleteSnapshots'' [enc_string cfg, enc_array ''u'' enc_u32 [f i]] (cn_peer c) = (Inr ws, cn_peer c1)"
    using c1(1) by (auto simp: command_delete_xsnapshots_def bindS_Inr dest: bus_call_Inr)
  from serve_delete [OF Cons.prems(1) assms(1) Cons.prems(2,3) this]
  have 1: "waits me (cn_peer c1)" "listed cfg (cn_peer c1) = Some (filter (\<lambda>e. sn_num e \<noteq> f i) es)" by auto
  have "distinct (map sn_num (filter (\<lambda>e. sn_num e \<noteq> f i) es))" by (rule distinct_map_filter [OF Cons.prems(3)])
  from Cons.IH [OF 1 this c1(2)] show ?case by (simp add: conj_commute)
qed simp

lemma nths_cong: "(\<And>k. k < length xs \<Longrightarrow> k \<in> A \<longleftrightarrow> k \<in> B) \<Longrightarrow> nths xs A = nths xs B"
  unfolding nths_def by (intro arg_cong [where f = "map fst"] filter_cong) (auto simp: set_zip)

lemma filter_nths:
  assumes "distinct (map f es)" "set v \<subseteq> {..<length es}"
  shows "filter (\<lambda>e. f e \<notin> (\<lambda>i. f (es ! i)) ` set v) es = nths es (- set v)"
proof -
  have e: "f (es ! k) \<in> (\<lambda>i. f (es ! i)) ` set v \<longleftrightarrow> k \<in> set v" if "k < length es" for k
  proof
    assume "f (es ! k) \<in> (\<lambda>i. f (es ! i)) ` set v"
    then obtain i where i: "i \<in> set v" "f (es ! k) = f (es ! i)" by (rule imageE)
    then have "k = i" using assms that by (auto simp: distinct_conv_nth)
    then show "k \<in> set v" using i(1) by simp
  qed simp
  have "k \<in> {k. k < length es \<and> f (es ! k) \<notin> (\<lambda>i. f (es ! i)) ` set v} \<longleftrightarrow> k \<in> - set v" if "k < length es" for k
    unfolding mem_Collect_eq e [OF that] using that by simp
  then have "nths es {k. k < length es \<and> f (es ! k) \<notin> (\<lambda>i. f (es ! i)) ` set v} = nths es (- set v)"
    by (rule nths_cong)
  then show ?thesis by (simp only: filter_eq_nths)
qed

lemma filter2_subset: "filter2 xs tmp = Inr v \<Longrightarrow> set v \<subseteq> set tmp"
proof -
  have "filter2_loop xs t is = Inr v \<Longrightarrow> set v \<subseteq> set is" for t v "is"
  proof (induction "is" arbitrary: v)
    case (Cons i "is")
    then obtain b w where "filter2_loop xs t is = Inr w" "v = (if b then w else i # w)" by (auto simp: bindR_eq_Inr)
    then show ?case using Cons.IH [of w] by (auto split: if_splits)
  qed simp
  then show "filter2 xs tmp = Inr v \<Longrightarrow> ?thesis" by (simp add: filter2_def)
qed

lemma number_victims_range:
  assumes "number_victims W t l xs = Inr v"
  shows "set v \<subseteq> {..<length xs}"
proof -
  have "set (take k (with_cleanup a xs)) \<subseteq> {..<length xs}" for k a
    by (auto simp: with_cleanup_def dest!: in_set_takeD)
  then show ?thesis
    using assms filter2_subset by (fastforce simp: number_victims_def filter1_def Let_def split: if_splits)
qed

text \<open>C11. The cleanup by number, run by a client that the server has no other business with: when it succeeds, the
  server lists exactly the snapshots that were not among the victims, in their order, and the victims are those
  of the limits in the configuration the server holds and of its list of snapshots.\<close>
theorem cleanup_number_on_server:
  assumes "waits me (cn_peer c)" "no_nul cfg"
    and "find (\<lambda>m. ci_name (me_info m) = cfg) (sv_metas (cn_peer c)) = Some m" "me_snapper m = Some (k, sp)"
    and "config_ok (to_xconfig (me_info m))" "\<forall>e\<in>set (sp_snapshots sp). snapshot_ok (to_xsnapshot e)"
    and "distinct (map sn_num (sp_snapshots sp))"
    and "do_cleanup_number W (serve E me) cfg c = (Inr b, c')"
  shows "\<exists>v. number_victims W (time_option (to_xconfig (me_info m)) ''NUMBER_MIN_AGE'' 1800)
        (size_option (to_xconfig (me_info m)) ''NUMBER_LIMIT'' 50) (map to_xsnapshot (sp_snapshots sp)) = Inr v
    \<and> listed cfg (cn_peer c') = Some (nths (sp_snapshots sp) (- set v))"
proof -
  let ?es = "sp_snapshots sp"
  obtain ci c1 xs c2 v where s: "command_get_xconfig (serve E me) cfg c = (Inr ci, c1)"
    "command_list_xsnapshots (serve E me) cfg c1 = (Inr xs, c2)"
    "number_victims W (time_option ci ''NUMBER_MIN_AGE'' 1800) (size_option ci ''NUMBER_LIMIT'' 50) xs = Inr v"
    "delete_each (serve E me) cfg xs v c2 = (Inr b, c')"
    using assms(8) by (auto simp: do_cleanup_number_def bindS_Inr)
  obtain ws rest where 1: "serve E me ''GetConfig'' [enc_string cfg] (cn_peer c) = (Inr ws, cn_peer c1)"
    "get_value dec_config ws = Inr (ci, rest)"
    using s(1) unfolding command_get_xconfig_def by (rule command_Inr)
  from serve_config [OF assms(1,2,3) 1(1)] have c1: "waits me (cn_peer c1)" "sv_metas (cn_peer c1) = sv_metas (cn_peer c)"
    "ws = [enc_config (to_xconfig (me_info m))]" by auto
  have ci: "ci = to_xconfig (me_info m)" using 1(2) unfolding c1(3) configc.get_enc [OF assms(5)] by simp
  have l: "listed cfg (cn_peer c1) = Some ?es" using assms(3,4) c1(2) by (simp add: listed_def)
  obtain ws' rest' where 2: "serve E me ''ListSnapshots'' [enc_string cfg] (cn_peer c1) = (Inr ws', cn_peer c2)"
    "get_value (dec_array snapshot_sig dec_snapshot) ws' = Inr (xs, rest')"
    using s(2) unfolding command_list_xsnapshots_def by (rule command_Inr)
  from serve_list [OF c1(1) assms(2) l 2(1)] have c2: "waits me (cn_peer c2)" "listed cfg (cn_peer c2) = Some ?es"
    "ws' = [enc_array snapshot_sig enc_snapshot (map to_xsnapshot ?es)]" by auto
  have "dec_array snapshot_sig dec_snapshot (enc_array snapshot_sig enc_snapshot (map to_xsnapshot ?es)) = Inr (map to_xsnapshot ?es)"
    by (rule snapshotc.dec_array_enc_array) (use assms(6) in simp)
  then have xs: "xs = map to_xsnapshot ?es" using 2(2) unfolding c2(3) by simp
  let ?f = "\<lambda>i. xs_num (xs ! i)"
  obtain u where "foreachS (\<lambda>i. command_delete_xsnapshots (serve E me) cfg [?f i]) v c2 = (Inr u, c')"
    using s(4) by (auto simp: delete_each_def bindS_Inr)
  from delete_each_listed [OF assms(2) c2(1,2) assms(7) this]
  have d: "listed cfg (cn_peer c') = Some (filter (\<lambda>e. sn_num e \<notin> ?f ` set v) ?es)" .
  have r: "set v \<subseteq> {..<length ?es}" using number_victims_range [OF s(3)] by (simp add: xs)
  have "?f ` set v = (\<lambda>i. sn_num (?es ! i)) ` set v"
  proof (rule image_cong [OF refl])
    fix i assume "i \<in> set v"
    then have "i < length ?es" using r by auto
    then show "?f i = sn_num (?es ! i)" by (simp add: xs to_xsnapshot_def)
  qed
  then have "listed cfg (cn_peer c') = Some (nths ?es (- set v))" using d filter_nths [OF assms(7) r] by simp
  then show ?thesis using s(3) unfolding ci xs by blast
qed

text \<open>An example: root holds a comparison and asks for the deletion of a snapshot.\<close>

definition client_ex :: "server \<Rightarrow> server client" where
  "client_ex s = \<lparr>cn_peer = s, cn_calls = [], cn_prev = [], cn_args = [], cn_out = [], cn_err = [], cn_fs = []\<rparr>"

lemma waits_ex: "waits '':1.1'' server_ex" "waits '':1.1'' compared_ex" "busy ''root'' compared_ex" "no_nul ''root''"
proof -
  show "waits '':1.1'' server_ex" using reachable_ok [OF reachable_ex] by (simp add: waits_def server_ex_def)
  show "waits '':1.1'' compared_ex"
    using reachable_ok [OF compared_reachable] by (simp add: waits_def compared_ex_facts new_client_def)
  show "busy ''root'' compared_ex" using compared_ex_facts(1,6) by (simp add: busy_def meta_ex_def server_ex_def info_ex_def)
qed (simp add: no_nul_def)

text \<open>Root, whose configuration holds fewer snapshots than the limit.\<close>

lemma registered_ex: "registered '':1.1'' compared_ex = compared_ex" "registered '':1.1'' (compared_ex\<lparr>sv_out := os\<rparr>) = compared_ex\<lparr>sv_out := os\<rparr>"
  by (simp_all add: registered_def find_client_def compared_ex_def new_client_def)

lemma find_ex: "find (\<lambda>m. ci_name (me_info m) = ''root'') (sv_metas compared_ex) = Some meta_ex"
  by (simp add: compared_ex_def meta_ex_def server_ex_def info_ex_def)

lemma permission_ex: "check_permission senv_ex '':1.1'' i s = (Inr (), s)"
  by (simp add: check_permission_def get_unix_userid_def)

lemma meta_of_ex: "meta_of compared_ex 0 = meta_ex"
  by (simp add: meta_of_def compared_ex_def meta_ex_def server_ex_def)

lemma config_ex:
  "serve senv_ex '':1.1'' ''GetConfig'' [enc_string ''root''] compared_ex
   = (Inr [enc_config (to_xconfig info_ex)], compared_ex\<lparr>sv_out := [Reply '':1.1'' RUnit, Reply '':1.1'' (RConfig info_ex)]\<rparr>)"
proof -
  let ?s = "compared_ex\<lparr>sv_out := [Reply '':1.1'' RUnit, Reply '':1.1'' (RConfig info_ex)]\<rparr>"
  have f: "find_meta ''root'' compared_ex = (Inr 0, compared_ex)"
    using find_meta_of [OF find_ex] by (simp add: meta_ex_def server_ex_def)
  have o: "sv_out compared_ex = [Reply '':1.1'' RUnit]" by (simp add: compared_ex_def)
  have "get_config senv_ex '':1.1'' ''root'' compared_ex = (Inr (), ?s)"
    using f permission_ex by (simp add: get_config_def reply_def emit_def meta_of_ex o) (simp add: meta_ex_def server_ex_def)
  then have a: "answering '':1.1'' (get_config senv_ex '':1.1'' ''root'') (registered '':1.1'' compared_ex) = (Inr (), ?s)"
    by (simp add: answering_eq registered_ex)
  have "sv_clients ?s = sv_clients (registered '':1.1'' compared_ex)" by (simp add: registered_ex)
  from serve_eq [OF waits_ex(2) handlers(1) [OF waits_ex(4)] a this] show ?thesis by (simp add: o)
qed

lemma list_ex:
  "\<exists>s'. serve senv_ex '':1.1'' ''ListSnapshots'' [enc_string ''root''] (compared_ex\<lparr>sv_out := os\<rparr>)
     = (Inr [enc_array snapshot_sig enc_snapshot (map to_xsnapshot (sp_snapshots sp2_ex))], s')"
proof -
  let ?s = "compared_ex\<lparr>sv_out := os\<rparr>" and ?t = "\<lambda>m. m\<lparr>me_last_used := sv_now compared_ex\<rparr>"
  let ?s1 = "upd_meta 0 ?t ?s"
  let ?s2 = "?s1\<lparr>sv_out := os @ [Reply '':1.1'' (RSnapshots (sp_snapshots sp2_ex))]\<rparr>"
  have reg: "registered '':1.1'' ?s = ?s" by (rule registered_ex(2))
  have w: "waits '':1.1'' ?s" using waits_ex(2) by (simp add: waits_def server_ok_def okx_core clients_core_def)
  have f: "find_meta ''root'' ?s = (Inr 0, ?s)"
    using find_meta_of [of "''root''" ?s] find_ex by (simp add: meta_ex_def server_ex_def)
  have me: "meta_of ?s 0 = meta_ex" using meta_of_ex by (simp add: meta_of_def)
  have g: "getSnapper senv_ex 0 ?s = (Inr (), ?s1)" by (simp add: getSnapper_eq me) (simp add: meta_ex_def)
  have "snaps 0 ?s1 = sp_snapshots sp2_ex"
    by (simp add: snaps_def meta_of_def upd_meta_def compared_ex_def meta_ex_def server_ex_def)
  then have "list_snapshots senv_ex '':1.1'' ''root'' ?s = (Inr (), ?s2)"
    using f permission_ex g by (simp add: list_snapshots_def with_snapper_def reply_def emit_def upd_meta_def)
  then have a: "answering '':1.1'' (list_snapshots senv_ex '':1.1'' ''root'') (registered '':1.1'' ?s) = (Inr (), ?s2)"
    by (simp add: answering_eq reg)
  have "sv_clients ?s2 = sv_clients (registered '':1.1'' ?s)" by (simp add: reg upd_meta_def)
  from serve_eq [OF w handlers(2) [OF waits_ex(4)] a this] show ?thesis by simp
qed

lemma ok_ex: "config_ok (to_xconfig info_ex)" "\<forall>e\<in>set (sp_snapshots sp2_ex). snapshot_ok (to_xsnapshot e)"
  "distinct (map sn_num (sp_snapshots sp2_ex))"
  by code_simp+

lemma cleanup_run_ex: "\<exists>c'. do_cleanup_number clock_ex (serve senv_ex '':1.1'') ''root'' (client_ex compared_ex) = (Inr True, c')"
proof -
  let ?o = "[Reply '':1.1'' RUnit, Reply '':1.1'' (RConfig info_ex)]"
  obtain s' where s': "serve senv_ex '':1.1'' ''ListSnapshots'' [enc_string ''root''] (compared_ex\<lparr>sv_out := ?o\<rparr>)
     = (Inr [enc_array snapshot_sig enc_snapshot (map to_xsnapshot (sp_snapshots sp2_ex))], s')" using list_ex by blast
  have d: "dec_array snapshot_sig dec_snapshot (enc_array snapshot_sig enc_snapshot (map to_xsnapshot (sp_snapshots sp2_ex)))
     = Inr (map to_xsnapshot (sp_snapshots sp2_ex))"
    by (rule snapshotc.dec_array_enc_array) (use ok_ex(2) in simp)
  have k: "dec_config (enc_config (to_xconfig info_ex)) = Inr (to_xconfig info_ex)" by (rule configc.dec_enc [OF ok_ex(1)])
  have v: "number_victims clock_ex (time_option (to_xconfig info_ex) ''NUMBER_MIN_AGE'' 1800)
     (size_option (to_xconfig info_ex) ''NUMBER_LIMIT'' 50) (map to_xsnapshot (sp_snapshots sp2_ex)) = Inr []"
    by code_simp
  show ?thesis
    using config_ex s' d k v
    by (simp add: do_cleanup_number_def command_get_xconfig_def command_list_xsnapshots_def bus_call_def client_ex_def
        decode_def delete_each_def bindS_def)
qed

theorem cleanup_number_on_server_witness:
  "\<exists>c'. do_cleanup_number clock_ex (serve senv_ex '':1.1'') ''root'' (client_ex compared_ex) = (Inr True, c')
    \<and> listed ''root'' (cn_peer c') = Some (sp_snapshots sp2_ex)"
proof -
  obtain c' where r: "do_cleanup_number clock_ex (serve senv_ex '':1.1'') ''root'' (client_ex compared_ex) = (Inr True, c')"
    using cleanup_run_ex by blast
  have "cn_peer (client_ex compared_ex) = compared_ex" by (simp add: client_ex_def)
  then have w: "waits '':1.1'' (cn_peer (client_ex compared_ex))"
    "find (\<lambda>m. ci_name (me_info m) = ''root'') (sv_metas (cn_peer (client_ex compared_ex))) = Some meta_ex"
    using waits_ex(2) find_ex by simp_all
  have m: "me_snapper meta_ex = Some (1, sp2_ex)" "me_info meta_ex = info_ex" by (simp_all add: meta_ex_def server_ex_def)
  from cleanup_number_on_server [OF w(1) waits_ex(4) w(2) m(1) _ ok_ex(2,3) r]
  obtain v where v: "number_victims clock_ex (time_option (to_xconfig info_ex) ''NUMBER_MIN_AGE'' 1800)
      (size_option (to_xconfig info_ex) ''NUMBER_LIMIT'' 50) (map to_xsnapshot (sp_snapshots sp2_ex)) = Inr v"
    "listed ''root'' (cn_peer c') = Some (nths (sp_snapshots sp2_ex) (- set v))"
    using ok_ex(1) m(2) by auto
  have "number_victims clock_ex (time_option (to_xconfig info_ex) ''NUMBER_MIN_AGE'' 1800)
     (size_option (to_xconfig info_ex) ''NUMBER_LIMIT'' 50) (map to_xsnapshot (sp_snapshots sp2_ex)) = Inr []"
    by code_simp
  then have "v = []" using v(1) by simp
  then show ?thesis using r v(2) by (simp add: nths_all)
qed

end
