(* ===== verification/EmptyPairs.thy ===== *)
theory EmptyPairs
  imports CleanupServer
begin

text \<open>
  The cleanup of empty pairs against the server: its own comparisons keep the configuration in use, so that the server
  refuses its first deletion, and no snapshot of the configuration is lost.
\<close>

subsection \<open>Comparisons keep the configuration in use\<close>

lemma busy_cong: "counts s' = counts s \<Longrightarrow> busy c s' = busy c s"
  by (simp add: busy_counts)

lemma empty_pairs_busy:
  assumes "no_nul cfg"
  shows "waits me (cn_peer c) \<Longrightarrow> empty_pairs (serve E me) cfg xs is c = (Inr tmp, c') \<Longrightarrow>
    waits me (cn_peer c') \<and> (tmp \<noteq> [] \<or> busy cfg (cn_peer c) \<longrightarrow> busy cfg (cn_peer c'))"
proof (induction "is" arbitrary: c tmp)
  case (Cons i "is")
  let ?n1 = "xs_num (xs ! i)"
  let ?step = "if \<not> xs_is PRE (xs ! i) then retS []
       else bindS (liftS (x_findPost i xs)) (\<lambda>j.
         if j = length xs then retS []
         else thenS (command_create_xcomparison (serve E me) cfg ?n1 (xs_num (xs ! j)))
           (bindS (command_get_xfiles (serve E me) cfg ?n1 (xs_num (xs ! j))) (\<lambda>files.
             retS (if files = [] then [i, j] else []))))"
  obtain a c1 b where step: "?step c = (Inr a, c1)" "empty_pairs (serve E me) cfg xs is c1 = (Inr b, c')" "tmp = a @ b"
    using Cons.prems(2) by (auto simp: bindS_Inr)
  have "waits me (cn_peer c1) \<and> (a \<noteq> [] \<or> busy cfg (cn_peer c) \<longrightarrow> busy cfg (cn_peer c1))"
  proof (cases "a = [] \<and> c1 = c")
    case False
    then obtain j c2 files where j: "command_create_xcomparison (serve E me) cfg ?n1 (xs_num (xs ! j)) c = (Inr (), c2)"
      "command_get_xfiles (serve E me) cfg ?n1 (xs_num (xs ! j)) c2 = (Inr files, c1)"
      using step(1) by (auto simp: bindS_Inr split: if_splits)
    obtain ws where w: "serve E me ''CreateComparison'' [enc_string cfg, enc_u32 ?n1, enc_u32 (xs_num (xs ! j))] (cn_peer c) = (Inr ws, cn_peer c2)"
      using j(1) by (auto simp: command_create_xcomparison_def bindS_Inr dest: bus_call_Inr)
    have 1: "waits me (cn_peer c2) \<and> busy cfg (cn_peer c2)" by (rule serve_comparison [OF Cons.prems(1) assms w])
    obtain vs where "serve E me ''GetFiles'' [enc_string cfg, enc_u32 ?n1, enc_u32 (xs_num (xs ! j))] (cn_peer c2) = (Inr vs, cn_peer c1)"
      using j(2) unfolding command_get_xfiles_def by (rule command_Inr)
    then have "waits me (cn_peer c1) \<and> counts (cn_peer c1) = counts (cn_peer c2)"
      using serve_waits [of me "cn_peer c2" cfg E] 1 assms by blast
    then show ?thesis using 1 busy_cong [of "cn_peer c1" "cn_peer c2" cfg] by simp
  qed (use Cons.prems in simp)
  then show ?case using Cons.IH [of c1 b] step(2,3) by auto
qed simp

subsection \<open>No snapshot is lost\<close>

text \<open>A loaded configuration has at least the snapshots with the numbers \<open>N\<close>.\<close>

definition numbered :: "string \<Rightarrow> u32 set \<Rightarrow> server \<Rightarrow> bool" where
  "numbered c N s \<longleftrightarrow> distinct (map me_id (sv_metas s))
     \<and> (\<exists>es. listed c s = Some es \<and> N \<subseteq> sn_num ` set es)"

lemma numbered_iff:
  "numbered c N s \<longleftrightarrow> distinct (map me_id (sv_metas s)) \<and> (\<exists>m. find (\<lambda>m. ci_name (me_info m) = c) (sv_metas s) = Some m
     \<and> me_snapper m \<noteq> None \<and> N \<subseteq> nums m)"
  by (auto simp: numbered_def listed_def nums_def split: option.splits)

lemma numbered_meta:
  assumes "numbered c N s" "\<And>m. me_info (f m) = me_info m \<and> me_id (f m) = me_id m"
    and "\<And>m. m \<in> set (sv_metas s) \<Longrightarrow> me_id m = i \<Longrightarrow> me_snapper m \<noteq> None \<Longrightarrow> me_snapper (f m) \<noteq> None \<and> nums m \<subseteq> nums (f m)"
  shows "numbered c N (upd_meta i f s)"
proof -
  obtain m where m: "find (\<lambda>m. ci_name (me_info m) = c) (sv_metas s) = Some m" "me_snapper m \<noteq> None" "N \<subseteq> nums m"
    using assms(1) by (auto simp: numbered_iff)
  then have "m \<in> set (sv_metas s)" by (auto simp: find_Some_iff)
  then have "find (\<lambda>m. ci_name (me_info m) = c) (sv_metas (upd_meta i f s)) = Some (if me_id m = i then f m else m)"
    "me_snapper (if me_id m = i then f m else m) \<noteq> None" "N \<subseteq> nums (if me_id m = i then f m else m)"
    using m assms(3) find_upd_meta [of f c i s] assms(2) by auto
  moreover have "map me_id (sv_metas (upd_meta i f s)) = map me_id (sv_metas s)"
    using assms(2) by (simp add: upd_meta_def)
  ultimately show ?thesis using assms(1) unfolding numbered_iff by metis
qed

lemma numbered_same: "numbered c N s \<Longrightarrow> sv_metas s' = sv_metas s \<Longrightarrow> numbered c N s'"
  by (simp add: numbered_iff)

lemma numbered_quiet: "(\<And>s. sv_metas (snd (m s)) = sv_metas s) \<Longrightarrow> keeps (numbered c N) m"
  by (rule keepsI) (rule numbered_same)

lemma numbered_meta_of: "numbered c N s \<Longrightarrow> m \<in> set (sv_metas s) \<Longrightarrow> meta_of s (me_id m) = m"
proof -
  assume a: "numbered c N s" "m \<in> set (sv_metas s)"
  then have d: "m' = m" if "m' \<in> set (sv_metas s)" "me_id m' = me_id m" for m'
    using that by (auto simp: numbered_def distinct_map inj_on_def)
  have "filter (\<lambda>m'. me_id m' = me_id m) (sv_metas s) \<noteq> []" using a(2) by (auto simp: filter_empty_conv)
  from hd_in_set [OF this] show ?thesis using d by (auto simp: meta_of_def)
qed

lemma numbered_checks:
  "keeps (numbered c N) (emit x)" "keeps (numbered c N) (reply me r)" "keeps (numbered c N) (onEtc m)"
  "keeps (numbered c N) (find_meta c')" "keeps (numbered c N) (check_permission E me i)"
  "keeps (numbered c N) (modifyS (upd_client n f))"
  by (rule numbered_quiet, simp add: silentD(1) [OF silent_emit(1)] silentD(1) [OF silent_emit(2)]
        silentD(1) [OF silent_onEtc] silentD(1) [OF silent_finds(1)] silentD(1) [OF silent_finds(4)])+

lemma numbered_counts: "keeps (numbered c N) (inc_use_count i)" "keeps (numbered c N) (dec_use_count i)"
  unfolding inc_use_count_def dec_use_count_def
  by (auto simp: inc_count_def dec_count_def nums_def Let_def intro!: keeps_modify numbered_meta)

lemma numbered_load: "keeps (numbered c N) (getSnapper E i)"
proof (rule keepsI)
  fix s assume a: "numbered c N s"
  have touch: "numbered c N s' \<Longrightarrow> numbered c N (upd_meta i (\<lambda>m. m\<lparr>me_last_used := t\<rparr>) s')" for s' t
    by (rule numbered_meta) (simp_all add: nums_def)
  show "numbered c N (snd (getSnapper E i s))"
  proof (cases rule: getSnapper_cases [where s = s and i = i and E = E and hs = "[]" and e = "\<lambda>_. 0"])
    case here
    then show ?thesis using touch [OF a] by simp
  next
    case (fails x s1)
    then show ?thesis using numbered_same [OF a] by simp
  next
    case (loads sp s1)
    have 1: "numbered c N s1" by (rule numbered_same [OF a loads(4)])
    have "me_snapper m = None" if "m \<in> set (sv_metas s1)" "me_id m = i" for m
      using numbered_meta_of [OF 1 that(1)] that(2) loads(1) meta_of_cong [OF loads(4), of i] by simp
    then have "numbered c N (upd_meta i (\<lambda>m. m\<lparr>me_snapper := Some (sv_next_id s1, sp)\<rparr>) s1)"
      by (intro numbered_meta [OF 1]) auto
    then have "numbered c N ((upd_meta i (\<lambda>m. m\<lparr>me_snapper := Some (sv_next_id s1, sp)\<rparr>) s1)\<lparr>sv_next_id := Suc (sv_next_id s1)\<rparr>)"
      by (rule numbered_same) simp
    from touch [OF this] show ?thesis using loads(5) by simp
  qed
qed

lemma numbered_snaps:
  assumes "\<And>sp. grows (f sp)"
  shows "keeps (numbered c N) (onSnaps i f)"
proof (rule keepsI)
  fix s assume a: "numbered c N s"
  show "numbered c N (snd (onSnaps i f s))"
  proof (cases rule: onSnaps_cases [of s i f])
    case (2 k sp r sp' x)
    have "me_snapper m = Some (k, sp)" if "m \<in> set (sv_metas s)" "me_id m = i" for m
      using numbered_meta_of [OF a that(1)] that(2) 2(1) by simp
    then have "numbered c N (upd_meta i (\<lambda>m. m\<lparr>me_snapper := Some (k, sp')\<rparr>) s)"
      using onSnapper_grows [OF assms 2(2)] by (intro numbered_meta [OF a]) (auto simp: nums_def)
    from numbered_same [OF this] show ?thesis using 2(3) by simp
  qed (use a in simp)
qed

lemmas numbered_rules = keeps keeps_prod numbered_checks numbered_counts numbered_load

lemma numbered_requests:
  "keeps (numbered c N) (get_config E me c')" "keeps (numbered c N) (list_snapshots E me c')"
  "keeps (numbered c N) (get_files E me c' n1 n2)" "keeps (numbered c N) (create_comparison_begin E me c' n1 n2)"
  "keeps (numbered c N) (create_comparison_end E me p)"
proof -
  have w: "keeps (numbered c N) (with_snapper E me c' body)" if "\<And>i. keeps (numbered c N) (body i)" for body
    unfolding with_snapper_def by (intro numbered_rules that)
  show "keeps (numbered c N) (get_config E me c')" "keeps (numbered c N) (list_snapshots E me c')"
    "keeps (numbered c N) (get_files E me c' n1 n2)" "keeps (numbered c N) (create_comparison_begin E me c' n1 n2)"
    unfolding get_config_def list_snapshots_def get_files_def with_comparison_def create_comparison_begin_def
    by (intro w numbered_rules)+
  have g: "grows (bindS (getS entries) (\<lambda>es. comparison_new (sp_ops sp) (se_cmp E (sp_subvolume sp)) (sp_subvolume sp)
      (sp_ignore_patterns sp) (pending_index (pd_num1 p) es) (pending_index (pd_num2 p) es)))" for sp
    by (intro keeps)
  show "keeps (numbered c N) (create_comparison_end E me p)"
    unfolding create_comparison_end_def create_comparison_body_def
    by (intro numbered_rules keeps_finally numbered_snaps g)
qed

lemma numbered_answering: "keeps (numbered c N) h \<Longrightarrow> keeps (numbered c N) (answering me h)"
  unfolding answering_def by (intro numbered_rules)

lemma numbered_finish: "keeps (numbered c N) (client_finish E me)"
  unfolding client_finish_def by (intro numbered_rules numbered_answering numbered_requests)

lemma serve_numbered:
  assumes "waits me s" "numbered c N s" "method_handler E me member vs = Some h" "keeps (numbered c N) h"
  shows "numbered c N (snd (serve E me member vs s))"
proof -
  have r: "numbered c N (registered me s)" by (rule numbered_same [OF assms(2)]) simp
  obtain x s1 where a: "answering me h (registered me s) = (x, s1)" by fastforce
  have 1: "numbered c N s1" by (rule keepsD [OF numbered_answering [OF assms(4)] r a])
  have d: "thenS (method_call E (bus_request me member vs)) (client_work E me) s = (x, s1)"
    unfolding call_and_work [OF assms(1)] using assms(3) a by (simp add: dispatch_def bus_request_def)
  obtain y s2 where f: "client_finish E me s1 = (y, s2)" by fastforce
  have 2: "numbered c N s2" by (rule keepsD [OF numbered_finish 1 f])
  have "thenS (method_call E (bus_request me member vs)) (thenS (client_work E me) (client_finish E me)) s
      = (case x of Inl e \<Rightarrow> (Inl e, s1) | Inr u \<Rightarrow> (y, s2))"
    unfolding bindS_assoc [symmetric] using d f by (cases x) simp_all
  then show ?thesis using 1 2 by (cases x) (simp_all add: serve_def)
qed

text \<open>A step of the client that loses no snapshot, whether it ends the program or not.\<close>

definition lossless :: "string \<Rightarrow> string \<Rightarrow> u32 set \<Rightarrow> (server, 'a) cstep \<Rightarrow> bool" where
  "lossless me cfg N m \<longleftrightarrow> (\<forall>c. waits me (cn_peer c) \<and> numbered cfg N (cn_peer c) \<longrightarrow>
     numbered cfg N (cn_peer (snd (m c))) \<and> (\<not> isl (fst (m c)) \<longrightarrow> waits me (cn_peer (snd (m c)))))"

lemma lossless_bind:
  assumes "lossless me cfg N m" "\<And>a. lossless me cfg N (f a)"
  shows "lossless me cfg N (bindS m f)"
  unfolding lossless_def
proof (intro allI impI)
  fix c :: "server client" assume a: "waits me (cn_peer c) \<and> numbered cfg N (cn_peer c)"
  obtain r c1 where m: "m c = (r, c1)" by fastforce
  have 1: "numbered cfg N (cn_peer c1)" "\<not> isl r \<Longrightarrow> waits me (cn_peer c1)"
    using assms(1) a m unfolding lossless_def by (metis fst_conv snd_conv)+
  show "numbered cfg N (cn_peer (snd (bindS m f c))) \<and> (\<not> isl (fst (bindS m f c)) \<longrightarrow> waits me (cn_peer (snd (bindS m f c))))"
    using 1 m assms(2) unfolding lossless_def by (cases r) simp_all
qed

lemma lossless_basic: "lossless me cfg N (retS a)" "lossless me cfg N (throwS e)" "lossless me cfg N (liftS x)"
  "lossless me cfg N (decode d vs)" "lossless me cfg N (no_reply vs)"
  by (auto simp: lossless_def decode_def no_reply_def split: sum.split)

lemma lossless_call:
  assumes "\<And>s. waits me s \<Longrightarrow> numbered cfg N s \<Longrightarrow> numbered cfg N (snd (serve E me member vs s))"
    and "\<And>s ws s'. waits me s \<Longrightarrow> serve E me member vs s = (Inr ws, s') \<Longrightarrow> waits me s'"
  shows "lossless me cfg N (bus_call (serve E me) member vs)"
  unfolding lossless_def
proof (intro allI impI)
  fix c :: "server client" assume a: "waits me (cn_peer c) \<and> numbered cfg N (cn_peer c)"
  obtain r s where s: "serve E me member vs (cn_peer c) = (r, s)" by fastforce
  show "numbered cfg N (cn_peer (snd (bus_call (serve E me) member vs c)))
      \<and> (\<not> isl (fst (bus_call (serve E me) member vs c)) \<longrightarrow> waits me (cn_peer (snd (bus_call (serve E me) member vs c))))"
    using a assms(1) [of "cn_peer c"] assms(2) [of "cn_peer c"] s by (cases r) (simp_all add: bus_call_def)
qed

lemma lossless_commands:
  assumes "no_nul cfg"
  shows "lossless me cfg N (command_get_xconfig (serve E me) cfg)" "lossless me cfg N (command_list_xsnapshots (serve E me) cfg)"
    "lossless me cfg N (command_get_xfiles (serve E me) cfg n1 n2)" "lossless me cfg N (command_create_xcomparison (serve E me) cfg n1 n2)"
proof -
  note h = handlers [OF assms, of E me]
  note w = serve_waits [OF _ assms]
  show "lossless me cfg N (command_get_xconfig (serve E me) cfg)"
    unfolding command_get_xconfig_def
    by (intro lossless_bind lossless_basic lossless_call serve_numbered [OF _ _ h(1)] numbered_requests) (use w in blast)+
  show "lossless me cfg N (command_list_xsnapshots (serve E me) cfg)"
    unfolding command_list_xsnapshots_def
    by (intro lossless_bind lossless_basic lossless_call serve_numbered [OF _ _ h(2)] numbered_requests) (use w in blast)+
  show "lossless me cfg N (command_get_xfiles (serve E me) cfg n1 n2)"
    unfolding command_get_xfiles_def
    by (intro lossless_bind lossless_basic lossless_call serve_numbered [OF _ _ h(4)] numbered_requests) (use w in blast)+
  show "lossless me cfg N (command_create_xcomparison (serve E me) cfg n1 n2)"
    unfolding command_create_xcomparison_def
    by (intro lossless_bind lossless_basic lossless_call serve_numbered [OF _ _ h(5)] numbered_requests)
      (use serve_comparison [OF _ assms] in blast)+
qed

lemma lossless_pairs: "no_nul cfg \<Longrightarrow> lossless me cfg N (empty_pairs (serve E me) cfg xs is)"
proof (induction "is")
  case (Cons i "is")
  then show ?case by (auto intro!: lossless_bind lossless_basic lossless_commands)
qed (simp add: lossless_basic)

subsection \<open>The cleanup deletes nothing\<close>

lemma delete_each_busy:
  assumes "waits me (cn_peer c)" "no_nul cfg" "busy cfg (cn_peer c)" "delete_each (serve E me) cfg xs v c = (r, c')"
  shows "(v = [] \<and> c' = c) \<or> (\<exists>n t d. r = Inl (ErrorReply n t) \<and> cn_calls c' = cn_calls c @ [(''DeleteSnapshots'', d)]
    \<and> sv_metas (cn_peer c') = sv_metas (cn_peer c))"
proof (cases v)
  case (Cons i js)
  obtain n t s' where "serve E me ''DeleteSnapshots'' [enc_string cfg, enc_array ''u'' enc_u32 [xs_num (xs ! i)]] (cn_peer c)
      = (Inl (ErrorReply n t), s')" "sv_metas s' = sv_metas (cn_peer c)"
    using serve_delete_busy [OF assms(1-3), of E "[xs_num (xs ! i)]"] by blast
  moreover from this have "bus_call (serve E me) ''DeleteSnapshots'' [enc_string cfg, enc_array ''u'' enc_u32 [xs_num (xs ! i)]] c
      = (Inl (ErrorReply n t), c\<lparr>cn_peer := s', cn_calls := cn_calls c @ [(''DeleteSnapshots'', [enc_string cfg, enc_array ''u'' enc_u32 [xs_num (xs ! i)]])]\<rparr>)"
    by (simp add: bus_call_def)
  ultimately show ?thesis using assms(4) Cons by (auto simp: delete_each_def command_delete_xsnapshots_def)
qed (use assms(4) in \<open>simp add: delete_each_def\<close>)

text \<open>C12. The cleanup of empty pairs deletes nothing, when the client has no other request waiting and the server has
  the configuration loaded: the comparisons it has made keep the configuration in use until the client disconnects, so
  that its first request to delete a snapshot is answered by an error, with which it ends; however it ends, every
  snapshot that the server had in its list is still there.\<close>
theorem empty_pair_cleanup_deletes_nothing:
  assumes "waits me (cn_peer c)" "no_nul cfg" "listed cfg (cn_peer c) = Some es"
    and "do_cleanup_empty_pre_post W (serve E me) cfg c = (r, c')"
  shows "(\<exists>es'. listed cfg (cn_peer c') = Some es' \<and> sn_num ` set es \<subseteq> sn_num ` set es')
    \<and> (\<exists>ds. ''DeleteSnapshots'' \<notin> fst ` set ds \<and> (cn_calls c' = cn_calls c @ ds
      \<or> (\<exists>n t d. r = Inl (ErrorReply n t) \<and> cn_calls c' = cn_calls c @ ds @ [(''DeleteSnapshots'', d)])))"
proof -
  let ?M = "{''GetConfig'', ''ListSnapshots'', ''CreateComparison'', ''GetFiles''}" and ?N = "sn_num ` set es"
  let ?pre = "bindS (command_get_xconfig (serve E me) cfg) (\<lambda>ci.
     bindS (command_list_xsnapshots (serve E me) cfg) (\<lambda>xs.
     bindS (empty_pairs (serve E me) cfg xs [0..<length xs]) (\<lambda>tmp.
     bindS (liftS (filter2 xs (filter1 W (time_option ci ''EMPTY_PRE_POST_MIN_AGE'' 1800) xs tmp))) (\<lambda>v. retS (xs, tmp, v)))))"
  have e: "do_cleanup_empty_pre_post W (serve E me) cfg c = bindS ?pre (\<lambda>(xs, tmp, v). delete_each (serve E me) cfg xs v) c"
    by (simp add: do_cleanup_empty_pre_post_def bindS_assoc)
  have "calls ?pre ?M" by (intro calls_bind calls_basic calls_commands calls_empty_pairs) auto
  then obtain ds where ds: "cn_calls (snd (?pre c)) = cn_calls c @ ds" "fst ` set ds \<subseteq> ?M" unfolding calls_def by blast
  then have no: "''DeleteSnapshots'' \<notin> fst ` set ds" by auto
  have "numbered cfg ?N (cn_peer c)"
    using assms(1,3) by (auto simp: numbered_def waits_def server_ok_def okx_def fits_def)
  moreover have "lossless me cfg ?N ?pre"
    by (intro lossless_bind lossless_basic lossless_commands lossless_pairs assms(2))
  ultimately have num: "numbered cfg ?N (cn_peer (snd (?pre c)))" using assms(1) unfolding lossless_def by blast
  have keep: "\<exists>es'. listed cfg (cn_peer c') = Some es' \<and> ?N \<subseteq> sn_num ` set es'" if "numbered cfg ?N (cn_peer c')"
    using that by (simp add: numbered_def)
  obtain q c1 where q: "?pre c = (q, c1)" by fastforce
  show ?thesis
  proof (cases q)
    case (Inl x)
    then show ?thesis using assms(4) e q ds(1) no num keep by auto
  next
    case (Inr z)
    then obtain ci c2 xs c3 tmp v where s: "command_get_xconfig (serve E me) cfg c = (Inr ci, c2)"
      "command_list_xsnapshots (serve E me) cfg c2 = (Inr xs, c3)"
      "empty_pairs (serve E me) cfg xs [0..<length xs] c3 = (Inr tmp, c1)"
      "filter2 xs (filter1 W (time_option ci ''EMPTY_PRE_POST_MIN_AGE'' 1800) xs tmp) = Inr v" "z = (xs, tmp, v)"
      using q by (auto simp: bindS_Inr)
    obtain ws where "serve E me ''GetConfig'' [enc_string cfg] (cn_peer c) = (Inr ws, cn_peer c2)"
      using s(1) unfolding command_get_xconfig_def by (rule command_Inr)
    then have w2: "waits me (cn_peer c2)" using serve_waits [OF assms(1,2)] by blast
    obtain ws' where "serve E me ''ListSnapshots'' [enc_string cfg] (cn_peer c2) = (Inr ws', cn_peer c3)"
      using s(2) unfolding command_list_xsnapshots_def by (rule command_Inr)
    then have w3: "waits me (cn_peer c3)" using serve_waits [OF w2 assms(2)] by blast
    from empty_pairs_busy [OF assms(2) w3 s(3)] have w1: "waits me (cn_peer c1)" and b: "tmp \<noteq> [] \<Longrightarrow> busy cfg (cn_peer c1)" by auto
    have d: "delete_each (serve E me) cfg xs v c1 = (r, c')" using assms(4) e q Inr s(5) by simp
    have num1: "numbered cfg ?N (cn_peer c1)" using num q by simp
    have "v = [] \<and> c' = c1 \<or> (\<exists>n t d. r = Inl (ErrorReply n t) \<and> cn_calls c' = cn_calls c1 @ [(''DeleteSnapshots'', d)]
        \<and> sv_metas (cn_peer c') = sv_metas (cn_peer c1))"
    proof (cases "tmp = []")
      case True
      then have "v = []" using s(4) by (simp add: filter1_def filter2_def)
      then show ?thesis using d by (simp add: delete_each_def)
    qed (use delete_each_busy [OF w1 assms(2) b d] in blast)
    then show ?thesis using ds(1) no q keep num1 numbered_same [OF num1] by auto
  qed
qed

subsection \<open>An example\<close>

text \<open>
  A pair of old snapshots whose saved list of files is empty: the cleanup finds it and asks for the deletion of the first
  one.
\<close>

definition pre_ex :: snapshot where
  "pre_ex = new_snapshot PRE 1 1000"

definition post_ex :: snapshot where
  "post_ex = (new_snapshot POST 2 2000)\<lparr>sn_pre_num := 1\<rparr>"

definition same_env :: senv where
  "same_env = senv_ex\<lparr>se_cmp := (\<lambda>_ _ _. retS [])\<rparr>"

definition pair_disk :: world where
  "pair_disk = disk_ex\<lparr>infos := [(''1'', IDir [(''snapshot'', Subvol)]),
     (''2'', IDir [(''snapshot'', Subvol), (''filelist-1.txt'', Reg [])])]\<rparr>"

definition pair_etc :: etc where
  "pair_etc = etc1_ex\<lparr>ec_disks := (\<lambda>_. pair_disk)\<rparr>"

definition pair_sp :: snapper where
  "pair_sp = sp_ex\<lparr>sp_snapshots := [current_snapshot, pre_ex, post_ex]\<rparr>"

definition pair_meta :: meta where
  "pair_meta = (hd (sv_metas server_ex))\<lparr>me_snapper := Some (1, pair_sp)\<rparr>"

definition pair_ex :: "out list \<Rightarrow> server" where
  "pair_ex os = server_ex\<lparr>sv_metas := [pair_meta], sv_clients := [new_client '':1.1''], sv_next_id := 2, sv_etc := pair_etc,
     sv_out := os\<rparr>"

definition empty_ex :: held_comparison where
  "empty_ex = \<lparr>hc_snapper = 1, hc_num1 = 1, hc_num2 = 2, hc_files = []\<rparr>"

definition pair2_ex :: "out list \<Rightarrow> server" where
  "pair2_ex os = server_ex\<lparr>sv_metas := [pair_meta\<lparr>me_counter := 1\<rparr>],
     sv_clients := [(new_client '':1.1'')\<lparr>cl_comparisons := [empty_ex]\<rparr>], sv_next_id := 2, sv_etc := pair_etc,
     sv_out := os\<rparr>"

lemma pair_nums: "sn_num pre_ex = 1" "sn_num post_ex = 2"
  by (simp_all add: pre_ex_def post_ex_def new_snapshot_def)

lemma same_env_simps [simp]: "se_cmp same_env = (\<lambda>_ _ _. retS [])" "se_sender_uid same_env = se_sender_uid senv_ex"
  "se_user same_env = se_user senv_ex" "se_group same_env = se_group senv_ex"
  by (simp_all add: same_env_def)

lemma permission_same: "check_permission same_env '':1.1'' i s = (Inr (), s)"
  by (simp add: check_permission_def get_unix_userid_def)

lemma pair_facts:
  "find_meta ''root'' (pair_ex os) = (Inr 0, pair_ex os)" "meta_of (pair_ex os) 0 = pair_meta"
  "getSnapper same_env 0 (pair_ex os) = (Inr (), pair_ex os)" "snaps 0 (pair_ex os) = [current_snapshot, pre_ex, post_ex]"
  "registered '':1.1'' (pair_ex os) = pair_ex os" "waits '':1.1'' (pair_ex os)"
proof -
  show m: "meta_of (pair_ex os) 0 = pair_meta" by (simp add: meta_of_def pair_ex_def pair_meta_def server_ex_def)
  show "find_meta ''root'' (pair_ex os) = (Inr 0, pair_ex os)"
    by (simp add: find_meta_def pair_ex_def pair_meta_def server_ex_def info_ex_def)
  have "me_snapper pair_meta = Some (1, pair_sp)" by (simp add: pair_meta_def)
  moreover have "upd_meta 0 (\<lambda>m. m\<lparr>me_last_used := sv_now (pair_ex os)\<rparr>) (pair_ex os) = pair_ex os"
    by (simp add: upd_meta_def pair_ex_def pair_meta_def server_ex_def)
  ultimately show "getSnapper same_env 0 (pair_ex os) = (Inr (), pair_ex os)" by (simp add: getSnapper_eq m)
  show "snaps 0 (pair_ex os) = [current_snapshot, pre_ex, post_ex]" by (simp add: snaps_def m) (simp add: pair_meta_def pair_sp_def)
  show "registered '':1.1'' (pair_ex os) = pair_ex os" by (simp add: registered_def find_client_def pair_ex_def new_client_def)
  show "waits '':1.1'' (pair_ex os)"
    by (simp add: waits_def server_ok_def okx_def fits_def held_def pendings_def map_filter_def background_def pair_ex_def
        pair_meta_def server_ex_def new_client_def refs_def loaded_def)
qed

lemma pair_out: "sv_out (pair_ex os) = os" "sv_clients (pair_ex os) = [new_client '':1.1'']" "sv_out (pair2_ex os) = os"
  "sv_clients (pair2_ex os) = [(new_client '':1.1'')\<lparr>cl_comparisons := [empty_ex]\<rparr>]"
  by (simp_all add: pair_ex_def pair2_ex_def)

lemma pair_config: "serve same_env '':1.1'' ''GetConfig'' [enc_string ''root''] (pair_ex [])
   = (Inr [enc_config (to_xconfig info_ex)], pair_ex [Reply '':1.1'' (RConfig info_ex)])"
proof -
  have i: "me_info pair_meta = info_ex" by (simp add: pair_meta_def server_ex_def)
  have "get_config same_env '':1.1'' ''root'' (pair_ex []) = (Inr (), pair_ex [Reply '':1.1'' (RConfig info_ex)])"
    by (simp add: get_config_def pair_facts permission_same reply_def emit_def i) (simp add: pair_ex_def)
  then have a: "answering '':1.1'' (get_config same_env '':1.1'' ''root'') (registered '':1.1'' (pair_ex []))
      = (Inr (), pair_ex [Reply '':1.1'' (RConfig info_ex)])"
    by (simp add: answering_eq pair_facts)
  from serve_eq [OF pair_facts(6) handlers(1) [OF waits_ex(4)] a] show ?thesis by (simp add: pair_facts pair_out)
qed

lemma pair_list:
  "serve same_env '':1.1'' ''ListSnapshots'' [enc_string ''root''] (pair_ex os)
   = (Inr [enc_array snapshot_sig enc_snapshot (map to_xsnapshot [current_snapshot, pre_ex, post_ex])],
      pair_ex (os @ [Reply '':1.1'' (RSnapshots [current_snapshot, pre_ex, post_ex])]))"
proof -
  let ?r = "Reply '':1.1'' (RSnapshots [current_snapshot, pre_ex, post_ex])"
  have "list_snapshots same_env '':1.1'' ''root'' (pair_ex os) = (Inr (), pair_ex (os @ [?r]))"
    by (simp add: list_snapshots_def with_snapper_def pair_facts permission_same reply_def emit_def) (simp add: pair_ex_def)
  then have a: "answering '':1.1'' (list_snapshots same_env '':1.1'' ''root'') (registered '':1.1'' (pair_ex os)) = (Inr (), pair_ex (os @ [?r]))"
    by (simp add: answering_eq pair_facts)
  from serve_eq [OF pair_facts(6) handlers(2) [OF waits_ex(4)] a] show ?thesis by (simp add: pair_facts pair_out)
qed

text \<open>The comparison of the pair.\<close>

definition pair_pending :: pending where
  "pair_pending = \<lparr>pd_meta = 0, pd_snapper = 1, pd_num1 = Some 1, pd_num2 = Some 2\<rparr>"

definition pair_begun :: "out list \<Rightarrow> server" where
  "pair_begun os = (pair_ex os)\<lparr>sv_metas := [pair_meta\<lparr>me_counter := 1\<rparr>],
     sv_clients := [(new_client '':1.1'')\<lparr>cl_pending := Some pair_pending\<rparr>]\<rparr>"

lemma pair_begin: "create_comparison_begin same_env '':1.1'' ''root'' 1 2 (pair_ex os) = (Inr (), pair_begun os)"
proof -
  have "found_num 1 [current_snapshot, pre_ex, post_ex] = Some 1" "found_num 2 [current_snapshot, pre_ex, post_ex] = Some 2"
    by (simp_all add: found_num_def find_num_def nums_ex pair_nums)
  moreover have "loaded_id 0 (pair_ex os) = 1" by (simp add: loaded_id_def pair_facts) (simp add: pair_meta_def)
  moreover have "me_id pair_meta = 0" "inc_count pair_meta = pair_meta\<lparr>me_counter := 1\<rparr>"
    by (simp_all add: pair_meta_def server_ex_def inc_count_def)
  ultimately show ?thesis
    by (simp add: create_comparison_begin_def with_snapper_def pair_facts permission_same inc_use_count_def upd_client_def
        upd_meta_def pair_begun_def pair_pending_def new_client_def) (simp add: pair_ex_def new_client_def)
qed

lemma pair_compare:
  "comparison_new (btrfs_ops ''/'') cmp ''/'' [] (Suc 0) (Suc (Suc 0)) \<lparr>disk = pair_disk, entries = [current_snapshot, pre_ex, post_ex]\<rparr>
   = (Inr \<lparr>cp_snapshot1 = 1, cp_snapshot2 = 2, cp_paths = \<lparr>system_path = ''/'', pre_path = snapshot_dir_below ''/'' 1,
      post_path = snapshot_dir_below ''/'' 2\<rparr>, cp_files = []\<rparr>, \<lparr>disk = pair_disk, entries = [current_snapshot, pre_ex, post_ex]\<rparr>)"
proof -
  have c: "\<not> isCurrent pre_ex" "\<not> isCurrent post_ex" by (simp_all add: isCurrent_def pair_nums)
  have o: "ordered_nums pre_ex post_ex = (False, 1, 2)" by (simp add: ordered_nums_def pair_nums)
  have n: "decString 2 = ''2''" "list_name 1 = ''filelist-1.txt''" by code_simp+
  have e: "load_files False [] = []" by code_simp
  have "comparison_load pre_ex post_ex pair_disk = (Inr (Some []), pair_disk)"
    by (simp add: comparison_load_def c o n e openInfosDir_def open_sub_def sys_def sys_ok_def bindS_def pair_disk_def disk_ex_def
        del: decString.simps)
  then have "comparison_initialize (btrfs_ops ''/'') cmp [] (Suc 0) (Suc (Suc 0))
      \<lparr>disk = pair_disk, entries = [current_snapshot, pre_ex, post_ex]\<rparr>
    = (Inr [], \<lparr>disk = pair_disk, entries = [current_snapshot, pre_ex, post_ex]\<rparr>)"
    by (simp add: comparison_initialize_def Let_def c onW_def files_filter_def)
  then show ?thesis
    by (simp add: comparison_new_def Let_def c pair_nums) (simp add: btrfs_ops_def)
qed

lemma pair_body: "create_comparison_body same_env '':1.1'' pair_pending ((pair_begun os)\<lparr>sv_clients := [new_client '':1.1'']\<rparr>)
   = (Inr (), upd_meta 0 inc_count (pair2_ex (os @ [Reply '':1.1'' RUnit])))"
proof -
  let ?s = "(pair_begun os)\<lparr>sv_clients := [new_client '':1.1'']\<rparr>"
  let ?f = "\<lambda>sp. bindS (getS entries) (\<lambda>es.
        comparison_new (sp_ops sp) (se_cmp same_env (sp_subvolume sp)) (sp_subvolume sp) (sp_ignore_patterns sp)
          (pending_index (pd_num1 pair_pending) es) (pending_index (pd_num2 pair_pending) es))"
  have m: "meta_of ?s 0 = pair_meta\<lparr>me_counter := 1\<rparr>"
    by (simp add: pair_begun_def meta_of_def pair_meta_def server_ex_def)
  have d: "ec_disks (sv_etc ?s) ''/'' = pair_disk" "(ec_disks (sv_etc ?s))(''/'' := pair_disk) = ec_disks (sv_etc ?s)"
    by (simp_all add: pair_begun_def pair_ex_def pair_etc_def fun_eq_iff)
  have p: "pending_index (Some 1) [current_snapshot, pre_ex, post_ex] = Suc 0"
    "pending_index (Some 2) [current_snapshot, pre_ex, post_ex] = Suc (Suc 0)"
    by (simp_all add: pending_index_def find_num_def nums_ex pair_nums)
  have sp: "pair_sp\<lparr>sp_snapshots := [current_snapshot, pre_ex, post_ex]\<rparr> = pair_sp" by (simp add: pair_sp_def)
  let ?c = "\<lparr>cp_snapshot1 = 1, cp_snapshot2 = 2, cp_paths = \<lparr>system_path = ''/'', pre_path = snapshot_dir_below ''/'' 1,
      post_path = snapshot_dir_below ''/'' 2\<rparr>, cp_files = []\<rparr>"
  have on: "onSnapper pair_sp (?f pair_sp) (sv_etc ?s) = ((Inr ?c, pair_sp), sv_etc ?s)"
    using pair_compare d sp
    by (simp add: onSnapper_def pair_pending_def p pair_sp_def sp_ex_def)
  have sn: "me_snapper (meta_of ?s (pd_meta pair_pending)) = Some (1, pair_sp)"
    by (simp add: pair_pending_def m) (simp add: pair_meta_def)
  have same: "(upd_meta (pd_meta pair_pending) (\<lambda>m. m\<lparr>me_snapper := Some (1, pair_sp)\<rparr>) ?s)\<lparr>sv_etc := sv_etc ?s\<rparr> = ?s"
    by (simp add: pair_pending_def upd_meta_def pair_begun_def pair_meta_def pair_ex_def)
  have o: "onSnaps (pd_meta pair_pending) ?f ?s = (Inr ?c, ?s)"
    unfolding onSnaps_def by (simp only: sn option.case prod.case on same)
  show ?thesis
    unfolding create_comparison_body_def
    by (subst bindS_def, subst o, simp add: bindS_def inc_use_count_def reply_def emit_def upd_client_def upd_meta_def
        new_client_def pair_pending_def empty_ex_def pair2_ex_def)
      (simp add: pair_begun_def pair_ex_def pair_meta_def server_ex_def inc_count_def new_client_def empty_ex_def)
qed

lemma pair_finish: "client_finish same_env '':1.1'' (pair_begun os) = (Inr (), pair2_ex (os @ [Reply '':1.1'' RUnit]))"
proof -
  have f: "find_client '':1.1'' (pair_begun os) = Some ((new_client '':1.1'')\<lparr>cl_pending := Some pair_pending\<rparr>)"
    by (simp add: find_client_def pair_begun_def new_client_def)
  have "upd_client '':1.1'' (\<lambda>c. c\<lparr>cl_pending := None\<rparr>) (pair_begun os) = (pair_begun os)\<lparr>sv_clients := [new_client '':1.1'']\<rparr>"
    by (simp add: upd_client_def pair_begun_def new_client_def)
  moreover have "dec_use_count 0 (upd_meta 0 inc_count (pair2_ex os')) = (Inr (), pair2_ex os')" for os'
    by (simp add: dec_use_count_def upd_meta_def pair2_ex_def inc_count_def dec_count_def server_ex_def Let_def)
  ultimately have "create_comparison_end same_env '':1.1'' pair_pending (pair_begun os) = (Inr (), pair2_ex (os @ [Reply '':1.1'' RUnit]))"
    using pair_body [of os] by (simp add: create_comparison_end_def finallyS_def) (simp add: pair_pending_def)
  then show ?thesis using f by (simp add: client_finish_def answering_eq)
qed

lemma pair_comparison:
  "serve same_env '':1.1'' ''CreateComparison'' [enc_string ''root'', enc_u32 1, enc_u32 2] (pair_ex os)
   = (Inr [], pair2_ex (os @ [Reply '':1.1'' RUnit]))"
proof -
  have "answering '':1.1'' (create_comparison_begin same_env '':1.1'' ''root'' 1 2) (registered '':1.1'' (pair_ex os)) = (Inr (), pair_begun os)"
    by (simp add: answering_eq pair_facts pair_begin)
  from serve_work [OF pair_facts(6) handlers(5) [OF waits_ex(4)] this] show ?thesis by (simp add: pair_finish pair_out)
qed

lemma pair2_facts:
  "find_meta ''root'' (pair2_ex os) = (Inr 0, pair2_ex os)" "getSnapper same_env 0 (pair2_ex os) = (Inr (), pair2_ex os)"
  "snaps 0 (pair2_ex os) = [current_snapshot, pre_ex, post_ex]" "loaded_id 0 (pair2_ex os) = 1"
  "registered '':1.1'' (pair2_ex os) = pair2_ex os" "waits '':1.1'' (pair2_ex os)"
proof -
  have m: "meta_of (pair2_ex os) 0 = pair_meta\<lparr>me_counter := 1\<rparr>"
    by (simp add: meta_of_def pair2_ex_def pair_meta_def server_ex_def)
  show "find_meta ''root'' (pair2_ex os) = (Inr 0, pair2_ex os)"
    by (simp add: find_meta_def pair2_ex_def pair_meta_def server_ex_def info_ex_def)
  have "upd_meta 0 (\<lambda>m. m\<lparr>me_last_used := sv_now (pair2_ex os)\<rparr>) (pair2_ex os) = pair2_ex os"
    by (simp add: upd_meta_def pair2_ex_def pair_meta_def server_ex_def)
  moreover have "me_snapper pair_meta = Some (1, pair_sp)" by (simp add: pair_meta_def)
  ultimately show "getSnapper same_env 0 (pair2_ex os) = (Inr (), pair2_ex os)" by (simp add: getSnapper_eq m)
  show "snaps 0 (pair2_ex os) = [current_snapshot, pre_ex, post_ex]" "loaded_id 0 (pair2_ex os) = 1"
    by (simp_all add: snaps_def loaded_id_def m) (simp_all add: pair_meta_def pair_sp_def)
  show "registered '':1.1'' (pair2_ex os) = pair2_ex os" by (simp add: registered_def find_client_def pair2_ex_def new_client_def)
  show "waits '':1.1'' (pair2_ex os)"
    by (simp add: waits_def server_ok_def okx_def fits_def held_def pendings_def map_filter_def background_def pair2_ex_def
        pair_meta_def server_ex_def new_client_def refs_def loaded_def empty_ex_def has_load_def nums_def pair_sp_def pair_nums)
qed

lemma pair_files:
  "serve same_env '':1.1'' ''GetFiles'' [enc_string ''root'', enc_u32 1, enc_u32 2] (pair2_ex os)
     = (Inr [enc_array file_sig enc_file []], pair2_ex (os @ [Reply '':1.1'' (RFiles [])]))"
proof -
  let ?s = "pair2_ex (os @ [Reply '':1.1'' (RFiles [])])"
  have n: "found_num 1 [current_snapshot, pre_ex, post_ex] = Some 1"
    "found_num 2 [current_snapshot, pre_ex, post_ex] = Some 2"
    by (simp_all add: found_num_def find_num_def nums_ex pair_nums)
  have f: "find_client '':1.1'' (pair2_ex os) = Some ((new_client '':1.1'')\<lparr>cl_comparisons := [empty_ex]\<rparr>)"
    by (simp add: find_client_def pair2_ex_def new_client_def)
  have "get_files same_env '':1.1'' ''root'' 1 2 (pair2_ex os) = (Inr (), ?s)"
    by (simp add: get_files_def with_comparison_def with_snapper_def pair2_facts permission_same n f find_comparison_def
        empty_ex_def reply_def emit_def pair_out) (simp add: pair2_ex_def)
  then have a: "answering '':1.1'' (get_files same_env '':1.1'' ''root'' 1 2) (registered '':1.1'' (pair2_ex os)) = (Inr (), ?s)"
    by (simp add: answering_eq pair2_facts)
  from serve_eq [OF pair2_facts(6) handlers(4) [OF waits_ex(4)] a] show ?thesis by (simp add: pair2_facts pair_out)
qed

text \<open>The run of the client.\<close>

definition pair_list_ex :: "xsnapshot list" where
  "pair_list_ex = map to_xsnapshot [current_snapshot, pre_ex, post_ex]"

lemma pair_decodes:
  "dec_config (enc_config (to_xconfig info_ex)) = Inr (to_xconfig info_ex)"
  "dec_array snapshot_sig dec_snapshot (enc_array snapshot_sig enc_snapshot pair_list_ex) = Inr pair_list_ex"
  "dec_array file_sig dec_file (enc_array file_sig enc_file []) = Inr []"
proof -
  have "\<forall>x \<in> set pair_list_ex. snapshot_ok x" by code_simp
  then show "dec_array snapshot_sig dec_snapshot (enc_array snapshot_sig enc_snapshot pair_list_ex) = Inr pair_list_ex"
    by (intro snapshotc.dec_array_enc_array) simp
  show "dec_array file_sig dec_file (enc_array file_sig enc_file []) = Inr []"
    by (intro filec.dec_array_enc_array) simp
qed (rule configc.dec_enc [OF ok_ex(1)])

lemma pair_choice:
  "length pair_list_ex = 3" "\<not> xs_is PRE (pair_list_ex ! 0)" "xs_is PRE (pair_list_ex ! Suc 0)" "\<not> xs_is PRE (pair_list_ex ! 2)"
  "x_findPost (Suc 0) pair_list_ex = Inr 2" "xs_num (pair_list_ex ! Suc 0) = 1" "xs_num (pair_list_ex ! 2) = 2"
  "filter2 pair_list_ex (filter1 clock_ex (time_option (to_xconfig info_ex) ''EMPTY_PRE_POST_MIN_AGE'' 1800) pair_list_ex [Suc 0, 2])
   = Inr [Suc 0, 2]"
  by code_simp+

lemma pair_busy: "busy ''root'' (pair2_ex os)"
  by (simp add: busy_def pair2_ex_def pair_meta_def server_ex_def info_ex_def)

lemma pair_run:
  "\<exists>n t c'. do_cleanup_empty_pre_post clock_ex (serve same_env '':1.1'') ''root'' (client_ex (pair_ex [])) = (Inl (ErrorReply n t), c')
     \<and> map fst (cn_calls c') = [''GetConfig'', ''ListSnapshots'', ''CreateComparison'', ''GetFiles'', ''DeleteSnapshots'']"
proof -
  let ?os = "[Reply '':1.1'' (RConfig info_ex), Reply '':1.1'' (RSnapshots [current_snapshot, pre_ex, post_ex]), Reply '':1.1'' RUnit,
    Reply '':1.1'' (RFiles [])]"
  obtain n t s' where d: "serve same_env '':1.1'' ''DeleteSnapshots'' [enc_string ''root'', enc_array ''u'' enc_u32 [1]] (pair2_ex ?os)
      = (Inl (ErrorReply n t), s')"
    using serve_delete_busy [OF pair2_facts(6) waits_ex(4) pair_busy, of same_env "[1]" ?os] by blast
  have u: "[0..<3] = [0, 1, 2 :: nat]" by (simp add: upt_rec)
  show ?thesis
    using pair_config pair_list [folded pair_list_ex_def] pair_comparison pair_files d
    by (simp add: do_cleanup_empty_pre_post_def command_get_xconfig_def command_list_xsnapshots_def command_create_xcomparison_def
        command_get_xfiles_def command_delete_xsnapshots_def bus_call_def client_ex_def decode_def no_reply_def delete_each_def
        bindS_def pair_decodes pair_choice u)
qed

text \<open>The empty pair is found, its deletion is asked for and refused, and all three entries are still in the list.\<close>

theorem empty_pair_cleanup_deletes_nothing_witness:
  "\<exists>n t c' es. do_cleanup_empty_pre_post clock_ex (serve same_env '':1.1'') ''root'' (client_ex (pair_ex [])) = (Inl (ErrorReply n t), c')
     \<and> map fst (cn_calls c') = [''GetConfig'', ''ListSnapshots'', ''CreateComparison'', ''GetFiles'', ''DeleteSnapshots'']
     \<and> listed ''root'' (cn_peer c') = Some es \<and> {0, 1, 2} \<subseteq> sn_num ` set es"
proof -
  obtain n t c' where r: "do_cleanup_empty_pre_post clock_ex (serve same_env '':1.1'') ''root'' (client_ex (pair_ex [])) = (Inl (ErrorReply n t), c')"
    "map fst (cn_calls c') = [''GetConfig'', ''ListSnapshots'', ''CreateComparison'', ''GetFiles'', ''DeleteSnapshots'']"
    using pair_run by (elim exE conjE)
  have p: "cn_peer (client_ex (pair_ex [])) = pair_ex []" by (simp add: client_ex_def)
  have l: "listed ''root'' (pair_ex []) = Some [current_snapshot, pre_ex, post_ex]"
    by (simp add: listed_def pair_ex_def pair_meta_def server_ex_def info_ex_def pair_sp_def)
  have "\<exists>es. listed ''root'' (cn_peer c') = Some es \<and> sn_num ` set [current_snapshot, pre_ex, post_ex] \<subseteq> sn_num ` set es"
    using empty_pair_cleanup_deletes_nothing [OF _ waits_ex(4) _ r(1)] p l pair_facts(6) by fastforce
  then show ?thesis using r by (auto simp: pair_nums nums_ex)
qed

end
