(* ===== verification/AnswerClaims.thy ===== *)
theory AnswerClaims
  imports ServerReplies ServerExample
begin

text \<open>
  Every request is answered once: by its handler, by an error, or, when \<open>CreateComparison\<close> has left a comparison in
  progress, by the second part of that request.
\<close>

subsection \<open>What a request leaves to do\<close>

definition in_comparison :: "string \<Rightarrow> server \<Rightarrow> bool" where
  "in_comparison me s \<longleftrightarrow> (\<exists>c. find_client me s = Some c \<and> cl_pending c \<noteq> None)"

lemma ok0_no_comparison:
  assumes "ok0 me s"
  shows "\<exists>c. find_client me s = Some c \<and> cl_pending c = None"
proof -
  obtain c where c: "c \<in> set (sv_clients s)" "cl_name c = me" "cl_pending c = None"
    using assms by (auto simp: okc_def idle_def clients_core_def)
  have d: "distinct (map cl_name (sv_clients s))" using assms by (simp add: okc_def okx_def)
  obtain c' where c': "find_client me s = Some c'" using c(1,2) find_client_None [of me s] by (cases "find_client me s") auto
  then have "c' \<in> set (sv_clients s)" "cl_name c' = me" using find_client_Some by blast+
  then have "c' = c" using d c(1,2) by (simp add: distinct_map inj_on_def)
  then show ?thesis using c' c(3) by blast
qed

lemma ok0_idle: "ok0 me s \<Longrightarrow> \<not> in_comparison me s"
  using ok0_no_comparison unfolding in_comparison_def by fastforce

text \<open>A handler answers when it returns, or leaves a comparison in progress, which only one that may begin one does; when
  it fails it has not answered.\<close>

definition settles :: "bool \<Rightarrow> string \<Rightarrow> handler \<Rightarrow> bool" where
  "settles begins me h \<longleftrightarrow> (\<forall>s. ok0 me s \<longrightarrow> (case h s of
     (Inl x, s') \<Rightarrow> answers s' = answers s \<and> ok0 me s'
   | (Inr u, s') \<Rightarrow> answers s' = answers s @ [me] \<and> ok0 me s' \<or> begins \<and> answers s' = answers s \<and> in_comparison me s'))"

lemma settles_once: "once me h \<Longrightarrow> keeps (ok0 me) h \<Longrightarrow> settles b me h"
  unfolding settles_def once_def keeps_def by (auto split: prod.split sum.split) (metis fst_conv isl_def snd_conv self_append_conv sum.disc(2))+

lemma settles_throw: "settles b me (throwS e)"
  by (simp add: settles_def)

lemma settles_args:
  "(\<And>a. settles b me (f a)) \<Longrightarrow> settles b me (args1 d f vs)" "(\<And>a vs. settles b me (g a vs)) \<Longrightarrow> settles b me (args d g vs)"
  by (cases "get_value d vs"; force simp: settles_def args1_def args_def)+

lemma settles_with_args: "settles b me h \<Longrightarrow> settles b me (with_args vs h)"
  by (cases "vs = []") (simp_all add: settles_def with_args_def throw_ifS_def)

lemma settles_begin: "settles True me (create_comparison_begin E me c n1 n2)"
  unfolding settles_def
proof (intro allI impI)
  fix s assume ok: "ok0 me s"
  let ?pre = "bindS (find_meta c) (\<lambda>mid. thenS (check_permission E me mid) (thenS (getSnapper E mid) (retS mid)))"
  let ?tail = "\<lambda>mid. bindS (getS (\<lambda>s. (loaded_id mid s, snaps mid s))) (\<lambda>(k, es).
       thenS (inc_use_count mid)
         (modifyS (upd_client me (\<lambda>c. c\<lparr>cl_pending := Some \<lparr>pd_meta = mid, pd_snapper = k,
            pd_num1 = found_num n1 es, pd_num2 = found_num n2 es\<rparr>\<rparr>))))"
  have h: "create_comparison_begin E me c n1 n2 = bindS ?pre ?tail"
    by (simp only: create_comparison_begin_def with_snapper_def bindS_assoc bindS_step_simps(1))
  have k: "keeps (ok0 me) ?pre" by (intro keeps)
  have q: "quiet ?pre" by (intro quietI keeps sent.inert_keeps)
  obtain r s1 where p: "?pre s = (r, s1)" by fastforce
  have 1: "ok0 me s1" "answers s1 = answers s" using keepsD [OF k ok p] quiet_answers [OF q p] by simp_all
  show "case create_comparison_begin E me c n1 n2 s of
     (Inl x, s') \<Rightarrow> answers s' = answers s \<and> ok0 me s'
   | (Inr u, s') \<Rightarrow> answers s' = answers s @ [me] \<and> ok0 me s' \<or> True \<and> answers s' = answers s \<and> in_comparison me s'"
  proof (cases r)
    case (Inl x)
    then show ?thesis using 1 p by (simp add: h)
  next
    case (Inr mid)
    let ?p = "\<lparr>pd_meta = mid, pd_snapper = loaded_id mid s1, pd_num1 = found_num n1 (snaps mid s1), pd_num2 = found_num n2 (snaps mid s1)\<rparr>"
    let ?s2 = "upd_meta mid inc_count s1"
    let ?s3 = "upd_client me (\<lambda>c. c\<lparr>cl_pending := Some ?p\<rparr>) ?s2"
    have t: "bindS ?pre ?tail s = (Inr (), ?s3)"
      using p Inr by (simp add: inc_use_count_def)
    obtain c' where "find_client me s1 = Some c'" using ok0_no_comparison [OF 1(1)] by blast
    then have "find_client me ?s2 = Some c'" by (simp add: find_client_def)
    then have "in_comparison me ?s3" by (simp add: in_comparison_def find_client_map)
    moreover have "answers ?s3 = answers s" using 1(2) by (simp add: answers_def upd_client_def upd_meta_def)
    ultimately show ?thesis by (simp add: h t)
  qed
qed

lemma keeps_arguments:
  "(\<And>a. keeps P (f a)) \<Longrightarrow> keeps P (args1 d f vs)" "(\<And>a vs. keeps P (g a vs)) \<Longrightarrow> keeps P (args d g vs)"
  "keeps P h \<Longrightarrow> keeps P (with_args vs h)"
  unfolding args1_def args_def with_args_def by (intro keeps keeps_prod, simp)+

lemma keeps_handler:
  assumes "method_handler E me name vs = Some h" "name \<noteq> ''CreateComparison''"
  shows "keeps (ok0 me) h"
  using assms unfolding method_handler_def Let_def
  by (auto split: if_split_asm intro!: keeps_arguments keeps_simple_requests keeps_delete_config keeps_delete_snapshots
      keeps_create_post keeps_delete_comparison keeps_get_files)

lemma settles_handler:
  assumes "method_handler E me name vs = Some h"
  shows "settles (name = ''CreateComparison'') me h"
proof (cases "name = ''CreateComparison''")
  case True
  then have "h = with_args vs (args dec_string (\<lambda>c. args dec_u32 (\<lambda>n. args1 dec_u32 (create_comparison_begin E me c n))) vs)"
    using assms by (simp add: method_handler_def)
  then show ?thesis using True by (simp add: settles_with_args settles_args settles_begin)
next
  case False
  then show ?thesis by (intro settles_once once_handler [OF assms] keeps_handler [OF assms])
qed

lemma emit_answer: "emit (Error me n t) s = (Inr (), s\<lparr>sv_out := sv_out s @ [Error me n t]\<rparr>)"
  "answers (s\<lparr>sv_out := sv_out s @ [Error me n t]\<rparr>) = answers s @ [me]"
  "ok0 me (s\<lparr>sv_out := xs\<rparr>) = ok0 me s"
  by (simp_all add: emit_def answers_def map_filter_append map_filter_simps okc_def idle_def okx_core)

lemma settled_answering:
  assumes "settles b me h" "ok0 me s"
  shows "case answering me h s of
     (Inl x, s') \<Rightarrow> (x = ThreadInterrupted \<or> x = Diverges) \<and> answers s' = answers s
   | (Inr u, s') \<Rightarrow> answers s' = answers s @ [me] \<and> ok0 me s' \<or> b \<and> answers s' = answers s \<and> in_comparison me s'"
proof -
  obtain r s1 where h: "h s = (r, s1)" by fastforce
  have "case (r, s1) of (Inl x, s') \<Rightarrow> answers s' = answers s \<and> ok0 me s'
   | (Inr u, s') \<Rightarrow> answers s' = answers s @ [me] \<and> ok0 me s' \<or> b \<and> answers s' = answers s \<and> in_comparison me s'"
    using assms(1) [unfolded settles_def, rule_format, OF assms(2)] by (simp only: h)
  then show ?thesis using h by (cases r) (auto simp: answering_def case_prod_beta emit_answer)
qed

lemma settled_dispatch:
  assumes "ok0 me s"
  shows "case dispatch E me msg s of
     (Inl x, s') \<Rightarrow> (x = ThreadInterrupted \<or> x = Diverges) \<and> answers s' = answers s
   | (Inr u, s') \<Rightarrow> answers s' = answers s @ [me] \<and> ok0 me s'
       \<or> ms_member msg = ''CreateComparison'' \<and> answers s' = answers s \<and> in_comparison me s'"
proof (cases "if ms_interface msg = INTERFACE then method_handler E me (ms_member msg) (ms_args msg) else None")
  case None
  then show ?thesis using assms by (simp add: dispatch_def emit_answer)
next
  case (Some h)
  then have "method_handler E me (ms_member msg) (ms_args msg) = Some h" by (simp split: if_splits)
  from settled_answering [OF settles_handler [OF this] assms] show ?thesis using Some by (simp add: dispatch_def)
qed

subsection \<open>The events of a client's thread\<close>

lemma settled_finish:
  assumes "okS s" "find_client me s = Some c" "cl_pending c = Some p"
  shows "case client_finish E me s of
     (Inl x, s') \<Rightarrow> (x = ThreadInterrupted \<or> x = Diverges) \<and> answers s' = answers s
   | (Inr u, s') \<Rightarrow> answers s' = answers s @ [me] \<and> ok0 me s'"
proof -
  have "once me (finallyS (create_comparison_body E me p) (dec_use_count (pd_meta p)))"
    by (intro once_finally once_comparison quiet_ops) (simp add: dec_use_count_def)
  then have o: "once me (create_comparison_end E me p)"
    unfolding create_comparison_end_def by (intro once_bind quiet_ops)
  obtain r s1 where e: "create_comparison_end E me p s = (r, s1)" by fastforce
  have a: "answers s1 = answers s @ (if isl r then [] else [me])" using o e unfolding once_def by (metis fst_conv snd_conv)
  have f: "client_finish E me s = answering me (create_comparison_end E me p) s" using assms(2,3) by (simp add: client_finish_def)
  show ?thesis
    using client_finish_idle [OF assms, of E] a e unfolding f
    by (cases r) (auto simp: answering_def case_prod_beta emit_answer)
qed

text \<open>What a step of a client's thread that starts with one request to answer does: it is answered, or a comparison is in
  progress, which only a request that \<open>begins\<close> one leaves; an interruption and a request that never ends are not
  answered.\<close>

definition answered_or_begun :: "bool \<Rightarrow> string \<Rightarrow> server \<Rightarrow> (exn + unit) \<times> server \<Rightarrow> bool" where
  "answered_or_begun begins me s rs \<longleftrightarrow> (case rs of
       (Inl x, s') \<Rightarrow> (x = ThreadInterrupted \<or> x = Diverges) \<and> answers s' = answers s
     | (Inr u, s') \<Rightarrow> answers s' = answers s @ [me] \<and> \<not> in_comparison me s'
         \<or> begins \<and> answers s' = answers s \<and> in_comparison me s')"

lemma answered_work:
  assumes "reachable E s" "find_client me s = Some c" "cl_pending c = None" "cl_tasks c = msg # rest"
  shows "answered_or_begun (ms_member msg = ''CreateComparison'') me s (run_event E (Work me) s)"
proof -
  have ok: "okS s" using reachable_ok [OF assms(1)] by (simp add: server_ok_def)
  let ?s1 = "upd_client me (\<lambda>c. c\<lparr>cl_tasks := rest\<rparr>) s"
  have "okS ?s1" using okS_silent [OF silent_tasks [of me "\<lambda>_. rest"] ok] by simp
  moreover have "clients_core ?s1 = clients_core s"
    using silentD(4) [OF silent_tasks [of me "\<lambda>_. rest"], of s] by simp
  ultimately have 1: "ok0 me ?s1" using find_client_core [OF assms(2)] assms(3) by (auto simp: okc_def idle_def)
  have a: "answers ?s1 = answers s" by (simp add: answers_def upd_client_def)
  have "run_event E (Work me) s = dispatch E me msg ?s1" using assms(2,4) by (simp add: client_work_def)
  then show ?thesis
    using settled_dispatch [OF 1, where E = E and msg = msg] ok0_idle unfolding a answered_or_begun_def
    by (auto split: prod.splits sum.splits)
qed

lemma finish_cases:
  assumes "reachable E s" "find_client me s = Some c" "cl_pending c \<noteq> None"
  shows "case client_finish E' me s of
     (Inl x, s') \<Rightarrow> (x = ThreadInterrupted \<or> x = Diverges) \<and> answers s' = answers s
   | (Inr u, s') \<Rightarrow> answers s' = answers s @ [me] \<and> ok0 me s'"
proof -
  obtain p where "cl_pending c = Some p" using assms(3) by blast
  moreover have "okS s" using reachable_ok [OF assms(1)] by (simp add: server_ok_def)
  ultimately show ?thesis by (intro settled_finish [OF _ assms(2)])
qed

text \<open>C25. Every request that is not interrupted and ends is answered exactly once, to its sender.  When the thread of a
  client takes a message, whatever goes wrong in it, the request is answered once, by a reply or an error, and nothing is
  left to do; or, for \<open>CreateComparison\<close> only, it is not answered yet and a comparison is in progress, which the second
  part of the request ends with the one answer.  Nothing is answered when the thread is interrupted or a request does
  not end; the interruption of a comparison, which happens only after its client has gone, answers at most once.\<close>
theorem every_request_is_answered_once:
  assumes "reachable E s" "find_client me s = Some c"
  shows "(\<forall>msg rest. cl_pending c = None \<and> cl_tasks c = msg # rest \<longrightarrow>
        answered_or_begun (ms_member msg = ''CreateComparison'') me s (run_event E (Work me) s))
   \<and> (cl_pending c \<noteq> None \<longrightarrow> answered_or_begun False me s (run_event E (Finish me) s))
   \<and> (cl_pending c \<noteq> None \<longrightarrow> answers (snd (run_event E (Interrupt me) s)) \<in> {answers s, answers s @ [me]})"
proof (intro conjI allI impI)
  show "answered_or_begun (ms_member msg = ''CreateComparison'') me s (run_event E (Work me) s)"
    if "cl_pending c = None \<and> cl_tasks c = msg # rest" for msg rest
    using answered_work [OF assms] that by blast
  show "answered_or_begun False me s (run_event E (Finish me) s)" if "cl_pending c \<noteq> None"
    using finish_cases [OF assms that, of E] ok0_idle unfolding answered_or_begun_def by (auto split: prod.splits sum.splits)
  show "answers (snd (run_event E (Interrupt me) s)) \<in> {answers s, answers s @ [me]}" if "cl_pending c \<noteq> None"
    using finish_cases [OF assms that, of "E\<lparr>se_cmp := interrupted_walk\<rparr>"]
    by (auto simp: client_interrupt_def catchS_def answers_def upd_client_def split: prod.splits sum.splits)
qed

definition asked_ex :: server where
  "asked_ex = server_ex\<lparr>sv_clients := [(new_client '':1.2'')\<lparr>cl_tasks := [request_ex '':1.2'' ''ListConfigs'' []]\<rparr>],
     sv_idle_timeout := - 1\<rparr>"

lemma asked_reachable: "reachable senv_ex asked_ex"
proof (rule reachable.step [OF reachable_ex, of "Call (request_ex '':1.2'' ''ListConfigs'' [])"])
  show "run_event senv_ex (Call (request_ex '':1.2'' ''ListConfigs'' [])) server_ex = (Inr (), asked_ex)"
    by (simp add: method_call_def request_ex_def INTERFACE_def find_client_def upd_client_def asked_ex_def server_ex_def new_client_def)
qed simp

lemma every_request_is_answered_once_witness:
  "\<exists>s1. run_event senv_ex (Work '':1.2'') asked_ex = (Inr (), s1) \<and> answers s1 = ['':1.2'']"
proof -
  have f: "find_client '':1.2'' asked_ex = Some ((new_client '':1.2'')\<lparr>cl_tasks := [request_ex '':1.2'' ''ListConfigs'' []]\<rparr>)"
    by (simp add: find_client_def asked_ex_def new_client_def)
  have "answered_or_begun (ms_member (request_ex '':1.2'' ''ListConfigs'' []) = ''CreateComparison'') '':1.2'' asked_ex
      (run_event senv_ex (Work '':1.2'') asked_ex)"
    using every_request_is_answered_once [OF asked_reachable f] by (simp add: new_client_def)
  moreover have "\<exists>s1. run_event senv_ex (Work '':1.2'') asked_ex = (Inr (), s1)"
    using f by (simp add: client_work_def dispatch_def request_ex_def method_handler_def answering_def list_configs_def
        reply_def emit_def catchS_def new_client_def)
  moreover have "answers asked_ex = []" by (simp add: answers_def asked_ex_def server_ex_def map_filter_def)
  ultimately show ?thesis by (auto simp: answered_or_begun_def request_ex_def)
qed

end
