(* ===== verification/ServerTypes.thy ===== *)
theory ServerTypes
  imports ServerReplies ServerExample ClientCalls
begin

text \<open>
  The types of the answers.  \<open>reply_sig\<close> are the types of the
  interface description but for eight methods, where the server sends something else than the description says;
  \<open>client_reads\<close> says that the client's function for the method takes the reply for what the server has sent.
  The operations below the requests send no answer, so that \<open>types_since\<close> is one more predicate that is \<open>inert\<close>.
\<close>

definition reply_types :: "reply \<Rightarrow> string list" where
  "reply_types r = map sig_of (reply_args r)"

text \<open>Where the description differs: lists are sent as arrays, a mount point is a string, and a comparison is answered
  without the number of its files; \<open>Debug\<close> is not described.\<close>

definition undeclared :: "(string \<times> string list) list" where
  "undeclared = [(''ListConfigs'', [''a(ssa{ss})'']), (''ListSnapshots'', [''a(uquxussa{ss})'']),
     (''ListSnapshotsAtTime'', [''a(uquxussa{ss})'']), (''GetFiles'', [''a(su)'']), (''MountSnapshot'', [''s'']),
     (''GetMountPoint'', [''s'']), (''CreateComparison'', []), (''Debug'', [''as''])]"

definition reply_sig :: "string \<Rightarrow> string list" where
  "reply_sig member = (case map_of undeclared member of
       Some ts \<Rightarrow> ts | None \<Rightarrow> (case declared_out member of Some ts \<Rightarrow> ts | None \<Rightarrow> []))"

definition types_since :: "nat \<Rightarrow> string list \<Rightarrow> server \<Rightarrow> bool" where
  "types_since n T s \<longleftrightarrow> n \<le> length (sv_out s) \<and> (\<forall>me r. Reply me r \<in> set (drop n (sv_out s)) \<longrightarrow> reply_types r = T \<and> (\<forall>t. r \<noteq> RXml t))"

interpretation types: inert E "types_since n T" for E n T
  by unfold_locales (auto simp: types_since_def)

lemma reply_types [simp]:
  "reply_types RUnit = []" "reply_types (RNum k) = [''u'']" "reply_types (RString t) = [''s'']"
  "reply_types (RConfig c) = [''(ssa{ss})'']" "reply_types (RConfigs cs) = [''a(ssa{ss})'']"
  "reply_types (RSnapshot sn) = [''(uquxussa{ss})'']" "reply_types (RSnapshots es) = [''a(uquxussa{ss})'']"
  "reply_types (RFiles fs) = [''a(su)'']" "reply_types (RDebug ts) = [''as'']"
  by (simp_all add: reply_types_def enc_u32_def sig_enc_string configc.sig_enc snapshotc.sig_enc enc_array_def
      config_sig_def snapshot_sig_def file_sig_def)

lemma types_reply: "reply_types r = T \<Longrightarrow> (\<And>t. r \<noteq> RXml t) \<Longrightarrow> keeps (types_since n T) (reply me r)"
  by (auto simp: keeps_def reply_def emit_def types_since_def)

lemma types_modify: "(\<And>s. sv_out (f s) = sv_out s) \<Longrightarrow> keeps (types_since n T) (modifyS f)"
  by (simp add: keeps_def types_since_def)

lemma types_emit: "(\<And>me r. x = Reply me r \<Longrightarrow> reply_types r = T \<and> (\<forall>t. r \<noteq> RXml t)) \<Longrightarrow> keeps (types_since n T) (emit x)"
  by (auto simp: keeps_def emit_def types_since_def)

lemmas types_rules = keeps keeps_prod types_emit types.inert_keeps types.with_loaded types_reply types_modify

lemma types_requests:
  "keeps (types_since n [''a(ssa{ss})'']) (list_configs me)" "keeps (types_since n [''(ssa{ss})'']) (get_config E me c)"
  "keeps (types_since n []) (lock_config E me c)" "keeps (types_since n []) (unlock_config E me c)"
  "keeps (types_since n []) (create_config E me c d t n')" "keeps (types_since n []) (delete_config E me c)"
  "keeps (types_since n [''a(uquxussa{ss})'']) (list_snapshots E me c)"
  "keeps (types_since n [''a(uquxussa{ss})'']) (list_snapshots_at_time E me c tb te)"
  "keeps (types_since n [''(uquxussa{ss})'']) (get_snapshot E me c num)" "keeps (types_since n []) (set_snapshot E me c num ds cl ud)"
  "keeps (types_since n [''u'']) (create_single_snapshot E me c ds cl ud)"
  "keeps (types_since n [''u'']) (create_pre_snapshot E me c ds cl ud)"
  "keeps (types_since n [''u'']) (create_post_snapshot E me c num ds cl ud)"
  "keeps (types_since n []) (delete_snapshots E me c ns)" "keeps (types_since n [''s'']) (mount_snapshot E me c num u)"
  "keeps (types_since n []) (umount_snapshot E me c num u)" "keeps (types_since n [''s'']) (get_mount_point E me c num)"
  "keeps (types_since n [''as'']) (debug E me)" "keeps (types_since n []) (delete_comparison E me c num num2)"
  "keeps (types_since n [''a(su)'']) (get_files E me c num num2)"
  "keeps (types_since n T) (create_comparison_begin E me c num num2)"
  "keeps (types_since n []) (create_comparison_body E me p)"
  unfolding list_configs_def get_config_def lock_config_def unlock_config_def create_config_def delete_config_def
    list_snapshots_def list_snapshots_at_time_def get_snapshot_def set_snapshot_def create_single_snapshot_def
    create_pre_snapshot_def create_post_snapshot_def delete_snapshots_def mount_snapshot_def umount_snapshot_def
    get_mount_point_def debug_def delete_comparison_def get_files_def with_comparison_def create_comparison_begin_def
    create_comparison_body_def
  by (intro types_rules; simp)+

lemma types_args:
  "(\<And>a. keeps P (f a)) \<Longrightarrow> keeps P (args1 d f vs)" "(\<And>a vs. keeps P (g a vs)) \<Longrightarrow> keeps P (args d g vs)"
  "keeps P h \<Longrightarrow> keeps P (with_args vs h)"
  unfolding args1_def args_def with_args_def by (intro keeps keeps_prod, simp)+

lemma reply_sigs:
  "reply_sig ''ListConfigs'' = [''a(ssa{ss})'']" "reply_sig ''CreateConfig'' = []" "reply_sig ''GetConfig'' = [''(ssa{ss})'']"
  "reply_sig ''DeleteConfig'' = []" "reply_sig ''LockConfig'' = []" "reply_sig ''UnlockConfig'' = []"
  "reply_sig ''ListSnapshots'' = [''a(uquxussa{ss})'']" "reply_sig ''ListSnapshotsAtTime'' = [''a(uquxussa{ss})'']"
  "reply_sig ''GetSnapshot'' = [''(uquxussa{ss})'']" "reply_sig ''SetSnapshot'' = []"
  "reply_sig ''CreateSingleSnapshot'' = [''u'']" "reply_sig ''CreatePreSnapshot'' = [''u'']"
  "reply_sig ''CreatePostSnapshot'' = [''u'']" "reply_sig ''DeleteSnapshots'' = []" "reply_sig ''MountSnapshot'' = [''s'']"
  "reply_sig ''UmountSnapshot'' = []" "reply_sig ''GetMountPoint'' = [''s'']" "reply_sig ''CreateComparison'' = []"
  "reply_sig ''DeleteComparison'' = []" "reply_sig ''GetFiles'' = [''a(su)'']" "reply_sig ''Debug'' = [''as'']"
  by (simp_all add: reply_sig_def undeclared_def declared_out_def bus_methods_def)

lemma types_handler:
  assumes "method_handler E me name vs = Some h"
  shows "keeps (types_since n (reply_sig name)) h"
  using assms unfolding method_handler_def Let_def
  by (auto simp: reply_sigs split: if_split_asm intro!: types_args types_requests)

lemma types_answering: "keeps (types_since n T) h \<Longrightarrow> keeps (types_since n T) (answering me h)"
  unfolding answering_def by (intro types_rules) auto

lemma types_dispatch: "keeps (types_since n (reply_sig (ms_member msg))) (dispatch E me msg)"
  unfolding dispatch_def by (intro types_rules types_answering types_handler) (auto split: if_splits)

lemma types_finish: "keeps (types_since n (reply_sig ''CreateComparison'')) (client_finish E me)"
  unfolding client_finish_def create_comparison_end_def reply_sigs
  by (intro types_rules types_answering keeps_finally types_requests)

subsection \<open>What the client reads\<close>

text \<open>The strings of a reply have no NUL character, and its maps are ordered, as all maps of the program are.\<close>

fun reply_ok :: "reply \<Rightarrow> bool" where
  "reply_ok (RString t) = no_nul t"
| "reply_ok (RConfig c) = config_ok (to_xconfig c)"
| "reply_ok (RConfigs cs) = list_all (\<lambda>c. config_ok (to_xconfig c)) cs"
| "reply_ok (RSnapshot sn) = snapshot_ok (to_xsnapshot sn)"
| "reply_ok (RSnapshots es) = list_all (\<lambda>e. snapshot_ok (to_xsnapshot e)) es"
| "reply_ok (RFiles fs) = list_all (\<lambda>f. no_nul (xf_name (to_xfile f))) fs"
| "reply_ok (RDebug ts) = list_all no_nul ts"
| "reply_ok _ = True"

text \<open>The function of the client that calls a method, with any arguments and in any state, when the bus answers with the
  reply.\<close>

definition answers_with :: "reply \<Rightarrow> unit peer" where
  "answers_with x member vs s = (Inr (reply_args x), s)"

definition client_reads :: "string \<Rightarrow> reply \<Rightarrow> bool" where
  "client_reads member x \<longleftrightarrow> (\<forall>c cfg sub fs t n n2 d cl ud xs ns b. let P = answers_with x in
     if member = ''ListConfigs'' then \<exists>cs. x = RConfigs cs \<and> fst (command_list_xconfigs P c) = Inr (map to_xconfig cs)
     else if member = ''GetConfig'' then \<exists>ci. x = RConfig ci \<and> fst (command_get_xconfig P cfg c) = Inr (to_xconfig ci)
     else if member = ''CreateConfig'' then x = RUnit \<and> fst (command_create_xconfig P cfg sub fs t c) = Inr ()
     else if member = ''DeleteConfig'' then x = RUnit \<and> fst (command_delete_xconfig P cfg c) = Inr ()
     else if member = ''ListSnapshots'' then
       \<exists>es. x = RSnapshots es \<and> fst (command_list_xsnapshots P cfg c) = Inr (map to_xsnapshot es)
     else if member = ''GetSnapshot'' then \<exists>sn. x = RSnapshot sn \<and> fst (command_get_xsnapshot P cfg n c) = Inr (to_xsnapshot sn)
     else if member = ''SetSnapshot'' then x = RUnit \<and> fst (command_set_xsnapshot P cfg n xs c) = Inr ()
     else if member = ''CreateSingleSnapshot'' then
       \<exists>k. x = RNum k \<and> fst (command_create_single_xsnapshot P cfg d cl ud c) = Inr k
     else if member = ''CreatePreSnapshot'' then \<exists>k. x = RNum k \<and> fst (command_create_pre_xsnapshot P cfg d cl ud c) = Inr k
     else if member = ''CreatePostSnapshot'' then
       \<exists>k. x = RNum k \<and> fst (command_create_post_xsnapshot P cfg n d cl ud c) = Inr k
     else if member = ''DeleteSnapshots'' then x = RUnit \<and> fst (command_delete_xsnapshots P cfg ns c) = Inr ()
     else if member = ''MountSnapshot'' then \<exists>p. x = RString p \<and> fst (command_mount_xsnapshots P cfg n b c) = Inr p
     else if member = ''UmountSnapshot'' then x = RUnit \<and> fst (command_umount_xsnapshots P cfg n b c) = Inr ()
     else if member = ''GetMountPoint'' then \<exists>p. x = RString p \<and> fst (command_get_xmount_point P cfg n c) = Inr p
     else if member = ''CreateComparison'' then x = RUnit \<and> fst (command_create_xcomparison P cfg n n2 c) = Inr ()
     else if member = ''GetFiles'' then \<exists>fl. x = RFiles fl \<and> fst (command_get_xfiles P cfg n n2 c) = Inr (map to_xfile fl)
     else if member = ''Debug'' then \<exists>ts. x = RDebug ts \<and> fst (command_xdebug P c) = Inr ts
     else True)"

lemma of_types:
  "reply_types x = [] \<Longrightarrow> x = RUnit"
  "reply_types x = [''u''] \<Longrightarrow> \<exists>k. x = RNum k"
  "reply_types x = [''s''] \<Longrightarrow> \<forall>t. x \<noteq> RXml t \<Longrightarrow> \<exists>t. x = RString t"
  "reply_types x = [''(ssa{ss})''] \<Longrightarrow> \<exists>c. x = RConfig c"
  "reply_types x = [''a(ssa{ss})''] \<Longrightarrow> \<exists>cs. x = RConfigs cs"
  "reply_types x = [''(uquxussa{ss})''] \<Longrightarrow> \<exists>sn. x = RSnapshot sn"
  "reply_types x = [''a(uquxussa{ss})''] \<Longrightarrow> \<exists>es. x = RSnapshots es"
  "reply_types x = [''a(su)''] \<Longrightarrow> \<exists>fs. x = RFiles fs"
  "reply_types x = [''as''] \<Longrightarrow> \<exists>ts. x = RDebug ts"
  by (cases x; simp add: reply_types_def [of "RXml _"])+

lemma call_answered:
  "fst (bindS (bus_call (answers_with x) m vs) f c) = fst (f (reply_args x) (c\<lparr>cn_peer := cn_peer c, cn_calls := cn_calls c @ [(m, vs)]\<rparr>))"
  by (simp add: bus_call_def answers_with_def bindS_def)

lemma decode_answer:
  "d v = Inr a \<Longrightarrow> fst (decode d [v] c) = Inr a" "fst (no_reply vs c) = Inr ()"
  by (simp_all add: decode_def no_reply_def)

lemma reply_decoded:
  "dec_u32 (enc_u32 k) = Inr k" "reply_ok (RString t) \<Longrightarrow> dec_string (enc_string t) = Inr t"
  "reply_ok (RConfig c) \<Longrightarrow> dec_config (enc_config (to_xconfig c)) = Inr (to_xconfig c)"
  "reply_ok (RConfigs cs) \<Longrightarrow>
     dec_array config_sig dec_config (enc_array config_sig enc_config (map to_xconfig cs)) = Inr (map to_xconfig cs)"
  "reply_ok (RSnapshot sn) \<Longrightarrow> dec_snapshot (enc_snapshot (to_xsnapshot sn)) = Inr (to_xsnapshot sn)"
  "reply_ok (RSnapshots es) \<Longrightarrow>
     dec_array snapshot_sig dec_snapshot (enc_array snapshot_sig enc_snapshot (map to_xsnapshot es)) = Inr (map to_xsnapshot es)"
  "reply_ok (RFiles fs) \<Longrightarrow> dec_array file_sig dec_file (enc_array file_sig enc_file (map to_xfile fs)) = Inr (map to_xfile fs)"
  "reply_ok (RDebug ts) \<Longrightarrow> dec_array ''s'' dec_string (enc_array ''s'' enc_string ts) = Inr ts"
  by (simp_all add: u32c.dec_enc strc.dec_enc configc.dec_enc snapshotc.dec_enc configc.dec_array_enc_array
      snapshotc.dec_array_enc_array filec.dec_array_enc_array strc.dec_array_enc_array list_all_iff)

lemmas client_commands = command_list_xconfigs_def command_get_xconfig_def command_create_xconfig_def command_delete_xconfig_def
  command_list_xsnapshots_def command_get_xsnapshot_def command_set_xsnapshot_def command_create_single_xsnapshot_def
  command_create_pre_xsnapshot_def command_create_post_xsnapshot_def command_delete_xsnapshots_def command_mount_xsnapshots_def
  command_umount_xsnapshots_def command_get_xmount_point_def command_create_xcomparison_def command_get_xfiles_def
  command_xdebug_def

lemma reads:
  "reply_ok (RConfigs a0) \<Longrightarrow> client_reads ''ListConfigs'' (RConfigs a0)"
  "reply_ok (RConfig a1) \<Longrightarrow> client_reads ''GetConfig'' (RConfig a1)"
  "client_reads ''CreateConfig'' RUnit"
  "client_reads ''DeleteConfig'' RUnit"
  "reply_ok (RSnapshots a4) \<Longrightarrow> client_reads ''ListSnapshots'' (RSnapshots a4)"
  "reply_ok (RSnapshot a5) \<Longrightarrow> client_reads ''GetSnapshot'' (RSnapshot a5)"
  "client_reads ''SetSnapshot'' RUnit"
  "client_reads ''CreateSingleSnapshot'' (RNum a7)"
  "client_reads ''CreatePreSnapshot'' (RNum a8)"
  "client_reads ''CreatePostSnapshot'' (RNum a9)"
  "client_reads ''DeleteSnapshots'' RUnit"
  "reply_ok (RString a11) \<Longrightarrow> client_reads ''MountSnapshot'' (RString a11)"
  "client_reads ''UmountSnapshot'' RUnit"
  "reply_ok (RString a13) \<Longrightarrow> client_reads ''GetMountPoint'' (RString a13)"
  "client_reads ''CreateComparison'' RUnit"
  "reply_ok (RFiles a15) \<Longrightarrow> client_reads ''GetFiles'' (RFiles a15)"
  "reply_ok (RDebug a16) \<Longrightarrow> client_reads ''Debug'' (RDebug a16)"
  by (simp_all only: client_reads_def client_commands call_answered reply_args.simps decode_answer reply_decoded list.inject
      char.inject list.distinct simp_thms if_True if_False Let_def HOL.ex_simps reply.inject)

lemma typed_is_read:
  assumes "reply_types x = reply_sig member" "\<forall>t. x \<noteq> RXml t" "reply_ok x"
  shows "client_reads member x"
proof (cases "member \<in> set [''ListConfigs'', ''GetConfig'', ''CreateConfig'', ''DeleteConfig'', ''ListSnapshots'', ''GetSnapshot'', ''SetSnapshot'', ''CreateSingleSnapshot'', ''CreatePreSnapshot'', ''CreatePostSnapshot'', ''DeleteSnapshots'', ''MountSnapshot'', ''UmountSnapshot'', ''GetMountPoint'', ''CreateComparison'', ''GetFiles'', ''Debug'']")
  case True
  then have "client_reads member x"
    using assms unfolding list.set insert_iff empty_iff simp_thms
    by (elim disjE; clarsimp simp: reply_sigs dest!: of_types intro!: reads)
  then show ?thesis .
next
  case False
  then show ?thesis by (simp add: client_reads_def)
qed

text \<open>C15. The answers of the server are typed, and the client reads what was sent: every reply that a message leads to
  has the declared types, but for eight methods the ones listed as undeclared, and so has the reply of the second part of
  \<open>CreateComparison\<close>; and for each of the methods that the client calls, its function for the method, given this reply
  with no NUL character in its strings, returns the value that the server has put into it.\<close>
theorem replies_are_typed:
  "(dispatch E me msg s = (r, s1) \<and> Reply you x \<in> set (drop (length (sv_out s)) (sv_out s1))
      \<longrightarrow> map sig_of (reply_args x) = reply_sig (ms_member msg) \<and> (reply_ok x \<longrightarrow> client_reads (ms_member msg) x))
   \<and> (client_finish E me s = (r', s2) \<and> Reply you x \<in> set (drop (length (sv_out s)) (sv_out s2))
      \<longrightarrow> map sig_of (reply_args x) = reply_sig ''CreateComparison'' \<and> (reply_ok x \<longrightarrow> client_reads ''CreateComparison'' x))
   \<and> (member \<in> fst ` set bus_methods - fst ` set undeclared \<longrightarrow> declared_out member = Some (reply_sig member))"
proof -
  have 0: "types_since (length (sv_out s)) T s" for T by (simp add: types_since_def)
  have 1: "types_since (length (sv_out s)) (reply_sig (ms_member msg)) s1" if "dispatch E me msg s = (r, s1)"
    by (rule keepsD [OF types_dispatch 0 that])
  have 2: "types_since (length (sv_out s)) (reply_sig ''CreateComparison'') s2" if "client_finish E me s = (r', s2)"
    by (rule keepsD [OF types_finish 0 that])
  have 3: "declared_out member = Some (reply_sig member)" if "member \<in> fst ` set bus_methods - fst ` set undeclared"
  proof -
    have "map_of undeclared member = None" using that by (auto simp: map_of_eq_None_iff)
    moreover have "map_of bus_methods member \<noteq> None" using that by (auto simp: map_of_eq_None_iff)
    ultimately show ?thesis by (auto simp: reply_sig_def declared_out_def)
  qed
  have 4: "map sig_of (reply_args x) = reply_sig m \<and> (reply_ok x \<longrightarrow> client_reads m x)"
    if "types_since (length (sv_out s)) (reply_sig m) s'" "Reply you x \<in> set (drop (length (sv_out s)) (sv_out s'))" for m s'
    using that typed_is_read unfolding types_since_def reply_types_def by blast
  show ?thesis using 1 2 3 4 by blast
qed

lemma replies_are_typed_witness:
  "\<exists>s1 x. dispatch senv_ex '':1.2'' (request_ex '':1.2'' ''ListConfigs'' []) server_ex = (Inr (), s1)
    \<and> Reply '':1.2'' x \<in> set (sv_out s1) \<and> map sig_of (reply_args x) = [''a(ssa{ss})'']"
proof -
  have "\<exists>s1 x. dispatch senv_ex '':1.2'' (request_ex '':1.2'' ''ListConfigs'' []) server_ex = (Inr (), s1)
      \<and> Reply '':1.2'' x \<in> set (sv_out s1)"
    by (auto simp: dispatch_def request_ex_def method_handler_def answering_def list_configs_def reply_def emit_def catchS_def)
  then obtain s1 x where d: "dispatch senv_ex '':1.2'' (request_ex '':1.2'' ''ListConfigs'' []) server_ex = (Inr (), s1)"
    and x: "Reply '':1.2'' x \<in> set (sv_out s1)" by blast
  moreover have "sv_out server_ex = []" by (simp add: server_ex_def)
  ultimately show ?thesis
    using replies_are_typed [of senv_ex "'':1.2''" "request_ex '':1.2'' ''ListConfigs'' []" server_ex "Inr ()" s1]
    by (auto simp: request_ex_def reply_sigs)
qed

end
