(* ===== verification/MainLoop.thy ===== *)
theory MainLoop
  imports ServerReplies
begin

text \<open>
  The main loop of the service (\<open>dbus/DBusMainLoop.cc\<close> with the handlers of \<open>server/snapperd.cc\<close>): the watches and
  timeouts that libdbus registers, the time to wait in \<open>poll\<close>, one round of the loop, and the end of the service when
  it is idle.  What \<open>poll\<close> reports and which messages libdbus reads when a watch is handled are parameters of a round;
  the clock is the monotonic one.  Handling a watch does not change the watches.
\<close>

subsection \<open>Watches and timeouts\<close>

definition POLLIN :: u32 where "POLLIN = 1"
definition POLLOUT :: u32 where "POLLOUT = 4"
definition DBUS_WATCH_READABLE :: u32 where "DBUS_WATCH_READABLE = 1"
definition DBUS_WATCH_WRITABLE :: u32 where "DBUS_WATCH_WRITABLE = 2"

text \<open>The objects of libdbus, as their getters show them; a pointer to one is its number.\<close>

record dbus_watch =
  dw_id :: nat
  dw_enabled :: bool
  dw_fd :: int
  dw_flags :: u32

record dbus_timeout =
  dt_id :: nat
  dt_enabled :: bool
  dt_interval :: int

record watch =
  wa_enabled :: bool
  wa_fd :: int
  wa_flags :: u32
  wa_events :: u32
  wa_id :: nat

record timeout_rec =
  ti_enabled :: bool
  ti_interval :: int
  ti_id :: nat

datatype in_message =
    MethodCall message
  | Signal string string string "dval list"
  | OtherMessage

text \<open>The main loop; the idle timeout is part of the server.\<close>

record main_loop =
  ml_watches :: "watch list"
  ml_timeouts :: "timeout_rec list"
  ml_wakeup_fd :: int
  ml_wakeups :: nat
  ml_last_action :: int
  ml_matches :: "string list"
  ml_incoming :: "in_message list"

type_synonym 'a loop_step = "(server \<times> main_loop, 'a) step"

definition find_watch :: "nat \<Rightarrow> watch list \<Rightarrow> nat res" where
  "find_watch k ws = (let i = find_idx (\<lambda>w. wa_id w = k) ws in if i = length ws then Inl FatalException else Inr i)"

definition find_timeout :: "nat \<Rightarrow> timeout_rec list \<Rightarrow> nat res" where
  "find_timeout k ts = (let i = find_idx (\<lambda>t. ti_id t = k) ts in if i = length ts then Inl FatalException else Inr i)"

definition events_of :: "u32 \<Rightarrow> u32" where
  "events_of flags = (if flags AND DBUS_WATCH_READABLE \<noteq> 0 then POLLIN else 0)
     OR (if flags AND DBUS_WATCH_WRITABLE \<noteq> 0 then POLLOUT else 0)"

definition add_watch :: "dbus_watch \<Rightarrow> main_loop \<Rightarrow> main_loop" where
  "add_watch d l = l\<lparr>ml_watches := ml_watches l @ [\<lparr>wa_enabled = dw_enabled d, wa_fd = dw_fd d, wa_flags = dw_flags d,
     wa_events = events_of (dw_flags d), wa_id = dw_id d\<rparr>]\<rparr>"

definition remove_watch :: "dbus_watch \<Rightarrow> main_loop \<Rightarrow> main_loop res" where
  "remove_watch d l = bindR (find_watch (dw_id d) (ml_watches l)) (\<lambda>i. Inr (l\<lparr>ml_watches := drop_nth i (ml_watches l)\<rparr>))"

definition toggled_watch :: "dbus_watch \<Rightarrow> main_loop \<Rightarrow> main_loop res" where
  "toggled_watch d l = bindR (find_watch (dw_id d) (ml_watches l)) (\<lambda>i.
     Inr (l\<lparr>ml_watches := (ml_watches l)[i := (ml_watches l ! i)\<lparr>wa_enabled := dw_enabled d\<rparr>]\<rparr>))"

definition add_timeout :: "dbus_timeout \<Rightarrow> main_loop \<Rightarrow> main_loop" where
  "add_timeout d l = l\<lparr>ml_timeouts := ml_timeouts l @ [\<lparr>ti_enabled = dt_enabled d, ti_interval = dt_interval d, ti_id = dt_id d\<rparr>]\<rparr>"

definition remove_timeout :: "dbus_timeout \<Rightarrow> main_loop \<Rightarrow> main_loop res" where
  "remove_timeout d l = bindR (find_timeout (dt_id d) (ml_timeouts l)) (\<lambda>i. Inr (l\<lparr>ml_timeouts := drop_nth i (ml_timeouts l)\<rparr>))"

definition toggled_timeout :: "dbus_timeout \<Rightarrow> main_loop \<Rightarrow> main_loop res" where
  "toggled_timeout d l = bindR (find_timeout (dt_id d) (ml_timeouts l)) (\<lambda>i.
     Inr (l\<lparr>ml_timeouts := (ml_timeouts l)[i := (ml_timeouts l ! i)\<lparr>ti_enabled := dt_enabled d\<rparr>]\<rparr>))"

definition wakeup_main :: "main_loop \<Rightarrow> main_loop" where
  "wakeup_main l = l\<lparr>ml_wakeups := Suc (ml_wakeups l)\<rparr>"

subsection \<open>Messages\<close>

definition onServer :: "(server, 'a) step \<Rightarrow> 'a loop_step" where
  "onServer m st = (case m (fst st) of (r, s) \<Rightarrow> (r, (s, snd st)))"

definition onLoop :: "(main_loop \<Rightarrow> main_loop) \<Rightarrow> unit loop_step" where
  "onLoop f = modifyS (\<lambda>(s, l). (s, f l))"

definition reset_idle_count :: "int \<Rightarrow> unit loop_step" where
  "reset_idle_count now = onLoop (\<lambda>l. l\<lparr>ml_last_action := now\<rparr>)"

definition client_match :: "string \<Rightarrow> string" where
  "client_match name = ''type='' @ xml_quote ''signal'' @ '', sender='' @ xml_quote ''org.freedesktop.DBus''
     @ '', path='' @ xml_quote ''/org/freedesktop/DBus'' @ '', interface='' @ xml_quote ''org.freedesktop.DBus''
     @ '', member='' @ xml_quote ''NameOwnerChanged'' @ '', arg0='' @ xml_quote name"

definition add_client_match :: "string \<Rightarrow> unit loop_step" where
  "add_client_match name = onLoop (\<lambda>l. l\<lparr>ml_matches := ml_matches l @ [client_match name]\<rparr>)"

text \<open>The bus answers the removal of a rule that it does not have by an error.\<close>

definition remove_client_match :: "string \<Rightarrow> unit loop_step" where
  "remove_client_match name = bindS (getS (\<lambda>(s, l). client_match name \<in> set (ml_matches l))) (\<lambda>b.
     thenS (throw_ifS (\<not> b) FatalException) (onLoop (\<lambda>l. l\<lparr>ml_matches := remove1 (client_match name) (ml_matches l)\<rparr>)))"

definition loop_method_call :: "senv \<Rightarrow> int \<Rightarrow> message \<Rightarrow> unit loop_step" where
  "loop_method_call E now msg = thenS (reset_idle_count now)
    (bindS (getS (\<lambda>(s, l). find_client (ms_sender msg) s = None
        \<and> \<not> (ms_interface msg = ''org.freedesktop.DBus.Introspectable'' \<and> ms_member msg = ''Introspect''))) (\<lambda>b.
       thenS (whenS b (add_client_match (ms_sender msg))) (onServer (method_call E msg))))"

definition loop_client_disconnected :: "int \<Rightarrow> string \<Rightarrow> unit loop_step" where
  "loop_client_disconnected now name = thenS (remove_client_match name)
     (thenS (onServer (client_disconnected name)) (reset_idle_count now))"

definition dispatch_incoming :: "senv \<Rightarrow> int \<Rightarrow> in_message \<Rightarrow> unit loop_step" where
  "dispatch_incoming E now m = (case m of
       MethodCall msg \<Rightarrow> loop_method_call E now msg
     | Signal sender interface member vs \<Rightarrow>
         if sender = ''org.freedesktop.DBus'' \<and> interface = ''org.freedesktop.DBus'' \<and> member = ''NameOwnerChanged'' then
           thenS (throw_ifS (vs = []) FatalException)
          (bindS (liftS (get_value dec_string vs)) (\<lambda>(name, vs).
           bindS (liftS (get_value dec_string vs)) (\<lambda>(old_owner, vs).
           bindS (liftS (get_value dec_string vs)) (\<lambda>(new_owner, vs).
             whenS (name = old_owner \<and> new_owner = []) (loop_client_disconnected now name)))))
         else retS ()
     | OtherMessage \<Rightarrow> retS ())"

subsection \<open>A round of the loop\<close>

definition pollfds :: "main_loop \<Rightarrow> (int \<times> u32) list" where
  "pollfds l = (ml_wakeup_fd l, POLLIN) # map (\<lambda>w. (wa_fd w, wa_events w)) (filter wa_enabled (ml_watches l))"

definition time_left :: "int \<Rightarrow> server \<Rightarrow> main_loop \<Rightarrow> int" where
  "time_left now s l = ml_last_action l - now + sv_idle_timeout s"

text \<open>The time in milliseconds that \<open>poll\<close> waits at most; a negative one is no limit.\<close>

definition poll_timeout :: "int \<Rightarrow> server \<Rightarrow> main_loop \<Rightarrow> int" where
  "poll_timeout now s l = (let t = periodic_timeout s; left = time_left now s l in
     if sv_idle_timeout s \<ge> 0 \<and> (t > left * 1000 \<or> t = - 1) then left * 1000 else t)"

definition flags_of :: "u32 \<Rightarrow> u32" where
  "flags_of revents = (if revents AND POLLIN \<noteq> 0 then DBUS_WATCH_READABLE else 0)
     OR (if revents AND POLLOUT \<noteq> 0 then DBUS_WATCH_WRITABLE else 0)"

text \<open>The calls of \<open>dbus_watch_handle\<close> in their order.\<close>

definition handled :: "(int \<Rightarrow> u32) \<Rightarrow> main_loop \<Rightarrow> (nat \<times> u32) list" where
  "handled revents l = concat (map (\<lambda>w. concat (map (\<lambda>(fd, ev).
       if fd = wa_fd w \<and> flags_of (revents fd) \<noteq> 0 then [(wa_id w, flags_of (revents fd))] else []) (pollfds l)))
     (filter wa_enabled (ml_watches l)))"

record poll_round =
  pr_revents :: "int \<Rightarrow> u32"
  pr_reads :: "nat \<times> u32 \<Rightarrow> in_message list"
  pr_now :: int

definition read_wakeup :: "poll_round \<Rightarrow> main_loop \<Rightarrow> main_loop" where
  "read_wakeup p l = (if pr_revents p (ml_wakeup_fd l) AND POLLIN \<noteq> 0 then l\<lparr>ml_wakeups := ml_wakeups l - 1\<rparr> else l)"

definition handle_watches :: "poll_round \<Rightarrow> main_loop \<Rightarrow> main_loop" where
  "handle_watches p l = l\<lparr>ml_incoming := ml_incoming l @ concat (map (pr_reads p) (handled (pr_revents p) l))\<rparr>"

definition pop_message :: "in_message option loop_step" where
  "pop_message = bindS (getS (\<lambda>(s, l). ml_incoming l)) (\<lambda>q. case q of
       [] \<Rightarrow> retS None
     | m # ms \<Rightarrow> thenS (onLoop (\<lambda>l. l\<lparr>ml_incoming := ms\<rparr>)) (retS (Some m)))"

text \<open>What happens after \<open>poll\<close> returns; the result is whether the loop ends.\<close>

definition run_round :: "senv \<Rightarrow> poll_round \<Rightarrow> bool loop_step" where
  "run_round E p = thenS (onServer (periodic E))
    (thenS (onLoop (read_wakeup p))
    (thenS (onLoop (handle_watches p))
    (thenS (bindS pop_message (\<lambda>m. case m of None \<Rightarrow> retS () | Some x \<Rightarrow> dispatch_incoming E (pr_now p) x))
      (getS (\<lambda>(s, l). sv_idle_timeout s \<ge> 0 \<and> time_left (pr_now p) s l \<le> 0)))))"

text \<open>A run: before each round the threads make steps, in the order of a list of events, of which those that are enabled
  happen.\<close>

fun run_threads :: "senv \<Rightarrow> event list \<Rightarrow> (server, unit) step" where
  "run_threads E [] = retS ()"
| "run_threads E (ev # evs) = bindS (getS (\<lambda>s. enabled s ev)) (\<lambda>b. thenS (whenS b (run_event E ev)) (run_threads E evs))"

fun run_loop :: "senv \<Rightarrow> (event list \<times> poll_round) list \<Rightarrow> bool loop_step" where
  "run_loop E [] = retS False"
| "run_loop E (x # xs) = thenS (onServer (run_threads E (fst x)))
     (bindS (run_round E (snd x)) (\<lambda>b. if b then retS True else run_loop E xs))"

definition main_run :: "senv \<Rightarrow> int \<Rightarrow> (event list \<times> poll_round) list \<Rightarrow> bool loop_step" where
  "main_run E now xs = thenS (reset_idle_count now) (run_loop E xs)"

end
