(* ===== verification/MainLoopClaims.thy ===== *)
theory MainLoopClaims
  imports MainLoop ServerExample
begin

text \<open>
  When the service ends: the countdown of the main loop only runs while no client is connected and no background
  comparison waits, so that the loop is left only then and only after the idle time.
\<close>

subsection \<open>The countdown\<close>

definition idle_ok :: "server \<Rightarrow> bool" where
  "idle_ok s \<longleftrightarrow> sv_idle_timeout s = - 1 \<or> sv_idle_timeout s = idle_time \<and> sv_clients s = [] \<and> sv_tasks s = []"

interpretation busy: deaf E "\<lambda>s. sv_idle_timeout s = - 1" for E
  by unfold_locales simp_all

text \<open>What loads, unloads and adds configurations leaves the clients and the tasks alone.\<close>

definition same_users :: "client_rec list \<Rightarrow> btask list \<Rightarrow> int \<Rightarrow> server \<Rightarrow> bool" where
  "same_users cs ts t s \<longleftrightarrow> sv_clients s = cs \<and> sv_tasks s = ts \<and> sv_idle_timeout s = t"

lemma same_users_etc: "keeps (same_users cs ts t) (onEtc m)"
  by (auto simp: keeps_def onEtc_def same_users_def split: prod.split)

lemma same_users_unload: "keeps (same_users cs ts t) (unload E i)"
proof -
  have "keeps (same_users cs ts t) (thenS (onEtc m) (modifyS (upd_meta i f)))" for m :: "(etc, unit) step" and f
    by (intro keeps same_users_etc keeps_modify) (simp add: same_users_def upd_meta_def)
  then show ?thesis by (simp add: keeps_def unload_def split: option.split)
qed

lemma same_users_unused: "keeps (same_users cs ts t) (unload_unused E i)"
  unfolding unload_unused_def by (intro keeps same_users_unload)

lemma same_users_init: "keeps (same_users cs ts t) (metas_init E)"
  unfolding metas_init_def add_meta_def by (intro keeps same_users_etc keeps_modify) (simp add: same_users_def)

lemma idle_unused: "keeps idle_ok (foreachS (unload_unused E) is)"
proof
  fix s assume a: "idle_ok s"
  have "keeps (same_users (sv_clients s) (sv_tasks s) (sv_idle_timeout s)) (foreachS (unload_unused E) is)"
    by (intro keeps same_users_unused)
  then have "same_users (sv_clients s) (sv_tasks s) (sv_idle_timeout s) (snd (foreachS (unload_unused E) is s))"
    by (simp add: keeps_def same_users_def)
  then show "idle_ok (snd (foreachS (unload_unused E) is s))" using a by (simp add: same_users_def idle_ok_def)
qed

lemma idle_periodic: "keeps idle_ok (periodic E)"
proof
  fix s assume a: "idle_ok s"
  obtain r s1 where z: "remove_zombies E s = (r, s1)" by fastforce
  have i: "idle_ok s1"
  proof (cases "sv_idle_timeout s = - 1")
    case True
    then show ?thesis using keepsD [OF busy.zombies _ z] by (simp add: idle_ok_def)
  next
    case False
    then have "sv_clients s = []" using a by (simp add: idle_ok_def)
    then show ?thesis using z a by (simp add: remove_zombies_def)
  qed
  have "keeps idle_ok (thenS (modifyS (\<lambda>s. if sv_clients s = [] \<and> sv_tasks s = [] then s\<lparr>sv_idle_timeout := idle_time\<rparr> else s))
    (bindS (getS (\<lambda>s. map me_id (sv_metas s))) (foreachS (unload_unused E))))"
    by (intro keeps keeps_modify idle_unused) (auto simp: idle_ok_def)
  then show "idle_ok (snd (periodic E s))"
    using i z unfolding periodic_def keeps_def by (cases r) simp_all
qed

lemma idle_call: "keeps idle_ok (method_call E msg)"
proof -
  have "keeps idle_ok (thenS (modifyS (\<lambda>s. if find_client n s = None then s\<lparr>sv_clients := sv_clients s @ [c], sv_idle_timeout := - 1\<rparr> else s))
      (modifyS (upd_client n f)))" for n c f
    by (intro keeps keeps_modify) (auto simp: idle_ok_def upd_client_def)
  moreover have "keeps idle_ok (emit x)" for x by (simp add: keeps_def emit_def idle_ok_def)
  ultimately show ?thesis unfolding method_call_def by (intro keeps_if)
qed

lemma idle_event:
  assumes "idle_ok s" "worker_ok (background s)" "enabled s ev" "run_event E ev s = (r, s')"
  shows "idle_ok s'"
proof -
  have busy: "sv_idle_timeout s = - 1 \<Longrightarrow> keeps (\<lambda>s. sv_idle_timeout s = - 1) (run_event E ev) \<Longrightarrow> idle_ok s'"
    using assms(4) by (auto simp: idle_ok_def dest: keepsD)
  have c: "sv_idle_timeout s = - 1" if "find_client n s \<noteq> None \<or> sv_tasks s \<noteq> []" for n
    using that assms(1) by (auto simp: idle_ok_def find_client_def)
  show ?thesis
  proof (cases ev)
    case (Work n)
    then have "sv_idle_timeout s = - 1" using assms(3) by (intro c [of n]) (auto split: option.splits)
    then show ?thesis using Work busy.threads busy by simp
  next
    case (Finish n)
    then have "sv_idle_timeout s = - 1" using assms(3) by (intro c [of n]) (auto split: option.splits)
    then show ?thesis using Finish busy.finish busy by simp
  next
    case (Interrupt n)
    then have "sv_idle_timeout s = - 1" using assms(3) by (intro c [of n]) (auto split: option.splits)
    then show ?thesis using Interrupt busy.threads busy by simp
  next
    case Background
    then have "sv_tasks s \<noteq> []" using assms(2,3) by (cases "sv_worker s") (simp_all add: background_def)
    then have "sv_idle_timeout s = - 1" by (intro c) simp
    then show ?thesis using Background busy.threads busy by simp
  next
    case (Call msg)
    then show ?thesis using assms idle_call by (auto dest: keepsD)
  next
    case Periodic
    then show ?thesis using assms idle_periodic by (auto dest: keepsD)
  qed (use assms in \<open>auto simp: client_disconnected_def upd_client_def idle_ok_def\<close>)
qed

lemma idle_reachable: "reachable E s \<Longrightarrow> idle_ok s"
proof (induction rule: reachable.induct)
  case (start e now s)
  have "same_users [] [] idle_time (start_server e now)" by (simp add: same_users_def start_server_def)
  then have "same_users [] [] idle_time s" using keepsD [OF same_users_init _ start] by blast
  then show ?case by (simp add: same_users_def idle_ok_def)
next
  case (step s ev s')
  moreover have "worker_ok (background s)" using reachable_ok [OF step.hyps(1)] by (simp add: server_ok_def okx_def)
  ultimately show ?case using idle_event by blast
qed

subsection \<open>Rounds are runs of the server\<close>

lemma reach_steps:
  assumes "reachable E s"
  shows "periodic E s = (Inr u, s') \<Longrightarrow> reachable E s'" "method_call E msg s = (Inr u, s') \<Longrightarrow> reachable E s'"
    "client_disconnected n s = (Inr u, s') \<Longrightarrow> reachable E s'"
  using reachable.step [OF assms, of Periodic] reachable.step [OF assms, of "Call msg"] reachable.step [OF assms, of "Disconnected n"]
  by simp_all

lemma on_parts:
  "onServer m (s, l) = (Inr u, (s', l')) \<longleftrightarrow> m s = (Inr u, s') \<and> l' = l"
  "onLoop f (s, l) = (Inr (), (s, f l))"
  by (auto simp: onServer_def onLoop_def split: prod.splits)

lemma reach_call:
  assumes "reachable E s" "loop_method_call E now msg (s, l) = (Inr u, (s', l'))"
  shows "reachable E s'"
  using assms(2) reach_steps(2) [OF assms(1), of msg]
  by (auto simp: loop_method_call_def reset_idle_count_def add_client_match_def on_parts bindS_Inr whenS_def split: if_splits)

lemma reach_disconnected:
  assumes "reachable E s" "loop_client_disconnected now n (s, l) = (Inr u, (s', l'))"
  shows "reachable E s'"
  using assms(2) reach_steps(3) [OF assms(1), of n]
  by (auto simp: loop_client_disconnected_def remove_client_match_def reset_idle_count_def on_parts bindS_Inr throw_ifS_Inr)

lemma reach_dispatch:
  assumes "reachable E s" "dispatch_incoming E now x (s, l) = (Inr u, (s', l'))"
  shows "reachable E s'"
  using assms reach_call [OF assms(1)] reach_disconnected [OF assms(1)]
  by (cases x) (auto simp: dispatch_incoming_def bindS_Inr whenS_def throw_ifS_Inr split: if_splits)

lemma reach_round:
  assumes "reachable E s" "run_round E p (s, l) = (Inr b, (s', l'))"
  shows "reachable E s'" "b \<longleftrightarrow> sv_idle_timeout s' \<ge> 0 \<and> time_left (pr_now p) s' l' \<le> 0"
proof -
  obtain u s1 where 1: "periodic E s = (Inr u, s1)"
    and d: "bindS pop_message (\<lambda>m. case m of None \<Rightarrow> retS () | Some x \<Rightarrow> dispatch_incoming E (pr_now p) x)
      (s1, handle_watches p (read_wakeup p l)) = (Inr (), (s', l'))"
    and b: "b \<longleftrightarrow> sv_idle_timeout s' \<ge> 0 \<and> time_left (pr_now p) s' l' \<le> 0"
    using assms(2) by (auto simp: run_round_def bindS_Inr onServer_def onLoop_def split: prod.splits)
  have r: "reachable E s1" by (rule reach_steps(1) [OF assms(1) 1])
  show "reachable E s'"
  proof (cases "ml_incoming (handle_watches p (read_wakeup p l))")
    case Nil
    then show ?thesis using d r by (simp add: pop_message_def bindS_Inr)
  next
    case (Cons m ms)
    then obtain l2 where "dispatch_incoming E (pr_now p) m (s1, l2) = (Inr (), (s', l'))"
      using d by (auto simp: pop_message_def bindS_Inr onLoop_def)
    then show ?thesis by (rule reach_dispatch [OF r])
  qed
  show "b \<longleftrightarrow> sv_idle_timeout s' \<ge> 0 \<and> time_left (pr_now p) s' l' \<le> 0" by (rule b)
qed

lemma reach_threads: "reachable E s \<Longrightarrow> run_threads E evs s = (Inr u, s') \<Longrightarrow> reachable E s'"
proof (induction evs arbitrary: s)
  case (Cons ev evs)
  then obtain s1 where 1: "whenS (enabled s ev) (run_event E ev) s = (Inr (), s1)" "run_threads E evs s1 = (Inr u, s')"
    by (auto simp: bindS_Inr)
  have "reachable E s1"
    using 1(1) Cons.prems(1) reachable.step [OF Cons.prems(1), of ev] by (cases "enabled s ev") auto
  then show ?case using Cons.IH 1(2) by blast
qed simp

subsection \<open>The calls and disconnections of a run\<close>

definition next_message :: "poll_round \<Rightarrow> main_loop \<Rightarrow> in_message option" where
  "next_message p l = (case ml_incoming (handle_watches p (read_wakeup p l)) of [] \<Rightarrow> None | m # ms \<Rightarrow> Some m)"

text \<open>A message that counts as an action: a method call, or the signal of the bus that a name has lost its owner.\<close>

fun is_action :: "in_message \<Rightarrow> bool" where
  "is_action (MethodCall msg) = True"
| "is_action (Signal sender interface member vs) =
     (sender = ''org.freedesktop.DBus'' \<and> interface = ''org.freedesktop.DBus'' \<and> member = ''NameOwnerChanged''
      \<and> (case get_value dec_string vs of Inl e \<Rightarrow> False | Inr (name, vs) \<Rightarrow>
         (case get_value dec_string vs of Inl e \<Rightarrow> False | Inr (old_owner, vs) \<Rightarrow>
         (case get_value dec_string vs of Inl e \<Rightarrow> False | Inr (new_owner, vs) \<Rightarrow> name = old_owner \<and> new_owner = []))))"
| "is_action OtherMessage = False"

text \<open>The times of the rounds of a run in which one is dispatched.\<close>

fun action_times :: "senv \<Rightarrow> (event list \<times> poll_round) list \<Rightarrow> server \<times> main_loop \<Rightarrow> int list" where
  "action_times E [] st = []"
| "action_times E (x # xs) st = (let st1 = snd (onServer (run_threads E (fst x)) st) in
     (case next_message (snd x) (snd st1) of None \<Rightarrow> [] | Some m \<Rightarrow> if is_action m then [pr_now (snd x)] else [])
     @ action_times E xs (snd (run_round E (snd x) st1)))"

lemma last_dispatch:
  assumes "dispatch_incoming E now m (s, l) = (Inr u, (s', l'))"
  shows "ml_last_action l' = (if is_action m then now else ml_last_action l)"
proof (cases m)
  case (MethodCall msg)
  then show ?thesis using assms
    by (auto simp: dispatch_incoming_def loop_method_call_def reset_idle_count_def add_client_match_def on_parts bindS_Inr
        whenS_def split: if_splits)
next
  case (Signal sender interface member vs)
  have d: "ml_last_action l2 = now" if "loop_client_disconnected now n (s1, l1) = (Inr (), (s2, l2))" for n s1 l1 s2 l2
    using that by (auto simp: loop_client_disconnected_def reset_idle_count_def on_parts bindS_Inr)
  show ?thesis using assms Signal
    by (auto simp: dispatch_incoming_def bindS_Inr throw_ifS_Inr liftS_def dest!: d split: if_splits sum.splits prod.splits)
next
  case OtherMessage
  then show ?thesis using assms by (simp add: dispatch_incoming_def)
qed

lemma last_round:
  assumes "run_round E p (s, l) = (Inr b, (s', l'))"
  shows "ml_last_action l' = (case next_message p l of Some m \<Rightarrow> if is_action m then pr_now p else ml_last_action l
    | None \<Rightarrow> ml_last_action l)"
proof -
  let ?l = "handle_watches p (read_wakeup p l)"
  have l: "ml_last_action ?l = ml_last_action l" by (simp add: handle_watches_def read_wakeup_def)
  obtain s1 where d: "bindS pop_message (\<lambda>m. case m of None \<Rightarrow> retS () | Some x \<Rightarrow> dispatch_incoming E (pr_now p) x)
      (s1, ?l) = (Inr (), (s', l'))"
    using assms by (auto simp: run_round_def bindS_Inr onServer_def onLoop_def split: prod.splits)
  show ?thesis
  proof (cases "ml_incoming ?l")
    case Nil
    then show ?thesis using d l by (auto simp: pop_message_def bindS_Inr next_message_def)
  next
    case (Cons m ms)
    then have "dispatch_incoming E (pr_now p) m (s1, ?l\<lparr>ml_incoming := ms\<rparr>) = (Inr (), (s', l'))"
      using d by (auto simp: pop_message_def bindS_Inr onLoop_def)
    from last_dispatch [OF this] show ?thesis using Cons l by (simp add: next_message_def)
  qed
qed

lemma action_times_sorted:
  "sorted (map (\<lambda>x. pr_now (snd x)) xs) \<Longrightarrow> sorted (action_times E xs st) \<and> set (action_times E xs st) \<subseteq> (\<lambda>x. pr_now (snd x)) ` set xs"
proof (induction xs arbitrary: st)
  case (Cons x xs)
  let ?st = "snd (run_round E (snd x) (snd (onServer (run_threads E (fst x)) st)))"
  have "sorted (action_times E xs ?st) \<and> set (action_times E xs ?st) \<subseteq> (\<lambda>x. pr_now (snd x)) ` set xs"
    using Cons by simp
  then show ?case using Cons.prems by (auto simp: Let_def split: option.split)
qed simp

lemma sorted_last: "sorted (xs :: int list) \<Longrightarrow> \<forall>t\<in>set xs. t \<le> last xs"
  by (induction xs) (auto split: if_splits)

lemma loop_ends:
  assumes "reachable E s" "run_loop E xs (s, l) = (Inr True, (s', l'))"
  shows "reachable E s' \<and> sv_clients s' = [] \<and> sv_tasks s' = [] \<and> (\<exists>ys x zs st. xs = ys @ x # zs
    \<and> run_loop E ys (s, l) = (Inr False, st) \<and> run_loop E (ys @ [x]) (s, l) = (Inr True, (s', l'))
    \<and> last (ml_last_action l # action_times E (ys @ [x]) (s, l)) + 60 \<le> pr_now (snd x))"
  using assms
proof (induction xs arbitrary: s l)
  case (Cons x xs)
  obtain b s0 s1 l1 where 0: "run_threads E (fst x) s = (Inr (), s0)"
    and 1: "run_round E (snd x) (s0, l) = (Inr b, (s1, l1))"
    and 2: "(if b then retS True else run_loop E xs) (s1, l1) = (Inr True, (s', l'))"
    using Cons.prems(2) by (auto simp: bindS_Inr on_parts)
  have r: "reachable E s0" by (rule reach_threads [OF Cons.prems(1) 0])
  note round = reach_round [OF r 1]
  have t: "snd (onServer (run_threads E (fst x)) (s, l)) = (s0, l)" by (simp add: onServer_def 0)
  have loop: "run_loop E (x # ys) (s, l) = (if b then (Inr True, (s1, l1)) else run_loop E ys (s1, l1))" for ys
    by (simp add: bindS_def onServer_def 0 1)
  have a: "last (ml_last_action l # action_times E (x # ys) (s, l)) = last (ml_last_action l1 # action_times E ys (s1, l1))" for ys
    using last_round [OF 1] by (simp add: t 1 Let_def split: option.split)
  show ?case
  proof (cases b)
    case True
    then have e: "s' = s1" "l' = l1" using 2 by simp_all
    have i: "sv_idle_timeout s1 \<ge> 0" "time_left (pr_now (snd x)) s1 l1 \<le> 0" using round(2) True by simp_all
    have "idle_ok s1" using idle_reachable round(1) by blast
    then have c: "sv_idle_timeout s1 = idle_time" "sv_clients s1 = []" "sv_tasks s1 = []" using i(1) by (auto simp: idle_ok_def)
    have "last (ml_last_action l # action_times E [x] (s, l)) + 60 \<le> pr_now (snd x)"
      using i(2) c(1) a [of "[]"] by (simp add: time_left_def idle_time_def)
    then show ?thesis
      using round(1) c e loop [of "[]"] True by (intro conjI exI [of _ "[]"] exI [of _ x] exI [of _ xs] exI [of _ "(s, l)"]) simp_all
  next
    case False
    then have "run_loop E xs (s1, l1) = (Inr True, (s', l'))" using 2 by simp
    from Cons.IH [OF round(1) this] obtain ys y zs st where
      "reachable E s'" "sv_clients s' = []" "sv_tasks s' = []" "xs = ys @ y # zs" "run_loop E ys (s1, l1) = (Inr False, st)"
      "run_loop E (ys @ [y]) (s1, l1) = (Inr True, (s', l'))"
      "last (ml_last_action l1 # action_times E (ys @ [y]) (s1, l1)) + 60 \<le> pr_now (snd y)" by blast
    then show ?thesis
      using loop [of ys] loop [of "ys @ [y]"] a [of "ys @ [y]"] False
      by (intro conjI exI [of _ "x # ys"] exI [of _ y] exI [of _ zs] exI [of _ st]) simp_all
  qed
qed simp

text \<open>C26. The service only ends when it is idle: whatever the threads do and whatever messages the rounds of the main
  loop bring, in the round in which the loop is left no client is connected and no background comparison waits; and when
  the clock does not go backwards, every call and every disconnection that was dispatched since the loop was entered, and
  the entry itself, are at least 60 seconds before the time of that round.\<close>
theorem service_ends_only_idle:
  assumes "reachable E s" "main_run E now xs (s, l) = (Inr True, (s', l'))"
    and "sorted (now # map (\<lambda>x. pr_now (snd x)) xs)"
  shows "reachable E s' \<and> sv_clients s' = [] \<and> sv_tasks s' = [] \<and> (\<exists>ys x zs st. xs = ys @ x # zs
    \<and> main_run E now ys (s, l) = (Inr False, st) \<and> main_run E now (ys @ [x]) (s, l) = (Inr True, (s', l'))
    \<and> (\<forall>t\<in>set (now # action_times E (ys @ [x]) (s, l\<lparr>ml_last_action := now\<rparr>)). t + 60 \<le> pr_now (snd x)))"
proof -
  let ?l = "l\<lparr>ml_last_action := now\<rparr>"
  have m: "main_run E now ys (s, l) = run_loop E ys (s, ?l)" for ys
    by (simp add: main_run_def reset_idle_count_def on_parts bindS_def)
  have la: "ml_last_action ?l = now" by simp
  from loop_ends [OF assms(1) assms(2) [unfolded m], unfolded la] obtain ys x zs st where
    r: "reachable E s'" "sv_clients s' = []" "sv_tasks s' = []" and xs: "xs = ys @ x # zs"
    and runs: "run_loop E ys (s, ?l) = (Inr False, st)" "run_loop E (ys @ [x]) (s, ?l) = (Inr True, (s', l'))"
    and last: "last (now # action_times E (ys @ [x]) (s, ?l)) + 60 \<le> pr_now (snd x)" by (elim conjE exE) (rule that)
  have "sorted (map (\<lambda>x. pr_now (snd x)) (ys @ [x]))" "\<forall>y\<in>set (ys @ [x]). now \<le> pr_now (snd y)"
    using assms(3) by (auto simp: xs sorted_append)
  then have "sorted (now # action_times E (ys @ [x]) (s, ?l))"
    using action_times_sorted [of "ys @ [x]" E "(s, ?l)"] by fastforce
  then have "\<forall>t\<in>set (now # action_times E (ys @ [x]) (s, ?l)). t \<le> last (now # action_times E (ys @ [x]) (s, ?l))"
    by (rule sorted_last)
  then have "\<forall>t\<in>set (now # action_times E (ys @ [x]) (s, ?l)). t + 60 \<le> pr_now (snd x)"
    using last by (meson add_mono_thms_linordered_semiring(3) order_trans)
  then show ?thesis
    using r xs runs unfolding m by (intro conjI exI [of _ ys] exI [of _ x] exI [of _ zs] exI [of _ st])
qed

definition loop_ex :: main_loop where
  "loop_ex = \<lparr>ml_watches = [\<lparr>wa_enabled = True, wa_fd = 4, wa_flags = 1, wa_events = 1, wa_id = 0\<rparr>], ml_timeouts = [],
     ml_wakeup_fd = 3, ml_wakeups = 0, ml_last_action = 100, ml_matches = [], ml_incoming = []\<rparr>"

definition quiet_round :: "int \<Rightarrow> poll_round" where
  "quiet_round now = \<lparr>pr_revents = (\<lambda>_. 0), pr_reads = (\<lambda>_. []), pr_now = now\<rparr>"

lemma quiet_rounds: "run_loop senv_ex [([], quiet_round 130), ([], quiet_round 160)] (server_ex, loop_ex) = (Inr True, (server_ex, loop_ex))"
proof -
  have p: "periodic senv_ex server_ex = (Inr (), server_ex)"
    by (simp add: periodic_def remove_zombies_def server_ex_def unload_unused_def meta_of_def upd_meta_def)
  have w: "handle_watches (quiet_round n) (read_wakeup (quiet_round n) loop_ex) = loop_ex" for n
    by (simp add: handle_watches_def read_wakeup_def quiet_round_def handled_def flags_of_def case_prod_unfold concat_eq_Nil_conv)
  have f: "sv_idle_timeout server_ex = 60" "ml_last_action loop_ex = 100" "ml_incoming loop_ex = []" "pr_now (quiet_round n) = n" for n
    by (simp_all add: server_ex_def loop_ex_def quiet_round_def idle_time_def)
  have "run_round senv_ex (quiet_round n) (server_ex, loop_ex) = (Inr (60 \<le> n - 100), (server_ex, loop_ex))" for n
    by (auto simp: run_round_def onServer_def onLoop_def p w f pop_message_def bindS_def time_left_def)
  then show ?thesis by (simp add: bindS_def onServer_def)
qed

theorem service_ends_only_idle_witness:
  "sv_clients server_ex = [] \<and> sv_tasks server_ex = []
   \<and> main_run senv_ex 100 [([], quiet_round 130), ([], quiet_round 160)] (server_ex, loop_ex) = (Inr True, (server_ex, loop_ex))"
proof -
  have "loop_ex\<lparr>ml_last_action := 100\<rparr> = loop_ex" by (simp add: loop_ex_def)
  then have m: "main_run senv_ex 100 [([], quiet_round 130), ([], quiet_round 160)] (server_ex, loop_ex) = (Inr True, (server_ex, loop_ex))"
    using quiet_rounds by (simp add: main_run_def reset_idle_count_def on_parts bindS_def)
  have "sorted (100 # map (\<lambda>x. pr_now (snd x)) [([] :: event list, quiet_round 130), ([], quiet_round 160)])"
    by (simp add: quiet_round_def)
  from service_ends_only_idle [OF reachable_ex m this] m show ?thesis by simp
qed

subsection \<open>How long a round waits\<close>

text \<open>While the countdown runs and has time left, \<open>poll\<close> waits no longer than that; without it, a second or for ever.\<close>

lemma poll_in_time:
  "sv_idle_timeout s \<ge> 0 \<Longrightarrow> time_left now s l \<ge> 0 \<Longrightarrow> 0 \<le> poll_timeout now s l \<and> poll_timeout now s l \<le> time_left now s l * 1000"
  "sv_idle_timeout s < 0 \<Longrightarrow> poll_timeout now s l \<in> {- 1, 1000}"
  by (auto simp: poll_timeout_def Let_def periodic_timeout_def)

text \<open>When the clock has passed the end of the countdown before \<open>poll\<close> is called, it waits without a limit, so that the
  service does not end.\<close>

lemma late_poll_has_no_limit:
  "sv_idle_timeout s \<ge> 0 \<Longrightarrow> time_left now s l < 0 \<Longrightarrow> poll_timeout now s l < 0"
  by (simp add: poll_timeout_def Let_def periodic_timeout_def)

text \<open>A round takes one message: of two that were read at once, the second stays in the queue, and \<open>poll\<close> waits for
  the next event on the connection without a limit.\<close>

definition hello_ex :: "string \<Rightarrow> in_message" where
  "hello_ex me = MethodCall (request_ex me ''ListConfigs'' [])"

definition two_read :: poll_round where
  "two_read = \<lparr>pr_revents = (\<lambda>fd. if fd = 4 then 1 else 0), pr_reads = (\<lambda>_. [hello_ex '':1.1'', hello_ex '':1.2'']), pr_now = 130\<rparr>"

lemma second_message_waits:
  "\<exists>s' l'. run_round senv_ex two_read (server_ex, loop_ex) = (Inr False, (s', l')) \<and> ml_incoming l' = [hello_ex '':1.2'']
     \<and> poll_timeout 130 s' l' = - 1"
proof -
  have p: "periodic senv_ex server_ex = (Inr (), server_ex)"
    by (simp add: periodic_def remove_zombies_def server_ex_def unload_unused_def meta_of_def upd_meta_def)
  have h: "handled (pr_revents two_read) loop_ex = [(0, 1)]"
    by (simp add: handled_def two_read_def loop_ex_def pollfds_def flags_of_def POLLIN_def POLLOUT_def DBUS_WATCH_READABLE_def
        DBUS_WATCH_WRITABLE_def)
  show ?thesis
    using p h
    by (simp add: run_round_def onServer_def onLoop_def read_wakeup_def handle_watches_def pop_message_def bindS_def
        two_read_def loop_ex_def hello_ex_def dispatch_incoming_def loop_method_call_def reset_idle_count_def
        add_client_match_def method_call_def request_ex_def INTERFACE_def find_client_def server_ex_def
        new_client_def upd_client_def time_left_def poll_timeout_def periodic_timeout_def)
qed

end
