(* ===== verification/ShellOutput.thy ===== *)
theory ShellOutput
  imports Sysconfig DBusCodec
begin

text \<open>
  The output of a program as \<open>SystemCmd\<close> collects it (\<open>snapper/SystemCmd.cc\<close>): whenever a stream of the program has
  something to read, both are read until nothing is left, and what was read is added to the lines so far, in buffers
  of 255 bytes.  Starting the program and waiting for it are not modelled; what each read delivers is a parameter.
\<close>

record cmd_stream =
  so_lines :: "string list"
  so_newline :: bool

definition invalidate :: cmd_stream where
  "invalidate = \<lparr>so_lines = [], so_newline = True\<rparr>"

definition addLine :: "string \<Rightarrow> string list \<Rightarrow> string list" where
  "addLine text lines = lines @ [text]"

text \<open>A piece of text begins a line after a newline, else it goes on with the last one.\<close>

definition add_piece :: "string \<Rightarrow> cmd_stream \<Rightarrow> cmd_stream" where
  "add_piece text o1 = (if so_newline o1 then o1\<lparr>so_lines := addLine text (so_lines o1)\<rparr>
     else o1\<lparr>so_lines := (so_lines o1)[length (so_lines o1) - 1 := so_lines o1 ! (length (so_lines o1) - 1) @ text]\<rparr>)"

function extract_lines :: "string \<Rightarrow> cmd_stream \<Rightarrow> string \<times> cmd_stream" where
  "extract_lines text o1 = (if CHR 0x0A \<notin> set text then (text, o1)
     else extract_lines (tl (dropWhile (\<lambda>c. c \<noteq> CHR 0x0A) text))
       ((add_piece (takeWhile (\<lambda>c. c \<noteq> CHR 0x0A) text) o1)\<lparr>so_newline := True\<rparr>))"
  by auto
termination
proof (relation "measure (\<lambda>(text, o1). length text)", goal_cases)
  case (2 s o1)
  then have "s \<noteq> []" by auto
  then show ?case using length_dropWhile_le [of "\<lambda>c. c \<noteq> CHR 0x0A" s] by (cases s) (auto simp: less_Suc_eq_le)
qed simp

declare extract_lines.simps [simp del]

definition extractNewline :: "string \<Rightarrow> string \<times> cmd_stream \<Rightarrow> string \<times> cmd_stream" where
  "extractNewline buf st = extract_lines (fst st @ c_str buf) (snd st)"

definition BUF_LEN :: nat where "BUF_LEN = 256"

function buffers :: "string \<Rightarrow> string list" where
  "buffers text = (if text = [] then [] else take (BUF_LEN - 1) text # buffers (drop (BUF_LEN - 1) text))"
  by auto
termination by (relation "measure length") (auto simp: BUF_LEN_def)

declare buffers.simps [simp del]

definition getUntilEOF :: "string \<Rightarrow> cmd_stream \<Rightarrow> cmd_stream" where
  "getUntilEOF text o1 = (case fold extractNewline (buffers text) ([], o1) of (rest, o2) \<Rightarrow>
     if rest \<noteq> [] then (add_piece rest o2)\<lparr>so_newline := False\<rparr> else o2\<lparr>so_newline := True\<rparr>)"

text \<open>One round of reading, standard output and standard error.\<close>

definition checkOutput :: "string \<times> string \<Rightarrow> cmd_stream \<times> cmd_stream \<Rightarrow> cmd_stream \<times> cmd_stream" where
  "checkOutput r st = (getUntilEOF (fst r) (fst st), getUntilEOF (snd r) (snd st))"

definition cmd_output :: "(string \<times> string) list \<Rightarrow> string list \<times> string list" where
  "cmd_output rounds = (case fold checkOutput rounds (invalidate, invalidate) of (o1, o2) \<Rightarrow> (so_lines o1, so_lines o2))"

definition numLines :: "cmd_stream \<Rightarrow> nat" where
  "numLines o1 = length (so_lines o1)"

definition getLine :: "nat \<Rightarrow> cmd_stream \<Rightarrow> string" where
  "getLine n o1 = (if n < length (so_lines o1) then so_lines o1 ! n else [])"

text \<open>The lines with a pattern, at their beginning when it starts with \<open>^\<close>.\<close>

definition select :: "string \<Rightarrow> cmd_stream \<Rightarrow> string list" where
  "select pat o1 = (if pat \<noteq> [] \<and> hd pat = CHR ''^'' then filter (\<lambda>l. starts_with l (tl pat)) (so_lines o1)
     else filter (\<lambda>l. list_ex (\<lambda>i. starts_with (drop i l) pat) [0..<Suc (length l)]) (so_lines o1))"

subsection \<open>The lines of the whole output\<close>

definition has_read :: "string \<Rightarrow> cmd_stream" where
  "has_read t = \<lparr>so_lines = read_lines t, so_newline = (t = [] \<or> last t = CHR 0x0A)\<rparr>"

lemma read_lines_one: "CHR 0x0A \<notin> set l \<Longrightarrow> l \<noteq> [] \<Longrightarrow> read_lines l = [l]"
proof -
  assume l: "CHR 0x0A \<notin> set l" "l \<noteq> []"
  then have d: "dropWhile (\<lambda>c. c \<noteq> CHR 0x0A) l = []" and t: "takeWhile (\<lambda>c. c \<noteq> CHR 0x0A) l = l"
    by (auto simp: dropWhile_eq_Nil_conv takeWhile_eq_all_conv)
  have "read_lines l = takeWhile (\<lambda>c. c \<noteq> CHR 0x0A) l # read_lines (tl (dropWhile (\<lambda>c. c \<noteq> CHR 0x0A) l))"
    using l(2) by (subst read_lines.simps) simp
  then show "read_lines l = [l]" unfolding d t by (simp add: read_lines.simps [of "[]"])
qed

lemma read_lines_nil: "read_lines [] = []"
  by (simp add: read_lines.simps [of "[]"])

lemma split_newline: "CHR 0x0A \<in> set t \<Longrightarrow> \<exists>a b. t = a @ CHR 0x0A # b \<and> CHR 0x0A \<notin> set a"
  using split_list_first by fastforce

lemma read_lines_more:
  assumes "CHR 0x0A \<notin> set l"
  shows "add_piece l (has_read t)\<lparr>so_newline := True\<rparr> = has_read (t @ l @ [CHR 0x0A])"
    and "l \<noteq> [] \<Longrightarrow> add_piece l (has_read t)\<lparr>so_newline := False\<rparr> = has_read (t @ l)"
proof -
  have "so_lines (add_piece l (has_read t)) = read_lines (t @ l @ [CHR 0x0A])
    \<and> (l \<noteq> [] \<longrightarrow> so_lines (add_piece l (has_read t)) = read_lines (t @ l)) \<and> (t \<noteq> [] \<longrightarrow> read_lines t \<noteq> [])"
  proof (induction t rule: measure_induct_rule [where f = length])
    case (less t)
    show ?case
    proof (cases "CHR 0x0A \<in> set t")
      case False
      then show ?thesis
      proof (cases "t = []")
        case True
        then show ?thesis using assms read_lines_Cons [of l "[]"]
          by (auto simp: add_piece_def has_read_def addLine_def read_lines_nil read_lines_one)
      next
        case t: False
        have "last t \<noteq> CHR 0x0A" using False t last_in_set by metis
        moreover have "CHR 0x0A \<notin> set (t @ l)" using False assms by simp
        ultimately show ?thesis using t read_lines_Cons [of "t @ l" "[]"] read_lines_one [OF False t] read_lines_one [of "t @ l"]
          by (simp add: add_piece_def has_read_def read_lines_nil)
      qed
    next
      case True
      then obtain a b where t: "t = a @ CHR 0x0A # b" "CHR 0x0A \<notin> set a" using split_newline by blast
      have IH: "so_lines (add_piece l (has_read b)) = read_lines (b @ l @ [CHR 0x0A])"
        "l \<noteq> [] \<Longrightarrow> so_lines (add_piece l (has_read b)) = read_lines (b @ l)" "b \<noteq> [] \<Longrightarrow> read_lines b \<noteq> []"
        using less [of b] t(1) by auto
      have r: "read_lines (t @ x) = a # read_lines (b @ x)" for x using read_lines_Cons [OF t(2)] t(1) by simp
      have "so_lines (add_piece l (has_read t)) = a # so_lines (add_piece l (has_read b))"
      proof (cases "b = []")
        case True
        then show ?thesis using r [of "[]"] t(1) by (simp add: add_piece_def has_read_def addLine_def read_lines_nil)
      next
        case False
        then obtain x xs where "read_lines b = x # xs" using IH(3) by (cases "read_lines b") auto
        then show ?thesis using r [of "[]"] t(1) False by (simp add: add_piece_def has_read_def addLine_def)
      qed
      then show ?thesis using IH(1,2) r r [of "[]"] by simp
    qed
  qed
  moreover have "l \<noteq> [] \<Longrightarrow> last l \<noteq> CHR 0x0A" using assms last_in_set by metis
  ultimately show "add_piece l (has_read t)\<lparr>so_newline := True\<rparr> = has_read (t @ l @ [CHR 0x0A])"
    and "l \<noteq> [] \<Longrightarrow> add_piece l (has_read t)\<lparr>so_newline := False\<rparr> = has_read (t @ l)"
    by (auto simp: add_piece_def has_read_def)
qed

lemma extract_lines_read:
  "\<exists>t' r. extract_lines x (has_read t) = (r, has_read t') \<and> t' @ r = t @ x \<and> CHR 0x0A \<notin> set r
     \<and> (t' = t \<or> last t' = CHR 0x0A)"
proof (induction x arbitrary: t rule: measure_induct_rule [where f = length])
  case (less x)
  show ?case
  proof (cases "CHR 0x0A \<in> set x")
    case True
    then obtain a b where x: "x = a @ CHR 0x0A # b" "CHR 0x0A \<notin> set a" using split_newline by blast
    have p: "takeWhile (\<lambda>c. c \<noteq> CHR 0x0A) x = a" "tl (dropWhile (\<lambda>c. c \<noteq> CHR 0x0A) x) = b"
      using x by (auto simp: takeWhile_append dropWhile_append)
    have "extract_lines x (has_read t) = extract_lines b (has_read (t @ a @ [CHR 0x0A]))"
      using True read_lines_more(1) [OF x(2)] by (subst extract_lines.simps) (simp add: p)
    then show ?thesis using less [of b "t @ a @ [CHR 0x0A]"] x(1) by auto
  next
    case False
    then show ?thesis by (intro exI [of _ t] exI [of _ x]) (simp add: extract_lines.simps [of x])
  qed
qed

lemma concat_buffers: "concat (buffers d) = d \<and> (\<forall>b\<in>set (buffers d). set b \<subseteq> set d)"
proof (induction d rule: buffers.induct)
  case (1 d)
  show ?case
  proof (cases "d = []")
    case False
    then have "concat (buffers d) = d" using 1 by (subst buffers.simps) simp
    then show ?thesis by (metis UN_upper set_concat)
  qed (simp add: buffers.simps [of "[]"])
qed

lemma fold_extract_read:
  assumes "\<forall>b\<in>set bs. no_nul b" "CHR 0x0A \<notin> set p"
  shows "\<exists>t' r. fold extractNewline bs (p, has_read t) = (r, has_read t') \<and> t' @ r = t @ p @ concat bs \<and> CHR 0x0A \<notin> set r
     \<and> (t' = t \<or> last t' = CHR 0x0A)"
  using assms
proof (induction bs arbitrary: p t)
  case (Cons b bs)
  obtain t1 r1 where 1: "extractNewline b (p, has_read t) = (r1, has_read t1)" "t1 @ r1 = t @ p @ b" "CHR 0x0A \<notin> set r1"
      "t1 = t \<or> last t1 = CHR 0x0A"
  proof -
    have "c_str b = b" using Cons.prems(1) by (simp add: c_str_id no_nul_def)
    then show thesis using extract_lines_read [of "p @ b" t] that by (auto simp: extractNewline_def)
  qed
  obtain t2 r2 where 2: "fold extractNewline bs (r1, has_read t1) = (r2, has_read t2)" "t2 @ r2 = t1 @ r1 @ concat bs"
      "CHR 0x0A \<notin> set r2" "t2 = t1 \<or> last t2 = CHR 0x0A"
    using Cons.IH [OF _ 1(3), of t1] Cons.prems(1) by auto
  have "t2 @ r2 = t @ p @ concat (b # bs)" using 1(2) 2(2) by (metis append.assoc concat.simps(2))
  then show ?case using 1(1,4) 2(1,3,4) by auto
qed simp

lemma getUntilEOF_read:
  assumes "d \<noteq> []" "no_nul d"
  shows "getUntilEOF d (has_read t) = has_read (t @ d)"
proof -
  have "\<forall>b\<in>set (buffers d). no_nul b" using concat_buffers [of d] assms(2) by (auto simp: no_nul_def)
  then obtain t' r where 1: "fold extractNewline (buffers d) ([], has_read t) = (r, has_read t')" "t' @ r = t @ d"
      "CHR 0x0A \<notin> set r" "t' = t \<or> last t' = CHR 0x0A"
    using fold_extract_read [of "buffers d" "[]" t] concat_buffers [of d] by auto
  show ?thesis
  proof (cases "r = []")
    case True
    then have "has_read t'\<lparr>so_newline := True\<rparr> = has_read (t @ d)"
      using 1(2,4) assms(1) by (auto simp: has_read_def)
    then show ?thesis using 1(1) True by (simp add: getUntilEOF_def)
  next
    case False
    then show ?thesis using read_lines_more(2) [OF 1(3) False, of t'] 1(1,2) by (simp add: getUntilEOF_def)
  qed
qed

text \<open>Reads that deliver nothing only between two lines and at the end.\<close>

fun whole_lines :: "bool \<Rightarrow> string list \<Rightarrow> bool" where
  "whole_lines b [] = True"
| "whole_lines b (d # ds) = (if d = [] then (b \<or> concat ds = []) \<and> whole_lines b ds else whole_lines (last d = CHR 0x0A) ds)"

lemma getUntilEOF_nothing: "so_lines (getUntilEOF [] o1) = so_lines o1"
  by (simp add: getUntilEOF_def buffers.simps [of "[]"])

lemma reads_nothing: "concat ds = [] \<Longrightarrow> so_lines (fold getUntilEOF ds o1) = so_lines o1"
  by (induction ds arbitrary: o1) (simp_all add: getUntilEOF_nothing)

lemma reads_lines:
  assumes "\<forall>d\<in>set ds. no_nul d" "whole_lines (t = [] \<or> last t = CHR 0x0A) ds"
  shows "so_lines (fold getUntilEOF ds (has_read t)) = read_lines (t @ concat ds)"
  using assms
proof (induction ds arbitrary: t)
  case (Cons d ds)
  show ?case
  proof (cases "d = []")
    case True
    show ?thesis
    proof (cases "t = [] \<or> last t = CHR 0x0A")
      case b: True
      then have "getUntilEOF d (has_read t) = has_read t"
        by (auto simp: True getUntilEOF_def buffers.simps [of "[]"] has_read_def)
      then show ?thesis using Cons.IH [of t] Cons.prems True b by simp
    next
      case False
      then have c: "concat ds = []" using Cons.prems(2) True by simp
      have "so_lines (fold getUntilEOF ds (getUntilEOF d (has_read t))) = so_lines (getUntilEOF d (has_read t))"
        by (rule reads_nothing [OF c])
      moreover have "concat (d # ds) = []" using True c by simp
      ultimately show ?thesis using True by (simp add: getUntilEOF_nothing has_read_def del: concat_eq_Nil_conv concat.simps)
    qed
  next
    case False
    then show ?thesis using Cons.IH [of "t @ d"] Cons.prems getUntilEOF_read [OF False, of t] by simp
  qed
qed (simp add: has_read_def)

lemma fold_checkOutput: "fold checkOutput rounds (o1, o2) =
    (fold getUntilEOF (map fst rounds) o1, fold getUntilEOF (map snd rounds) o2)"
  by (induction rounds arbitrary: o1 o2) (simp_all add: checkOutput_def)

text \<open>C33. The lines that are collected from the reads are those of the whole output, wherever the reads and the buffers
  end, as long as no read comes back empty inside a line; a last line without a newline counts.\<close>
theorem output_is_split_into_lines:
  assumes "\<forall>(x, y)\<in>set rounds. no_nul x \<and> no_nul y"
    and "whole_lines True (map fst rounds)" "whole_lines True (map snd rounds)"
  shows "cmd_output rounds = (read_lines (concat (map fst rounds)), read_lines (concat (map snd rounds)))"
proof -
  have "invalidate = has_read []" by (simp add: invalidate_def has_read_def read_lines_nil)
  moreover have "\<forall>d\<in>set (map fst rounds). no_nul d" "\<forall>d\<in>set (map snd rounds). no_nul d" using assms(1) by auto
  ultimately show ?thesis
    using reads_lines [of "map fst rounds" "[]"] reads_lines [of "map snd rounds" "[]"] assms(2,3)
    by (simp add: cmd_output_def fold_checkOutput)
qed

theorem output_is_split_into_lines_witness:
  "cmd_output [(''ab'', []), (''c'' @ [CHR 0x0A], ''x''), ([], []), (''d'', [])] = ([''abc'', ''d''], [''x''])"
proof -
  let ?r = "[(''ab'', []), (''c'' @ [CHR 0x0A], ''x''), ([], []), (''d'', [])] :: (string \<times> string) list"
  have "list_all (\<lambda>(x, y). no_nul x \<and> no_nul y) ?r" by code_simp
  then have a: "\<forall>(x, y)\<in>set ?r. no_nul x \<and> no_nul y" by (simp only: list_all_iff)
  have b: "whole_lines True (map fst ?r)" "whole_lines True (map snd ?r)" by code_simp+
  have c: "read_lines (concat (map fst ?r)) = [''abc'', ''d'']" "read_lines (concat (map snd ?r)) = [''x'']" by code_simp+
  show ?thesis using output_is_split_into_lines [OF a b] unfolding c .
qed

text \<open>Inside a line an empty read, which comes of output on the other stream, breaks the line.\<close>

lemma empty_read_breaks_line: "cmd_output [(''ab'', []), ([], ''x''), (''c'', [])] = ([''ab'', ''c''], [''x''])"
  by code_simp

end
