(* ===== verification/GetOpts.thy ===== *)
theory GetOpts
  imports ClientCalls
begin

text \<open>
  The options of a command line (\<open>client/utils/GetOpts.cc\<close>).  \<open>getopt_long\<close> of the C library is written
  out as its manual describes it for an option string that starts with \<open>+:\<close>: the scan stops at the first
  argument that is no option or after \<open>--\<close>, a long option may be shortened to a prefix that only it has,
  and a missing argument is told apart from an unknown option.  The scan keeps \<open>argv[optind - 1]\<close>, what is
  left of a group of short options, and the arguments from \<open>optind\<close> on.
\<close>

subsection \<open>Options\<close>

datatype has_arg = no_argument | required_argument | optional_argument

record option_spec =
  op_name :: string
  op_arg :: has_arg
  op_val :: "char option"

type_synonym parsed_opts = "(string, string) smap"

definition make_optstring :: "option_spec list \<Rightarrow> string" where
  "make_optstring longopts = ''+:'' @ concat (map (\<lambda>lo. case op_val lo of
       None \<Rightarrow> []
     | Some c \<Rightarrow> c # (case op_arg lo of no_argument \<Rightarrow> [] | required_argument \<Rightarrow> '':''
         | optional_argument \<Rightarrow> ''::'')) longopts)"

definition make_short2long :: "option_spec list \<Rightarrow> (char, string) smap" where
  "make_short2long longopts = fold (\<lambda>lo m. case op_val lo of
       None \<Rightarrow> m | Some c \<Rightarrow> sm_put c (op_name lo) m) longopts []"

subsection \<open>\<open>getopt_long\<close>\<close>

record scan =
  sc_prev :: string
  sc_next :: string
  sc_args :: "string list"

datatype opt_result =
    OptEnd
  | OptUnknown
  | OptMissing
  | OptFound "char option" nat "string option"

text \<open>A short option in the option string.\<close>

fun short_spec :: "string \<Rightarrow> char \<Rightarrow> has_arg option" where
  "short_spec [] c = None"
| "short_spec (x # xs) c =
     (if x = c \<and> c \<notin> set ''+:;'' then
        Some (if starts_with xs ''::'' then optional_argument
              else if starts_with xs '':'' then required_argument else no_argument)
      else short_spec xs c)"

text \<open>The index of a long option: the name itself, or a prefix of one kind of option only.\<close>

definition long_index :: "option_spec list \<Rightarrow> string \<Rightarrow> nat option" where
  "long_index longopts name = (let i = find_idx (\<lambda>lo. op_name lo = name) longopts in
     if i < length longopts then Some i
     else (case filter (\<lambda>i. starts_with (op_name (longopts ! i)) name) [0..<length longopts] of
         [] \<Rightarrow> None
       | j # js \<Rightarrow> if list_all (\<lambda>k. op_arg (longopts ! k) = op_arg (longopts ! j)
                        \<and> op_val (longopts ! k) = op_val (longopts ! j)) js then Some j else None))"

definition scan_arg :: "scan \<Rightarrow> scan" where
  "scan_arg s = s\<lparr>sc_prev := hd (sc_args s), sc_next := [], sc_args := tl (sc_args s)\<rparr>"

definition scan_long :: "option_spec list \<Rightarrow> scan \<Rightarrow> opt_result \<times> scan" where
  "scan_long longopts s =
     (let body = drop 2 (hd (sc_args s)); name = takeWhile (\<lambda>c. c \<noteq> CHR ''='') body; s1 = scan_arg s in
      case long_index longopts name of
        None \<Rightarrow> (OptUnknown, s1)
      | Some i \<Rightarrow> (let lo = longopts ! i in
          if name \<noteq> body then
            (if op_arg lo = no_argument then (OptUnknown, s1)
             else (OptFound (op_val lo) i (Some (drop (Suc (length name)) body)), s1))
          else if op_arg lo = required_argument then
            (if sc_args s1 = [] then (OptMissing, s1)
             else (OptFound (op_val lo) i (Some (hd (sc_args s1))), scan_arg s1))
          else (OptFound (op_val lo) i None, s1)))"

text \<open>The next character of a group of short options; \<open>optind\<close> moves on with the last one.\<close>

definition scan_short :: "string \<Rightarrow> scan \<Rightarrow> opt_result \<times> scan" where
  "scan_short optstring s =
     (let c = hd (sc_next s); rest = tl (sc_next s);
          s1 = (if rest = [] then scan_arg s else s\<lparr>sc_next := rest\<rparr>) in
      case short_spec optstring c of
        None \<Rightarrow> (OptUnknown, s1)
      | Some no_argument \<Rightarrow> (OptFound (Some c) 0 None, s1)
      | Some required_argument \<Rightarrow>
          (if rest \<noteq> [] then (OptFound (Some c) 0 (Some rest), scan_arg s)
           else if sc_args s1 = [] then (OptMissing, s1)
           else (OptFound (Some c) 0 (Some (hd (sc_args s1))), scan_arg s1))
      | Some optional_argument \<Rightarrow>
          (if rest \<noteq> [] then (OptFound (Some c) 0 (Some rest), scan_arg s)
           else (OptFound (Some c) 0 None, s1)))"

definition getopt_long :: "string \<Rightarrow> option_spec list \<Rightarrow> scan \<Rightarrow> opt_result \<times> scan" where
  "getopt_long optstring longopts s =
     (if sc_next s \<noteq> [] then scan_short optstring s
      else (case sc_args s of
          [] \<Rightarrow> (OptEnd, s)
        | a # as \<Rightarrow>
            if a = ''--'' then (OptEnd, scan_arg s)
            else if \<not> starts_with a ''-'' \<or> a = ''-'' then (OptEnd, s)
            else if starts_with a ''--'' then scan_long longopts s
            else scan_short optstring (s\<lparr>sc_next := tl a\<rparr>)))"

text \<open>Every option shortens what is left.\<close>

definition scan_size :: "scan \<Rightarrow> nat" where
  "scan_size s = (let n = \<lambda>as. sum_list (map (\<lambda>a. length a + 2) as) in
     if sc_next s = [] then n (sc_args s) else length (sc_next s) + n (tl (sc_args s)))"

lemma scan_arg_size: "sc_next s = [] \<Longrightarrow> sc_args s \<noteq> [] \<Longrightarrow> scan_size (scan_arg s) < scan_size s"
  by (cases "sc_args s") (auto simp: scan_size_def scan_arg_def)

lemma scan_arg_short: "sc_next s \<noteq> [] \<Longrightarrow> scan_size (scan_arg s) < scan_size s"
  by (cases "sc_args s") (auto simp: scan_size_def scan_arg_def)

lemma scan_arg_le: "sc_next s = [] \<Longrightarrow> scan_size (scan_arg s) \<le> scan_size s"
  by (cases "sc_args s") (auto simp: scan_size_def scan_arg_def)

lemma scan_arg_next [simp]: "sc_next (scan_arg s) = []"
  by (simp add: scan_arg_def)

lemma scan_short_size:
  assumes "sc_next s \<noteq> []" "scan_short optstring s = (OptFound v i arg, s')"
  shows "scan_size s' < scan_size s"
proof -
  let ?s1 = "if tl (sc_next s) = [] then scan_arg s else s\<lparr>sc_next := tl (sc_next s)\<rparr>"
  have 1: "scan_size ?s1 < scan_size s"
  proof (cases "tl (sc_next s) = []")
    case False
    then show ?thesis using assms(1) by (cases "sc_next s") (auto simp: scan_size_def)
  qed (use scan_arg_short [OF assms(1)] in simp)
  have 2: "scan_size (scan_arg s) < scan_size s" by (rule scan_arg_short [OF assms(1)])
  have 3: "tl (sc_next s) = [] \<Longrightarrow> scan_size (scan_arg (scan_arg s)) < scan_size s"
    using scan_arg_le [of "scan_arg s"] 2 by simp
  show ?thesis
    using assms(2) 1 2 3 by (auto simp: scan_short_def Let_def split: option.splits has_arg.splits if_splits)
qed

lemma getopt_long_size:
  assumes "getopt_long optstring longopts s = (OptFound v i arg, s')"
  shows "scan_size s' < scan_size s"
proof (cases "sc_next s")
  case Nil
  then obtain a as where a: "sc_args s = a # as" "starts_with a ''-''" "a \<noteq> ''-''"
    using assms by (auto simp: getopt_long_def split: list.splits if_splits)
  show ?thesis
  proof (cases "starts_with a ''--''")
    case True
    then have "scan_long longopts s = (OptFound v i arg, s')"
      using assms Nil a by (simp add: getopt_long_def split: if_splits)
    moreover have "scan_size (scan_arg s) < scan_size s" using scan_arg_size [OF Nil] a by simp
    ultimately show ?thesis
      using scan_arg_le [of "scan_arg s"] by (auto simp: scan_long_def Let_def split: option.splits if_splits)
  next
    case False
    then have "a \<noteq> ''--''" by (auto simp: starts_with_def)
    then have s: "scan_short optstring (s\<lparr>sc_next := tl a\<rparr>) = (OptFound v i arg, s')"
      using assms Nil a False by (simp add: getopt_long_def)
    have "tl a \<noteq> []" using a(2,3) by (cases a) (auto simp: starts_with_def)
    moreover have "scan_size (s\<lparr>sc_next := tl a\<rparr>) < scan_size s"
      using Nil a \<open>tl a \<noteq> []\<close> by (auto simp: scan_size_def)
    ultimately show ?thesis using scan_short_size [OF _ s] by simp
  qed
next
  case (Cons c cs)
  then show ?thesis using scan_short_size [of s optstring v i arg s'] assms by (simp add: getopt_long_def)
qed

subsection \<open>\<open>GetOpts::parse\<close>\<close>

definition endl :: string where
  "endl = [CHR 0x0A]"

definition quoted :: "string \<Rightarrow> string" where
  "quoted s = [CHR 0x27] @ s @ [CHR 0x27]"

definition try_help :: string where
  "try_help = ''Try '' @ quoted ''snapper --help'' @ '' for more information.'' @ endl"

definition unknown_option :: "string option \<Rightarrow> string \<Rightarrow> string" where
  "unknown_option command a = (case command of
       None \<Rightarrow> ''Unknown global option '' @ quoted a @ ''.''
     | Some c \<Rightarrow> ''Unknown option '' @ quoted a @ '' for command '' @ quoted c @ ''.'') @ endl @ try_help"

definition missing_argument :: "string option \<Rightarrow> string \<Rightarrow> string" where
  "missing_argument command a = (case command of
       None \<Rightarrow> ''Missing argument for global option '' @ quoted a @ ''.''
     | Some c \<Rightarrow> ''Missing argument for command option '' @ quoted a @ ''.'') @ endl @ try_help"

definition opt_name :: "option_spec list \<Rightarrow> char option \<Rightarrow> nat \<Rightarrow> string" where
  "opt_name longopts v i = (case v of
       Some c \<Rightarrow> the (map_of (make_short2long longopts) c)
     | None \<Rightarrow> op_name (longopts ! i))"

function parse_loop :: "string option \<Rightarrow> option_spec list \<Rightarrow> parsed_opts \<Rightarrow> scan \<Rightarrow> (string + parsed_opts) \<times> scan" where
  "parse_loop command longopts result s =
     (case getopt_long (make_optstring longopts) longopts s of
        (OptEnd, s') \<Rightarrow> (Inr result, s')
      | (OptUnknown, s') \<Rightarrow> (Inl (unknown_option command (sc_prev s')), s')
      | (OptMissing, s') \<Rightarrow> (Inl (missing_argument command (sc_prev s')), s')
      | (OptFound v i arg, s') \<Rightarrow>
          parse_loop command longopts (sm_put (opt_name longopts v i) (case arg of None \<Rightarrow> [] | Some a \<Rightarrow> a) result) s')"
  by pat_completeness auto
termination
  by (relation "measure (\<lambda>(c, lo, r, s). scan_size s)") (auto dest: getopt_long_size [OF sym])

declare parse_loop.simps [simp del]

definition say :: "string \<Rightarrow> ('s, unit) cstep" where
  "say t = modifyS (\<lambda>c. c\<lparr>cn_out := cn_out c @ t\<rparr>)"

definition complain :: "string \<Rightarrow> ('s, unit) cstep" where
  "complain t = modifyS (\<lambda>c. c\<lparr>cn_err := cn_err c @ t\<rparr>)"

text \<open>A message and \<open>exit(EXIT_FAILURE)\<close>.\<close>

definition die :: "string \<Rightarrow> ('s, 'a) cstep" where
  "die t = thenS (complain t) (throwS (Exited False))"

definition getopts_parse :: "string option \<Rightarrow> option_spec list \<Rightarrow> ('s, parsed_opts) cstep" where
  "getopts_parse command longopts c =
     (case parse_loop command longopts [] \<lparr>sc_prev = cn_prev c, sc_next = [], sc_args = cn_args c\<rparr> of
        (r, s) \<Rightarrow> (let c1 = c\<lparr>cn_prev := sc_prev s, cn_args := sc_args s\<rparr> in
          case r of Inr result \<Rightarrow> (Inr result, c1) | Inl t \<Rightarrow> die t c1))"

definition hasArgs :: "'s client \<Rightarrow> bool" where
  "hasArgs c \<longleftrightarrow> cn_args c \<noteq> []"

definition numArgs :: "'s client \<Rightarrow> nat" where
  "numArgs c = length (cn_args c)"

definition popArg :: "('s, string) cstep" where
  "popArg c = (Inr (hd (cn_args c)), c\<lparr>cn_prev := hd (cn_args c), cn_args := tl (cn_args c)\<rparr>)"

end
