(* ===== verification/ClientArgs.thy ===== *)
theory ClientArgs
  imports GetOpts XmlFile Sysconfig
begin

text \<open>
  The arguments of the commands (\<open>client/snapper.cc\<close>): numbers of snapshots, pairs and ranges of them, and
  user data, with the messages and the exit for what is no such argument.
\<close>

subsection \<open>Numbers\<close>

definition read_num :: "string \<Rightarrow> ('s, u32) cstep" where
  "read_num str = (case read_uint str of (num, ok, rest) \<Rightarrow>
     if \<not> ok \<or> rest \<noteq> [] then die (''Invalid snapshot '' @ quoted str @ ''.'' @ endl) else retS num)"

text \<open>\<open>s.find(delim)\<close>.\<close>

fun find_str :: "string \<Rightarrow> string \<Rightarrow> nat option" where
  "find_str delim [] = (if delim = [] then Some 0 else None)"
| "find_str delim (c # cs) =
     (if starts_with (c # cs) delim then Some 0 else map_option Suc (find_str delim cs))"

definition read_nums :: "string \<Rightarrow> string \<Rightarrow> ('s, u32 \<times> u32) cstep" where
  "read_nums str delim = (case find_str delim str of
       None \<Rightarrow> die (''Invalid snapshots.'' @ endl)
     | Some pos \<Rightarrow> bindS (read_num (take pos str)) (\<lambda>num1.
         bindS (read_num (drop (pos + length delim) str)) (\<lambda>num2.
           if num1 = num2 then die (''Identical snapshots.'' @ endl) else retS (num1, num2))))"

text \<open>The loop of \<open>delete\<close> over a range: \<open>i\<close> wraps around, so that it never ends when the range ends with
  the largest number.\<close>

definition add_num :: "xsnapshot list \<Rightarrow> u32 \<Rightarrow> u32 list \<Rightarrow> u32 list" where
  "add_num xs i nums = (if x_find i xs \<noteq> length xs \<and> i \<notin> set nums then nums @ [i] else nums)"

partial_function (option) range_loop :: "xsnapshot list \<Rightarrow> u32 \<Rightarrow> u32 \<Rightarrow> u32 list \<Rightarrow> u32 list option" where
  "range_loop xs i hi nums = (if i \<le> hi then range_loop xs (i + 1) hi (add_num xs i nums) else Some nums)"

subsection \<open>User data\<close>

text \<open>One pair: \<open>None\<close> is invalid, an empty value erases the key.\<close>

definition put_pair :: "string \<Rightarrow> (string, string) smap \<Rightarrow> (string, string) smap option" where
  "put_pair s userdata = (case find_index CHR ''='' s of
       None \<Rightarrow> None
     | Some pos \<Rightarrow> (let key = trim is_space (take pos s); value = trim is_space (drop (Suc pos) s) in
         if key = [] then None
         else Some (if value = [] then sm_erase key userdata else sm_put key value userdata)))"

fun put_pairs :: "string list \<Rightarrow> (string, string) smap \<Rightarrow> (string, string) smap option" where
  "put_pairs [] userdata = Some userdata"
| "put_pairs (s # ss) userdata = (case put_pair s userdata of
       None \<Rightarrow> None | Some u \<Rightarrow> put_pairs ss u)"

definition read_userdata :: "string \<Rightarrow> (string, string) smap \<Rightarrow> ('s, (string, string) smap) cstep" where
  "read_userdata s old = (case put_pairs (split_compress (\<lambda>c. c = CHR '','') s) old of
       None \<Rightarrow> die (''Invalid userdata.'' @ endl) | Some u \<Rightarrow> retS u)"

definition show_userdata :: "(string, string) smap \<Rightarrow> string" where
  "show_userdata userdata = foldl (\<lambda>s (k, v). (if s \<noteq> [] then s @ '', '' else s) @ k @ ''='' @ v) [] userdata"

subsection \<open>What they do\<close>

lemma find_str_append: "CHR ''.'' \<notin> set a \<Longrightarrow> find_str ''..'' (a @ ''..'' @ b) = Some (length a)"
  by (induction a) (auto simp: starts_with_def)

lemma find_str_dash: "CHR ''-'' \<notin> set a \<Longrightarrow> find_str ''-'' (a @ ''-'' @ b) = Some (length a)"
  by (induction a) (auto simp: starts_with_def)

lemma read_num_decString [simp]: "read_num (decString (unat n)) c = (Inr n, c)"
  using read_uint_decString [of "[]" n] by (simp add: read_num_def)

lemma decString_chars: "c \<in> set (decString n) \<Longrightarrow> is_digit c"
  using decString_digits by blast

lemma read_nums_dots:
  assumes "a \<noteq> b"
  shows "read_nums (decString (unat a) @ ''..'' @ decString (unat b)) ''..'' c = (Inr (a, b), c)"
proof -
  have "CHR ''.'' \<notin> set (decString (unat a))" using decString_chars [of "CHR ''.''" "unat a"] by (auto simp: is_digit_def)
  then have "find_str ''..'' (decString (unat a) @ ''..'' @ decString (unat b)) = Some (length (decString (unat a)))"
    by (rule find_str_append)
  then show ?thesis using assms by (simp add: read_nums_def bindS_def)
qed

lemma read_nums_dash:
  assumes "a \<noteq> b"
  shows "read_nums (decString (unat a) @ ''-'' @ decString (unat b)) ''-'' c = (Inr (a, b), c)"
proof -
  have "CHR ''-'' \<notin> set (decString (unat a))" using decString_chars [of "CHR ''-''" "unat a"] by (auto simp: is_digit_def)
  then have "find_str ''-'' (decString (unat a) @ ''-'' @ decString (unat b)) = Some (length (decString (unat a)))"
    by (rule find_str_dash)
  then show ?thesis using assms by (simp add: read_nums_def bindS_def)
qed

text \<open>The range loop ends for every range that does not end with the largest number, with the numbers of the
  range that the list has and that were not there before, in ascending order.\<close>

definition range_nums :: "xsnapshot list \<Rightarrow> nat \<Rightarrow> nat \<Rightarrow> u32 list \<Rightarrow> u32 list" where
  "range_nums xs a b nums = filter (\<lambda>i. x_find i xs \<noteq> length xs \<and> i \<notin> set nums) (map of_nat [a..<b])"

lemma range_loop_ends:
  assumes "hi \<noteq> (- 1 :: u32)"
  shows "range_loop xs i hi nums = Some (nums @ range_nums xs (unat i) (Suc (unat hi)) nums)"
proof -
  have "unat hi < unat (- 1 :: u32)" using assms by (simp add: word_less_nat_alt [symmetric] order.not_eq_order_implies_strict)
  then have "unat hi < 2 ^ 32 - 1" by (simp add: unsigned_minus_1_eq_mask mask_eq_exp_minus_1)
  then show ?thesis
  proof (induction "Suc (unat hi) - unat i" arbitrary: i nums)
    case 0
    then have "\<not> i \<le> hi" by (simp add: word_le_nat_alt)
    then show ?case using 0 by (subst range_loop.simps) (simp add: range_nums_def)
  next
    case (Suc n)
    then have le: "i \<le> hi" by (simp add: word_le_nat_alt)
    have s: "unat (i + 1) = Suc (unat i)"
    proof -
      have "i + 1 \<noteq> 0"
      proof
        assume "i + 1 = 0"
        then have "i = - 1" by (simp add: eq_neg_iff_add_eq_0)
        then show False using le assms word_order.extremum_uniqueI [of hi] by simp
      qed
      then show ?thesis using unatSuc [of i] by (simp add: add.commute)
    qed
    have "range_loop xs i hi nums = range_loop xs (i + 1) hi (add_num xs i nums)"
      using le by (subst range_loop.simps) simp
    also have "\<dots> = Some (add_num xs i nums @ range_nums xs (Suc (unat i)) (Suc (unat hi)) (add_num xs i nums))"
      using Suc s by (simp add: Suc.hyps(1))
    also have "add_num xs i nums @ range_nums xs (Suc (unat i)) (Suc (unat hi)) (add_num xs i nums)
      = nums @ range_nums xs (unat i) (Suc (unat hi)) nums"
    proof -
      have u: "[unat i..<Suc (unat hi)] = unat i # [Suc (unat i)..<Suc (unat hi)]"
        using le by (simp add: upt_rec [of "unat i"] word_le_nat_alt)
      have ne: "(of_nat k :: u32) \<noteq> i" if "k \<in> set [Suc (unat i)..<Suc (unat hi)]" for k
      proof
        assume "(of_nat k :: u32) = i"
        moreover have "k \<le> unat hi" using that by auto
        then have "k < 2 ^ 32" using \<open>unat hi < 2 ^ 32 - 1\<close> by linarith
        ultimately have "k = unat i" by (auto simp: unat_of_nat)
        then show False using that by auto
      qed
      have "filter (\<lambda>j. x_find j xs \<noteq> length xs \<and> j \<notin> set (nums @ [i])) (map of_nat [Suc (unat i)..<Suc (unat hi)])
        = filter (\<lambda>j. x_find j xs \<noteq> length xs \<and> j \<notin> set nums) (map of_nat [Suc (unat i)..<Suc (unat hi)])"
        using ne by (intro filter_cong) auto
      then show ?thesis unfolding range_nums_def u by (simp add: add_num_def)
    qed
    finally show ?case .
  qed
qed

lemma range_loop_hangs: "range_loop xs i (- 1) nums = None"
proof -
  have "hi \<noteq> - 1" if "range_loop xs i hi nums = Some r" for i hi nums r
  proof (rule range_loop.raw_induct [where P = "\<lambda>xs i hi nums r. hi \<noteq> - 1", OF _ that])
    fix f :: "xsnapshot list \<Rightarrow> u32 \<Rightarrow> u32 \<Rightarrow> u32 list \<Rightarrow> u32 list option" and xs i nums r and hi :: u32
    assume "\<And>xs i hi nums r. f xs i hi nums = Some r \<Longrightarrow> hi \<noteq> - 1"
      "(if i \<le> hi then f xs (i + 1) hi (add_num xs i nums) else Some nums) = Some r"
    then show "hi \<noteq> - 1" by (cases "i \<le> hi") auto
  qed
  then show ?thesis by (cases "range_loop xs i (- 1) nums") auto
qed

end
