(* ===== verification/Tables.thy ===== *)
theory Tables
  imports Strings
begin

text \<open>
  Tables on a terminal (\<open>client/utils/Table.cc\<close>) and the width of text in columns
  (\<open>client/utils/text.cc\<close>).  \<open>mbrtowc\<close> and \<open>wcwidth\<close>, which depend on the locale, are parameters; the
  shift state is that of an encoding without one.  What a stream would write is the string a function
  returns.  A style is the value of its enumerator, from \<open>Ascii\<close> = 0 to \<open>none\<close> = 11.
\<close>

subsection \<open>Columns\<close>

text \<open>The result of \<open>mbrtowc\<close>: \<open>-1\<close> or \<open>-2\<close>, or a wide character and the number of its bytes, 0 at the end.\<close>

datatype mb_result = MbError | MbChar nat nat

record charset =
  cs_mbrtowc :: "string \<Rightarrow> mb_result"
  cs_wcwidth :: "nat \<Rightarrow> int"

text \<open>The columns after a character, and whether a terminal control sequence goes on.\<close>

definition step_cols :: "charset \<Rightarrow> nat \<Rightarrow> int \<times> bool \<Rightarrow> int \<times> bool" where
  "step_cols C wc st = (case st of (s_cols, in_ctrlseq) \<Rightarrow>
     if \<not> in_ctrlseq \<and> wc = 27 then (s_cols, True)
     else if in_ctrlseq \<and> wc = 109 then (s_cols, False)
     else if \<not> in_ctrlseq then (s_cols + cs_wcwidth C wc, in_ctrlseq)
     else (s_cols, in_ctrlseq))"

function mbs_width_e :: "charset \<Rightarrow> string \<Rightarrow> int \<times> bool \<Rightarrow> int" where
  "mbs_width_e C ptr st = (case cs_mbrtowc C ptr of
       MbError \<Rightarrow> - 1
     | MbChar wc c_bytes \<Rightarrow>
         if c_bytes = 0 \<or> ptr = [] then fst st
         else mbs_width_e C (drop c_bytes ptr) (step_cols C wc st))"
  by pat_completeness auto
termination
  by (relation "measure (\<lambda>(C, ptr, st). length ptr)") auto

declare mbs_width_e.simps [simp del]

definition mbs_width :: "charset \<Rightarrow> string \<Rightarrow> u32" where
  "mbs_width C str = (let c = mbs_width_e C str (0, False) in
     if c < 0 then of_nat (length str) else word_of_int c)"

text \<open>The loop of \<open>mbs_substr_by_width\<close>: the string that is left, the offset of \<open>ptr\<close>, the columns, and the
  beginning when it is known.  The result is \<open>None\<close> for a bad sequence, else the beginning, the end when one was
  marked, and the offset at which the loop ended.\<close>

function substr_loop :: "charset \<Rightarrow> nat \<Rightarrow> nat option \<Rightarrow> string \<Rightarrow> nat \<Rightarrow> int \<times> bool \<Rightarrow> nat option
    \<Rightarrow> (nat option \<times> nat option \<times> nat) option" where
  "substr_loop C pos n s ptr st sptr = (case cs_mbrtowc C s of
       MbError \<Rightarrow> None
     | MbChar wc c_bytes \<Rightarrow>
         if c_bytes = 0 \<or> s = [] then Some (sptr, None, ptr)
         else (let st' = step_cols C wc st;
                   cols = unat (word_of_int (fst st') :: u32);
                   prev = unat (word_of_int (fst st) :: u32);
                   sptr' = (if sptr = None \<and> cols \<ge> pos
                            then Some (if prev = pos then ptr else ptr + c_bytes) else sptr) in
           if (case n of None \<Rightarrow> False | Some k \<Rightarrow> cols \<ge> pos + k)
           then Some (sptr', Some (if cols = pos + the n then ptr + c_bytes else ptr), ptr)
           else substr_loop C pos n (drop c_bytes s) (ptr + c_bytes) st' sptr'))"
  by pat_completeness auto
termination
  by (relation "measure (\<lambda>(C, pos, n, s, ptr, st, sptr). length s)") auto

declare substr_loop.simps [simp del]

text \<open>\<open>string::npos\<close> is \<open>None\<close>.\<close>

definition mbs_substr_by_width :: "charset \<Rightarrow> string \<Rightarrow> nat \<Rightarrow> nat option \<Rightarrow> string" where
  "mbs_substr_by_width C str pos n =
     (if n = Some 0 then []
      else (case substr_loop C pos n str 0 (0, False) None of
          None \<Rightarrow> (case n of None \<Rightarrow> drop pos str | Some k \<Rightarrow> take k (drop pos str))
        | Some (sptr, eptr, ptr) \<Rightarrow> (let e = (case eptr of None \<Rightarrow> ptr | Some e \<Rightarrow> e) in
            case sptr of None \<Rightarrow> [] | Some b \<Rightarrow> if e = b then [] else take (e - b) (drop b str))))"

subsection \<open>Tables\<close>

type_synonym table_row = "string list"

record table =
  t_has_header :: bool
  t_header :: table_row
  t_rows :: "table_row list"
  t_max_col :: nat
  t_max_width :: "u32 list"
  t_width :: int
  t_style :: nat
  t_screen_width :: int
  t_abbrev_col :: "bool list"
  t_margin :: nat
  t_force_break_after :: int
  t_do_wrap :: bool

definition none_style :: nat where
  "none_style = 11"

definition end_style :: nat where
  "end_style = 12"

definition box_line :: "nat \<Rightarrow> string" where
  "box_line n = [CHR 0xE2, if n < 0x40 then CHR 0x94 else CHR 0x95, char_of (0x80 + n mod 0x40)]"

text \<open>The vertical line, the horizontal line and the crossing of each style; \<open>box_line n\<close> is the UTF-8 form of
  U+2500 + \<open>n\<close>.\<close>

definition lines :: "(string \<times> string \<times> string) list" where
  "lines =
    [(''|'', ''-'', ''+''),
     (box_line 0x02, box_line 0x00, box_line 0x3C),
     (box_line 0x03, box_line 0x01, box_line 0x4B),
     (box_line 0x51, box_line 0x50, box_line 0x6C),
     (box_line 0x06, box_line 0x04, box_line 0x3C),
     (box_line 0x07, box_line 0x05, box_line 0x4B),
     (box_line 0x02, box_line 0x01, box_line 0x3F),
     (box_line 0x02, box_line 0x50, box_line 0x6A),
     (box_line 0x03, box_line 0x00, box_line 0x42),
     (box_line 0x51, box_line 0x00, box_line 0x6B),
     ('':'', ''-'', ''+'')]"

definition spaces :: "nat \<Rightarrow> string" where
  "spaces n = replicate n CHR '' ''"

definition newline :: string where
  "newline = [CHR 0x0A]"

text \<open>The constructor; \<open>style\<close> is \<open>Table::defaultStyle\<close>, and \<open>screen_width\<close> what \<open>get_screen_width\<close> returns, \<open>-1\<close>
  when the output is no terminal.\<close>

definition new_table :: "nat \<Rightarrow> int \<Rightarrow> table" where
  "new_table style screen_width = \<lparr>t_has_header = False, t_header = [], t_rows = [], t_max_col = 0,
     t_max_width = [0], t_width = 0, t_style = style, t_screen_width = screen_width, t_abbrev_col = [],
     t_margin = 0, t_force_break_after = - 1, t_do_wrap = False\<rparr>"

subsection \<open>Rows and widths\<close>

text \<open>The loop of \<open>updateColWidths\<close> from column \<open>c\<close> on.\<close>

fun update_widths :: "charset \<Rightarrow> int \<Rightarrow> nat \<Rightarrow> table_row \<Rightarrow> table \<Rightarrow> table" where
  "update_widths C sepwidth c [] t = t"
| "update_widths C sepwidth c (s # ss) t =
     (let t1 = (if t_max_col t < c
                then t\<lparr>t_max_col := c, t_max_width := take (Suc c) (t_max_width t)
                         @ replicate (Suc c - length (t_max_width t)) 0\<rparr> else t);
          m = max (t_max_width t1 ! c) (mbs_width C s)
      in update_widths C sepwidth (Suc c) ss
           (t1\<lparr>t_max_width := (t_max_width t1)[c := m], t_width := t_width t1 + uint m + sepwidth\<rparr>))"

definition updateColWidths :: "charset \<Rightarrow> table_row \<Rightarrow> table \<Rightarrow> table" where
  "updateColWidths C tr t =
     (let sepwidth = (if t_style t = none_style then 2 else 3);
          t1 = update_widths C sepwidth 0 tr (t\<lparr>t_width := - sepwidth\<rparr>)
      in t1\<lparr>t_width := t_width t1 + int (t_margin t1) * 2\<rparr>)"

definition table_add :: "charset \<Rightarrow> table_row \<Rightarrow> table \<Rightarrow> table" where
  "table_add C tr t = updateColWidths C tr (t\<lparr>t_rows := t_rows t @ [tr]\<rparr>)"

definition setHeader :: "charset \<Rightarrow> table_row \<Rightarrow> table \<Rightarrow> table" where
  "setHeader C tr t = updateColWidths C tr (t\<lparr>t_has_header := True, t_header := tr\<rparr>)"

definition allowAbbrev :: "nat \<Rightarrow> table \<Rightarrow> table" where
  "allowAbbrev column t =
     (let ab = t_abbrev_col t;
          ab' = (if column \<ge> length ab then ab @ replicate (Suc column - length ab) False else ab)
      in t\<lparr>t_abbrev_col := ab'[column := True]\<rparr>)"

definition table_wrap :: "int \<Rightarrow> table \<Rightarrow> table" where
  "table_wrap force_break_after t = (if force_break_after \<ge> 0
     then t\<lparr>t_force_break_after := force_break_after, t_do_wrap := True\<rparr> else t\<lparr>t_do_wrap := True\<rparr>)"

definition lineStyle :: "nat \<Rightarrow> table \<Rightarrow> table" where
  "lineStyle st t = (if st < end_style then t\<lparr>t_style := st\<rparr> else t)"

text \<open>The division truncates; the half is compared as \<open>unsigned\<close>.\<close>

definition set_margin :: "nat \<Rightarrow> table \<Rightarrow> table" where
  "set_margin margin t = (let w = t_screen_width t; half = (if w < 0 then - ((- w) div 2) else w div 2) in
     if margin < unat (word_of_int half :: u32) then t\<lparr>t_margin := margin\<rparr> else t)"

text \<open>\<open>list::sort\<close> is stable.\<close>

definition table_sort :: "nat \<Rightarrow> table \<Rightarrow> table" where
  "table_sort by_column t = t\<lparr>t_rows := sort_key (\<lambda>r. r ! by_column) (t_rows t)\<rparr>"

subsection \<open>Output\<close>

definition dumbDumpTo :: "table_row \<Rightarrow> string" where
  "dumbDumpTo tr = join [CHR 0x09] tr @ newline"

text \<open>One cell: a text that is wider than its column is cut, any other is padded on the right.\<close>

definition dump_cell :: "charset \<Rightarrow> u32 \<Rightarrow> string \<Rightarrow> string" where
  "dump_cell C w s = (let ssize = mbs_width C s in
     if ssize > w then
       (let cutby = w - 2; cutstr = mbs_substr_by_width C s 0 (Some (unat cutby)) in
        cutstr @ spaces (unat (cutby - mbs_width C cutstr)) @ ''->'')
     else s @ spaces (unat (w - ssize)))"

definition must_wrap :: "table \<Rightarrow> nat \<Rightarrow> int \<Rightarrow> bool" where
  "must_wrap t c curpos \<longleftrightarrow> t_do_wrap t \<and> t_width t > t_screen_width t
     \<and> (curpos + uint (t_max_width t ! c) + (if t_style t \<noteq> none_style then 2 else 3) > t_screen_width t
        \<or> t_force_break_after t = int c - 1)"

fun dump_cells :: "charset \<Rightarrow> table \<Rightarrow> nat \<Rightarrow> int \<Rightarrow> table_row \<Rightarrow> string" where
  "dump_cells C t c curpos [] = newline"
| "dump_cells C t c curpos (s # ss) =
     (let vline = (if t_style t \<noteq> none_style then fst (lines ! t_style t) else []);
          do_wrap = (c \<noteq> 0 \<and> must_wrap t c curpos);
          sep = (if c = 0 then [] else if do_wrap then newline @ spaces (t_margin t + 2)
                 else '' '' @ vline @ '' '');
          pos = (if do_wrap then int (t_margin t) + 2 else curpos)
      in sep @ dump_cell C (t_max_width t ! c) s
         @ dump_cells C t (Suc c) (pos + uint (t_max_width t ! c) + (if t_style t \<noteq> none_style then 2 else 3)) ss)"

definition row_dumpTo :: "charset \<Rightarrow> table \<Rightarrow> table_row \<Rightarrow> string" where
  "row_dumpTo C t tr = spaces (t_margin t) @ dump_cells C t 0 (int (t_margin t)) tr"

definition dumpRule :: "table \<Rightarrow> string" where
  "dumpRule t =
     (let hline = (if t_style t \<noteq> none_style then fst (snd (lines ! t_style t)) else '' '');
          cross = (if t_style t \<noteq> none_style then snd (snd (lines ! t_style t)) else '' '')
      in spaces (t_margin t)
         @ concat (map (\<lambda>c. (if c = 0 then [] else hline @ cross @ hline)
             @ concat (replicate (unat (t_max_width t ! c)) hline)) [0..<Suc (t_max_col t)])
         @ newline)"

text \<open>The first column that may be shortened, and whose shortening makes the table fit, is shortened.\<close>

fun abbrev_loop :: "nat \<Rightarrow> bool list \<Rightarrow> table \<Rightarrow> table" where
  "abbrev_loop c [] t = t"
| "abbrev_loop c (b # bs) t =
     (if c > t_max_col t then t
      else (let over = t_width t - t_screen_width t; w = t_max_width t ! c in
        if b \<and> over > 0 \<and> w > 3 \<and> over < uint w - 3
        then t\<lparr>t_max_width := (t_max_width t)[c := w - word_of_int over]\<rparr>
        else abbrev_loop (Suc c) bs t))"

definition table_dumpTo :: "charset \<Rightarrow> table \<Rightarrow> string" where
  "table_dumpTo C t0 = (let t = abbrev_loop 0 (t_abbrev_col t0) t0 in
     (if t_has_header t then row_dumpTo C t (t_header t) @ dumpRule t else [])
     @ concat (map (row_dumpTo C t) (t_rows t)))"

subsection \<open>Every cell fits its column\<close>

definition fits_row :: "charset \<Rightarrow> u32 list \<Rightarrow> table_row \<Rightarrow> bool" where
  "fits_row C ws tr \<longleftrightarrow> length tr \<le> length ws \<and> (\<forall>c<length tr. mbs_width C (tr ! c) \<le> ws ! c)"

definition table_ok :: "charset \<Rightarrow> table \<Rightarrow> bool" where
  "table_ok C t \<longleftrightarrow> length (t_max_width t) = Suc (t_max_col t)
     \<and> (\<forall>tr\<in>set (t_rows t). fits_row C (t_max_width t) tr)
     \<and> (t_has_header t \<longrightarrow> fits_row C (t_max_width t) (t_header t))"

definition grows :: "u32 list \<Rightarrow> u32 list \<Rightarrow> bool" where
  "grows ws vs \<longleftrightarrow> length ws \<le> length vs \<and> (\<forall>c<length ws. ws ! c \<le> vs ! c)"

lemma grows_trans: "grows us vs \<Longrightarrow> grows vs ws \<Longrightarrow> grows us ws"
  unfolding grows_def by (meson order_trans less_le_trans)

lemma fits_row_grows: "fits_row C ws tr \<Longrightarrow> grows ws vs \<Longrightarrow> fits_row C vs tr"
  unfolding fits_row_def grows_def by (meson order_trans less_le_trans)

lemma update_widths_grows:
  assumes "length (t_max_width t) = Suc (t_max_col t)" "c \<le> Suc (t_max_col t)"
  shows "(let t' = update_widths C sp c ss t in
     length (t_max_width t') = Suc (t_max_col t') \<and> grows (t_max_width t) (t_max_width t')
     \<and> t_rows t' = t_rows t \<and> t_header t' = t_header t \<and> t_has_header t' = t_has_header t
     \<and> c + length ss \<le> length (t_max_width t')
     \<and> (\<forall>k<length ss. mbs_width C (ss ! k) \<le> t_max_width t' ! (c + k)))"
  using assms
proof (induction C sp c ss t rule: update_widths.induct)
  case (2 C sp c s ss t)
  define t1 where "t1 = (if t_max_col t < c then t\<lparr>t_max_col := c, t_max_width := take (Suc c) (t_max_width t)
    @ replicate (Suc c - length (t_max_width t)) 0\<rparr> else t)"
  define m where "m = max (t_max_width t1 ! c) (mbs_width C s)"
  let ?t2 = "t1\<lparr>t_max_width := (t_max_width t1)[c := m], t_width := t_width t1 + uint m + sp\<rparr>"
  let ?t' = "update_widths C sp (Suc c) ss ?t2"
  have t1: "length (t_max_width t1) = Suc (t_max_col t1)" "c \<le> t_max_col t1" "grows (t_max_width t) (t_max_width t1)"
    "t_rows t1 = t_rows t" "t_header t1 = t_header t" "t_has_header t1 = t_has_header t"
    using "2.prems" by (auto simp: t1_def grows_def nth_append)
  have g: "grows (t_max_width t1) (t_max_width ?t2)"
    unfolding grows_def
  proof (intro conjI allI impI)
    fix k assume "k < length (t_max_width t1)"
    then show "t_max_width t1 ! k \<le> t_max_width ?t2 ! k" by (cases "k = c") (simp_all add: m_def)
  qed simp
  have IH: "length (t_max_width ?t') = Suc (t_max_col ?t') \<and> grows (t_max_width ?t2) (t_max_width ?t')
     \<and> t_rows ?t' = t_rows ?t2 \<and> t_header ?t' = t_header ?t2 \<and> t_has_header ?t' = t_has_header ?t2
     \<and> Suc c + length ss \<le> length (t_max_width ?t')
     \<and> (\<forall>k<length ss. mbs_width C (ss ! k) \<le> t_max_width ?t' ! (Suc c + k))"
    using "2.IH" [OF t1_def m_def] t1(1,2) by (simp add: Let_def)
  have e: "update_widths C sp c (s # ss) t = ?t'" by (simp add: t1_def m_def Let_def)
  have "mbs_width C s \<le> t_max_width ?t2 ! c" using t1(1,2) by (simp add: m_def)
  also have "\<dots> \<le> t_max_width ?t' ! c"
  proof -
    have "c < length (t_max_width ?t2)" using t1(1,2) by simp
    then show ?thesis using IH unfolding grows_def by blast
  qed
  finally have s: "mbs_width C s \<le> t_max_width ?t' ! c" .
  have "\<forall>k<length (s # ss). mbs_width C ((s # ss) ! k) \<le> t_max_width ?t' ! (c + k)"
  proof (intro allI impI)
    fix k assume "k < length (s # ss)"
    then show "mbs_width C ((s # ss) ! k) \<le> t_max_width ?t' ! (c + k)" using s IH by (cases k) auto
  qed
  moreover have "grows (t_max_width t) (t_max_width ?t')"
    using grows_trans [OF t1(3) grows_trans [OF g]] IH by blast
  ultimately show ?case unfolding e Let_def using IH t1(4-6) by simp
qed (simp add: grows_def)

lemma update_ok:
  assumes "length (t_max_width t) = Suc (t_max_col t)"
  shows "(let t' = updateColWidths C tr t in
     length (t_max_width t') = Suc (t_max_col t') \<and> grows (t_max_width t) (t_max_width t')
     \<and> t_rows t' = t_rows t \<and> t_header t' = t_header t \<and> t_has_header t' = t_has_header t
     \<and> fits_row C (t_max_width t') tr)"
  using update_widths_grows [of "t\<lparr>t_width := - (if t_style t = none_style then 2 else 3)\<rparr>" 0 C
      "if t_style t = none_style then 2 else 3" tr] assms
  by (simp add: updateColWidths_def Let_def fits_row_def)

lemma table_ok_new: "table_ok C (new_table style w)"
  by (simp add: table_ok_def new_table_def)

lemma table_ok_add: "table_ok C t \<Longrightarrow> table_ok C (table_add C tr t)"
  using update_ok [of "t\<lparr>t_rows := t_rows t @ [tr]\<rparr>" C tr] fits_row_grows
  by (auto simp: table_ok_def table_add_def Let_def)

lemma table_ok_header: "table_ok C t \<Longrightarrow> table_ok C (setHeader C tr t)"
  using update_ok [of "t\<lparr>t_has_header := True, t_header := tr\<rparr>" C tr] fits_row_grows
  by (auto simp: table_ok_def setHeader_def Let_def)

end
