(* ===== verification/ClientMain.thy ===== *)
theory ClientMain
  imports ClientArgs Cleanup Tables Snapper
begin

text \<open>
  The commands of the client and its main function (\<open>client/snapper.cc\<close>).  A command is a step on the
  client's state: what is left of the arguments, what the peer knows, what was printed, and the file system.
  Messages are those of the C locale.  Parameters are the C library's account database, \<open>strftime\<close> with the
  format \<open>%c\<close> (the empty string when it stores nothing), the terminal, the programs \<open>diff\<close> and \<open>sh\<close>, the
  mount table, the version and the value of a variable that is never initialised.
\<close>

record 's client_env = cleanup_env +
  ce_connects :: bool
  ce_username :: "u32 \<Rightarrow> string"
  ce_strftime_c :: "tm \<Rightarrow> string"
  ce_sysenv :: sysenv
  ce_mtab :: "mtab_entry list option"
  ce_shell :: "fs \<Rightarrow> string \<Rightarrow> string list"
  ce_system :: "string \<Rightarrow> 's \<times> fs \<Rightarrow> 's \<times> fs"
  ce_charset :: charset
  ce_screen_width :: int
  ce_undo :: undo_env
  ce_cwd :: "string list"
  ce_uninit :: u32
  ce_version :: string
  ce_diffbin :: string

record globals =
  g_verbose :: bool
  g_config_name :: string
  g_style :: nat

type_synonym 's command = "'s client_env \<Rightarrow> globals \<Rightarrow> 's peer \<Rightarrow> ('s, unit) cstep"

subsection \<open>Shared parts\<close>

fun foldS :: "('b \<Rightarrow> 'a \<Rightarrow> ('s, 'e, 'a) gstep) \<Rightarrow> 'b list \<Rightarrow> 'a \<Rightarrow> ('s, 'e, 'a) gstep" where
  "foldS f [] a = retS a"
| "foldS f (x # xs) a = bindS (f x a) (foldS f xs)"

text \<open>\<open>while (getopts.hasArgs())\<close> with a body that takes one argument.\<close>

definition for_args :: "(string \<Rightarrow> 'a \<Rightarrow> ('s, 'a) cstep) \<Rightarrow> 'a \<Rightarrow> ('s, 'a) cstep" where
  "for_args f a = bindS (getS cn_args) (\<lambda>as. foldS (\<lambda>_ x. bindS popArg (\<lambda>arg. f arg x)) as a)"

definition the_opt :: "parsed_opts \<Rightarrow> string \<Rightarrow> string \<Rightarrow> string" where
  "the_opt opts name old = (case map_of opts name of None \<Rightarrow> old | Some v \<Rightarrow> v)"

definition no_args :: "string \<Rightarrow> ('s, unit) cstep" where
  "no_args name = bindS (getS hasArgs) (\<lambda>b.
     if b then die (''Command '' @ quoted name @ '' does not take arguments.'' @ endl) else retS ())"

definition needs_args :: "bool \<Rightarrow> string \<Rightarrow> string \<Rightarrow> ('s, unit) cstep" where
  "needs_args ok name what =
     (if ok then retS () else die (''Command '' @ quoted name @ '' needs '' @ what @ ''.'' @ endl))"

definition format_d :: "u32 \<Rightarrow> string" where
  "format_d w = (let n = sint w in if n < 0 then ''-'' @ decString (nat (- n)) else decString (nat n))"

definition show_num :: "u32 \<Rightarrow> string" where
  "show_num n = decString (unat n)"

definition show_date :: "('s, 'm) client_env_scheme \<Rightarrow> int \<Rightarrow> string" where
  "show_date W t1 = (let s = ce_strftime_c W (ce_localtime W t1) in if s = [] then ''unknown'' else s)"

definition print_table :: "('s, 'm) client_env_scheme \<Rightarrow> globals \<Rightarrow> table_row \<Rightarrow> table_row list \<Rightarrow> ('s, unit) cstep" where
  "print_table W g header rows = say (table_dumpTo (ce_charset W)
     (fold (table_add (ce_charset W)) rows (setHeader (ce_charset W) header (new_table (g_style g) (ce_screen_width W)))))"

text \<open>Paths of the command line are relative to the working directory.\<close>

definition from_cwd :: "('s, 'm) client_env_scheme \<Rightarrow> string \<Rightarrow> string" where
  "from_cwd W p = (if p = [] \<or> starts_with p ''/'' then p else path_str (ce_cwd W) @ ''/'' @ p)"

definition realpath :: "('s, 'm) client_env_scheme \<Rightarrow> fs \<Rightarrow> string \<Rightarrow> string" where
  "realpath W fs path = (case namei fs True (from_cwd W path) of
       Inl _ \<Rightarrow> [] | Inr (c, n) \<Rightarrow> if c = [] then ''/'' else path_str c)"

definition opening_failed :: "string \<Rightarrow> string" where
  "opening_failed name = ''Opening file '' @ quoted name @ '' failed.'' @ endl"

definition open_write :: "('s, 'm) client_env_scheme \<Rightarrow> string \<Rightarrow> ('s, string list) cstep" where
  "open_write W name c = (case sys_open_trunc (cn_fs c) (e_umask (ce_undo W)) (from_cwd W name) 0x1B6 of
       Inl _ \<Rightarrow> die (opening_failed name) c
     | Inr (fd, fs) \<Rightarrow> (Inr fd, c\<lparr>cn_fs := fs\<rparr>))"

definition open_read :: "('s, 'm) client_env_scheme \<Rightarrow> string \<Rightarrow> ('s, string list) cstep" where
  "open_read W name c = (case sys_open_read (cn_fs c) (from_cwd W name) of
       Inl _ \<Rightarrow> die (opening_failed name) c | Inr fd \<Rightarrow> (Inr fd, c))"

definition my_comparison :: "globals \<Rightarrow> 's peer \<Rightarrow> u32 \<times> u32 \<Rightarrow> bool \<Rightarrow> ('s, file_paths \<times> file_rec list) cstep" where
  "my_comparison g P nums mount = (let mounted = (\<lambda>num sys.
       if \<not> mount then retS [] else if num \<noteq> 0 then command_mount_xsnapshots P (g_config_name g) num False else retS sys) in
     thenS (command_create_xcomparison P (g_config_name g) (fst nums) (snd nums))
    (bindS (command_get_xmount_point P (g_config_name g) 0) (\<lambda>sys.
     bindS (mounted (fst nums) sys) (\<lambda>pre.
     bindS (mounted (snd nums) sys) (\<lambda>post.
     bindS (command_get_xfiles P (g_config_name g) (fst nums) (snd nums)) (\<lambda>tmp.
       retS (\<lparr>system_path = sys, pre_path = pre, post_path = post\<rparr>,
             map (\<lambda>x. new_file (xf_name x) (xf_status x)) tmp)))))))"

subsection \<open>Configurations\<close>

definition command_list_configs :: "'s command" where
  "command_list_configs W g P = thenS (getopts_parse (Some ''list-configs'') [])
     (thenS (no_args ''list-configs'')
     (bindS (command_list_xconfigs P) (\<lambda>cis.
       print_table W g [''Config'', ''Subvolume''] (map (\<lambda>ci. [xc_config_name ci, xc_subvolume ci]) cis))))"

definition create_config_options :: "option_spec list" where
  "create_config_options =
     [\<lparr>op_name = ''fstype'', op_arg = required_argument, op_val = Some CHR ''f''\<rparr>,
      \<lparr>op_name = ''template'', op_arg = required_argument, op_val = Some CHR ''t''\<rparr>]"

definition command_create_config :: "'s command" where
  "command_create_config W g P = bindS (getopts_parse (Some ''create-config'') create_config_options) (\<lambda>opts.
     bindS (getS numArgs) (\<lambda>n. thenS (needs_args (n = 1) ''create-config'' ''one argument'')
    (bindS popArg (\<lambda>arg. bindS (getS cn_fs) (\<lambda>fs.
       let subvolume = realpath W fs arg in
       if subvolume = [] then die (''Invalid subvolume.'' @ endl)
       else (let fstype = the_opt opts ''fstype'' []; template_name = the_opt opts ''template'' ''default'' in
         bindS (if fstype \<noteq> [] then retS fstype
                else (case detectFstype (ce_sysenv W) (ce_mtab W) subvolume of
                    None \<Rightarrow> die (''Detecting filesystem type failed.'' @ endl)
                  | Some t \<Rightarrow> retS t))
           (\<lambda>fstype. command_create_xconfig P (g_config_name g) subvolume fstype template_name)))))))"

definition command_delete_config :: "'s command" where
  "command_delete_config W g P = thenS (getopts_parse (Some ''delete-config'') [])
     (thenS (no_args ''delete-config'') (command_delete_xconfig P (g_config_name g)))"

subsection \<open>Listing snapshots\<close>

datatype list_mode = LM_ALL | LM_SINGLE | LM_PRE_POST

definition list_mode_of :: "string \<Rightarrow> list_mode option" where
  "list_mode_of t = (if t = ''all'' then Some LM_ALL else if t = ''single'' then Some LM_SINGLE
     else if t = ''pre-post'' then Some LM_PRE_POST else None)"

definition row_all :: "('s, 'm) client_env_scheme \<Rightarrow> xsnapshot \<Rightarrow> stop + table_row" where
  "row_all W x = (case toString (unat (xs_type x)) of
       Inl e \<Rightarrow> Inl (Threw e)
     | Inr t \<Rightarrow> Inr [t, show_num (xs_num x), if xs_is POST x then show_num (xs_pre_num x) else [],
         if x_isCurrent x then [] else show_date W (getDate x), ce_username W (xs_uid x), xs_cleanup x,
         xs_description x, show_userdata (xs_userdata x)])"

definition row_single :: "('s, 'm) client_env_scheme \<Rightarrow> xsnapshot \<Rightarrow> table_row" where
  "row_single W x = [show_num (xs_num x), if x_isCurrent x then [] else show_date W (getDate x),
     ce_username W (xs_uid x), xs_description x, show_userdata (xs_userdata x)]"

definition rows_pre_post :: "('s, 'm) client_env_scheme \<Rightarrow> xsnapshot list \<Rightarrow> nat \<Rightarrow> stop + table_row list" where
  "rows_pre_post W xs i =
     (if \<not> xs_is PRE (xs ! i) then Inr []
      else bindR (x_findPost i xs) (\<lambda>j. Inr (if j = length xs then []
        else [[show_num (xs_num (xs ! i)), show_num (xs_num (xs ! j)), show_date W (getDate (xs ! i)),
               show_date W (getDate (xs ! j)), xs_description (xs ! i), show_userdata (xs_userdata (xs ! i))]])))"

definition list_rows :: "('s, 'm) client_env_scheme \<Rightarrow> list_mode \<Rightarrow> xsnapshot list \<Rightarrow> stop + table_row list" where
  "list_rows W mode xs = (case mode of
       LM_ALL \<Rightarrow> mapR (row_all W) xs
     | LM_SINGLE \<Rightarrow> Inr (map (row_single W) (filter (xs_is SINGLE) xs))
     | LM_PRE_POST \<Rightarrow> bindR (mapR (rows_pre_post W xs) [0..<length xs]) (\<lambda>rs. Inr (concat rs)))"

definition list_header :: "list_mode \<Rightarrow> table_row" where
  "list_header mode = (case mode of
       LM_ALL \<Rightarrow> [''Type'', ''#'', ''Pre #'', ''Date'', ''User'', ''Cleanup'', ''Description'', ''Userdata'']
     | LM_SINGLE \<Rightarrow> [''#'', ''Date'', ''User'', ''Description'', ''Userdata'']
     | LM_PRE_POST \<Rightarrow> [''Pre #'', ''Post #'', ''Pre Date'', ''Post Date'', ''Description'', ''Userdata''])"

definition command_list :: "'s command" where
  "command_list W g P = bindS (getopts_parse (Some ''list'')
       [\<lparr>op_name = ''type'', op_arg = required_argument, op_val = Some CHR ''t''\<rparr>]) (\<lambda>opts.
     thenS (no_args ''list'')
    (bindS (case list_mode_of (the_opt opts ''type'' ''all'') of
         None \<Rightarrow> die (''Unknown type of snapshots.'' @ endl) | Some m \<Rightarrow> retS m) (\<lambda>mode.
     bindS (command_list_xsnapshots P (g_config_name g)) (\<lambda>xs.
     bindS (liftS (list_rows W mode xs)) (print_table W g (list_header mode))))))"

subsection \<open>Creating and changing snapshots\<close>

datatype create_type = CT_SINGLE | CT_PRE | CT_POST | CT_PRE_POST

definition create_type_of :: "string \<Rightarrow> create_type option" where
  "create_type_of t = (if t = ''single'' then Some CT_SINGLE else if t = ''pre'' then Some CT_PRE
     else if t = ''post'' then Some CT_POST else if t = ''pre-post'' then Some CT_PRE_POST else None)"

definition create_options :: "option_spec list" where
  "create_options =
     [\<lparr>op_name = ''type'', op_arg = required_argument, op_val = Some CHR ''t''\<rparr>,
      \<lparr>op_name = ''pre-number'', op_arg = required_argument, op_val = None\<rparr>,
      \<lparr>op_name = ''print-number'', op_arg = no_argument, op_val = Some CHR ''p''\<rparr>,
      \<lparr>op_name = ''description'', op_arg = required_argument, op_val = Some CHR ''d''\<rparr>,
      \<lparr>op_name = ''cleanup-algorithm'', op_arg = required_argument, op_val = Some CHR ''c''\<rparr>,
      \<lparr>op_name = ''userdata'', op_arg = required_argument, op_val = Some CHR ''u''\<rparr>,
      \<lparr>op_name = ''command'', op_arg = required_argument, op_val = None\<rparr>]"

definition run_system :: "('s, 'm) client_env_scheme \<Rightarrow> string \<Rightarrow> ('s, unit) cstep" where
  "run_system W command c = (case ce_system W command (cn_peer c, cn_fs c) of
     (s, fs) \<Rightarrow> (Inr (), c\<lparr>cn_peer := s, cn_fs := fs\<rparr>))"

definition create_of_type :: "('s, 'm) client_env_scheme \<Rightarrow> globals \<Rightarrow> 's peer \<Rightarrow> create_type \<Rightarrow> u32 \<Rightarrow> string \<Rightarrow> string
    \<Rightarrow> (string, string) smap \<Rightarrow> string \<Rightarrow> ('s, string) cstep" where
  "create_of_type W g P type num1 description cleanup userdata command = (let config_name = g_config_name g in
     case type of
       CT_SINGLE \<Rightarrow> bindS (command_create_single_xsnapshot P config_name description cleanup userdata) (\<lambda>n. retS (show_num n))
     | CT_PRE \<Rightarrow> bindS (command_create_pre_xsnapshot P config_name description cleanup userdata) (\<lambda>n. retS (show_num n))
     | CT_POST \<Rightarrow> bindS (command_create_post_xsnapshot P config_name num1 description cleanup userdata) (\<lambda>n. retS (show_num n))
     | CT_PRE_POST \<Rightarrow> bindS (command_create_pre_xsnapshot P config_name description cleanup userdata) (\<lambda>num1.
         thenS (run_system W command)
        (bindS (command_create_post_xsnapshot P config_name num1 [] cleanup userdata) (\<lambda>num2.
           retS (show_num num1 @ ''..'' @ show_num num2)))))"

definition command_create :: "'s command" where
  "command_create W g P = bindS (getopts_parse (Some ''create'') create_options) (\<lambda>opts.
     thenS (no_args ''create'')
    (bindS (case create_type_of (the_opt opts ''type'' ''single'') of
         None \<Rightarrow> die (''Unknown type of snapshot.'' @ endl) | Some t \<Rightarrow> retS t) (\<lambda>type0.
     bindS (case map_of opts ''pre-number'' of None \<Rightarrow> retS 0 | Some s \<Rightarrow> read_num s) (\<lambda>num1.
     bindS (case map_of opts ''userdata'' of None \<Rightarrow> retS [] | Some s \<Rightarrow> read_userdata s []) (\<lambda>userdata.
       let command = the_opt opts ''command'' [];
           type = (if map_of opts ''command'' = None then type0 else CT_PRE_POST) in
       if type = CT_POST \<and> num1 = 0 then die (''Missing or invalid pre-number.'' @ endl)
       else if type = CT_PRE_POST \<and> command = [] then die (''Missing command argument.'' @ endl)
       else bindS (create_of_type W g P type num1 (the_opt opts ''description'' []) (the_opt opts ''cleanup-algorithm'' [])
           userdata command)
         (\<lambda>nums. whenS (map_of opts ''print-number'' \<noteq> None) (say (nums @ endl))))))))"

definition modify_options :: "option_spec list" where
  "modify_options =
     [\<lparr>op_name = ''description'', op_arg = required_argument, op_val = Some CHR ''d''\<rparr>,
      \<lparr>op_name = ''cleanup-algorithm'', op_arg = required_argument, op_val = Some CHR ''c''\<rparr>,
      \<lparr>op_name = ''userdata'', op_arg = required_argument, op_val = Some CHR ''u''\<rparr>]"

definition modify_one :: "globals \<Rightarrow> 's peer \<Rightarrow> parsed_opts \<Rightarrow> string \<Rightarrow> ('s, unit) cstep" where
  "modify_one g P opts arg = bindS (read_num arg) (\<lambda>num.
     bindS (command_get_xsnapshot P (g_config_name g) num) (\<lambda>x.
     bindS (case map_of opts ''userdata'' of None \<Rightarrow> retS (xs_userdata x) | Some s \<Rightarrow> read_userdata s (xs_userdata x)) (\<lambda>u.
       command_set_xsnapshot P (g_config_name g) num (x\<lparr>xs_description := the_opt opts ''description'' (xs_description x),
         xs_cleanup := the_opt opts ''cleanup-algorithm'' (xs_cleanup x), xs_userdata := u\<rparr>))))"

definition command_modify :: "'s command" where
  "command_modify W g P = bindS (getopts_parse (Some ''modify'') modify_options) (\<lambda>opts.
     bindS (getS hasArgs) (\<lambda>b. thenS (needs_args b ''modify'' ''at least one argument'')
       (for_args (\<lambda>arg u. modify_one g P opts arg) ())))"

subsection \<open>Deleting and mounting snapshots\<close>

definition delete_arg :: "xsnapshot list \<Rightarrow> string \<Rightarrow> u32 list \<Rightarrow> ('s, u32 list) cstep" where
  "delete_arg xs arg nums =
     (if CHR ''-'' \<notin> set arg then bindS (read_num arg) (\<lambda>i. retS (nums @ [i]))
      else bindS (read_nums arg ''-'') (\<lambda>(a, b).
        case range_loop xs (min a b) (max a b) nums of None \<Rightarrow> throwS (Threw Diverges) | Some ns \<Rightarrow> retS ns))"

definition command_delete :: "'s command" where
  "command_delete W g P = thenS (getopts_parse (Some ''delete'') [])
     (bindS (getS hasArgs) (\<lambda>b. thenS (needs_args b ''delete'' ''at least one argument'')
    (bindS (command_list_xsnapshots P (g_config_name g)) (\<lambda>xs.
     bindS (for_args (delete_arg xs) []) (command_delete_xsnapshots P (g_config_name g))))))"

definition command_mount :: "'s command" where
  "command_mount W g P = thenS (getopts_parse (Some ''mount'') [])
     (bindS (getS hasArgs) (\<lambda>b. thenS (needs_args b ''mount'' ''at least one argument'')
       (for_args (\<lambda>arg u. bindS (read_num arg) (\<lambda>num.
          thenS (command_mount_xsnapshots P (g_config_name g) num True) (retS ()))) ())))"

text \<open>\<open>umount\<close> calls itself \<open>mount\<close> in its messages.\<close>

definition command_umount :: "'s command" where
  "command_umount W g P = thenS (getopts_parse (Some ''mount'') [])
     (bindS (getS hasArgs) (\<lambda>b. thenS (needs_args b ''mount'' ''at least one argument'')
       (for_args (\<lambda>arg u. bindS (read_num arg) (\<lambda>num. command_umount_xsnapshots P (g_config_name g) num True)) ())))"

subsection \<open>Comparing snapshots\<close>

definition status_text :: "file_paths \<Rightarrow> file_rec list \<Rightarrow> string" where
  "status_text fp files = concat (map (\<lambda>f. statusToString (pre_to_post_status f) @ '' ''
     @ c_str (getAbsolutePath fp f LOC_SYSTEM) @ endl) files)"

definition command_status :: "'s command" where
  "command_status W g P = bindS (getopts_parse (Some ''status'')
       [\<lparr>op_name = ''output'', op_arg = required_argument, op_val = Some CHR ''o''\<rparr>]) (\<lambda>opts.
     bindS (getS numArgs) (\<lambda>n. thenS (needs_args (n = 1) ''status'' ''one argument'')
    (bindS popArg (\<lambda>arg. bindS (read_nums arg ''..'') (\<lambda>nums.
     bindS (my_comparison g P nums False) (\<lambda>(fp, files).
       case map_of opts ''output'' of
         None \<Rightarrow> say (status_text fp files)
       | Some name \<Rightarrow> bindS (open_write W name) (\<lambda>fd.
           modifyS (\<lambda>c. c\<lparr>cn_fs := set_data fd (status_text fp files) (cn_fs c)\<rparr>))))))))"

definition diff_cmd :: "string \<Rightarrow> file_paths \<Rightarrow> file_rec \<Rightarrow> string" where
  "diff_cmd diffbin fp f = diffbin @ '' --unified --new-file '' @ quote (getAbsolutePath fp f LOC_PRE)
     @ '' '' @ quote (getAbsolutePath fp f LOC_POST)"

definition show_diff :: "('s, 'm) client_env_scheme \<Rightarrow> file_paths \<Rightarrow> file_rec \<Rightarrow> ('s, unit) cstep" where
  "show_diff W fp f = bindS (getS cn_fs) (\<lambda>fs.
     say (concat (map (\<lambda>l. c_str l @ endl) (ce_shell W fs (diff_cmd (ce_diffbin W) fp f)))))"

definition command_diff :: "'s command" where
  "command_diff W g P = thenS (getopts_parse (Some ''diff'') [])
     (bindS (getS hasArgs) (\<lambda>b. thenS (needs_args b ''diff'' ''at least one argument'')
    (bindS popArg (\<lambda>arg. bindS (read_nums arg ''..'') (\<lambda>nums.
     bindS (my_comparison g P nums True) (\<lambda>(fp, files).
     bindS (getS hasArgs) (\<lambda>more.
       if \<not> more then foreachS (show_diff W fp) files
       else for_args (\<lambda>name u. case findAbsolutePath fp files name of
           None \<Rightarrow> retS () | Some i \<Rightarrow> show_diff W fp (files ! i)) ())))))))"

subsection \<open>Undoing changes\<close>

definition mark :: "nat \<Rightarrow> file_rec list \<Rightarrow> file_rec list" where
  "mark i files = files[i := (files ! i)\<lparr>f_undo := True\<rparr>]"

text \<open>The name in a line of the input file: what follows the blank after a status.\<close>

definition line_name :: "string \<Rightarrow> string option" where
  "line_name line = (if line = [] then None
     else if hd line = CHR ''/'' then Some line
     else map_option (\<lambda>pos. drop (Suc pos) line) (find_index CHR '' '' line))"

definition mark_line :: "file_paths \<Rightarrow> string \<Rightarrow> file_rec list \<Rightarrow> ('s, file_rec list) cstep" where
  "mark_line fp line files = (case line_name line of
       None \<Rightarrow> retS files
     | Some name \<Rightarrow> (case findAbsolutePath fp files name of
           None \<Rightarrow> die (''File '' @ quoted (c_str name) @ '' not found.'' @ endl)
         | Some i \<Rightarrow> retS (mark i files)))"

definition mark_arg :: "file_paths \<Rightarrow> string \<Rightarrow> file_rec list \<Rightarrow> ('s, file_rec list) cstep" where
  "mark_arg fp name files = (case findAbsolutePath fp files name of
       None \<Rightarrow> retS files | Some i \<Rightarrow> retS (mark i files))"

definition doing :: "action \<Rightarrow> string" where
  "doing a = (case a of CREATE \<Rightarrow> ''creating '' | MODIFY \<Rightarrow> ''modifying '' | DELETE \<Rightarrow> ''deleting '')"

definition failed_to :: "action \<Rightarrow> string" where
  "failed_to a = ''failed to '' @ (case a of CREATE \<Rightarrow> ''create '' | MODIFY \<Rightarrow> ''modify '' | DELETE \<Rightarrow> ''delete '')"

definition undo_file :: "undo_env \<Rightarrow> file_paths \<Rightarrow> nat \<Rightarrow> file_rec list \<Rightarrow> ('s, bool \<times> file_rec list) cstep" where
  "undo_file env fp i files c = (case doUndo env fp (files ! i) (cn_fs c) of
     (ok, f, fs) \<Rightarrow> (Inr (ok, files[i := f]), c\<lparr>cn_fs := fs\<rparr>))"

definition undo_one :: "('s, 'm) client_env_scheme \<Rightarrow> globals \<Rightarrow> file_paths \<Rightarrow> undo_step \<Rightarrow> file_rec list
    \<Rightarrow> ('s, file_rec list) cstep" where
  "undo_one W g fp st files = (case files_find files (us_name st) of
       None \<Rightarrow> die (''internal error'' @ endl)
     | Some i \<Rightarrow> (let path = c_str (getAbsolutePath fp (files ! i) LOC_SYSTEM) in
         if us_action st \<noteq> getAction (files ! i) then die (''internal error'' @ endl)
         else thenS (whenS (g_verbose g) (say (doing (us_action st) @ path @ endl)))
          (bindS (undo_file (ce_undo W) fp i files) (\<lambda>(ok, files').
             thenS (whenS (\<not> ok) (complain (failed_to (us_action st) @ path @ endl))) (retS files')))))"

definition undo_marked :: "('s, 'm) client_env_scheme \<Rightarrow> globals \<Rightarrow> file_paths \<Rightarrow> file_rec list \<Rightarrow> ('s, unit) cstep" where
  "undo_marked W g fp files = (let rs = getUndoStatistic files in
     if statistic_empty rs then say (''nothing to do'' @ endl)
     else thenS (say (''create:'' @ format_d (numCreate rs) @ '' modify:'' @ format_d (numModify rs)
           @ '' delete:'' @ format_d (numDelete rs) @ endl))
      (thenS (foldS (undo_one W g fp) (getUndoSteps files) files) (retS ())))"

definition command_undo :: "'s command" where
  "command_undo W g P = bindS (getopts_parse (Some ''undochange'')
       [\<lparr>op_name = ''input'', op_arg = required_argument, op_val = Some CHR ''i''\<rparr>]) (\<lambda>opts.
     bindS (getS hasArgs) (\<lambda>b. thenS (needs_args b ''undochange'' ''at least one argument'')
    (bindS popArg (\<lambda>arg. bindS (read_nums arg ''..'') (\<lambda>nums.
     bindS (case map_of opts ''input'' of None \<Rightarrow> retS None
         | Some name \<Rightarrow> bindS (open_read W name) (\<lambda>fd. retS (Some fd))) (\<lambda>file.
       if fst nums = 0 then die (''Invalid snapshots.'' @ endl)
       else bindS (my_comparison g P nums True) (\<lambda>(fp, files).
         bindS (case file of
             Some fd \<Rightarrow> bindS (getS (\<lambda>c. fd_data (cn_fs c) fd)) (\<lambda>content. foldS (mark_line fp) (read_lines content) files)
           | None \<Rightarrow> bindS (getS hasArgs) (\<lambda>more.
               if \<not> more then retS (map (\<lambda>f. f\<lparr>f_undo := True\<rparr>) files)
               else for_args (mark_arg fp) files))
           (undo_marked W g fp))))))))"

end
