(* ===== verification/ClientProgram.thy ===== *)
theory ClientProgram
  imports ClientMain
begin

text \<open>
  The program \<open>snapper\<close>: its help texts, the table of commands, the global options and the translation of
  exceptions to messages and exit codes (the end of \<open>client/snapper.cc\<close>).
\<close>

subsection \<open>Help\<close>

definition tab :: string where
  "tab = [CHR 0x09]"

text \<open>The lines that each function prints.\<close>

definition help_list_configs :: "string list" where
  "help_list_configs = [''  List configs:'',
     tab @ ''snapper list-configs'',
     []]"

definition help_create_config :: "string list" where
  "help_create_config = [''  Create config:'',
     tab @ ''snapper create-config <subvolume>'',
     [],
     ''    Options for 'create-config' command:'',
     tab @ ''--fstype, -f <fstype>'' @ tab @ tab @ ''Manually set filesystem type.'',
     tab @ ''--template, -t <name>'' @ tab @ tab @ ''Name of config template to use.'',
     []]"

definition help_delete_config :: "string list" where
  "help_delete_config = [''  Delete config:'',
     tab @ ''snapper delete-config'',
     []]"

definition help_list :: "string list" where
  "help_list = [''  List snapshots:'',
     tab @ ''snapper list'',
     [],
     ''    Options for 'list' command:'',
     tab @ ''--type, -t <type>'' @ tab @ tab @ ''Type of snapshots to list.'',
     []]"

definition help_create :: "string list" where
  "help_create = [''  Create snapshot:'',
     tab @ ''snapper create'',
     [],
     ''    Options for 'create' command:'',
     tab @ ''--type, -t <type>'' @ tab @ tab @ ''Type for snapshot.'',
     tab @ ''--pre-number <number>'' @ tab @ tab @ ''Number of corresponding pre snapshot.'',
     tab @ ''--print-number, -p'' @ tab @ tab @ ''Print number of created snapshot.'',
     tab @ ''--description, -d <description>'' @ tab @ ''Description for snapshot.'',
     tab @ ''--cleanup-algorithm, -c <algo>'' @ tab @ ''Cleanup algorithm for snapshot.'',
     tab @ ''--userdata, -u <userdata>'' @ tab @ ''Userdata for snapshot.'',
     tab @ ''--command <command>'' @ tab @ ''Run command and create pre and post snapshots.'',
     []]"

definition help_modify :: "string list" where
  "help_modify = [''  Modify snapshot:'',
     tab @ ''snapper modify <number>'',
     [],
     ''    Options for 'modify' command:'',
     tab @ ''--description, -d <description>'' @ tab @ ''Description for snapshot.'',
     tab @ ''--cleanup-algorithm, -c <algo>'' @ tab @ ''Cleanup algorithm for snapshot.'',
     tab @ ''--userdata, -u <userdata>'' @ tab @ ''Userdata for snapshot.'',
     []]"

definition help_delete :: "string list" where
  "help_delete = [''  Delete snapshot:'',
     tab @ ''snapper delete <number>'',
     []]"

definition help_mount :: "string list" where
  "help_mount = [''  Mount snapshot:'',
     tab @ ''snapper mount <number>'',
     []]"

definition help_umount :: "string list" where
  "help_umount = [''  Umount snapshot:'',
     tab @ ''snapper umount <number>'',
     []]"

definition help_status :: "string list" where
  "help_status = [''  Comparing snapshots:'',
     tab @ ''snapper status <number1>..<number2>'',
     [],
     ''    Options for 'status' command:'',
     tab @ ''--output, -o <file>'' @ tab @ tab @ ''Save status to file.'',
     []]"

definition help_diff :: "string list" where
  "help_diff = [''  Comparing snapshots:'',
     tab @ ''snapper diff <number1>..<number2> [files]'',
     []]"

definition help_undo :: "string list" where
  "help_undo = [''  Undo changes:'',
     tab @ ''snapper undochange <number1>..<number2> [files]'',
     [],
     ''    Options for 'undochange' command:'',
     tab @ ''--input, -i <file>'' @ tab @ tab @ ''Read files for which to undo changes from file.'',
     []]"

definition help_cleanup :: "string list" where
  "help_cleanup = [''  Cleanup snapshots:'',
     tab @ ''snapper cleanup <cleanup-algorithm>'',
     []]"

definition help_options :: "string list" where
  "help_options = [''usage: snapper [--global-options] <command> [--command-options] [command-arguments]'', [],
     ''    Global options:'',
     tab @ ''--quiet, -q'' @ tab @ tab @ tab @ ''Suppress normal output.'',
     tab @ ''--verbose, -v'' @ tab @ tab @ tab @ ''Increase verbosity.'',
     tab @ ''--table-style, -t <style>'' @ tab @ ''Table style (integer).'',
     tab @ ''--config, -c <name>'' @ tab @ tab @ ''Set name of config to use.'',
     tab @ ''--version'' @ tab @ tab @ tab @ ''Print version and exit.'', []]"

definition show_help :: "('s, unit) cstep" where
  "show_help = thenS (getopts_parse (Some ''help'') []) (thenS (no_args ''help'')
     (thenS (say (concat (map (\<lambda>l. l @ endl)
         (help_options @ help_list_configs @ help_create_config @ help_delete_config @ help_list @ help_create
          @ help_modify @ help_delete @ help_mount @ help_umount @ help_status @ help_diff @ help_undo @ help_cleanup))))
       (throwS (Exited True))))"

subsection \<open>The remaining commands\<close>

definition command_cleanup :: "'s command" where
  "command_cleanup W g P = thenS (getopts_parse (Some ''cleanup'') [])
     (bindS (getS numArgs) (\<lambda>n. thenS (needs_args (n = 1) ''cleanup'' ''one arguments'')
    (bindS popArg (\<lambda>cleanup. let run = (\<lambda>m. thenS (m (cleanup_env.truncate W) P (g_config_name g)) (retS ())) in
       if cleanup = ''number'' then run do_cleanup_number
       else if cleanup = ''timeline'' then run do_cleanup_timeline
       else if cleanup = ''empty-pre-post'' then run do_cleanup_empty_pre_post
       else die (''Unknown cleanup algorithm '' @ quoted cleanup @ ''.'' @ endl)))))"

definition command_debug :: "'s command" where
  "command_debug W g P = thenS (getopts_parse (Some ''debug'') []) (thenS (no_args ''debug'')
     (bindS (command_xdebug P) (\<lambda>lines. say (concat (map (\<lambda>l. l @ endl) lines)))))"

definition cmds :: "(string \<times> 's command) list" where
  "cmds = [(''list-configs'', command_list_configs), (''create-config'', command_create_config),
     (''delete-config'', command_delete_config), (''list'', command_list), (''create'', command_create),
     (''modify'', command_modify), (''delete'', command_delete), (''mount'', command_mount),
     (''umount'', command_umount), (''status'', command_status), (''diff'', command_diff),
     (''undochange'', command_undo), (''cleanup'', command_cleanup), (''debug'', command_debug)]"

subsection \<open>Errors\<close>

text \<open>What is printed for the error reply of a call.\<close>

definition plain_errors :: "(string \<times> string) list" where
  "plain_errors = [(''error.unknown_config'', ''Unknown config.''), (''error.no_permissions'', ''No permissions.''),
     (''error.invalid_userdata'', ''Invalid userdata.''), (''error.illegal_snapshot'', ''Illegal Snapshot.''),
     (''error.config_locked'', ''Config is locked.''), (''error.config_in_use'', ''Config is in use.''),
     (''error.snapshot_in_use'', ''Snapshot is in use.''), (''error.unknown_file_use'', ''Unknown file.''),
     (''error.io_error'', ''IO Error.''), (''error.create_snapshot_failed'', ''Creating snapshot failed.''),
     (''error.delete_snapshot_failed'', ''Deleting snapshot failed.'')]"

definition failure :: "string \<Rightarrow> string" where
  "failure what = ''Failure ('' @ what @ '').''"

definition error_text :: "string \<Rightarrow> string \<Rightarrow> string" where
  "error_text name message =
     (if name = ''error.create_config_failed'' then ''Creating config failed ('' @ message @ '').''
      else if name = ''error.delete_config_failed'' then ''Deleting config failed ('' @ message @ '').''
      else (case map_of plain_errors name of Some t \<Rightarrow> t | None \<Rightarrow> failure name))"

text \<open>The handlers of \<open>main\<close>: an exception that none of them names ends the program.\<close>

definition handle :: "stop \<Rightarrow> ('s, unit) cstep" where
  "handle e = (case e of
       ErrorReply name message \<Rightarrow> die (error_text name message @ endl)
     | Threw x \<Rightarrow> if x = FatalException then die (failure ''dbus fatal exception'' @ endl)
         else if x = Diverges then throwS (Threw Diverges) else throwS Terminated
     | Terminated \<Rightarrow> throwS Terminated
     | Exited b \<Rightarrow> throwS (Exited b))"

subsection \<open>\<open>main\<close>\<close>

definition global_options :: "option_spec list" where
  "global_options =
     [\<lparr>op_name = ''quiet'', op_arg = no_argument, op_val = Some CHR ''q''\<rparr>,
      \<lparr>op_name = ''verbose'', op_arg = no_argument, op_val = Some CHR ''v''\<rparr>,
      \<lparr>op_name = ''table-style'', op_arg = required_argument, op_val = Some CHR ''t''\<rparr>,
      \<lparr>op_name = ''config'', op_arg = required_argument, op_val = Some CHR ''c''\<rparr>,
      \<lparr>op_name = ''version'', op_arg = no_argument, op_val = None\<rparr>,
      \<lparr>op_name = ''help'', op_arg = no_argument, op_val = None\<rparr>]"

text \<open>The style is read into a variable that has no value: blanks leave it as it is.\<close>

definition read_style :: "('s, 'm) client_env_scheme \<Rightarrow> parsed_opts \<Rightarrow> ('s, nat) cstep" where
  "read_style W opts = (case map_of opts ''table-style'' of
       None \<Rightarrow> retS 0
     | Some v \<Rightarrow> (let s = read_into v (ce_uninit W) in
         if unat s \<ge> end_style then die (''Invalid table style '' @ format_d s @ ''. Use an integer number from 0 to ''
             @ decString (end_style - 1) @ endl)
         else retS (unat s)))"

definition run_command :: "'s client_env \<Rightarrow> globals \<Rightarrow> 's peer \<Rightarrow> 's command \<Rightarrow> ('s, unit) cstep" where
  "run_command W g P cmd = thenS
     (catchS (thenS (throw_ifS (\<not> ce_connects W) (Threw FatalException)) (cmd W g P)) handle)
     (throwS (Exited True))"

definition snapper_main :: "'s client_env \<Rightarrow> 's peer \<Rightarrow> ('s, unit) cstep" where
  "snapper_main W P = bindS (getopts_parse None global_options) (\<lambda>opts.
     bindS (read_style W opts) (\<lambda>style.
       let g = \<lparr>g_verbose = (map_of opts ''verbose'' \<noteq> None), g_config_name = the_opt opts ''config'' ''root'',
                g_style = style\<rparr> in
       if map_of opts ''version'' \<noteq> None then thenS (say (''snapper '' @ ce_version W @ endl)) (throwS (Exited True))
       else if map_of opts ''help'' \<noteq> None then show_help
       else bindS (getS hasArgs) (\<lambda>b.
         if \<not> b then die (''No command provided.'' @ endl @ try_help)
         else bindS popArg (\<lambda>command. case map_of cmds command of
             None \<Rightarrow> die (''Unknown command '' @ quoted command @ ''.'' @ endl @ try_help)
           | Some cmd \<Rightarrow> run_command W g P cmd))))"

end
