(* ===== verification/ArgClaims.thy ===== *)
theory ArgClaims
  imports ClientProgram CleanupClaims
begin

text \<open>
  Round trips of what the client reads from its command line: options, user data, ranges of snapshots; and the
  layout of its tables.
\<close>

subsection \<open>Options\<close>

text \<open>The two ways to write a long option with its argument.\<close>

fun written :: "bool \<times> string \<times> string \<Rightarrow> string list" where
  "written (joined, n, v) = (if joined then [''--'' @ n @ ''='' @ v] else [''--'' @ n, v])"

definition options_wf :: "option_spec list \<Rightarrow> bool" where
  "options_wf lo \<longleftrightarrow> distinct (map op_name lo) \<and> distinct (List.map_filter op_val lo)
     \<and> list_all (\<lambda>x. op_name x \<noteq> [] \<and> CHR ''='' \<notin> set (op_name x)) lo"

lemma short2long_other:
  "c \<notin> set (List.map_filter op_val lo) \<Longrightarrow>
   map_of (fold (\<lambda>lo m. case op_val lo of None \<Rightarrow> m | Some c \<Rightarrow> sm_put c (op_name lo) m) lo m) c = map_of m c"
  by (induction lo arbitrary: m) (auto simp: map_filter_simps split: option.splits)

lemma short2long_find:
  assumes "distinct (List.map_filter op_val lo)" "x \<in> set lo" "op_val x = Some c"
  shows "map_of (fold (\<lambda>lo m. case op_val lo of None \<Rightarrow> m | Some c \<Rightarrow> sm_put c (op_name lo) m) lo m) c = Some (op_name x)"
  using assms(1,2)
proof (induction lo arbitrary: m)
  case (Cons y lo)
  show ?case
  proof (cases "x = y")
    case True
    then have "c \<notin> set (List.map_filter op_val lo)" using Cons.prems(1) assms(3) by (simp add: map_filter_simps)
    then show ?thesis using True assms(3) short2long_other [of c lo "sm_put c (op_name y) m"] by simp
  next
    case False
    then show ?thesis using Cons by (auto simp: map_filter_simps split: option.splits)
  qed
qed simp

lemma written_option:
  assumes "options_wf lo" "i < length lo" "op_arg (lo ! i) = required_argument"
  shows "\<exists>p'. getopt_long os lo \<lparr>sc_prev = p, sc_next = [], sc_args = written (joined, op_name (lo ! i), v) @ as\<rparr>
      = (OptFound (op_val (lo ! i)) i (Some v), \<lparr>sc_prev = p', sc_next = [], sc_args = as\<rparr>)"
    and "opt_name lo (op_val (lo ! i)) i = op_name (lo ! i)"
proof -
  let ?n = "op_name (lo ! i)"
  have n: "?n \<noteq> []" "CHR ''='' \<notin> set ?n" and d: "distinct (map op_name lo)" "distinct (List.map_filter op_val lo)"
    using assms(1,2) by (auto simp: options_wf_def list_all_length)
  have "find_idx (\<lambda>x. op_name x = ?n) lo = i"
    by (rule find_idx_is) (use assms(2) d(1) in \<open>auto simp: distinct_conv_nth\<close>)
  then have idx: "long_index lo ?n = Some i" using assms(2) by (simp add: long_index_def Let_def)
  have t: "takeWhile (\<lambda>c. c \<noteq> CHR ''='') (?n @ CHR ''='' # v) = ?n" "takeWhile (\<lambda>c. c \<noteq> CHR ''='') ?n = ?n"
    using n(2) by (auto simp: takeWhile_append takeWhile_eq_all_conv)
  have s: "starts_with (CHR ''-'' # CHR ''-'' # w) ''-''" "starts_with (CHR ''-'' # CHR ''-'' # w) ''--''" for w
    by (simp_all add: starts_with_def)
  show "\<exists>p'. getopt_long os lo \<lparr>sc_prev = p, sc_next = [], sc_args = written (joined, ?n, v) @ as\<rparr>
      = (OptFound (op_val (lo ! i)) i (Some v), \<lparr>sc_prev = p', sc_next = [], sc_args = as\<rparr>)"
    using n(1) by (cases joined) (simp_all add: getopt_long_def scan_long_def Let_def idx t s assms(3) scan_arg_def)
  show "opt_name lo (op_val (lo ! i)) i = ?n"
    using short2long_find [OF d(2), of "lo ! i"] assms(2)
    by (cases "op_val (lo ! i)") (simp_all add: opt_name_def make_short2long_def)
qed

lemma parse_written:
  assumes "options_wf lo" "\<forall>(joined, n, v)\<in>set kvs. \<exists>x\<in>set lo. op_name x = n \<and> op_arg x = required_argument"
    and "rest = [] \<or> \<not> starts_with (hd rest) ''-''"
  shows "\<exists>p'. parse_loop command lo r \<lparr>sc_prev = p, sc_next = [], sc_args = concat (map written kvs) @ rest\<rparr>
    = (Inr (fold (\<lambda>(joined, n, v). sm_put n v) kvs r), \<lparr>sc_prev = p', sc_next = [], sc_args = rest\<rparr>)"
  using assms(2)
proof (induction kvs arbitrary: r p)
  case Nil
  have "getopt_long os lo \<lparr>sc_prev = p, sc_next = [], sc_args = rest\<rparr> = (OptEnd, \<lparr>sc_prev = p, sc_next = [], sc_args = rest\<rparr>)" for os
    using assms(3) by (cases rest) (auto simp: getopt_long_def starts_with_def)
  then show ?case by (simp add: parse_loop.simps)
next
  case (Cons x kvs)
  obtain joined n v where x: "x = (joined, n, v)" by (cases x)
  then obtain i where i: "i < length lo" "op_name (lo ! i) = n" "op_arg (lo ! i) = required_argument"
    using Cons.prems by (auto simp: in_set_conv_nth)
  let ?as = "concat (map written kvs) @ rest"
  obtain p' where g: "getopt_long (make_optstring lo) lo \<lparr>sc_prev = p, sc_next = [], sc_args = written x @ ?as\<rparr>
      = (OptFound (op_val (lo ! i)) i (Some v), \<lparr>sc_prev = p', sc_next = [], sc_args = ?as\<rparr>)"
    using written_option(1) [OF assms(1) i(1,3)] unfolding i(2) x by blast
  have "parse_loop command lo r \<lparr>sc_prev = p, sc_next = [], sc_args = concat (map written (x # kvs)) @ rest\<rparr>
    = parse_loop command lo (sm_put n v r) \<lparr>sc_prev = p', sc_next = [], sc_args = ?as\<rparr>"
    using g written_option(2) [OF assms(1) i(1,3)] i(2) by (subst parse_loop.simps) simp
  then show ?case using Cons.IH [of "sm_put n v r" p'] Cons.prems by (simp add: x)
qed

text \<open>A client before a command.\<close>

definition arg_client :: "string list \<Rightarrow> unit client" where
  "arg_client args = \<lparr>cn_peer = (), cn_calls = [], cn_prev = ''snapper'', cn_args = args, cn_out = [], cn_err = [], cn_fs = []\<rparr>"

text \<open>C30. Options are read as they are written: for options with an argument, each given by its full name and
  its argument after \<open>=\<close> or as the next word, \<open>parse\<close> returns the map from the names to the arguments, whatever these
  contain, and leaves the words after the options.\<close>
theorem options_are_read:
  assumes "options_wf lo" "\<forall>(joined, n, v)\<in>set kvs. \<exists>x\<in>set lo. op_name x = n \<and> op_arg x = required_argument"
    and "rest = [] \<or> \<not> starts_with (hd rest) ''-''" "cn_args c = concat (map written kvs) @ rest"
  shows "\<exists>p. getopts_parse command lo c = (Inr (fold (\<lambda>(joined, n, v). sm_put n v) kvs []), c\<lparr>cn_prev := p, cn_args := rest\<rparr>)"
  using parse_written [OF assms(1-3), of command "[]" "cn_prev c"] assms(4) by (auto simp: getopts_parse_def)

theorem options_are_read_witness:
  "\<exists>p. getopts_parse (Some ''create'') create_options
      \<lparr>cn_peer = (), cn_calls = [], cn_prev = ''create'', cn_args = [''--description=-x=y'', ''--type'', ''--pre''],
       cn_out = [], cn_err = [], cn_fs = []\<rparr>
    = (Inr [(''description'', ''-x=y''), (''type'', ''--pre'')],
       \<lparr>cn_peer = (), cn_calls = [], cn_prev = p, cn_args = [], cn_out = [], cn_err = [], cn_fs = []\<rparr>)"
proof -
  let ?c = "\<lparr>cn_peer = (), cn_calls = [], cn_prev = ''create'', cn_args = [''--description=-x=y'', ''--type'', ''--pre''],
    cn_out = [], cn_err = [], cn_fs = []\<rparr>"
  let ?kvs = "[(True, ''description'', ''-x=y''), (False, ''type'', ''--pre'')]"
  have "options_wf create_options" by code_simp
  moreover have "\<forall>(joined, n, v)\<in>set ?kvs. \<exists>x\<in>set create_options. op_name x = n \<and> op_arg x = required_argument"
    by (simp add: create_options_def)
  moreover have "fold (\<lambda>(joined, n, v). sm_put n v) ?kvs [] = [(''description'', ''-x=y''), (''type'', ''--pre'')]"
    by code_simp
  ultimately show ?thesis using options_are_read [of create_options ?kvs "[]" ?c "Some ''create''"] by simp
qed

subsection \<open>User data\<close>

definition word_ok :: "string \<Rightarrow> bool" where
  "word_ok w \<longleftrightarrow> w \<noteq> [] \<and> CHR '','' \<notin> set w \<and> \<not> is_space (hd w) \<and> \<not> is_space (last w)"

definition userdata_ok :: "(string, string) smap \<Rightarrow> bool" where
  "userdata_ok m \<longleftrightarrow> sm_wf m \<and> m \<noteq> [] \<and> list_all (\<lambda>(k, v). word_ok k \<and> CHR ''='' \<notin> set k \<and> word_ok v) m"

definition pair_text :: "string \<times> string \<Rightarrow> string" where
  "pair_text kv = fst kv @ ''='' @ snd kv"

lemma show_userdata_Cons:
  "show_userdata (kv # m) = pair_text kv @ concat (map (\<lambda>kv. '', '' @ pair_text kv) m)"
proof -
  have "foldl (\<lambda>s (k, v). (if s \<noteq> [] then s @ '', '' else s) @ k @ ''='' @ v) s m
    = s @ concat (map (\<lambda>kv. '', '' @ pair_text kv) m)" if "s \<noteq> []" for s
    using that by (induction m arbitrary: s) (auto simp: pair_text_def)
  from this [of "pair_text kv"] show ?thesis by (cases kv) (simp add: show_userdata_def pair_text_def)
qed

lemma split_one: "\<forall>c\<in>set w. \<not> p c \<Longrightarrow> split_compress p w = [w]"
  by (subst split_compress.simps) (simp add: dropWhile_eq_Nil_conv)

lemma split_app:
  "\<forall>c\<in>set w. \<not> p c \<Longrightarrow> p c \<Longrightarrow> split_compress p (w @ c # s) = w # split_compress p (dropWhile p s)"
  by (subst split_compress.simps) (simp add: dropWhile_append3 takeWhile_append2)

lemma split_shown:
  assumes "\<forall>c\<in>set w. c \<noteq> CHR '',''" "\<forall>t\<in>set ts. \<forall>c\<in>set t. c \<noteq> CHR '',''"
  shows "split_compress (\<lambda>c. c = CHR '','') (w @ concat (map (\<lambda>t. '', '' @ t) ts)) = w # map (\<lambda>t. '' '' @ t) ts"
  using assms
proof (induction ts arbitrary: w)
  case (Cons t ts)
  have "split_compress (\<lambda>c. c = CHR '','') ((CHR '' '' # t) @ concat (map (\<lambda>t. '', '' @ t) ts))
    = (CHR '' '' # t) # map (\<lambda>t. '' '' @ t) ts"
    by (rule Cons.IH) (use Cons.prems in auto)
  then show ?case using split_app [OF Cons.prems(1), of "CHR '',''"] by simp
qed (simp add: split_one)

lemma trim_word: "word_ok w \<Longrightarrow> trim is_space w = w" "word_ok w \<Longrightarrow> trim is_space (CHR '' '' # w) = w"
proof -
  assume w: "word_ok w"
  show "trim is_space w = w" by (rule trim_id) (use w in \<open>auto simp: word_ok_def\<close>)
  have "trim_right is_space (CHR '' '' # w) = CHR '' '' # w"
    using w by (cases w rule: rev_cases) (auto simp: trim_right_def word_ok_def)
  then show "trim is_space (CHR '' '' # w) = w"
    using w by (cases w) (auto simp: trim_def trim_left_def word_ok_def is_space_def)
qed

lemma find_index_eq: "CHR ''='' \<notin> set k \<Longrightarrow> find_index CHR ''='' (k @ CHR ''='' # v) = Some (length k)"
  by (induction k) auto

lemma put_pair_text:
  assumes "word_ok k" "CHR ''='' \<notin> set k" "word_ok v"
  shows "put_pair (pair_text (k, v)) u = Some (sm_put k v u)" "put_pair ('' '' @ pair_text (k, v)) u = Some (sm_put k v u)"
proof -
  have "k \<noteq> []" "v \<noteq> []" using assms by (auto simp: word_ok_def)
  then show "put_pair (pair_text (k, v)) u = Some (sm_put k v u)" "put_pair ('' '' @ pair_text (k, v)) u = Some (sm_put k v u)"
    using find_index_eq [OF assms(2)] find_index_eq [of "CHR '' '' # k"] assms(2) trim_word [OF assms(1)] trim_word [OF assms(3)]
    by (simp_all add: put_pair_def pair_text_def)
qed

lemma put_pairs_texts:
  assumes "list_all (\<lambda>(k, v). word_ok k \<and> CHR ''='' \<notin> set k \<and> word_ok v) m"
  shows "put_pairs (map (\<lambda>t. '' '' @ t) (map pair_text m)) u = Some (fold (\<lambda>(k, v). sm_put k v) m u)"
  using assms
proof (induction m arbitrary: u)
  case (Cons kv m)
  then show ?case using put_pair_text(2) by (cases kv) simp
qed simp

text \<open>C31. User data is read back as it is shown: for keys and values that are not empty, have no comma and no white
  space at their ends, and keys without \<open>=\<close>.\<close>
theorem userdata_survives_show:
  assumes "userdata_ok m"
  shows "read_userdata (show_userdata m) [] c = (Inr m, c)"
proof -
  obtain k v m' where m: "m = (k, v) # m'" using assms by (cases m) (auto simp: userdata_ok_def)
  have ok: "word_ok k" "CHR ''='' \<notin> set k" "word_ok v"
    and ok': "list_all (\<lambda>(k, v). word_ok k \<and> CHR ''='' \<notin> set k \<and> word_ok v) m'" and wf: "sm_wf m"
    using assms by (simp_all add: userdata_ok_def m)
  have t: "\<forall>kv\<in>set m. \<forall>c\<in>set (pair_text kv). c \<noteq> CHR '',''"
  proof
    fix kv assume "kv \<in> set m"
    then have "word_ok (fst kv)" "word_ok (snd kv)" using assms by (auto simp: userdata_ok_def list_all_iff)
    then show "\<forall>c\<in>set (pair_text kv). c \<noteq> CHR '',''" by (auto simp: pair_text_def word_ok_def)
  qed
  have t2: "\<forall>t\<in>set (map pair_text m'). \<forall>c\<in>set t. c \<noteq> CHR '',''" using t by (simp add: m)
  have "split_compress (\<lambda>c. c = CHR '','') (show_userdata m) = pair_text (k, v) # map (\<lambda>t. '' '' @ t) (map pair_text m')"
    using split_shown [OF _ t2, of "pair_text (k, v)"] t unfolding m show_userdata_Cons by (simp add: comp_def)
  then have "put_pairs (split_compress (\<lambda>c. c = CHR '','') (show_userdata m)) [] = Some (fold (\<lambda>(k, v). sm_put k v) m [])"
    using put_pair_text(1) [OF ok] put_pairs_texts [OF ok'] by (simp add: m)
  then show ?thesis using fold_put_wf [OF wf] by (simp add: read_userdata_def)
qed

theorem userdata_survives_show_witness:
  "fst (read_userdata (show_userdata [(''a b'', ''1''), (''key'', ''x=y'')]) [] (arg_client [])) = Inr [(''a b'', ''1''), (''key'', ''x=y'')]"
proof -
  have "userdata_ok [(''a b'', ''1''), (''key'', ''x=y'')]" by code_simp
  from userdata_survives_show [OF this, of "arg_client []"] show ?thesis by simp
qed

text \<open>A comma in a value does not survive.\<close>

lemma comma_in_value_is_lost:
  "show_userdata [(''a'', ''1,b=2'')] = ''a=1,b=2''"
  "put_pairs (split_compress (\<lambda>c. c = CHR '','') ''a=1,b=2'') [] = Some [(''a'', ''1''), (''b'', ''2'')]"
  by code_simp+

subsection \<open>Ranges\<close>

text \<open>C32. The loop of \<open>delete\<close> over a range of numbers, given in either order, ends unless the range contains the
  largest \<open>unsigned int\<close>, and then adds the numbers of the range that the server lists and that were not there before,
  in ascending order; with the largest number it never ends.\<close>
theorem delete_range_ends:
  assumes "a \<noteq> b"
  shows "delete_arg xs (show_num a @ ''-'' @ show_num b) nums c =
    (if max a b = - 1 then Inl (Threw Diverges)
     else Inr (nums @ range_nums xs (unat (min a b)) (Suc (unat (max a b))) nums), c)"
  using read_nums_dash [OF assms, of c] range_loop_ends [of "max a b" xs "min a b" nums] range_loop_hangs [of xs "min a b" nums]
  by (simp add: delete_arg_def show_num_def bindS_def)

theorem delete_range_ends_witness:
  "delete_arg (map (\<lambda>n. x_ex n 0 0 0 []) [1, 2, 4, 7]) ''5-1'' [2] (arg_client []) = (Inr [2, 1, 4], arg_client [])"
proof -
  have n: "show_num 5 = ''5''" "show_num 1 = ''1''" by code_simp+
  have m: "max 5 (1 :: u32) \<noteq> - 1" by code_simp
  have r: "range_nums (map (\<lambda>n. x_ex n 0 0 0 []) [1, 2, 4, 7]) (unat (min 5 (1 :: u32))) (Suc (unat (max 5 (1 :: u32)))) [2] = [1, 4]" by code_simp
  have "(5 :: u32) \<noteq> 1" by simp
  from delete_range_ends [OF this, of "map (\<lambda>n. x_ex n 0 0 0 []) [1, 2, 4, 7]" "[2]" "arg_client []"] show ?thesis
    using m unfolding n r by simp
qed

subsection \<open>Tables\<close>

definition pad_cell :: "charset \<Rightarrow> u32 \<Rightarrow> string \<Rightarrow> string" where
  "pad_cell C w s = s @ spaces (unat (w - mbs_width C s))"

lemma dump_cell_fits: "mbs_width C s \<le> w \<Longrightarrow> dump_cell C w s = pad_cell C w s"
  by (simp add: dump_cell_def pad_cell_def Let_def linorder_not_less [symmetric])

lemma dump_cells_fit:
  assumes "\<not> t_do_wrap t" "\<forall>k<length ss. mbs_width C (ss ! k) \<le> t_max_width t ! (c + k)" "c \<noteq> 0"
  shows "dump_cells C t c pos ss = concat (map (\<lambda>k. '' '' @ (if t_style t \<noteq> none_style then fst (lines ! t_style t) else [])
      @ '' '' @ pad_cell C (t_max_width t ! (c + k)) (ss ! k)) [0..<length ss]) @ newline"
  using assms(2,3)
proof (induction ss arbitrary: c pos)
  case (Cons s ss)
  have 0: "mbs_width C s \<le> t_max_width t ! c" using Cons.prems(1) by force
  have "\<forall>k<length ss. mbs_width C (ss ! k) \<le> t_max_width t ! (Suc c + k)" using Cons.prems(1) by force
  note IH = Cons.IH [OF this]
  have u: "[0..<length (s # ss)] = 0 # map Suc [0..<length ss]" by (simp add: map_Suc_upt upt_conv_Cons del: upt_Suc)
  show ?case using Cons.prems(2) assms(1) dump_cell_fits [OF 0] unfolding u
    by (simp add: IH must_wrap_def comp_def)
qed simp

text \<open>The lines of a table: the cells of a row, each padded to the width of its column.\<close>

definition padded_row :: "charset \<Rightarrow> table \<Rightarrow> table_row \<Rightarrow> string" where
  "padded_row C t tr = spaces (t_margin t)
     @ join ('' '' @ (if t_style t \<noteq> none_style then fst (lines ! t_style t) else []) @ '' '')
         (map (\<lambda>k. pad_cell C (t_max_width t ! k) (tr ! k)) [0..<length tr]) @ newline"

lemma join_concat: "join sep (w # ws) = w @ concat (map (\<lambda>w. sep @ w) ws)"
  by (induction ws arbitrary: w) auto

lemma row_padded:
  assumes "\<not> t_do_wrap t" "fits_row C (t_max_width t) tr"
  shows "row_dumpTo C t tr = padded_row C t tr"
proof (cases tr)
  case (Cons s ss)
  have 0: "mbs_width C s \<le> t_max_width t ! 0" and r: "\<forall>k<length ss. mbs_width C (ss ! k) \<le> t_max_width t ! (1 + k)"
    using assms(2) by (force simp: fits_row_def Cons)+
  have u: "[0..<length tr] = 0 # map Suc [0..<length ss]" by (simp add: Cons map_Suc_upt upt_conv_Cons del: upt_Suc)
  show ?thesis
    using dump_cells_fit [OF assms(1) r] dump_cell_fits [OF 0] unfolding row_dumpTo_def padded_row_def u
    by (simp add: Cons join_concat comp_def)
qed (simp add: row_dumpTo_def padded_row_def)

text \<open>C34. The tables of the client are aligned: no cell is cut, every cell of the header and of every row is padded to the
  width of its column, and the columns are separated by the line of the style.\<close>
theorem tables_are_aligned:
  "\<exists>t. table_dumpTo C (fold (table_add C) rows (setHeader C header (new_table style width)))
      = padded_row C t header @ dumpRule t @ concat (map (padded_row C t) rows)
    \<and> fits_row C (t_max_width t) header \<and> list_all (fits_row C (t_max_width t)) rows"
proof -
  let ?t0 = "setHeader C header (new_table style width)"
  have keep: "t_has_header (updateColWidths C tr t) = t_has_header t" "t_do_wrap (updateColWidths C tr t) = t_do_wrap t"
    "t_header (updateColWidths C tr t) = t_header t" "t_rows (updateColWidths C tr t) = t_rows t"
    "t_abbrev_col (updateColWidths C tr t) = t_abbrev_col t" for tr t
  proof -
    have "t_has_header (update_widths C sp c ss t) = t_has_header t \<and> t_do_wrap (update_widths C sp c ss t) = t_do_wrap t
      \<and> t_header (update_widths C sp c ss t) = t_header t \<and> t_rows (update_widths C sp c ss t) = t_rows t
      \<and> t_abbrev_col (update_widths C sp c ss t) = t_abbrev_col t" for sp c ss t
      by (induction C sp c ss t rule: update_widths.induct) (simp_all add: Let_def)
    then show "t_has_header (updateColWidths C tr t) = t_has_header t" "t_do_wrap (updateColWidths C tr t) = t_do_wrap t"
      "t_header (updateColWidths C tr t) = t_header t" "t_rows (updateColWidths C tr t) = t_rows t"
      "t_abbrev_col (updateColWidths C tr t) = t_abbrev_col t"
      by (simp_all add: updateColWidths_def Let_def)
  qed
  have add: "t_has_header (table_add C tr t) = t_has_header t" "t_do_wrap (table_add C tr t) = t_do_wrap t"
    "t_header (table_add C tr t) = t_header t" "t_rows (table_add C tr t) = t_rows t @ [tr]"
    "t_abbrev_col (table_add C tr t) = t_abbrev_col t" for tr t
    by (simp_all add: table_add_def keep)
  have "table_ok C (fold (table_add C) rs t) \<and> t_has_header (fold (table_add C) rs t) = t_has_header t
    \<and> \<not> t_do_wrap (fold (table_add C) rs t) \<and> t_header (fold (table_add C) rs t) = t_header t
    \<and> t_rows (fold (table_add C) rs t) = t_rows t @ rs \<and> t_abbrev_col (fold (table_add C) rs t) = []"
    if "table_ok C t" "\<not> t_do_wrap t" "t_abbrev_col t = []" for rs t
    using that by (induction rs arbitrary: t) (simp_all add: table_ok_add add)
  moreover have "table_ok C ?t0" by (intro table_ok_header table_ok_new)
  moreover have "t_has_header ?t0" "\<not> t_do_wrap ?t0" "t_header ?t0 = header" "t_rows ?t0 = []" "t_abbrev_col ?t0 = []"
    by (simp_all add: setHeader_def keep) (simp_all add: new_table_def)
  ultimately have t: "table_ok C (fold (table_add C) rows ?t0)" "t_has_header (fold (table_add C) rows ?t0)"
    "\<not> t_do_wrap (fold (table_add C) rows ?t0)" "t_header (fold (table_add C) rows ?t0) = header"
    "t_rows (fold (table_add C) rows ?t0) = rows" "t_abbrev_col (fold (table_add C) rows ?t0) = []"
    by simp_all
  let ?t = "fold (table_add C) rows ?t0"
  have f: "fits_row C (t_max_width ?t) header" "\<forall>tr\<in>set rows. fits_row C (t_max_width ?t) tr"
    using t by (auto simp: table_ok_def)
  have "concat (map (row_dumpTo C ?t) rows) = concat (map (padded_row C ?t) rows)"
    using f(2) row_padded [OF t(3)] by (intro arg_cong [where f = concat] map_cong) auto
  then have "table_dumpTo C ?t = padded_row C ?t header @ dumpRule ?t @ concat (map (padded_row C ?t) rows)"
    using t row_padded [OF t(3) f(1)] by (simp add: table_dumpTo_def Let_def)
  then show ?thesis using f by (intro exI [of _ ?t]) (simp add: list_all_iff)
qed

text \<open>An unknown short option in front of another one is not named in the message: \<open>optind\<close> still points to the group.\<close>

lemma unknown_short_option_is_not_named:
  "snd (getopts_parse None global_options \<lparr>cn_peer = (), cn_calls = [], cn_prev = ''snapper'', cn_args = [''-xv''],
       cn_out = [], cn_err = [], cn_fs = []\<rparr>)
   = \<lparr>cn_peer = (), cn_calls = [], cn_prev = ''snapper'', cn_args = [''-xv''], cn_out = [],
      cn_err = unknown_option None ''snapper'', cn_fs = []\<rparr>"
  by code_simp

end
