(* ===== verification/ClientClaims.thy ===== *)
theory ClientClaims
  imports ArgClaims UndoClaims SnapperClaims
begin

text \<open>
  What \<open>undochange\<close> does with the answers of the server: the steps of the client are those of the library, so that the
  command restores the snapshot.
\<close>

subsection \<open>No options\<close>

lemma getopts_none:
  assumes "cn_args c = a # as" "\<not> starts_with a ''-''"
  shows "getopts_parse command lo c = (Inr [], c)"
proof -
  have "a \<noteq> ''--''" using assms(2) by (auto simp: starts_with_def)
  then have "getopt_long (make_optstring lo) lo \<lparr>sc_prev = cn_prev c, sc_next = [], sc_args = cn_args c\<rparr>
      = (OptEnd, \<lparr>sc_prev = cn_prev c, sc_next = [], sc_args = cn_args c\<rparr>)"
    using assms by (simp add: getopt_long_def)
  then show ?thesis by (simp add: getopts_parse_def parse_loop.simps)
qed

subsection \<open>\<open>undochange\<close>\<close>

text \<open>A server that has the comparison: the paths of its snapshots and its files.\<close>

definition to_file :: "file_rec \<Rightarrow> xfile" where
  "to_file f = \<lparr>xf_name = f_name f, xf_status = pre_to_post_status f\<rparr>"

definition compares :: "'s peer \<Rightarrow> file_paths \<Rightarrow> file_rec list \<Rightarrow> bool" where
  "compares P fp files \<longleftrightarrow> (\<forall>vs s.
     (\<exists>s'. P ''CreateComparison'' vs s = (Inr [], s'))
   \<and> (\<exists>s'. P ''GetMountPoint'' vs s = (Inr [enc_string (system_path fp)], s'))
   \<and> (\<exists>s'. P ''MountSnapshot'' vs s = (Inr [enc_string (pre_path fp)], s'))
   \<and> (\<exists>s'. P ''GetFiles'' vs s = (Inr [enc_array file_sig enc_file (map to_file files)], s')))"

definition same_but_calls :: "'s client \<Rightarrow> 's client \<Rightarrow> bool" where
  "same_but_calls c c' \<longleftrightarrow> cn_prev c' = cn_prev c \<and> cn_args c' = cn_args c \<and> cn_out c' = cn_out c
     \<and> cn_err c' = cn_err c \<and> cn_fs c' = cn_fs c"

lemma answered_call:
  assumes "\<exists>s'. P member vs (cn_peer c) = (Inr ws, s')" "get_value d ws = Inr (a, rest)"
  shows "\<exists>c'. bindS (bus_call P member vs) (decode d) c = (Inr a, c') \<and> same_but_calls c c'"
proof -
  have "ws \<noteq> []" using assms(2) by (cases ws) auto
  then show ?thesis using assms by (auto simp: bus_call_def decode_def bindS_def same_but_calls_def)
qed

lemma my_comparison_answered:
  assumes "compares P fp files" "no_nul (system_path fp)" "no_nul (pre_path fp)" "post_path fp = system_path fp"
    and "\<forall>f\<in>set files. no_nul (f_name f)" "n \<noteq> 0"
  shows "\<exists>c'. my_comparison g P (n, 0) True c = (Inr (fp, map (\<lambda>f. new_file (f_name f) (pre_to_post_status f)) files), c')
    \<and> same_but_calls c c'"
proof -
  let ?cfg = "g_config_name g"
  let ?vs = "[enc_string ?cfg, enc_u32 n, enc_u32 0]"
  obtain s' where s': "P ''CreateComparison'' ?vs (cn_peer c) = (Inr [], s')"
    using assms(1) unfolding compares_def by blast
  let ?c1 = "c\<lparr>cn_peer := s', cn_calls := cn_calls c @ [(''CreateComparison'', ?vs)]\<rparr>"
  have "command_create_xcomparison P ?cfg n 0 c = (Inr (), ?c1)" "same_but_calls c ?c1"
    using s' by (simp_all add: command_create_xcomparison_def bus_call_def no_reply_def bindS_def same_but_calls_def)
  then obtain c1 where 1: "command_create_xcomparison P ?cfg n 0 c = (Inr (), c1)" "same_but_calls c c1" by blast
  have e: "get_value dec_string [enc_string p] = Inr (p, [])" if "no_nul p" for p by (rule strc.get_enc [OF that])
  have a: "\<exists>s'. P ''GetMountPoint'' vs t = (Inr [enc_string (system_path fp)], s')"
    "\<exists>s'. P ''MountSnapshot'' vs t = (Inr [enc_string (pre_path fp)], s')"
    "\<exists>s'. P ''GetFiles'' vs t = (Inr [enc_array file_sig enc_file (map to_file files)], s')" for vs t
    using assms(1) unfolding compares_def by blast+
  obtain c2 where 2: "command_get_xmount_point P ?cfg 0 c1 = (Inr (system_path fp), c2)" "same_but_calls c1 c2"
    using answered_call [where P = P and c = c1, OF a(1) [of "[enc_string ?cfg, enc_u32 0]" "cn_peer c1"] e [OF assms(2)]]
    by (auto simp: command_get_xmount_point_def)
  obtain c3 where 3: "command_mount_xsnapshots P ?cfg n False c2 = (Inr (pre_path fp), c3)" "same_but_calls c2 c3"
    using answered_call [where P = P and c = c2, OF a(2) [of "[enc_string ?cfg, enc_u32 n, enc_bool False]" "cn_peer c2"] e [OF assms(3)]]
    by (auto simp: command_mount_xsnapshots_def)
  have "dec_array file_sig dec_file (enc_array file_sig enc_file (map to_file files)) = Inr (map to_file files)"
    by (rule filec.dec_array_enc_array) (use assms(5) in \<open>simp add: to_file_def\<close>)
  then have d: "get_value (dec_array file_sig dec_file) [enc_array file_sig enc_file (map to_file files)] = Inr (map to_file files, [])"
    by simp
  obtain c4 where 4: "command_get_xfiles P ?cfg n 0 c3 = (Inr (map to_file files), c4)" "same_but_calls c3 c4"
    using answered_call [where P = P and c = c3, OF a(3) [of "[enc_string ?cfg, enc_u32 n, enc_u32 0]" "cn_peer c3"] d]
    by (auto simp: command_get_xfiles_def)
  have "my_comparison g P (n, 0) True c = (Inr (fp, map (\<lambda>f. new_file (f_name f) (pre_to_post_status f)) files), c4)"
    using 1(1) 2(1) 3(1) 4(1) assms(4,6)
    by (simp add: my_comparison_def Let_def bindS_def comp_def to_file_def)
  moreover have "same_but_calls c c4" using 1(2) 2(2) 3(2) 4(2) by (simp add: same_but_calls_def)
  ultimately show ?thesis by blast
qed

text \<open>The loop over the steps does what \<open>run_steps\<close> does, as long as every step succeeds.\<close>

lemma doUndoStep_same:
  assumes "doUndoStep env fp st (es, fs) = (ok, (es', fs'))" "same_files es es0"
  shows "same_files es' es0"
proof (cases "files_find es (us_name st)")
  case (Some i)
  have "files_find es (us_name st) = Some i \<Longrightarrow> i < length es"
  proof -
    have "lower_bound_loop (\<lambda>f. f_name f < us_name st) es 0 (length es) \<le> length es"
    proof -
      have "lower_bound_loop lt xs first len \<le> first + len" for lt and xs :: "file_rec list" and first len
      proof (induction lt xs first len rule: lower_bound_loop.induct)
        case (1 lt xs first len)
        show ?case
        proof (cases "len = 0")
          case False
          then show ?thesis
            using "1.IH"(1) [OF False refl refl] "1.IH"(2) [OF False refl refl]
            by (subst lower_bound_loop.simps) (auto simp: Let_def)
        qed (simp add: lower_bound_loop.simps)
      qed
      from this [of _ es 0 "length es"] show ?thesis by simp
    qed
    then show "files_find es (us_name st) = Some i \<Longrightarrow> i < length es"
      by (auto simp: files_find_def Let_def split: if_splits)
  qed
  then have i: "i < length es" using Some by blast
  obtain ok1 f1 fs1 where d: "doUndo env fp (es ! i) fs = (ok1, f1, fs1)" by (metis prod_cases3)
  then have "f1 = (es ! i)\<lparr>pre_to_system_status := - 1, post_to_system_status := - 1\<rparr>"
    using doUndo_file [of env fp "es ! i" fs] by simp
  then show ?thesis
    using assms Some d same_files_update [OF assms(2) i] by (auto simp: doUndoStep_def)
qed (use assms in \<open>simp add: doUndoStep_def\<close>)

lemma same_files_action:
  assumes "same_files es es0" "names_sorted es0" "f \<in> set es0" "files_find es (f_name f) = Some i"
  shows "getAction (es ! i) = getAction f"
proof -
  have n: "map f_name es = map f_name es0" "map pre_to_post_status es = map pre_to_post_status es0"
    using assms(1) by (simp_all add: same_files_def)
  have len: "length es = length es0" using arg_cong [OF n(1), of length] by simp
  have "names_sorted es" using assms(2) n(1) by simp
  then have i: "i < length es" "f_name (es ! i) = f_name f" using assms(4) files_find_Some by blast+
  obtain j where j: "j < length es0" "es0 ! j = f" using assms(3) by (auto simp: in_set_conv_nth)
  have "f_name (es0 ! i) = f_name (es0 ! j)"
    using arg_cong [OF n(1), of "\<lambda>l. l ! i"] i j len by simp
  then have "i = j" using names_sorted_inj [OF assms(2)] i(1) j(1) len by simp
  then show ?thesis using arg_cong [OF n(2), of "\<lambda>l. l ! i"] i j len by (simp add: getAction_def)
qed

lemma undo_loop:
  assumes "run_steps (ce_undo W) fp sts (es, cn_fs c) = (True, (es', fs'))" "same_files es es0" "names_sorted es0"
    and "\<forall>st\<in>set sts. \<exists>f\<in>set es0. st = step_of f"
  shows "\<exists>c'. foldS (undo_one W g fp) sts es c = (Inr es', c') \<and> cn_fs c' = fs' \<and> cn_err c' = cn_err c
    \<and> (\<not> g_verbose g \<longrightarrow> cn_out c' = cn_out c)"
  using assms(1,2,4)
proof (induction sts arbitrary: es c)
  case (Cons st sts)
  obtain es1 fs1 where 1: "doUndoStep (ce_undo W) fp st (es, cn_fs c) = (True, (es1, fs1))"
    "run_steps (ce_undo W) fp sts (es1, fs1) = (True, (es', fs'))"
    using Cons.prems(1) by (auto split: prod.splits)
  obtain f where f: "f \<in> set es0" "st = step_of f" using Cons.prems(3) by auto
  obtain i ok f1 where i: "files_find es (us_name st) = Some i" "doUndo (ce_undo W) fp (es ! i) (cn_fs c) = (True, f1, fs1)"
    "es1 = es[i := f1]"
    using 1(1) by (auto simp: doUndoStep_def split: option.splits prod.splits)
  have a: "us_action st = getAction (es ! i)"
    using same_files_action [OF Cons.prems(2) assms(3) f(1)] i(1) f(2) by (simp add: step_of_def)
  let ?c1 = "if g_verbose g then c\<lparr>cn_out := cn_out c @ doing (us_action st)
      @ c_str (getAbsolutePath fp (es ! i) LOC_SYSTEM) @ endl\<rparr> else c"
  let ?c2 = "?c1\<lparr>cn_fs := fs1\<rparr>"
  have s: "undo_one W g fp st es c = (Inr es1, ?c2)"
    using i a by (simp add: undo_one_def Let_def whenS_def say_def undo_file_def bindS_def)
  have "same_files es1 es0" by (rule doUndoStep_same [OF 1(1) Cons.prems(2)])
  moreover have "run_steps (ce_undo W) fp sts (es1, cn_fs ?c2) = (True, (es', fs'))" using 1(2) by simp
  ultimately obtain c' where c': "foldS (undo_one W g fp) sts es1 ?c2 = (Inr es', c')" "cn_fs c' = fs'" "cn_err c' = cn_err ?c2"
      "\<not> g_verbose g \<longrightarrow> cn_out c' = cn_out ?c2"
    using Cons.IH [of es1 ?c2] Cons.prems(3) by auto
  have "foldS (undo_one W g fp) (st # sts) es c = (Inr es', c')" using s c'(1) by (simp add: bindS_def)
  then show ?case using c'(2-4) by (intro exI [of _ c']) simp
qed simp

lemma nothing_marked:
  assumes "statistic_empty (getUndoStatistic es)" "length es < 2 ^ 32"
  shows "getUndoSteps es = []"
proof -
  have "of_nat (length (filter (\<lambda>f. f_undo f \<and> getAction f = a) es)) = (0 :: u32)" for a
    using assms(1) count_action_counts [of "\<lparr>numCreate = 0, numModify = 0, numDelete = 0\<rparr>" es]
    by (cases a) (simp_all add: statistic_empty_def getUndoStatistic_def)
  then have n: "length (filter (\<lambda>f. f_undo f \<and> getAction f = a) es) = 0" for a
  proof -
    have "length (filter (\<lambda>f. f_undo f \<and> getAction f = a) es) < 2 ^ 32"
      using length_filter_le [of _ es] assms(2) by (rule le_less_trans)
    then show ?thesis
      using arg_cong [OF \<open>of_nat (length (filter (\<lambda>f. f_undo f \<and> getAction f = a) es)) = (0 :: u32)\<close>, of unat]
      by (simp add: unat_of_nat)
  qed
  have "\<not> f_undo f" if "f \<in> set es" for f using n [of "getAction f"] that by (auto simp: filter_empty_conv)
  then show ?thesis by (simp add: getUndoSteps_def filter_empty_conv)
qed

lemma steps_from_files: "st \<in> set (getUndoSteps es) \<Longrightarrow> \<exists>f\<in>set es. st = step_of f"
  by (auto simp: getUndoSteps_def)

text \<open>The line that the command prints about the files it is going to undo.\<close>

definition undo_summary :: "file_rec list \<Rightarrow> string" where
  "undo_summary es = (let rs = getUndoStatistic es in
     if statistic_empty rs then ''nothing to do'' @ endl
     else ''create:'' @ format_d (numCreate rs) @ '' modify:'' @ format_d (numModify rs) @ '' delete:'' @ format_d (numDelete rs) @ endl)"

lemma undo_marked_run:
  assumes "run_steps (ce_undo W) fp (getUndoSteps es) (es, cn_fs c) = (True, (es', fs'))" "names_sorted es" "length es < 2 ^ 32"
  shows "\<exists>c'. undo_marked W g fp es c = (Inr (), c') \<and> cn_fs c' = fs' \<and> cn_err c' = cn_err c
    \<and> (\<not> g_verbose g \<longrightarrow> cn_out c' = cn_out c @ undo_summary es)"
proof (cases "statistic_empty (getUndoStatistic es)")
  case True
  then show ?thesis
    using assms(1) nothing_marked [OF True assms(3)] by (auto simp: undo_marked_def say_def undo_summary_def)
next
  case False
  let ?rs = "getUndoStatistic es"
  let ?c1 = "c\<lparr>cn_out := cn_out c @ ''create:'' @ format_d (numCreate ?rs) @ '' modify:'' @ format_d (numModify ?rs)
           @ '' delete:'' @ format_d (numDelete ?rs) @ endl\<rparr>"
  have "same_files es es" by (simp add: same_files_def)
  moreover have "\<forall>st\<in>set (getUndoSteps es). \<exists>f\<in>set es. st = step_of f" using steps_from_files by blast
  moreover have "run_steps (ce_undo W) fp (getUndoSteps es) (es, cn_fs ?c1) = (True, (es', fs'))" using assms(1) by simp
  ultimately obtain c' where "foldS (undo_one W g fp) (getUndoSteps es) es ?c1 = (Inr es', c')" "cn_fs c' = fs'"
      "cn_err c' = cn_err ?c1" "\<not> g_verbose g \<longrightarrow> cn_out c' = cn_out ?c1"
    using undo_loop [OF _ _ assms(2)] by blast
  then show ?thesis using False
    by (intro exI [of _ c']) (simp add: undo_marked_def undo_summary_def Let_def say_def bindS_def)
qed

lemma show_num_no_dash: "\<not> starts_with (show_num n @ t) ''-''"
proof -
  have "is_digit (hd (decString (unat n)))" by (rule hd_decString_digit)
  then have "hd (show_num n @ t) \<noteq> CHR ''-''" by (auto simp: show_num_def is_digit_def)
  then show ?thesis by (cases "show_num n @ t") (auto simp: starts_with_def)
qed


text \<open>An example: a server with one comparison, and the file system of \<open>sample_fs\<close>.\<close>

definition comparing_peer :: "file_paths \<Rightarrow> file_rec list \<Rightarrow> unit peer" where
  "comparing_peer fp files member vs s =
     (if member = ''GetMountPoint'' then (Inr [enc_string (system_path fp)], s)
      else if member = ''MountSnapshot'' then (Inr [enc_string (pre_path fp)], s)
      else if member = ''GetFiles'' then (Inr [enc_array file_sig enc_file (map to_file files)], s)
      else (Inr [], s))"

definition cenv_ex :: "unit client_env" where
  "cenv_ex = \<lparr>ce_now = 0, ce_localtime = gmtime, ce_connects = True, ce_username = (\<lambda>_. ''root''), ce_strftime_c = (\<lambda>_. []),
     ce_sysenv = env_ex, ce_mtab = None, ce_shell = (\<lambda>_ _. []), ce_system = (\<lambda>_ x. x),
     ce_charset = \<lparr>cs_mbrtowc = (\<lambda>_. MbError), cs_wcwidth = (\<lambda>_. 1)\<rparr>, ce_screen_width = - 1, ce_undo = sample_env,
     ce_cwd = [], ce_uninit = 0, ce_version = ''1'', ce_diffbin = ''diff''\<rparr>"

definition cn_ex :: "string list \<Rightarrow> unit client" where
  "cn_ex args = \<lparr>cn_peer = (), cn_calls = [], cn_prev = ''snapper'', cn_args = args, cn_out = [], cn_err = [], cn_fs = sample_fs\<rparr>"

definition g_ex :: globals where
  "g_ex = \<lparr>g_verbose = False, g_config_name = ''root'', g_style = 0\<rparr>"


end
