(* ===== verification/ClientWalk.thy ===== *)
theory ClientWalk
  imports ClientProgram Introspection
begin

text \<open>
  A walk through the program: \<open>client_run\<close> is a relation between the state before a step, how the step ends and
  the state after it that every step of the client keeps, because what it is made of does.  The rules are in the
  collection \<open>walking\<close>; they end with \<open>main\<close>.
\<close>

named_theorems walking \<open>steps that keep the relation of a walk\<close>

definition stop_of :: "stop + 'a \<Rightarrow> stop option" where
  "stop_of r = (case r of Inl e \<Rightarrow> Some e | Inr a \<Rightarrow> None)"

lemma stop_of_simps [simp]: "stop_of (Inl e) = Some e" "stop_of (Inr a) = None"
  "stop_of r = Some e \<longleftrightarrow> r = Inl e" "stop_of r = None \<longleftrightarrow> \<not> isl r"
  by (cases r; simp add: stop_of_def)+

definition walks :: "('s client \<Rightarrow> stop option \<Rightarrow> 's client \<Rightarrow> bool) \<Rightarrow> ('s, 'a) cstep \<Rightarrow> bool" where
  "walks R m \<longleftrightarrow> (\<forall>c. R c (stop_of (fst (m c))) (snd (m c)))"

text \<open>A call with the arguments that the interface description declares; \<open>Debug\<close> is not described.\<close>

definition declared_call :: "string \<Rightarrow> dval list \<Rightarrow> bool" where
  "declared_call member vs \<longleftrightarrow> declared_in member = Some (map sig_of vs) \<or> member = ''Debug'' \<and> vs = []"

locale client_run =
  fixes P :: "'s peer" and R :: "'s client \<Rightarrow> stop option \<Rightarrow> 's client \<Rightarrow> bool"
  assumes stay: "cn_err c' = cn_err c \<Longrightarrow> cn_calls c' = cn_calls c \<Longrightarrow> e \<noteq> Some (Exited False) \<Longrightarrow> R c e c'"
    and seq: "R c e0 c1 \<Longrightarrow> R c1 e c2 \<Longrightarrow> R c e c2"
    and complained: "t \<noteq> [] \<or> e \<noteq> Some (Exited False) \<Longrightarrow> R c e (c\<lparr>cn_err := cn_err c @ t\<rparr>)"
    and called: "declared_call member vs \<Longrightarrow> P member vs (cn_peer c) = (r, s)
      \<Longrightarrow> R c (stop_of r) (c\<lparr>cn_peer := s, cn_calls := cn_calls c @ [(member, vs)]\<rparr>)"
begin

lemma walks_silent:
  "(\<And>c. cn_err (snd (m c)) = cn_err c \<and> cn_calls (snd (m c)) = cn_calls c \<and> fst (m c) \<noteq> Inl (Exited False)) \<Longrightarrow> walks R m"
  by (simp add: walks_def stay)

lemma walks_basic [walking]:
  "walks R (retS a)" "walks R (getS f)" "walks R popArg" "walks R (decode d vs)" "walks R (no_reply vs)" "walks R (say t)"
  "walks R (run_system W command)" "walks R (undo_file env fp i files)"
  by (intro walks_silent; auto simp: popArg_def decode_def no_reply_def say_def run_system_def undo_file_def
      split: sum.split prod.split)+

lemma walks_throw: "e \<noteq> Exited False \<Longrightarrow> walks R (throwS e)" "x \<noteq> Inl (Exited False) \<Longrightarrow> walks R (liftS x)"
  by (simp_all add: walks_silent)

lemma walks_threw [walking]: "walks R (throwS (Threw x))" "walks R (throwS Terminated)" "walks R (throwS (Exited True))"
  "walks R (throw_ifS b (Threw x))"
  by (simp_all add: walks_throw throw_ifS_def walks_basic(1))

lemma walks_modify: "(\<And>c. cn_err (f c) = cn_err c \<and> cn_calls (f c) = cn_calls c) \<Longrightarrow> walks R (modifyS f)"
  by (simp add: walks_silent)

lemma walks_complain [walking]: "walks R (complain t)"
  by (simp add: walks_def complain_def complained)

lemma walks_die: "t \<noteq> [] \<Longrightarrow> walks R (die t)"
  by (simp add: walks_def die_def complain_def complained)

lemma walks_bind [walking]:
  assumes "walks R m" "\<And>a. walks R (f a)"
  shows "walks R (bindS m f)"
  unfolding walks_def
proof
  fix c
  obtain r c1 where m: "m c = (r, c1)" by fastforce
  have "R c (stop_of r) c1" using assms(1) [unfolded walks_def, rule_format, of c] m by simp
  then show "R c (stop_of (fst (bindS m f c))) (snd (bindS m f c))"
    using m seq assms(2) [unfolded walks_def] by (cases r) auto
qed

lemma walks_cases [walking]:
  "(b \<Longrightarrow> walks R m) \<Longrightarrow> (\<not> b \<Longrightarrow> walks R n) \<Longrightarrow> walks R (if b then m else n)"
  "(x = None \<Longrightarrow> walks R m) \<Longrightarrow> (\<And>a. x = Some a \<Longrightarrow> walks R (f a)) \<Longrightarrow> walks R (case x of None \<Rightarrow> m | Some a \<Rightarrow> f a)"
  "(\<And>a b. walks R (g a b)) \<Longrightarrow> walks R (case p of (a, b) \<Rightarrow> g a b)"
  "(b \<Longrightarrow> walks R k) \<Longrightarrow> walks R (whenS b k)"
  by (auto split: option.split prod.split simp: whenS_def walks_basic(1))

lemma walks_loops [walking]:
  "(\<And>x a. walks R (f x a)) \<Longrightarrow> walks R (foldS f xs a)" "(\<And>x. walks R (h x)) \<Longrightarrow> walks R (foreachS h ys)"
proof -
  show "(\<And>x a. walks R (f x a)) \<Longrightarrow> walks R (foldS f xs a)" by (induction xs arbitrary: a) (auto intro!: walking)
  show "(\<And>x. walks R (h x)) \<Longrightarrow> walks R (foreachS h ys)" by (induction ys) (auto intro!: walking)
qed

lemma walks_for_args [walking]: "(\<And>x a. walks R (f x a)) \<Longrightarrow> walks R (for_args f a)"
  unfolding for_args_def by (intro walking)

lemma walks_open [walking]: "walks R (open_write W name)" "walks R (open_read W name)"
proof -
  have d: "walks R (die (opening_failed name))" by (rule walks_die) (simp add: opening_failed_def)
  show "walks R (open_write W name)" "walks R (open_read W name)"
    using d [unfolded walks_def] unfolding walks_def open_write_def open_read_def by (auto split: sum.split intro: stay)
qed

lemma walks_getopts [walking]: "walks R (getopts_parse command lo)"
proof -
  have e: "t \<noteq> []" if "parse_loop command lo r s = (Inl t, s')" for r s t s'
    using that
  proof (induction command lo r s rule: parse_loop.induct)
    case (1 command lo r s)
    show ?case
    proof (cases "getopt_long (make_optstring lo) lo s")
      case (Pair x s1)
      show ?thesis
      proof (cases x)
        case (OptFound v i arg)
        then show ?thesis using 1 Pair by (simp add: parse_loop.simps [of command lo r s])
      qed (use "1.prems" Pair in \<open>auto simp: parse_loop.simps [of command lo r s] unknown_option_def missing_argument_def endl_def\<close>)
    qed
  qed
  show ?thesis
    unfolding walks_def
  proof
    fix c :: "'s client"
    obtain r s where p: "parse_loop command lo [] \<lparr>sc_prev = cn_prev c, sc_next = [], sc_args = cn_args c\<rparr> = (r, s)"
      by fastforce
    let ?c1 = "c\<lparr>cn_prev := sc_prev s, cn_args := sc_args s\<rparr>"
    have 1: "R c None ?c1" by (rule stay) simp_all
    show "R c (stop_of (fst (getopts_parse command lo c))) (snd (getopts_parse command lo c))"
    proof (cases r)
      case (Inl t)
      have "t \<noteq> []" by (rule e [OF p [unfolded Inl]])
      then have "walks R (die t :: ('s, parsed_opts) cstep)" by (rule walks_die)
      then have "R c (stop_of (fst ((die t :: ('s, parsed_opts) cstep) ?c1))) (snd ((die t :: ('s, parsed_opts) cstep) ?c1))"
        using seq [OF 1] unfolding walks_def by blast
      then show ?thesis using p Inl by (simp add: getopts_parse_def Let_def)
    qed (use p 1 in \<open>simp add: getopts_parse_def Let_def\<close>)
  qed
qed

lemma walks_read [walking]:
  "walks R (read_num s)" "walks R (read_nums s d)" "walks R (read_userdata s old)" "walks R (no_args name)"
  "walks R (needs_args ok name what)" "walks R (read_style W opts)" "walks R (delete_arg xs s nums)"
proof -
  show n: "walks R (read_num s)" for s :: string
    unfolding read_num_def by (intro walking walks_die) (simp_all add: endl_def)
  show ns: "walks R (read_nums s d)" for d
    unfolding read_nums_def by (intro walking n walks_die) (simp_all add: endl_def)
  show "walks R (read_userdata s old)"
    unfolding read_userdata_def by (intro walking walks_die) (simp_all add: endl_def)
  show "walks R (no_args name)" "walks R (needs_args ok name what)"
    unfolding no_args_def needs_args_def by (intro walking walks_die; simp add: endl_def)+
  show "walks R (read_style W opts)"
    unfolding read_style_def Let_def by (intro walking walks_die) (simp_all add: endl_def)
  show "walks R (delete_arg xs s nums)"
    unfolding delete_arg_def by (intro walking n ns)
qed

subsection \<open>The commands\<close>

lemma walks_call: "declared_call member vs \<Longrightarrow> walks R (bus_call P member vs)"
  by (auto simp: walks_def bus_call_def split: prod.split intro: called)

lemma sent_types:
  "sig_of (enc_string s) = ''s''" "sig_of (enc_u32 n) = ''u''" "sig_of (enc_bool b) = ''b''" "sig_of (enc_map m) = ''a{ss}''"
  "sig_of (enc_array t enc xs) = ''a'' @ t"
  "declared_call member vs \<longleftrightarrow> declared_in member = Some (map sig_of vs) \<or> member = ''Debug'' \<and> vs = []"
  "declared_in member = map_option (\<lambda>(ins, outs). map snd ins) (map_of bus_methods member)"
  by (simp_all add: sig_enc_string enc_u32_def enc_bool_def sig_enc_map enc_array_def declared_call_def declared_in_def)

lemma walks_calls [walking]:
  shows "walks R (command_list_xconfigs P)" "walks R (command_get_xconfig P cfg)"
    "walks R (command_create_xconfig P cfg sub fst' tpl)" "walks R (command_delete_xconfig P cfg)"
    "walks R (command_list_xsnapshots P cfg)" "walks R (command_get_xsnapshot P cfg n)" "walks R (command_set_xsnapshot P cfg n x)"
    "walks R (command_create_single_xsnapshot P cfg d cl u)" "walks R (command_create_pre_xsnapshot P cfg d cl u)"
    "walks R (command_create_post_xsnapshot P cfg n d cl u)" "walks R (command_delete_xsnapshots P cfg ns)"
    "walks R (command_mount_xsnapshots P cfg n b)" "walks R (command_umount_xsnapshots P cfg n b)"
    "walks R (command_get_xmount_point P cfg n)" "walks R (command_create_xcomparison P cfg n n')"
    "walks R (command_get_xfiles P cfg n n')" "walks R (command_xdebug P)"
  unfolding command_list_xconfigs_def command_get_xconfig_def command_create_xconfig_def command_delete_xconfig_def
    command_list_xsnapshots_def command_get_xsnapshot_def command_set_xsnapshot_def command_create_single_xsnapshot_def
    command_create_pre_xsnapshot_def command_create_post_xsnapshot_def command_delete_xsnapshots_def
    command_mount_xsnapshots_def command_umount_xsnapshots_def command_get_xmount_point_def
    command_create_xcomparison_def command_get_xfiles_def command_xdebug_def
  by (intro walking walks_call; simp add: sent_types bus_methods_def)+

text \<open>What the code computes between the calls ends the program by \<open>std::terminate\<close> at most.\<close>

lemma pure_stops:
  "x_findPre i xs \<noteq> Inl (Exited b)" "x_findPost i xs \<noteq> Inl (Exited b)"
  by (simp_all add: x_findPre_def x_findPost_def)

lemma bindR_stop: "r \<noteq> Inl e \<Longrightarrow> (\<And>a. f a \<noteq> Inl e) \<Longrightarrow> bindR r f \<noteq> Inl e"
  by (auto simp: bindR_eq_Inl)

lemma mapR_stop: "(\<And>x. f x \<noteq> Inl e) \<Longrightarrow> mapR f xs \<noteq> Inl e"
  by (induction xs) (auto simp: bindR_eq_Inl)

lemma filter2_stop: "filter2 xs tmp \<noteq> Inl (Exited b)"
proof -
  have "lacks_partner xs tmp i \<noteq> Inl (Exited b)" for i
    unfolding lacks_partner_def by (intro bindR_stop) (simp_all add: bindR_eq_Inl pure_stops)
  then have "filter2_loop xs tmp is \<noteq> Inl (Exited b)" for "is"
    by (induction "is") (auto simp: bindR_eq_Inl)
  then show ?thesis by (simp add: filter2_def)
qed

lemma victims_stop: "number_victims W t l xs \<noteq> Inl (Exited b)" "timeline_victims W t ls xs \<noteq> Inl (Exited b)"
  by (simp_all add: number_victims_def timeline_victims_def Let_def filter2_stop)

lemma list_rows_stop: "list_rows W mode xs \<noteq> Inl (Exited b)"
proof -
  have r: "row_all W x \<noteq> Inl (Exited b)" for x by (simp add: row_all_def split: sum.split)
  have "rows_pre_post W xs i \<noteq> Inl (Exited b)" for i
    by (auto simp: rows_pre_post_def bindR_eq_Inl pure_stops)
  then show ?thesis
    using mapR_stop [of "row_all W" "Exited b" xs] r mapR_stop [of "rows_pre_post W xs" "Exited b" "[0..<length xs]"]
    by (cases mode) (auto simp: list_rows_def bindR_eq_Inl)
qed

lemma walks_cleanups [walking]:
  shows "walks R (do_cleanup_number W P cfg)" "walks R (do_cleanup_timeline W P cfg)" "walks R (do_cleanup_empty_pre_post W P cfg)"
proof -
  have d: "walks R (delete_each P cfg xs v)" for xs v
    unfolding delete_each_def by (intro walking)
  have e: "walks R (empty_pairs P cfg xs is)" for xs "is"
  proof (induction "is")
    case (Cons i "is")
    then show ?case unfolding empty_pairs.simps by (intro walking walks_throw pure_stops)
  qed (simp only: empty_pairs.simps walking)
  show "walks R (do_cleanup_number W P cfg)" "walks R (do_cleanup_timeline W P cfg)" "walks R (do_cleanup_empty_pre_post W P cfg)"
    unfolding do_cleanup_number_def do_cleanup_timeline_def do_cleanup_empty_pre_post_def
    by (intro walking walks_throw d e victims_stop filter2_stop)+
qed

lemma walks_my_comparison [walking]: "walks R (my_comparison g P nums m)"
  unfolding my_comparison_def Let_def by (intro walking)

lemma walks_undo [walking]: "walks R (undo_marked W g fp files)" "walks R (mark_line fp line files)" "walks R (mark_arg fp name files)"
proof -
  have "walks R (undo_one W g fp st files)" for st files
    unfolding undo_one_def Let_def by (intro walking walks_die) (simp_all add: endl_def)
  then show "walks R (undo_marked W g fp files)" unfolding undo_marked_def Let_def by (intro walking)
  show "walks R (mark_line fp line files)" unfolding mark_line_def by (intro walking walks_die) (simp add: endl_def)
  show "walks R (mark_arg fp name files)" unfolding mark_arg_def by (intro walking)
qed

lemma walks_print [walking]: "walks R (print_table W g h rows)" "walks R (show_diff W fp f)"
  unfolding print_table_def show_diff_def by (intro walking)+

lemma walks_commands:
  shows "walks R (command_list_configs W g P)" "walks R (command_create_config W g P)" "walks R (command_delete_config W g P)"
    "walks R (command_list W g P)" "walks R (command_create W g P)" "walks R (command_modify W g P)"
    "walks R (command_delete W g P)" "walks R (command_mount W g P)" "walks R (command_umount W g P)"
    "walks R (command_status W g P)" "walks R (command_diff W g P)" "walks R (command_undo W g P)"
    "walks R (command_cleanup W g P)" "walks R (command_debug W g P)"
proof -
  note rules = walking
  show "walks R (command_list_configs W g P)" unfolding command_list_configs_def by (intro rules)
  show "walks R (command_create_config W g P)" unfolding command_create_config_def Let_def
    by (intro rules walks_die) (simp_all add: endl_def)
  show "walks R (command_delete_config W g P)" unfolding command_delete_config_def by (intro rules)
  show "walks R (command_list W g P)" unfolding command_list_def
    by (intro rules walks_die walks_throw list_rows_stop) (simp add: endl_def)
  have c: "walks R (create_of_type W g P type n d cl u command)" for type n d cl u command
    unfolding create_of_type_def Let_def by (cases type) (simp_all, (intro rules)+)
  show "walks R (command_create W g P)" unfolding command_create_def Let_def
    by (intro rules c walks_die) (simp_all add: endl_def)
  have m: "walks R (modify_one g P opts arg)" for opts arg unfolding modify_one_def by (intro rules)
  show "walks R (command_modify W g P)" unfolding command_modify_def by (intro rules m)
  show "walks R (command_delete W g P)" unfolding command_delete_def by (intro rules)
  show "walks R (command_mount W g P)" unfolding command_mount_def by (intro rules)
  show "walks R (command_umount W g P)" unfolding command_umount_def by (intro rules)
  show "walks R (command_status W g P)" unfolding command_status_def by (intro rules walks_modify) simp
  show "walks R (command_diff W g P)" unfolding command_diff_def by (intro rules)
  show "walks R (command_undo W g P)" unfolding command_undo_def
    by (intro rules walks_die) (simp add: endl_def)
  show "walks R (command_cleanup W g P)" unfolding command_cleanup_def Let_def
    by (intro rules walks_die) (simp add: endl_def)
  show "walks R (command_debug W g P)" unfolding command_debug_def by (intro rules)
qed

lemma walks_handle:
  assumes "R c (Some e) c1"
  shows "R c (stop_of (fst (handle e c1))) (snd (handle e c1))"
proof (cases "e = Exited False")
  case False
  then have "walks R (handle e)" unfolding handle_def
    by (cases e) (simp_all add: walking walks_die endl_def)
  then show ?thesis unfolding walks_def using seq [OF assms] by blast
qed (use assms in \<open>simp add: handle_def\<close>)

lemma walks_catch: "walks R m \<Longrightarrow> walks R (catchS m handle)"
  by (auto simp: walks_def catchS_def split: prod.split sum.split intro!: walks_handle) (metis fst_conv snd_conv stop_of_simps)+

lemma walks_main:
  shows "walks R (snapper_main W P)"
proof -
  have h: "walks R show_help" unfolding show_help_def by (intro walking)
  have "walks R (run_command W g P cmd)" if "map_of cmds name = Some cmd" for g name cmd
  proof -
    have "walks R (cmd W g P)"
      using map_of_SomeD [OF that] by (auto simp: cmds_def walks_commands)
    then show ?thesis unfolding run_command_def by (intro walking walks_catch)
  qed
  then show ?thesis
    unfolding snapper_main_def Let_def
    by (intro walking walks_die h) (simp_all add: endl_def)
qed

end

end
