(* ===== verification/ExitClaims.thy ===== *)
theory ExitClaims
  imports ClientClaims ClientWalk
begin

text \<open>
  How the program ends and what it sends, as two walks through it: a failing exit is always explained by a
  message on the standard error output, and every call has the arguments that the interface description declares.
\<close>

text \<open>A peer that never ends the program itself.\<close>

definition quiet_peer :: "'s peer \<Rightarrow> bool" where
  "quiet_peer P \<longleftrightarrow> (\<forall>member vs s. fst (P member vs s) \<noteq> Inl (Exited False))"

text \<open>What is printed on the standard error output between two states, and that it explains a failing exit.\<close>

definition explained :: "'s peer \<Rightarrow> 's client \<Rightarrow> stop option \<Rightarrow> 's client \<Rightarrow> bool" where
  "explained P c e c' \<longleftrightarrow>
     (quiet_peer P \<longrightarrow> (\<exists>t. cn_err c' = cn_err c @ t \<and> (e = Some (Exited False) \<longrightarrow> t \<noteq> [])))"

interpretation explain: client_run P "explained P" for P
proof unfold_locales
  show "explained P c e0 c1 \<Longrightarrow> explained P c1 e c2 \<Longrightarrow> explained P c e c2" for c e0 c1 e c2
    by (auto simp: explained_def)
  show "P member vs (cn_peer c) = (r, s) \<Longrightarrow> explained P c (stop_of r) (c\<lparr>cn_peer := s, cn_calls := cn_calls c @ [(member, vs)]\<rparr>)"
    for member vs c r s
    by (auto simp: explained_def quiet_peer_def) (metis fst_conv)
qed (auto simp: explained_def)

text \<open>The calls between two states.\<close>

definition typed_calls :: "'s client \<Rightarrow> stop option \<Rightarrow> 's client \<Rightarrow> bool" where
  "typed_calls c e c' \<longleftrightarrow> (\<exists>calls. cn_calls c' = cn_calls c @ calls \<and> (\<forall>(member, vs)\<in>set calls. declared_call member vs))"

interpretation typed: client_run P typed_calls for P
proof unfold_locales
  show "typed_calls c e0 c1 \<Longrightarrow> typed_calls c1 e c2 \<Longrightarrow> typed_calls c e c2" for c c1 c2 :: "'a client" and e0 e
    by (force simp: typed_calls_def)
qed (auto simp: typed_calls_def)

subsection \<open>\<open>main\<close>\<close>

text \<open>How a step can end.\<close>

definition ends_in :: "stop set \<Rightarrow> ('s, 'a) cstep \<Rightarrow> bool" where
  "ends_in E m \<longleftrightarrow> (\<forall>c e. fst (m c) = Inl e \<longrightarrow> e \<in> E)"

lemma ends_basic: "ends_in E (retS a)" "ends_in E (getS f)" "ends_in E popArg" "ends_in E (say t)" "e \<in> E \<Longrightarrow> ends_in E (throwS e)"
  "Exited False \<in> E \<Longrightarrow> ends_in E (die t)"
  by (auto simp: ends_in_def popArg_def say_def die_def complain_def)

lemma ends_bind: "ends_in E m \<Longrightarrow> (\<And>a. ends_in E (f a)) \<Longrightarrow> ends_in E (bindS m f)"
  unfolding ends_in_def bindS_def by (auto split: prod.splits sum.splits) (metis fst_conv)+

lemma ends_cases:
  "(b \<Longrightarrow> ends_in E m) \<Longrightarrow> (\<not> b \<Longrightarrow> ends_in E n) \<Longrightarrow> ends_in E (if b then m else n)"
  "(x = None \<Longrightarrow> ends_in E m) \<Longrightarrow> (\<And>a. x = Some a \<Longrightarrow> ends_in E (f a)) \<Longrightarrow> ends_in E (case x of None \<Rightarrow> m | Some a \<Rightarrow> f a)"
  by (auto split: option.split)

lemma ends_getopts: "Exited False \<in> E \<Longrightarrow> ends_in E (getopts_parse command lo)"
  by (auto simp: ends_in_def getopts_parse_def Let_def die_def complain_def split: prod.splits sum.splits)

lemmas ends_rules = ends_basic ends_bind ends_cases ends_getopts

definition main_ends :: "stop set" where
  "main_ends = {Exited True, Exited False, Terminated, Threw Diverges}"

lemma ends_main: "ends_in main_ends (snapper_main W P)"
proof -
  have E: "Exited False \<in> main_ends" "Exited True \<in> main_ends" by (simp_all add: main_ends_def)
  have h: "ends_in main_ends (handle e)" for e
    using E by (cases e) (auto simp: handle_def ends_in_def die_def complain_def main_ends_def)
  have "ends_in main_ends (catchS m handle)" for m :: "('a, unit) cstep"
    using h by (auto simp: ends_in_def catchS_def split: prod.splits sum.splits)
  then have r: "ends_in main_ends (run_command W g P cmd)" for g and cmd :: "'a command"
    unfolding run_command_def by (intro ends_rules E)
  show ?thesis
    unfolding snapper_main_def read_style_def show_help_def no_args_def Let_def by (intro ends_rules E r)
qed

text \<open>Steps that do not return: \<open>main\<close> and the functions it ends with.\<close>

definition never :: "('s, 'a) cstep \<Rightarrow> bool" where
  "never m \<longleftrightarrow> (\<forall>c. isl (fst (m c)))"

lemma never_rules:
  "never (throwS e)" "never (die t)" "(\<And>a. never (k a)) \<Longrightarrow> never (bindS m' k)"
  "(b \<Longrightarrow> never m) \<Longrightarrow> (\<not> b \<Longrightarrow> never n) \<Longrightarrow> never (if b then m else n)"
  "(x = None \<Longrightarrow> never m) \<Longrightarrow> (\<And>a. x = Some a \<Longrightarrow> never (f a)) \<Longrightarrow> never (case x of None \<Rightarrow> m | Some a \<Rightarrow> f a)"
  by (auto simp: never_def die_def complain_def bindS_def split: prod.split sum.split option.split)

lemma never_main: "never (snapper_main W P)"
  unfolding snapper_main_def show_help_def run_command_def Let_def by (intro never_rules)

text \<open>C13. Every run of the program ends by leaving the process, and a failing exit is explained: \<open>main\<close> does not
  return, it exits with success, exits with failure after at least one message on the standard error output, ends by
  \<open>std::terminate\<close>, or does not come back from the loop over a range; what was printed before is kept.\<close>
theorem main_explains_failure:
  assumes "quiet_peer P"
  shows "\<exists>e c' t. snapper_main W P c = (Inl e, c') \<and> e \<in> {Exited True, Exited False, Terminated, Threw Diverges}
    \<and> cn_err c' = cn_err c @ t \<and> (e = Exited False \<longrightarrow> t \<noteq> [])"
proof -
  obtain r c' where r: "snapper_main W P c = (r, c')" by fastforce
  have "isl r" using never_main [of W P, unfolded never_def, rule_format, of c] r by simp
  then obtain e where e: "r = Inl e" by (auto simp: isl_def)
  moreover have "e \<in> main_ends" using ends_main [of W P, unfolded ends_in_def, rule_format, of c e] r e by simp
  moreover have "walks (explained P) (snapper_main W P)" by (rule explain.walks_main)
  then have "explained P c (stop_of (fst (snapper_main W P c))) (snd (snapper_main W P c))" by (simp only: walks_def)
  then obtain t where "cn_err c' = cn_err c @ t" "e = Exited False \<longrightarrow> t \<noteq> []" using r e assms by (auto simp: explained_def)
  ultimately show ?thesis using r by (auto simp: main_ends_def)
qed

text \<open>Two runs: an unknown command, and \<open>mount\<close> of what is no number.\<close>

theorem main_explains_failure_witness:
  "\<exists>c' t. snapper_main cenv_ex (comparing_peer sample_paths []) (cn_ex [''mount'', ''x'']) = (Inl (Exited False), c')
    \<and> cn_err c' = t \<and> t \<noteq> []"
proof -
  have q: "quiet_peer (comparing_peer sample_paths [])" by (simp add: quiet_peer_def comparing_peer_def)
  have x: "fst (snapper_main cenv_ex (comparing_peer sample_paths []) (cn_ex [''mount'', ''x''])) = Inl (Exited False)"
    by code_simp
  have "cn_err (cn_ex [''mount'', ''x'']) = []" by (simp add: cn_ex_def)
  then show ?thesis using main_explains_failure [OF q, of cenv_ex "cn_ex [''mount'', ''x'']"] x by auto
qed

text \<open>C14. The calls of the program are typed: whatever the arguments, the answers and the failures, \<open>main\<close> only calls
  methods of the interface description, with arguments of the declared types in the declared order, and \<open>Debug\<close>.\<close>
theorem calls_are_declared:
  "\<exists>calls. cn_calls (snd (snapper_main W P c)) = cn_calls c @ calls
    \<and> (\<forall>(member, vs)\<in>set calls. declared_in member = Some (map sig_of vs) \<or> member = ''Debug'' \<and> vs = [])"
proof -
  have "walks typed_calls (snapper_main W P)" by (rule typed.walks_main)
  then have "typed_calls c (stop_of (fst (snapper_main W P c))) (snd (snapper_main W P c))" by (simp only: walks_def)
  then show ?thesis by (simp add: typed_calls_def declared_call_def)
qed

theorem calls_are_declared_witness:
  "map fst (cn_calls (snd (snapper_main cenv_ex (comparing_peer sample_paths []) (cn_ex [''delete-config''])))) = [''DeleteConfig'']
   \<and> list_all (\<lambda>(member, vs). declared_in member = Some (map sig_of vs) \<or> member = ''Debug'' \<and> vs = [])
      (cn_calls (snd (snapper_main cenv_ex (comparing_peer sample_paths []) (cn_ex [''delete-config'']))))"
proof -
  let ?c = "cn_ex [''delete-config'']"
  have m: "map fst (cn_calls (snd (snapper_main cenv_ex (comparing_peer sample_paths []) ?c))) = [''DeleteConfig'']"
    by code_simp
  have "cn_calls ?c = []" by (simp add: cn_ex_def)
  then show ?thesis
    using calls_are_declared [of cenv_ex "comparing_peer sample_paths []" ?c] m by (auto simp: list_all_iff)
qed

end
