(* ===== verification/Spec2Isabelle.thy ===== *)
theory Spec2Isabelle
  imports UndoClaims CompareClaims DBusCodec ComparisonClaims SnapperClaims ServerClaims SendStreamClaims CleanupClaims EmptyPairs
    FilesystemClaims AnswerClaims ServerTypes MainLoopClaims ShellOutput ArgClaims ClientClaims ExitClaims
begin

text \<open>
  snapper: a verification development.

  snapper takes snapshots of a file system, compares two of them, and undoes the changes between them.  A library
  (\<open>src/snapper\<close>) keeps the snapshots of each configuration on disk, a service (\<open>src/server\<close>) offers it on the system
  bus (\<open>src/dbus\<close>), and a program (\<open>src/client\<close>) calls the service, does the undoing and the cleanup, and talks to
  the user.

  \<^bold>\<open>The theories, from the bottom.\<close>

  \<^descr> \<open>Prelude\<close>, \<open>Steps\<close>, \<open>Strings\<close>, \<open>Datetime\<close>: results (\<open>exn + 'a\<close>), state-and-exception steps (\<open>retS\<close>, \<open>bindS\<close>,
    \<open>throwS\<close>, \<open>catchS\<close>, \<open>foreachS\<close>) with the rules of \<open>keeps P\<close> (the collection \<open>keeps\<close>), \<open>std::map\<close> as an ordered
    association list with its laws as a locale, string functions and \<open>quote\<close>, and the dates of \<open>AppUtil.cc\<close>.
  \<^descr> \<open>Status\<close>: \<open>File.h\<close>, \<open>Enum.cc\<close>: status words as \<open>u32\<close>, their bits and texts.
  \<^descr> \<open>Posix\<close>: the file system and the system calls the library makes, as root on Linux: a map from paths to inodes
    with links, modes, owners and the failures that depend on it.  Resolution follows at most 40 links, as the kernel does.
  \<^descr> \<open>Compare\<close>, \<open>CompareSpec\<close>, \<open>CompareClaims\<close>: \<open>Compare.cc\<close>: the block comparison, \<open>cmpFiles\<close> and the merge of two
    directories; \<open>CompareSpec\<close> has the status of a single path, \<open>CompareClaims\<close> shows that \<open>cmpDirs\<close> reports exactly these.
  \<^descr> \<open>SendStream\<close>, \<open>SendStreamTree\<close>, \<open>SendStreamClaims\<close>: the comparison by a btrfs send stream (\<open>Btrfs.cc\<close>,
    \<open>tree_node\<close> and \<open>StreamProcessor\<close>), as a refinement of a map from paths to statuses.
  \<^descr> \<open>Files\<close>, \<open>FilesFind\<close>, \<open>Restore\<close>, \<open>Undo\<close>, \<open>UndoAll\<close>, \<open>UndoClaims\<close>: \<open>File.cc\<close>: the list of files, its binary
    search, and the undoing of one file and of all files on \<open>Posix\<close>.
  \<^descr> \<open>Sysconfig\<close>, \<open>XmlFile\<close>: \<open>AsciiFile.cc\<close> and \<open>XmlFile.cc\<close>.
  \<^descr> \<open>ShellOutput\<close>: the part of \<open>SystemCmd.cc\<close> that collects the output of a program.
  \<^descr> \<open>Filesystems\<close>, \<open>FilesystemClaims\<close>: \<open>Filesystem.cc\<close>, \<open>Btrfs.cc\<close>, \<open>Lvm.cc\<close>, \<open>Ext4.cc\<close>; the locale \<open>filesystem\<close> is
    what the list of snapshots relies on, interpreted by btrfs.
  \<^descr> \<open>Snapshot\<close>, \<open>Snapshots\<close>, \<open>SnapshotDisk\<close>, \<open>SnapshotsSync\<close>, \<open>SnapshotsOps\<close>, \<open>SnapshotClaims\<close>: \<open>Snapshot.cc\<close>:
    information files, creation and deletion with their clean-up, mounts.  The disk has a script of faults, so that
    every call can fail; the invariant is that list and disk are in sync.
  \<^descr> \<open>Comparison\<close>, \<open>ComparisonClaims\<close>: \<open>Comparison.cc\<close>: saved and computed file lists.
  \<^descr> \<open>Snapper\<close>, \<open>SnapperClaims\<close>: \<open>Snapper.cc\<close>: the configurations.
  \<^descr> \<open>DBusCodec\<close>, \<open>Introspection\<close>: \<open>DBusMessage.cc\<close>, \<open>Types.cc\<close>: values on the bus, with a locale \<open>codec\<close> for the types
    that have an encoder and a decoder; the interface description of \<open>Client.cc\<close>.
  \<^descr> \<open>ServerState\<close>, \<open>Server\<close>, \<open>ServerRun\<close>: \<open>MetaSnapper.cc\<close>, \<open>Client.cc\<close>, \<open>Background.cc\<close>, \<open>snapperd.cc\<close>: requests,
    dispatch with the translation of exceptions, threads as events, and \<open>reachable\<close>, the inductive set of states.
    \<open>ServerInvariant\<close>, \<open>ServerKeeps\<close>, \<open>ServerRequests\<close>, \<open>ServerEvents\<close> prove the invariant of reachable states;
    \<open>ServerReplies\<close>, \<open>AnswerClaims\<close> and \<open>ServerTypes\<close> are about the answers, their number and their types, which are those
    that the client reads (the locale \<open>inert\<close> of predicates that the operations below the
    requests keep, and its extension \<open>deaf\<close>, which every request keeps);
    \<open>MainLoop\<close>, \<open>MainLoopClaims\<close> have \<open>DBusMainLoop.cc\<close>: the rounds of the main loop (\<open>main_run\<close> is \<open>MainLoop::run\<close>) and the
    end of the idle service;
    \<open>ServerExample\<close> has a concrete run; \<open>ServerClaims\<close> has the guarantees.
  \<^descr> \<open>ClientCalls\<close>, \<open>Cleanup\<close>, \<open>CleanupClaims\<close>: \<open>commands.cc\<close>, \<open>types.cc\<close>, \<open>cleanup.cc\<close>.
    \<open>ClientServer\<close>, \<open>CleanupServer\<close>, \<open>EmptyPairs\<close>: client and server together, the server being the peer of the client: what
    the cleanup by number leaves, and why the cleanup of empty pairs deletes nothing.
  \<^descr> \<open>GetOpts\<close>, \<open>Tables\<close>, \<open>ClientArgs\<close>, \<open>ClientMain\<close>, \<open>ClientProgram\<close>: \<open>client/utils\<close> and \<open>client/snapper.cc\<close>: options,
    tables, arguments, the fourteen commands, the help and \<open>main\<close>.  \<open>ArgClaims\<close>, \<open>ClientClaims\<close> and \<open>ExitClaims\<close> have
    their properties; \<open>ClientWalk\<close> goes once through the whole program for any relation that its steps keep (the locale
    \<open>client_run\<close>, interpreted for the explanation of failures and for the types of the calls).

  \<^bold>\<open>State.\<close>  Each layer has the state of the code as a record: \<open>world\<close> (the disk of one configuration) and
  \<open>entries\<close> (\<open>Snapshots\<close>), \<open>etc\<close> (the configuration files and all disks), \<open>server\<close> (the global variables of the
  service: \<open>meta_snappers\<close>, \<open>clients\<close>, \<open>backgrounds\<close>, and what was sent), \<open>client\<close> (\<open>argv\<close> from \<open>optind\<close> on, the two output
  streams, the file system, what the peer knows).  Iterators into lists are indices, with the length for \<open>end()\<close>;
  pointers that are compared (\<open>Snapper*\<close>) are numbers.  The thread of each client makes
  steps between the points where the code takes and releases \<open>big_mutex\<close>, so that \<open>CreateComparison\<close> is two steps.  The
  background thread does not take \<open>big_mutex\<close>: it takes the first task, gets the \<open>Snapper\<close>, makes the comparison, returns
  the use of the configuration and removes the task, each in a step of its own (\<open>worker\<close> is the place it has reached),
  between any steps of the others.  The computation of one comparison is one step.
  The steps of the threads are the relation \<open>reachable\<close>; \<open>main_run\<close> is the main thread between them.

  \<^bold>\<open>What the groups of lemmas show.\<close>  Undoing: a subvolume other than \<open>/\<close>, of which every file can be
  undone (\<open>all_undoable\<close>), gets the inodes of the snapshot, by the library and by the command \<open>undochange\<close>.  Comparing: exactly the differences are reported.  Snapshots: list and disk stay in
  sync under any failure, numbers are fresh, a reload gives the list whose information files were written.  Server: counters count uses, comparisons
  do not dangle, permissions and locks are kept, every request is answered once and with the right types.  Cleanup:
  what is chosen and, with the server, what is left.  Client: options, user data and ranges are read as written,
  tables are aligned, calls have the declared types, and a failing exit is explained.

  \<^bold>\<open>Bounds and termination.\<close>  Loops are structural or have a measure: the search of a number is bounded by the
  numbers above the last (\<open>unsigned int\<close>, 32 bits, with its wrap-around); the loop of \<open>delete\<close> over a range, which can run
  for ever, is a \<open>partial_function\<close> whose \<open>None\<close> is proved to be exactly the case of the largest number; the scan of
  options and the splitting of lines have their text as measure.  \<open>Diverges\<close> stands for a run that does not come back.
  Status words, counts and times have the widths of the code.

  \<^bold>\<open>Parameters.\<close>  Parsing and printing of XML, programs that are run (\<open>lvcreate\<close>, \<open>chsnap\<close>, \<open>cp\<close>, \<open>rm\<close>, \<open>diff\<close>, the
  shell), the ioctls and the stream of btrfs, the mount table, \<open>fnmatch\<close>, the account databases, the users of
  connections, the time zone, \<open>strftime\<close> with \<open>%c\<close>, \<open>mbrtowc\<close>, \<open>wcwidth\<close>, the width of the terminal and the document
  type of libdbus are arguments of the definitions that use them.  \<open>getopt_long\<close> is written out from its manual.

  \<^bold>\<open>Not modelled.\<close>  Logging (\<open>Log.cc\<close>, \<open>Logger.cc\<close>), also where the client prints errors of the library;
  translation of messages; starting and waiting for programs (the rest of \<open>SystemCmd.cc\<close>); the calls of libdbus in
  \<open>DBusConnection.cc\<close> that only pass on errors; the wrappers of \<open>regcomp\<close> (\<open>Regex.cc\<close>), of the terminal (\<open>console.cc\<close>) and of a single \<open>Snapper\<close> (\<open>Factory.cc\<close>);
  \<open>mbs_write_wrapped\<close>, which nothing calls; I/O priorities and the option of \<open>snapperd\<close>; bindings, examples and tests.
  \<open>operator>>\<close> of numbers is that of C++11.
\<close>

end
